(* ===== verification/Prelude.thy ===== *)
theory Prelude
  imports
    Complex_Main
    "HOL-Library.Word"
    "HOL-Library.AList"
    "HOL-Library.List_Lexorder"
    "HOL-Library.Char_ord"
    "HOL-Library.Multiset"
begin

text \<open>
  Vocabulary shared by the component theories: the machine types of the Go sources, time and
  durations, decimal and hexadecimal text, Go maps as association lists, and the generic lemmas
  on words, sorted lists and association lists that the component proofs rest on.

  \<^item> \<open>u64\<close>, \<open>u32\<close>, \<open>u8\<close> are Go's \<open>uint64\<close>, \<open>uint32\<close>, \<open>uint8\<close>/\<open>byte\<close>: arithmetic wraps.
  \<^item> \<open>bytes\<close> is \<open>[]byte\<close>. A nil slice and an empty one are identified: the code reads slices
    through \<open>len\<close> and \<open>bytes.Equal\<close>, which do not tell them apart.
  \<^item> \<open>time\<close> is \<open>time.Time\<close> as nanoseconds since the zero time, so \<open>IsZero\<close> is \<open>t = 0\<close>;
    \<open>duration\<close> is \<open>time.Duration\<close> in nanoseconds. \<open>Time.Sub\<close> saturates at the int64 bounds.
  \<^item> A Go map is an association list with distinct keys; the order of the list is the order one
    \<open>range\<close> loop happens to take.
\<close>

type_synonym u64 = "64 word"
type_synonym u32 = "32 word"
type_synonym u8 = "8 word"
type_synonym bytes = "u8 list"
type_synonym time = int
type_synonym duration = int
type_synonym ('k, 'v) gomap = "('k \<times> 'v) list"

named_theorems u64_arith \<open>reading 64-bit words as natural numbers\<close>
named_theorems inv_intros \<open>every operation keeps its component's invariant\<close>

section \<open>Integers\<close>

text \<open>\<open>math.MaxUint64\<close>, written \<open>^uint64(0)\<close> in the sources, and the int64 bounds.\<close>

definition MaxUint64 :: u64 where
  "MaxUint64 = - 1"

definition MaxInt64 :: int where
  "MaxInt64 = 2 ^ 63 - 1"

definition MinInt64 :: int where
  "MinInt64 = - (2 ^ 63)"

definition sat_int64 :: "int \<Rightarrow> int" where
  "sat_int64 x = (if x > MaxInt64 then MaxInt64 else if x < MinInt64 then MinInt64 else x)"

text \<open>Go's int64 addition on values read as integers: the sum wraps modulo \<open>2 ^ 64\<close>.\<close>

definition wrap_int64 :: "int \<Rightarrow> int" where
  "wrap_int64 x = (x + 2 ^ 63) mod 2 ^ 64 - 2 ^ 63"

definition int64_range :: "int \<Rightarrow> bool" where
  "int64_range x = (MinInt64 \<le> x \<and> x \<le> MaxInt64)"

text \<open>\<open>Time.Sub\<close>: the difference, saturated to the range of a duration.\<close>

definition time_sub :: "time \<Rightarrow> time \<Rightarrow> duration" where
  "time_sub a b = sat_int64 (a - b)"

text \<open>\<open>time.UnixMilli\<close>, counted from the zero time.\<close>

definition UnixMilli :: "int \<Rightarrow> time" where
  "UnixMilli ms = 62135596800000000000 + ms * 1000000"

section \<open>Decimal and hexadecimal text\<close>

definition digit_char :: "nat \<Rightarrow> char" where
  "digit_char d = char_of (48 + d)"

definition is_digit :: "char \<Rightarrow> bool" where
  "is_digit c = (48 \<le> (of_char c :: nat) \<and> (of_char c :: nat) \<le> 57)"

definition digit_val :: "char \<Rightarrow> nat" where
  "digit_val c = of_char c - 48"

text \<open>\<open>%d\<close> of a non-negative value.\<close>

fun show_nat :: "nat \<Rightarrow> string" where
  "show_nat n = (if n < 10 then [digit_char n] else show_nat (n div 10) @ [digit_char (n mod 10)])"

declare show_nat.simps [simp del]

definition show_int :: "int \<Rightarrow> string" where
  "show_int i = (if i < 0 then CHR ''-'' # show_nat (nat (- i)) else show_nat (nat i))"

text \<open>\<open>%020d\<close>: zero padded to a width.\<close>

definition pad_zero :: "nat \<Rightarrow> string \<Rightarrow> string" where
  "pad_zero w s = replicate (w - length s) (CHR ''0'') @ s"

fun digits_val :: "nat \<Rightarrow> string \<Rightarrow> nat" where
  "digits_val acc [] = acc"
| "digits_val acc (c # cs) = digits_val (10 * acc + digit_val c) cs"

definition parse_nat :: "string \<Rightarrow> nat option" where
  "parse_nat s = (if s \<noteq> [] \<and> list_all is_digit s then Some (digits_val 0 s) else None)"

text \<open>\<open>strconv.ParseUint(s, 10, 64)\<close>.\<close>

definition ParseUint64 :: "string \<Rightarrow> u64 option" where
  "ParseUint64 s = (case parse_nat s of
     None \<Rightarrow> None
   | Some n \<Rightarrow> if n < 2 ^ 64 then Some (word_of_nat n) else None)"

text \<open>\<open>big.Int.SetString(s, 10)\<close>: an optional sign, then digits.\<close>

definition parse_int :: "string \<Rightarrow> int option" where
  "parse_int s = (case s of
     [] \<Rightarrow> None
   | c # cs \<Rightarrow>
       (if c = CHR ''-'' then map_option (\<lambda>n. - int n) (parse_nat cs)
        else if c = CHR ''+'' then map_option int (parse_nat cs)
        else map_option int (parse_nat s)))"

lemma of_char_digit_char [simp]: "d < 10 \<Longrightarrow> (of_char (digit_char d) :: nat) = 48 + d"
  by (simp add: digit_char_def)

lemma digit_char_is_digit [simp]: "d < 10 \<Longrightarrow> is_digit (digit_char d)"
  by (simp add: is_digit_def)

lemma digit_val_digit_char [simp]: "d < 10 \<Longrightarrow> digit_val (digit_char d) = d"
  by (simp add: digit_val_def)

lemma digits_val_append: "digits_val acc (xs @ ys) = digits_val (digits_val acc xs) ys"
  by (induction xs arbitrary: acc) simp_all

lemma show_nat_digits: "list_all is_digit (show_nat n)"
proof (induction n rule: show_nat.induct)
  case (1 n)
  then show ?case by (subst show_nat.simps) simp
qed

lemma show_nat_nonempty [simp]: "show_nat n \<noteq> []"
  by (subst show_nat.simps) simp

lemma digits_val_show_nat: "digits_val 0 (show_nat n) = n"
proof (induction n rule: show_nat.induct)
  case (1 n)
  then show ?case
    by (subst show_nat.simps) (simp add: digits_val_append)
qed

lemma parse_nat_show_nat [simp]: "parse_nat (show_nat n) = Some n"
  by (simp add: parse_nat_def show_nat_digits digits_val_show_nat)

lemma show_nat_not_sign: "c \<in> set (show_nat n) \<Longrightarrow> is_digit c"
  using show_nat_digits [of n] by (simp add: list_all_iff)

lemma parse_int_show_int [simp]: "parse_int (show_int i) = Some i"
proof (cases "i < 0")
  case True
  then show ?thesis by (simp add: show_int_def parse_int_def)
next
  case False
  obtain c cs where s: "show_nat (nat i) = c # cs"
    by (cases "show_nat (nat i)") auto
  then have "is_digit c"
    using show_nat_not_sign [of c "nat i"] by simp
  then have "c \<noteq> CHR ''-'' \<and> c \<noteq> CHR ''+''"
    by (auto simp: is_digit_def)
  moreover have "parse_nat (c # cs) = Some (nat i)"
    using parse_nat_show_nat [of "nat i"] s by simp
  ultimately show ?thesis
    using False s by (simp add: show_int_def parse_int_def)
qed

lemma show_nat_inject [simp]: "show_nat m = show_nat n \<longleftrightarrow> m = n"
  by (metis parse_nat_show_nat option.inject)

lemma show_int_inject [simp]: "show_int i = show_int j \<longleftrightarrow> i = j"
  by (metis parse_int_show_int option.inject)

text \<open>\<open>encoding/hex\<close>: lower-case encoding; decoding takes both cases and an even length.\<close>

definition hex_char :: "nat \<Rightarrow> char" where
  "hex_char d = (if d < 10 then char_of (48 + d) else char_of (87 + d))"

definition hex_val :: "char \<Rightarrow> nat option" where
  "hex_val c = (let n = (of_char c :: nat) in
     if 48 \<le> n \<and> n \<le> 57 then Some (n - 48)
     else if 97 \<le> n \<and> n \<le> 102 then Some (n - 87)
     else if 65 \<le> n \<and> n \<le> 70 then Some (n - 55)
     else None)"

definition is_hex :: "char \<Rightarrow> bool" where
  "is_hex c = (hex_val c \<noteq> None)"

fun hex_encode :: "bytes \<Rightarrow> string" where
  "hex_encode [] = []"
| "hex_encode (b # bs) = hex_char (unat b div 16) # hex_char (unat b mod 16) # hex_encode bs"

fun hex_decode :: "string \<Rightarrow> bytes option" where
  "hex_decode [] = Some []"
| "hex_decode [c] = None"
| "hex_decode (a # b # cs) =
     (case (hex_val a, hex_val b, hex_decode cs) of
        (Some x, Some y, Some bs) \<Rightarrow> Some (word_of_nat (16 * x + y) # bs)
      | _ \<Rightarrow> None)"

lemma hex_val_hex_char [simp]: "d < 16 \<Longrightarrow> hex_val (hex_char d) = Some d"
  by (simp add: hex_val_def hex_char_def)

lemma unat_u8_less [simp]: "unat (b :: u8) < 256"
  using unsigned_less [of b] by simp

lemma hex_decode_encode [simp]: "hex_decode (hex_encode bs) = Some bs"
proof (induction bs)
  case Nil
  then show ?case by simp
next
  case (Cons b bs)
  have "unat b div 16 < 16"
    using unat_u8_less [of b] by linarith
  then show ?case
    using Cons by simp
qed

lemma hex_encode_inject [simp]: "hex_encode a = hex_encode b \<longleftrightarrow> a = b"
  by (metis hex_decode_encode option.inject)

lemma hex_encode_is_hex: "list_all is_hex (hex_encode bs)"
proof (induction bs)
  case Nil
  then show ?case by simp
next
  case (Cons b bs)
  have "unat b div 16 < 16"
    using unat_u8_less [of b] by linarith
  then show ?case
    using Cons by (simp add: is_hex_def)
qed

lemma hex_encode_no_sep: "\<not> is_hex c \<Longrightarrow> c \<notin> set (hex_encode bs)"
  using hex_encode_is_hex [of bs] by (auto simp: list_all_iff)

text \<open>Splitting a text at the first separator is unambiguous when the prefix does not hold it.\<close>

lemma append_sep_inject:
  assumes "xs @ c # ys = xs' @ c # ys'" and "c \<notin> set xs" and "c \<notin> set xs'"
  shows "xs = xs' \<and> ys = ys'"
  using assms
proof (induction xs arbitrary: xs')
  case Nil
  then show ?case by (cases xs') auto
next
  case (Cons x xs)
  then show ?case by (cases xs') auto
qed

section \<open>Words as natural numbers\<close>

lemma unat_MaxUint64 [u64_arith]: "unat MaxUint64 = 2 ^ 64 - 1"
  by (simp add: MaxUint64_def unsigned_minus_1_eq_mask mask_eq_exp_minus_1)

lemma u64_less_alt [u64_arith]: "(a :: u64) < b \<longleftrightarrow> unat a < unat b"
  by (rule word_less_nat_alt)

lemma u64_le_alt [u64_arith]: "(a :: u64) \<le> b \<longleftrightarrow> unat a \<le> unat b"
  by (rule word_le_nat_alt)

lemma unat_u64_bound: "unat (a :: u64) < 2 ^ 64"
  using unsigned_less [of a] by simp

lemma int_unat_u64_bound: "int (unat (a :: u64)) < 2 ^ 64"
proof -
  have "int (unat a) < int (2 ^ 64)"
    using unat_u64_bound [of a] by (simp only: of_nat_less_iff)
  then show ?thesis by (simp only: of_nat_power of_nat_numeral)
qed

lemma unat_u64_sub [u64_arith]: "(b :: u64) \<le> a \<Longrightarrow> unat (a - b) = unat a - unat b"
  by (rule unat_sub)

lemma unat_u64_add [u64_arith]:
  "unat (a :: u64) + unat b < 2 ^ 64 \<Longrightarrow> unat (a + b) = unat a + unat b"
  by (subst unat_add_lem [THEN iffD1]) simp_all

lemma max_u64_sub_less [u64_arith]: "MaxUint64 - a < b \<longleftrightarrow> 2 ^ 64 \<le> unat a + unat b"
proof -
  have "a \<le> MaxUint64"
    by (simp add: MaxUint64_def unsigned_minus_1_eq_mask mask_eq_exp_minus_1)
  then have "unat (MaxUint64 - a) = 2 ^ 64 - 1 - unat a"
    by (simp add: unat_sub unat_MaxUint64)
  then show ?thesis
    using unat_u64_bound [of a] by (auto simp: word_less_nat_alt)
qed

lemma word_of_nat_unat [simp]: "word_of_nat (unat (a :: u64)) = a"
  by simp

lemma unat_word_of_nat_u64 [simp]: "n < 2 ^ 64 \<Longrightarrow> unat (word_of_nat n :: u64) = n"
  by (simp add: unsigned_of_nat take_bit_nat_eq_self)

lemma unat_u64_2: "unat (2 :: u64) = 2"
  by simp

lemma unat_u64_eq_0 [simp]: "unat (a :: u64) = 0 \<longleftrightarrow> a = 0"
  by (rule unat_eq_zero)

section \<open>Lists\<close>

text \<open>A loop that drops from one end while a monotone test holds keeps exactly the rest.\<close>

lemma dropWhile_eq_filter_sorted:
  assumes "sorted (map f xs)"
  shows "dropWhile (\<lambda>x. f x < c) xs = filter (\<lambda>x. c \<le> f x) xs"
  using assms
proof (induction xs)
  case Nil
  then show ?case by simp
next
  case (Cons x xs)
  show ?case
  proof (cases "f x < c")
    case True
    with Cons show ?thesis by simp
  next
    case False
    with Cons.prems have "\<forall>y \<in> set xs. c \<le> f y"
      by force
    with False show ?thesis by simp
  qed
qed

lemma takeWhile_eq_filter_sorted:
  assumes "sorted (map f xs)"
  shows "takeWhile (\<lambda>x. f x < c) xs = filter (\<lambda>x. f x < c) xs"
  using assms
proof (induction xs)
  case Nil
  then show ?case by simp
next
  case (Cons x xs)
  show ?case
  proof (cases "f x < c")
    case True
    with Cons show ?thesis by simp
  next
    case False
    with Cons.prems have "\<forall>y \<in> set xs. \<not> f y < c"
      by force
    with False show ?thesis by simp
  qed
qed

text \<open>The loop \<open>for keep > 0 && p(xs[keep-1]) { keep-- }; xs[:keep]\<close>.\<close>

definition trim_end :: "('a \<Rightarrow> bool) \<Rightarrow> 'a list \<Rightarrow> 'a list" where
  "trim_end p xs = rev (dropWhile p (rev xs))"

lemma trim_end_Nil [simp]: "trim_end p [] = []"
  by (simp add: trim_end_def)

lemma trim_end_snoc [simp]: "trim_end p (xs @ [x]) = (if p x then trim_end p xs else xs @ [x])"
  by (simp add: trim_end_def)

lemma trim_end_append: "\<exists>ys. xs = trim_end p xs @ ys \<and> (\<forall>y \<in> set ys. p y)"
proof (induction xs rule: rev_induct)
  case Nil
  then show ?case by simp
next
  case (snoc x xs)
  then obtain ys where "xs = trim_end p xs @ ys" "\<forall>y \<in> set ys. p y" by blast
  then show ?case
    by (cases "p x") (auto intro!: exI [of _ "ys @ [x]"])
qed

lemma trim_end_filter:
  assumes "sorted (map f xs)"
  shows "trim_end (\<lambda>x. c \<le> f x) xs = filter (\<lambda>x. f x < c) xs"
  using assms
proof (induction xs rule: rev_induct)
  case Nil
  then show ?case by simp
next
  case (snoc x xs)
  show ?case
  proof (cases "c \<le> f x")
    case True
    with snoc show ?thesis by (simp add: sorted_append not_less)
  next
    case False
    with snoc.prems have "\<forall>y \<in> set xs. f y < c"
      by (auto simp: sorted_append)
    with False show ?thesis by simp
  qed
qed

lemma trim_end_set: "set (trim_end p xs) \<subseteq> set xs"
  using trim_end_append [of xs p] by (metis Un_upper1 set_append)

lemma sorted_map_last: "sorted (map f xs) \<Longrightarrow> x \<in> set xs \<Longrightarrow> f x \<le> f (last xs)"
  by (induction xs rule: rev_induct) (auto simp: sorted_append)

lemma length_filter_mono:
  "(\<And>x. p x \<Longrightarrow> q x) \<Longrightarrow> length (filter p xs) \<le> length (filter q xs)"
  by (induction xs) auto

lemma sorted_map_filter: "sorted (map f xs) \<Longrightarrow> sorted (map f (filter p xs))"
  by (induction xs) auto

text \<open>
  \<open>sort.Slice\<close> and \<open>slices.SortStableFunc\<close> with a \<open>less\<close> function, as a stable insertion sort.
  \<open>sort.Slice\<close> leaves the order of equal elements open; where it is used, distinct elements
  are never equal under the comparison.
\<close>

fun insert_by :: "('a \<Rightarrow> 'a \<Rightarrow> bool) \<Rightarrow> 'a \<Rightarrow> 'a list \<Rightarrow> 'a list" where
  "insert_by lt x [] = [x]"
| "insert_by lt x (y # ys) = (if lt y x then y # insert_by lt x ys else x # y # ys)"

definition sort_by :: "('a \<Rightarrow> 'a \<Rightarrow> bool) \<Rightarrow> 'a list \<Rightarrow> 'a list" where
  "sort_by lt xs = foldr (insert_by lt) xs []"

lemma insert_by_eq_insort_key:
  assumes "\<And>a b. lt a b \<longleftrightarrow> f a < f b"
  shows "insert_by lt x xs = insort_key f x xs"
  using assms by (induction xs) auto

lemma sort_by_eq_sort_key:
  assumes "\<And>a b. lt a b \<longleftrightarrow> f a < f b"
  shows "sort_by lt xs = sort_key f xs"
proof -
  have "insert_by lt = insort_key f"
    by (intro ext) (simp add: insert_by_eq_insort_key [where f = f, OF assms])
  then show ?thesis by (simp add: sort_by_def sort_key_def)
qed

lemma mset_sort_by [simp]: "mset (sort_by lt xs) = mset xs"
proof -
  have ins: "mset (insert_by lt x ys) = add_mset x (mset ys)" for x ys
    by (induction ys) auto
  show ?thesis
    unfolding sort_by_def by (induction xs) (simp_all add: ins)
qed

lemma set_sort_by [simp]: "set (sort_by lt xs) = set xs"
  using mset_sort_by set_mset_mset by metis

lemma length_sort_by [simp]: "length (sort_by lt xs) = length xs"
  using mset_sort_by size_mset by metis

section \<open>Go maps\<close>

abbreviation gokeys :: "('k, 'v) gomap \<Rightarrow> 'k list" where
  "gokeys m \<equiv> map fst m"

definition gomap_ok :: "('k, 'v) gomap \<Rightarrow> bool" where
  "gomap_ok m = distinct (gokeys m)"

lemma gomap_ok_Nil [simp]: "gomap_ok []"
  by (simp add: gomap_ok_def)

lemma gomap_ok_update [simp]: "gomap_ok m \<Longrightarrow> gomap_ok (AList.update k v m)"
  by (simp add: gomap_ok_def distinct_update)

lemma gomap_ok_delete [simp]: "gomap_ok m \<Longrightarrow> gomap_ok (AList.delete k m)"
  by (simp add: gomap_ok_def distinct_delete)

lemma gomap_ok_filter [simp]: "gomap_ok m \<Longrightarrow> gomap_ok (filter p m)"
  by (simp add: gomap_ok_def distinct_map_filter)

lemma gomap_ok_map_vals [simp]: "gomap_ok m \<Longrightarrow> gomap_ok (map (\<lambda>(k, v). (k, f k v)) m)"
  by (simp add: gomap_ok_def comp_def case_prod_beta)

lemma map_of_filter_gomap:
  assumes "gomap_ok m"
  shows "map_of (filter (\<lambda>(k, v). p k v) m) k =
    (case map_of m k of None \<Rightarrow> None | Some v \<Rightarrow> if p k v then Some v else None)"
  using assms unfolding gomap_ok_def
proof (induction m)
  case Nil
  then show ?case by simp
next
  case (Cons kv m)
  obtain k' v' where [simp]: "kv = (k', v')" by (cases kv)
  show ?case
    using Cons by (auto simp: map_of_eq_None_iff image_iff split: option.splits dest: map_of_SomeD)
qed

lemma map_of_map_vals: "map_of (map (\<lambda>(k, v). (k, f k v)) m) k = map_option (f k) (map_of m k)"
  by (induction m) auto

lemma set_alist_update: "p \<in> set (AList.update k v m) \<Longrightarrow> p = (k, v) \<or> p \<in> set m"
  by (induction m) (auto split: if_splits)

lemma list_all_alist_update:
  "list_all p m \<Longrightarrow> p (k, v) \<Longrightarrow> list_all p (AList.update k v m)"
  by (induction m) auto

lemma gomap_ok_mem: "gomap_ok m \<Longrightarrow> (k, v) \<in> set m \<Longrightarrow> map_of m k = Some v"
  by (simp add: gomap_ok_def)

lemma update_fresh: "k \<notin> fst ` set m \<Longrightarrow> AList.update k v m = m @ [(k, v)]"
  by (induction m) auto

lemma list_all_gomap: "gomap_ok m \<Longrightarrow> list_all p m \<longleftrightarrow> (\<forall>k v. map_of m k = Some v \<longrightarrow> p (k, v))"
  by (auto simp: list_all_iff gomap_ok_def map_of_eq_Some_iff)

lemma filter_keys_update: "\<not> p k \<Longrightarrow> filter (\<lambda>(k, v). p k) (AList.update k v m) = filter (\<lambda>(k, v). p k) m"
  by (induction m) auto

section \<open>Results\<close>

lemma map_sum_eq_Inr: "map_sum f g x = Inr y \<longleftrightarrow> (\<exists>z. x = Inr z \<and> y = g z)"
  by (cases x) auto

lemma map_sum_eq_Inl: "map_sum f g x = Inl y \<longleftrightarrow> (\<exists>z. x = Inl z \<and> y = f z)"
  by (cases x) auto

lemma fold_update_other:
  "i \<notin> f ` set xs \<Longrightarrow> map_of (fold (\<lambda>s m. AList.update (f s) s m) xs m) i = map_of m i"
  by (induction xs arbitrary: m) (auto simp: update_conv')

lemma fold_update_keyed:
  assumes "distinct (map f xs)" and "s \<in> set xs"
  shows "map_of (fold (\<lambda>s m. AList.update (f s) s m) xs m) (f s) = Some s"
  using assms
proof (induction xs arbitrary: m)
  case Nil
  then show ?case by simp
next
  case (Cons x xs)
  show ?case
  proof (cases "s = x")
    case True
    then have "f s \<notin> f ` set xs" using Cons.prems by simp
    then show ?thesis using True by (simp add: fold_update_other update_conv')
  next
    case False
    then show ?thesis using Cons by simp
  qed
qed

lemma fold_update_inj:
  assumes "inj_on f (set xs)" and "s \<in> set xs"
  shows "map_of (fold (\<lambda>s m. AList.update (f s) s m) xs m) (f s) = Some s"
  using assms
proof (induction xs arbitrary: m)
  case (Cons x xs)
  show ?case
  proof (cases "s \<in> set xs")
    case True
    with Cons show ?thesis by simp
  next
    case False
    with Cons.prems have "s = x" "f s \<notin> f ` set xs" by (auto simp: inj_on_def)
    then show ?thesis by (simp add: fold_update_other update_conv')
  qed
qed simp

section \<open>ASCII case and space\<close>

text \<open>\<open>strings.ToLower\<close>, \<open>EqualFold\<close> and \<open>TrimSpace\<close> on ASCII text.\<close>

definition lower_char :: "char \<Rightarrow> char" where
  "lower_char c = (let n = (of_char c :: nat) in if 65 \<le> n \<and> n \<le> 90 then char_of (n + 32) else c)"

definition to_lower :: "string \<Rightarrow> string" where
  "to_lower s = map lower_char s"

definition EqualFold :: "string \<Rightarrow> string \<Rightarrow> bool" where
  "EqualFold a b = (to_lower a = to_lower b)"

definition is_space :: "char \<Rightarrow> bool" where
  "is_space c = ((of_char c :: nat) \<in> {9, 10, 11, 12, 13, 32})"

definition TrimSpace :: "string \<Rightarrow> string" where
  "TrimSpace s = trim_end is_space (dropWhile is_space s)"

text \<open>\<open>strings.HasPrefix\<close>, \<open>TrimPrefix\<close> and the conversion of bytes to a string.\<close>

definition has_prefix :: "string \<Rightarrow> string \<Rightarrow> bool" where
  "has_prefix p k = (take (length p) k = p)"

definition trim_prefix :: "string \<Rightarrow> string \<Rightarrow> string" where
  "trim_prefix p s = (if has_prefix p s then drop (length p) s else s)"

definition string_of_bytes :: "bytes \<Rightarrow> string" where
  "string_of_bytes bs = map (\<lambda>b. char_of (unat b)) bs"

text \<open>\<open>net.JoinHostPort\<close>: brackets around a host with a colon.\<close>

definition JoinHostPort :: "string \<Rightarrow> string \<Rightarrow> string" where
  "JoinHostPort host port =
     (if CHR '':'' \<in> set host then ''['' @ host @ '']:'' @ port else host @ '':'' @ port)"

end
