(* ===== verification/Float64.thy ===== *)
theory Float64
  imports Prelude
begin

text \<open>
  Go's \<open>float64\<close> as the sources use it: a finite value is the rational it denotes, with the two
  infinities and NaN beside them (the two zeros are one value). Conversions from integers and
  from \<open>big.Rat\<close> and the arithmetic operations round the exact result to the nearest double,
  ties to even, with the exponent range of IEEE 754 binary64. The lemmas say when rounding stays
  finite, and that it keeps the order.
\<close>

section \<open>Values and rounding\<close>

datatype f64 = Fin rat | PosInf | NegInf | NaN

fun bit_length :: "nat \<Rightarrow> nat" where
  "bit_length n = (if n = 0 then 0 else Suc (bit_length (n div 2)))"

declare bit_length.simps [simp del]

definition pow2 :: "int \<Rightarrow> rat" where
  "pow2 e = (if 0 \<le> e then 2 ^ nat e else 1 / 2 ^ nat (- e))"

text \<open>The exponent \<open>e\<close> with \<open>2 ^ e \<le> x < 2 ^ (e + 1)\<close>, from the bit lengths of the fraction.\<close>

definition ilog2 :: "rat \<Rightarrow> int" where
  "ilog2 x = (let (p, q) = quotient_of x;
                  e = int (bit_length (nat p)) - int (bit_length (nat q))
              in if pow2 e \<le> x then e else e - 1)"

text \<open>Round to the nearest integer, ties to even.\<close>

definition rne :: "rat \<Rightarrow> int" where
  "rne x = (let f = \<lfloor>x\<rfloor>; r = x - of_int f in
     if r < 1 / 2 then f else if 1 / 2 < r then f + 1 else if even f then f else f + 1)"

text \<open>The nearest double of a positive rational, before the overflow test.\<close>

definition round_pos :: "rat \<Rightarrow> rat" where
  "round_pos a = (let e = max (- 1074) (ilog2 a - 52) in of_int (rne (a / pow2 e)) * pow2 e)"

text \<open>\<open>big.Rat.Float64\<close>, and the rounding of every operation below.\<close>

definition f64_of_rat :: "rat \<Rightarrow> f64" where
  "f64_of_rat x =
     (if x = 0 then Fin 0
      else let v = round_pos \<bar>x\<bar> in
        if 2 ^ 1024 \<le> v then (if 0 < x then PosInf else NegInf)
        else Fin (sgn x * v))"

definition f64_of_u64 :: "u64 \<Rightarrow> f64" where
  "f64_of_u64 n = f64_of_rat (of_nat (unat n))"

definition f64_isfinite :: "f64 \<Rightarrow> bool" where
  "f64_isfinite x = (case x of Fin _ \<Rightarrow> True | _ \<Rightarrow> False)"

section \<open>Arithmetic and comparison\<close>

fun f64_neg :: "f64 \<Rightarrow> f64" where
  "f64_neg (Fin a) = Fin (- a)"
| "f64_neg PosInf = NegInf"
| "f64_neg NegInf = PosInf"
| "f64_neg NaN = NaN"

fun f64_add :: "f64 \<Rightarrow> f64 \<Rightarrow> f64" where
  "f64_add (Fin a) (Fin b) = f64_of_rat (a + b)"
| "f64_add NaN _ = NaN"
| "f64_add _ NaN = NaN"
| "f64_add PosInf NegInf = NaN"
| "f64_add NegInf PosInf = NaN"
| "f64_add PosInf _ = PosInf"
| "f64_add _ PosInf = PosInf"
| "f64_add NegInf _ = NegInf"
| "f64_add _ NegInf = NegInf"

definition f64_sub :: "f64 \<Rightarrow> f64 \<Rightarrow> f64" where
  "f64_sub a b = f64_add a (f64_neg b)"

fun f64_sgn :: "f64 \<Rightarrow> rat" where
  "f64_sgn (Fin a) = sgn a"
| "f64_sgn PosInf = 1"
| "f64_sgn NegInf = - 1"
| "f64_sgn NaN = 0"

definition f64_inf_of_sgn :: "rat \<Rightarrow> f64" where
  "f64_inf_of_sgn s = (if s = 0 then NaN else if 0 < s then PosInf else NegInf)"

fun f64_mul :: "f64 \<Rightarrow> f64 \<Rightarrow> f64" where
  "f64_mul (Fin a) (Fin b) = f64_of_rat (a * b)"
| "f64_mul NaN _ = NaN"
| "f64_mul _ NaN = NaN"
| "f64_mul a b = f64_inf_of_sgn (f64_sgn a * f64_sgn b)"

fun f64_div :: "f64 \<Rightarrow> f64 \<Rightarrow> f64" where
  "f64_div (Fin a) (Fin b) = (if b = 0 then f64_inf_of_sgn (sgn a) else f64_of_rat (a / b))"
| "f64_div NaN _ = NaN"
| "f64_div _ NaN = NaN"
| "f64_div (Fin a) _ = Fin 0"
| "f64_div a (Fin b) = f64_inf_of_sgn (f64_sgn a * (if b = 0 then 1 else sgn b))"
| "f64_div _ _ = NaN"

text \<open>\<open>a < b\<close> on doubles: false as soon as one side is NaN.\<close>

fun f64_less :: "f64 \<Rightarrow> f64 \<Rightarrow> bool" where
  "f64_less (Fin a) (Fin b) = (a < b)"
| "f64_less NaN _ = False"
| "f64_less _ NaN = False"
| "f64_less NegInf b = (b \<noteq> NegInf)"
| "f64_less a PosInf = (a \<noteq> PosInf)"
| "f64_less _ _ = False"

definition f64_is_zero :: "f64 \<Rightarrow> bool" where
  "f64_is_zero x = (x = Fin 0)"

section \<open>When rounding stays finite\<close>

lemma pow2_pos [simp]: "0 < pow2 e"
  by (simp add: pow2_def)

lemma pow2_nonneg [simp]: "0 \<le> pow2 e" and pow2_neq_0 [simp]: "pow2 e \<noteq> 0"
  using pow2_pos [of e] by linarith+

lemma pow2_eq_powi: "pow2 e = 2 powi e"
  by (simp add: pow2_def power_int_def inverse_eq_divide power_one_over)

lemma pow2_add: "pow2 (a + b) = pow2 a * pow2 b"
  by (simp add: pow2_eq_powi power_int_add)

lemma pow2_mono: "a \<le> b \<Longrightarrow> pow2 a \<le> pow2 b"
  by (simp add: pow2_eq_powi power_int_increasing)

lemma pow2_less_iff: "pow2 a < pow2 b \<longleftrightarrow> a < b"
  using pow2_mono [of b a] power_int_strict_increasing [of a b "2 :: rat"]
  by (force simp: pow2_eq_powi not_less [symmetric])

lemma bit_length_bounds: "0 < n \<Longrightarrow> 2 ^ (bit_length n - 1) \<le> n \<and> n < 2 ^ bit_length n"
proof (induction n rule: bit_length.induct)
  case (1 n)
  show ?case
  proof (cases "n div 2 = 0")
    case True
    with "1.prems" have "n = 1" by linarith
    then show ?thesis by (simp add: bit_length.simps)
  next
    case False
    let ?k = "bit_length (n div 2)"
    have ih: "2 ^ (?k - 1) \<le> n div 2" "n div 2 < 2 ^ ?k"
      using "1.IH" "1.prems" False by simp_all
    have k: "0 < ?k"
      using False by (subst bit_length.simps) simp
    have "bit_length n = Suc ?k"
      using "1.prems" by (subst bit_length.simps) simp
    moreover have "2 ^ ?k \<le> n"
    proof -
      have "2 ^ ?k = 2 * (2 :: nat) ^ (?k - 1)"
        using k by (cases ?k) simp_all
      with ih(1) show ?thesis by linarith
    qed
    moreover have "n < 2 ^ Suc ?k"
      using ih(2) by simp
    ultimately show ?thesis by simp
  qed
qed

lemma bit_length_pos: "0 < n \<Longrightarrow> 0 < bit_length n"
  by (subst bit_length.simps) simp

lemma pow2_of_nat: "pow2 (int n) = 2 ^ n"
  by (simp add: pow2_def)

text \<open>The exponent computed from the fraction brackets the value.\<close>

lemma ilog2_bounds:
  assumes "0 < x"
  shows "pow2 (ilog2 x) \<le> x \<and> x < pow2 (ilog2 x + 1)"
proof -
  obtain p q where pq: "quotient_of x = (p, q)" by fastforce
  have q: "0 < q" and x: "x = of_int p / of_int q"
    using pq quotient_of_denom_pos quotient_of_div by blast+
  have p: "0 < p"
    using assms q x by (simp add: zero_less_divide_iff)
  let ?a = "bit_length (nat p)" and ?b = "bit_length (nat q)"
  let ?e = "int ?a - int ?b"
  have pb: "2 ^ (?a - 1) \<le> nat p" "nat p < 2 ^ ?a"
    using bit_length_bounds [of "nat p"] p by simp_all
  have qb: "2 ^ (?b - 1) \<le> nat q" "nat q < 2 ^ ?b"
    using bit_length_bounds [of "nat q"] q by simp_all
  have p1: "pow2 (int ?a - 1) \<le> of_int p" "of_int p < pow2 (int ?a)"
    and q1: "pow2 (int ?b - 1) \<le> of_int q" "of_int q < pow2 (int ?b)"
  proof -
    have one: "pow2 (int (bit_length (nat z)) - 1) \<le> of_int z \<and> of_int z < pow2 (int (bit_length (nat z)))"
      if z: "0 < z" "2 ^ (bit_length (nat z) - 1) \<le> nat z" "nat z < 2 ^ bit_length (nat z)" for z
    proof -
      let ?n = "bit_length (nat z)"
      have n: "0 < ?n" using z(1) by (simp add: bit_length_pos)
      have "of_nat (2 ^ (?n - 1)) \<le> (of_nat (nat z) :: rat)"
        using z(2) of_nat_mono by blast
      moreover have "(of_nat (nat z) :: rat) < of_nat (2 ^ ?n)"
        using z(3) of_nat_less_iff by blast
      moreover have "pow2 (int ?n - 1) = 2 ^ (?n - 1)"
        using pow2_of_nat [of "?n - 1"] n by (simp add: of_nat_diff)
      moreover have "(of_nat (nat z) :: rat) = of_int z"
        using z(1) by simp
      ultimately show ?thesis
        unfolding pow2_of_nat by simp
    qed
    show "pow2 (int ?a - 1) \<le> of_int p" "of_int p < pow2 (int ?a)"
      "pow2 (int ?b - 1) \<le> of_int q" "of_int q < pow2 (int ?b)"
      using one [OF p pb] one [OF q qb] by simp_all
  qed
  have qpos: "(0 :: rat) < of_int q" using q by simp
  have ub: "x < pow2 (?e + 1)"
  proof -
    have "of_int p < pow2 (int ?a)" by (rule p1)
    also have "pow2 (int ?a) = pow2 (?e + 1) * pow2 (int ?b - 1)"
      by (simp add: pow2_add [symmetric])
    also have "\<dots> \<le> pow2 (?e + 1) * of_int q"
      using q1(1) by (intro mult_left_mono) simp_all
    finally show ?thesis
      using qpos by (simp add: x divide_less_eq)
  qed
  have lb: "pow2 (?e - 1) \<le> x"
  proof -
    have "pow2 (?e - 1) * of_int q \<le> pow2 (?e - 1) * pow2 (int ?b)"
      using q1(2) by (intro mult_left_mono) simp_all
    also have "\<dots> = pow2 (int ?a - 1)"
      by (simp add: pow2_add [symmetric])
    also have "\<dots> \<le> of_int p" by (rule p1)
    finally show ?thesis
      using qpos by (simp add: x le_divide_eq)
  qed
  show ?thesis
  proof (cases "pow2 ?e \<le> x")
    case True
    then have "ilog2 x = ?e" by (simp add: ilog2_def pq)
    with True ub show ?thesis by simp
  next
    case False
    then have "ilog2 x = ?e - 1" by (simp add: ilog2_def pq)
    with False lb show ?thesis by simp
  qed
qed

lemma rne_bounds: "of_int (rne x) \<le> x + 1 / 2" "x - 1 / 2 \<le> of_int (rne x)"
proof -
  let ?f = "of_int \<lfloor>x\<rfloor> :: rat"
  have b: "?f \<le> x" "x < ?f + 1"
    using floor_correct [of x] by simp_all
  have r: "(of_int (rne x) :: rat) = ?f \<and> x - ?f \<le> 1 / 2 \<or>
           (of_int (rne x) :: rat) = ?f + 1 \<and> 1 / 2 \<le> x - ?f"
    unfolding rne_def Let_def by auto
  show "of_int (rne x) \<le> x + 1 / 2" using b r by linarith
  show "x - 1 / 2 \<le> of_int (rne x)" using b r by linarith
qed

lemma rne_of_int [simp]: "rne (of_int i) = i"
  by (simp add: rne_def)

text \<open>Every rational below \<open>2 ^ 1023\<close> in size has a finite nearest double.\<close>

lemma round_pos_bound:
  assumes "0 < a" and "a < 2 ^ 1023"
  shows "round_pos a < 2 ^ 1024"
proof -
  let ?e = "max (- 1074) (ilog2 a - 52)"
  have "pow2 (ilog2 a) < pow2 1023"
    using ilog2_bounds [OF assms(1)] assms(2) by (simp add: pow2_def)
  then have "ilog2 a < 1023"
    by (simp add: pow2_less_iff)
  then have e: "?e \<le> 970" by simp
  have "round_pos a \<le> (a / pow2 ?e + 1 / 2) * pow2 ?e"
    unfolding round_pos_def Let_def
    by (intro mult_right_mono rne_bounds) simp
  also have "\<dots> = a + pow2 ?e / 2"
    by (simp add: distrib_right)
  also have "\<dots> < 2 ^ 1023 + pow2 970"
  proof -
    have "pow2 ?e / 2 \<le> pow2 970"
      using pow2_mono [OF e] pow2_nonneg [of ?e] by linarith
    with assms(2) show ?thesis by linarith
  qed
  also have "\<dots> < 2 ^ 1024"
    by (simp add: pow2_def)
  finally show ?thesis .
qed

lemma f64_of_rat_finite:
  assumes "\<bar>x\<bar> < 2 ^ 1023"
  shows "f64_isfinite (f64_of_rat x)"
proof (cases "x = 0")
  case True
  then show ?thesis by (simp add: f64_of_rat_def f64_isfinite_def)
next
  case False
  then have "round_pos \<bar>x\<bar> < 2 ^ 1024"
    using assms by (intro round_pos_bound) simp_all
  with False show ?thesis
    by (simp add: f64_of_rat_def f64_isfinite_def Let_def)
qed

section \<open>Finite prices\<close>

text \<open>\<open>finiteFloat64\<close> of \<open>price/ada_usd.go\<close>; \<open>None\<close> is \<open>ErrNonFinitePrice\<close>.\<close>

definition finiteFloat64 :: "rat \<Rightarrow> f64 option" where
  "finiteFloat64 value = (case f64_of_rat value of Fin v \<Rightarrow> Some (Fin v) | _ \<Rightarrow> None)"

lemma finiteFloat64_some: "\<bar>x\<bar> < 2 ^ 1023 \<Longrightarrow> finiteFloat64 x = Some (f64_of_rat x)"
  using f64_of_rat_finite [of x] by (auto simp: finiteFloat64_def f64_isfinite_def split: f64.splits)

section \<open>Quotients of integers\<close>

text \<open>From one on, rounding moves a rational by less than half of itself, so the quotient of two
  converted integers is finite unless the divisor is zero.\<close>

lemma round_pos_near:
  assumes "1 \<le> a"
  shows "a / 2 \<le> round_pos a" and "round_pos a \<le> 2 * a"
proof -
  let ?e = "ilog2 a - 52"
  have b: "pow2 (ilog2 a) \<le> a" "a < pow2 (ilog2 a + 1)"
    using ilog2_bounds [of a] assms by simp_all
  then have "pow2 0 < pow2 (ilog2 a + 1)"
    using assms by (simp add: pow2_def)
  then have "- 1074 \<le> ?e" by (simp add: pow2_less_iff)
  then have r: "round_pos a = of_int (rne (a / pow2 ?e)) * pow2 ?e"
    by (simp add: round_pos_def Let_def)
  have "pow2 ?e \<le> pow2 (ilog2 a)" by (intro pow2_mono) simp
  then have e: "pow2 ?e \<le> a" using b(1) by linarith
  have "(a / pow2 ?e - 1 / 2) * pow2 ?e \<le> round_pos a"
    unfolding r by (intro mult_right_mono rne_bounds) simp
  then have "a - pow2 ?e / 2 \<le> round_pos a" by (simp add: left_diff_distrib)
  with e show "a / 2 \<le> round_pos a" by linarith
  have "round_pos a \<le> (a / pow2 ?e + 1 / 2) * pow2 ?e"
    unfolding r by (intro mult_right_mono rne_bounds) simp
  then have "round_pos a \<le> a + pow2 ?e / 2" by (simp add: distrib_right)
  with e show "round_pos a \<le> 2 * a" using assms by linarith
qed

lemma f64_of_u64_bounds:
  obtains r where "f64_of_u64 n = Fin r" and "0 \<le> r" and "r \<le> 2 ^ 65" and "n \<noteq> 0 \<Longrightarrow> 1 / 2 \<le> r"
proof (cases "n = 0")
  case True
  then show ?thesis using that [of 0] by (simp add: f64_of_u64_def f64_of_rat_def)
next
  case False
  let ?a = "of_nat (unat n) :: rat"
  have "unat n \<noteq> 0" using False by simp
  then have "1 \<le> unat n" by linarith
  then have a: "1 \<le> ?a" using of_nat_mono [of 1 "unat n", where 'a = rat] by simp
  have "?a < of_nat (2 ^ 64)" using unat_u64_bound [of n] by (simp only: of_nat_less_iff)
  then have up: "?a < 2 ^ 64" by simp
  have "round_pos ?a < 2 ^ 1024"
    using a up by (intro round_pos_bound) simp_all
  then have "f64_of_u64 n = Fin (round_pos ?a)"
    using a by (simp add: f64_of_u64_def f64_of_rat_def Let_def)
  moreover have "1 / 2 \<le> round_pos ?a" "round_pos ?a \<le> 2 ^ 65"
    using round_pos_near [OF a] a up by simp_all
  ultimately show ?thesis by (intro that [of "round_pos ?a"]) simp_all
qed

lemma u64_ratio_finite:
  assumes "d \<noteq> 0"
  shows "f64_isfinite (f64_div (f64_of_u64 n) (f64_of_u64 d))"
proof -
  obtain r where r: "f64_of_u64 n = Fin r" "0 \<le> r" "r \<le> 2 ^ 65" by (rule f64_of_u64_bounds)
  obtain q where q: "f64_of_u64 d = Fin q" "1 / 2 \<le> q" using f64_of_u64_bounds [of d] assms by metis
  have "r / q \<le> 2 ^ 65 / (1 / 2)" using r q by (intro frac_le) simp_all
  then have "\<bar>r / q\<bar> < 2 ^ 1023" using r q by simp
  then show ?thesis using r(1) q f64_of_rat_finite [of "r / q"] by simp
qed

end
