(* ===== verification/Rollback_Log.thy ===== *)
theory Rollback_Log
  imports Prelude
begin

text \<open>
  The contract that every component following the chain keeps under a rollback: its entries carry
  slots, and a rollback keeps exactly the entries whose slot survives it. \<open>keeps n s\<close> says that an
  entry of slot \<open>s\<close> survives a rollback with argument \<open>n\<close>; the components differ in whether \<open>n\<close> is
  the last surviving slot or the first removed one. The lemmas hold for every component that
  interprets the locale.
\<close>

locale rollback_log =
  fixes inv :: "'s \<Rightarrow> bool"
    and entries :: "'s \<Rightarrow> 'e set"
    and slot_of :: "'e \<Rightarrow> u64"
    and rollback :: "u64 \<Rightarrow> 's \<Rightarrow> 's"
    and keeps :: "u64 \<Rightarrow> u64 \<Rightarrow> bool"
  assumes rollback_entries:
      "inv s \<Longrightarrow> entries (rollback n s) = {e \<in> entries s. keeps n (slot_of e)}"
    and rollback_inv: "inv s \<Longrightarrow> inv (rollback n s)"
    and keeps_mono: "n \<le> m \<Longrightarrow> keeps n sl \<Longrightarrow> keeps m sl"
begin

lemma rollback_only_removes: "inv s \<Longrightarrow> entries (rollback n s) \<subseteq> entries s"
  by (auto simp: rollback_entries)

lemma rollback_idempotent: "inv s \<Longrightarrow> entries (rollback n (rollback n s)) = entries (rollback n s)"
  by (auto simp: rollback_entries rollback_inv)

lemma rollback_compose:
  "inv s \<Longrightarrow> entries (rollback m (rollback n s)) = entries (rollback (min m n) s)"
  by (auto simp: rollback_entries rollback_inv min_def not_le dest: keeps_mono keeps_mono [OF less_imp_le])

lemma fold_rollback_inv: "inv s \<Longrightarrow> inv (fold rollback ns s)"
  by (induction ns arbitrary: s) (simp_all add: rollback_inv)

text \<open>A sequence of rollbacks leaves what the deepest one alone would leave.\<close>

lemma fold_rollback_entries:
  assumes "inv s"
  shows "entries (fold rollback ns s) = {e \<in> entries s. \<forall>n \<in> set ns. keeps n (slot_of e)}"
  using assms
proof (induction ns arbitrary: s)
  case Nil
  then show ?case by simp
next
  case (Cons n ns)
  then show ?case by (auto simp: rollback_inv rollback_entries)
qed

lemma fold_rollback_deepest:
  assumes "inv s" and "ns \<noteq> []"
  shows "entries (fold rollback ns s) = entries (rollback (Min (set ns)) s)"
proof -
  have "(\<forall>n \<in> set ns. keeps n sl) = keeps (Min (set ns)) sl" for sl
    using assms(2) keeps_mono [of "Min (set ns)"] by (auto intro: Min_le)
  then show ?thesis
    using assms(1) by (simp add: fold_rollback_entries rollback_entries)
qed

end

end
