(* ===== verification/Twap.thy ===== *)
theory Twap
  imports Float64 Rollback_Log
begin

text \<open>
  \<open>price/twap.go\<close>: the time-weighted average price engine. It keeps a bounded sequence of exact
  observations in strictly increasing slot and time order; the price of an observation holds until
  the next one. Prices are \<open>big.Rat\<close>, here \<open>rat\<close>. The engine's lock is held for the whole of every
  method, so a method is one step.

  The reference the average is measured against is the sum, over every nanosecond of the covered
  interval, of the price in effect at that nanosecond.
\<close>

section \<open>Data\<close>

record TWAPConfig =
  tc_Window :: duration
  tc_MinCoverage :: duration
  tc_MaxStaleness :: duration
  tc_MaxObservations :: int

record TWAPResult =
  tr_PriceNum :: string
  tr_PriceDen :: string
  tr_Price :: f64
  tr_WindowStart :: time
  tr_WindowEnd :: time
  tr_Coverage :: duration
  tr_ObservationCount :: nat
  tr_LastSlot :: u64
  tr_LastObservedAt :: time
  tr_price :: rat

record TWAPObservation =
  tp_Slot :: u64
  tp_At :: time
  tp_PriceNum :: string
  tp_PriceDen :: string

record TWAPState =
  ts_Config :: TWAPConfig
  ts_Observations :: "TWAPObservation list"
  ts_HistoryPruned :: bool

record twapObservation =
  o_slot :: u64
  o_at :: time
  o_price :: rat

record TWAPEngine =
  te_config :: TWAPConfig
  te_observations :: "twapObservation list"
  te_historyPruned :: bool

datatype twap_error =
    ErrInvalidTWAPConfig
  | ErrInvalidTWAPObservation
  | ErrOutOfOrderTWAP
  | ErrInsufficientTWAPHistory
  | ErrStaleTWAP
  | ErrTWAPRollbackUnavailable
  | ErrInvalidTWAPState
  | ErrNonFinitePrice

section \<open>Operations\<close>

definition twap_config_ok :: "TWAPConfig \<Rightarrow> bool" where
  "twap_config_ok c =
     (\<not> (tc_Window c \<le> 0 \<or> tc_MinCoverage c \<le> 0 \<or> tc_MinCoverage c > tc_Window c
         \<or> tc_MaxStaleness c < 0 \<or> tc_MaxObservations c < 1))"

definition NewTWAPEngine :: "TWAPConfig \<Rightarrow> twap_error + TWAPEngine" where
  "NewTWAPEngine c =
     (if \<not> twap_config_ok c then Inl ErrInvalidTWAPConfig
      else Inr \<lparr>te_config = c, te_observations = [], te_historyPruned = False\<rparr>)"

definition twap_prune :: "time \<Rightarrow> TWAPEngine \<Rightarrow> TWAPEngine" where
  "twap_prune latest e =
     (let obs = te_observations e;
          cutoff = latest - tc_Window (te_config e);
          firstAfter = length (takeWhile (\<lambda>x. \<not> o_at x > cutoff) obs);
          keepFrom = (if firstAfter > 0 then firstAfter - 1 else 0);
          remaining = length obs - keepFrom;
          keepFrom' = (if int remaining > tc_MaxObservations (te_config e)
                       then keepFrom + (remaining - nat (tc_MaxObservations (te_config e)))
                       else keepFrom)
      in if keepFrom' = 0 then e
         else e\<lparr>te_observations := drop keepFrom' obs, te_historyPruned := True\<rparr>)"

definition twap_Observe ::
    "u64 \<Rightarrow> time \<Rightarrow> rat option \<Rightarrow> TWAPEngine \<Rightarrow> (twap_error + unit) \<times> TWAPEngine" where
  "twap_Observe slot observedAt value e =
     (case value of
        None \<Rightarrow> (Inl ErrInvalidTWAPObservation, e)
      | Some v \<Rightarrow>
          if observedAt = 0 \<or> v \<le> 0 then (Inl ErrInvalidTWAPObservation, e)
          else if te_observations e \<noteq> [] \<and>
              (slot \<le> o_slot (last (te_observations e))
               \<or> \<not> observedAt > o_at (last (te_observations e)))
          then (Inl ErrOutOfOrderTWAP, e)
          else (Inr (), twap_prune observedAt
                 (e\<lparr>te_observations := te_observations e @
                      [\<lparr>o_slot = slot, o_at = observedAt, o_price = v\<rparr>]\<rparr>)))"

definition addWeightedPrice :: "rat \<Rightarrow> rat \<Rightarrow> duration \<Rightarrow> rat" where
  "addWeightedPrice weighted value d = (if d \<le> 0 then weighted else weighted + value * of_int d)"

fun twap_loop ::
    "twapObservation list \<Rightarrow> twapObservation \<Rightarrow> time \<Rightarrow> rat \<Rightarrow> nat
     \<Rightarrow> twapObservation \<times> time \<times> rat \<times> nat" where
  "twap_loop [] current intervalStart weighted cnt = (current, intervalStart, weighted, cnt)"
| "twap_loop (x # xs) current intervalStart weighted cnt =
     (if \<not> o_at x > intervalStart then twap_loop xs x intervalStart weighted cnt
      else twap_loop xs x (o_at x)
             (addWeightedPrice weighted (o_price current) (time_sub (o_at x) intervalStart))
             (cnt + 1))"

definition TWAPAt :: "time \<Rightarrow> TWAPEngine \<Rightarrow> twap_error + TWAPResult" where
  "TWAPAt now e =
     (let past = trim_end (\<lambda>x. o_at x > now) (te_observations e) in
      if past = [] then Inl ErrInsufficientTWAPHistory
      else
        let latest = last past in
        if time_sub now (o_at latest) > tc_MaxStaleness (te_config e) then Inl ErrStaleTWAP
        else
          let windowStart = now - tc_Window (te_config e);
              start = length (takeWhile (\<lambda>x. o_at x < windowStart) past);
              obs = drop (if start > 0 then start - 1 else 0) past;
              coverageStart = (if o_at (hd obs) > windowStart then o_at (hd obs) else windowStart);
              coverage = time_sub now coverageStart
          in if coverage < tc_MinCoverage (te_config e) then Inl ErrInsufficientTWAPHistory
             else
               let intervalStart = (if o_at (hd obs) > coverageStart then o_at (hd obs) else coverageStart);
                   (current, intervalStart', weighted, cnt) = twap_loop (tl obs) (hd obs) intervalStart 0 1;
                   weightedSum = addWeightedPrice weighted (o_price current) (time_sub now intervalStart');
                   average = weightedSum / of_int coverage
               in case finiteFloat64 average of
                    None \<Rightarrow> Inl ErrNonFinitePrice
                  | Some value \<Rightarrow> Inr
                      \<lparr>tr_PriceNum = show_int (fst (quotient_of average)),
                       tr_PriceDen = show_int (snd (quotient_of average)),
                       tr_Price = value, tr_WindowStart = windowStart, tr_WindowEnd = now,
                       tr_Coverage = coverage, tr_ObservationCount = cnt,
                       tr_LastSlot = o_slot latest, tr_LastObservedAt = o_at latest,
                       tr_price = average\<rparr>)"

definition twap_Rollback :: "u64 \<Rightarrow> TWAPEngine \<Rightarrow> (twap_error + unit) \<times> TWAPEngine" where
  "twap_Rollback slot e =
     (let obs = te_observations e in
      if obs \<noteq> [] \<and> slot \<ge> o_slot (last obs) then (Inr (), e)
      else if te_historyPruned e \<and> (obs = [] \<or> slot < o_slot (hd obs))
      then (Inl ErrTWAPRollbackUnavailable, e)
      else (Inr (), e\<lparr>te_observations := trim_end (\<lambda>x. o_slot x > slot) obs\<rparr>))"

definition twap_Len :: "TWAPEngine \<Rightarrow> nat" where
  "twap_Len e = length (te_observations e)"

definition persist_observation :: "twapObservation \<Rightarrow> TWAPObservation" where
  "persist_observation x =
     \<lparr>tp_Slot = o_slot x, tp_At = o_at x,
      tp_PriceNum = show_int (fst (quotient_of (o_price x))),
      tp_PriceDen = show_int (snd (quotient_of (o_price x)))\<rparr>"

definition twap_Snapshot :: "TWAPEngine \<Rightarrow> TWAPState" where
  "twap_Snapshot e =
     \<lparr>ts_Config = te_config e,
      ts_Observations = map persist_observation (te_observations e),
      ts_HistoryPruned = te_historyPruned e\<rparr>"

fun twap_replay :: "TWAPObservation list \<Rightarrow> TWAPEngine \<Rightarrow> twap_error + TWAPEngine" where
  "twap_replay [] e = Inr e"
| "twap_replay (x # xs) e =
     (case parse_int (tp_PriceNum x) of
        None \<Rightarrow> Inl ErrInvalidTWAPState
      | Some numerator \<Rightarrow>
          (case parse_int (tp_PriceDen x) of
             None \<Rightarrow> Inl ErrInvalidTWAPState
           | Some denominator \<Rightarrow>
               if denominator \<le> 0 then Inl ErrInvalidTWAPState
               else case twap_Observe (tp_Slot x) (tp_At x)
                           (Some (of_int numerator / of_int denominator)) e of
                 (Inl _, _) \<Rightarrow> Inl ErrInvalidTWAPState
               | (Inr _, e') \<Rightarrow> twap_replay xs e'))"

definition NewTWAPEngineFromState :: "TWAPState \<Rightarrow> twap_error + TWAPEngine" where
  "NewTWAPEngineFromState st =
     (case NewTWAPEngine (ts_Config st) of
        Inl _ \<Rightarrow> Inl ErrInvalidTWAPState
      | Inr e \<Rightarrow>
          (case twap_replay (ts_Observations st) (e\<lparr>te_historyPruned := ts_HistoryPruned st\<rparr>) of
             Inl err \<Rightarrow> Inl err
           | Inr e' \<Rightarrow>
               if length (te_observations e') \<noteq> length (ts_Observations st) then Inl ErrInvalidTWAPState
               else Inr (e'\<lparr>te_historyPruned := ts_HistoryPruned st\<rparr>)))"

section \<open>The invariant\<close>

definition obs_before :: "twapObservation \<Rightarrow> twapObservation \<Rightarrow> bool" where
  "obs_before x y = (o_slot x < o_slot y \<and> o_at x < o_at y)"

text \<open>
  The configuration is the validated one (its durations are int64 values), the observations increase
  strictly in slot and time, carry a time and a positive price, are at most \<open>MaxObservations\<close>, and at
  most one of them is older than the window before the newest one.
\<close>

definition engine_ok :: "TWAPEngine \<Rightarrow> bool" where
  "engine_ok e =
     (twap_config_ok (te_config e) \<and> tc_Window (te_config e) \<le> MaxInt64 \<and>
      tc_MaxStaleness (te_config e) \<le> MaxInt64 \<and>
      sorted_wrt obs_before (te_observations e) \<and>
      list_all (\<lambda>x. o_at x \<noteq> 0 \<and> 0 < o_price x) (te_observations e) \<and>
      int (length (te_observations e)) \<le> tc_MaxObservations (te_config e) \<and>
      length (filter (\<lambda>x. o_at x \<le> o_at (last (te_observations e)) - tc_Window (te_config e))
                (te_observations e)) \<le> 1)"

lemma obs_before_trans: "obs_before x y \<Longrightarrow> obs_before y z \<Longrightarrow> obs_before x z"
  by (auto simp: obs_before_def)

lemma sorted_obs_slots: "sorted_wrt obs_before xs \<Longrightarrow> sorted (map o_slot xs)"
  by (induction xs) (auto simp: obs_before_def intro: less_imp_le)

lemma sorted_obs_times: "sorted_wrt obs_before xs \<Longrightarrow> sorted (map o_at xs)"
  by (induction xs) (auto simp: obs_before_def intro: less_imp_le)

lemma sorted_obs_last: "sorted_wrt obs_before xs \<Longrightarrow> x \<in> set xs \<Longrightarrow> o_at x \<le> o_at (last xs)"
  using sorted_map_last [OF sorted_obs_times] .

lemma sorted_obs_hd: "sorted_wrt obs_before xs \<Longrightarrow> x \<in> set xs \<Longrightarrow> o_at (hd xs) \<le> o_at x"
  by (cases xs) (auto simp: obs_before_def intro: less_imp_le)

lemma sorted_obs_drop: "sorted_wrt obs_before xs \<Longrightarrow> sorted_wrt obs_before (drop n xs)"
  by (metis append_take_drop_id sorted_wrt_append)

lemma filter_le_takeWhile:
  fixes f :: "'a \<Rightarrow> 'b :: linorder"
  shows "sorted (map f xs) \<Longrightarrow> takeWhile (\<lambda>x. \<not> f x > c) xs = filter (\<lambda>x. f x \<le> c) xs"
proof (induction xs)
  case (Cons x xs)
  show ?case
  proof (cases "f x \<le> c")
    case True
    with Cons show ?thesis by (simp add: not_less)
  next
    case False
    with Cons.prems have "\<forall>y \<in> set xs. \<not> f y \<le> c" by force
    with False show ?thesis by (simp add: not_less filter_empty_conv)
  qed
qed simp

text \<open>What pruning removes, as a number of observations from the front.\<close>

definition prune_from :: "TWAPConfig \<Rightarrow> time \<Rightarrow> twapObservation list \<Rightarrow> nat" where
  "prune_from c latest obs =
     (let k = length (filter (\<lambda>x. o_at x \<le> latest - tc_Window c) obs) - 1
      in max k (length obs - nat (tc_MaxObservations c)))"

lemma twap_prune_eq:
  assumes "sorted_wrt obs_before (te_observations e)" and "twap_config_ok (te_config e)"
  shows "te_observations (twap_prune latest e) = drop (prune_from (te_config e) latest (te_observations e)) (te_observations e)"
    and "te_config (twap_prune latest e) = te_config e"
    and "te_historyPruned (twap_prune latest e) \<longleftrightarrow>
      te_historyPruned e \<or> prune_from (te_config e) latest (te_observations e) \<noteq> 0"
proof -
  let ?obs = "te_observations e"
  let ?f = "length (filter (\<lambda>x. o_at x \<le> latest - tc_Window (te_config e)) ?obs)"
  have f: "length (takeWhile (\<lambda>x. \<not> o_at x > latest - tc_Window (te_config e)) ?obs) = ?f"
    using filter_le_takeWhile [OF sorted_obs_times [OF assms(1)]] by metis
  have "?f \<le> length ?obs" by simp
  moreover have "1 \<le> tc_MaxObservations (te_config e)"
    using assms(2) by (simp add: twap_config_ok_def)
  ultimately have k: "(if int (length ?obs - (if ?f > 0 then ?f - 1 else 0)) > tc_MaxObservations (te_config e)
      then (if ?f > 0 then ?f - 1 else 0)
        + (length ?obs - (if ?f > 0 then ?f - 1 else 0) - nat (tc_MaxObservations (te_config e)))
      else (if ?f > 0 then ?f - 1 else 0)) = prune_from (te_config e) latest ?obs"
    by (auto simp: prune_from_def Let_def max_def split: if_splits)
  show "te_observations (twap_prune latest e) = drop (prune_from (te_config e) latest ?obs) ?obs"
    and "te_config (twap_prune latest e) = te_config e"
    and "te_historyPruned (twap_prune latest e) \<longleftrightarrow>
      te_historyPruned e \<or> prune_from (te_config e) latest ?obs \<noteq> 0"
    unfolding twap_prune_def Let_def f k by simp_all
qed

lemma filter_drop_sorted:
  fixes f :: "'a \<Rightarrow> 'b :: linorder"
  shows "sorted (map f xs) \<Longrightarrow> filter (\<lambda>x. f x \<le> c) (drop k xs) = drop k (filter (\<lambda>x. f x \<le> c) xs)"
proof (induction xs arbitrary: k)
  case (Cons x xs)
  show ?case
  proof (cases "f x \<le> c")
    case True
    with Cons show ?thesis by (cases k) simp_all
  next
    case False
    with Cons.prems have none: "\<forall>y \<in> set xs. \<not> f y \<le> c" by force
    then have "\<forall>y \<in> set (drop j xs). \<not> f y \<le> c" for j
      by (meson in_set_dropD)
    with False none show ?thesis by (cases k) (auto simp: filter_empty_conv)
  qed
qed simp

lemma append_obs_sorted:
  assumes "sorted_wrt obs_before xs" and "xs \<noteq> [] \<Longrightarrow> obs_before (last xs) x"
  shows "sorted_wrt obs_before (xs @ [x])"
proof -
  have "obs_before y x" if "y \<in> set xs" for y
  proof -
    have ne: "xs \<noteq> []" using that by auto
    have "y = last xs \<or> obs_before y (last xs)"
      using assms(1) that ne
      by (induction xs) (auto split: if_splits)
    then show ?thesis
      using assms(2) [OF ne] obs_before_trans by blast
  qed
  then show ?thesis using assms(1) by (simp add: sorted_wrt_append)
qed

lemma prune_keeps_newest:
  assumes "twap_config_ok c" and "o_at x = latest"
  shows "prune_from c latest (xs @ [x]) < length (xs @ [x])"
proof -
  have "length (filter (\<lambda>y. o_at y \<le> latest - tc_Window c) (xs @ [x])) \<le> length xs"
    using assms by (auto simp: twap_config_ok_def)
  then show ?thesis
    using assms(1) by (auto simp: prune_from_def Let_def twap_config_ok_def)
qed

lemma Observe_rejected: "fst (twap_Observe slot tm v e) = Inl err \<Longrightarrow> snd (twap_Observe slot tm v e) = e"
  by (auto simp: twap_Observe_def split: option.splits if_splits)

lemma Observe_accepted:
  assumes "twap_Observe slot tm v e = (Inr (), e')"
  shows "\<exists>p. v = Some p \<and> 0 < p \<and> tm \<noteq> 0 \<and>
    (te_observations e \<noteq> [] \<longrightarrow>
       obs_before (last (te_observations e)) \<lparr>o_slot = slot, o_at = tm, o_price = p\<rparr>) \<and>
    e' = twap_prune tm (e\<lparr>te_observations := te_observations e @
           [\<lparr>o_slot = slot, o_at = tm, o_price = p\<rparr>]\<rparr>)"
  using assms
  by (cases v) (auto simp: twap_Observe_def obs_before_def not_le split: if_splits)

lemma Observe_obs:
  assumes "engine_ok e" and "twap_Observe slot tm (Some p) e = (Inr (), e')"
  defines "L \<equiv> te_observations e @ [\<lparr>o_slot = slot, o_at = tm, o_price = p\<rparr>]"
  shows "te_observations e' = drop (prune_from (te_config e) tm L) L"
    and "te_config e' = te_config e" and "sorted_wrt obs_before L"
    and "te_historyPruned e' \<longleftrightarrow> te_historyPruned e \<or> prune_from (te_config e) tm L \<noteq> 0"
proof -
  have ok: "sorted_wrt obs_before (te_observations e)" "twap_config_ok (te_config e)"
    using assms(1) by (simp_all add: engine_ok_def)
  note acc = Observe_accepted [OF assms(2)]
  then show s: "sorted_wrt obs_before L"
    by (auto simp: L_def intro: append_obs_sorted [OF ok(1)])
  have "e' = twap_prune tm (e\<lparr>te_observations := L\<rparr>)"
    using acc by (simp add: L_def)
  with twap_prune_eq [of "e\<lparr>te_observations := L\<rparr>" tm] s ok(2)
  show "te_observations e' = drop (prune_from (te_config e) tm L) L"
    and "te_config e' = te_config e"
    and "te_historyPruned e' \<longleftrightarrow> te_historyPruned e \<or> prune_from (te_config e) tm L \<noteq> 0"
    by simp_all
qed

lemma Observe_accepted_ok:
  assumes "engine_ok e" and "twap_Observe slot tm v e = (Inr (), e')"
  shows "engine_ok e'"
proof -
  obtain p where v: "v = Some p" "0 < p" "tm \<noteq> 0"
    using Observe_accepted [OF assms(2)] by auto
  define x where "x = \<lparr>o_slot = slot, o_at = tm, o_price = p\<rparr>"
  let ?L = "te_observations e @ [x]"
  let ?k = "prune_from (te_config e) tm ?L"
  note obs = Observe_obs [OF assms(1) assms(2) [unfolded v(1)], folded x_def]
  have k: "?k < length ?L"
    using assms(1) by (intro prune_keeps_newest) (simp_all add: engine_ok_def x_def)
  then have l: "last (drop ?k ?L) = x" by (simp add: last_drop)
  have "filter (\<lambda>y. o_at y \<le> tm - tc_Window (te_config e)) (drop ?k ?L) =
      drop ?k (filter (\<lambda>y. o_at y \<le> tm - tc_Window (te_config e)) ?L)"
    by (rule filter_drop_sorted [OF sorted_obs_times [OF obs(3)]])
  moreover have "length (filter (\<lambda>y. o_at y \<le> tm - tc_Window (te_config e)) ?L) - 1 \<le> ?k"
    unfolding prune_from_def Let_def by (rule max.cobounded1)
  ultimately have f: "length (filter (\<lambda>y. o_at y \<le> tm - tc_Window (te_config e)) (drop ?k ?L)) \<le> 1"
    by (simp only: length_drop)
  have "length ?L - nat (tc_MaxObservations (te_config e)) \<le> ?k"
    by (simp add: prune_from_def Let_def)
  then have "length (drop ?k ?L) \<le> nat (tc_MaxObservations (te_config e))"
    by (simp only: length_drop)
  moreover have "0 \<le> tc_MaxObservations (te_config e)"
    using assms(1) by (simp add: engine_ok_def twap_config_ok_def)
  ultimately have len: "int (length (drop ?k ?L)) \<le> tc_MaxObservations (te_config e)"
    using le_nat_iff by blast
  have "list_all (\<lambda>y. o_at y \<noteq> 0 \<and> 0 < o_price y) ?L"
    using assms(1) v by (simp add: engine_ok_def x_def)
  then have "list_all (\<lambda>y. o_at y \<noteq> 0 \<and> 0 < o_price y) (drop ?k ?L)"
    unfolding list_all_iff by (meson in_set_dropD)
  then show ?thesis
    using assms(1) f len sorted_obs_drop [OF obs(3), of ?k]
    unfolding engine_ok_def obs(1,2) l by (simp only: x_def twapObservation.select_convs)
qed

lemma Observe_engine_ok [inv_intros]:
  assumes "engine_ok e"
  shows "engine_ok (snd (twap_Observe slot tm v e))"
proof (cases "fst (twap_Observe slot tm v e)")
  case (Inl err)
  with assms show ?thesis by (simp add: Observe_rejected)
next
  case (Inr u)
  then have "twap_Observe slot tm v e = (Inr (), snd (twap_Observe slot tm v e))"
    by (simp add: prod_eq_iff)
  with Observe_accepted_ok [OF assms] show ?thesis by blast
qed

lemma trim_end_slots:
  assumes "sorted_wrt obs_before xs"
  shows "trim_end (\<lambda>x. o_slot x > n) xs = filter (\<lambda>x. o_slot x \<le> n) xs"
  using assms
proof (induction xs rule: rev_induct)
  case (snoc x xs)
  show ?case
  proof (cases "o_slot x \<le> n")
    case True
    then have "\<forall>y \<in> set xs. o_slot y \<le> n"
      using snoc.prems by (auto simp: sorted_wrt_append obs_before_def)
    moreover have "\<not> n < o_slot x" using True by simp
    ultimately show ?thesis using True by simp
  qed (use snoc in \<open>simp add: sorted_wrt_append\<close>)
qed simp

lemma Rollback_obs:
  assumes "engine_ok e" and "fst (twap_Rollback n e) = Inr ()"
  shows "te_observations (snd (twap_Rollback n e)) = filter (\<lambda>x. o_slot x \<le> n) (te_observations e)"
proof -
  have s: "sorted_wrt obs_before (te_observations e)"
    using assms(1) by (simp add: engine_ok_def)
  have "filter (\<lambda>x. o_slot x \<le> n) (te_observations e) = te_observations e"
    if "o_slot (last (te_observations e)) \<le> n"
    using sorted_map_last [OF sorted_obs_slots [OF s]] that by (fastforce intro: filter_True order_trans)
  then show ?thesis
    using assms(2) by (auto simp: twap_Rollback_def Let_def trim_end_slots [OF s] split: if_splits)
qed

lemma Rollback_fields:
  "te_config (snd (twap_Rollback n e)) = te_config e"
  "te_historyPruned (snd (twap_Rollback n e)) = te_historyPruned e"
  "fst (twap_Rollback n e) \<noteq> Inr () \<Longrightarrow> snd (twap_Rollback n e) = e"
  by (auto simp: twap_Rollback_def Let_def)

lemma filter_prefix_ok:
  assumes "engine_ok e"
  shows "engine_ok (e\<lparr>te_observations := filter (\<lambda>x. o_slot x \<le> n) (te_observations e)\<rparr>)"
proof -
  let ?xs = "te_observations e" and ?ys = "filter (\<lambda>x. o_slot x \<le> n) (te_observations e)"
  let ?w = "tc_Window (te_config e)"
  have ok: "sorted_wrt obs_before ?xs" "length (filter (\<lambda>x. o_at x \<le> o_at (last ?xs) - ?w) ?xs) \<le> 1"
    "int (length ?xs) \<le> tc_MaxObservations (te_config e)"
    using assms by (simp_all add: engine_ok_def)
  have "length (filter (\<lambda>x. o_at x \<le> o_at (last ?ys) - ?w) ?ys) \<le> 1"
  proof (cases "?ys = []")
    case False
    then have "last ?ys \<in> set ?xs"
      using last_in_set [OF False] by (simp only: set_filter mem_Collect_eq)
    then have le: "o_at (last ?ys) \<le> o_at (last ?xs)"
      by (rule sorted_obs_last [OF ok(1)])
    have mono: "length (filter p (filter q zs)) \<le> length (filter r zs)"
      if "\<And>z. p z \<Longrightarrow> r z" for p q r and zs :: "twapObservation list"
      using that by (induction zs) auto
    have "length (filter (\<lambda>x. o_at x \<le> o_at (last ?ys) - ?w) ?ys) \<le>
        length (filter (\<lambda>x. o_at x \<le> o_at (last ?xs) - ?w) ?xs)"
      by (rule mono) (use le in simp)
    with ok(2) show ?thesis by (rule order_trans [rotated])
  qed simp
  moreover have "int (length ?ys) \<le> tc_MaxObservations (te_config e)"
    using ok(3) length_filter_le [of "\<lambda>x. o_slot x \<le> n" ?xs] by linarith
  ultimately show ?thesis
    using assms ok(1) by (simp add: engine_ok_def sorted_wrt_filter list_all_iff del: filter_filter)
qed

lemma Rollback_eq:
  assumes "engine_ok e" and "fst (twap_Rollback n e) = Inr ()"
  shows "snd (twap_Rollback n e) = e\<lparr>te_observations := filter (\<lambda>x. o_slot x \<le> n) (te_observations e)\<rparr>"
  using Rollback_obs [OF assms] Rollback_fields [of n e] by simp

lemma twap_Rollback_ok [inv_intros]:
  assumes "engine_ok e"
  shows "engine_ok (snd (twap_Rollback n e))"
  using assms Rollback_fields(3) [of n e] filter_prefix_ok [OF assms, of n] Rollback_eq [OF assms, of n]
  by (cases "fst (twap_Rollback n e) = Inr ()") simp_all

interpretation twap_log:
  rollback_log "\<lambda>e. engine_ok e \<and> \<not> te_historyPruned e" "\<lambda>e. set (te_observations e)" o_slot
    "\<lambda>n e. snd (twap_Rollback n e)" "\<lambda>n s. s \<le> n"
proof
  show "set (te_observations (snd (twap_Rollback n e))) = {x \<in> set (te_observations e). o_slot x \<le> n}"
    if "engine_ok e \<and> \<not> te_historyPruned e" for e n
  proof -
    have "fst (twap_Rollback n e) = Inr ()"
      using that by (simp add: twap_Rollback_def Let_def)
    with that show ?thesis by (auto simp: Rollback_obs)
  qed
  show "engine_ok (snd (twap_Rollback n e)) \<and> \<not> te_historyPruned (snd (twap_Rollback n e))"
    if "engine_ok e \<and> \<not> te_historyPruned e" for e n
    using that by (simp add: twap_Rollback_ok Rollback_fields)
qed auto

section \<open>The average is the integral over the coverage\<close>

text \<open>The price in effect at a time: that of the newest observation not after it.\<close>

definition price_at :: "twapObservation list \<Rightarrow> time \<Rightarrow> rat" where
  "price_at obs t = o_price (last (filter (\<lambda>x. o_at x \<le> t) obs))"

lemma price_at_suffix:
  assumes "o_at y \<le> t"
  shows "price_at (xs @ y # ys) t = price_at (y # ys) t"
  using assms by (simp add: price_at_def)

lemma price_at_prefix:
  assumes "\<forall>z \<in> set zs. t < o_at z"
  shows "price_at (xs @ zs) t = price_at xs t"
proof -
  have "filter (\<lambda>x. o_at x \<le> t) zs = []"
    using assms by (auto simp: filter_empty_conv)
  then show ?thesis by (simp add: price_at_def)
qed

lemma price_at_first:
  assumes "o_at x \<le> t" and "\<forall>y \<in> set ys. t < o_at y"
  shows "price_at (x # ys) t = o_price x"
  using price_at_prefix [OF assms(2), of "[x]"] assms(1) by (simp add: price_at_def)

lemma time_sub_exact: "b \<le> a \<Longrightarrow> a - b \<le> MaxInt64 \<Longrightarrow> time_sub a b = a - b"
  by (simp add: time_sub_def sat_int64_def MinInt64_def)

lemma addWeightedPrice_nonneg: "0 \<le> d \<Longrightarrow> addWeightedPrice w v d = w + v * of_int d"
  by (simp add: addWeightedPrice_def)

lemma sum_const_interval: "a \<le> b \<Longrightarrow> (\<Sum>t \<in> {a..<b}. c) = c * of_int (b - a)" for a b :: int and c :: rat
  by (simp add: mult.commute)

lemma twap_loop_sum:
  assumes "sorted_wrt obs_before (cur # xs)" and "o_at cur \<le> i" and "i \<le> now"
    and "\<forall>x \<in> set xs. o_at x \<le> now" and "now - i \<le> MaxInt64"
    and "twap_loop xs cur i w n = (cur', i', w', n')"
  shows "addWeightedPrice w' (o_price cur') (time_sub now i') = w + (\<Sum>t \<in> {i..<now}. price_at (cur # xs) t)"
  using assms
proof (induction xs arbitrary: cur i w n)
  case Nil
  have "(\<Sum>t \<in> {i..<now}. price_at [cur] t) = (\<Sum>t \<in> {i..<now}. o_price cur)"
    using Nil.prems(2) by (intro sum.cong) (auto simp: price_at_def)
  then show ?case
    using Nil.prems sum_const_interval [OF Nil.prems(3), of "o_price cur"]
    by (simp add: time_sub_exact addWeightedPrice_nonneg)
next
  case (Cons x xs)
  have later: "\<forall>y \<in> set xs. o_at x < o_at y"
    using Cons.prems(1) by (auto simp: obs_before_def)
  show ?case
  proof (cases "o_at x \<le> i")
    case True
    have "(\<Sum>t \<in> {i..<now}. price_at (cur # x # xs) t) = (\<Sum>t \<in> {i..<now}. price_at (x # xs) t)"
      using True price_at_suffix [of x _ "[cur]" xs] by (intro sum.cong) auto
    then show ?thesis
      using Cons.IH [of x i w n] Cons.prems True by simp
  next
    case False
    let ?w = "addWeightedPrice w (o_price cur) (time_sub (o_at x) i)"
    have x: "o_at x \<le> now" using Cons.prems(4) by simp
    have first: "(\<Sum>t \<in> {i..<o_at x}. price_at (cur # x # xs) t) = o_price cur * of_int (o_at x - i)"
    proof -
      have "(\<Sum>t \<in> {i..<o_at x}. price_at (cur # x # xs) t) = (\<Sum>t \<in> {i..<o_at x}. o_price cur)"
        using Cons.prems(2) later by (intro sum.cong refl price_at_first) auto
      then show ?thesis using sum_const_interval [of i "o_at x"] False by simp
    qed
    have rest: "(\<Sum>t \<in> {o_at x..<now}. price_at (cur # x # xs) t) = (\<Sum>t \<in> {o_at x..<now}. price_at (x # xs) t)"
      using price_at_suffix [of x _ "[cur]" xs] by (intro sum.cong) auto
    have "{i..<now} = {i..<o_at x} \<union> {o_at x..<now}" using False x by auto
    then have split: "(\<Sum>t \<in> {i..<now}. price_at (cur # x # xs) t) =
        o_price cur * of_int (o_at x - i) + (\<Sum>t \<in> {o_at x..<now}. price_at (x # xs) t)"
      using first rest by (simp add: sum.union_disjoint)
    have "?w = w + o_price cur * of_int (o_at x - i)"
      using False x Cons.prems(5) by (simp add: time_sub_exact addWeightedPrice_nonneg)
    moreover have "addWeightedPrice w' (o_price cur') (time_sub now i') = ?w + (\<Sum>t \<in> {o_at x..<now}. price_at (x # xs) t)"
      using Cons.IH [of x "o_at x" ?w "n + 1"] Cons.prems False x by simp
    ultimately show ?thesis using split by simp
  qed
qed

text \<open>The specification of a query, over the whole list of observations.\<close>

definition twap_spec :: "TWAPConfig \<Rightarrow> twapObservation list \<Rightarrow> time \<Rightarrow> twap_error + (rat \<times> duration)" where
  "twap_spec c obs now =
     (let past = filter (\<lambda>x. o_at x \<le> now) obs in
      if past = [] then Inl ErrInsufficientTWAPHistory
      else if time_sub now (o_at (last past)) > tc_MaxStaleness c then Inl ErrStaleTWAP
      else
        let start = max (now - tc_Window c) (o_at (hd past)) in
        if now - start < tc_MinCoverage c then Inl ErrInsufficientTWAPHistory
        else Inr ((\<Sum>t \<in> {start..<now}. price_at obs t) / of_int (now - start), now - start))"

lemma trim_end_times:
  assumes "sorted_wrt obs_before xs"
  shows "trim_end (\<lambda>x. o_at x > now) xs = filter (\<lambda>x. o_at x \<le> now) xs"
  using assms
proof (induction xs rule: rev_induct)
  case (snoc x xs)
  show ?case
  proof (cases "o_at x \<le> now")
    case True
    then have "\<forall>y \<in> set xs. o_at y \<le> now"
      using snoc.prems by (auto simp: sorted_wrt_append obs_before_def)
    with True show ?thesis by simp
  qed (use snoc in \<open>simp add: sorted_wrt_append\<close>)
qed simp

text \<open>The observations the window loop keeps: an anchor at or before the covered interval, then the rest.\<close>

lemma anchor_split:
  fixes ws :: time
  assumes "sorted_wrt obs_before past" and "past \<noteq> []"
  defines "start \<equiv> length (takeWhile (\<lambda>x. o_at x < ws) past)"
  defines "obs \<equiv> drop (if start > 0 then start - 1 else 0) past"
  obtains pre cur rest where "past = pre @ cur # rest" "obs = cur # rest"
    "(if o_at cur > ws then o_at cur else ws) = max ws (o_at (hd past))"
    "o_at cur \<le> max ws (o_at (hd past))"
proof (cases "start = 0")
  case True
  then have "obs = past" by (simp add: obs_def)
  moreover obtain cur rest where "past = cur # rest" using assms(2) by (cases past) auto
  ultimately show thesis by (intro that [of "[]" cur rest]) (auto simp: max_def)
next
  case False
  let ?k = "start - 1"
  have k: "?k < length (takeWhile (\<lambda>x. o_at x < ws) past)" using False by (simp add: start_def)
  then have lt: "?k < length past"
    using length_takeWhile_le [of "\<lambda>x. o_at x < ws" past] by linarith
  have "takeWhile (\<lambda>x. o_at x < ws) past ! ?k = past ! ?k"
    using k by (rule takeWhile_nth)
  then have below: "o_at (past ! ?k) < ws"
    using nth_mem [OF k] by (metis set_takeWhileD)
  have "o_at (hd past) \<le> o_at (past ! ?k)"
    by (rule sorted_obs_hd [OF assms(1) nth_mem [OF lt]])
  with below have cov: "(if o_at (past ! ?k) > ws then o_at (past ! ?k) else ws) = max ws (o_at (hd past))"
    "o_at (past ! ?k) \<le> max ws (o_at (hd past))" by auto
  have "obs = past ! ?k # drop (Suc ?k) past"
    unfolding obs_def using False Cons_nth_drop_Suc [OF lt] by simp
  then show thesis
    by (rule that [OF id_take_nth_drop [OF lt] _ cov])
qed

lemma TWAPAt_eq:
  assumes "engine_ok e"
  shows "map_sum (\<lambda>x. x) (\<lambda>r. (tr_price r, tr_Coverage r)) (TWAPAt now e) =
    (case twap_spec (te_config e) (te_observations e) now of
       Inl err \<Rightarrow> Inl err
     | Inr (avg, cov) \<Rightarrow> if finiteFloat64 avg = None then Inl ErrNonFinitePrice else Inr (avg, cov))"
proof -
  let ?c = "te_config e" and ?all = "te_observations e"
  define past where "past = filter (\<lambda>x. o_at x \<le> now) ?all"
  have s: "sorted_wrt obs_before ?all" and sp: "sorted_wrt obs_before past"
    and w: "0 < tc_Window ?c" "tc_Window ?c \<le> MaxInt64" "0 < tc_MinCoverage ?c"
    using assms by (auto simp: engine_ok_def past_def sorted_wrt_filter twap_config_ok_def)
  have trim: "trim_end (\<lambda>x. o_at x > now) ?all = past"
    by (simp add: past_def trim_end_times [OF s])
  show ?thesis
  proof (cases "past = [] \<or> time_sub now (o_at (last past)) > tc_MaxStaleness ?c")
    case True
    then show ?thesis
      by (auto simp: TWAPAt_def twap_spec_def Let_def trim past_def [symmetric])
  next
    case False
    then have ne: "past \<noteq> []" by simp
    let ?ws = "now - tc_Window ?c"
    let ?from = "max ?ws (o_at (hd past))"
    let ?st = "length (takeWhile (\<lambda>x. o_at x < ?ws) past)"
    obtain pre cur rest where split: "past = pre @ cur # rest"
        "drop (if ?st > 0 then ?st - 1 else 0) past = cur # rest"
        "(if o_at cur > ?ws then o_at cur else ?ws) = ?from" "o_at cur \<le> ?from"
      by (rule anchor_split [OF sp ne, of ?ws])
    have hd_now: "o_at (hd past) \<le> now"
      using hd_in_set [OF ne] by (simp add: past_def)
    have cov: "time_sub now ?from = now - ?from"
      using hd_now w by (intro time_sub_exact) auto
    obtain cur' i' w' n' where loop: "twap_loop rest cur ?from 0 1 = (cur', i', w', n')"
      by (cases "twap_loop rest cur ?from 0 1") blast
    have int: "addWeightedPrice w' (o_price cur') (time_sub now i') =
        0 + (\<Sum>t \<in> {?from..<now}. price_at (cur # rest) t)"
    proof (rule twap_loop_sum [OF _ split(4) _ _ _ loop])
      show "sorted_wrt obs_before (cur # rest)"
        using sp by (simp add: split(1) sorted_wrt_append)
      have "set rest \<subseteq> set past" by (auto simp: split(1))
      then show "\<forall>x \<in> set rest. o_at x \<le> now" by (auto simp: past_def)
    qed (use hd_now w in auto)
    have "price_at (cur # rest) t = price_at ?all t" if "t \<in> {?from..<now}" for t
    proof -
      have "?from \<le> t" using that by simp
      then have "o_at cur \<le> t" by (rule order_trans [OF split(4)])
      then have "price_at (cur # rest) t = price_at past t"
        unfolding split(1) by (rule price_at_suffix [symmetric])
      moreover have "filter (\<lambda>x. o_at x \<le> t) past = filter (\<lambda>x. o_at x \<le> t) ?all"
        using that by (auto simp: past_def intro: filter_cong)
      ultimately show ?thesis by (simp add: price_at_def)
    qed
    then have "(\<Sum>t \<in> {?from..<now}. price_at (cur # rest) t) = (\<Sum>t \<in> {?from..<now}. price_at ?all t)"
      by (intro sum.cong) auto
    with int have total: "addWeightedPrice w' (o_price cur') (time_sub now i') =
        (\<Sum>t \<in> {?from..<now}. price_at ?all t)" by simp
    have noshift: "(if o_at cur > ?from then o_at cur else ?from) = ?from"
      using split(4) by (auto simp: not_less [symmetric])
    show ?thesis
      using False
      unfolding TWAPAt_def twap_spec_def Let_def trim past_def [symmetric] split(2) list.sel split(3) noshift cov loop
      by (simp add: total split: option.splits)
  qed
qed

section \<open>Bounds\<close>

lemma price_at_member:
  assumes "x \<in> set obs" and "o_at x \<le> t"
  obtains y where "y \<in> set obs" "o_at y \<le> t" "price_at obs t = o_price y"
proof -
  have "filter (\<lambda>x. o_at x \<le> t) obs \<noteq> []"
    using assms by (auto simp: filter_empty_conv)
  from last_in_set [OF this] show thesis
    by (intro that [of "last (filter (\<lambda>x. o_at x \<le> t) obs)"]) (auto simp: price_at_def)
qed

text \<open>The average lies between any bounds of the prices observed up to the query.\<close>

lemma twap_spec_bounds:
  assumes "twap_spec c obs now = Inr (avg, cov)" and "0 < tc_MinCoverage c"
    and "\<And>x. x \<in> set obs \<Longrightarrow> o_at x \<le> now \<Longrightarrow> lo \<le> o_price x \<and> o_price x \<le> hi"
  shows "lo \<le> avg \<and> avg \<le> hi"
proof -
  define past where "past = filter (\<lambda>x. o_at x \<le> now) obs"
  define start where "start = max (now - tc_Window c) (o_at (hd past))"
  have p: "past \<noteq> []" "cov = now - start" "0 < now - start"
    and avg: "avg = (\<Sum>t \<in> {start..<now}. price_at obs t) / of_int (now - start)"
    using assms(1,2)
    by (auto simp: twap_spec_def Let_def past_def [symmetric] start_def split: if_splits)
  have "hd past \<in> set obs" "o_at (hd past) \<le> start"
    using hd_in_set [OF p(1)] by (auto simp: past_def start_def)
  then have b: "lo \<le> price_at obs t \<and> price_at obs t \<le> hi" if "t \<in> {start..<now}" for t
    using that assms(3) by (elim price_at_member [of "hd past" obs t]) auto
  have "(\<Sum>t \<in> {start..<now}. lo) \<le> (\<Sum>t \<in> {start..<now}. price_at obs t)"
    and "(\<Sum>t \<in> {start..<now}. price_at obs t) \<le> (\<Sum>t \<in> {start..<now}. hi)"
    by (rule sum_mono, use b in blast)+
  then have "lo * of_int (now - start) \<le> (\<Sum>t \<in> {start..<now}. price_at obs t)"
    and "(\<Sum>t \<in> {start..<now}. price_at obs t) \<le> hi * of_int (now - start)"
    using p(3) by (simp_all add: sum_const_interval del: sum_constant of_int_diff)
  moreover have "(0 :: rat) < of_int (now - start)" using p(3) by (simp del: of_int_diff)
  ultimately show ?thesis
    unfolding avg by (simp add: pos_le_divide_eq pos_divide_le_eq del: of_int_diff)
qed

text \<open>Prices below \<open>2 ^ 1023\<close> never hit the non-finite error.\<close>

lemma twap_spec_finite:
  assumes "engine_ok e" and "twap_spec (te_config e) (te_observations e) now = Inr (avg, cov)"
    and "list_all (\<lambda>x. o_price x < 2 ^ 1023) (te_observations e)"
  shows "finiteFloat64 avg \<noteq> None"
proof -
  have "0 \<le> avg \<and> avg \<le> Max (o_price ` set (te_observations e))"
    using assms(1)
    by (intro twap_spec_bounds [OF assms(2)]) (auto simp: engine_ok_def twap_config_ok_def list_all_iff less_imp_le)
  moreover have "te_observations e \<noteq> []"
    using assms(2) by (auto simp: twap_spec_def Let_def)
  then have "Max (o_price ` set (te_observations e)) < 2 ^ 1023"
    using assms(3) by (subst Max_less_iff) (auto simp: list_all_iff)
  ultimately have "\<bar>avg\<bar> < 2 ^ 1023" by linarith
  then show ?thesis by (simp add: finiteFloat64_some)
qed

section \<open>Pruning\<close>

text \<open>
  While the number of observations inside the window stays within \<open>MaxObservations\<close>, pruning on an
  observation leaves every later query unchanged: what is dropped is older than the anchor.
\<close>

lemma twap_spec_drop:
  assumes "sorted_wrt obs_before (xs @ y # ys)" and "0 < tc_Window c"
    and "o_at y \<le> now - tc_Window c" and "o_at (last (y # ys)) \<le> now"
  shows "twap_spec c (xs @ y # ys) now = twap_spec c (y # ys) now"
proof -
  have all: "\<forall>x \<in> set (xs @ y # ys). o_at x \<le> now"
    using sorted_obs_last [OF assms(1)] assms(4) by (auto intro: order_trans)
  then have f: "filter (\<lambda>x. o_at x \<le> now) (xs @ y # ys) = xs @ y # ys"
    "filter (\<lambda>x. o_at x \<le> now) (y # ys) = y # ys"
    by (auto intro!: filter_True)
  have "o_at (hd (xs @ y # ys)) \<le> o_at y"
    by (rule sorted_obs_hd [OF assms(1)]) simp
  then have start: "max (now - tc_Window c) (o_at (hd (xs @ y # ys))) = now - tc_Window c"
    "max (now - tc_Window c) (o_at (hd (y # ys))) = now - tc_Window c"
    using assms(3) by simp_all
  have "(\<Sum>t \<in> {now - tc_Window c..<now}. price_at (xs @ y # ys) t) =
      (\<Sum>t \<in> {now - tc_Window c..<now}. price_at (y # ys) t)"
    using assms(3) by (intro sum.cong refl price_at_suffix) auto
  then show ?thesis
    unfolding twap_spec_def Let_def f start by simp
qed

section \<open>Snapshot and restore\<close>

lemma prune_none:
  assumes "sorted_wrt obs_before (te_observations e)" and "twap_config_ok (te_config e)"
    and "int (length (te_observations e)) \<le> tc_MaxObservations (te_config e)"
    and "length (filter (\<lambda>x. o_at x \<le> latest - tc_Window (te_config e)) (te_observations e)) \<le> 1"
  shows "twap_prune latest e = e"
proof -
  have "prune_from (te_config e) latest (te_observations e) = 0"
    using assms(3,4) by (auto simp: prune_from_def Let_def)
  with twap_prune_eq [OF assms(1,2), of latest] show ?thesis by simp
qed

lemma price_strings:
  "of_int (fst (quotient_of p)) / of_int (snd (quotient_of p)) = p" "0 < snd (quotient_of p)"
  using quotient_of_div [of p] quotient_of_denom_pos [of p] by (cases "quotient_of p"; simp)+

lemma replay_persisted:
  "twap_replay (map persist_observation (x # xs)) e =
     (case twap_Observe (o_slot x) (o_at x) (Some (o_price x)) e of
        (Inl _, _) \<Rightarrow> Inl ErrInvalidTWAPState
      | (Inr _, e') \<Rightarrow> twap_replay (map persist_observation xs) e')"
  using price_strings(2) [of "o_price x"]
  by (simp add: persist_observation_def price_strings(1) not_le split: prod.splits sum.splits)

lemma prefix_engine_ok:
  assumes "engine_ok (e\<lparr>te_observations := xs @ ys\<rparr>)"
  shows "engine_ok (e\<lparr>te_observations := xs\<rparr>)"
proof (cases "xs = []")
  case True
  with assms show ?thesis by (simp add: engine_ok_def)
next
  case False
  let ?w = "tc_Window (te_config e)"
  have s: "sorted_wrt obs_before (xs @ ys)" "length (filter (\<lambda>x. o_at x \<le> o_at (last (xs @ ys)) - ?w) (xs @ ys)) \<le> 1"
    using assms by (simp_all add: engine_ok_def)
  have "o_at (last xs) \<le> o_at (last (xs @ ys))"
    using False by (intro sorted_obs_last [OF s(1)]) simp
  then have "length (filter (\<lambda>x. o_at x \<le> o_at (last xs) - ?w) xs) \<le>
      length (filter (\<lambda>x. o_at x \<le> o_at (last (xs @ ys)) - ?w) xs)"
    by (intro length_filter_mono) auto
  also have "\<dots> \<le> 1" using s(2) by simp
  finally show ?thesis
    using assms by (simp add: engine_ok_def sorted_wrt_append)
qed

lemma Observe_next:
  assumes "engine_ok (e\<lparr>te_observations := xs @ [x]\<rparr>)" and "te_observations e = xs"
  shows "twap_Observe (o_slot x) (o_at x) (Some (o_price x)) e = (Inr (), e\<lparr>te_observations := xs @ [x]\<rparr>)"
proof -
  let ?e = "e\<lparr>te_observations := xs @ [x]\<rparr>"
  have "twap_prune (o_at x) ?e = ?e"
    using assms(1) by (intro prune_none) (simp_all add: engine_ok_def)
  moreover have "xs \<noteq> [] \<Longrightarrow> obs_before (last xs) x"
    using assms(1) by (auto simp: engine_ok_def sorted_wrt_append)
  then have "\<not> (xs \<noteq> [] \<and> (o_slot x \<le> o_slot (last xs) \<or> \<not> o_at x > o_at (last xs)))"
    by (auto simp: obs_before_def not_le)
  moreover have "\<not> (o_at x = 0 \<or> o_price x \<le> 0)"
    using assms(1) by (simp add: engine_ok_def)
  ultimately show ?thesis
    unfolding twap_Observe_def assms(2) by (cases x) simp
qed

lemma replay_snapshot:
  assumes "engine_ok (e\<lparr>te_observations := xs @ ys\<rparr>)" and "te_observations e = xs"
  shows "twap_replay (map persist_observation ys) e = Inr (e\<lparr>te_observations := xs @ ys\<rparr>)"
  using assms
proof (induction ys arbitrary: xs e)
  case Nil
  then show ?case by simp
next
  case (Cons y ys)
  have "engine_ok (e\<lparr>te_observations := xs @ [y]\<rparr>)"
    using prefix_engine_ok [of "xs @ [y]" ys e] Cons.prems(1) by simp
  note next_obs = Observe_next [OF this Cons.prems(2)]
  have step_ok: "engine_ok ((e\<lparr>te_observations := xs @ [y]\<rparr>)\<lparr>te_observations := (xs @ [y]) @ ys\<rparr>)"
    using Cons.prems(1) by simp
  have step_obs: "te_observations (e\<lparr>te_observations := xs @ [y]\<rparr>) = xs @ [y]" by simp
  have "twap_replay (map persist_observation ys) (e\<lparr>te_observations := xs @ [y]\<rparr>) =
      Inr (e\<lparr>te_observations := xs @ y # ys\<rparr>)"
    using Cons.IH [OF step_ok step_obs] by simp
  then show ?case
    unfolding replay_persisted next_obs by simp
qed

lemma drop_to_anchor:
  assumes "sorted_wrt obs_before L" and "0 < length (filter (\<lambda>x. o_at x \<le> c) L)"
  obtains pre y ys where "L = pre @ y # ys" "drop (length (filter (\<lambda>x. o_at x \<le> c) L) - 1) L = y # ys" "o_at y \<le> c"
proof -
  let ?f = "filter (\<lambda>x. o_at x \<le> c) L" and ?k = "length (filter (\<lambda>x. o_at x \<le> c) L) - 1"
  have tw: "takeWhile (\<lambda>x. \<not> o_at x > c) L = ?f"
    by (rule filter_le_takeWhile [OF sorted_obs_times [OF assms(1)]])
  have k: "?k < length ?f" using assms(2) by linarith
  then have lt: "?k < length L"
    using length_filter_le [of "\<lambda>x. o_at x \<le> c" L] by linarith
  have "?f ! ?k = L ! ?k"
    using takeWhile_nth [of ?k "\<lambda>x. \<not> o_at x > c" L] k unfolding tw by simp
  then have "o_at (L ! ?k) \<le> c"
    using nth_mem [OF k] by auto
  with lt show thesis
    by (intro that [OF id_take_nth_drop [OF lt]]) (simp_all add: Cons_nth_drop_Suc)
qed

lemma prune_unobservable:
  assumes "sorted_wrt obs_before L" and "twap_config_ok c" and "o_at (last L) \<le> now" and "L \<noteq> []"
    and "int (length (drop (length (filter (\<lambda>x. o_at x \<le> o_at (last L) - tc_Window c) L) - 1) L)) \<le> tc_MaxObservations c"
  shows "twap_spec c (drop (prune_from c (o_at (last L)) L) L) now = twap_spec c L now"
proof -
  let ?f = "length (filter (\<lambda>x. o_at x \<le> o_at (last L) - tc_Window c) L)"
  have k: "prune_from c (o_at (last L)) L = ?f - 1"
    using assms(5) by (auto simp: prune_from_def Let_def)
  show ?thesis
  proof (cases "?f = 0")
    case False
    then have "0 < ?f" by simp
    then obtain pre y ys where y: "L = pre @ y # ys" "drop (?f - 1) L = y # ys"
        "o_at y \<le> o_at (last L) - tc_Window c"
      by (rule drop_to_anchor [OF assms(1)])
    have "o_at y \<le> now - tc_Window c"
      using y(3) assms(3) by linarith
    moreover have "o_at (last (y # ys)) \<le> now"
      using assms(3) y(1) by simp
    moreover have "0 < tc_Window c" using assms(2) by (simp add: twap_config_ok_def)
    ultimately show ?thesis
      unfolding k y(2) using twap_spec_drop [of pre y ys c now] assms(1) y(1) by simp
  qed (simp add: k)
qed

section \<open>Properties\<close>

text \<open>C1: a time-weighted average query answers as its specification: it fails exactly when nothing was
  observed by then, the newest price is stale, or the coverage is too short, and otherwise
  returns the exact mean, over every nanosecond of the coverage, of the price in effect. With prices
  below \<open>2 ^ 1023\<close> the conversion to a float never fails.\<close>

theorem twap_is_mean_of_step_function:
  assumes "engine_ok e" and "list_all (\<lambda>x. o_price x < 2 ^ 1023) (te_observations e)"
  shows "map_sum (\<lambda>x. x) (\<lambda>r. (tr_price r, tr_Coverage r)) (TWAPAt now e) =
    twap_spec (te_config e) (te_observations e) now"
  using TWAPAt_eq [OF assms(1), of now] twap_spec_finite [OF assms(1) _ assms(2), of now]
  by (fastforce split: sum.splits)

text \<open>The average lies between the lowest and the highest retained price, and its coverage is at
  least the configured minimum and at most the window.\<close>

lemma twap_within_observed_prices:
  assumes "engine_ok e" and "TWAPAt now e = Inr r"
  shows "Min (o_price ` set (te_observations e)) \<le> tr_price r
    \<and> tr_price r \<le> Max (o_price ` set (te_observations e))
    \<and> tc_MinCoverage (te_config e) \<le> tr_Coverage r \<and> tr_Coverage r \<le> tc_Window (te_config e)"
proof -
  have spec: "twap_spec (te_config e) (te_observations e) now = Inr (tr_price r, tr_Coverage r)"
    using TWAPAt_eq [OF assms(1), of now] assms(2) by (auto split: sum.splits if_splits)
  have "Min (o_price ` set (te_observations e)) \<le> tr_price r
      \<and> tr_price r \<le> Max (o_price ` set (te_observations e))"
    using assms(1) by (intro twap_spec_bounds [OF spec]) (auto simp: engine_ok_def twap_config_ok_def)
  with spec show ?thesis
    by (auto simp: twap_spec_def Let_def split: if_splits)
qed

text \<open>Every state-changing operation of the engine keeps its invariant: strictly increasing slots
  and times, positive prices, at most \<open>MaxObservations\<close> entries and at most one anchor older
  than the window.\<close>

lemma twap_engine_invariant:
  assumes "engine_ok e"
  shows "engine_ok (snd (twap_Observe slot tm v e)) \<and> engine_ok (snd (twap_Rollback n e))"
  using assms by (auto intro: inv_intros)

text \<open>C23: accepting an observation prunes only what no later query can see: as long as the anchor and
  the observations after it fit in \<open>MaxObservations\<close>, every query at or after the new
  observation has the answer it has on the unpruned list.\<close>

theorem twap_pruning_unobservable:
  assumes "engine_ok e" and "twap_Observe slot tm (Some p) e = (Inr (), e')" and "tm \<le> now"
    and "L = te_observations e @ [\<lparr>o_slot = slot, o_at = tm, o_price = p\<rparr>]"
    and "int (length (drop (length (filter (\<lambda>x. o_at x \<le> tm - tc_Window (te_config e)) L) - 1) L))
      \<le> tc_MaxObservations (te_config e)"
  shows "twap_spec (te_config e) (te_observations e') now = twap_spec (te_config e) L now"
proof -
  note obs = Observe_obs [OF assms(1,2), folded assms(4)]
  have l: "o_at (last L) = tm" "L \<noteq> []" by (simp_all add: assms(4))
  have "twap_config_ok (te_config e)" using assms(1) by (simp add: engine_ok_def)
  with prune_unobservable [OF obs(3), of "te_config e" now] assms(3,5) show ?thesis
    unfolding obs(1) l(1) using l(2) by blast
qed

text \<open>A rollback either keeps exactly the observations up to its slot, or, only when history was
  pruned and no retained observation is at or before the slot, refuses and changes nothing.\<close>

lemma twap_rollback_exact:
  assumes "engine_ok e"
  shows "(fst (twap_Rollback n e) = Inr () \<and>
      te_observations (snd (twap_Rollback n e)) = filter (\<lambda>x. o_slot x \<le> n) (te_observations e))
    \<or> (fst (twap_Rollback n e) = Inl ErrTWAPRollbackUnavailable \<and> snd (twap_Rollback n e) = e
      \<and> te_historyPruned e \<and> filter (\<lambda>x. o_slot x \<le> n) (te_observations e) = [])"
proof (cases "fst (twap_Rollback n e) = Inr ()")
  case True
  with Rollback_obs [OF assms] show ?thesis by simp
next
  case False
  have "sorted (map o_slot (te_observations e))"
    using assms sorted_obs_slots by (simp add: engine_ok_def)
  then have hd_le: "o_slot (hd (te_observations e)) \<le> o_slot x" if "x \<in> set (te_observations e)" for x
    using that by (cases "te_observations e") auto
  have "te_historyPruned e" "te_observations e = [] \<or> n < o_slot (hd (te_observations e))"
    "twap_Rollback n e = (Inl ErrTWAPRollbackUnavailable, e)"
    using False by (auto simp: twap_Rollback_def Let_def split: if_splits)
  then show ?thesis
    using hd_le by (auto simp: filter_empty_conv dest: order.strict_trans1)
qed

text \<open>Restoring the snapshot of an engine gives the same engine back, exact prices, order and
  pruning mark included.\<close>

lemma twap_snapshot_round_trip:
  assumes "engine_ok e"
  shows "NewTWAPEngineFromState (twap_Snapshot e) = Inr e"
proof -
  let ?e0 = "\<lparr>te_config = te_config e, te_observations = [], te_historyPruned = te_historyPruned e\<rparr>"
  have "twap_replay (map persist_observation (te_observations e)) ?e0 = Inr e"
    using replay_snapshot [of "[]" "te_observations e" ?e0] assms by (cases e) simp
  then show ?thesis
    using assms by (simp add: NewTWAPEngineFromState_def twap_Snapshot_def NewTWAPEngine_def engine_ok_def)
qed

section \<open>Witnesses\<close>

definition two_price_engine :: TWAPEngine where
  "two_price_engine =
     \<lparr>te_config = \<lparr>tc_Window = 10, tc_MinCoverage = 4, tc_MaxStaleness = 5, tc_MaxObservations = 3\<rparr>,
      te_observations = [\<lparr>o_slot = 4, o_at = 100, o_price = 1\<rparr>, \<lparr>o_slot = 8, o_at = 103, o_price = 3\<rparr>],
      te_historyPruned = False\<rparr>"

lemma two_price_engine_ok: "engine_ok two_price_engine"
  by (simp add: engine_ok_def two_price_engine_def twap_config_ok_def obs_before_def MaxInt64_def)

lemma two_price_spec:
  "twap_spec (te_config two_price_engine) (te_observations two_price_engine) 106 = Inr (2, 6)"
proof -
  have "{100..<106 :: int} = {100, 101, 102, 103, 104, 105}" by auto
  then show ?thesis
    by (simp add: twap_spec_def two_price_engine_def time_sub_def sat_int64_def MaxInt64_def MinInt64_def price_at_def)
qed

theorem twap_is_mean_of_step_function_witness:
  "map_sum (\<lambda>x. x) (\<lambda>r. (tr_price r, tr_Coverage r)) (TWAPAt 106 two_price_engine) = Inr (2, 6)"
  using twap_is_mean_of_step_function [OF two_price_engine_ok, of 106] two_price_spec
  by (simp add: two_price_engine_def)

definition pruned_engine :: TWAPEngine where
  "pruned_engine = snd (twap_Observe 9 114 (Some 5) two_price_engine)"

theorem twap_pruning_unobservable_witness:
  "te_observations pruned_engine =
     [\<lparr>o_slot = 8, o_at = 103, o_price = 3\<rparr>, \<lparr>o_slot = 9, o_at = 114, o_price = 5\<rparr>]
   \<and> twap_spec (te_config two_price_engine) (te_observations pruned_engine) 115 =
     twap_spec (te_config two_price_engine)
       (te_observations two_price_engine @ [\<lparr>o_slot = 9, o_at = 114, o_price = 5\<rparr>]) 115"
proof
  have obs: "twap_Observe 9 114 (Some 5) two_price_engine = (Inr (), pruned_engine)"
    by (simp add: pruned_engine_def two_price_engine_def twap_Observe_def)
  show "twap_spec (te_config two_price_engine) (te_observations pruned_engine) 115 =
      twap_spec (te_config two_price_engine)
        (te_observations two_price_engine @ [\<lparr>o_slot = 9, o_at = 114, o_price = 5\<rparr>]) 115"
    by (rule twap_pruning_unobservable [OF two_price_engine_ok obs])
      (simp_all add: two_price_engine_def)
qed (simp add: pruned_engine_def two_price_engine_def twap_Observe_def twap_prune_def)

end
