(* ===== verification/Common.thy ===== *)
theory Common
  imports Prelude
begin

text \<open>
  \<open>common/types.go\<close>: native assets and amounts. An asset class is a policy id and a name;
  lovelace is the class with both empty. The CBOR codec of a class is the \<open>gouroboros\<close> library's
  and is not modelled.
\<close>

section \<open>Data\<close>

record AssetClass =
  PolicyId :: bytes
  Name :: bytes

record AssetAmount =
  Class :: AssetClass
  Amount :: u64

section \<open>Operations\<close>

definition IsLovelace :: "AssetClass \<Rightarrow> bool" where
  "IsLovelace a = (length (PolicyId a) = 0 \<and> length (Name a) = 0)"

definition PolicyIdHex :: "AssetClass \<Rightarrow> string" where
  "PolicyIdHex a = hex_encode (PolicyId a)"

definition NameHex :: "AssetClass \<Rightarrow> string" where
  "NameHex a = hex_encode (Name a)"

definition AssetClass_String :: "AssetClass \<Rightarrow> string" where
  "AssetClass_String a =
     ''AssetClass< policy_id = '' @ hex_encode (PolicyId a) @ '', name = '' @ hex_encode (Name a) @ '' >''"

definition Fingerprint :: "AssetClass \<Rightarrow> string" where
  "Fingerprint a =
     (if IsLovelace a then ''lovelace'' else PolicyIdHex a @ ''.'' @ NameHex a)"

datatype asset_error = InvalidPolicyHex | InvalidNameHex

definition NewAssetClass :: "string \<Rightarrow> string \<Rightarrow> asset_error + AssetClass" where
  "NewAssetClass policyIdHex nameHex =
     (case hex_decode policyIdHex of
        None \<Rightarrow> Inl InvalidPolicyHex
      | Some policyId \<Rightarrow>
          (case hex_decode nameHex of
             None \<Rightarrow> Inl InvalidNameHex
           | Some name \<Rightarrow> Inr \<lparr>PolicyId = policyId, Name = name\<rparr>))"

definition Lovelace :: AssetClass where
  "Lovelace = \<lparr>PolicyId = [], Name = []\<rparr>"

definition IsAsset :: "AssetAmount \<Rightarrow> AssetClass \<Rightarrow> bool" where
  "IsAsset a other =
     (PolicyId (Class a) = PolicyId other \<and> Name (Class a) = Name other)"

definition amount_IsLovelace :: "AssetAmount \<Rightarrow> bool" where
  "amount_IsLovelace a = IsLovelace (Class a)"

definition AssetAmount_String :: "AssetAmount \<Rightarrow> string" where
  "AssetAmount_String a =
     ''AssetAmount< class = '' @ AssetClass_String (Class a) @ '', amount = ''
       @ show_nat (unat (Amount a)) @ '' >''"

section \<open>Lemmas\<close>

lemma IsAsset_eq [simp]: "IsAsset a c \<longleftrightarrow> Class a = c"
  by (auto simp: IsAsset_def)

lemma IsLovelace_iff: "IsLovelace a \<longleftrightarrow> a = Lovelace"
  by (cases a) (simp add: IsLovelace_def Lovelace_def)

lemma dot_not_hex: "\<not> is_hex (CHR ''.'')"
  by (simp add: is_hex_def hex_val_def)

lemma Fingerprint_not_lovelace: "\<not> IsLovelace a \<Longrightarrow> Fingerprint a \<noteq> ''lovelace''"
proof
  assume "\<not> IsLovelace a" and "Fingerprint a = ''lovelace''"
  then have "CHR ''.'' \<in> set ''lovelace''"
    by (metis Fingerprint_def Un_iff list.set_intros(1) set_append)
  then show False by simp
qed

lemma Fingerprint_inject: "Fingerprint a = Fingerprint b \<Longrightarrow> a = b"
proof (cases "IsLovelace a \<or> IsLovelace b")
  case True
  moreover assume "Fingerprint a = Fingerprint b"
  ultimately show ?thesis
    by (metis Fingerprint_def Fingerprint_not_lovelace IsLovelace_iff)
next
  case False
  moreover assume "Fingerprint a = Fingerprint b"
  ultimately have "hex_encode (PolicyId a) @ CHR ''.'' # hex_encode (Name a) =
      hex_encode (PolicyId b) @ CHR ''.'' # hex_encode (Name b)"
    by (simp add: Fingerprint_def PolicyIdHex_def NameHex_def)
  then have "hex_encode (PolicyId a) = hex_encode (PolicyId b) \<and>
      hex_encode (Name a) = hex_encode (Name b)"
    by (rule append_sep_inject) (simp_all add: hex_encode_no_sep dot_not_hex)
  then show ?thesis by simp
qed

lemma NewAssetClass_hex: "NewAssetClass (PolicyIdHex a) (NameHex a) = Inr a"
  by (simp add: NewAssetClass_def PolicyIdHex_def NameHex_def)

end
