(* ===== verification/Pool.thy ===== *)
theory Pool
  imports Common Float64
begin

text \<open>
  \<open>dex/models.go\<close>: the pool state that every parser produces and every consumer reads, with the
  constant-product quote. Reserves, fees and slots are 64-bit words; the intermediate products of
  a quote are \<open>big.Int\<close> values, here natural numbers. Prices are doubles (theory \<open>Float64\<close>).
\<close>

section \<open>Data\<close>

record PoolState =
  PoolId :: string
  Network :: string
  Protocol :: string
  AssetX :: AssetAmount
  AssetY :: AssetAmount
  FeeNum :: u64
  FeeDenom :: u64
  Slot :: u64
  BlockHash :: string
  TxHash :: string
  TxIndex :: u32
  Timestamp :: time
  UpdatedAt :: time
  FromMempool :: bool

record PriceUpdate =
  pu_PoolId :: string
  pu_Protocol :: string
  pu_AssetX :: string
  pu_AssetY :: string
  pu_PriceXY :: f64
  pu_PriceYX :: f64
  pu_ReserveX :: u64
  pu_ReserveY :: u64
  pu_Slot :: u64
  pu_Timestamp :: time
  pu_PrevPriceXY :: f64
  pu_PriceChangeX :: f64

datatype quote_error =
    ZeroFeeDenominator
  | FeeExceedsDenominator u64 u64
  | AssetNotInPool bytes bytes string
  | ZeroReserves string u64 u64
  | ZeroSwapDenominator string
  | OutputOverflow string

section \<open>Operations\<close>

definition PriceXY :: "PoolState \<Rightarrow> f64" where
  "PriceXY p =
     (if Amount (AssetX p) = 0 then Fin 0
      else f64_div (f64_of_u64 (Amount (AssetY p))) (f64_of_u64 (Amount (AssetX p))))"

definition PriceYX :: "PoolState \<Rightarrow> f64" where
  "PriceYX p =
     (if Amount (AssetY p) = 0 then Fin 0
      else f64_div (f64_of_u64 (Amount (AssetX p))) (f64_of_u64 (Amount (AssetY p))))"

definition TVL :: "PoolState \<Rightarrow> u64" where
  "TVL p = (let sum = Amount (AssetX p) + Amount (AssetY p) in
     if sum < Amount (AssetX p) then MaxUint64 else sum)"

definition EffectiveFee :: "PoolState \<Rightarrow> f64" where
  "EffectiveFee p =
     (if FeeDenom p = 0 then Fin 0
      else f64_sub (Fin 1) (f64_div (f64_of_u64 (FeeNum p)) (f64_of_u64 (FeeDenom p))))"

text \<open>The reserves on the input and the output side of a swap, X taking precedence over Y.\<close>

definition quote_reserves :: "PoolState \<Rightarrow> bytes \<Rightarrow> bytes \<Rightarrow> (u64 \<times> u64) option" where
  "quote_reserves p assetInPolicy assetInName =
     (if PolicyId (Class (AssetX p)) = assetInPolicy \<and> Name (Class (AssetX p)) = assetInName
      then Some (Amount (AssetX p), Amount (AssetY p))
      else if PolicyId (Class (AssetY p)) = assetInPolicy \<and> Name (Class (AssetY p)) = assetInName
      then Some (Amount (AssetY p), Amount (AssetX p))
      else None)"

definition price_impact :: "u64 \<Rightarrow> u64 \<Rightarrow> u64 \<Rightarrow> u64 \<Rightarrow> f64" where
  "price_impact reserveIn reserveOut amountIn amountOut =
     (let spot = f64_div (f64_of_u64 reserveOut) (f64_of_u64 reserveIn) in
      if f64_less (Fin 0) spot
      then let execution = f64_div (f64_of_u64 amountOut) (f64_of_u64 amountIn)
           in f64_mul (f64_div (f64_sub spot execution) spot) (Fin 100)
      else Fin 0)"

definition Quote :: "PoolState \<Rightarrow> bytes \<Rightarrow> bytes \<Rightarrow> u64 \<Rightarrow> quote_error + (u64 \<times> f64)" where
  "Quote p assetInPolicy assetInName amountIn =
     (if FeeDenom p = 0 then Inl ZeroFeeDenominator
      else if FeeNum p > FeeDenom p then Inl (FeeExceedsDenominator (FeeNum p) (FeeDenom p))
      else case quote_reserves p assetInPolicy assetInName of
        None \<Rightarrow> Inl (AssetNotInPool assetInPolicy assetInName (PoolId p))
      | Some (reserveIn, reserveOut) \<Rightarrow>
          if reserveIn = 0 \<or> reserveOut = 0
          then Inl (ZeroReserves (PoolId p) reserveIn reserveOut)
          else if amountIn = 0 then Inr (0, Fin 0)
          else
            let amountInFee = unat amountIn * unat (FeeNum p);
                numerator = unat reserveOut * amountInFee;
                denominator = unat reserveIn * unat (FeeDenom p) + amountInFee
            in if denominator = 0 then Inl (ZeroSwapDenominator (PoolId p))
               else let out = numerator div denominator
                    in if \<not> out < 2 ^ 64 then Inl (OutputOverflow (PoolId p))
                       else let amountOut = word_of_nat out
                            in Inr (amountOut, price_impact reserveIn reserveOut amountIn amountOut))"

definition Key :: "PoolState \<Rightarrow> string" where
  "Key p = Network p @ '':'' @ Protocol p @ '':'' @ PoolId p"

text \<open>The key of a pool known by its three names only (\<open>PoolState{...}.Key()\<close>).\<close>

definition pool_key :: "string \<Rightarrow> string \<Rightarrow> string \<Rightarrow> string" where
  "pool_key network protocol poolId = network @ '':'' @ protocol @ '':'' @ poolId"

definition NewPriceUpdate :: "PoolState option \<Rightarrow> f64 \<Rightarrow> PriceUpdate option" where
  "NewPriceUpdate state prevPrice =
     (case state of
        None \<Rightarrow> None
      | Some s \<Rightarrow> Some
          \<lparr>pu_PoolId = PoolId s, pu_Protocol = Protocol s,
           pu_AssetX = Fingerprint (Class (AssetX s)),
           pu_AssetY = Fingerprint (Class (AssetY s)),
           pu_PriceXY = PriceXY s, pu_PriceYX = PriceYX s,
           pu_ReserveX = Amount (AssetX s), pu_ReserveY = Amount (AssetY s),
           pu_Slot = Slot s, pu_Timestamp = Timestamp s,
           pu_PrevPriceXY = prevPrice,
           pu_PriceChangeX =
             (if f64_less (Fin 0) prevPrice
              then f64_mul (f64_div (f64_sub (PriceXY s) prevPrice) prevPrice) (Fin 100)
              else Fin 0)\<rparr>)"

section \<open>The swap arithmetic\<close>

text \<open>
  The constant-product rule on natural numbers: \<open>x\<close> and \<open>y\<close> are the reserves on the input and on
  the output side, \<open>n / d\<close> the post-fee multiplier, \<open>a\<close> the input.
\<close>

definition cp_out :: "nat \<Rightarrow> nat \<Rightarrow> nat \<Rightarrow> nat \<Rightarrow> nat \<Rightarrow> nat" where
  "cp_out n d x y a = (y * (a * n)) div (x * d + a * n)"

lemma cp_out_less:
  assumes "0 < x" "0 < y" "0 < d"
  shows "cp_out n d x y a < y"
proof -
  have "y * (a * n) < y * (x * d + a * n)"
    using assms by simp
  then show ?thesis
    using assms by (simp add: cp_out_def div_less_iff_less_mult mult.commute)
qed

text \<open>The pool never loses: the product of the reserves does not decrease.\<close>

lemma cp_out_product:
  assumes "0 < x" "0 < d" "n \<le> d"
  shows "x * y \<le> (x + a) * (y - cp_out n d x y a)"
proof -
  let ?b = "cp_out n d x y a" and ?D = "x * d + a * n"
  have D: "0 < ?D" using assms by simp
  have "?b * ?D \<le> y * (a * n)"
    by (simp add: cp_out_def)
  then have *: "y * (x * d) \<le> (y - ?b) * ?D"
    by (simp add: diff_mult_distrib algebra_simps)
  have "a * n \<le> a * d"
    using assms by simp
  then have "(y - ?b) * ?D \<le> (y - ?b) * ((x + a) * d)"
    by (intro mult_le_mono2) (simp add: algebra_simps)
  with * have "(x * y) * d \<le> ((x + a) * (y - ?b)) * d"
    by (simp add: algebra_simps)
  then show ?thesis
    using assms by simp
qed

lemma cp_out_mono:
  assumes "0 < x" "0 < d" "a \<le> a'"
  shows "cp_out n d x y a \<le> cp_out n d x y a'"
proof -
  let ?u = "a * n" and ?v = "a' * n"
  have uv: "?u \<le> ?v" using assms by simp
  have D: "0 < x * d" using assms by simp
  have "(y * ?u) div (x * d + ?u) * (x * d + ?v) \<le> y * ?v"
  proof -
    let ?q = "(y * ?u) div (x * d + ?u)"
    have q1: "?q * (x * d + ?u) \<le> y * ?u" by simp
    have q2: "?q \<le> y"
    proof -
      have "y * ?u \<le> y * (x * d + ?u)" by simp
      then show ?thesis
        using D by (metis add_gr_0 div_le_mono nonzero_mult_div_cancel_right not_gr0)
    qed
    obtain w where w: "?v = ?u + w"
      using uv le_Suc_ex by blast
    have "?q * (x * d + (?u + w)) = ?q * (x * d + ?u) + ?q * w"
      by (simp add: distrib_left)
    also have "\<dots> \<le> y * ?u + y * w"
      using q1 q2 by (intro add_mono mult_le_mono1) simp_all
    finally show ?thesis
      by (simp add: w distrib_left)
  qed
  then show ?thesis
    using D by (simp add: cp_out_def less_eq_div_iff_mult_less_eq)
qed

text \<open>Swapping back what a swap paid out returns at most the input.\<close>

lemma cp_out_round_trip:
  assumes "0 < x" "0 < y" "0 < d" "n \<le> d"
  shows "cp_out n d (y - cp_out n d x y a) (x + a) (cp_out n d x y a) \<le> a"
proof -
  let ?b = "cp_out n d x y a"
  let ?c = "cp_out n d (y - ?b) (x + a) ?b"
  have b: "?b < y" using assms by (simp add: cp_out_less)
  have "x * y \<le> (x + a) * (y - ?b)"
    using assms by (simp add: cp_out_product)
  also have "(x + a) * (y - ?b) \<le> ((y - ?b) + ?b) * ((x + a) - ?c)"
    using cp_out_product [of "y - ?b" d n "x + a" ?b] assms b by (simp add: mult.commute)
  also have "\<dots> = y * ((x + a) - ?c)"
    using b by simp
  finally have "x \<le> (x + a) - ?c"
    using assms by (simp add: mult.commute)
  then show ?thesis
    using assms(1) by linarith
qed

section \<open>What a quote returns\<close>

lemma quote_reserves_swap:
  assumes "quote_reserves p pol nm = Some (rIn, rOut)"
  shows "{rIn, rOut} = {Amount (AssetX p), Amount (AssetY p)}"
  using assms by (auto simp: quote_reserves_def split: if_splits)

text \<open>The overflow and zero-denominator branches are dead: the result is the rule itself.\<close>

lemma Quote_eq:
  assumes "FeeDenom p \<noteq> 0" and "FeeNum p \<le> FeeDenom p"
    and "quote_reserves p pol nm = Some (rIn, rOut)" and "rIn \<noteq> 0" and "rOut \<noteq> 0"
    and "amountIn \<noteq> 0"
  shows "Quote p pol nm amountIn =
    (let out = word_of_nat (cp_out (unat (FeeNum p)) (unat (FeeDenom p)) (unat rIn) (unat rOut) (unat amountIn))
     in Inr (out, price_impact rIn rOut amountIn out))"
proof -
  let ?out = "cp_out (unat (FeeNum p)) (unat (FeeDenom p)) (unat rIn) (unat rOut) (unat amountIn)"
  have pos: "0 < unat rIn" "0 < unat rOut" "0 < unat (FeeDenom p)"
    using assms by (simp_all add: unat_gt_0)
  then have "?out < 2 ^ 64"
    using cp_out_less [OF pos] unat_u64_bound [of rOut] less_trans by blast
  moreover have "unat rIn * unat (FeeDenom p) + unat amountIn * unat (FeeNum p) \<noteq> 0"
    using assms by simp
  ultimately show ?thesis
    using assms by (simp add: Quote_def Let_def cp_out_def not_less)
qed

lemma unat_quote_out:
  assumes "0 < unat x" "0 < unat y" "0 < d"
  shows "unat (word_of_nat (cp_out n d (unat x) (unat (y :: u64)) a) :: u64) =
    cp_out n d (unat (x :: u64)) (unat y) a"
proof -
  have "cp_out n d (unat x) (unat y) a < 2 ^ 64"
    using cp_out_less [OF assms] unat_u64_bound [of y] less_trans by blast
  then show ?thesis by simp
qed

lemma Quote_Inr_iff:
  "(\<exists>r. Quote p pol nm a = Inr r) \<longleftrightarrow>
     FeeDenom p \<noteq> 0 \<and> FeeNum p \<le> FeeDenom p \<and>
     (\<exists>rIn rOut. quote_reserves p pol nm = Some (rIn, rOut) \<and> rIn \<noteq> 0 \<and> rOut \<noteq> 0)"
proof
  assume "\<exists>r. Quote p pol nm a = Inr r"
  then show "FeeDenom p \<noteq> 0 \<and> FeeNum p \<le> FeeDenom p \<and>
     (\<exists>rIn rOut. quote_reserves p pol nm = Some (rIn, rOut) \<and> rIn \<noteq> 0 \<and> rOut \<noteq> 0)"
    by (auto simp: Quote_def not_less split: if_splits option.splits)
next
  assume h: "FeeDenom p \<noteq> 0 \<and> FeeNum p \<le> FeeDenom p \<and>
     (\<exists>rIn rOut. quote_reserves p pol nm = Some (rIn, rOut) \<and> rIn \<noteq> 0 \<and> rOut \<noteq> 0)"
  then obtain rIn rOut where
    "quote_reserves p pol nm = Some (rIn, rOut)" "rIn \<noteq> 0" "rOut \<noteq> 0" by blast
  with h show "\<exists>r. Quote p pol nm a = Inr r"
    by (cases "a = 0") (simp add: Quote_def not_less, simp add: Quote_eq Let_def)
qed

text \<open>Every successful quote, the empty one included, pays what the rule says.\<close>

lemma Quote_amount:
  assumes "Quote p pol nm a = Inr (out, pct)"
    and "quote_reserves p pol nm = Some (rIn, rOut)"
  shows "unat out = cp_out (unat (FeeNum p)) (unat (FeeDenom p)) (unat rIn) (unat rOut) (unat a)
    \<and> 0 < unat rIn \<and> 0 < unat rOut \<and> 0 < unat (FeeDenom p) \<and> unat (FeeNum p) \<le> unat (FeeDenom p)"
proof -
  have h: "FeeDenom p \<noteq> 0" "FeeNum p \<le> FeeDenom p" "rIn \<noteq> 0" "rOut \<noteq> 0"
    using assms Quote_Inr_iff [of p pol nm a] by auto
  then have pos: "0 < unat rIn" "0 < unat rOut" "0 < unat (FeeDenom p)"
    "unat (FeeNum p) \<le> unat (FeeDenom p)"
    by (simp_all add: unat_gt_0 word_le_nat_alt)
  moreover have "unat out = cp_out (unat (FeeNum p)) (unat (FeeDenom p)) (unat rIn) (unat rOut) (unat a)"
  proof (cases "a = 0")
    case True
    with assms h leD [OF h(2)] have "out = 0" by (simp add: Quote_def)
    with True show ?thesis by (simp add: cp_out_def)
  next
    case False
    with assms h have "out = word_of_nat (cp_out (unat (FeeNum p)) (unat (FeeDenom p)) (unat rIn) (unat rOut) (unat a))"
      by (simp add: Quote_eq Let_def)
    then show ?thesis
      using pos by (simp add: unat_quote_out)
  qed
  ultimately show ?thesis by simp
qed

lemma Key_eq_pool_key: "Key p = pool_key (Network p) (Protocol p) (PoolId p)"
  by (simp add: Key_def pool_key_def)

lemma pool_key_inject:
  assumes "pool_key n p i = pool_key n' p' i'"
    and "CHR '':'' \<notin> set n" "CHR '':'' \<notin> set n'" "CHR '':'' \<notin> set p" "CHR '':'' \<notin> set p'"
  shows "n = n' \<and> p = p' \<and> i = i'"
proof -
  have "n = n' \<and> p @ CHR '':'' # i = p' @ CHR '':'' # i'"
    using assms by (intro append_sep_inject) (simp_all add: pool_key_def)
  moreover from this have "p = p' \<and> i = i'"
    using assms by (intro append_sep_inject) simp_all
  ultimately show ?thesis by simp
qed

section \<open>Properties\<close>

text \<open>A quote succeeds exactly when the pool has a usable fee (denominator non-zero and
  numerator within it), the asset is one side of the pool and both reserves are non-zero; the
  overflow and zero-denominator errors of the code are never returned.\<close>

lemma quote_succeeds_iff:
  "(\<exists>out pct. Quote p pol nm a = Inr (out, pct)) =
     (FeeDenom p \<noteq> 0 \<and> FeeNum p \<le> FeeDenom p \<and>
      (\<exists>rIn rOut. quote_reserves p pol nm = Some (rIn, rOut) \<and> rIn \<noteq> 0 \<and> rOut \<noteq> 0))
   \<and> Quote p pol nm a \<noteq> Inl (OutputOverflow i)
   \<and> Quote p pol nm a \<noteq> Inl (ZeroSwapDenominator i)"
proof (intro conjI)
  show "(\<exists>out pct. Quote p pol nm a = Inr (out, pct)) =
     (FeeDenom p \<noteq> 0 \<and> FeeNum p \<le> FeeDenom p \<and>
      (\<exists>rIn rOut. quote_reserves p pol nm = Some (rIn, rOut) \<and> rIn \<noteq> 0 \<and> rOut \<noteq> 0))"
    using Quote_Inr_iff [of p pol nm a] by (metis surj_pair)
  show "Quote p pol nm a \<noteq> Inl (OutputOverflow i)" "Quote p pol nm a \<noteq> Inl (ZeroSwapDenominator i)"
    using Quote_eq [of p pol nm _ _ a]
    by (force simp: Quote_def not_less Let_def split: if_splits option.splits prod.splits)+
qed

text \<open>C2: A swap at the quoted amounts is solvent and never shrinks the constant product: the
  output is below the output reserve, and the product of the reserves after the swap is at least
  the product before it.\<close>

theorem quote_keeps_product:
  assumes "Quote p pol nm a = Inr (out, pct)"
    and "quote_reserves p pol nm = Some (rIn, rOut)"
  shows "out < rOut \<and>
    unat rIn * unat rOut \<le> (unat rIn + unat a) * (unat rOut - unat out)"
  using Quote_amount [OF assms] by (simp add: cp_out_less cp_out_product word_less_nat_alt)

text \<open>More input never buys less output.\<close>

lemma quote_monotone:
  assumes "Quote p pol nm a = Inr (out, pct)" and "Quote p pol nm a' = Inr (out', pct')"
    and "a \<le> a'"
  shows "out \<le> out'"
proof -
  obtain rIn rOut where "quote_reserves p pol nm = Some (rIn, rOut)"
    using assms(1) Quote_Inr_iff [of p pol nm a] by auto
  then show ?thesis
    using Quote_amount [OF assms(1)] Quote_amount [OF assms(2)] assms(3)
    by (simp add: cp_out_mono word_le_nat_alt)
qed

text \<open>C35: No free lunch: after a swap of X for Y at the quoted amounts, quoting the received Y
  back into X on the updated pool succeeds and returns at most the X that was paid in.\<close>

theorem quote_round_trip:
  assumes q: "Quote p (PolicyId (Class (AssetX p))) (Name (Class (AssetX p))) a = Inr (out, pct)"
    and ne: "Class (AssetX p) \<noteq> Class (AssetY p)"
    and fits: "unat (Amount (AssetX p)) + unat a < 2 ^ 64"
  shows "\<exists>ret pct'.
    Quote (p\<lparr>AssetX := (AssetX p)\<lparr>Amount := Amount (AssetX p) + a\<rparr>,
             AssetY := (AssetY p)\<lparr>Amount := Amount (AssetY p) - out\<rparr>\<rparr>)
      (PolicyId (Class (AssetY p))) (Name (Class (AssetY p))) out = Inr (ret, pct')
    \<and> ret \<le> a"
proof -
  let ?x = "Amount (AssetX p)" and ?y = "Amount (AssetY p)"
  let ?p' = "p\<lparr>AssetX := (AssetX p)\<lparr>Amount := ?x + a\<rparr>, AssetY := (AssetY p)\<lparr>Amount := ?y - out\<rparr>\<rparr>"
  let ?n = "unat (FeeNum p)" and ?d = "unat (FeeDenom p)"
  let ?polY = "PolicyId (Class (AssetY p))" and ?nmY = "Name (Class (AssetY p))"
  have r: "quote_reserves p (PolicyId (Class (AssetX p))) (Name (Class (AssetX p))) = Some (?x, ?y)"
    by (simp add: quote_reserves_def)
  note f = Quote_amount [OF q r]
  have less: "out < ?y"
    using f by (simp add: cp_out_less word_less_nat_alt)
  have r': "quote_reserves ?p' ?polY ?nmY = Some (?y - out, ?x + a)"
    using ne by (auto simp: quote_reserves_def)
  have x': "unat (?x + a) = unat ?x + unat a"
    using fits by (simp add: u64_arith)
  have y': "unat (?y - out) = unat ?y - unat out"
    using less by (simp add: unat_u64_sub)
  have nz: "?y - out \<noteq> 0" "?x + a \<noteq> 0"
    using less x' f by auto
  have fee: "FeeDenom ?p' \<noteq> 0" "FeeNum ?p' \<le> FeeDenom ?p'"
    using f by (auto simp: word_le_nat_alt)
  obtain ret pct' where b: "Quote ?p' ?polY ?nmY out = Inr (ret, pct')"
    using Quote_Inr_iff [of ?p' ?polY ?nmY out] r' nz fee by fastforce
  have "unat ret \<le> unat a"
    using Quote_amount [OF b r'] f cp_out_round_trip [of "unat ?x" "unat ?y" ?d ?n "unat a"]
    by (simp add: x' y')
  with b show ?thesis by (auto simp: word_le_nat_alt)
qed

text \<open>The total value locked is the exact sum of the reserves, capped at the largest
  64-bit value; it never wraps around.\<close>

lemma tvl_saturates:
  "unat (TVL p) = min (unat (Amount (AssetX p)) + unat (Amount (AssetY p))) (2 ^ 64 - 1)"
proof -
  let ?x = "Amount (AssetX p)" and ?y = "Amount (AssetY p)"
  have b: "unat ?x < 2 ^ 64" "unat ?y < 2 ^ 64" by (rule unat_u64_bound)+
  have "unat (?x + ?y) = (unat ?x + unat ?y) mod 2 ^ 64"
    by (simp add: unat_word_ariths)
  moreover have "(unat ?x + unat ?y) mod 2 ^ 64 =
      (if unat ?x + unat ?y < 2 ^ 64 then unat ?x + unat ?y else unat ?x + unat ?y - 2 ^ 64)"
    using b by (simp add: mod_if)
  ultimately show ?thesis
    using b by (auto simp: TVL_def Let_def word_less_nat_alt unat_MaxUint64 min_def)
qed

section \<open>Witnesses\<close>

definition ada_usdm_pool :: PoolState where
  "ada_usdm_pool = \<lparr>PoolId = ''p1'', Network = ''mainnet'', Protocol = ''cswap'',
     AssetX = \<lparr>Class = Lovelace, Amount = 1000000\<rparr>,
     AssetY = \<lparr>Class = \<lparr>PolicyId = [1], Name = [2]\<rparr>, Amount = 500000\<rparr>,
     FeeNum = 997, FeeDenom = 1000, Slot = 10, BlockHash = ''b'', TxHash = ''t'', TxIndex = 0,
     Timestamp = 1, UpdatedAt = 1, FromMempool = False\<rparr>"

lemma ada_usdm_fields [simp]:
  "FeeDenom ada_usdm_pool = 1000" "FeeNum ada_usdm_pool = 997"
  "AssetX ada_usdm_pool = \<lparr>Class = Lovelace, Amount = 1000000\<rparr>"
  "AssetY ada_usdm_pool = \<lparr>Class = \<lparr>PolicyId = [1], Name = [2]\<rparr>, Amount = 500000\<rparr>"
  by (simp_all add: ada_usdm_pool_def)

lemma ada_usdm_reserves: "quote_reserves ada_usdm_pool [] [] = Some (1000000, 500000)"
  by (simp add: quote_reserves_def Lovelace_def)

lemma ada_usdm_quote:
  "a \<noteq> 0 \<Longrightarrow> Quote ada_usdm_pool [] [] a =
    (let out = word_of_nat (cp_out 997 1000 1000000 500000 (unat a))
     in Inr (out, price_impact 1000000 500000 a out))"
  by (subst Quote_eq [OF _ _ ada_usdm_reserves]) simp_all

theorem quote_keeps_product_witness:
  "\<exists>out pct. Quote ada_usdm_pool [] [] 1000 = Inr (out, pct) \<and> out < 500000 \<and>
    1000000 * 500000 \<le> (1000000 + 1000) * (500000 - unat out)"
proof -
  obtain out pct where q: "Quote ada_usdm_pool [] [] 1000 = Inr (out, pct)"
    by (simp add: ada_usdm_quote Let_def)
  show ?thesis
    using q quote_keeps_product [OF q ada_usdm_reserves] by auto
qed

theorem quote_round_trip_witness:
  "\<exists>out pct. Quote ada_usdm_pool [] [] 1000 = Inr (out, pct) \<and>
    (\<exists>ret pct'.
      Quote (ada_usdm_pool\<lparr>AssetX := (AssetX ada_usdm_pool)\<lparr>Amount := 1000000 + 1000\<rparr>,
               AssetY := (AssetY ada_usdm_pool)\<lparr>Amount := 500000 - out\<rparr>\<rparr>)
        [1] [2] out = Inr (ret, pct') \<and> ret \<le> 1000)"
proof -
  obtain out pct where q: "Quote ada_usdm_pool [] [] 1000 = Inr (out, pct)"
    by (simp add: ada_usdm_quote Let_def)
  show ?thesis
    using q quote_round_trip [of ada_usdm_pool 1000 out pct] by (auto simp: Lovelace_def)
qed

end
