(* ===== verification/Activity.thy ===== *)
theory Activity
  imports Pool Rollback_Log "HOL-Library.Product_Lexorder"
begin

text \<open>
  \<open>dex/activity.go\<close> and \<open>dex/activity_state.go\<close>: the classification of a pair of confirmed pool
  states as a swap, and the tracker that keeps the swaps of a rolling slot window per pool.

  The tracker is a record (window, latest slot, Go map from pool keys to swap lists); a method
  takes the tracker and returns its result with the tracker afterwards. Every method holds the
  tracker's mutex for its whole body, so it is one atomic step. A nil \<open>*PoolState\<close> is \<open>None\<close>; the
  zero \<open>SwapTransition\<close> or \<open>PoolVolume\<close> that accompanies a false or an error is \<open>None\<close> too.
  The deep copies of \<open>cloneSwapTransition\<close> are the identity on values.
\<close>

section \<open>Data\<close>

record SwapTransition =
  st_PoolID :: string
  st_Network :: string
  st_Protocol :: string
  st_AssetX :: AssetClass
  st_AssetY :: AssetClass
  st_AmountX :: u64
  st_AmountY :: u64
  st_InputIsX :: bool
  st_Slot :: u64
  st_BlockHash :: string
  st_TxHash :: string
  st_TxIndex :: u32

record PoolVolume =
  pv_PoolID :: string
  pv_Network :: string
  pv_Protocol :: string
  pv_AssetX :: AssetClass
  pv_AssetY :: AssetClass
  pv_VolumeX :: u64
  pv_VolumeY :: u64
  pv_SwapCount :: u64
  pv_WindowSlots :: u64
  pv_WindowEnd :: u64
  pv_FirstSwapSlot :: u64
  pv_LastSwapSlot :: u64

record ActivityTracker =
  windowSlots :: u64
  latestSlot :: u64
  swaps :: "(string, SwapTransition list) gomap"

record ActivityState =
  as_WindowSlots :: u64
  as_LatestSlot :: u64
  as_Swaps :: "SwapTransition list"

datatype activity_error =
    ErrInvalidActivityWindow
  | ErrMismatchedPoolTransition
  | ErrOutOfOrderActivity
  | ErrVolumeOverflow
  | ErrInvalidActivityState
  | ErrActivityWindowChanged

section \<open>Operations\<close>

definition PoolVolume_Key :: "PoolVolume \<Rightarrow> string" where
  "PoolVolume_Key v = pool_key (pv_Network v) (pv_Protocol v) (pv_PoolID v)"

definition NewActivityTracker :: "u64 \<Rightarrow> activity_error + ActivityTracker" where
  "NewActivityTracker w =
     (if w = 0 then Inl ErrInvalidActivityWindow
      else Inr \<lparr>windowSlots = w, latestSlot = 0, swaps = []\<rparr>)"

definition InferSwapTransition ::
    "PoolState option \<Rightarrow> PoolState option \<Rightarrow> activity_error + SwapTransition option" where
  "InferSwapTransition previous current =
     (case (previous, current) of
        (Some p, Some c) \<Rightarrow>
          if FromMempool p \<or> FromMempool c then Inr None
          else if Key p \<noteq> Key c \<or> \<not> IsAsset (AssetX p) (Class (AssetX c))
              \<or> \<not> IsAsset (AssetY p) (Class (AssetY c))
          then Inl ErrMismatchedPoolTransition
          else
            let xIn = Amount (AssetX c) > Amount (AssetX p);
                xOut = Amount (AssetX c) < Amount (AssetX p);
                yIn = Amount (AssetY c) > Amount (AssetY p);
                yOut = Amount (AssetY c) < Amount (AssetY p)
            in if \<not> ((xIn \<and> yOut) \<or> (xOut \<and> yIn)) then Inr None
               else Inr (Some
                 \<lparr>st_PoolID = PoolId c, st_Network = Network c, st_Protocol = Protocol c,
                  st_AssetX = Class (AssetX c), st_AssetY = Class (AssetY c),
                  st_AmountX = (if xIn then Amount (AssetX c) - Amount (AssetX p)
                                else Amount (AssetX p) - Amount (AssetX c)),
                  st_AmountY = (if xIn then Amount (AssetY p) - Amount (AssetY c)
                                else Amount (AssetY c) - Amount (AssetY p)),
                  st_InputIsX = xIn, st_Slot = Slot c, st_BlockHash = BlockHash c,
                  st_TxHash = TxHash c, st_TxIndex = TxIndex c\<rparr>)
      | _ \<Rightarrow> Inr None)"

text \<open>\<open>t.swaps[key]\<close>: the nil slice when the key is absent.\<close>

definition swaps_at :: "(string, SwapTransition list) gomap \<Rightarrow> string \<Rightarrow> SwapTransition list" where
  "swaps_at m k = (case map_of m k of None \<Rightarrow> [] | Some xs \<Rightarrow> xs)"

definition cutoff_at :: "u64 \<Rightarrow> u64 \<Rightarrow> u64" where
  "cutoff_at w atSlot = (if atSlot > w then atSlot - w else 0)"

text \<open>
  A \<open>range\<close> loop over the swaps map that replaces the list of every key and deletes the key when
  nothing is left.
\<close>

definition retain ::
    "(SwapTransition list \<Rightarrow> SwapTransition list)
     \<Rightarrow> (string, SwapTransition list) gomap \<Rightarrow> (string, SwapTransition list) gomap" where
  "retain f m = filter (\<lambda>(k, xs). xs \<noteq> []) (map (\<lambda>(k, xs). (k, f xs)) m)"

definition prune :: "u64 \<Rightarrow> ActivityTracker \<Rightarrow> ActivityTracker" where
  "prune atSlot t =
     (let cutoff = cutoff_at (windowSlots t) atSlot in
      t\<lparr>swaps := retain (dropWhile (\<lambda>s. st_Slot s < cutoff)) (swaps t)\<rparr>)"

text \<open>\<open>t.swaps[key] = append(t.swaps[key], transition)\<close>.\<close>

definition append_swap :: "string \<Rightarrow> SwapTransition \<Rightarrow> ActivityTracker \<Rightarrow> ActivityTracker" where
  "append_swap key s t = t\<lparr>swaps := AList.update key (swaps_at (swaps t) key @ [s]) (swaps t)\<rparr>"

definition Observe ::
    "PoolState option \<Rightarrow> PoolState option \<Rightarrow> ActivityTracker
     \<Rightarrow> (activity_error + bool) \<times> ActivityTracker" where
  "Observe previous current t =
     (case current of
        None \<Rightarrow> (Inr False, t)
      | Some c \<Rightarrow>
          if FromMempool c then (Inr False, t)
          else if Slot c < latestSlot t then (Inl ErrOutOfOrderActivity, t)
          else case InferSwapTransition previous current of
            Inl e \<Rightarrow> (Inl e, t)
          | Inr r \<Rightarrow>
              let t' = prune (Slot c) (t\<lparr>latestSlot := Slot c\<rparr>) in
              (case r of
                 None \<Rightarrow> (Inr False, t')
               | Some s \<Rightarrow> (Inr True, append_swap (Key c) s t')))"

definition sameSwapIdentity :: "SwapTransition \<Rightarrow> SwapTransition \<Rightarrow> bool" where
  "sameSwapIdentity a b =
     (st_Slot a = st_Slot b \<and> st_TxHash a = st_TxHash b \<and> st_TxIndex a = st_TxIndex b
      \<and> st_Network a = st_Network b \<and> st_Protocol a = st_Protocol b \<and> st_PoolID a = st_PoolID b)"

definition equalSwapTransition :: "SwapTransition \<Rightarrow> SwapTransition \<Rightarrow> bool" where
  "equalSwapTransition a b =
     (sameSwapIdentity a b \<and> st_AmountX a = st_AmountX b \<and> st_AmountY a = st_AmountY b
      \<and> st_InputIsX a = st_InputIsX b \<and> st_BlockHash a = st_BlockHash b
      \<and> PolicyId (st_AssetX a) = PolicyId (st_AssetX b) \<and> Name (st_AssetX a) = Name (st_AssetX b)
      \<and> PolicyId (st_AssetY a) = PolicyId (st_AssetY b) \<and> Name (st_AssetY a) = Name (st_AssetY b))"

text \<open>
  The duplicate search of \<open>ObserveTransition\<close>: the first retained swap with the slot and identity of
  the new one decides; a different swap under the same identity is an error.
\<close>

fun find_duplicate :: "SwapTransition \<Rightarrow> SwapTransition list \<Rightarrow> activity_error + bool" where
  "find_duplicate s [] = Inr False"
| "find_duplicate s (e # es) =
     (if st_Slot e \<noteq> st_Slot s \<or> \<not> sameSwapIdentity e s then find_duplicate s es
      else if \<not> equalSwapTransition e s then Inl ErrInvalidActivityState
      else Inr True)"

definition ObserveTransition ::
    "PoolState option \<Rightarrow> PoolState option \<Rightarrow> ActivityTracker
     \<Rightarrow> (activity_error + (SwapTransition option \<times> bool)) \<times> ActivityTracker" where
  "ObserveTransition previous current t =
     (case current of
        None \<Rightarrow> (Inr (None, False), t)
      | Some c \<Rightarrow>
          if FromMempool c then (Inr (None, False), t)
          else if Slot c < latestSlot t then (Inl ErrOutOfOrderActivity, t)
          else case InferSwapTransition previous current of
            Inl e \<Rightarrow> (Inl e, t)
          | Inr r \<Rightarrow>
              (let key = Key c;
                   dup = (case r of None \<Rightarrow> Inr False
                          | Some s \<Rightarrow> find_duplicate s (swaps_at (swaps t) key))
               in case dup of
                 Inl e \<Rightarrow> (Inl e, t)
               | Inr duplicate \<Rightarrow>
                   let t' = prune (Slot c) (t\<lparr>latestSlot := Slot c\<rparr>) in
                   (case r of
                      None \<Rightarrow> (Inr (None, False), t')
                    | Some s \<Rightarrow>
                        if duplicate then (Inr (Some s, False), t')
                        else (Inr (Some s, True), append_swap key s t'))))"

fun volume_loop ::
    "u64 \<Rightarrow> SwapTransition list \<Rightarrow> PoolVolume \<Rightarrow> activity_error + PoolVolume" where
  "volume_loop cutoff [] v = Inr v"
| "volume_loop cutoff (s # ss) v =
     (if st_Slot s < cutoff then volume_loop cutoff ss v
      else if MaxUint64 - pv_VolumeX v < st_AmountX s \<or> MaxUint64 - pv_VolumeY v < st_AmountY s
          \<or> pv_SwapCount v = MaxUint64
      then Inl ErrVolumeOverflow
      else
        let v1 = (if pv_SwapCount v = 0
                  then v\<lparr>pv_AssetX := st_AssetX s, pv_AssetY := st_AssetY s,
                         pv_FirstSwapSlot := st_Slot s\<rparr>
                  else v)
        in volume_loop cutoff ss
             (v1\<lparr>pv_VolumeX := pv_VolumeX v1 + st_AmountX s,
                 pv_VolumeY := pv_VolumeY v1 + st_AmountY s,
                 pv_SwapCount := pv_SwapCount v1 + 1, pv_LastSwapSlot := st_Slot s\<rparr>))"

definition Volume ::
    "string \<Rightarrow> string \<Rightarrow> string \<Rightarrow> u64 \<Rightarrow> ActivityTracker \<Rightarrow> activity_error + PoolVolume option" where
  "Volume network protocol poolID atSlot t =
     (if atSlot < latestSlot t then Inl ErrOutOfOrderActivity
      else
        case volume_loop (cutoff_at (windowSlots t) atSlot)
               (swaps_at (swaps t) (pool_key network protocol poolID))
               \<lparr>pv_PoolID = poolID, pv_Network = network, pv_Protocol = protocol,
                pv_AssetX = Lovelace, pv_AssetY = Lovelace, pv_VolumeX = 0, pv_VolumeY = 0,
                pv_SwapCount = 0, pv_WindowSlots = windowSlots t, pv_WindowEnd = atSlot,
                pv_FirstSwapSlot = 0, pv_LastSwapSlot = 0\<rparr> of
          Inl e \<Rightarrow> Inl e
        | Inr v \<Rightarrow> Inr (if pv_SwapCount v = 0 then None else Some v))"

definition Rollback :: "u64 \<Rightarrow> ActivityTracker \<Rightarrow> ActivityTracker" where
  "Rollback slot t =
     (let m = retain (trim_end (\<lambda>s. slot \<le> st_Slot s)) (swaps t);
          latest = (if slot > 0 then slot - 1 else 0);
          t' = t\<lparr>swaps := m,
                 latestSlot := (if latest < latestSlot t then latest else latestSlot t)\<rparr>
      in prune (latestSlot t') t')"

definition validateSwapTransition :: "SwapTransition \<Rightarrow> u64 \<Rightarrow> bool" where
  "validateSwapTransition s latest =
     (\<not> (st_PoolID s = [] \<or> st_Network s = [] \<or> st_Protocol s = [] \<or> st_AmountX s = 0
         \<or> st_AmountY s = 0 \<or> st_Slot s > latest
         \<or> (PolicyId (st_AssetX s) = PolicyId (st_AssetY s) \<and> Name (st_AssetX s) = Name (st_AssetY s))))"

definition swap_less :: "SwapTransition \<Rightarrow> SwapTransition \<Rightarrow> bool" where
  "swap_less a b =
     (if st_Slot a \<noteq> st_Slot b then st_Slot a < st_Slot b
      else if st_TxHash a \<noteq> st_TxHash b then st_TxHash a < st_TxHash b
      else if st_TxIndex a \<noteq> st_TxIndex b then st_TxIndex a < st_TxIndex b
      else if st_Network a \<noteq> st_Network b then st_Network a < st_Network b
      else if st_Protocol a \<noteq> st_Protocol b then st_Protocol a < st_Protocol b
      else st_PoolID a < st_PoolID b)"

definition sortSwapTransitions :: "SwapTransition list \<Rightarrow> SwapTransition list" where
  "sortSwapTransitions = sort_by swap_less"

definition Snapshot :: "ActivityTracker \<Rightarrow> ActivityState" where
  "Snapshot t =
     \<lparr>as_WindowSlots = windowSlots t, as_LatestSlot = latestSlot t,
      as_Swaps = sortSwapTransitions (concat (map snd (swaps t)))\<rparr>"

definition swap_pool_key :: "SwapTransition \<Rightarrow> string" where
  "swap_pool_key s = pool_key (st_Network s) (st_Protocol s) (st_PoolID s)"

fun restore_loop ::
    "SwapTransition list \<Rightarrow> (string, SwapTransition list) gomap
     \<Rightarrow> activity_error + (string, SwapTransition list) gomap" where
  "restore_loop [] restored = Inr restored"
| "restore_loop (s # ss) restored =
     (let key = swap_pool_key s; poolSwaps = swaps_at restored key in
      if length poolSwaps > 0 \<and> sameSwapIdentity (last poolSwaps) s
      then Inl ErrInvalidActivityState
      else restore_loop ss (AList.update key (poolSwaps @ [s]) restored))"

definition Restore ::
    "ActivityState \<Rightarrow> ActivityTracker \<Rightarrow> (activity_error + unit) \<times> ActivityTracker" where
  "Restore state t =
     (if as_WindowSlots state = 0 then (Inl ErrInvalidActivityState, t)
      else if as_WindowSlots state \<noteq> windowSlots t then (Inl ErrActivityWindowChanged, t)
      else if \<not> list_all (\<lambda>s. validateSwapTransition s (as_LatestSlot state)) (as_Swaps state)
      then (Inl ErrInvalidActivityState, t)
      else case restore_loop (sortSwapTransitions (as_Swaps state)) [] of
        Inl e \<Rightarrow> (Inl e, t)
      | Inr restored \<Rightarrow>
          (Inr (), prune (as_LatestSlot state)
                     (t\<lparr>latestSlot := as_LatestSlot state, swaps := restored\<rparr>)))"


section \<open>The invariant\<close>

text \<open>
  Every pool's list is non-empty, in slot order, filed under its pool's key, inside the window that
  ends at the latest slot, and made of swaps that move both reserves.
\<close>

definition pool_swaps_ok :: "u64 \<Rightarrow> u64 \<Rightarrow> string \<Rightarrow> SwapTransition list \<Rightarrow> bool" where
  "pool_swaps_ok w latest k xs =
     (sorted (map st_Slot xs) \<and>
      list_all (\<lambda>s. swap_pool_key s = k \<and> cutoff_at w latest \<le> st_Slot s \<and> st_Slot s \<le> latest
                    \<and> st_AmountX s \<noteq> 0 \<and> st_AmountY s \<noteq> 0) xs)"

definition tracker_ok :: "ActivityTracker \<Rightarrow> bool" where
  "tracker_ok t =
     (windowSlots t \<noteq> 0 \<and> gomap_ok (swaps t) \<and>
      list_all (\<lambda>(k, xs). xs \<noteq> [] \<and> pool_swaps_ok (windowSlots t) (latestSlot t) k xs) (swaps t))"

lemma pool_swaps_ok_Nil [simp]: "pool_swaps_ok w l k []"
  by (simp add: pool_swaps_ok_def)

lemma swaps_at_mem: "gomap_ok m \<Longrightarrow> (k, xs) \<in> set m \<Longrightarrow> swaps_at m k = xs"
  by (simp add: swaps_at_def gomap_ok_def map_of_eq_Some_iff)

lemma swaps_at_cases:
  obtains "swaps_at m k = []" | "(k, swaps_at m k) \<in> set m"
  by (cases "map_of m k") (auto simp: swaps_at_def dest: map_of_SomeD)

lemma list_all_swaps_at:
  assumes "gomap_ok m" and "\<And>k. p k []"
  shows "list_all (\<lambda>(k, xs). p k xs) m \<longleftrightarrow> (\<forall>k. p k (swaps_at m k))"
proof
  show "list_all (\<lambda>(k, xs). p k xs) m \<Longrightarrow> \<forall>k. p k (swaps_at m k)"
    by (metis assms(2) swaps_at_cases list_all_iff case_prodD)
  show "\<forall>k. p k (swaps_at m k) \<Longrightarrow> list_all (\<lambda>(k, xs). p k xs) m"
    using assms(1) by (auto simp: list_all_iff dest!: swaps_at_mem)
qed

lemma tracker_ok_iff:
  "tracker_ok t \<longleftrightarrow> windowSlots t \<noteq> 0 \<and> gomap_ok (swaps t) \<and> list_all (\<lambda>(k, xs). xs \<noteq> []) (swaps t)
     \<and> (\<forall>k. pool_swaps_ok (windowSlots t) (latestSlot t) k (swaps_at (swaps t) k))"
proof -
  have "list_all (\<lambda>(k, xs). xs \<noteq> [] \<and> pool_swaps_ok (windowSlots t) (latestSlot t) k xs) (swaps t) \<longleftrightarrow>
      list_all (\<lambda>(k, xs). xs \<noteq> []) (swaps t)
      \<and> list_all (\<lambda>(k, xs). pool_swaps_ok (windowSlots t) (latestSlot t) k xs) (swaps t)"
    by (auto simp: list_all_iff)
  then show ?thesis
    unfolding tracker_ok_def by (auto simp: list_all_swaps_at)
qed

lemma swaps_at_Nil [simp]: "swaps_at [] k = []"
  by (simp add: swaps_at_def)

lemma swaps_at_update: "swaps_at (AList.update k' v m) k = (if k = k' then v else swaps_at m k)"
  by (auto simp: swaps_at_def update_conv')

lemma swaps_at_retain:
  assumes "gomap_ok m" and "f [] = []"
  shows "swaps_at (retain f m) k = f (swaps_at m k)"
proof -
  have "gomap_ok (map (\<lambda>(k, xs). (k, f xs)) m)"
    using assms(1) gomap_ok_map_vals [of m "\<lambda>_. f"] by simp
  then show ?thesis
    unfolding swaps_at_def retain_def
    using map_of_map_vals [of "\<lambda>_. f" m k] assms(2)
    by (simp add: map_of_filter_gomap split: option.splits)
qed

lemma gomap_ok_retain [simp]: "gomap_ok m \<Longrightarrow> gomap_ok (retain f m)"
  using gomap_ok_map_vals [of m "\<lambda>_. f"] by (simp add: retain_def)

lemma retain_nonempty [simp]: "list_all (\<lambda>(k, xs). xs \<noteq> []) (retain f m)"
  by (auto simp: retain_def list_all_iff)

lemma prune_simps [simp]:
  "windowSlots (prune a t) = windowSlots t" "latestSlot (prune a t) = latestSlot t"
  by (simp_all add: prune_def Let_def)

lemma gomap_ok_prune [simp]: "gomap_ok (swaps t) \<Longrightarrow> gomap_ok (swaps (prune a t))"
  by (simp add: prune_def Let_def)

lemma prune_nonempty [simp]: "list_all (\<lambda>(k, xs). xs \<noteq> []) (swaps (prune a t))"
  by (simp add: prune_def Let_def)

lemma swaps_at_prune:
  assumes "gomap_ok (swaps t)" and "sorted (map st_Slot (swaps_at (swaps t) k))"
  shows "swaps_at (swaps (prune a t)) k =
    filter (\<lambda>s. cutoff_at (windowSlots t) a \<le> st_Slot s) (swaps_at (swaps t) k)"
  using assms
  by (simp add: prune_def Let_def swaps_at_retain dropWhile_eq_filter_sorted)

lemma append_swap_simps [simp]:
  "windowSlots (append_swap k s t) = windowSlots t"
  "latestSlot (append_swap k s t) = latestSlot t"
  "swaps_at (swaps (append_swap k s t)) k' =
     (if k' = k then swaps_at (swaps t) k @ [s] else swaps_at (swaps t) k')"
  by (simp_all add: append_swap_def swaps_at_update)

lemma gomap_ok_append_swap [simp]: "gomap_ok (swaps t) \<Longrightarrow> gomap_ok (swaps (append_swap k s t))"
  by (simp add: append_swap_def)

lemma append_swap_nonempty [simp]:
  "list_all (\<lambda>(k, xs). xs \<noteq> []) (swaps t) \<Longrightarrow> list_all (\<lambda>(k, xs). xs \<noteq> []) (swaps (append_swap k s t))"
  by (simp add: append_swap_def list_all_alist_update)

section \<open>Operations keep the invariant\<close>

lemma cutoff_at_mono: "a \<le> b \<Longrightarrow> cutoff_at w a \<le> cutoff_at w b"
  by (auto simp: cutoff_at_def word_le_nat_alt word_less_nat_alt unat_sub_if')

lemma cutoff_at_le: "cutoff_at w a \<le> a"
  by (auto simp: cutoff_at_def word_le_nat_alt word_less_nat_alt unat_sub_if')

text \<open>A slot is inside the window that ends at \<open>a\<close> when it is at most \<open>w\<close> slots before it.\<close>

lemma cutoff_at_nat: "cutoff_at w a \<le> s \<longleftrightarrow> unat a \<le> unat s + unat w"
  by (auto simp: cutoff_at_def word_le_nat_alt word_less_nat_alt unat_sub_if')

lemma pool_swaps_ok_advance:
  assumes "pool_swaps_ok w l k xs" and "l \<le> l'"
  shows "pool_swaps_ok w l' k (filter (\<lambda>s. cutoff_at w l' \<le> st_Slot s) xs)"
  using assms by (auto simp: pool_swaps_ok_def list_all_iff sorted_map_filter intro: order_trans)

lemma pool_swaps_ok_rewind:
  assumes "pool_swaps_ok w l k xs" and "l' \<le> l"
  shows "pool_swaps_ok w l' k (filter (\<lambda>s. st_Slot s \<le> l') xs)"
  using assms cutoff_at_mono [of l' l w]
  by (auto simp: pool_swaps_ok_def list_all_iff sorted_map_filter intro: order_trans)

lemma pool_swaps_ok_filter: "pool_swaps_ok w l k xs \<Longrightarrow> pool_swaps_ok w l k (filter p xs)"
  unfolding pool_swaps_ok_def list_all_iff by (simp add: sorted_map_filter)

lemma pool_swaps_ok_snoc:
  assumes "pool_swaps_ok w l k xs" and "swap_pool_key s = k" and "st_Slot s = l"
    and "st_AmountX s \<noteq> 0" and "st_AmountY s \<noteq> 0"
  shows "pool_swaps_ok w l k (xs @ [s])"
  using assms cutoff_at_le [of w l] by (auto simp: pool_swaps_ok_def list_all_iff sorted_append)

lemma pool_swaps_ok_sorted: "pool_swaps_ok w l k xs \<Longrightarrow> sorted (map st_Slot xs)"
  by (simp add: pool_swaps_ok_def)

lemma tracker_ok_swaps: "tracker_ok t \<Longrightarrow> pool_swaps_ok (windowSlots t) (latestSlot t) k (swaps_at (swaps t) k)"
  by (simp add: tracker_ok_iff)

lemma advance_swaps_at:
  assumes "tracker_ok t"
  shows "swaps_at (swaps (prune a (t\<lparr>latestSlot := a\<rparr>))) k =
    filter (\<lambda>s. cutoff_at (windowSlots t) a \<le> st_Slot s) (swaps_at (swaps t) k)"
  using assms tracker_ok_swaps [OF assms, of k]
  by (subst swaps_at_prune) (auto simp: tracker_ok_iff pool_swaps_ok_def)

lemma advance_ok:
  assumes "tracker_ok t" and "latestSlot t \<le> a"
  shows "tracker_ok (prune a (t\<lparr>latestSlot := a\<rparr>))"
proof -
  have "pool_swaps_ok (windowSlots t) a k (swaps_at (swaps (prune a (t\<lparr>latestSlot := a\<rparr>))) k)" for k
    by (simp add: advance_swaps_at assms(1) pool_swaps_ok_advance
        [OF tracker_ok_swaps [OF assms(1)] assms(2)])
  then show ?thesis
    using assms(1) by (simp add: tracker_ok_iff)
qed

lemma append_swap_ok:
  assumes "tracker_ok t" and "swap_pool_key s = k" and "st_Slot s = latestSlot t"
    and "st_AmountX s \<noteq> 0" and "st_AmountY s \<noteq> 0"
  shows "tracker_ok (append_swap k s t)"
  using assms by (auto simp: tracker_ok_iff intro: pool_swaps_ok_snoc)

lemma infer_swapD:
  assumes "InferSwapTransition p (Some c) = Inr (Some s)"
  shows "swap_pool_key s = Key c" "st_Slot s = Slot c" "st_AmountX s \<noteq> 0" "st_AmountY s \<noteq> 0"
    "\<not> FromMempool c"
  using assms
  by (auto simp: InferSwapTransition_def swap_pool_key_def pool_key_def Key_def Let_def
      split: option.splits if_splits)

lemma Observe_ok [inv_intros]: "tracker_ok t \<Longrightarrow> tracker_ok (snd (Observe p c t))"
  by (auto simp: Observe_def Let_def not_less infer_swapD intro!: advance_ok append_swap_ok
      split: option.splits sum.splits)

lemma ObserveTransition_ok [inv_intros]: "tracker_ok t \<Longrightarrow> tracker_ok (snd (ObserveTransition p c t))"
  by (auto simp: ObserveTransition_def Let_def not_less infer_swapD intro!: advance_ok append_swap_ok
      split: option.splits sum.splits)

section \<open>Rollback\<close>

definition rollback_latest :: "u64 \<Rightarrow> u64 \<Rightarrow> u64" where
  "rollback_latest n latest =
     (let l = (if n > 0 then n - 1 else 0) in if l < latest then l else latest)"

lemma rollback_latest_le: "rollback_latest n latest \<le> latest"
  by (auto simp: rollback_latest_def Let_def)

lemma slot_below_rollback_latest:
  "s < n \<Longrightarrow> s \<le> latest \<Longrightarrow> s \<le> rollback_latest n latest"
  by (auto simp: rollback_latest_def Let_def word_less_nat_alt word_le_nat_alt unat_sub_if')

lemma Rollback_simps:
  "windowSlots (Rollback n t) = windowSlots t"
  "latestSlot (Rollback n t) = rollback_latest n (latestSlot t)"
  by (simp_all add: Rollback_def Let_def rollback_latest_def)

lemma swaps_at_Rollback:
  assumes "tracker_ok t"
  shows "swaps_at (swaps (Rollback n t)) k = filter (\<lambda>s. st_Slot s < n) (swaps_at (swaps t) k)"
proof -
  let ?l = "rollback_latest n (latestSlot t)"
  let ?m = "retain (trim_end (\<lambda>s. n \<le> st_Slot s)) (swaps t)"
  let ?xs = "filter (\<lambda>s. st_Slot s < n) (swaps_at (swaps t) k)"
  have ok: "pool_swaps_ok (windowSlots t) (latestSlot t) k (swaps_at (swaps t) k)"
    by (rule tracker_ok_swaps [OF assms])
  have m: "swaps_at ?m k = ?xs"
    using assms ok by (simp add: swaps_at_retain tracker_ok_iff trim_end_filter pool_swaps_ok_def)
  have "Rollback n t = prune ?l (t\<lparr>swaps := ?m, latestSlot := ?l\<rparr>)"
    by (simp_all add: Rollback_def Let_def rollback_latest_def)
  moreover have "sorted (map st_Slot ?xs)"
    using ok by (simp add: pool_swaps_ok_def sorted_map_filter)
  moreover have "\<forall>s \<in> set ?xs. cutoff_at (windowSlots t) ?l \<le> st_Slot s"
    using ok cutoff_at_mono [OF rollback_latest_le [of n "latestSlot t"], of "windowSlots t"]
    by (auto simp: pool_swaps_ok_def list_all_iff intro: order_trans)
  then have "filter (\<lambda>s. cutoff_at (windowSlots t) ?l \<le> st_Slot s) ?xs = ?xs"
    by (rule filter_True)
  ultimately show ?thesis
    using assms by (simp add: swaps_at_prune m tracker_ok_iff del: filter_filter)
qed

lemma Rollback_map [simp]:
  "gomap_ok (swaps t) \<Longrightarrow> gomap_ok (swaps (Rollback n t))"
  "list_all (\<lambda>(k, xs). xs \<noteq> []) (swaps (Rollback n t))"
  by (simp_all add: Rollback_def Let_def)

lemma Rollback_ok [inv_intros]:
  assumes "tracker_ok t"
  shows "tracker_ok (Rollback n t)"
proof -
  let ?l = "rollback_latest n (latestSlot t)"
  have "pool_swaps_ok (windowSlots t) ?l k
      (filter (\<lambda>s. st_Slot s < n) (filter (\<lambda>s. st_Slot s \<le> ?l) (swaps_at (swaps t) k)))" for k
    by (rule pool_swaps_ok_filter) (rule pool_swaps_ok_rewind [OF tracker_ok_swaps [OF assms] rollback_latest_le])
  moreover have "filter (\<lambda>s. st_Slot s < n) (filter (\<lambda>s. st_Slot s \<le> ?l) (swaps_at (swaps t) k)) =
      filter (\<lambda>s. st_Slot s < n) (swaps_at (swaps t) k)" for k
    using tracker_ok_swaps [OF assms, of k]
    by (auto simp: pool_swaps_ok_def list_all_iff slot_below_rollback_latest intro!: filter_cong)
  ultimately show ?thesis
    using assms unfolding tracker_ok_iff [of "Rollback n t"]
    by (simp add: swaps_at_Rollback [OF assms] Rollback_simps) (simp add: tracker_ok_iff)
qed

text \<open>The swaps a tracker retains, over all pools.\<close>

definition tracker_swaps :: "ActivityTracker \<Rightarrow> SwapTransition set" where
  "tracker_swaps t = \<Union> (set ` snd ` set (swaps t))"

lemma tracker_swaps_iff: "tracker_ok t \<Longrightarrow> s \<in> tracker_swaps t \<longleftrightarrow> s \<in> set (swaps_at (swaps t) (swap_pool_key s))"
proof
  assume ok: "tracker_ok t" and "s \<in> tracker_swaps t"
  then obtain k xs where m: "(k, xs) \<in> set (swaps t)" "s \<in> set xs"
    by (auto simp: tracker_swaps_def)
  with ok have "swaps_at (swaps t) k = xs" and "swap_pool_key s = k"
    by (auto simp: tracker_ok_def list_all_iff pool_swaps_ok_def dest!: swaps_at_mem)
  with m show "s \<in> set (swaps_at (swaps t) (swap_pool_key s))" by simp
next
  assume "s \<in> set (swaps_at (swaps t) (swap_pool_key s))"
  then show "s \<in> tracker_swaps t"
    by (cases rule: swaps_at_cases [of "swaps t" "swap_pool_key s"]) (force simp: tracker_swaps_def)+
qed

interpretation activity_log:
  rollback_log tracker_ok tracker_swaps st_Slot Rollback "\<lambda>n s. s < n"
proof
  show "tracker_swaps (Rollback n t) = {s \<in> tracker_swaps t. st_Slot s < n}" if "tracker_ok t" for t n
    using that by (auto simp: tracker_swaps_iff Rollback_ok swaps_at_Rollback)
qed (auto intro: Rollback_ok)

section \<open>Volume\<close>

text \<open>The swaps of a list inside the window that ends at a slot, and exact sums over them.\<close>

definition window_swaps :: "u64 \<Rightarrow> u64 \<Rightarrow> SwapTransition list \<Rightarrow> SwapTransition list" where
  "window_swaps w a xs = filter (\<lambda>s. unat a \<le> unat (st_Slot s) + unat w) xs"

definition sumX :: "SwapTransition list \<Rightarrow> nat" where
  "sumX xs = sum_list (map (\<lambda>s. unat (st_AmountX s)) xs)"

definition sumY :: "SwapTransition list \<Rightarrow> nat" where
  "sumY xs = sum_list (map (\<lambda>s. unat (st_AmountY s)) xs)"

lemma sum_simps [simp]:
  "sumX [] = 0" "sumY [] = 0"
  "sumX (s # xs) = unat (st_AmountX s) + sumX xs" "sumY (s # xs) = unat (st_AmountY s) + sumY xs"
  by (simp_all add: sumX_def sumY_def)

lemma length_le_sumX: "list_all (\<lambda>s. st_AmountX s \<noteq> 0) xs \<Longrightarrow> length xs \<le> sumX xs"
proof (induction xs)
  case (Cons s xs)
  then have "0 < unat (st_AmountX s)" by (simp add: unat_gt_0)
  with Cons show ?case by simp
qed simp

text \<open>What the query promises for the list of swaps inside the window.\<close>

definition volume_spec ::
    "string \<Rightarrow> string \<Rightarrow> string \<Rightarrow> u64 \<Rightarrow> u64 \<Rightarrow> SwapTransition list
     \<Rightarrow> activity_error + PoolVolume option" where
  "volume_spec network protocol poolID w a xs =
     (if xs = [] then Inr None
      else if 2 ^ 64 \<le> sumX xs \<or> 2 ^ 64 \<le> sumY xs then Inl ErrVolumeOverflow
      else Inr (Some
        \<lparr>pv_PoolID = poolID, pv_Network = network, pv_Protocol = protocol,
         pv_AssetX = st_AssetX (hd xs), pv_AssetY = st_AssetY (hd xs),
         pv_VolumeX = word_of_nat (sumX xs), pv_VolumeY = word_of_nat (sumY xs),
         pv_SwapCount = word_of_nat (length xs), pv_WindowSlots = w, pv_WindowEnd = a,
         pv_FirstSwapSlot = st_Slot (hd xs), pv_LastSwapSlot = st_Slot (last xs)\<rparr>))"

lemma volume_loop_filter:
  "volume_loop c xs v = volume_loop 0 (filter (\<lambda>s. c \<le> st_Slot s) xs) v"
  by (induction xs arbitrary: v) (auto simp: Let_def not_less)

lemma volume_loop_append:
  assumes "pv_SwapCount v \<noteq> 0" and "unat (pv_SwapCount v) \<le> unat (pv_VolumeX v)"
    and "list_all (\<lambda>s. st_AmountX s \<noteq> 0) xs"
  shows "volume_loop 0 xs v =
    (if 2 ^ 64 \<le> unat (pv_VolumeX v) + sumX xs \<or> 2 ^ 64 \<le> unat (pv_VolumeY v) + sumY xs
     then Inl ErrVolumeOverflow
     else Inr (v\<lparr>pv_VolumeX := word_of_nat (unat (pv_VolumeX v) + sumX xs),
                 pv_VolumeY := word_of_nat (unat (pv_VolumeY v) + sumY xs),
                 pv_SwapCount := word_of_nat (unat (pv_SwapCount v) + length xs),
                 pv_LastSwapSlot := (if xs = [] then pv_LastSwapSlot v else st_Slot (last xs))\<rparr>))"
  using assms
proof (induction xs arbitrary: v)
  case Nil
  then show ?case
    using unat_u64_bound [of "pv_VolumeX v"] unat_u64_bound [of "pv_VolumeY v"] by simp
next
  case (Cons s xs)
  have pos: "0 < unat (st_AmountX s)"
    using Cons.prems(3) by (simp add: unat_gt_0)
  show ?case
  proof (cases "2 ^ 64 \<le> unat (pv_VolumeX v) + unat (st_AmountX s)
      \<or> 2 ^ 64 \<le> unat (pv_VolumeY v) + unat (st_AmountY s)")
    case True
    then show ?thesis by (auto simp: max_u64_sub_less)
  next
    case False
    then have x: "unat (pv_VolumeX v + st_AmountX s) = unat (pv_VolumeX v) + unat (st_AmountX s)"
      and y: "unat (pv_VolumeY v + st_AmountY s) = unat (pv_VolumeY v) + unat (st_AmountY s)"
      by (simp_all add: unat_u64_add)
    have "unat (pv_SwapCount v) + 1 < 2 ^ 64"
      using False Cons.prems(2) pos by linarith
    then have c: "unat (pv_SwapCount v + 1) = unat (pv_SwapCount v) + 1"
      and nmax: "pv_SwapCount v \<noteq> MaxUint64"
      by (auto simp: unat_u64_add unat_MaxUint64)
    let ?v = "v\<lparr>pv_VolumeX := pv_VolumeX v + st_AmountX s, pv_VolumeY := pv_VolumeY v + st_AmountY s,
      pv_SwapCount := pv_SwapCount v + 1, pv_LastSwapSlot := st_Slot s\<rparr>"
    have "pv_SwapCount v + 1 \<noteq> 0"
      using c unat_eq_0 [of "pv_SwapCount v + 1"] by simp
    moreover have "volume_loop 0 (s # xs) v = volume_loop 0 xs ?v"
      using False nmax Cons.prems(1) by (simp add: max_u64_sub_less)
    ultimately show ?thesis
      using Cons.IH [of ?v] Cons.prems c x y pos by (simp add: add.assoc)
  qed
qed

lemma volume_loop_spec:
  assumes "list_all (\<lambda>s. st_AmountX s \<noteq> 0) xs" and "xs \<noteq> []"
    and "pv_SwapCount v = 0" and "pv_VolumeX v = 0" and "pv_VolumeY v = 0"
  shows "volume_loop 0 xs v =
    (if 2 ^ 64 \<le> sumX xs \<or> 2 ^ 64 \<le> sumY xs then Inl ErrVolumeOverflow
     else Inr (v\<lparr>pv_AssetX := st_AssetX (hd xs), pv_AssetY := st_AssetY (hd xs),
                 pv_FirstSwapSlot := st_Slot (hd xs),
                 pv_VolumeX := word_of_nat (sumX xs), pv_VolumeY := word_of_nat (sumY xs),
                 pv_SwapCount := word_of_nat (length xs), pv_LastSwapSlot := st_Slot (last xs)\<rparr>))"
proof -
  obtain s ys where xs: "xs = s # ys"
    using assms(2) by (cases xs) auto
  have pos: "0 < unat (st_AmountX s)"
    using assms(1) xs by (simp add: unat_gt_0)
  let ?v = "v\<lparr>pv_AssetX := st_AssetX s, pv_AssetY := st_AssetY s, pv_FirstSwapSlot := st_Slot s,
    pv_VolumeX := st_AmountX s, pv_VolumeY := st_AmountY s,
    pv_SwapCount := 1, pv_LastSwapSlot := st_Slot s\<rparr>"
  have "volume_loop 0 xs v = volume_loop 0 ys ?v"
    using assms(3-5) xs unat_u64_bound [of "st_AmountX s"] unat_u64_bound [of "st_AmountY s"]
    by (simp add: max_u64_sub_less MaxUint64_def)
  then show ?thesis
    using volume_loop_append [of ?v ys] assms(1) xs pos by simp
qed

lemma word_of_length_nonzero:
  assumes "length xs \<le> sumX xs" and "sumX xs < 2 ^ 64" and "xs \<noteq> []"
  shows "(word_of_nat (length xs) :: u64) \<noteq> 0"
proof
  assume "(word_of_nat (length xs) :: u64) = 0"
  then have "unat (word_of_nat (length xs) :: u64) = 0" by simp
  with assms show False by simp
qed

lemma Volume_eq:
  assumes "tracker_ok t" and "latestSlot t \<le> a"
  shows "Volume network protocol poolID a t =
    volume_spec network protocol poolID (windowSlots t) a
      (window_swaps (windowSlots t) a (swaps_at (swaps t) (pool_key network protocol poolID)))"
proof -
  let ?all = "swaps_at (swaps t) (pool_key network protocol poolID)"
  let ?xs = "window_swaps (windowSlots t) a ?all"
  have f: "filter (\<lambda>s. cutoff_at (windowSlots t) a \<le> st_Slot s) ?all = ?xs"
    by (simp add: window_swaps_def cutoff_at_nat)
  have pos: "list_all (\<lambda>s. st_AmountX s \<noteq> 0) ?xs"
    using tracker_ok_swaps [OF assms(1)]
    by (fastforce simp: pool_swaps_ok_def list_all_iff window_swaps_def)
  have na: "\<not> a < latestSlot t"
    using assms(2) by simp
  show ?thesis
  proof (cases "?xs = []")
    case True
    then show ?thesis
      using na by (simp add: Volume_def volume_loop_filter [of "cutoff_at _ _"] f volume_spec_def)
  next
    case False
    then show ?thesis
      using na volume_loop_spec [OF pos False] word_of_length_nonzero [OF length_le_sumX [OF pos]]
      by (simp add: Volume_def volume_loop_filter [of "cutoff_at _ _"] f volume_spec_def)
  qed
qed

section \<open>Refinement: the tracker against an unpruned history\<close>

text \<open>
  The specification keeps every accepted swap in one list and never prunes on an observation; a
  rollback keeps the swaps before its slot of the window that was open. The tracker answers
  every volume query as the history does.
\<close>

record activity_history =
  ah_latest :: u64
  ah_all :: "SwapTransition list"

datatype activity_op =
    OpObserve "PoolState option" "PoolState option"
  | OpRollback u64

definition spec_observe ::
    "PoolState option \<Rightarrow> PoolState option \<Rightarrow> activity_history \<Rightarrow> activity_history" where
  "spec_observe p cur h =
     (case cur of
        None \<Rightarrow> h
      | Some c \<Rightarrow>
          if FromMempool c \<or> Slot c < ah_latest h then h
          else case InferSwapTransition p cur of
            Inl _ \<Rightarrow> h
          | Inr None \<Rightarrow> h\<lparr>ah_latest := Slot c\<rparr>
          | Inr (Some s) \<Rightarrow> h\<lparr>ah_latest := Slot c, ah_all := ah_all h @ [s]\<rparr>)"

definition spec_rollback :: "u64 \<Rightarrow> u64 \<Rightarrow> activity_history \<Rightarrow> activity_history" where
  "spec_rollback w n h =
     \<lparr>ah_latest = rollback_latest n (ah_latest h),
      ah_all = filter (\<lambda>s. st_Slot s < n) (window_swaps w (ah_latest h) (ah_all h))\<rparr>"

fun spec_step :: "u64 \<Rightarrow> activity_op \<Rightarrow> activity_history \<Rightarrow> activity_history" where
  "spec_step w (OpObserve p c) h = spec_observe p c h"
| "spec_step w (OpRollback n) h = spec_rollback w n h"

fun tracker_step :: "activity_op \<Rightarrow> ActivityTracker \<Rightarrow> ActivityTracker" where
  "tracker_step (OpObserve p c) t = snd (Observe p c t)"
| "tracker_step (OpRollback n) t = Rollback n t"

definition pool_swaps :: "string \<Rightarrow> SwapTransition list \<Rightarrow> SwapTransition list" where
  "pool_swaps k xs = filter (\<lambda>s. swap_pool_key s = k) xs"

definition simulates :: "ActivityTracker \<Rightarrow> activity_history \<Rightarrow> bool" where
  "simulates t h =
     (tracker_ok t \<and> latestSlot t = ah_latest h \<and>
      (\<forall>k. swaps_at (swaps t) k = window_swaps (windowSlots t) (ah_latest h) (pool_swaps k (ah_all h))))"

lemma window_swaps_window:
  "b \<le> a \<Longrightarrow> window_swaps w a (window_swaps w b xs) = window_swaps w a xs"
  by (auto simp: window_swaps_def word_le_nat_alt intro: filter_cong)

lemma pool_swaps_simps [simp]:
  "pool_swaps k (xs @ ys) = pool_swaps k xs @ pool_swaps k ys"
  "pool_swaps k [] = []"
  "pool_swaps k (s # xs) = (if swap_pool_key s = k then s # pool_swaps k xs else pool_swaps k xs)"
  by (simp_all add: pool_swaps_def)

lemma window_swaps_simps [simp]:
  "window_swaps w a (xs @ ys) = window_swaps w a xs @ window_swaps w a ys"
  "window_swaps w a [] = []"
  "st_Slot s = a \<Longrightarrow> window_swaps w a [s] = [s]"
  by (simp_all add: window_swaps_def)

lemma advance_simulates:
  assumes "simulates t h" and "latestSlot t \<le> a"
  shows "simulates (prune a (t\<lparr>latestSlot := a\<rparr>)) (h\<lparr>ah_latest := a\<rparr>)"
proof -
  have "swaps_at (swaps (prune a (t\<lparr>latestSlot := a\<rparr>))) k =
      window_swaps (windowSlots t) a (swaps_at (swaps t) k)" for k
    using assms by (simp add: advance_swaps_at simulates_def window_swaps_def cutoff_at_nat)
  then show ?thesis
    using assms advance_ok [of t a] by (simp add: simulates_def window_swaps_window)
qed

lemma append_simulates:
  assumes "simulates t h" and "st_Slot s = latestSlot t" and "st_AmountX s \<noteq> 0" and "st_AmountY s \<noteq> 0"
  shows "simulates (append_swap (swap_pool_key s) s t) (h\<lparr>ah_all := ah_all h @ [s]\<rparr>)"
  using assms by (auto simp: simulates_def append_swap_ok)

lemma Observe_simulates:
  assumes "simulates t h"
  shows "simulates (snd (Observe p c t)) (spec_observe p c h)"
proof (cases "\<exists>x. c = Some x \<and> \<not> FromMempool x \<and> latestSlot t \<le> Slot x")
  case False
  with assms show ?thesis
    by (auto simp: Observe_def spec_observe_def simulates_def split: option.splits)
next
  case True
  then obtain x where c: "c = Some x" "\<not> FromMempool x" "latestSlot t \<le> Slot x" by blast
  note adv = advance_simulates [OF assms c(3)]
  have l: "\<not> Slot x < latestSlot t" "ah_latest h = latestSlot t"
    using c(3) assms by (auto simp: simulates_def)
  show ?thesis
  proof (cases "InferSwapTransition p c")
    case (Inl e)
    with c l assms show ?thesis by (simp add: Observe_def spec_observe_def)
  next
    case (Inr r)
    show ?thesis
    proof (cases r)
      case None
      with Inr c l adv show ?thesis by (simp add: Observe_def spec_observe_def)
    next
      case (Some s)
      note s = infer_swapD [of p x s]
      have "simulates (append_swap (swap_pool_key s) s (prune (Slot x) (t\<lparr>latestSlot := Slot x\<rparr>)))
          (h\<lparr>ah_latest := Slot x, ah_all := ah_all h @ [s]\<rparr>)"
        using append_simulates [OF adv, of s] s Inr Some c by simp
      with s Inr c l Some show ?thesis by (simp add: Observe_def spec_observe_def)
    qed
  qed
qed

lemma Rollback_simulates:
  assumes "simulates t h"
  shows "simulates (Rollback n t) (spec_rollback (windowSlots t) n h)"
proof -
  have ok: "tracker_ok t" using assms by (simp add: simulates_def)
  show ?thesis
    using assms rollback_latest_le [of n "latestSlot t"]
    by (auto simp: simulates_def Rollback_ok swaps_at_Rollback [OF ok] Rollback_simps spec_rollback_def
        window_swaps_def pool_swaps_def word_le_nat_alt intro!: filter_cong)
qed

lemma tracker_step_window [simp]: "windowSlots (tracker_step op t) = windowSlots t"
  by (cases op) (auto simp: Rollback_simps Observe_def Let_def split: option.splits sum.splits)

lemma tracker_run_simulates:
  assumes "simulates t h"
  shows "simulates (fold tracker_step ops t) (fold (spec_step (windowSlots t)) ops h)"
  using assms
proof (induction ops arbitrary: t h)
  case (Cons op ops)
  have "simulates (tracker_step op t) (spec_step (windowSlots t) op h)"
    using Cons.prems by (cases op) (simp_all add: Observe_simulates Rollback_simulates)
  from Cons.IH [OF this] show ?case by simp
qed simp

lemma new_tracker_simulates:
  "NewActivityTracker w = Inr t \<Longrightarrow> simulates t \<lparr>ah_latest = 0, ah_all = []\<rparr>"
  by (auto simp: NewActivityTracker_def simulates_def tracker_ok_def split: if_splits)

lemma tracker_run_window [simp]: "windowSlots (fold tracker_step ops t) = windowSlots t"
  by (induction ops arbitrary: t) simp_all

lemma simulates_volume:
  assumes "simulates t h" and "ah_latest h \<le> a"
  shows "Volume network protocol poolID a t =
    volume_spec network protocol poolID (windowSlots t) a
      (window_swaps (windowSlots t) a (pool_swaps (pool_key network protocol poolID) (ah_all h)))"
  using assms Volume_eq [of t a] by (simp add: simulates_def window_swaps_window)

section \<open>Snapshot and Restore\<close>

text \<open>The sort order as one lexicographic key; equal keys are the same identity.\<close>

definition swap_key ::
    "SwapTransition \<Rightarrow> u64 \<times> string \<times> u32 \<times> string \<times> string \<times> string" where
  "swap_key s = (st_Slot s, st_TxHash s, st_TxIndex s, st_Network s, st_Protocol s, st_PoolID s)"

lemma swap_less_key: "swap_less a b \<longleftrightarrow> swap_key a < swap_key b"
  by (auto simp: swap_less_def swap_key_def less_prod_simp)

lemma sameSwapIdentity_key: "sameSwapIdentity a b \<longleftrightarrow> swap_key a = swap_key b"
  by (auto simp: sameSwapIdentity_def swap_key_def)

lemma swap_key_pool: "swap_key a = swap_key b \<Longrightarrow> swap_pool_key a = swap_pool_key b"
  by (simp add: swap_key_def swap_pool_key_def)

lemma equalSwapTransition_eq [simp]: "equalSwapTransition a b \<longleftrightarrow> a = b"
  by (auto simp: equalSwapTransition_def sameSwapIdentity_def)

lemma sortSwapTransitions_eq: "sortSwapTransitions xs = sort_key swap_key xs"
  unfolding sortSwapTransitions_def by (rule sort_by_eq_sort_key [OF swap_less_key])

lemma swap_key_slot: "swap_key a \<le> swap_key b \<Longrightarrow> st_Slot a \<le> st_Slot b"
  by (auto simp: swap_key_def less_eq_prod_simp)

lemma sorted_swap_key_slot: "sorted (map swap_key xs) \<Longrightarrow> sorted (map st_Slot xs)"
  by (induction xs) (auto dest: swap_key_slot)

lemma restore_loop_content:
  assumes "restore_loop ss m = Inr m'" and "gomap_ok m" and "list_all (\<lambda>(k, xs). xs \<noteq> []) m"
  shows "gomap_ok m' \<and> list_all (\<lambda>(k, xs). xs \<noteq> []) m'
    \<and> (\<forall>k. swaps_at m' k = swaps_at m k @ pool_swaps k ss)"
  using assms
proof (induction ss arbitrary: m)
  case (Cons s ss)
  let ?m = "AList.update (swap_pool_key s) (swaps_at m (swap_pool_key s) @ [s]) m"
  have "restore_loop ss ?m = Inr m'"
    using Cons.prems(1) by (simp add: Let_def split: if_splits)
  from Cons.IH [OF this] Cons.prems show ?case
    by (simp add: list_all_alist_update swaps_at_update)
qed simp

text \<open>On a sorted list the check against the last swap of the pool finds every duplicate.\<close>

lemma restore_loop_succeeds:
  assumes "sorted (map swap_key ss)"
    and "\<And>k. sorted (map swap_key (swaps_at m k))"
    and "\<And>k a b. a \<in> set (swaps_at m k) \<Longrightarrow> b \<in> set ss \<Longrightarrow> swap_key a \<le> swap_key b"
    and "\<And>k a. a \<in> set (swaps_at m k) \<Longrightarrow> swap_pool_key a = k"
  shows "(\<exists>m'. restore_loop ss m = Inr m') \<longleftrightarrow>
    distinct (map swap_key ss) \<and> (\<forall>k. swap_key ` set (swaps_at m k) \<inter> swap_key ` set ss = {})"
  using assms
proof (induction ss arbitrary: m)
  case Nil
  then show ?case by simp
next
  case (Cons s ss)
  let ?k = "swap_pool_key s"
  let ?m = "AList.update ?k (swaps_at m ?k @ [s]) m"
  show ?case
  proof (cases "swaps_at m ?k \<noteq> [] \<and> sameSwapIdentity (last (swaps_at m ?k)) s")
    case True
    then have "swap_key s \<in> swap_key ` set (swaps_at m ?k)"
      by (metis sameSwapIdentity_key image_eqI last_in_set)
    with True show ?thesis by fastforce
  next
    case False
    have fresh: "swap_key s \<notin> swap_key ` set (swaps_at m k)" for k
    proof
      assume "swap_key s \<in> swap_key ` set (swaps_at m k)"
      then obtain a where a: "a \<in> set (swaps_at m k)" "swap_key a = swap_key s" by auto
      then have k: "k = ?k" using Cons.prems(4) swap_key_pool by metis
      have ne: "swaps_at m ?k \<noteq> []" using a k by auto
      then have "swap_key (last (swaps_at m ?k)) \<le> swap_key s"
        using Cons.prems(3) [of "last (swaps_at m ?k)" ?k s] by simp
      moreover have "swap_key a \<le> swap_key (last (swaps_at m ?k))"
        using sorted_map_last [OF Cons.prems(2) [of ?k], of a] a(1) k by blast
      ultimately show False using False a ne by (simp add: sameSwapIdentity_key)
    qed
    have step: "restore_loop (s # ss) m = restore_loop ss ?m"
      using False by (auto simp: Let_def)
    have IH: "(\<exists>m'. restore_loop ss ?m = Inr m') \<longleftrightarrow> distinct (map swap_key ss)
        \<and> (\<forall>k. swap_key ` set (swaps_at ?m k) \<inter> swap_key ` set ss = {})"
      using Cons.prems by (intro Cons.IH) (auto simp: swaps_at_update sorted_append split: if_splits)
    have "(\<forall>k. swap_key ` set (swaps_at ?m k) \<inter> swap_key ` set ss = {}) \<longleftrightarrow>
        (\<forall>k. swap_key ` set (swaps_at m k) \<inter> swap_key ` set ss = {}) \<and> swap_key s \<notin> swap_key ` set ss"
      by (auto simp: swaps_at_update)
    then show ?thesis
      unfolding step IH using fresh by auto
  qed
qed

lemma Restore_result:
  assumes "tracker_ok t"
  shows "fst (Restore st t) = Inr () \<longleftrightarrow> as_WindowSlots st = windowSlots t
    \<and> list_all (\<lambda>s. validateSwapTransition s (as_LatestSlot st)) (as_Swaps st)
    \<and> distinct (map swap_key (as_Swaps st))"
proof -
  have "(\<exists>m'. restore_loop (sort_key swap_key (as_Swaps st)) [] = Inr m') \<longleftrightarrow>
      distinct (map swap_key (as_Swaps st))"
    by (subst restore_loop_succeeds) (auto simp: distinct_map)
  then show ?thesis
    using assms
    by (auto simp: Restore_def sortSwapTransitions_eq tracker_ok_def split: sum.splits)
qed

lemma Restore_error_keeps: "fst (Restore st t) = Inl e \<Longrightarrow> snd (Restore st t) = t"
  by (auto simp: Restore_def split: sum.splits if_splits)

lemma Restore_content:
  assumes "fst (Restore st t) = Inr ()"
  shows "windowSlots (snd (Restore st t)) = windowSlots t"
    and "latestSlot (snd (Restore st t)) = as_LatestSlot st"
    and "swaps_at (swaps (snd (Restore st t))) k =
      window_swaps (windowSlots t) (as_LatestSlot st) (pool_swaps k (sort_key swap_key (as_Swaps st)))"
    and "gomap_ok (swaps (snd (Restore st t)))"
    and "list_all (\<lambda>(k, xs). xs \<noteq> []) (swaps (snd (Restore st t)))"
proof -
  obtain m where m: "restore_loop (sort_key swap_key (as_Swaps st)) [] = Inr m"
    and r: "snd (Restore st t) = prune (as_LatestSlot st) (t\<lparr>latestSlot := as_LatestSlot st, swaps := m\<rparr>)"
    using assms by (auto simp: Restore_def sortSwapTransitions_eq split: sum.splits if_splits)
  have c: "gomap_ok m" "swaps_at m k = pool_swaps k (sort_key swap_key (as_Swaps st))"
    using restore_loop_content [OF m] by auto
  have "sorted (map st_Slot (swaps_at m k))"
    by (simp add: c(2) pool_swaps_def sorted_map_filter sorted_swap_key_slot)
  then show "swaps_at (swaps (snd (Restore st t))) k =
      window_swaps (windowSlots t) (as_LatestSlot st) (pool_swaps k (sort_key swap_key (as_Swaps st)))"
    unfolding r using c by (simp add: swaps_at_prune cutoff_at_nat window_swaps_def)
  show "windowSlots (snd (Restore st t)) = windowSlots t"
    and "latestSlot (snd (Restore st t)) = as_LatestSlot st"
    and "gomap_ok (swaps (snd (Restore st t)))"
    and "list_all (\<lambda>(k, xs). xs \<noteq> []) (swaps (snd (Restore st t)))"
    unfolding r using c by simp_all
qed

lemma validate_pool_swaps_ok:
  assumes "list_all (\<lambda>s. validateSwapTransition s l) xs" and "sorted (map st_Slot xs)"
  shows "pool_swaps_ok w l k (window_swaps w l (pool_swaps k xs))"
  using assms
  by (auto simp: pool_swaps_ok_def window_swaps_def pool_swaps_def list_all_iff validateSwapTransition_def
      cutoff_at_nat not_less simp del: filter_filter intro!: sorted_map_filter)

lemma Restore_ok [inv_intros]:
  assumes "tracker_ok t"
  shows "tracker_ok (snd (Restore st t))"
proof (cases "fst (Restore st t)")
  case (Inl e)
  with assms show ?thesis by (simp add: Restore_error_keeps)
next
  case (Inr u)
  then have ok: "fst (Restore st t) = Inr ()" by simp
  have "list_all (\<lambda>s. validateSwapTransition s (as_LatestSlot st)) (sort_key swap_key (as_Swaps st))"
    using ok assms by (simp add: Restore_result list_all_iff)
  then have "pool_swaps_ok (windowSlots t) (as_LatestSlot st) k
      (swaps_at (swaps (snd (Restore st t))) k)" for k
    by (simp add: Restore_content(3) [OF ok] validate_pool_swaps_ok sorted_swap_key_slot)
  then show ?thesis
    using assms by (simp add: tracker_ok_iff Restore_content [OF ok])
qed

text \<open>
  A tracker that can be persisted and restored: no two swaps of a pool share an identity and every
  swap passes \<open>validateSwapTransition\<close>.
\<close>

definition durable :: "ActivityTracker \<Rightarrow> bool" where
  "durable t =
     (tracker_ok t \<and>
      list_all (\<lambda>(k, xs). distinct (map swap_key xs)
        \<and> list_all (\<lambda>s. validateSwapTransition s (latestSlot t)) xs) (swaps t))"

lemma durable_iff:
  "durable t \<longleftrightarrow> tracker_ok t \<and> (\<forall>k. distinct (map swap_key (swaps_at (swaps t) k))
     \<and> list_all (\<lambda>s. validateSwapTransition s (latestSlot t)) (swaps_at (swaps t) k))"
proof (cases "tracker_ok t")
  case True
  then show ?thesis
    unfolding durable_def by (subst list_all_swaps_at) (auto simp: tracker_ok_iff)
qed (simp add: durable_def)

lemma pool_swaps_concat:
  assumes "gomap_ok m" and "list_all (\<lambda>(k, xs). list_all (\<lambda>s. swap_pool_key s = k) xs) m"
  shows "pool_swaps k (concat (map snd m)) = swaps_at m k"
  using assms
proof (induction m)
  case (Cons p m)
  obtain k' xs where p: "p = (k', xs)" by (cases p)
  have m: "gomap_ok m" "k' \<notin> fst ` set m"
    using Cons.prems(1) by (auto simp: gomap_ok_def p)
  have "pool_swaps k xs = (if k = k' then xs else [])"
    using Cons.prems(2) by (auto simp: p pool_swaps_def list_all_iff filter_empty_conv)
  moreover have "swaps_at m k' = []"
    using m(2) by (auto simp: swaps_at_def map_of_eq_None_iff [THEN iffD2])
  ultimately show ?case
    using Cons m by (auto simp: p swaps_at_def)
qed simp

lemma tracker_pool_swaps:
  assumes "tracker_ok t"
  shows "pool_swaps k (concat (map snd (swaps t))) = swaps_at (swaps t) k"
  using assms
  by (intro pool_swaps_concat) (auto simp: tracker_ok_def list_all_iff pool_swaps_ok_def)

lemma distinct_map_from_pools:
  assumes "\<And>k. distinct (map f (pool_swaps k xs))" and "\<And>a b. f a = f b \<Longrightarrow> swap_pool_key a = swap_pool_key b"
  shows "distinct (map f xs)"
  using assms(1)
proof (induction xs)
  case (Cons s xs)
  have "distinct (map f (pool_swaps k xs))" for k
    using Cons.prems [of k] by (auto split: if_splits)
  moreover have "f s \<notin> f ` set xs"
  proof
    assume "f s \<in> f ` set xs"
    then obtain b where "b \<in> set xs" "f s = f b" by auto
    then have "f s \<in> f ` set (pool_swaps (swap_pool_key s) xs)"
      using assms(2) [of s b] by (auto simp: pool_swaps_def)
    with Cons.prems [of "swap_pool_key s"] show False by simp
  qed
  ultimately show ?case using Cons.IH by simp
qed simp

lemma durable_distinct:
  assumes "durable t"
  shows "distinct (map swap_key (concat (map snd (swaps t))))"
proof (rule distinct_map_from_pools [OF _ swap_key_pool])
  show "distinct (map swap_key (pool_swaps k (concat (map snd (swaps t)))))" for k
    using assms tracker_pool_swaps [of t k] by (simp add: durable_iff)
qed assumption

lemma Restore_Snapshot:
  assumes "durable t" and "tracker_ok u" and "windowSlots u = windowSlots t"
  shows "fst (Restore (Snapshot t) u) = Inr ()"
    and "swaps_at (swaps (snd (Restore (Snapshot t) u))) k = sort_key swap_key (swaps_at (swaps t) k)"
proof -
  let ?all = "concat (map snd (swaps t))"
  have ok: "tracker_ok t" and valid: "list_all (\<lambda>s. validateSwapTransition s (latestSlot t)) ?all"
    using assms(1) by (simp add: durable_def, fastforce simp: durable_def list_all_iff)
  have "distinct (map swap_key ?all)"
    by (rule durable_distinct [OF assms(1)])
  then show r: "fst (Restore (Snapshot t) u) = Inr ()"
    using assms valid
    by (subst Restore_result) (simp_all add: Snapshot_def sortSwapTransitions_eq list_all_iff distinct_map)
  have "pool_swaps k (sort_key swap_key ?all) = sort_key swap_key (swaps_at (swaps t) k)"
    using tracker_pool_swaps [OF ok, of k] by (simp add: pool_swaps_def filter_sort)
  moreover have "window_swaps (windowSlots t) (latestSlot t) (sort_key swap_key (swaps_at (swaps t) k)) =
      sort_key swap_key (swaps_at (swaps t) k)"
    using tracker_ok_swaps [OF ok, of k]
    by (auto simp: window_swaps_def pool_swaps_ok_def list_all_iff cutoff_at_nat intro!: filter_True)
  ultimately show "swaps_at (swaps (snd (Restore (Snapshot t) u))) k =
      sort_key swap_key (swaps_at (swaps t) k)"
    by (subst Restore_content(3) [OF r]) (simp add: Snapshot_def sortSwapTransitions_eq assms(3) sort_key_id_if_sorted)
qed

lemma mset_from_pools:
  assumes "\<And>k. mset (pool_swaps k xs) = mset (pool_swaps k ys)"
  shows "mset xs = mset ys"
proof (rule multiset_eqI)
  fix s
  have "count (mset zs) s = count (mset (pool_swaps (swap_pool_key s) zs)) s" for zs
    by (induction zs) auto
  then show "count (mset xs) s = count (mset ys) s"
    using assms by metis
qed

lemma Snapshot_Restore:
  assumes "durable t" and "tracker_ok u" and "windowSlots u = windowSlots t"
  shows "Snapshot (snd (Restore (Snapshot t) u)) = Snapshot t"
proof -
  let ?r = "snd (Restore (Snapshot t) u)"
  let ?all = "\<lambda>x. concat (map snd (swaps x))"
  have ok: "tracker_ok t" "tracker_ok ?r"
    using assms by (simp_all add: durable_def Restore_ok)
  have "mset (?all ?r) = mset (?all t)"
    by (rule mset_from_pools) (simp add: tracker_pool_swaps ok Restore_Snapshot(2) [OF assms])
  moreover have "distinct (map swap_key (?all t))"
    by (rule durable_distinct [OF assms(1)])
  ultimately have "sort_key swap_key (?all ?r) = sort_key swap_key (?all t)"
    by (intro sort_key_inj_key_eq) (auto simp: distinct_map dest: mset_eq_setD)
  then show ?thesis
    using Restore_content(1,2) [OF Restore_Snapshot(1) [OF assms]] assms(3)
    by (simp add: Snapshot_def sortSwapTransitions_eq)
qed

text \<open>A pool state whose names are set and whose two assets differ.\<close>

definition named_pool :: "PoolState \<Rightarrow> bool" where
  "named_pool c = (PoolId c \<noteq> [] \<and> Network c \<noteq> [] \<and> Protocol c \<noteq> [] \<and> Class (AssetX c) \<noteq> Class (AssetY c))"

lemma find_duplicate_spec:
  "find_duplicate s es = Inr False \<Longrightarrow> swap_key s \<notin> swap_key ` set es"
  "find_duplicate s es = Inr True \<Longrightarrow> s \<in> set es"
  by (induction es) (auto simp: sameSwapIdentity_key swap_key_def split: if_splits)

lemma infer_swap_valid:
  assumes "InferSwapTransition p (Some c) = Inr (Some s)" and "named_pool c"
  shows "validateSwapTransition s (Slot c)"
  using assms infer_swapD [OF assms(1)]
  by (auto simp: InferSwapTransition_def validateSwapTransition_def named_pool_def Let_def
      split: option.splits if_splits)

lemma validate_mono: "validateSwapTransition s l \<Longrightarrow> l \<le> l' \<Longrightarrow> validateSwapTransition s l'"
  by (auto simp: validateSwapTransition_def)

lemma distinct_map_filter': "distinct (map f xs) \<Longrightarrow> distinct (map f (filter p xs))"
  by (simp add: distinct_map_filter)

lemma durable_advance:
  assumes "durable t" and "latestSlot t \<le> a"
  shows "durable (prune a (t\<lparr>latestSlot := a\<rparr>))"
  using assms advance_ok [of t a]
  by (auto simp: durable_iff advance_swaps_at list_all_iff intro: distinct_map_filter' validate_mono)

lemma durable_append:
  assumes "durable t" and "tracker_ok (append_swap k s t)" and "validateSwapTransition s (latestSlot t)"
    and "swap_key s \<notin> swap_key ` set (swaps_at (swaps t) k)"
  shows "durable (append_swap k s t)"
  using assms by (auto simp: durable_iff list_all_iff)

lemma ObserveTransition_durable:
  assumes "durable t" and "named_pool c"
  shows "durable (snd (ObserveTransition p (Some c) t))"
proof (cases "\<exists>s. fst (ObserveTransition p (Some c) t) = Inr (Some s, True)")
  case True
  then obtain s where c: "\<not> Slot c < latestSlot t" "InferSwapTransition p (Some c) = Inr (Some s)"
      "find_duplicate s (swaps_at (swaps t) (Key c)) = Inr False"
    and t': "snd (ObserveTransition p (Some c) t) =
      append_swap (Key c) s (prune (Slot c) (t\<lparr>latestSlot := Slot c\<rparr>))"
    by (auto simp: ObserveTransition_def Let_def split: if_splits sum.splits option.splits)
  have ok: "tracker_ok t" using assms(1) by (simp add: durable_def)
  have adv: "durable (prune (Slot c) (t\<lparr>latestSlot := Slot c\<rparr>))"
    using assms(1) c(1) by (simp add: durable_advance)
  show ?thesis
    unfolding t'
  proof (rule durable_append [OF adv])
    show "tracker_ok (append_swap (Key c) s (prune (Slot c) (t\<lparr>latestSlot := Slot c\<rparr>)))"
      using ObserveTransition_ok [OF ok, of p "Some c"] t' by simp
    show "swap_key s \<notin> swap_key ` set (swaps_at (swaps (prune (Slot c) (t\<lparr>latestSlot := Slot c\<rparr>))) (Key c))"
      using find_duplicate_spec(1) [OF c(3)] by (auto simp: advance_swaps_at [OF ok])
  qed (simp add: infer_swap_valid [OF c(2) assms(2)])
next
  case False
  then show ?thesis
    using assms(1)
    by (auto simp: ObserveTransition_def Let_def not_less intro: durable_advance
        split: if_splits sum.splits option.splits)
qed

lemma Rollback_durable:
  assumes "durable t"
  shows "durable (Rollback n t)"
proof -
  have ok: "tracker_ok t" using assms by (simp add: durable_def)
  have "st_Slot s \<le> rollback_latest n (latestSlot t)"
    if "s \<in> set (swaps_at (swaps t) k)" "st_Slot s < n" for s k
    using tracker_ok_swaps [OF ok, of k] that
    by (auto simp: pool_swaps_ok_def list_all_iff slot_below_rollback_latest)
  then show ?thesis
    using assms Rollback_ok [OF ok, of n]
    by (auto simp: durable_iff swaps_at_Rollback Rollback_simps list_all_iff validateSwapTransition_def
        not_less intro: distinct_map_filter')
qed

lemma prune_id:
  assumes "tracker_ok t"
  shows "prune (latestSlot t) t = t"
proof -
  have "dropWhile (\<lambda>s. st_Slot s < cutoff_at (windowSlots t) (latestSlot t)) xs = xs \<and> xs \<noteq> []"
    if "(k, xs) \<in> set (swaps t)" for k xs
  proof -
    have "cutoff_at (windowSlots t) (latestSlot t) \<le> st_Slot s" if "s \<in> set xs" for s
      using assms \<open>(k, xs) \<in> set (swaps t)\<close> that
      by (fastforce simp: tracker_ok_def list_all_iff pool_swaps_ok_def)+
    moreover have "xs \<noteq> []"
      using assms that by (auto simp: tracker_ok_def list_all_iff)
    ultimately show ?thesis by (simp add: dropWhile_eq_self_iff not_less)
  qed
  then have "retain (dropWhile (\<lambda>s. st_Slot s < cutoff_at (windowSlots t) (latestSlot t))) (swaps t) = swaps t"
    unfolding retain_def by (subst map_idI) (auto intro!: filter_True)
  then show ?thesis by (simp add: prune_def Let_def)
qed

lemma find_duplicate_snoc:
  "swap_key s \<notin> swap_key ` set es \<Longrightarrow> find_duplicate s (es @ [s]) = Inr True"
  by (induction es) (auto simp: sameSwapIdentity_key)

section \<open>Properties\<close>


text \<open>A pair of states is classified as a swap exactly when both are confirmed, they are the same
  pool with the same assets, and one reserve rose while the other fell; the recorded amounts
  are the exact differences of the reserves, with no wrap-around.\<close>

lemma infer_swap_iff:
  "InferSwapTransition (Some p) (Some c) = Inr (Some s) \<longleftrightarrow>
     \<not> FromMempool p \<and> \<not> FromMempool c \<and> Key p = Key c
     \<and> Class (AssetX p) = Class (AssetX c) \<and> Class (AssetY p) = Class (AssetY c)
     \<and> st_AmountX s \<noteq> 0 \<and> st_AmountY s \<noteq> 0
     \<and> (if st_InputIsX s
        then unat (Amount (AssetX c)) = unat (Amount (AssetX p)) + unat (st_AmountX s)
           \<and> unat (Amount (AssetY p)) = unat (Amount (AssetY c)) + unat (st_AmountY s)
        else unat (Amount (AssetX p)) = unat (Amount (AssetX c)) + unat (st_AmountX s)
           \<and> unat (Amount (AssetY c)) = unat (Amount (AssetY p)) + unat (st_AmountY s))
     \<and> st_PoolID s = PoolId c \<and> st_Network s = Network c \<and> st_Protocol s = Protocol c
     \<and> st_AssetX s = Class (AssetX c) \<and> st_AssetY s = Class (AssetY c) \<and> st_Slot s = Slot c
     \<and> st_BlockHash s = BlockHash c \<and> st_TxHash s = TxHash c \<and> st_TxIndex s = TxIndex c"
  (is "?L \<longleftrightarrow> ?R")
proof
  assume ?L
  then show ?R
    by (auto simp: InferSwapTransition_def Let_def word_less_nat_alt unat_sub_if' split: if_splits)
next
  assume R: ?R
  have diff: "a = b - c" if "unat b = unat c + unat a" for a b c :: u64
    using that by (metis add_diff_cancel_left' of_nat_add word_of_nat_unat)
  have pos: "0 < unat (st_AmountX s)" "0 < unat (st_AmountY s)"
    using R by (simp_all add: unat_gt_0)
  show ?L
  proof (cases "st_InputIsX s")
    case True
    with R pos have "Amount (AssetX p) < Amount (AssetX c)" "Amount (AssetY c) < Amount (AssetY p)"
      "st_AmountX s = Amount (AssetX c) - Amount (AssetX p)"
      "st_AmountY s = Amount (AssetY p) - Amount (AssetY c)"
      by (simp_all add: word_less_nat_alt diff)
    with R True show ?thesis
      by (cases s) (simp add: InferSwapTransition_def)
  next
    case False
    with R pos have "Amount (AssetX c) < Amount (AssetX p)" "Amount (AssetY p) < Amount (AssetY c)"
      "st_AmountX s = Amount (AssetX p) - Amount (AssetX c)"
      "st_AmountY s = Amount (AssetY c) - Amount (AssetY p)"
      by (simp_all add: word_less_nat_alt diff)
    moreover from this have "\<not> Amount (AssetX p) < Amount (AssetX c)" by simp
    ultimately show ?thesis
      using R False by (cases s) (simp add: InferSwapTransition_def)
  qed
qed

text \<open>C24: every operation of the tracker, Restore of arbitrary persisted state included, keeps the
  invariant: per pool the swaps are in slot order, inside the rolling window, filed under
  their pool's key and move both reserves.\<close>

theorem tracker_invariant:
  assumes "tracker_ok t"
  shows "tracker_ok (snd (Observe p c t)) \<and> tracker_ok (snd (ObserveTransition p c t))
    \<and> tracker_ok (Rollback n t) \<and> tracker_ok (snd (Restore st t))"
  using assms by (auto intro: inv_intros)

text \<open>An operation that reports an error leaves the tracker as it was.\<close>

lemma rejected_activity_changes_nothing:
  "(fst (Observe p c t) = Inl e \<longrightarrow> snd (Observe p c t) = t)
   \<and> (fst (ObserveTransition p c t) = Inl e \<longrightarrow> snd (ObserveTransition p c t) = t)
   \<and> (fst (Restore st t) = Inl e \<longrightarrow> snd (Restore st t) = t)"
  by (auto simp: Observe_def ObserveTransition_def Let_def Restore_error_keeps
      split: option.splits sum.splits if_splits)

text \<open>A series of rollbacks leaves exactly the swaps that the deepest of them alone leaves, and
  those are the retained swaps before its slot.\<close>

lemma rollbacks_compose:
  assumes "tracker_ok t" and "ns \<noteq> []"
  shows "tracker_swaps (fold Rollback ns t) = tracker_swaps (Rollback (Min (set ns)) t)
    \<and> tracker_swaps (Rollback (Min (set ns)) t) = {s \<in> tracker_swaps t. st_Slot s < Min (set ns)}"
  using activity_log.fold_rollback_deepest [OF assms] activity_log.rollback_entries [OF assms(1)] by simp

text \<open>Observing the transition just recorded once more reports it as already known and changes
  nothing.\<close>

lemma replayed_transition_is_ignored:
  assumes "tracker_ok t" and "ObserveTransition p (Some c) t = (Inr (Some s, True), t')"
  shows "ObserveTransition p (Some c) t' = (Inr (Some s, False), t')"
proof -
  let ?u = "prune (Slot c) (t\<lparr>latestSlot := Slot c\<rparr>)"
  have c: "\<not> FromMempool c" "InferSwapTransition p (Some c) = Inr (Some s)"
    "find_duplicate s (swaps_at (swaps t) (Key c)) = Inr False" and t': "t' = append_swap (Key c) s ?u"
    using assms(2)
    by (auto simp: ObserveTransition_def Let_def split: if_splits sum.splits option.splits)
  have l: "latestSlot t' = Slot c" by (simp add: t')
  have ok: "tracker_ok t'"
    using ObserveTransition_ok [OF assms(1), of p "Some c"] assms(2) by simp
  then have "prune (Slot c) (t'\<lparr>latestSlot := Slot c\<rparr>) = t'"
    using prune_id [OF ok] by (simp add: l [symmetric])
  moreover have "find_duplicate s (swaps_at (swaps t') (Key c)) = Inr True"
    unfolding t' using find_duplicate_spec(1) [OF c(3)]
    by (auto simp: advance_swaps_at [OF assms(1)] intro!: find_duplicate_snoc)
  ultimately show ?thesis
    using c(1,2) by (simp add: ObserveTransition_def l)
qed

text \<open>Restore succeeds exactly when the window is the tracker's, every swap validates against the
  stored latest slot and no two swaps share an identity; the adjacent-pair check after sorting
  misses no duplicate.\<close>

lemma restore_accepts_iff:
  assumes "tracker_ok t"
  shows "fst (Restore st t) = Inr () \<longleftrightarrow> as_WindowSlots st = windowSlots t
    \<and> list_all (\<lambda>s. validateSwapTransition s (as_LatestSlot st)) (as_Swaps st)
    \<and> distinct (map swap_key (as_Swaps st))"
  by (rule Restore_result [OF assms])

text \<open>A durable tracker survives a restart: its snapshot restores into any tracker of the same
  window, with the same latest slot, for every pool a reordering of the same swaps, and the
  restored tracker has the same snapshot.\<close>

lemma snapshot_restore_round_trip:
  assumes "durable t" and "tracker_ok u" and "windowSlots u = windowSlots t"
  shows "fst (Restore (Snapshot t) u) = Inr ()
    \<and> latestSlot (snd (Restore (Snapshot t) u)) = latestSlot t
    \<and> mset (swaps_at (swaps (snd (Restore (Snapshot t) u))) k) = mset (swaps_at (swaps t) k)
    \<and> Snapshot (snd (Restore (Snapshot t) u)) = Snapshot t"
  using Restore_Snapshot [OF assms] Restore_content(2) [of "Snapshot t" u] Snapshot_Restore [OF assms]
  by (simp add: Snapshot_def)

text \<open>A tracker fed with pools whose names are set and whose assets differ stays durable, so it
  can be restored at any point.\<close>

lemma observed_pools_stay_durable:
  assumes "durable t" and "named_pool c"
  shows "durable (snd (ObserveTransition p (Some c) t)) \<and> durable (Rollback n t)"
  using assms by (simp add: ObserveTransition_durable Rollback_durable)

section \<open>Witnesses\<close>

definition swapped_pool :: PoolState where
  "swapped_pool = ada_usdm_pool\<lparr>AssetX := \<lparr>Class = Lovelace, Amount = 1001000\<rparr>,
     AssetY := \<lparr>Class = \<lparr>PolicyId = [1], Name = [2]\<rparr>, Amount = 499502\<rparr>, Slot := 20, TxHash := ''u''\<rparr>"

definition one_swap :: SwapTransition where
  "one_swap = \<lparr>st_PoolID = ''p1'', st_Network = ''mainnet'', st_Protocol = ''cswap'',
     st_AssetX = Lovelace, st_AssetY = \<lparr>PolicyId = [1], Name = [2]\<rparr>, st_AmountX = 1000,
     st_AmountY = 498, st_InputIsX = True, st_Slot = 20, st_BlockHash = ''b'', st_TxHash = ''u'',
     st_TxIndex = 0\<rparr>"

definition idle_tracker :: ActivityTracker where
  "idle_tracker = \<lparr>windowSlots = 100, latestSlot = 0, swaps = []\<rparr>"

definition busy_tracker :: ActivityTracker where
  "busy_tracker = \<lparr>windowSlots = 100, latestSlot = 20, swaps = [(''mainnet:cswap:p1'', [one_swap])]\<rparr>"

lemma new_idle_tracker: "NewActivityTracker 100 = Inr idle_tracker"
  by (simp add: NewActivityTracker_def idle_tracker_def)

lemma idle_tracker_ok: "tracker_ok idle_tracker" "durable idle_tracker"
  by (simp_all add: tracker_ok_def durable_def idle_tracker_def)

lemma infer_one_swap: "InferSwapTransition (Some ada_usdm_pool) (Some swapped_pool) = Inr (Some one_swap)"
  by code_simp

lemma observe_one_swap:
  "Observe (Some ada_usdm_pool) (Some swapped_pool) idle_tracker = (Inr True, busy_tracker)"
  "ObserveTransition (Some ada_usdm_pool) (Some swapped_pool) idle_tracker = (Inr (Some one_swap, True), busy_tracker)"
  by code_simp+

lemma swapped_named: "named_pool swapped_pool"
  by code_simp

lemma busy_tracker_ok: "tracker_ok busy_tracker" "durable busy_tracker"
  using Observe_ok [OF idle_tracker_ok(1), of "Some ada_usdm_pool" "Some swapped_pool"]
    ObserveTransition_durable [OF idle_tracker_ok(2) swapped_named, of "Some ada_usdm_pool"]
  by (simp_all add: observe_one_swap)


theorem tracker_invariant_witness:
  "tracker_ok busy_tracker \<and> tracker_ok (Rollback 20 busy_tracker)
   \<and> tracker_ok (snd (Observe None (Some swapped_pool) busy_tracker))
   \<and> tracker_ok (snd (ObserveTransition None (Some swapped_pool) busy_tracker))
   \<and> tracker_ok (snd (Restore (Snapshot busy_tracker) busy_tracker))"
  using tracker_invariant [OF busy_tracker_ok(1), of None "Some swapped_pool" 20 "Snapshot busy_tracker"]
    busy_tracker_ok(1) by blast

section \<open>Limits of the code\<close>

text \<open>
  A pool whose two assets are the same class is accepted by \<open>ObserveTransition\<close>, so it is recorded
  and persisted, but the snapshot that holds it is rejected by \<open>Restore\<close>.
\<close>

definition twin_pool :: PoolState where
  "twin_pool = ada_usdm_pool\<lparr>AssetY := \<lparr>Class = Lovelace, Amount = 500000\<rparr>\<rparr>"

definition twin_pool_next :: PoolState where
  "twin_pool_next = swapped_pool\<lparr>AssetY := \<lparr>Class = Lovelace, Amount = 499502\<rparr>\<rparr>"

definition observe_twin :: "(activity_error + (SwapTransition option \<times> bool)) \<times> ActivityTracker" where
  "observe_twin = ObserveTransition (Some twin_pool) (Some twin_pool_next) idle_tracker"

lemma same_asset_swap_not_restorable:
  "map_sum (\<lambda>e. e) snd (fst observe_twin) = Inr True
   \<and> fst (Restore (Snapshot (snd observe_twin)) idle_tracker) = Inl ErrInvalidActivityState"
  by code_simp

text \<open>
  A rollback does not bring back what a later observation pruned: a swap at slot 20, dropped when the
  window moved to slot 200, is missing from the volume at slot 30 after a rollback to slot 40.
\<close>

definition far_pool :: PoolState where
  "far_pool = swapped_pool\<lparr>Slot := 200\<rparr>"

lemma rollback_does_not_restore_pruned:
  "Volume ''mainnet'' ''cswap'' ''p1'' 39 (Rollback 40 (snd (Observe None (Some far_pool) busy_tracker))) = Inr None
   \<and> Volume ''mainnet'' ''cswap'' ''p1'' 39 (Rollback 40 busy_tracker) \<noteq> Inr None"
  by code_simp

end
