(* ===== verification/Ada_Usd.thy ===== *)
theory Ada_Usd
  imports Activity
begin

text \<open>
  \<open>price/ada_usd.go\<close> and \<open>price/stablecoins.go\<close>: the ADA/USD estimate from ADA/stablecoin pools. A pool
  becomes an observation when it pairs ADA with a registered stablecoin and holds enough of both;
  the estimate is the liquidity-weighted median of the observed prices, refused when there are too
  few observations or coins, when one pool dominates, or when prices diverge.

  Prices and ratios are \<open>big.Rat\<close>, here \<open>rat\<close>; the float copies are doubles. A nil \<open>*big.Rat\<close>
  or \<open>*int64\<close> is \<open>None\<close>. A function that returns a result beside an error returns the
  pair of them. A \<open>range\<close> loop over a map takes the order of the association list.
\<close>

section \<open>Stablecoins\<close>

record Stablecoin =
  Symbol :: string
  Asset :: AssetClass
  Decimals :: u8

definition USDMPolicyID :: string where
  "USDMPolicyID = ''c48cbb3d5e57ed56e276bc45f99ab39abe94e6cd7ac39fb402da47ad''"

definition USDMAssetName :: string where
  "USDMAssetName = ''0014df105553444d''"

definition USDCxPolicyID :: string where
  "USDCxPolicyID = ''1f3aec8bfe7ea4fe14c5f121e2a92e301afe414147860d557cac7e34''"

definition USDCxAssetName :: string where
  "USDCxAssetName = ''5553444378''"

text \<open>\<open>None\<close> is the panic on a malformed identifier.\<close>

definition mustStablecoin :: "string \<Rightarrow> string \<Rightarrow> string \<Rightarrow> u8 \<Rightarrow> Stablecoin option" where
  "mustStablecoin symbol policyID assetName decimals =
     (case NewAssetClass policyID assetName of
        Inl _ \<Rightarrow> None
      | Inr asset \<Rightarrow> Some \<lparr>Symbol = symbol, Asset = asset, Decimals = decimals\<rparr>)"

definition MainnetStablecoins :: "Stablecoin list option" where
  "MainnetStablecoins =
     (case (mustStablecoin ''USDM'' USDMPolicyID USDMAssetName 6,
            mustStablecoin ''USDCx'' USDCxPolicyID USDCxAssetName 6) of
        (Some a, Some b) \<Rightarrow> Some [a, b]
      | _ \<Rightarrow> None)"

section \<open>Configuration and results\<close>

record Config =
  Stablecoins :: "Stablecoin list"
  MinADAReserve :: u64
  MinStableUSD :: u64
  MinObservations :: int
  MinStablecoins :: int
  MaxPoolShare :: f64
  MaxDivergence :: f64
  IncludeMempool :: bool

record ActivityConfig =
  MinSwapCount :: u64
  MinStableVolume :: u64

record PoolObservation =
  po_PoolID :: string
  po_Protocol :: string
  po_Stablecoin :: string
  po_ADAReserve :: u64
  po_StableReserve :: u64
  po_StableMicros :: u64
  po_PriceNum :: string
  po_PriceDen :: string
  po_Price :: f64
  po_Slot :: u64
  po_BlockHash :: string
  po_TxHash :: string
  po_TxIndex :: u32
  po_ObservedAt :: time
  po_AgeSeconds :: "int option"
  po_Validation :: string
  po_StableVolumeMicros :: u64
  po_SwapCount :: u64
  po_ActivitySlots :: u64
  po_price :: "rat option"

record Result =
  r_Pair :: string
  r_Source :: string
  r_Method :: string
  r_Validation :: string
  r_ObservedAt :: time
  r_AgeSeconds :: "int option"
  r_PriceNum :: string
  r_PriceDen :: string
  r_Price :: f64
  r_Spread :: f64
  r_Observations :: "PoolObservation list"
  r_price :: "rat option"

datatype price_error =
    NoStablecoinsConfigured
  | MinimumCountsNotPositive
  | PoolShareOutOfRange
  | NegativeDivergence
  | ErrInsufficientObservations
  | ErrInsufficientDiversity
  | ErrConcentratedLiquidity
  | ErrDivergentPrices
  | ErrNonFinitePrice
  | ErrInvalidActivityConfig
  | ErrInvalidPoolActivity
  | InvalidObservationPrice
  | AggregateLiquidityOverflow

definition zero_Result :: Result where
  "zero_Result = \<lparr>r_Pair = [], r_Source = [], r_Method = [], r_Validation = [], r_ObservedAt = 0,
     r_AgeSeconds = None, r_PriceNum = [], r_PriceDen = [], r_Price = Fin 0, r_Spread = Fin 0,
     r_Observations = [], r_price = None\<rparr>"

definition DefaultActivityConfig :: ActivityConfig where
  "DefaultActivityConfig = \<lparr>MinSwapCount = 1, MinStableVolume = 100000000\<rparr>"

definition DefaultConfig :: "Config option" where
  "DefaultConfig = map_option (\<lambda>coins.
     \<lparr>Stablecoins = coins, MinADAReserve = 1000000000, MinStableUSD = 100000000,
      MinObservations = 2, MinStablecoins = 2, MaxPoolShare = f64_of_rat (3 / 4),
      MaxDivergence = f64_of_rat (1 / 20), IncludeMempool = False\<rparr>) MainnetStablecoins"

definition Rat :: "Result \<Rightarrow> rat" where
  "Rat r = (case r_price r of None \<Rightarrow> 0 | Some p \<Rightarrow> p)"

section \<open>Numeric helpers\<close>

text \<open>The loop of \<open>pow10Uint\<close>: 0 stands for an overflow.\<close>

fun pow10_loop :: "nat \<Rightarrow> u64 \<Rightarrow> u64" where
  "pow10_loop 0 v = v"
| "pow10_loop (Suc n) v = (if v > MaxUint64 div 10 then 0 else pow10_loop n (v * 10))"

definition pow10Uint :: "u8 \<Rightarrow> u64" where
  "pow10Uint pw = pow10_loop (unat pw) 1"

definition pow10Big :: "u8 \<Rightarrow> int" where
  "pow10Big pw = 10 ^ unat pw"

definition normalizeToMicros :: "u64 \<Rightarrow> u8 \<Rightarrow> u64 option" where
  "normalizeToMicros amount decimals =
     (if decimals = 6 then Some amount
      else if decimals < 6 then
        let multiplier = pow10Uint (6 - decimals) in
        if multiplier = 0 \<or> amount > MaxUint64 div multiplier then None
        else Some (amount * multiplier)
      else
        let divisor = pow10Uint (decimals - 6) in
        if divisor = 0 then None else Some (amount div divisor))"

text \<open>
  \<open>configRatio\<close> reads the shortest decimal text of a float (\<open>FormatFloat\<close> with precision -1) back as
  a rational: the decimal with the fewest significant digits that rounds to the float, the nearest
  one when two have that length. Seventeen digits suffice for a double; a rational that is not a
  double is returned as it is.
\<close>

fun dec_exp :: "nat \<Rightarrow> rat \<Rightarrow> int" where
  "dec_exp 0 v = 0"
| "dec_exp (Suc n) v =
     (if 10 \<le> v then dec_exp n (v / 10) + 1 else if v < 1 then dec_exp n (v * 10) - 1 else 0)"

definition pow10_rat :: "int \<Rightarrow> rat" where
  "pow10_rat e = (if 0 \<le> e then 10 ^ nat e else 1 / 10 ^ nat (- e))"

definition shortest_at :: "rat \<Rightarrow> int \<Rightarrow> nat \<Rightarrow> rat option" where
  "shortest_at v e n =
     (let u = pow10_rat (e - int n + 1);
          lo = of_int \<lfloor>v / u\<rfloor> * u;
          hi = of_int \<lceil>v / u\<rceil> * u;
          lo_ok = f64_of_rat lo = Fin v;
          hi_ok = f64_of_rat hi = Fin v
      in if lo_ok \<and> (\<not> hi_ok \<or> v - lo < hi - v \<or> (v - lo = hi - v \<and> even \<lfloor>v / u\<rfloor>)) then Some lo
         else if hi_ok then Some hi else None)"

fun shortest_from :: "nat \<Rightarrow> nat \<Rightarrow> rat \<Rightarrow> int \<Rightarrow> rat option" where
  "shortest_from 0 n v e = None"
| "shortest_from (Suc k) n v e =
     (case shortest_at v e n of Some d \<Rightarrow> Some d | None \<Rightarrow> shortest_from k (Suc n) v e)"

text \<open>\<open>None\<close> is the panic on a value that is not a number.\<close>

definition configRatio :: "f64 \<Rightarrow> rat option" where
  "configRatio x = (case x of
     Fin v \<Rightarrow>
       Some (if v = 0 then 0
             else sgn v * (case shortest_from 17 1 \<bar>v\<bar> (dec_exp 400 \<bar>v\<bar>) of
                             Some d \<Rightarrow> d | None \<Rightarrow> \<bar>v\<bar>))
   | _ \<Rightarrow> None)"

text \<open>\<open>Duration.Seconds\<close> and the truncating conversion to int64.\<close>

definition go_quot :: "int \<Rightarrow> int \<Rightarrow> int" where
  "go_quot a b = sgn a * sgn b * (\<bar>a\<bar> div \<bar>b\<bar>)"

definition Seconds :: "duration \<Rightarrow> f64" where
  "Seconds d =
     (let sec = go_quot d 1000000000; nsec = d - sec * 1000000000 in
      f64_add (f64_of_rat (of_int sec)) (f64_div (f64_of_rat (of_int nsec)) (Fin 1000000000)))"

definition f64_trunc :: "f64 \<Rightarrow> int" where
  "f64_trunc x = (case x of Fin v \<Rightarrow> (if 0 \<le> v then \<lfloor>v\<rfloor> else \<lceil>v\<rceil>) | _ \<Rightarrow> 0)"

section \<open>Observations\<close>

definition find_stablecoin :: "Stablecoin list \<Rightarrow> AssetAmount \<Rightarrow> Stablecoin option" where
  "find_stablecoin coins coin = find (\<lambda>candidate. IsAsset coin (Asset candidate)) coins"

text \<open>The ADA side and the other side of a pool.\<close>

definition ada_sides :: "PoolState \<Rightarrow> (AssetAmount \<times> AssetAmount) option" where
  "ada_sides pool =
     (if amount_IsLovelace (AssetX pool) then Some (AssetX pool, AssetY pool)
      else if amount_IsLovelace (AssetY pool) then Some (AssetY pool, AssetX pool)
      else None)"

definition pool_price :: "u64 \<Rightarrow> u64 \<Rightarrow> u8 \<Rightarrow> rat" where
  "pool_price coin ada decimals =
     of_int (int (unat coin) * pow10Big 6) / of_int (int (unat ada) * pow10Big decimals)"

definition observationFromPool ::
    "PoolState \<Rightarrow> Config \<Rightarrow> time \<Rightarrow> price_error + PoolObservation option" where
  "observationFromPool pool config now =
     (case ada_sides pool of
        None \<Rightarrow> Inr None
      | Some (ada, coin) \<Rightarrow>
          (case find_stablecoin (Stablecoins config) coin of
             None \<Rightarrow> Inr None
           | Some stablecoin \<Rightarrow>
               if Symbol stablecoin = [] \<or> Amount ada = 0 \<or> Amount coin = 0
                  \<or> Amount ada < MinADAReserve config
               then Inr None
               else case normalizeToMicros (Amount coin) (Decimals stablecoin) of
                 None \<Rightarrow> Inr None
               | Some stableMicros \<Rightarrow>
                   if stableMicros < MinStableUSD config then Inr None
                   else
                     let price = pool_price (Amount coin) (Amount ada) (Decimals stablecoin)
                     in case finiteFloat64 price of
                       None \<Rightarrow> Inl ErrNonFinitePrice
                     | Some priceFloat \<Rightarrow> Inr (Some
                         \<lparr>po_PoolID = PoolId pool, po_Protocol = Protocol pool,
                          po_Stablecoin = Symbol stablecoin, po_ADAReserve = Amount ada,
                          po_StableReserve = Amount coin, po_StableMicros = stableMicros,
                          po_PriceNum = show_int (fst (quotient_of price)),
                          po_PriceDen = show_int (snd (quotient_of price)),
                          po_Price = priceFloat, po_Slot = Slot pool, po_BlockHash = BlockHash pool,
                          po_TxHash = TxHash pool, po_TxIndex = TxIndex pool,
                          po_ObservedAt = Timestamp pool,
                          po_AgeSeconds = (if Timestamp pool = 0 then None
                             else Some (f64_trunc (Seconds (time_sub now (Timestamp pool))))),
                          po_Validation = ''qualified'', po_StableVolumeMicros = 0,
                          po_SwapCount = 0, po_ActivitySlots = 0, po_price = Some price\<rparr>)))"

definition newer_pool :: "PoolState \<Rightarrow> PoolState \<Rightarrow> bool" where
  "newer_pool pool current =
     (Slot pool > Slot current
      \<or> (Slot pool = Slot current \<and> TxIndex pool > TxIndex current)
      \<or> (Slot pool = Slot current \<and> TxIndex pool = TxIndex current \<and> TxHash pool > TxHash current))"

definition obs_key :: "PoolState \<Rightarrow> string" where
  "obs_key pool = Protocol pool @ '':'' @ PoolId pool"

fun latest_pools ::
    "bool \<Rightarrow> PoolState option list \<Rightarrow> (string, PoolState) gomap \<Rightarrow> (string, PoolState) gomap" where
  "latest_pools inc [] m = m"
| "latest_pools inc (p # ps) m =
     (case p of
        None \<Rightarrow> latest_pools inc ps m
      | Some pool \<Rightarrow>
          if \<not> inc \<and> FromMempool pool then latest_pools inc ps m
          else case map_of m (obs_key pool) of
            None \<Rightarrow> latest_pools inc ps (AList.update (obs_key pool) pool m)
          | Some current \<Rightarrow>
              if newer_pool pool current
              then latest_pools inc ps (AList.update (obs_key pool) pool m)
              else latest_pools inc ps m)"

fun collect_observations ::
    "PoolState list \<Rightarrow> Config \<Rightarrow> time \<Rightarrow> price_error + PoolObservation list" where
  "collect_observations [] config now = Inr []"
| "collect_observations (p # ps) config now =
     (case observationFromPool p config now of
        Inl e \<Rightarrow> Inl e
      | Inr r \<Rightarrow>
          (case collect_observations ps config now of
             Inl e \<Rightarrow> Inl e
           | Inr os \<Rightarrow> Inr (case r of None \<Rightarrow> os | Some ob \<Rightarrow> ob # os)))"

definition observation_less :: "PoolObservation \<Rightarrow> PoolObservation \<Rightarrow> bool" where
  "observation_less a b =
     (if po_Stablecoin a \<noteq> po_Stablecoin b then po_Stablecoin a < po_Stablecoin b
      else if po_Protocol a \<noteq> po_Protocol b then po_Protocol a < po_Protocol b
      else po_PoolID a < po_PoolID b)"

text \<open>The second half of \<open>observationsFromPools\<close>, over the latest states in the order of the map.\<close>

definition observations_of :: "PoolState list \<Rightarrow> Config \<Rightarrow> time \<Rightarrow> price_error + PoolObservation list" where
  "observations_of latest config now =
     map_sum (\<lambda>e. e) (sort_by observation_less) (collect_observations latest config now)"

definition observationsFromPools ::
    "PoolState option list \<Rightarrow> Config \<Rightarrow> time \<Rightarrow> price_error + PoolObservation list" where
  "observationsFromPools pools config now =
     observations_of (map snd (latest_pools (IncludeMempool config) pools [])) config now"

section \<open>The weighted median\<close>

fun total_weight :: "PoolObservation list \<Rightarrow> u64 \<Rightarrow> u64 option" where
  "total_weight [] w = Some w"
| "total_weight (x # xs) w =
     (if MaxUint64 - w < po_StableMicros x then None else total_weight xs (w + po_StableMicros x))"

fun next_weighted :: "PoolObservation list \<Rightarrow> PoolObservation option" where
  "next_weighted [] = None"
| "next_weighted (x # xs) = (if po_StableMicros x = 0 then next_weighted xs else Some x)"

primrec median_loop :: "PoolObservation list \<Rightarrow> u64 \<Rightarrow> u64 \<Rightarrow> rat option" where
  "median_loop [] cumulative tot = None"
| "median_loop (x # xs) cumulative tot =
     (if po_StableMicros x = 0 then median_loop xs cumulative tot
      else
        let cumulative' = cumulative + po_StableMicros x; remaining = tot - cumulative' in
        if cumulative' > remaining then po_price x
        else if cumulative' = remaining then
          (case next_weighted xs of
             Some y \<Rightarrow> Some ((the (po_price x) + the (po_price y)) / 2)
           | None \<Rightarrow> median_loop xs cumulative' tot)
        else median_loop xs cumulative' tot)"

definition price_positive :: "PoolObservation \<Rightarrow> bool" where
  "price_positive x = (case po_price x of None \<Rightarrow> False | Some p \<Rightarrow> \<not> p \<le> 0)"

definition liquidityWeightedMedian :: "PoolObservation list \<Rightarrow> price_error + (rat \<times> u64)" where
  "liquidityWeightedMedian observations =
     (if \<not> list_all price_positive observations then Inl InvalidObservationPrice
      else
        let ordered = sort_by (\<lambda>a b. the (po_price a) < the (po_price b)) observations in
        case total_weight ordered 0 of
          None \<Rightarrow> Inl AggregateLiquidityOverflow
        | Some totalWeight \<Rightarrow>
            if totalWeight = 0 then Inl ErrInsufficientObservations
            else case median_loop ordered 0 totalWeight of
              None \<Rightarrow> Inl ErrInsufficientObservations
            | Some m \<Rightarrow> Inr (m, totalWeight))"

section \<open>Aggregation\<close>

definition validateConfig :: "Config \<Rightarrow> price_error option" where
  "validateConfig config =
     (if Stablecoins config = [] then Some NoStablecoinsConfigured
      else if MinObservations config < 1 \<or> MinStablecoins config < 1 then Some MinimumCountsNotPositive
      else if \<not> f64_isfinite (MaxPoolShare config) \<or> \<not> f64_less (Fin 0) (MaxPoolShare config)
          \<or> f64_less (Fin 1) (MaxPoolShare config)
      then Some PoolShareOutOfRange
      else if \<not> f64_isfinite (MaxDivergence config) \<or> f64_less (MaxDivergence config) (Fin 0)
      then Some NegativeDivergence
      else None)"

definition pool_share :: "PoolObservation \<Rightarrow> u64 \<Rightarrow> rat" where
  "pool_share x tot = of_int (int (unat (po_StableMicros x))) / of_int (int (unat tot))"

fun min_max_loop :: "PoolObservation list \<Rightarrow> rat \<Rightarrow> rat \<Rightarrow> rat \<times> rat" where
  "min_max_loop [] lo hi = (lo, hi)"
| "min_max_loop (x # xs) lo hi =
     (let p = the (po_price x); lo' = (if p < lo then p else lo); hi' = (if p > hi then p else hi)
      in min_max_loop xs lo' hi')"

text \<open>The oldest time among the observations that carry one, with its age.\<close>

fun oldest_loop :: "PoolObservation list \<Rightarrow> time \<Rightarrow> int option \<Rightarrow> time \<times> int option" where
  "oldest_loop [] tm age = (tm, age)"
| "oldest_loop (x # xs) tm age =
     (if po_ObservedAt x = 0 then oldest_loop xs tm age
      else if tm = 0 \<or> po_ObservedAt x < tm then oldest_loop xs (po_ObservedAt x) (po_AgeSeconds x)
      else oldest_loop xs tm age)"

definition AggregateADAUSDAt ::
    "PoolState option list \<Rightarrow> Config \<Rightarrow> time \<Rightarrow> Result \<times> price_error option" where
  "AggregateADAUSDAt pools config now =
     (case validateConfig config of
        Some e \<Rightarrow> (zero_Result, Some e)
      | None \<Rightarrow>
     (case observationsFromPools pools config now of
        Inl e \<Rightarrow> (zero_Result, Some e)
      | Inr obs \<Rightarrow>
     (let result = zero_Result\<lparr>r_Pair := ''ADA/USD'', r_Source := ''local-dex-stablecoins'',
            r_Method := ''local-dex-liquidity-weighted-median'', r_Validation := ''unavailable'',
            r_Observations := obs\<rparr>
      in if int (length obs) < MinObservations config then (result, Some ErrInsufficientObservations)
      else if int (card (po_Stablecoin ` set obs)) < MinStablecoins config
      then (result, Some ErrInsufficientDiversity)
      else case liquidityWeightedMedian obs of
        Inl e \<Rightarrow> (result, Some e)
      | Inr (medianPrice, totalWeight) \<Rightarrow>
          if list_ex (\<lambda>x. pool_share x totalWeight > the (configRatio (MaxPoolShare config))) obs
          then (result, Some ErrConcentratedLiquidity)
          else
            let (minPrice, maxPrice) = min_max_loop obs (the (po_price (hd obs))) (the (po_price (hd obs)));
                spread = (maxPrice - minPrice) / minPrice
            in case finiteFloat64 spread of
              None \<Rightarrow> (result, Some ErrNonFinitePrice)
            | Some spreadFloat \<Rightarrow>
                let result1 = result\<lparr>r_Spread := spreadFloat\<rparr> in
                if spread > the (configRatio (MaxDivergence config))
                then (result1, Some ErrDivergentPrices)
                else
                  let result2 = result1\<lparr>r_price := Some medianPrice,
                        r_PriceNum := show_int (fst (quotient_of medianPrice)),
                        r_PriceDen := show_int (snd (quotient_of medianPrice))\<rparr>
                  in case finiteFloat64 medianPrice of
                    None \<Rightarrow> (result2, Some ErrNonFinitePrice)
                  | Some priceFloat \<Rightarrow>
                      let (observedAt, age) = oldest_loop obs 0 None in
                      (result2\<lparr>r_Price := priceFloat, r_Validation := ''qualified'',
                         r_ObservedAt := observedAt, r_AgeSeconds := age\<rparr>, None))))"

section \<open>Aggregation with activity\<close>

definition stableVolumeMicros :: "PoolState \<Rightarrow> PoolVolume \<Rightarrow> Config \<Rightarrow> price_error + u64" where
  "stableVolumeMicros pool volume config =
     (if PoolVolume_Key volume \<noteq> Key pool \<or> pv_WindowSlots volume = 0
         \<or> pv_WindowEnd volume < Slot pool
         \<or> \<not> IsAsset (AssetX pool) (pv_AssetX volume) \<or> \<not> IsAsset (AssetY pool) (pv_AssetY volume)
      then Inl ErrInvalidPoolActivity
      else
        let side = (if amount_IsLovelace (AssetX pool) then Some (AssetY pool, pv_VolumeY volume)
                    else if amount_IsLovelace (AssetY pool) then Some (AssetX pool, pv_VolumeX volume)
                    else None)
        in case side of
          None \<Rightarrow> Inl ErrInvalidPoolActivity
        | Some (coin, amount) \<Rightarrow>
            (case find_stablecoin (Stablecoins config) coin of
               None \<Rightarrow> Inl ErrInvalidPoolActivity
             | Some candidate \<Rightarrow>
                 (case normalizeToMicros amount (Decimals candidate) of
                    None \<Rightarrow> Inl ErrInvalidPoolActivity
                  | Some normalized \<Rightarrow> Inr normalized)))"

fun activity_index ::
    "PoolVolume list \<Rightarrow> (string, PoolVolume) gomap \<Rightarrow> price_error + (string, PoolVolume) gomap" where
  "activity_index [] m = Inr m"
| "activity_index (v # vs) m =
     (if pv_PoolID v = [] \<or> pv_Network v = [] \<or> pv_Protocol v = [] then Inl ErrInvalidPoolActivity
      else if map_of m (PoolVolume_Key v) \<noteq> None then Inl ErrInvalidPoolActivity
      else activity_index vs (AList.update (PoolVolume_Key v) v m))"

fun qualify_pools ::
    "PoolState option list \<Rightarrow> (string, PoolVolume) gomap \<Rightarrow> Config \<Rightarrow> ActivityConfig
     \<Rightarrow> price_error + PoolState list" where
  "qualify_pools [] m config ac = Inr []"
| "qualify_pools (p # ps) m config ac =
     (case p of
        None \<Rightarrow> qualify_pools ps m config ac
      | Some pool \<Rightarrow>
          (case map_of m (Key pool) of
             None \<Rightarrow> qualify_pools ps m config ac
           | Some volume \<Rightarrow>
               (case stableVolumeMicros pool volume config of
                  Inl e \<Rightarrow> Inl e
                | Inr stableVolume \<Rightarrow>
                    if stableVolume < MinStableVolume ac \<or> pv_SwapCount volume < MinSwapCount ac
                    then qualify_pools ps m config ac
                    else map_sum (\<lambda>e. e) (\<lambda>q. pool # q) (qualify_pools ps m config ac))))"

text \<open>
  \<open>qualifiedActivity\<close> holds the volume found under a qualified pool's key, which is the entry of
  the activity index under that key.
\<close>

definition annotate ::
    "PoolState list \<Rightarrow> (string, PoolVolume) gomap \<Rightarrow> Config \<Rightarrow> PoolObservation
     \<Rightarrow> price_error + PoolObservation" where
  "annotate qualified m config x =
     (case find (\<lambda>pool. \<not> (PoolId pool \<noteq> po_PoolID x \<or> Protocol pool \<noteq> po_Protocol x)) qualified of
        None \<Rightarrow> Inr x
      | Some pool \<Rightarrow>
          (let volume = the (map_of m (Key pool)) in
           map_sum (\<lambda>e. e) (\<lambda>v. x\<lparr>po_StableVolumeMicros := v, po_SwapCount := pv_SwapCount volume,
                             po_ActivitySlots := pv_WindowSlots volume\<rparr>)
             (stableVolumeMicros pool volume config)))"

fun annotate_all ::
    "PoolState list \<Rightarrow> (string, PoolVolume) gomap \<Rightarrow> Config \<Rightarrow> PoolObservation list
     \<Rightarrow> price_error + PoolObservation list" where
  "annotate_all qualified m config [] = Inr []"
| "annotate_all qualified m config (x # xs) =
     (case annotate qualified m config x of
        Inl e \<Rightarrow> Inl e
      | Inr y \<Rightarrow> map_sum (\<lambda>e. e) (\<lambda>ys. y # ys) (annotate_all qualified m config xs))"

definition AggregateADAUSDWithActivityAt ::
    "PoolState option list \<Rightarrow> PoolVolume list \<Rightarrow> Config \<Rightarrow> ActivityConfig \<Rightarrow> time
     \<Rightarrow> Result \<times> price_error option" where
  "AggregateADAUSDWithActivityAt pools volumes config ac now =
     (if MinSwapCount ac = 0 \<or> MinStableVolume ac = 0 then (zero_Result, Some ErrInvalidActivityConfig)
      else case activity_index volumes [] of
        Inl e \<Rightarrow> (zero_Result, Some e)
      | Inr m \<Rightarrow>
          (case qualify_pools pools m config ac of
             Inl e \<Rightarrow> (zero_Result, Some e)
           | Inr qualified \<Rightarrow>
               (let (result, err) = AggregateADAUSDAt (map Some qualified) config now in
                case annotate_all qualified m config (r_Observations result) of
                  Inl e \<Rightarrow> (zero_Result, Some e)
                | Inr obs \<Rightarrow> (result\<lparr>r_Observations := obs\<rparr>, err))))"

section \<open>Powers of ten and normalisation\<close>

lemma pow10_loop_spec:
  "0 < unat v \<Longrightarrow> unat (pow10_loop n v) = (if unat v * 10 ^ n < 2 ^ 64 then unat v * 10 ^ n else 0)"
proof (induction n arbitrary: v)
  case 0
  then show ?case using unat_u64_bound [of v] by simp
next
  case (Suc n)
  have ten: "v > MaxUint64 div 10 \<longleftrightarrow> 2 ^ 64 \<le> unat v * 10"
    by (simp add: word_less_nat_alt unat_div unat_MaxUint64)  linarith
  show ?case
  proof (cases "2 ^ 64 \<le> unat v * 10")
    case True
    moreover have "unat v * 10 * 1 \<le> unat v * 10 * 10 ^ n"
      by (intro mult_left_mono) simp_all
    ultimately have "2 ^ 64 \<le> unat v * 10 * 10 ^ n" by linarith
    with True show ?thesis by (simp add: ten mult.assoc)
  next
    case False
    then have m: "unat (v * 10) = unat v * 10"
      by (simp add: unat_word_ariths)
    with False Suc show ?thesis
      by (simp add: ten mult.assoc)
  qed
qed

lemma pow10Uint_spec: "unat (pow10Uint p) = (if (10 :: nat) ^ unat p < 2 ^ 64 then 10 ^ unat p else 0)"
  using pow10_loop_spec [of 1 "unat p"] by (simp add: pow10Uint_def)

lemma pow10_fits: "(10 :: nat) ^ k < 2 ^ 64 \<longleftrightarrow> k \<le> 19"
proof
  show "k \<le> 19" if "(10 :: nat) ^ k < 2 ^ 64"
  proof (rule ccontr)
    assume "\<not> k \<le> 19"
    then have "(10 :: nat) ^ 20 \<le> 10 ^ k" by (intro power_increasing) simp_all
    with that show False by simp
  qed
  show "(10 :: nat) ^ k < 2 ^ 64" if "k \<le> 19"
  proof -
    have "(10 :: nat) ^ k \<le> 10 ^ 19" using that by (intro power_increasing) simp_all
    then show ?thesis by simp
  qed
qed

lemma u64_mul_fits: "m \<noteq> 0 \<Longrightarrow> a > MaxUint64 div m \<longleftrightarrow> 2 ^ 64 \<le> unat a * unat m" for a m :: u64
proof -
  assume "m \<noteq> 0"
  then have "0 < unat m" by (simp add: unat_gt_0)
  then have "(2 ^ 64 - 1) div unat m < unat a \<longleftrightarrow> 2 ^ 64 - 1 < unat a * unat m"
    by (rule div_less_iff_less_mult)
  then show ?thesis
    by (simp add: word_less_nat_alt unat_div unat_MaxUint64) linarith
qed

lemma unat_u8_literal [simp]: "unat (6 :: u8) = 6"
  by simp

lemma normalizeToMicros_eq:
  "normalizeToMicros a d =
     (let n = unat a * 10 ^ 6 div 10 ^ unat d in
      if unat d \<le> 25 \<and> n < 2 ^ 64 then Some (word_of_nat n) else None)"
proof -
  consider "d = 6" | "d < 6" | "6 < d" by (rule linorder_cases [of d 6])
  then show ?thesis
  proof cases
    case 1
    then show ?thesis
      using unat_u64_bound [of a] by (simp add: normalizeToMicros_def Let_def)
  next
    case 2
    then have lt: "unat d < 6" by (simp add: word_less_nat_alt)
    have k: "unat (6 - d) = 6 - unat d" using 2 by (simp add: unat_sub less_imp_le)
    have "(10 :: nat) ^ 6 = 10 ^ (6 - unat d) * 10 ^ unat d"
      using lt by (simp only: power_add [symmetric]) simp
    then have e: "unat a * 10 ^ 6 div 10 ^ unat d = unat a * 10 ^ (6 - unat d)"
      by (simp only: mult.assoc [symmetric]) simp
    have m: "unat (pow10Uint (6 - d)) = 10 ^ (6 - unat d)"
      using lt pow10_fits [of "6 - unat d"] by (simp add: pow10Uint_spec k)
    then have m0: "pow10Uint (6 - d) \<noteq> 0" by (metis power_not_zero unat_0 zero_neq_numeral)
    have "a * pow10Uint (6 - d) = word_of_nat (unat a * 10 ^ (6 - unat d))"
      by (simp add: m [symmetric])
    then show ?thesis
      unfolding normalizeToMicros_def Let_def e
      using 2 lt m0 by (auto simp: u64_mul_fits m not_less)
  next
    case 3
    then have gt: "6 < unat d" by (simp add: word_less_nat_alt)
    have k: "unat (d - 6) = unat d - 6" using 3 by (simp add: unat_sub less_imp_le)
    have "(10 :: nat) ^ unat d = 10 ^ (unat d - 6) * 10 ^ 6"
      using gt by (simp only: power_add [symmetric]) simp
    then have e: "unat a * 10 ^ 6 div 10 ^ unat d = unat a div 10 ^ (unat d - 6)"
      by (metis div_mult_mult2 power_not_zero zero_neq_numeral)
    have p: "unat (pow10Uint (d - 6)) = (if unat d \<le> 25 then 10 ^ (unat d - 6) else 0)"
      unfolding pow10Uint_spec k pow10_fits using gt by auto
    have z: "pow10Uint (d - 6) = 0 \<longleftrightarrow> \<not> unat d \<le> 25"
      unfolding unat_eq_zero [symmetric] p by simp
    have "unat a div 10 ^ (unat d - 6) < 2 ^ 64"
      using unat_u64_bound [of a] by (meson div_le_dividend le_less_trans)
    moreover have "unat d \<le> 25 \<Longrightarrow> a div pow10Uint (d - 6) = word_of_nat (unat a div 10 ^ (unat d - 6))"
      by (simp add: p word_arith_nat_div)
    ultimately show ?thesis
      unfolding normalizeToMicros_def Let_def e using 3 z by auto
  qed
qed

section \<open>Prices are finite\<close>

lemma pow10Big_pos: "0 < pow10Big d"
  by (simp add: pow10Big_def)

text \<open>The price of a pool with non-zero ADA is below \<open>2 ^ 84\<close>, so its float is finite.\<close>

lemma pool_price_bounds:
  assumes "ada \<noteq> 0"
  shows "0 \<le> pool_price coin ada d" and "pool_price coin ada d < 2 ^ 84"
proof -
  let ?n = "int (unat coin) * pow10Big 6" and ?d = "int (unat ada) * pow10Big d"
  have "0 < int (unat ada)"
    using assms by (simp only: of_nat_0_less_iff unat_gt_0 not_False_eq_True)
  then have "0 < ?d" by (rule mult_pos_pos [OF _ pow10Big_pos])
  then have d: "1 \<le> ?d" by linarith
  have "int (unat coin) * 10 ^ 6 < 2 ^ 64 * 10 ^ 6"
    using int_unat_u64_bound [of coin] by (intro mult_strict_right_mono) simp_all
  then have n: "0 \<le> ?n" "?n < 2 ^ 64 * 10 ^ 6" by (simp_all add: pow10Big_def)
  have "(of_int ?n :: rat) / of_int ?d \<le> of_int ?n / 1"
  proof (rule divide_left_mono)
    show "(1 :: rat) \<le> of_int ?d" using d by (simp only: of_int_1_le_iff)
    show "(0 :: rat) \<le> of_int ?n" using n(1) by (simp only: of_int_0_le_iff)
  qed (use d in \<open>simp only: mult_1_right of_int_0_less_iff\<close>)
  also have "\<dots> < of_int (2 ^ 64 * 10 ^ 6)"
    using n(2) by (simp only: div_by_1 of_int_less_iff)
  finally show "pool_price coin ada d < 2 ^ 84"
    by (simp only: pool_price_def) simp
  show "0 \<le> pool_price coin ada d"
    unfolding pool_price_def
  proof (rule divide_nonneg_nonneg)
    show "(0 :: rat) \<le> of_int ?n" using n(1) by (simp only: of_int_0_le_iff)
    show "(0 :: rat) \<le> of_int ?d" using \<open>0 < ?d\<close> by (simp only: of_int_0_le_iff)
  qed
qed

lemma pool_price_finite: "ada \<noteq> 0 \<Longrightarrow> finiteFloat64 (pool_price coin ada d) \<noteq> None"
proof -
  assume "ada \<noteq> 0"
  from pool_price_bounds [OF this, of coin d] have "\<bar>pool_price coin ada d\<bar> < 2 ^ 1023" by simp
  then show ?thesis by (simp add: finiteFloat64_some)
qed

lemma pool_price_not_None: "finiteFloat64 (pool_price coin ada d) = None \<Longrightarrow> ada = 0"
  using pool_price_finite by metis

lemma observationFromPool_total: "\<exists>r. observationFromPool pool config now = Inr r"
  by (auto simp: observationFromPool_def Let_def split: option.splits dest: pool_price_not_None)

lemma collect_total: "\<exists>os. collect_observations ps config now = Inr os"
proof (induction ps)
  case (Cons p ps)
  then show ?case
    using observationFromPool_total [of p config now] by auto
qed simp

section \<open>The weighted median\<close>

definition weight :: "PoolObservation list \<Rightarrow> nat" where
  "weight xs = sum_list (map (\<lambda>x. unat (po_StableMicros x)) xs)"

definition priceOf :: "PoolObservation \<Rightarrow> rat" where
  "priceOf x = the (po_price x)"

lemma weight_simps [simp]:
  "weight [] = 0" "weight (x # xs) = unat (po_StableMicros x) + weight xs"
  "weight (xs @ ys) = weight xs + weight ys"
  by (simp_all add: weight_def)

lemma weight_filter_le: "weight (filter p xs) \<le> weight xs"
  by (induction xs) auto

lemma weight_mset: "mset xs = mset ys \<Longrightarrow> weight xs = weight ys"
  unfolding weight_def by (metis mset_map sum_mset_sum_list)

lemma weight_filter_mset: "mset xs = mset ys \<Longrightarrow> weight (filter p xs) = weight (filter p ys)"
  by (rule weight_mset) (simp add: mset_filter)

lemma total_weight_spec:
  "total_weight xs w = (if unat w + weight xs < 2 ^ 64 then Some (w + word_of_nat (weight xs)) else None)"
proof (induction xs arbitrary: w)
  case Nil
  then show ?case using unat_u64_bound [of w] by simp
next
  case (Cons x xs)
  show ?case
  proof (cases "2 ^ 64 \<le> unat w + unat (po_StableMicros x)")
    case True
    then show ?thesis by (simp add: max_u64_sub_less)
  next
    case False
    then have "unat (w + po_StableMicros x) = unat w + unat (po_StableMicros x)"
      by (simp add: unat_u64_add)
    with False Cons show ?thesis by (simp add: max_u64_sub_less add.assoc)
  qed
qed

text \<open>What the median splits: at most half of the weight lies strictly on either side.\<close>

definition is_weighted_median :: "PoolObservation list \<Rightarrow> rat \<Rightarrow> bool" where
  "is_weighted_median xs m =
     (2 * weight (filter (\<lambda>x. priceOf x < m) xs) \<le> weight xs
      \<and> 2 * weight (filter (\<lambda>x. m < priceOf x) xs) \<le> weight xs)"

lemma next_weighted_split:
  assumes "next_weighted xs = Some y"
  obtains zs ys where "xs = zs @ y # ys" "weight zs = 0" "po_StableMicros y \<noteq> 0"
  using assms
proof (induction xs arbitrary: thesis)
  case (Cons x xs)
  show ?case
  proof (cases "po_StableMicros x = 0")
    case True
    with Cons.prems(2) obtain zs ys where "xs = zs @ y # ys" "weight zs = 0" "po_StableMicros y \<noteq> 0"
      using Cons.IH by auto
    with True show ?thesis by (intro Cons.prems(1) [of "x # zs" ys]) simp_all
  next
    case False
    with Cons.prems show ?thesis by (intro Cons.prems(1) [of "[]" xs]) simp_all
  qed
qed simp

lemma next_weighted_None: "next_weighted xs = None \<Longrightarrow> weight xs = 0"
  by (induction xs) (auto split: if_splits)

lemma weight_zero_filter: "weight xs = 0 \<Longrightarrow> weight (filter p xs) = 0"
  using weight_filter_le [of p xs] by simp

lemma median_single:
  assumes "sorted (map priceOf (pre @ x # suf))"
    and "2 * weight pre \<le> weight (pre @ x # suf)" and "2 * weight suf \<le> weight (pre @ x # suf)"
  shows "is_weighted_median (pre @ x # suf) (priceOf x)"
proof -
  have "\<forall>y \<in> set suf. \<not> priceOf y < priceOf x" "\<forall>y \<in> set pre. \<not> priceOf x < priceOf y"
    using assms(1) by (auto simp: sorted_append not_less)
  then have "filter (\<lambda>y. priceOf y < priceOf x) (pre @ x # suf) = filter (\<lambda>y. priceOf y < priceOf x) pre"
    "filter (\<lambda>y. priceOf x < priceOf y) (pre @ x # suf) = filter (\<lambda>y. priceOf x < priceOf y) suf"
    by (simp_all add: filter_empty_conv)
  then show ?thesis
    unfolding is_weighted_median_def
    using assms(2,3) weight_filter_le [of _ pre] weight_filter_le [of _ suf]
    by (metis (no_types, lifting) dual_order.trans mult_le_mono2)
qed

lemma median_between:
  assumes "sorted (map priceOf (pre @ suf))" and "2 * weight pre = weight (pre @ suf)"
    and "\<And>z. z \<in> set pre \<Longrightarrow> priceOf z \<le> m" and "\<And>z. z \<in> set suf \<Longrightarrow> po_StableMicros z \<noteq> 0 \<Longrightarrow> m \<le> priceOf z"
  shows "is_weighted_median (pre @ suf) m"
proof -
  have "weight (filter (\<lambda>y. priceOf y < m) suf) = 0"
    using assms(4) by (induction suf) (auto simp: not_less [symmetric])
  moreover have "filter (\<lambda>y. m < priceOf y) pre = []"
    using assms(3) by (auto simp: filter_empty_conv not_less)
  ultimately show ?thesis
    using assms(2) weight_filter_le [of "\<lambda>y. priceOf y < m" pre] weight_filter_le [of "\<lambda>y. m < priceOf y" suf]
    by (simp add: is_weighted_median_def)
qed

text \<open>A median taken from the list: it splits the weight and lies between two of the prices.\<close>

definition median_of :: "PoolObservation list \<Rightarrow> rat \<Rightarrow> bool" where
  "median_of xs m = (is_weighted_median xs m
     \<and> (\<exists>a \<in> set xs. priceOf a \<le> m) \<and> (\<exists>b \<in> set xs. m \<le> priceOf b))"

lemma median_tie:
  assumes "sorted (map priceOf (pre @ x # xs))" and "next_weighted xs = Some y"
    and "2 * weight (pre @ [x]) = weight (pre @ x # xs)"
  shows "median_of (pre @ x # xs) ((priceOf x + priceOf y) / 2)"
proof -
  let ?m = "(priceOf x + priceOf y) / 2"
  obtain zs ys where xs: "xs = zs @ y # ys" and zs: "weight zs = 0"
    by (rule next_weighted_split [OF assms(2)]) blast
  have le: "priceOf x \<le> priceOf y" and ys: "\<forall>z \<in> set ys. priceOf y \<le> priceOf z"
    and pre: "\<forall>z \<in> set pre. priceOf z \<le> priceOf x"
    using assms(1) by (auto simp: xs sorted_append)
  have m: "priceOf x \<le> ?m" "?m \<le> priceOf y" using le by simp_all
  have "po_StableMicros z = 0" if "z \<in> set zs" for z
    using zs that by (induction zs) auto
  then have "?m \<le> priceOf z" if "z \<in> set xs" "po_StableMicros z \<noteq> 0" for z
    using that m(2) ys by (auto simp: xs intro: order_trans)
  moreover have "priceOf z \<le> ?m" if "z \<in> set (pre @ [x])" for z
    using that pre m(1) by (auto intro: order_trans)
  ultimately have "is_weighted_median ((pre @ [x]) @ xs) ?m"
    using assms(1,3) by (intro median_between) simp_all
  moreover have "y \<in> set (pre @ x # xs)" by (simp add: xs)
  moreover have "x \<in> set (pre @ x # xs)" by simp
  ultimately show ?thesis
    unfolding median_of_def using m by (metis append.assoc append_Cons append_Nil)
qed

lemma median_loop_correct:
  assumes "unat cum = weight pre" and "unat tot = weight (pre @ xs)" and "2 * weight pre < weight (pre @ xs)"
    and "sorted (map priceOf (pre @ xs))" and "list_all price_positive xs"
  shows "\<exists>m. median_loop xs cum tot = Some m \<and> median_of (pre @ xs) m"
  using assms
proof (induction xs arbitrary: cum pre)
  case Nil
  then show ?case by simp
next
  case (Cons x xs)
  have xs_ok: "list_all price_positive xs" and "price_positive x"
    using Cons.prems(5) by simp_all
  then have px: "po_price x = Some (priceOf x)"
    by (auto simp: price_positive_def priceOf_def split: option.splits)
  show ?case
  proof (cases "po_StableMicros x = 0")
    case True
    with Cons.IH [of cum "pre @ [x]"] Cons.prems xs_ok show ?thesis by simp
  next
    case False
    let ?c = "cum + po_StableMicros x"
    have c: "unat ?c = weight (pre @ [x])"
      using Cons.prems(1,2) unat_u64_bound [of tot] by (subst unat_u64_add) simp_all
    have r: "unat (tot - ?c) = weight xs"
      using c Cons.prems(2) by (subst unat_u64_sub) (simp_all add: word_le_nat_alt)
    consider (over) "weight xs < weight (pre @ [x])" | (tie) "weight xs = weight (pre @ [x])"
      | (below) "weight (pre @ [x]) < weight xs" by linarith
    then show ?thesis
    proof cases
      case over
      then have "median_loop (x # xs) cum tot = Some (priceOf x)"
        using False px by (simp add: Let_def word_less_nat_alt c r del: weight_simps(3))
      moreover have "is_weighted_median (pre @ x # xs) (priceOf x)"
        using Cons.prems(3,4) over by (intro median_single) simp_all
      ultimately show ?thesis by (auto simp: median_of_def)
    next
      case tie
      have "weight xs \<noteq> 0"
        using tie False by simp
      then obtain y where y: "next_weighted xs = Some y"
        using next_weighted_None by (cases "next_weighted xs") auto
      define rest where "rest = tot - ?c"
      have eq: "?c = rest"
        using c r tie by (metis rest_def word_unat_eq_iff)
      have half: "tot - rest = rest"
        using rest_def unfolding eq by simp
      have "median_loop (x # xs) cum tot = Some ((priceOf x + priceOf y) / 2)"
        using False y by (simp add: Let_def priceOf_def eq half)
      moreover have "median_of (pre @ x # xs) ((priceOf x + priceOf y) / 2)"
        using tie by (intro median_tie [OF Cons.prems(4) y]) simp
      ultimately show ?thesis by blast
    next
      case below
      then have "?c < tot - ?c" by (simp add: word_less_nat_alt c r del: weight_simps(3))
      then have "median_loop (x # xs) cum tot = median_loop xs ?c tot"
        using False by (auto simp: Let_def)
      then show ?thesis
        using Cons.IH [of ?c "pre @ [x]"] Cons.prems below c xs_ok by simp
    qed
  qed
qed

lemma median_of_mset:
  assumes "mset xs = mset ys" and "median_of xs m"
  shows "median_of ys m"
  using assms mset_eq_setD [OF assms(1)]
    weight_mset [OF assms(1)] weight_filter_mset [OF assms(1)]
  by (simp add: median_of_def is_weighted_median_def)

lemma liquidityWeightedMedian_correct:
  assumes "list_all price_positive xs" and "0 < weight xs" and "weight xs < 2 ^ 64"
  shows "\<exists>m. liquidityWeightedMedian xs = Inr (m, word_of_nat (weight xs)) \<and> median_of xs m"
proof -
  let ?s = "sort_by (\<lambda>a b. the (po_price a) < the (po_price b)) xs"
  have sort: "?s = sort_key priceOf xs"
    by (rule sort_by_eq_sort_key) (simp add: priceOf_def)
  have w: "weight ?s = weight xs" by (rule weight_mset) simp
  have tot: "unat (word_of_nat (weight xs) :: u64) = weight xs" using assms(3) by simp
  then have nz: "(word_of_nat (weight xs) :: u64) \<noteq> 0" using assms(2) by fastforce
  have "list_all price_positive ?s" using assms(1) by (simp add: list_all_iff)
  then obtain m where m: "median_loop ?s 0 (word_of_nat (weight xs)) = Some m" "median_of ?s m"
    using median_loop_correct [of 0 "[]" "word_of_nat (weight xs)" ?s] assms(2) tot w
    by (auto simp: sort)
  moreover have "median_of xs m"
    by (rule median_of_mset [OF _ m(2)]) simp
  ultimately show ?thesis
    using assms nz by (simp add: liquidityWeightedMedian_def total_weight_spec w)
qed

lemma liquidityWeightedMedian_errors:
  "(\<exists>r. liquidityWeightedMedian xs = Inr r) \<longleftrightarrow>
     list_all price_positive xs \<and> 0 < weight xs \<and> weight xs < 2 ^ 64"
proof (cases "list_all price_positive xs \<and> weight xs < 2 ^ 64")
  case True
  show ?thesis
  proof (cases "weight xs = 0")
    case zero: True
    have "weight (sort_by (\<lambda>a b. the (po_price a) < the (po_price b)) xs) = 0"
      using zero by (metis mset_sort_by weight_mset)
    with True zero show ?thesis
      by (simp add: liquidityWeightedMedian_def total_weight_spec)
  next
    case False
    with True liquidityWeightedMedian_correct [of xs] show ?thesis by auto
  qed
next
  case False
  have "weight (sort_by (\<lambda>a b. the (po_price a) < the (po_price b)) xs) = weight xs"
    by (rule weight_mset) simp
  with False show ?thesis
    by (auto simp: liquidityWeightedMedian_def total_weight_spec Let_def)
qed

section \<open>The ratios of the configuration\<close>

lemma shortest_from_rounds: "shortest_from k n v e = Some d \<Longrightarrow> f64_of_rat d = Fin v"
  by (induction k arbitrary: n) (auto simp: shortest_at_def Let_def split: option.splits if_splits)

text \<open>The decimal read from a non-negative double rounds to that double.\<close>

lemma configRatio_rounds:
  assumes "0 \<le> v" and "f64_of_rat v = Fin v"
  shows "\<exists>d. configRatio (Fin v) = Some d \<and> f64_of_rat d = Fin v"
  using assms shortest_from_rounds [of 17 1 v "dec_exp 400 v"]
  by (auto simp: configRatio_def sgn_if split: option.splits)

section \<open>Observations\<close>

lemma observationFromPool_SomeD:
  assumes "observationFromPool p config now = Inr (Some x)"
  obtains d where "po_PoolID x = PoolId p" "po_Protocol x = Protocol p"
    "po_price x = Some (pool_price (po_StableReserve x) (po_ADAReserve x) d)"
    "po_ADAReserve x \<noteq> 0" "po_StableReserve x \<noteq> 0" "MinADAReserve config \<le> po_ADAReserve x"
    "normalizeToMicros (po_StableReserve x) d = Some (po_StableMicros x)"
    "MinStableUSD config \<le> po_StableMicros x"
  using assms
  by (auto simp: observationFromPool_def Let_def not_less split: option.splits if_splits)

lemma pool_price_pos:
  assumes "coin \<noteq> 0" and "ada \<noteq> 0"
  shows "0 < pool_price coin ada d"
proof -
  have "0 < int (unat coin) * pow10Big 6" "0 < int (unat ada) * pow10Big d"
    using assms pow10Big_pos
    by (simp_all only: zero_less_mult_iff of_nat_0_less_iff unat_gt_0) simp_all
  then show ?thesis
    unfolding pool_price_def by (intro divide_pos_pos) (simp_all only: of_int_0_less_iff)
qed

lemma pool_price_lower:
  assumes "coin \<noteq> 0" and "ada \<noteq> 0" and "unat d \<le> 25"
  shows "1 / (2 ^ 64 * 10 ^ 19) \<le> pool_price coin ada d"
proof -
  let ?n = "int (unat coin) * pow10Big 6" and ?d = "int (unat ada) * pow10Big d"
  have n: "10 ^ 6 \<le> ?n"
  proof -
    have "0 < unat coin" using assms(1) by (simp add: unat_gt_0)
    then have "1 * 10 ^ 6 \<le> int (unat coin) * 10 ^ 6" by (intro mult_right_mono, linarith, simp)
    then show ?thesis by (simp only: pow10Big_def unat_u8_literal mult_1)
  qed
  have "int (unat ada) \<le> 2 ^ 64"
    using int_unat_u64_bound [of ada] by linarith
  moreover have "pow10Big d \<le> 10 ^ 25"
    unfolding pow10Big_def using assms(3) by (intro power_increasing) simp_all
  ultimately have d: "?d \<le> 2 ^ 64 * 10 ^ 25"
    using pow10Big_pos [of d] by (intro mult_mono) simp_all
  have dpos: "0 < ?d"
    using assms(2) pow10Big_pos [of d] by (simp only: zero_less_mult_iff of_nat_0_less_iff unat_gt_0) simp
  have "(1 :: rat) / (2 ^ 64 * 10 ^ 19) = of_int (10 ^ 6) / of_int (2 ^ 64 * 10 ^ 25)" by simp
  also have "\<dots> \<le> of_int ?n / of_int ?d"
    by (rule frac_le) (simp_all only: of_int_le_iff of_int_0_less_iff of_int_0_le_iff n d dpos, use n in simp)
  finally show ?thesis by (simp only: pool_price_def)
qed

lemma normalize_decimals: "normalizeToMicros a d = Some r \<Longrightarrow> unat d \<le> 25"
  by (auto simp: normalizeToMicros_eq Let_def split: if_splits)

definition pool_observation :: "Config \<Rightarrow> time \<Rightarrow> PoolState \<Rightarrow> PoolObservation option" where
  "pool_observation config now p = (case observationFromPool p config now of Inl _ \<Rightarrow> None | Inr r \<Rightarrow> r)"

lemma pool_observation_eq: "observationFromPool p config now = Inr (pool_observation config now p)"
  using observationFromPool_total [of p config now] by (auto simp: pool_observation_def)

lemma collect_eq: "collect_observations ps config now = Inr (List.map_filter (pool_observation config now) ps)"
  by (induction ps) (simp_all add: pool_observation_eq List.map_filter_simps split: option.splits)

lemma mset_map_filter: "mset ps = mset qs \<Longrightarrow> mset (List.map_filter f ps) = mset (List.map_filter f qs)"
  by (simp add: List.map_filter_def mset_map mset_filter)

lemma set_map_filter: "set (List.map_filter f ps) = {x. \<exists>p \<in> set ps. f p = Some x}"
  by (force simp: List.map_filter_def)

definition observation_key :: "PoolObservation \<Rightarrow> string \<times> string \<times> string" where
  "observation_key x = (po_Stablecoin x, po_Protocol x, po_PoolID x)"

lemma observation_less_key: "observation_less a b \<longleftrightarrow> observation_key a < observation_key b"
  by (auto simp: observation_less_def observation_key_def less_prod_simp)

lemma observations_of_eq:
  "observations_of ps config now = Inr (sort_key observation_key (List.map_filter (pool_observation config now) ps))"
  by (simp add: observations_of_def collect_eq sort_by_eq_sort_key [OF observation_less_key])

lemma observations_distinct:
  assumes "distinct (map (\<lambda>p. (Protocol p, PoolId p)) ps)"
  shows "inj_on observation_key (set (List.map_filter (pool_observation config now) ps))"
proof (rule inj_onI)
  fix x y
  assume "x \<in> set (List.map_filter (pool_observation config now) ps)" "y \<in> set (List.map_filter (pool_observation config now) ps)"
    and key: "observation_key x = observation_key y"
  then obtain p q where pq: "p \<in> set ps" "q \<in> set ps" "observationFromPool p config now = Inr (Some x)"
      "observationFromPool q config now = Inr (Some y)"
    by (auto simp: set_map_filter pool_observation_eq)
  then have "(Protocol p, PoolId p) = (Protocol q, PoolId q)"
    using key by (auto simp: observation_key_def elim!: observationFromPool_SomeD)
  with assms pq(1,2) have "p = q"
    by (auto simp: distinct_map dest: inj_onD)
  with pq(3,4) show "x = y" by simp
qed

lemma latest_pools_ok:
  assumes "gomap_ok m" and "\<forall>(k, p) \<in> set m. k = obs_key p"
  shows "gomap_ok (latest_pools inc ps m) \<and> (\<forall>(k, p) \<in> set (latest_pools inc ps m). k = obs_key p)"
  using assms
proof (induction ps arbitrary: m)
  case (Cons p ps)
  have upd: "gomap_ok (AList.update (obs_key q) q m)" "\<forall>(k, p) \<in> set (AList.update (obs_key q) q m). k = obs_key p" for q
    using Cons.prems by (auto dest!: set_alist_update)
  show ?case
    using Cons.IH [OF Cons.prems] Cons.IH [OF upd] by (auto split: option.splits)
qed simp

lemma latest_pools_distinct: "distinct (map (\<lambda>p. (Protocol p, PoolId p)) (map snd (latest_pools inc ps [])))"
proof -
  let ?m = "latest_pools inc ps []"
  have m: "gomap_ok ?m" "\<forall>(k, p) \<in> set ?m. k = obs_key p"
    using latest_pools_ok [of "[]" inc ps] by auto
  then have keys: "map fst ?m = map (\<lambda>(a, b). a @ '':'' @ b) (map (\<lambda>p. (Protocol p, PoolId p)) (map snd ?m))"
    by (auto simp: obs_key_def)
  have "distinct (map fst ?m)"
    using m(1) by (simp add: gomap_ok_def)
  then show ?thesis unfolding keys by (simp only: distinct_map)
qed

lemma latest_pools_set:
  "p \<in> snd ` set (latest_pools inc ps m) \<Longrightarrow> p \<in> snd ` set m \<or> (Some p \<in> set ps \<and> (inc \<or> \<not> FromMempool p))"
proof (induction ps arbitrary: m)
  case (Cons q ps)
  have upd: "p = r \<or> p \<in> snd ` set m" if "p \<in> snd ` set (AList.update (obs_key r) r m)" for r
    using that by (force dest: set_alist_update)
  show ?case
  proof (cases "latest_pools inc (q # ps) m = latest_pools inc ps m")
    case True
    with Cons.prems Cons.IH [of m] show ?thesis by auto
  next
    case False
    then obtain r where r: "q = Some r" "inc \<or> \<not> FromMempool r"
        "latest_pools inc (q # ps) m = latest_pools inc ps (AList.update (obs_key r) r m)"
      by (auto split: option.splits if_splits)
    with Cons.prems Cons.IH [of "AList.update (obs_key r) r m"] upd [of r] show ?thesis by auto
  qed
qed simp

text \<open>An observation the aggregation may use: it stems from one of the given pools and meets the
  configured minimum reserves.\<close>

definition qualified_observation :: "PoolState option list \<Rightarrow> Config \<Rightarrow> time \<Rightarrow> PoolObservation \<Rightarrow> bool" where
  "qualified_observation pools config now x =
     (\<exists>p. Some p \<in> set pools \<and> (IncludeMempool config \<or> \<not> FromMempool p)
        \<and> observationFromPool p config now = Inr (Some x))"

lemma observationsFromPools_eq:
  "\<exists>obs. observationsFromPools pools config now = Inr obs
     \<and> (\<forall>x \<in> set obs. qualified_observation pools config now x)"
proof -
  let ?ps = "map snd (latest_pools (IncludeMempool config) pools [])"
  have "qualified_observation pools config now x"
    if "x \<in> set (List.map_filter (pool_observation config now) ?ps)" for x
  proof -
    from that obtain p where p: "p \<in> set ?ps" "pool_observation config now p = Some x"
      by (auto simp: set_map_filter)
    then have "p \<in> snd ` set (latest_pools (IncludeMempool config) pools [])" by simp
    from latest_pools_set [OF this] p(2) show ?thesis
      by (auto simp: qualified_observation_def pool_observation_eq)
  qed
  then show ?thesis
    by (simp add: observationsFromPools_def observations_of_eq)
qed

lemma qualified_price:
  assumes "qualified_observation pools config now x"
  shows "price_positive x" and "priceOf x < 2 ^ 84" and "1 / (2 ^ 64 * 10 ^ 19) \<le> priceOf x"
    and "MinADAReserve config \<le> po_ADAReserve x" and "MinStableUSD config \<le> po_StableMicros x"
proof -
  obtain p where "observationFromPool p config now = Inr (Some x)"
    using assms by (auto simp: qualified_observation_def)
  then obtain d where d: "po_price x = Some (pool_price (po_StableReserve x) (po_ADAReserve x) d)"
    "po_ADAReserve x \<noteq> 0" "po_StableReserve x \<noteq> 0" "MinADAReserve config \<le> po_ADAReserve x"
    "normalizeToMicros (po_StableReserve x) d = Some (po_StableMicros x)"
    "MinStableUSD config \<le> po_StableMicros x"
    by (rule observationFromPool_SomeD)
  show "price_positive x" "priceOf x < 2 ^ 84" "MinADAReserve config \<le> po_ADAReserve x"
    "MinStableUSD config \<le> po_StableMicros x"
    using d pool_price_pos [OF d(3,2), of d] pool_price_bounds(2) [OF d(2), of "po_StableReserve x" d]
    by (simp_all add: price_positive_def priceOf_def)
  show "1 / (2 ^ 64 * 10 ^ 19) \<le> priceOf x"
    using pool_price_lower [OF d(3,2) normalize_decimals [OF d(5)]] d(1) by (simp add: priceOf_def)
qed

section \<open>Agreement\<close>

lemma min_max_loop_spec:
  assumes "min_max_loop xs lo hi = (lo', hi')" and "lo \<le> hi"
  shows "lo' \<le> lo \<and> hi \<le> hi' \<and> lo' \<le> hi' \<and> (\<forall>x \<in> set xs. lo' \<le> priceOf x \<and> priceOf x \<le> hi')
    \<and> lo' \<in> insert lo (priceOf ` set xs) \<and> hi' \<in> insert hi (priceOf ` set xs)"
  using assms
proof (induction xs arbitrary: lo hi)
  case (Cons x xs)
  let ?lo = "if priceOf x < lo then priceOf x else lo" and ?hi = "if priceOf x > hi then priceOf x else hi"
  have "min_max_loop xs ?lo ?hi = (lo', hi')"
    using Cons.prems(1) by (simp only: min_max_loop.simps Let_def priceOf_def)
  moreover have "?lo \<le> ?hi" using Cons.prems(2) by auto
  ultimately have IH: "lo' \<le> ?lo \<and> ?hi \<le> hi' \<and> lo' \<le> hi' \<and> (\<forall>x \<in> set xs. lo' \<le> priceOf x \<and> priceOf x \<le> hi')
      \<and> lo' \<in> insert ?lo (priceOf ` set xs) \<and> hi' \<in> insert ?hi (priceOf ` set xs)"
    by (rule Cons.IH)
  have "?lo \<le> lo" "?lo \<le> priceOf x" "hi \<le> ?hi" "priceOf x \<le> ?hi" by auto
  moreover have "?lo \<in> {lo, priceOf x}" "?hi \<in> {hi, priceOf x}" by auto
  ultimately show ?case
    using IH by (intro conjI ballI) (auto simp del: if_split_asm split del: if_split intro: order_trans)
qed auto

text \<open>What a result without an error guarantees.\<close>

definition agreed :: "Config \<Rightarrow> PoolObservation list \<Rightarrow> rat \<Rightarrow> bool" where
  "agreed config obs m =
     (MinObservations config \<le> int (length obs)
      \<and> MinStablecoins config \<le> int (card (po_Stablecoin ` set obs))
      \<and> median_of obs m
      \<and> (\<forall>x \<in> set obs. of_nat (unat (po_StableMicros x)) \<le> the (configRatio (MaxPoolShare config)) * of_nat (weight obs))
      \<and> (\<forall>x \<in> set obs. \<forall>y \<in> set obs.
           priceOf x \<le> (1 + the (configRatio (MaxDivergence config))) * priceOf y))"

lemma spread_bounds:
  assumes "min_max_loop xs (priceOf (hd xs)) (priceOf (hd xs)) = (lo, hi)" and "xs \<noteq> []"
    and "\<And>x. x \<in> set xs \<Longrightarrow> 0 < priceOf x"
  shows "0 < lo" and "lo \<le> hi" and "lo \<in> priceOf ` set xs" and "hi \<in> priceOf ` set xs"
    and "x \<in> set xs \<Longrightarrow> y \<in> set xs \<Longrightarrow> priceOf x \<le> (1 + (hi - lo) / lo) * priceOf y"
proof -
  have hd: "hd xs \<in> set xs" using assms(2) by simp
  have b: "lo \<le> hi" "\<forall>x \<in> set xs. lo \<le> priceOf x \<and> priceOf x \<le> hi" "lo \<in> priceOf ` set xs" "hi \<in> priceOf ` set xs"
    using min_max_loop_spec [OF assms(1)] hd by auto
  show "lo \<le> hi" "lo \<in> priceOf ` set xs" "hi \<in> priceOf ` set xs" by (fact b)+
  from b(3) assms(3) show lo: "0 < lo" by auto
  assume x: "x \<in> set xs" and y: "y \<in> set xs"
  have "priceOf x \<le> hi" using b(2) x by blast
  also have "hi = (1 + (hi - lo) / lo) * lo" using lo by (simp add: field_simps)
  also have "\<dots> \<le> (1 + (hi - lo) / lo) * priceOf y"
    using b(1,2) lo y by (intro mult_left_mono) auto
  finally show "priceOf x \<le> (1 + (hi - lo) / lo) * priceOf y" .
qed

lemma price_positiveD: "price_positive x \<Longrightarrow> 0 < priceOf x"
  by (auto simp: price_positive_def priceOf_def not_le split: option.splits)

text \<open>The spread of qualified prices always has a finite float.\<close>

lemma qualified_spread_finite:
  assumes "\<And>x. x \<in> set xs \<Longrightarrow> qualified_observation pools config now x" and "xs \<noteq> []"
    and "min_max_loop xs (priceOf (hd xs)) (priceOf (hd xs)) = (lo, hi)"
  shows "finiteFloat64 ((hi - lo) / lo) \<noteq> None"
proof -
  have pos: "0 < priceOf x" if "x \<in> set xs" for x
    using qualified_price(1) [OF assms(1) [OF that]] by (rule price_positiveD)
  have sb: "0 < lo" "lo \<le> hi" "lo \<in> priceOf ` set xs" "hi \<in> priceOf ` set xs"
    using spread_bounds(1-4) [OF assms(3,2)] pos by blast+
  have "hi < 2 ^ 84" "1 / (2 ^ 64 * 10 ^ 19) \<le> lo"
    using sb(3,4) qualified_price(2,3) [OF assms(1)] by auto
  have "(hi - lo) / lo \<le> 2 ^ 84 / (1 / (2 ^ 64 * 10 ^ 19))"
    using sb(1,2) \<open>hi < 2 ^ 84\<close> \<open>1 / (2 ^ 64 * 10 ^ 19) \<le> lo\<close> by (intro frac_le, simp, linarith, simp, linarith)
  also have "\<dots> < 2 ^ 1023" by simp
  finally have "\<bar>(hi - lo) / lo\<bar> < 2 ^ 1023"
    using sb(1,2) by simp
  then show ?thesis by (simp add: finiteFloat64_some)
qed

lemma median_finite:
  assumes "\<And>x. x \<in> set xs \<Longrightarrow> qualified_observation pools config now x" and "median_of xs m"
  shows "finiteFloat64 m \<noteq> None" and "0 < m"
proof -
  obtain a b where "a \<in> set xs" "priceOf a \<le> m" "b \<in> set xs" "m \<le> priceOf b"
    using assms(2) by (auto simp: median_of_def)
  then show "0 < m"
    using price_positiveD [OF qualified_price(1) [OF assms(1)], of a] by linarith
  moreover have "m < 2 ^ 84"
    using qualified_price(2) [OF assms(1) [OF \<open>b \<in> set xs\<close>]] \<open>m \<le> priceOf b\<close> by linarith
  ultimately have "\<bar>m\<bar> < 2 ^ 1023" by simp
  then show "finiteFloat64 m \<noteq> None" by (simp add: finiteFloat64_some)
qed

text \<open>
  The checks of \<open>AggregateADAUSDAt\<close> after the configuration, over the observations it collected:
  the error it stops with, or the median.
\<close>

definition aggregate_check :: "Config \<Rightarrow> PoolObservation list \<Rightarrow> price_error option" where
  "aggregate_check config obs =
     (if int (length obs) < MinObservations config then Some ErrInsufficientObservations
      else if int (card (po_Stablecoin ` set obs)) < MinStablecoins config
      then Some ErrInsufficientDiversity
      else if \<not> weight obs < 2 ^ 64 then Some AggregateLiquidityOverflow
      else if weight obs = 0 then Some ErrInsufficientObservations
      else if \<exists>x \<in> set obs. of_nat (unat (po_StableMicros x)) > the (configRatio (MaxPoolShare config)) * of_nat (weight obs)
      then Some ErrConcentratedLiquidity
      else if \<exists>x \<in> set obs. \<exists>y \<in> set obs. priceOf x > (1 + the (configRatio (MaxDivergence config))) * priceOf y
      then Some ErrDivergentPrices
      else None)"

lemma pool_share_le:
  assumes "0 < weight obs" and "weight obs < 2 ^ 64"
  shows "pool_share x (word_of_nat (weight obs)) > r \<longleftrightarrow> of_nat (unat (po_StableMicros x)) > r * of_nat (weight obs)"
proof -
  have "int (unat (word_of_nat (weight obs) :: u64)) = int (weight obs)"
    using assms(2) by (simp only: unat_word_of_nat_u64)
  then have "pool_share x (word_of_nat (weight obs)) = of_nat (unat (po_StableMicros x)) / of_nat (weight obs)"
    unfolding pool_share_def by (simp only: of_int_of_nat_eq)
  then show ?thesis
    using assms(1) by (simp add: pos_less_divide_eq)
qed

lemma divergence_iff:
  assumes "min_max_loop obs (priceOf (hd obs)) (priceOf (hd obs)) = (lo, hi)" and "obs \<noteq> []"
    and "\<And>x. x \<in> set obs \<Longrightarrow> 0 < priceOf x" and "0 \<le> r"
  shows "(hi - lo) / lo > r \<longleftrightarrow> (\<exists>x \<in> set obs. \<exists>y \<in> set obs. priceOf x > (1 + r) * priceOf y)"
proof -
  have b: "0 < lo" "lo \<in> priceOf ` set obs" "hi \<in> priceOf ` set obs"
    using spread_bounds(1,3,4) [OF assms(1,2)] assms(3) by blast+
  have all: "priceOf x \<le> (1 + (hi - lo) / lo) * priceOf y" if "x \<in> set obs" "y \<in> set obs" for x y
    using spread_bounds(5) [OF assms(1,2)] assms(3) that by blast
  have e: "(hi - lo) / lo > r \<longleftrightarrow> hi > (1 + r) * lo"
    using b(1) by (simp add: pos_less_divide_eq field_simps)
  show ?thesis
  proof
    assume "(hi - lo) / lo > r"
    with e b(2,3) show "\<exists>x \<in> set obs. \<exists>y \<in> set obs. priceOf x > (1 + r) * priceOf y" by auto
  next
    assume "\<exists>x \<in> set obs. \<exists>y \<in> set obs. priceOf x > (1 + r) * priceOf y"
    then obtain x y where xy: "x \<in> set obs" "y \<in> set obs" "priceOf x > (1 + r) * priceOf y" by blast
    then have "(1 + r) * priceOf y < (1 + (hi - lo) / lo) * priceOf y"
      using all [of x y] by linarith
    then show "(hi - lo) / lo > r"
      using assms(3) [OF xy(2)] by simp
  qed
qed

lemma Aggregate_eq:
  assumes "validateConfig config = None" and "observationsFromPools pools config now = Inr obs"
    and "\<And>x. x \<in> set obs \<Longrightarrow> qualified_observation pools config now x"
    and "0 \<le> the (configRatio (MaxDivergence config))"
  shows "snd (AggregateADAUSDAt pools config now) = aggregate_check config obs"
    and "aggregate_check config obs = None \<Longrightarrow>
      r_Observations (fst (AggregateADAUSDAt pools config now)) = obs
      \<and> (\<exists>m. r_price (fst (AggregateADAUSDAt pools config now)) = Some m \<and> median_of obs m)"
proof -
  have pos: "0 < priceOf x" if "x \<in> set obs" for x
    using qualified_price(1) [OF assms(3) [OF that]] by (rule price_positiveD)
  have allpos: "list_all price_positive obs"
    using qualified_price(1) [OF assms(3)] by (simp add: list_all_iff)
  let ?R = "AggregateADAUSDAt pools config now"
  have "snd ?R = aggregate_check config obs \<and>
      (aggregate_check config obs = None \<longrightarrow> r_Observations (fst ?R) = obs
       \<and> (\<exists>m. r_price (fst ?R) = Some m \<and> median_of obs m))"
  proof (cases "int (length obs) < MinObservations config
      \<or> int (card (po_Stablecoin ` set obs)) < MinStablecoins config")
    case True
    then show ?thesis
      using assms(1,2) by (auto simp: AggregateADAUSDAt_def aggregate_check_def Let_def)
  next
    case few: False
    then have ne: "obs \<noteq> []"
      using assms(1) by (auto simp: validateConfig_def split: if_splits)
    show ?thesis
    proof (cases "0 < weight obs \<and> weight obs < 2 ^ 64")
      case False
      then obtain e where "liquidityWeightedMedian obs = Inl e"
        using liquidityWeightedMedian_errors [of obs] by (cases "liquidityWeightedMedian obs") auto
      moreover have "weight (sort_by (\<lambda>a b. the (po_price a) < the (po_price b)) obs) = weight obs"
        by (rule weight_mset) simp
      ultimately show ?thesis
        using few False assms(1,2) allpos
        by (auto simp: AggregateADAUSDAt_def aggregate_check_def Let_def liquidityWeightedMedian_def total_weight_spec
            split: if_splits option.splits)
    next
      case w: True
      then obtain m where m: "liquidityWeightedMedian obs = Inr (m, word_of_nat (weight obs))" "median_of obs m"
        using liquidityWeightedMedian_correct [OF allpos] by blast
      obtain lo hi where mm: "min_max_loop obs (priceOf (hd obs)) (priceOf (hd obs)) = (lo, hi)"
        by (cases "min_max_loop obs (priceOf (hd obs)) (priceOf (hd obs))")
      obtain sf where sf: "finiteFloat64 ((hi - lo) / lo) = Some sf"
        using qualified_spread_finite [OF assms(3) ne mm] by blast
      obtain pf where pf: "finiteFloat64 m = Some pf"
        using median_finite(1) [OF assms(3) m(2)] by blast
      show ?thesis
        using few w assms(1,2) m sf pf mm divergence_iff [OF mm ne pos assms(4)] pool_share_le [of obs]
        by (auto simp: AggregateADAUSDAt_def aggregate_check_def Let_def priceOf_def [symmetric] list_ex_iff
            split: prod.splits)
    qed
  qed
  then show "snd ?R = aggregate_check config obs"
    and "aggregate_check config obs = None \<Longrightarrow> r_Observations (fst ?R) = obs
      \<and> (\<exists>m. r_price (fst ?R) = Some m \<and> median_of obs m)" by blast+
qed

lemma shortest_from_nonneg: "0 \<le> v \<Longrightarrow> shortest_from k n v e = Some d \<Longrightarrow> 0 \<le> d"
proof (induction k arbitrary: n)
  case (Suc k)
  have grid: "0 \<le> of_int \<lfloor>v / pow10_rat z\<rfloor> * pow10_rat z" "0 \<le> of_int \<lceil>v / pow10_rat z\<rceil> * pow10_rat z" for z
  proof -
    have u: "0 \<le> pow10_rat z" by (simp add: pow10_rat_def)
    then have "0 \<le> v / pow10_rat z" using Suc.prems(1) by simp
    then have "0 \<le> \<lfloor>v / pow10_rat z\<rfloor>" "0 \<le> \<lceil>v / pow10_rat z\<rceil>"
      using ceiling_mono [of 0 "v / pow10_rat z"] by simp_all
    with u show "0 \<le> of_int \<lfloor>v / pow10_rat z\<rfloor> * pow10_rat z" "0 \<le> of_int \<lceil>v / pow10_rat z\<rceil> * pow10_rat z"
      by (simp_all only: zero_le_mult_iff of_int_0_le_iff) simp_all
  qed
  then show ?case
    using Suc by (auto simp: shortest_at_def Let_def split: option.splits if_splits)
qed simp

lemma configRatio_nonneg: "0 \<le> v \<Longrightarrow> 0 \<le> the (configRatio (Fin v))"
  by (auto simp: configRatio_def sgn_if shortest_from_nonneg split: option.splits)

lemma valid_divergence: "validateConfig config = None \<Longrightarrow> 0 \<le> the (configRatio (MaxDivergence config))"
  by (cases "MaxDivergence config")
    (auto simp: validateConfig_def f64_isfinite_def not_less intro: configRatio_nonneg split: if_splits)

section \<open>Activity\<close>

lemma activity_index_sound:
  assumes "activity_index vs m = Inr m'" and "\<forall>(k, v) \<in> set m. k = PoolVolume_Key v"
  shows "\<forall>(k, v) \<in> set m'. k = PoolVolume_Key v \<and> (v \<in> set vs \<or> (k, v) \<in> set m)"
  using assms
proof (induction vs arbitrary: m)
  case (Cons v vs)
  have "\<forall>(k, w) \<in> set (AList.update (PoolVolume_Key v) v m). k = PoolVolume_Key w"
    using Cons.prems(2) by (auto dest!: set_alist_update)
  from Cons.IH [OF _ this] Cons.prems(1) show ?case
    by (auto split: if_splits dest!: set_alist_update)
qed auto

lemma qualify_pools_sound:
  assumes "qualify_pools ps m config ac = Inr qs" and "p \<in> set qs"
  shows "Some p \<in> set ps \<and> (\<exists>v sv. map_of m (Key p) = Some v \<and> stableVolumeMicros p v config = Inr sv
    \<and> MinStableVolume ac \<le> sv \<and> MinSwapCount ac \<le> pv_SwapCount v)"
  using assms
proof (induction ps arbitrary: qs)
  case (Cons q ps)
  show ?case
  proof (cases "qualify_pools ps m config ac")
    case (Inl e)
    with Cons show ?thesis by (auto split: option.splits sum.splits if_splits)
  next
    case (Inr rs)
    from Cons.prems(1) Inr have "qs = rs \<or> (\<exists>r v sv. q = Some r \<and> qs = r # rs \<and> map_of m (Key r) = Some v
        \<and> stableVolumeMicros r v config = Inr sv \<and> \<not> sv < MinStableVolume ac \<and> \<not> pv_SwapCount v < MinSwapCount ac)"
      by (auto split: option.splits sum.splits if_splits)
    with Cons.IH [OF Inr] Cons.prems(2) show ?thesis
      by (auto simp: not_less)
  qed
qed simp

lemma annotate_all_names:
  "annotate_all qs m config xs = Inr ys \<Longrightarrow>
     map (\<lambda>x. (po_Protocol x, po_PoolID x, po_price x)) ys = map (\<lambda>x. (po_Protocol x, po_PoolID x, po_price x)) xs"
proof (induction xs arbitrary: ys)
  case (Cons x xs)
  then show ?case
    by (auto simp: annotate_def Let_def split: sum.splits option.splits)
      (auto simp: map_sum_def split: sum.splits)
qed simp

section \<open>Properties\<close>

text \<open>C4: the weighted median is computed exactly when every price is positive and the total weight is
  positive and below \<open>2 ^ 64\<close>; it then returns the exact total weight and a price between two
  observed prices, with at most half of the weight strictly below it and at most half strictly
  above it.\<close>

theorem weighted_median_correct:
  "((\<exists>r. liquidityWeightedMedian obs = Inr r) \<longleftrightarrow>
      list_all price_positive obs \<and> 0 < weight obs \<and> weight obs < 2 ^ 64)
   \<and> (liquidityWeightedMedian obs = Inr (m, tot) \<longrightarrow>
      unat tot = weight obs \<and> is_weighted_median obs m
      \<and> (\<exists>a \<in> set obs. priceOf a \<le> m) \<and> (\<exists>b \<in> set obs. m \<le> priceOf b))"
  using liquidityWeightedMedian_errors [of obs] liquidityWeightedMedian_correct [of obs]
  by (auto simp: median_of_def)

text \<open>Normalising an amount to micro-dollars gives the exact floor of \<open>amount * 10^6 / 10^decimals\<close>
  and fails exactly when that does not fit in 64 bits or there are more than 25 decimals.\<close>

lemma normalizeToMicros_exact:
  "normalizeToMicros a d =
     (let n = unat a * 10 ^ 6 div 10 ^ unat d in
      if unat d \<le> 25 \<and> n < 2 ^ 64 then Some (word_of_nat n) else None)"
  by (rule normalizeToMicros_eq)

text \<open>The observations do not depend on the order in which the map of latest pool states is walked:
  any order of the same states gives the same list, and no error occurs.\<close>

lemma observations_independent_of_map_order:
  assumes "mset ps = mset (map snd (latest_pools inc pools []))"
  shows "observations_of ps config now = observations_of (map snd (latest_pools inc pools [])) config now"
proof -
  let ?f = "List.map_filter (pool_observation config now)" and ?qs = "map snd (latest_pools inc pools [])"
  have "mset (?f ps) = mset (?f ?qs)" by (rule mset_map_filter [OF assms])
  moreover have "inj_on observation_key (set (?f ?qs))"
    by (rule observations_distinct [OF latest_pools_distinct])
  ultimately have "sort_key observation_key (?f ps) = sort_key observation_key (?f ?qs)"
    by (intro sort_key_inj_key_eq) (simp_all add: mset_eq_setD [of "?f ps"])
  then show ?thesis by (simp add: observations_of_eq)
qed

text \<open>With a valid configuration, aggregation collects only qualified observations and reports
  exactly the first failing one of its checks: counts, diversity, total liquidity, the share of a
  single pool, divergence. It never reports a non-finite price or an invalid observation.\<close>

lemma aggregate_error_exact:
  assumes "validateConfig config = None"
  shows "\<exists>obs. observationsFromPools pools config now = Inr obs
    \<and> list_all (\<lambda>x. \<exists>p. Some p \<in> set pools \<and> observationFromPool p config now = Inr (Some x)) obs
    \<and> snd (AggregateADAUSDAt pools config now) = aggregate_check config obs"
proof -
  obtain obs where obs: "observationsFromPools pools config now = Inr obs"
    "\<And>x. x \<in> set obs \<Longrightarrow> qualified_observation pools config now x"
    using observationsFromPools_eq [of pools config now] by blast
  have "snd (AggregateADAUSDAt pools config now) = aggregate_check config obs"
    by (rule Aggregate_eq(1) [OF assms obs valid_divergence [OF assms]])
  with obs show ?thesis
    by (auto simp: qualified_observation_def list_all_iff)
qed

text \<open>C5: a published price is the weighted median of enough qualified observations over enough coins,
  no pool holds more than the configured share of the liquidity, any two observed prices and the
  published one agree within the configured divergence, and every observation meets the
  configured minimum reserves.\<close>

theorem published_price_is_agreed:
  assumes "AggregateADAUSDAt pools config now = (r, None)"
  shows "\<exists>m. r_price r = Some m \<and> 0 < m \<and> agreed config (r_Observations r) m
    \<and> list_all (\<lambda>x. MinADAReserve config \<le> po_ADAReserve x \<and> MinStableUSD config \<le> po_StableMicros x
        \<and> m \<le> (1 + the (configRatio (MaxDivergence config))) * priceOf x
        \<and> priceOf x \<le> (1 + the (configRatio (MaxDivergence config))) * m) (r_Observations r)"
proof -
  let ?d = "the (configRatio (MaxDivergence config))"
  have valid: "validateConfig config = None"
    using assms by (auto simp: AggregateADAUSDAt_def split: option.splits)
  have d: "0 \<le> ?d" by (rule valid_divergence [OF valid])
  obtain obs where obs: "observationsFromPools pools config now = Inr obs"
    "\<And>x. x \<in> set obs \<Longrightarrow> qualified_observation pools config now x"
    using observationsFromPools_eq [of pools config now] by blast
  note eq = Aggregate_eq [OF valid obs d]
  have check: "aggregate_check config obs = None" using eq(1) assms by simp
  then obtain m where m: "r_Observations r = obs" "r_price r = Some m" "median_of obs m"
    using eq(2) assms by auto
  have agreed: "agreed config obs m"
    using check m(3) by (auto simp: aggregate_check_def agreed_def not_less split: if_splits)
  obtain a b where ab: "a \<in> set obs" "priceOf a \<le> m" "b \<in> set obs" "m \<le> priceOf b"
    using m(3) by (auto simp: median_of_def)
  have near: "m \<le> (1 + ?d) * priceOf x \<and> priceOf x \<le> (1 + ?d) * m" if "x \<in> set obs" for x
  proof -
    have "priceOf b \<le> (1 + ?d) * priceOf x" "priceOf x \<le> (1 + ?d) * priceOf a"
      using agreed ab that by (auto simp: agreed_def)
    moreover have "(1 + ?d) * priceOf a \<le> (1 + ?d) * m"
      using d ab(2) by (intro mult_left_mono) simp_all
    ultimately show ?thesis using ab(4) by linarith
  qed
  have "0 < m" by (rule median_finite(2) [OF obs(2) m(3)])
  with m agreed near qualified_price(4,5) [OF obs(2)] show ?thesis
    by (auto simp: list_all_iff)
qed

text \<open>With activity qualification every observation behind the result belongs to a given pool with a
  reported volume whose stablecoin side and swap count reach the configured minimums.\<close>

lemma activity_qualifies_observations:
  assumes "AggregateADAUSDWithActivityAt pools volumes config ac now = (r, None)"
  shows "list_all (\<lambda>x. \<exists>p v sv. Some p \<in> set pools \<and> po_PoolID x = PoolId p \<and> po_Protocol x = Protocol p
      \<and> v \<in> set volumes \<and> PoolVolume_Key v = Key p \<and> stableVolumeMicros p v config = Inr sv
      \<and> MinStableVolume ac \<le> sv \<and> MinSwapCount ac \<le> pv_SwapCount v) (r_Observations r)"
proof -
  obtain m qs where m: "activity_index volumes [] = Inr m" and qs: "qualify_pools pools m config ac = Inr qs"
    using assms by (auto simp: AggregateADAUSDWithActivityAt_def split: sum.splits if_splits)
  obtain r0 where r0: "AggregateADAUSDAt (map Some qs) config now = (r0, None)"
    and ann: "annotate_all qs m config (r_Observations r0) = Inr (r_Observations r)"
    using assms m qs
    by (auto simp: AggregateADAUSDWithActivityAt_def split: sum.splits if_splits prod.splits)
  have valid: "validateConfig config = None"
    using r0 by (auto simp: AggregateADAUSDAt_def split: option.splits)
  obtain obs where obs: "observationsFromPools (map Some qs) config now = Inr obs"
    "\<And>x. x \<in> set obs \<Longrightarrow> qualified_observation (map Some qs) config now x"
    using observationsFromPools_eq [of "map Some qs" config now] by blast
  have r0_obs: "r_Observations r0 = obs"
    using Aggregate_eq [OF valid obs valid_divergence [OF valid]] r0 by simp
  have index: "\<forall>(k, v) \<in> set m. k = PoolVolume_Key v \<and> v \<in> set volumes"
    using activity_index_sound [OF m] by auto
  have "\<exists>p v sv. Some p \<in> set pools \<and> po_PoolID x = PoolId p \<and> po_Protocol x = Protocol p
      \<and> v \<in> set volumes \<and> PoolVolume_Key v = Key p \<and> stableVolumeMicros p v config = Inr sv
      \<and> MinStableVolume ac \<le> sv \<and> MinSwapCount ac \<le> pv_SwapCount v" if "x \<in> set (r_Observations r)" for x
  proof -
    from that annotate_all_names [OF ann] obtain y where y: "y \<in> set obs" "po_PoolID x = po_PoolID y" "po_Protocol x = po_Protocol y"
      using arg_cong [OF annotate_all_names [OF ann], of set] unfolding r0_obs set_map by blast
    obtain p where p: "p \<in> set qs" "observationFromPool p config now = Inr (Some y)"
      using obs(2) [OF y(1)] by (auto simp: qualified_observation_def)
    obtain v sv where v: "Some p \<in> set pools" "map_of m (Key p) = Some v" "stableVolumeMicros p v config = Inr sv"
        "MinStableVolume ac \<le> sv" "MinSwapCount ac \<le> pv_SwapCount v"
      using qualify_pools_sound [OF qs p(1)] by blast
    have "v \<in> set volumes" "PoolVolume_Key v = Key p"
      using index map_of_SomeD [OF v(2)] by auto
    moreover have "po_PoolID y = PoolId p" "po_Protocol y = Protocol p"
      using p(2) by (auto elim: observationFromPool_SomeD)
    ultimately show ?thesis using v y(2,3) by auto
  qed
  then show ?thesis by (simp add: list_all_iff)
qed

section \<open>Witnesses\<close>

definition usdm_config :: Config where
  "usdm_config =
     \<lparr>Stablecoins = [\<lparr>Symbol = ''USDM'', Asset = \<lparr>PolicyId = [1], Name = [2]\<rparr>, Decimals = 6\<rparr>],
      MinADAReserve = 1000, MinStableUSD = 1000, MinObservations = 1, MinStablecoins = 1,
      MaxPoolShare = Fin 1, MaxDivergence = Fin 1, IncludeMempool = False\<rparr>"

definition usdm_volume :: PoolVolume where
  "usdm_volume =
     \<lparr>pv_PoolID = ''p1'', pv_Network = ''mainnet'', pv_Protocol = ''cswap'', pv_AssetX = Lovelace,
      pv_AssetY = \<lparr>PolicyId = [1], Name = [2]\<rparr>, pv_VolumeX = 3000, pv_VolumeY = 1500,
      pv_SwapCount = 3, pv_WindowSlots = 100, pv_WindowEnd = 50, pv_FirstSwapSlot = 2, pv_LastSwapSlot = 9\<rparr>"

definition usdm_activity :: ActivityConfig where
  "usdm_activity = \<lparr>MinSwapCount = 2, MinStableVolume = 1000\<rparr>"

lemma usdm_config_valid: "validateConfig usdm_config = None"
  by (simp add: validateConfig_def usdm_config_def f64_isfinite_def)

lemma f64_of_rat_one: "f64_of_rat 1 = Fin 1"
proof -
  have "ilog2 1 = 0"
    by (simp add: ilog2_def bit_length.simps pow2_def Rat.quotient_of_number)
  moreover have "rne (2 ^ 52) = 2 ^ 52"
    using rne_of_int [of "2 ^ 52"] by simp
  ultimately show ?thesis
    by (simp add: f64_of_rat_def round_pos_def pow2_def)
qed

lemma ratio_one: "configRatio (Fin 1) = Some 1"
proof -
  have "dec_exp 400 1 = 0"
    using dec_exp.simps(2) [of 399 1] by (simp only: Suc_numeral add_num_simps) simp
  moreover have "shortest_at 1 0 1 = Some 1"
    by (simp add: shortest_at_def pow10_rat_def f64_of_rat_one)
  then have "shortest_from 17 1 1 0 = Some 1"
    using shortest_from.simps(2) [of 16 1 1 0] by (simp only: Suc_numeral add_num_simps option.case)
  ultimately show ?thesis by (simp add: configRatio_def)
qed

lemma usdm_ratios: "configRatio (MaxPoolShare usdm_config) = Some 1" "configRatio (MaxDivergence usdm_config) = Some 1"
  using ratio_one by (simp_all add: usdm_config_def)

lemma usdm_observation:
  obtains x where "observationsFromPools [Some ada_usdm_pool] usdm_config now = Inr [x]"
    "po_StableMicros x = 500000" "priceOf x = 1 / 2"
proof -
  have price: "pool_price 500000 1000000 6 = 1 / 2"
    by (simp add: pool_price_def pow10Big_def)
  obtain f where f: "finiteFloat64 (1 / 2) = Some f"
    using pool_price_finite [of 1000000 500000 6] unfolding price by auto
  have "\<exists>x. observationFromPool ada_usdm_pool usdm_config now = Inr (Some x)
      \<and> po_StableMicros x = 500000 \<and> priceOf x = 1 / 2"
    by (simp add: observationFromPool_def ada_sides_def amount_IsLovelace_def IsLovelace_def Lovelace_def
        find_stablecoin_def usdm_config_def normalizeToMicros_def price f Let_def priceOf_def)
  then obtain x where x: "observationFromPool ada_usdm_pool usdm_config now = Inr (Some x)"
      "po_StableMicros x = 500000" "priceOf x = 1 / 2" by blast
  have "latest_pools (IncludeMempool usdm_config) [Some ada_usdm_pool] [] = [(obs_key ada_usdm_pool, ada_usdm_pool)]"
    by (simp add: ada_usdm_pool_def)
  with x show thesis
    by (intro that [of x]) (simp_all add: observationsFromPools_def observations_of_def sort_by_def)
qed

lemma usdm_published: "\<exists>r. AggregateADAUSDAt [Some ada_usdm_pool] usdm_config now = (r, None)"
proof -
  obtain x where x: "observationsFromPools [Some ada_usdm_pool] usdm_config now = Inr [x]"
    "po_StableMicros x = 500000" "priceOf x = 1 / 2"
    by (rule usdm_observation)
  obtain obs where obs: "observationsFromPools [Some ada_usdm_pool] usdm_config now = Inr obs"
    "\<And>x. x \<in> set obs \<Longrightarrow> qualified_observation [Some ada_usdm_pool] usdm_config now x"
    using observationsFromPools_eq [of "[Some ada_usdm_pool]" usdm_config now] by blast
  then have "obs = [x]" using x(1) by simp
  moreover have "aggregate_check usdm_config [x] = None"
    using x(2,3) by (simp add: aggregate_check_def usdm_ratios) (simp add: usdm_config_def)
  ultimately have "snd (AggregateADAUSDAt [Some ada_usdm_pool] usdm_config now) = None"
    using Aggregate_eq(1) [OF usdm_config_valid obs valid_divergence [OF usdm_config_valid]] by simp
  then show ?thesis by (metis prod.collapse)
qed

theorem weighted_median_correct_witness:
  "liquidityWeightedMedian [] = Inl ErrInsufficientObservations
   \<and> (\<exists>x m tot. liquidityWeightedMedian [x] = Inr (m, tot) \<and> unat tot = 500000 \<and> is_weighted_median [x] m)"
proof -
  obtain x where x: "observationsFromPools [Some ada_usdm_pool] usdm_config 5 = Inr [x]"
    "po_StableMicros x = 500000" "priceOf x = 1 / 2"
    by (rule usdm_observation)
  obtain obs where "observationsFromPools [Some ada_usdm_pool] usdm_config 5 = Inr obs"
    "\<And>x. x \<in> set obs \<Longrightarrow> qualified_observation [Some ada_usdm_pool] usdm_config 5 x"
    using observationsFromPools_eq [of "[Some ada_usdm_pool]" usdm_config 5] by blast
  with x(1) have "price_positive x" using qualified_price(1) by simp
  then have "\<exists>r. liquidityWeightedMedian [x] = Inr r"
    using weighted_median_correct [of "[x]" 0 0] x(2) by simp
  then obtain m tot where m: "liquidityWeightedMedian [x] = Inr (m, tot)" by auto
  have "unat tot = 500000 \<and> is_weighted_median [x] m"
    using weighted_median_correct [of "[x]" m tot] m x(2) by simp
  moreover have "liquidityWeightedMedian [] = Inl ErrInsufficientObservations"
    by (simp add: liquidityWeightedMedian_def sort_by_def)
  ultimately show ?thesis using m by blast
qed

theorem published_price_is_agreed_witness:
  "\<exists>r m. AggregateADAUSDAt [Some ada_usdm_pool] usdm_config 5 = (r, None) \<and> r_price r = Some m \<and> 0 < m
     \<and> agreed usdm_config (r_Observations r) m"
proof -
  obtain r where r: "AggregateADAUSDAt [Some ada_usdm_pool] usdm_config 5 = (r, None)"
    using usdm_published by blast
  with published_price_is_agreed [OF r] show ?thesis by blast
qed

end
