(* ===== verification/Cbor.thy ===== *)
theory Cbor
  imports Common
begin

text \<open>
  What the sources use of the CBOR library (\<open>gouroboros/cbor\<close>), as a parameter: the decoders of a
  Plutus constructor (its tag and the encoded list of its fields), of a list of raw items, of a
  byte string, of an unsigned integer, of a signed one that fits 64 bits and of a \<open>*big.Int\<close>
  (which stays nil on a CBOR null). \<open>None\<close> is a decoding error. The two helpers that the
  Djed parser is built from, \<open>constructorFields\<close> and \<open>plutusBool\<close> of \<open>price/djed/oracle.go\<close>, are
  defined over it.
\<close>

record cbor_lib =
  dec_constr :: "bytes \<Rightarrow> (nat \<times> bytes) option"
  dec_list :: "bytes \<Rightarrow> bytes list option"
  dec_bytes :: "bytes \<Rightarrow> bytes option"
  dec_uint :: "bytes \<Rightarrow> u64 option"
  dec_int64 :: "bytes \<Rightarrow> int option"
  dec_big :: "bytes \<Rightarrow> int option option"

definition constructorFields :: "cbor_lib \<Rightarrow> bytes \<Rightarrow> nat \<Rightarrow> nat \<Rightarrow> bytes list option" where
  "constructorFields cb data expectedTag expectedCount =
     (case dec_constr cb data of
        None \<Rightarrow> None
      | Some (tag, raw) \<Rightarrow>
          if tag \<noteq> expectedTag then None
          else case dec_list cb raw of
            None \<Rightarrow> None
          | Some flds \<Rightarrow> if length flds \<noteq> expectedCount then None else Some flds)"

definition plutusBool :: "cbor_lib \<Rightarrow> bytes \<Rightarrow> bool option" where
  "plutusBool cb data =
     (case dec_constr cb data of
        None \<Rightarrow> None
      | Some (tag, raw) \<Rightarrow>
          if tag > 1 then None
          else case dec_list cb raw of
            None \<Rightarrow> None
          | Some flds \<Rightarrow> if length flds \<noteq> 0 then None else Some (tag = 1))"

text \<open>
  The pool and position parsers let the library decode a whole datum into typed structures. For
  them the library is a function from bytes to Plutus data; decoding into a structure is then the
  structural match the source's types describe. A structure decoded from an array takes exactly as
  many items as it has fields, a \<open>[]byte\<close> takes a byte string, and an integer has to fit its type.
  \<open>NotPlutus\<close> stands for well-formed CBOR that is not Plutus data.
\<close>

datatype plutus_data =
    Constr nat "plutus_data list"
  | PList "plutus_data list"
  | PMap "(plutus_data \<times> plutus_data) list"
  | PInt int
  | PBytes bytes
  | NotPlutus

type_synonym datum_decoder = "bytes \<Rightarrow> plutus_data option"

fun as_bytes :: "plutus_data \<Rightarrow> bytes option" where
  "as_bytes (PBytes b) = Some b"
| "as_bytes _ = None"

fun as_int64 :: "plutus_data \<Rightarrow> int option" where
  "as_int64 (PInt i) = (if int64_range i then Some i else None)"
| "as_int64 _ = None"

fun as_uint64 :: "plutus_data \<Rightarrow> u64 option" where
  "as_uint64 (PInt i) = (if 0 \<le> i \<and> i < 2 ^ 64 then Some (word_of_int i) else None)"
| "as_uint64 _ = None"

lemma constructorFields_length:
  "constructorFields cb data tag n = Some flds \<Longrightarrow> length flds = n"
  by (auto simp: constructorFields_def split: option.splits if_splits prod.splits)

end
