(* ===== verification/Djed.thy ===== *)
theory Djed
  imports Cbor Float64 Rollback_Log "HOL-Library.Product_Lexorder"
begin

text \<open>
  \<open>price/djed/oracle.go\<close> and \<open>price/djed/tracker.go\<close>: the Djed oracle datum, its authentication
  against the mainnet deployment and its validity interval, and the tracker that follows the
  oracle's outputs along the chain. The CBOR decoders are a parameter (theory \<open>Cbor\<close>). The tracker
  is a Go map from output references to tracked observations; each method is one step.
\<close>

section \<open>Data\<close>

record OracleDatum =
  Signature :: bytes
  PriceNumerator :: u64
  PriceDenominator :: u64
  ValidFrom :: time
  ValidFromInclusive :: bool
  ValidUntil :: time
  ValidUntilInclusive :: bool
  ExpressedIn :: bytes
  OraclePolicy :: bytes

record OracleUTxO =
  ou_Address :: string
  ou_Assets :: "AssetAmount list"
  ou_TxHash :: string
  ou_TxIndex :: u32
  ou_TransactionIndex :: u32
  ou_Slot :: u64
  ou_BlockHash :: string

record Observation =
  ob_Pair :: string
  ob_Source :: string
  ob_PriceNumerator :: u64
  ob_PriceDenominator :: u64
  ob_Price :: f64
  ob_ValidFrom :: time
  ob_ValidFromInclusive :: bool
  ob_ValidUntil :: time
  ob_ValidUntilInclusive :: bool
  ob_TxHash :: string
  ob_TxIndex :: u32
  ob_TransactionIndex :: u32
  ob_Slot :: u64
  ob_BlockHash :: string

datatype djed_error =
    ErrInvalidDatum
  | ErrInvalidRate
  | ErrWrongAddress
  | ErrMissingNFT
  | ErrWrongPolicy
  | ErrWrongQuote
  | ErrNotYetValid
  | ErrExpired
  | ErrNoCurrentObservation
  | ErrConflictingObservation
  | InvalidBuiltinIdentity

definition MainnetOracleAddress :: string where
  "MainnetOracleAddress = ''addr1wxyc99q448xlkv4q2y3truxq7j2msr6hkqqg0wmzz9n9r6q8j7kpa''"

definition MainnetOraclePolicy :: string where
  "MainnetOraclePolicy = ''815aca02042ba9188a2ca4f8ce7b276046e2376b4bce56391342299e''"

definition OracleNFTName :: string where
  "OracleNFTName = ''446a65644f7261636c654e4654''"

section \<open>The datum\<close>

definition finiteBound :: "cbor_lib \<Rightarrow> bytes \<Rightarrow> (int \<times> bool) option" where
  "finiteBound cb data =
     (case constructorFields cb data 0 2 of
        None \<Rightarrow> None
      | Some boundFields \<Rightarrow>
     (case constructorFields cb (boundFields ! 0) 1 1 of
        None \<Rightarrow> None
      | Some valueFields \<Rightarrow>
     (case dec_uint cb (valueFields ! 0) of
        None \<Rightarrow> None
      | Some millis \<Rightarrow>
          if int (unat millis) > MaxInt64 then None
          else case plutusBool cb (boundFields ! 1) of
            None \<Rightarrow> None
          | Some inclusive \<Rightarrow> Some (int (unat millis), inclusive))))"

text \<open>Every failure of \<open>ParseOracleDatum\<close> wraps \<open>ErrInvalidDatum\<close>.\<close>

definition ParseOracleDatum :: "cbor_lib \<Rightarrow> bytes \<Rightarrow> djed_error + OracleDatum" where
  "ParseOracleDatum cb data =
     (case constructorFields cb data 0 3 of
        None \<Rightarrow> Inl ErrInvalidDatum
      | Some flds \<Rightarrow>
     (case dec_bytes cb (flds ! 0) of
        None \<Rightarrow> Inl ErrInvalidDatum
      | Some signature \<Rightarrow>
     (case constructorFields cb (flds ! 1) 0 3 of
        None \<Rightarrow> Inl ErrInvalidDatum
      | Some oracleFields \<Rightarrow>
     (case constructorFields cb (oracleFields ! 0) 0 2 of
        None \<Rightarrow> Inl ErrInvalidDatum
      | Some rateFields \<Rightarrow>
     (case dec_uint cb (rateFields ! 0) of
        None \<Rightarrow> Inl ErrInvalidDatum
      | Some denominator \<Rightarrow>
     (case dec_uint cb (rateFields ! 1) of
        None \<Rightarrow> Inl ErrInvalidDatum
      | Some numerator \<Rightarrow>
     (case constructorFields cb (oracleFields ! 1) 0 2 of
        None \<Rightarrow> Inl ErrInvalidDatum
      | Some validityFields \<Rightarrow>
     (case finiteBound cb (validityFields ! 0) of
        None \<Rightarrow> Inl ErrInvalidDatum
      | Some (validFromMillis, validFromInclusive) \<Rightarrow>
     (case finiteBound cb (validityFields ! 1) of
        None \<Rightarrow> Inl ErrInvalidDatum
      | Some (validUntilMillis, validUntilInclusive) \<Rightarrow>
     (case dec_bytes cb (oracleFields ! 2) of
        None \<Rightarrow> Inl ErrInvalidDatum
      | Some expressedIn \<Rightarrow>
     (case dec_bytes cb (flds ! 2) of
        None \<Rightarrow> Inl ErrInvalidDatum
      | Some oraclePolicy \<Rightarrow> Inr
          \<lparr>Signature = signature, PriceNumerator = numerator, PriceDenominator = denominator,
           ValidFrom = UnixMilli validFromMillis, ValidFromInclusive = validFromInclusive,
           ValidUntil = UnixMilli validUntilMillis, ValidUntilInclusive = validUntilInclusive,
           ExpressedIn = expressedIn, OraclePolicy = oraclePolicy\<rparr>)))))))))))"

definition validateInterval :: "time \<Rightarrow> bool \<Rightarrow> time \<Rightarrow> bool \<Rightarrow> time \<Rightarrow> djed_error option" where
  "validateInterval validFrom validFromInclusive validUntil validUntilInclusive now =
     (if validFrom > validUntil
         \<or> (validFrom = validUntil \<and> (\<not> validFromInclusive \<or> \<not> validUntilInclusive))
      then Some ErrInvalidDatum
      else if now < validFrom \<or> (now = validFrom \<and> \<not> validFromInclusive) then Some ErrNotYetValid
      else if now > validUntil \<or> (now = validUntil \<and> \<not> validUntilInclusive) then Some ErrExpired
      else None)"

definition ValidateAt :: "Observation \<Rightarrow> time \<Rightarrow> djed_error option" where
  "ValidateAt x now =
     validateInterval (ob_ValidFrom x) (ob_ValidFromInclusive x) (ob_ValidUntil x) (ob_ValidUntilInclusive x) now"

definition ValidateMainnet :: "OracleDatum \<Rightarrow> OracleUTxO \<Rightarrow> time \<Rightarrow> djed_error option" where
  "ValidateMainnet d utxo now =
     (if ou_Address utxo \<noteq> MainnetOracleAddress then Some ErrWrongAddress
      else case NewAssetClass MainnetOraclePolicy OracleNFTName of
        Inl _ \<Rightarrow> Some InvalidBuiltinIdentity
      | Inr oracleAsset \<Rightarrow>
          if \<not> list_ex (\<lambda>a. IsAsset a oracleAsset \<and> Amount a = 1) (ou_Assets utxo) then Some ErrMissingNFT
          else if length (Signature d) \<noteq> 64 then Some ErrInvalidDatum
          else if OraclePolicy d \<noteq> PolicyId oracleAsset then Some ErrWrongPolicy
          else if string_of_bytes (ExpressedIn d) \<noteq> ''USD'' then Some ErrWrongQuote
          else if PriceNumerator d = 0 \<or> PriceDenominator d = 0 then Some ErrInvalidRate
          else validateInterval (ValidFrom d) (ValidFromInclusive d) (ValidUntil d) (ValidUntilInclusive d) now)"

definition datum_Rat :: "OracleDatum \<Rightarrow> djed_error + rat" where
  "datum_Rat d =
     (if PriceNumerator d = 0 \<or> PriceDenominator d = 0 then Inl ErrInvalidRate
      else Inr (of_int (int (unat (PriceNumerator d))) / of_int (int (unat (PriceDenominator d)))))"

definition finiteRateFloat64 :: "rat \<Rightarrow> djed_error + f64" where
  "finiteRateFloat64 rate = (case f64_of_rat rate of Fin v \<Rightarrow> Inr (Fin v) | _ \<Rightarrow> Inl ErrInvalidRate)"

definition ParseMainnetObservation :: "cbor_lib \<Rightarrow> bytes \<Rightarrow> OracleUTxO \<Rightarrow> time \<Rightarrow> djed_error + Observation" where
  "ParseMainnetObservation cb data utxo now =
     (case ParseOracleDatum cb data of
        Inl e \<Rightarrow> Inl e
      | Inr datum \<Rightarrow>
     (case ValidateMainnet datum utxo now of
        Some e \<Rightarrow> Inl e
      | None \<Rightarrow>
     (case datum_Rat datum of
        Inl e \<Rightarrow> Inl e
      | Inr rate \<Rightarrow>
     (case finiteRateFloat64 rate of
        Inl e \<Rightarrow> Inl e
      | Inr price \<Rightarrow> Inr
          \<lparr>ob_Pair = ''ADA/USD'', ob_Source = ''djed'', ob_PriceNumerator = PriceNumerator datum,
           ob_PriceDenominator = PriceDenominator datum, ob_Price = price,
           ob_ValidFrom = ValidFrom datum, ob_ValidFromInclusive = ValidFromInclusive datum,
           ob_ValidUntil = ValidUntil datum, ob_ValidUntilInclusive = ValidUntilInclusive datum,
           ob_TxHash = ou_TxHash utxo, ob_TxIndex = ou_TxIndex utxo,
           ob_TransactionIndex = ou_TransactionIndex utxo, ob_Slot = ou_Slot utxo,
           ob_BlockHash = ou_BlockHash utxo\<rparr>))))"

section \<open>The tracker\<close>

record OutputRef =
  ref_TxHash :: string
  ref_TxIndex :: u32

record trackedObservation =
  tk_observation :: Observation
  tk_spentAt :: "u64 option"

type_synonym Tracker = "(OutputRef, trackedObservation) gomap"

definition NewTracker :: Tracker where
  "NewTracker = []"

definition Apply ::
    "cbor_lib \<Rightarrow> bytes \<Rightarrow> OracleUTxO \<Rightarrow> time \<Rightarrow> Tracker \<Rightarrow> (djed_error + Observation) \<times> Tracker" where
  "Apply cb data utxo now t =
     (case ParseMainnetObservation cb data utxo now of
        Inl e \<Rightarrow> (Inl e, t)
      | Inr observation \<Rightarrow>
          (let ref = \<lparr>ref_TxHash = ou_TxHash utxo, ref_TxIndex = ou_TxIndex utxo\<rparr> in
           case map_of t ref of
             Some existing \<Rightarrow>
               if tk_observation existing \<noteq> observation then (Inl ErrConflictingObservation, t)
               else (Inr observation, t)
           | None \<Rightarrow>
               (Inr observation,
                AList.update ref \<lparr>tk_observation = observation, tk_spentAt = None\<rparr> t)))"

definition ConsumeAt :: "OutputRef \<Rightarrow> u64 \<Rightarrow> Tracker \<Rightarrow> Tracker" where
  "ConsumeAt ref slot t =
     (case map_of t ref of
        None \<Rightarrow> t
      | Some tracked \<Rightarrow> AList.update ref (tracked\<lparr>tk_spentAt := Some slot\<rparr>) t)"

definition prunable :: "u64 \<Rightarrow> trackedObservation \<Rightarrow> bool" where
  "prunable beforeSlot x = (case tk_spentAt x of None \<Rightarrow> False | Some s \<Rightarrow> s < beforeSlot)"

definition Prune :: "u64 \<Rightarrow> Tracker \<Rightarrow> nat \<times> Tracker" where
  "Prune beforeSlot t =
     (length (filter (\<lambda>(r, x). prunable beforeSlot x) t), filter (\<lambda>(r, x). \<not> prunable beforeSlot x) t)"

definition unspend :: "u64 \<Rightarrow> trackedObservation \<Rightarrow> trackedObservation" where
  "unspend slot x =
     (case tk_spentAt x of
        None \<Rightarrow> x
      | Some s \<Rightarrow> if s > slot then x\<lparr>tk_spentAt := None\<rparr> else x)"

definition djed_Rollback :: "u64 \<Rightarrow> Tracker \<Rightarrow> Tracker" where
  "djed_Rollback slot t =
     map (\<lambda>(r, x). (r, unspend slot x)) (filter (\<lambda>(r, x). \<not> ob_Slot (tk_observation x) > slot) t)"

definition observationAfter :: "Observation \<Rightarrow> Observation \<Rightarrow> bool" where
  "observationAfter candidate current =
     (if ob_Slot candidate \<noteq> ob_Slot current then ob_Slot candidate > ob_Slot current
      else if ob_TransactionIndex candidate \<noteq> ob_TransactionIndex current
      then ob_TransactionIndex candidate > ob_TransactionIndex current
      else if ob_TxIndex candidate \<noteq> ob_TxIndex current then ob_TxIndex candidate > ob_TxIndex current
      else ob_TxHash candidate > ob_TxHash current)"

text \<open>The loop of \<open>Current\<close>: the newest valid and the newest invalid candidate, and whether any is unspent.\<close>

fun current_loop ::
    "time \<Rightarrow> trackedObservation list \<Rightarrow> Observation option \<Rightarrow> (Observation \<times> djed_error) option \<Rightarrow> bool
     \<Rightarrow> Observation option \<times> (Observation \<times> djed_error) option \<times> bool" where
  "current_loop now [] current newestInvalid sawUnspent = (current, newestInvalid, sawUnspent)"
| "current_loop now (x # xs) current newestInvalid sawUnspent =
     (if tk_spentAt x \<noteq> None then current_loop now xs current newestInvalid sawUnspent
      else
        let candidate = tk_observation x in
        case ValidateAt candidate now of
          Some e \<Rightarrow>
            current_loop now xs current
              (case newestInvalid of
                 None \<Rightarrow> Some (candidate, e)
               | Some (old, e') \<Rightarrow> if observationAfter candidate old then Some (candidate, e) else Some (old, e'))
              True
        | None \<Rightarrow>
            current_loop now xs
              (case current of
                 None \<Rightarrow> Some candidate
               | Some old \<Rightarrow> if observationAfter candidate old then Some candidate else Some old)
              newestInvalid True)"

definition Current :: "time \<Rightarrow> Tracker \<Rightarrow> djed_error + Observation" where
  "Current now t =
     (case current_loop now (map snd t) None None False of
        (Some x, _, _) \<Rightarrow> Inr x
      | (None, newestInvalid, sawUnspent) \<Rightarrow>
          if \<not> sawUnspent then Inl ErrNoCurrentObservation
          else Inl (snd (the newestInvalid)))"

section \<open>The invariant\<close>

definition ref_of :: "Observation \<Rightarrow> OutputRef" where
  "ref_of x = \<lparr>ref_TxHash = ob_TxHash x, ref_TxIndex = ob_TxIndex x\<rparr>"

definition djed_ok :: "Tracker \<Rightarrow> bool" where
  "djed_ok t = (gomap_ok t \<and> list_all (\<lambda>(r, x). r = ref_of (tk_observation x)) t)"

lemma parsed_ref:
  "ParseMainnetObservation cb data utxo now = Inr x \<Longrightarrow>
     ref_of x = \<lparr>ref_TxHash = ou_TxHash utxo, ref_TxIndex = ou_TxIndex utxo\<rparr> \<and> ob_Slot x = ou_Slot utxo"
  by (auto simp: ParseMainnetObservation_def ref_of_def split: sum.splits option.splits)

lemma Apply_ok [inv_intros]: "djed_ok t \<Longrightarrow> djed_ok (snd (Apply cb data utxo now t))"
  by (auto simp: Apply_def Let_def djed_ok_def parsed_ref list_all_alist_update split: sum.splits option.splits)

lemma ConsumeAt_ok [inv_intros]: "djed_ok t \<Longrightarrow> djed_ok (ConsumeAt ref slot t)"
proof (cases "map_of t ref")
  case (Some x)
  assume ok: "djed_ok t"
  with map_of_SomeD [OF Some] have "ref = ref_of (tk_observation x)"
    by (auto simp: djed_ok_def list_all_iff)
  with ok Some show ?thesis
    by (simp add: ConsumeAt_def djed_ok_def list_all_alist_update)
qed (simp add: ConsumeAt_def)

lemma Prune_ok [inv_intros]: "djed_ok t \<Longrightarrow> djed_ok (snd (Prune n t))"
  by (auto simp: Prune_def djed_ok_def list_all_iff)

lemma unspend_observation [simp]: "tk_observation (unspend n x) = tk_observation x"
  by (simp add: unspend_def split: option.splits)

lemma djed_Rollback_ok [inv_intros]: "djed_ok t \<Longrightarrow> djed_ok (djed_Rollback n t)"
  using gomap_ok_map_vals [of "filter (\<lambda>(r, x). \<not> ob_Slot (tk_observation x) > n) t" "\<lambda>_. unspend n"]
  by (auto simp: djed_Rollback_def djed_ok_def list_all_iff)

text \<open>The outputs a tracker knows, spent or not.\<close>

definition known :: "Tracker \<Rightarrow> Observation set" where
  "known t = tk_observation ` snd ` set t"

interpretation djed_log: rollback_log djed_ok known ob_Slot djed_Rollback "\<lambda>n s. s \<le> n"
proof
  show "known (djed_Rollback n t) = {x \<in> known t. ob_Slot x \<le> n}" for t n
    by (force simp: known_def djed_Rollback_def not_less image_iff)
qed (auto intro: djed_Rollback_ok)

section \<open>The current observation\<close>

definition djed_key :: "Observation \<Rightarrow> u64 \<times> u32 \<times> u32 \<times> string" where
  "djed_key x = (ob_Slot x, ob_TransactionIndex x, ob_TxIndex x, ob_TxHash x)"

lemma observationAfter_key: "observationAfter a b \<longleftrightarrow> djed_key b < djed_key a"
  by (auto simp: observationAfter_def djed_key_def less_prod_simp)

definition usable :: "time \<Rightarrow> trackedObservation \<Rightarrow> bool" where
  "usable now x = (tk_spentAt x = None \<and> ValidateAt (tk_observation x) now = None)"

definition candidates :: "time \<Rightarrow> trackedObservation list \<Rightarrow> Observation set" where
  "candidates now xs = tk_observation ` {x \<in> set xs. usable now x}"

lemma candidates_filter: "candidates now xs = set (map tk_observation (filter (usable now) xs))"
  by (auto simp: candidates_def)

lemma current_loop_spec:
  assumes "current_loop now xs cur bad saw = (cur', bad', saw')"
  shows "(cur' = None \<longleftrightarrow> cur = None \<and> candidates now xs = {})
    \<and> (\<forall>x. cur' = Some x \<longrightarrow> (cur = Some x \<or> x \<in> candidates now xs)
         \<and> (\<forall>y \<in> candidates now xs. djed_key y \<le> djed_key x)
         \<and> (\<forall>y. cur = Some y \<longrightarrow> djed_key y \<le> djed_key x))
    \<and> (saw' \<longleftrightarrow> saw \<or> (\<exists>x \<in> set xs. tk_spentAt x = None))"
  using assms
proof (induction xs arbitrary: cur bad saw)
  case Nil
  then show ?case by (auto simp: candidates_def)
next
  case (Cons x xs)
  show ?case
  proof (cases "usable now x")
    case False
    then have c: "candidates now (x # xs) = candidates now xs"
      by (auto simp: candidates_def)
    show ?thesis
    proof (cases "tk_spentAt x = None")
      case True
      then obtain e where "ValidateAt (tk_observation x) now = Some e"
        using False by (auto simp: usable_def)
      with Cons.prems True obtain i where "current_loop now xs cur i True = (cur', bad', saw')"
        by (auto simp: Let_def)
      from Cons.IH [OF this] True show ?thesis by (simp add: c)
    next
      case spent: False
      with Cons.prems have "current_loop now xs cur bad saw = (cur', bad', saw')" by simp
      from Cons.IH [OF this] spent show ?thesis unfolding c by auto
    qed
  next
    case True
    let ?o = "tk_observation x"
    let ?cur = "case cur of None \<Rightarrow> Some ?o | Some old \<Rightarrow> if observationAfter ?o old then Some ?o else Some old"
    have c: "candidates now (x # xs) = insert ?o (candidates now xs)"
      using True by (auto simp: candidates_def)
    have "current_loop now xs ?cur bad True = (cur', bad', saw')"
      using Cons.prems True by (simp add: usable_def Let_def)
    note IH = Cons.IH [OF this]
    have "?cur \<noteq> None" by (auto split: option.splits)
    moreover have "?cur = Some z \<Longrightarrow> (cur = Some z \<or> z = ?o) \<and> djed_key ?o \<le> djed_key z
        \<and> (\<forall>y. cur = Some y \<longrightarrow> djed_key y \<le> djed_key z)" for z
      by (auto simp: observationAfter_key not_less split: option.splits if_splits)
    moreover have "tk_spentAt x = None" using True by (simp add: usable_def)
    ultimately show ?thesis
      using IH unfolding c by (cases ?cur) (auto intro: order_trans)
  qed
qed

lemma Current_cases:
  "(case Current now t of
      Inr x \<Rightarrow> x \<in> candidates now (map snd t) \<and> (\<forall>y \<in> candidates now (map snd t). djed_key y \<le> djed_key x)
    | Inl e \<Rightarrow> candidates now (map snd t) = {})"
proof -
  obtain c i s where l: "current_loop now (map snd t) None None False = (c, i, s)"
    by (metis prod_cases3)
  from current_loop_spec [OF l] l show ?thesis
    by (cases c) (auto simp: Current_def)
qed

lemma djed_key_inj:
  assumes "djed_ok t" and "(r, x) \<in> set t" and "(r', y) \<in> set t"
    and "djed_key (tk_observation x) = djed_key (tk_observation y)"
  shows "x = y"
proof -
  have "r = ref_of (tk_observation x)" "r' = ref_of (tk_observation y)"
    using assms(1-3) by (auto simp: djed_ok_def list_all_iff)
  then have "r = r'"
    using assms(4) by (simp add: ref_of_def djed_key_def)
  moreover have "map_of t r = Some x" "map_of t r' = Some y"
    using assms(1-3) by (simp_all add: djed_ok_def gomap_ok_mem)
  ultimately show ?thesis by simp
qed

lemma Current_unique:
  assumes "djed_ok t" and "x \<in> candidates now (map snd t)"
    and "\<forall>y \<in> candidates now (map snd t). djed_key y \<le> djed_key x"
  shows "Current now t = Inr x"
proof (cases "Current now t")
  case (Inl e)
  with Current_cases [of now t] assms(2) show ?thesis by auto
next
  case (Inr z)
  with Current_cases [of now t] have z: "z \<in> candidates now (map snd t)"
    "\<forall>y \<in> candidates now (map snd t). djed_key y \<le> djed_key z" by auto
  then have "djed_key z = djed_key x" using assms(2,3) by (meson order_antisym)
  moreover obtain r r' a b where "(r, a) \<in> set t" "x = tk_observation a" "(r', b) \<in> set t" "z = tk_observation b"
    using assms(2) z(1) by (auto simp: candidates_def)
  ultimately have "z = x" using djed_key_inj [OF assms(1)] by metis
  with Inr show ?thesis by simp
qed

lemma Current_cong:
  assumes "djed_ok t" and "djed_ok u" and "candidates now (map snd t) = candidates now (map snd u)"
    and "candidates now (map snd t) \<noteq> {}"
  shows "Current now t = Current now u"
  using Current_cases [of now t] assms(3,4) Current_unique [OF assms(2)]
  by (cases "Current now t") auto

section \<open>Rollback and pruning\<close>

datatype djed_op =
    OpApply bytes OracleUTxO time
  | OpConsume OutputRef u64

fun djed_step :: "cbor_lib \<Rightarrow> djed_op \<Rightarrow> Tracker \<Rightarrow> Tracker" where
  "djed_step cb (OpApply data utxo now) t = snd (Apply cb data utxo now t)"
| "djed_step cb (OpConsume ref slot) t = ConsumeAt ref slot t"

text \<open>
  An operation of a block after slot \<open>n\<close>; it does not spend an output that was already spent by then.
\<close>

fun op_after :: "u64 \<Rightarrow> Tracker \<Rightarrow> djed_op \<Rightarrow> bool" where
  "op_after n t (OpApply data utxo now) = (ou_Slot utxo > n)"
| "op_after n t (OpConsume ref slot) =
     (slot > n \<and> (case map_of t ref of None \<Rightarrow> True
                   | Some x \<Rightarrow> (case tk_spentAt x of None \<Rightarrow> True | Some s \<Rightarrow> s > n)))"

fun ops_after :: "cbor_lib \<Rightarrow> u64 \<Rightarrow> djed_op list \<Rightarrow> Tracker \<Rightarrow> bool" where
  "ops_after cb n [] t = True"
| "ops_after cb n (op # ops) t = (op_after n t op \<and> ops_after cb n ops (djed_step cb op t))"

text \<open>A tracker whose outputs and spends are all at or before slot \<open>n\<close>.\<close>

definition settled :: "u64 \<Rightarrow> Tracker \<Rightarrow> bool" where
  "settled n t = list_all (\<lambda>(r, x). ob_Slot (tk_observation x) \<le> n
     \<and> (case tk_spentAt x of None \<Rightarrow> True | Some s \<Rightarrow> s \<le> n)) t"

lemma update_new: "map_of m k = None \<Longrightarrow> AList.update k v m = m @ [(k, v)]"
  by (induction m) (auto split: if_splits)

lemma djed_Rollback_append: "djed_Rollback n (t @ u) = djed_Rollback n t @ djed_Rollback n u"
  by (simp add: djed_Rollback_def)

lemma djed_Rollback_update:
  assumes "map_of t ref = Some x" and "tk_observation y = tk_observation x" and "unspend n y = unspend n x"
  shows "djed_Rollback n (AList.update ref y t) = djed_Rollback n t"
  using assms by (induction t) (auto simp: djed_Rollback_def split: if_splits)

lemma step_after_rollback:
  assumes "op_after n t op"
  shows "djed_Rollback n (djed_step cb op t) = djed_Rollback n t"
proof (cases op)
  case (OpApply data utxo now)
  show ?thesis
  proof (cases "ParseMainnetObservation cb data utxo now")
    case (Inr x)
    with assms OpApply parsed_ref [OF Inr] show ?thesis
      by (auto simp: Apply_def Let_def update_new djed_Rollback_append split: option.splits)
        (simp add: djed_Rollback_def)
  qed (simp add: OpApply Apply_def)
next
  case (OpConsume ref slot)
  show ?thesis
  proof (cases "map_of t ref")
    case (Some x)
    have "unspend n (x\<lparr>tk_spentAt := Some slot\<rparr>) = unspend n x"
      using assms OpConsume Some by (cases x) (auto simp: unspend_def split: option.splits)
    with Some OpConsume show ?thesis
      by (simp add: ConsumeAt_def djed_Rollback_update)
  qed (simp add: OpConsume ConsumeAt_def)
qed

lemma settled_rollback: "settled n t \<Longrightarrow> djed_Rollback n t = t"
proof (induction t)
  case (Cons p t)
  then show ?case
    by (auto simp: settled_def djed_Rollback_def unspend_def not_less split: option.splits)
qed (simp add: djed_Rollback_def)

lemma current_loop_unspent:
  "current_loop now xs cur bad saw = current_loop now (filter (\<lambda>x. tk_spentAt x = None) xs) cur bad saw"
proof (induction xs arbitrary: cur bad saw)
  case (Cons x xs)
  show ?case
    by (cases "tk_spentAt x"; cases "ValidateAt (tk_observation x) now")
      (simp_all add: Let_def Cons.IH [symmetric])
qed simp

lemma unspent_after_prune:
  assumes "b \<le> n"
  shows "filter (\<lambda>x. tk_spentAt x = None) (map snd (djed_Rollback n (snd (Prune b t)))) =
    filter (\<lambda>x. tk_spentAt x = None) (map snd (djed_Rollback n t))"
proof -
  have spent: "\<not> prunable b x" if "tk_spentAt (unspend n x) = None" for x
    using that assms by (auto simp: prunable_def unspend_def split: option.splits if_splits)
  show ?thesis
    unfolding djed_Rollback_def Prune_def by (induction t) (auto dest: spent)
qed

section \<open>Authentication\<close>

lemma valid_rate:
  "ValidateMainnet d utxo now = None \<Longrightarrow> PriceNumerator d \<noteq> 0 \<and> PriceDenominator d \<noteq> 0"
  by (auto simp: ValidateMainnet_def split: sum.splits if_splits)

lemma rate_finite:
  assumes "PriceDenominator d \<noteq> 0"
  shows "\<exists>f. finiteRateFloat64 (of_int (int (unat (PriceNumerator d))) / of_int (int (unat (PriceDenominator d)))) = Inr f"
proof -
  let ?n = "int (unat (PriceNumerator d))" and ?d = "int (unat (PriceDenominator d))"
  have "0 < unat (PriceDenominator d)" using assms by (simp add: unat_gt_0)
  then have d: "1 \<le> ?d" by linarith
  have n: "0 \<le> ?n" "?n < 2 ^ 64" by (rule of_nat_0_le_iff) (rule int_unat_u64_bound)
  have "(of_int ?n :: rat) / of_int ?d \<le> of_int ?n / 1"
  proof (rule divide_left_mono)
    show "(1 :: rat) \<le> of_int ?d" using d by (simp only: of_int_1_le_iff)
    show "(0 :: rat) \<le> of_int ?n" using n(1) by (simp only: of_int_0_le_iff)
  qed (use d in \<open>simp only: mult_1_right of_int_0_less_iff\<close>)
  also have "\<dots> < of_int (2 ^ 64)" using n(2) by (simp only: div_by_1 of_int_less_iff)
  finally have "(of_int ?n :: rat) / of_int ?d < 2 ^ 1023" by (rule less_trans) simp
  moreover have "(0 :: rat) \<le> of_int ?n / of_int ?d"
    using n(1) d by (intro divide_nonneg_nonneg) (simp_all only: of_int_0_le_iff)
  ultimately have "f64_isfinite (f64_of_rat (of_int ?n / of_int ?d))"
    by (intro f64_of_rat_finite) (simp only: abs_of_nonneg)
  then show ?thesis
    unfolding finiteRateFloat64_def f64_isfinite_def by (simp split: f64.splits)
qed

section \<open>Properties\<close>

text \<open>C20: the current observation is the newest, in chain order, of the unspent observations that are
  valid at the given time, and there is one exactly when such an observation exists; the answer does
  not depend on the order in which the map is walked.\<close>

theorem current_is_newest_valid:
  assumes "djed_ok t"
  shows "Current now t = Inr x \<longleftrightarrow>
    x \<in> candidates now (map snd t) \<and> (\<forall>y \<in> candidates now (map snd t). djed_key y \<le> djed_key x)"
  using Current_cases [of now t] Current_unique [OF assms, of x now] by (auto split: sum.splits)

text \<open>C21: rolling back undoes everything after the rollback point: applying any outputs and spends of
  later blocks to a settled tracker and rolling back to its slot gives the tracker back.\<close>

theorem djed_rollback_undoes:
  assumes "settled n t" and "ops_after cb n ops t"
  shows "djed_Rollback n (fold (djed_step cb) ops t) = t"
proof -
  have "djed_Rollback n (fold (djed_step cb) ops u) = djed_Rollback n u" if "ops_after cb n ops u" for u
    using that
  proof (induction ops arbitrary: u)
    case (Cons op ops)
    then show ?case using step_after_rollback [of n u op cb] by simp
  qed simp
  with assms settled_rollback show ?thesis by metis
qed

text \<open>Pruning below a horizon is invisible to every later rollback that stays at or above it: the
  current observation after such a rollback is the same with and without the pruning.\<close>

lemma prune_within_horizon_unobservable:
  assumes "b \<le> n"
  shows "Current now (djed_Rollback n (snd (Prune b t))) = Current now (djed_Rollback n t)"
  unfolding Current_def
  by (subst (1 2) current_loop_unspent) (simp only: unspent_after_prune [OF assms])

text \<open>An observation is accepted exactly when the datum decodes and authenticates against the mainnet
  deployment at the given time; its price is then a positive fraction with a finite float, and the
  observation itself is valid at that time.\<close>

lemma accepted_observation_authenticated:
  "((\<exists>x. ParseMainnetObservation cb data utxo now = Inr x) \<longleftrightarrow>
      (\<exists>d. ParseOracleDatum cb data = Inr d \<and> ValidateMainnet d utxo now = None))
   \<and> (ParseMainnetObservation cb data utxo now = Inr x \<longrightarrow>
      ValidateAt x now = None \<and> ob_PriceNumerator x \<noteq> 0 \<and> ob_PriceDenominator x \<noteq> 0
      \<and> ou_Address utxo = MainnetOracleAddress \<and> f64_isfinite (ob_Price x))"
proof -
  have rate: "\<exists>r f. datum_Rat d = Inr r \<and> finiteRateFloat64 r = Inr f" if "ValidateMainnet d utxo now = None" for d
    using valid_rate [OF that] rate_finite [of d] by (auto simp: datum_Rat_def)
  have ok: "\<exists>x. ParseMainnetObservation cb data utxo now = Inr x"
    if "ParseOracleDatum cb data = Inr d" "ValidateMainnet d utxo now = None" for d
    using rate [OF that(2)] that by (auto simp: ParseMainnetObservation_def)
  have inv: "\<exists>d r. ParseOracleDatum cb data = Inr d \<and> ValidateMainnet d utxo now = None
      \<and> finiteRateFloat64 r = Inr (ob_Price x) \<and> ob_PriceNumerator x = PriceNumerator d
      \<and> ob_PriceDenominator x = PriceDenominator d
      \<and> ValidateAt x now = validateInterval (ValidFrom d) (ValidFromInclusive d) (ValidUntil d) (ValidUntilInclusive d) now"
    if "ParseMainnetObservation cb data utxo now = Inr x" for x
    using that by (auto simp: ParseMainnetObservation_def ValidateAt_def split: sum.splits option.splits)
  have valid: "ou_Address utxo = MainnetOracleAddress
      \<and> validateInterval (ValidFrom d) (ValidFromInclusive d) (ValidUntil d) (ValidUntilInclusive d) now = None"
    if "ValidateMainnet d utxo now = None" for d
    using that by (auto simp: ValidateMainnet_def split: sum.splits if_splits)
  have fin: "f64_isfinite f" if "finiteRateFloat64 r = Inr f" for r f
    using that by (auto simp: finiteRateFloat64_def f64_isfinite_def split: f64.splits)
  show ?thesis
    using ok inv valid valid_rate fin by metis
qed

section \<open>Witnesses\<close>

definition sample_observation :: "u64 \<Rightarrow> string \<Rightarrow> Observation" where
  "sample_observation slot h =
     \<lparr>ob_Pair = ''ADA/USD'', ob_Source = ''djed'', ob_PriceNumerator = 1, ob_PriceDenominator = 2,
      ob_Price = Fin (1 / 2), ob_ValidFrom = 100, ob_ValidFromInclusive = True, ob_ValidUntil = 200,
      ob_ValidUntilInclusive = False, ob_TxHash = h, ob_TxIndex = 0, ob_TransactionIndex = 1,
      ob_Slot = slot, ob_BlockHash = ''b''\<rparr>"

definition sample_tracker :: Tracker where
  "sample_tracker =
     [(\<lparr>ref_TxHash = ''a'', ref_TxIndex = 0\<rparr>, \<lparr>tk_observation = sample_observation 4 ''a'', tk_spentAt = Some 8\<rparr>),
      (\<lparr>ref_TxHash = ''b'', ref_TxIndex = 0\<rparr>, \<lparr>tk_observation = sample_observation 8 ''b'', tk_spentAt = None\<rparr>)]"

lemma sample_tracker_ok: "djed_ok sample_tracker"
  by (simp add: djed_ok_def gomap_ok_def sample_tracker_def ref_of_def sample_observation_def)

theorem current_is_newest_valid_witness:
  "Current 150 sample_tracker = Inr (sample_observation 8 ''b'')"
proof -
  have "candidates 150 (map snd sample_tracker) = {sample_observation 8 ''b''}"
    unfolding candidates_filter
    by (simp add: usable_def sample_tracker_def ValidateAt_def validateInterval_def sample_observation_def)
  then show ?thesis
    using current_is_newest_valid [OF sample_tracker_ok, of 150 "sample_observation 8 ''b''"] by simp
qed

definition no_cbor :: cbor_lib where
  "no_cbor = \<lparr>dec_constr = \<lambda>_. None, dec_list = \<lambda>_. None, dec_bytes = \<lambda>_. None, dec_uint = \<lambda>_. None, dec_int64 = \<lambda>_. None, dec_big = \<lambda>_. None\<rparr>"

theorem djed_rollback_undoes_witness:
  "djed_Rollback 8 (fold (djed_step no_cbor) [OpConsume \<lparr>ref_TxHash = ''b'', ref_TxIndex = 0\<rparr> 9] sample_tracker) = sample_tracker"
  by (rule djed_rollback_undoes)
    (simp_all add: settled_def sample_tracker_def sample_observation_def)

text \<open>A decoder that knows one well-formed oracle datum: one half dollar, valid for five seconds.\<close>

definition sample_cbor :: cbor_lib where
  "sample_cbor =
     \<lparr>dec_constr = map_of
        [([1], (0, [10])), ([3], (0, [11])), ([5], (0, [12])), ([6], (0, [13])), ([14], (0, [16])),
         ([15], (0, [22])), ([17], (1, [19])), ([18], (1, [21])), ([23], (1, [24]))],
      dec_list = map_of
        [([10], [[2], [3], [4]]), ([11], [[5], [6], [7]]), ([12], [[8], [9]]), ([13], [[14], [15]]),
         ([16], [[17], [18]]), ([19], [[20]]), ([21], []), ([22], [[23], [18]]), ([24], [[25]])],
      dec_bytes = map_of
        [([2], replicate 64 0), ([4], the (hex_decode MainnetOraclePolicy)), ([7], [85, 83, 68])],
      dec_uint = map_of [([8], 2), ([9], 1), ([20], 0), ([25], 5000)],
      dec_int64 = map_of [([8], 2), ([9], 1), ([20], 0), ([25], 5000)], dec_big = \<lambda>_. None\<rparr>"

definition sample_utxo :: OracleUTxO where
  "sample_utxo =
     \<lparr>ou_Address = MainnetOracleAddress,
      ou_Assets = [\<lparr>Class = \<lparr>PolicyId = the (hex_decode MainnetOraclePolicy), Name = the (hex_decode OracleNFTName)\<rparr>,
                    Amount = 1\<rparr>],
      ou_TxHash = ''a'', ou_TxIndex = 0, ou_TransactionIndex = 1, ou_Slot = 4, ou_BlockHash = ''b''\<rparr>"

definition sample_accepted :: "cbor_lib \<Rightarrow> bytes \<Rightarrow> OracleUTxO \<Rightarrow> time \<Rightarrow> bool" where
  "sample_accepted cb data utxo now =
     (case ParseOracleDatum cb data of Inl _ \<Rightarrow> False | Inr d \<Rightarrow> ValidateMainnet d utxo now = None)"

lemma sample_datum_accepted: "sample_accepted sample_cbor [1] sample_utxo (UnixMilli 1000)"
  by code_simp

end
