(* ===== verification/Agreement.thy ===== *)
theory Agreement
  imports Ada_Usd Djed
begin

text \<open>
  \<open>price/agreement.go\<close>: the cross-check of the DEX estimate against the Djed observation. Both prices
  are exact rationals; they agree when their difference over the lower one is at most the configured
  ratio, and the agreed price is their midpoint.
\<close>

section \<open>Data\<close>

record CrossSourceConfig =
  MaxDivergenceNumerator :: u64
  MaxDivergenceDenominator :: u64

record CrossSourceResult =
  x_Pair :: string
  x_Source :: string
  x_Method :: string
  x_Validation :: string
  x_PriceNum :: string
  x_PriceDen :: string
  x_Price :: f64
  x_DivergenceNum :: string
  x_DivergenceDen :: string
  x_Divergence :: f64
  x_DEX :: Result
  x_Djed :: Observation
  x_price :: "rat option"

datatype cross_error =
    ErrInvalidCrossSourceConfig
  | ErrUnqualifiedDEX
  | ErrInvalidDjedObservation
  | ErrCrossSourceDivergence
  | DjedNotYetValid
  | DjedExpired

section \<open>Operations\<close>

definition DefaultCrossSourceConfig :: CrossSourceConfig where
  "DefaultCrossSourceConfig = \<lparr>MaxDivergenceNumerator = 5, MaxDivergenceDenominator = 100\<rparr>"

definition cross_Rat :: "CrossSourceResult \<Rightarrow> rat" where
  "cross_Rat r = (case x_price r of None \<Rightarrow> 0 | Some p \<Rightarrow> p)"

definition crossSourceLimit :: "CrossSourceConfig \<Rightarrow> cross_error + rat" where
  "crossSourceLimit config =
     (if MaxDivergenceDenominator config = 0 then Inl ErrInvalidCrossSourceConfig
      else Inr (of_int (int (unat (MaxDivergenceNumerator config)))
                / of_int (int (unat (MaxDivergenceDenominator config)))))"

definition qualifiedDEXPrice :: "Result \<Rightarrow> cross_error + rat" where
  "qualifiedDEXPrice result =
     (if r_Pair result \<noteq> ''ADA/USD'' \<or> r_Source result \<noteq> ''local-dex-stablecoins''
         \<or> r_Validation result \<noteq> ''qualified'' \<or> Rat result \<le> 0
      then Inl ErrUnqualifiedDEX
      else Inr (Rat result))"

definition validDjedPrice :: "Observation \<Rightarrow> time \<Rightarrow> cross_error + rat" where
  "validDjedPrice x now =
     (if ob_Pair x \<noteq> ''ADA/USD'' \<or> ob_Source x \<noteq> ''djed'' \<or> ob_PriceNumerator x = 0
         \<or> ob_PriceDenominator x = 0 \<or> ob_ValidFrom x > ob_ValidUntil x
         \<or> (ob_ValidFrom x = ob_ValidUntil x \<and> (\<not> ob_ValidFromInclusive x \<or> \<not> ob_ValidUntilInclusive x))
      then Inl ErrInvalidDjedObservation
      else if now < ob_ValidFrom x \<or> (now = ob_ValidFrom x \<and> \<not> ob_ValidFromInclusive x)
      then Inl DjedNotYetValid
      else if now > ob_ValidUntil x \<or> (now = ob_ValidUntil x \<and> \<not> ob_ValidUntilInclusive x)
      then Inl DjedExpired
      else Inr (of_int (int (unat (ob_PriceNumerator x))) / of_int (int (unat (ob_PriceDenominator x)))))"

definition CrossValidateADAUSD ::
    "Result \<Rightarrow> Observation \<Rightarrow> CrossSourceConfig \<Rightarrow> time \<Rightarrow> CrossSourceResult \<times> cross_error option" where
  "CrossValidateADAUSD dexResult djedObservation config now =
     (let result = \<lparr>x_Pair = ''ADA/USD'', x_Source = ''local-dex-djed'', x_Method = ''exact-two-source-midpoint'',
            x_Validation = ''unavailable'', x_PriceNum = [], x_PriceDen = [], x_Price = Fin 0,
            x_DivergenceNum = [], x_DivergenceDen = [], x_Divergence = Fin 0,
            x_DEX = dexResult, x_Djed = djedObservation, x_price = None\<rparr>
      in case crossSourceLimit config of
        Inl e \<Rightarrow> (result, Some e)
      | Inr maxDivergence \<Rightarrow>
     (case qualifiedDEXPrice dexResult of
        Inl e \<Rightarrow> (result, Some e)
      | Inr dexPrice \<Rightarrow>
     (case validDjedPrice djedObservation now of
        Inl e \<Rightarrow> (result, Some e)
      | Inr djedPrice \<Rightarrow>
          let (low, high) = (if dexPrice > djedPrice then (djedPrice, dexPrice) else (dexPrice, djedPrice));
              divergence = (high - low) / low;
              result1 = result\<lparr>x_DivergenceNum := show_int (fst (quotient_of divergence)),
                x_DivergenceDen := show_int (snd (quotient_of divergence)),
                x_Divergence := f64_of_rat divergence\<rparr>
          in if divergence > maxDivergence
             then (result1\<lparr>x_Validation := ''divergent''\<rparr>, Some ErrCrossSourceDivergence)
             else
               let midpoint = (dexPrice + djedPrice) / 2
               in (result1\<lparr>x_price := Some midpoint,
                     x_PriceNum := show_int (fst (quotient_of midpoint)),
                     x_PriceDen := show_int (snd (quotient_of midpoint)),
                     x_Price := f64_of_rat midpoint, x_Validation := ''qualified''\<rparr>, None))))"

section \<open>Helper facts\<close>

text \<open>What every observation that the Djed tracker applied looks like.\<close>

definition authentic :: "Observation \<Rightarrow> bool" where
  "authentic x = (ob_Pair x = ''ADA/USD'' \<and> ob_Source x = ''djed''
     \<and> ob_PriceNumerator x \<noteq> 0 \<and> ob_PriceDenominator x \<noteq> 0)"

definition djed_rate :: "Observation \<Rightarrow> rat" where
  "djed_rate x = of_int (int (unat (ob_PriceNumerator x))) / of_int (int (unat (ob_PriceDenominator x)))"

lemma parsed_authentic: "ParseMainnetObservation cb data utxo now = Inr x \<Longrightarrow> authentic x"
  by (auto simp: ParseMainnetObservation_def authentic_def dest: valid_rate split: sum.splits option.splits)

lemma Apply_authentic:
  "\<forall>x \<in> known t. authentic x \<Longrightarrow> \<forall>x \<in> known (snd (Apply cb data utxo now t)). authentic x"
  by (auto simp: Apply_def Let_def known_def dest!: set_alist_update
      intro: parsed_authentic split: sum.splits option.splits)

lemma djed_price_valid:
  assumes "authentic x" and "ValidateAt x now = None"
  shows "validDjedPrice x now = Inr (djed_rate x)"
  using assms
  by (auto simp: authentic_def ValidateAt_def validateInterval_def validDjedPrice_def djed_rate_def split: if_splits)

lemma validDjedPrice_pos: "validDjedPrice x now = Inr p \<Longrightarrow> 0 < p"
proof -
  assume "validDjedPrice x now = Inr p"
  then have "p = djed_rate x" "ob_PriceNumerator x \<noteq> 0" "ob_PriceDenominator x \<noteq> 0"
    by (auto simp: validDjedPrice_def djed_rate_def split: if_splits)
  moreover have "0 < int (unat a)" if "a \<noteq> 0" for a :: u64
    using that by (simp only: of_nat_0_less_iff unat_gt_0 not_False_eq_True)
  ultimately show ?thesis
    unfolding djed_rate_def by (simp only: zero_less_divide_iff of_int_0_less_iff) blast
qed

lemma aggregate_qualified:
  assumes "AggregateADAUSDAt pools config now = (r, None)"
  shows "r_Pair r = ''ADA/USD'' \<and> r_Source r = ''local-dex-stablecoins'' \<and> r_Validation r = ''qualified''"
  using assms
  by (auto simp: AggregateADAUSDAt_def Let_def split: option.splits sum.splits if_splits prod.splits)

lemma Current_candidate: "Current now t = Inr x \<Longrightarrow> x \<in> known t \<and> ValidateAt x now = None"
  using Current_cases [of now t] by (auto simp: candidates_def known_def usable_def)

lemma aggregate_price_pos:
  assumes "AggregateADAUSDAt pools config now = (r, None)"
  shows "\<exists>m. r_price r = Some m \<and> 0 < m"
proof -
  have valid: "validateConfig config = None"
    using assms by (auto simp: AggregateADAUSDAt_def split: option.splits)
  obtain obs where obs: "observationsFromPools pools config now = Inr obs"
    "\<And>x. x \<in> set obs \<Longrightarrow> qualified_observation pools config now x"
    using observationsFromPools_eq [of pools config now] by blast
  note eq = Aggregate_eq [OF valid obs valid_divergence [OF valid]]
  obtain m where m: "r_price r = Some m" "median_of obs m"
    using eq assms by auto
  with median_finite(2) [OF obs(2) m(2)] show ?thesis by blast
qed

lemma divergence_le_iff:
  assumes "(0 :: rat) < a" and "0 < b"
  shows "(max a b - min a b) / min a b \<le> d \<longleftrightarrow> max a b \<le> (1 + d) * min a b"
  using assms by (simp add: min_def max_def pos_divide_le_eq algebra_simps)

lemma CrossValidate_eq:
  assumes "crossSourceLimit config = Inr d" and "qualifiedDEXPrice dex = Inr a" and "validDjedPrice x now = Inr b"
  shows "snd (CrossValidateADAUSD dex x config now) =
      (if max a b \<le> (1 + d) * min a b then None else Some ErrCrossSourceDivergence)"
    and "max a b \<le> (1 + d) * min a b \<Longrightarrow>
      x_price (fst (CrossValidateADAUSD dex x config now)) = Some ((a + b) / 2)"
proof -
  have "0 < a" using assms(2) by (auto simp: qualifiedDEXPrice_def split: if_splits)
  moreover have "0 < b" by (rule validDjedPrice_pos [OF assms(3)])
  ultimately have d: "(max a b - min a b) / min a b \<le> d \<longleftrightarrow> max a b \<le> (1 + d) * min a b"
    by (rule divergence_le_iff)
  have lh: "(if a > b then (b, a) else (a, b)) = (min a b, max a b)"
    by (auto simp: min_def max_def)
  show "snd (CrossValidateADAUSD dex x config now) =
      (if max a b \<le> (1 + d) * min a b then None else Some ErrCrossSourceDivergence)"
    unfolding CrossValidateADAUSD_def Let_def assms sum.case lh prod.case using d by (simp add: not_less [symmetric])
  show "x_price (fst (CrossValidateADAUSD dex x config now)) = Some ((a + b) / 2)"
    if "max a b \<le> (1 + d) * min a b"
    unfolding CrossValidateADAUSD_def Let_def assms sum.case lh prod.case using d that by (simp add: not_less [symmetric])
qed

section \<open>Properties\<close>

text \<open>The cross-check agrees exactly when the limit is usable, the DEX result is qualified with a
  positive price, the Djed observation is valid at the given time, and the higher price exceeds the
  lower one by at most the configured ratio; the agreed price is then their exact midpoint.\<close>

lemma cross_check_exact:
  "snd (CrossValidateADAUSD dex x config now) = None \<longleftrightarrow>
     (\<exists>d a b. crossSourceLimit config = Inr d \<and> qualifiedDEXPrice dex = Inr a \<and> validDjedPrice x now = Inr b
        \<and> max a b \<le> (1 + d) * min a b
        \<and> x_price (fst (CrossValidateADAUSD dex x config now)) = Some ((a + b) / 2))"
proof
  assume none: "snd (CrossValidateADAUSD dex x config now) = None"
  then obtain d a b where dab: "crossSourceLimit config = Inr d" "qualifiedDEXPrice dex = Inr a"
      "validDjedPrice x now = Inr b"
    by (auto simp: CrossValidateADAUSD_def Let_def split: sum.splits)
  with none CrossValidate_eq [OF dab] show "\<exists>d a b. crossSourceLimit config = Inr d \<and> qualifiedDEXPrice dex = Inr a
      \<and> validDjedPrice x now = Inr b \<and> max a b \<le> (1 + d) * min a b
      \<and> x_price (fst (CrossValidateADAUSD dex x config now)) = Some ((a + b) / 2)"
    by (auto split: if_splits)
qed (auto simp: CrossValidate_eq)

text \<open>C22: a published DEX estimate and the current observation of a tracker fed by \<open>Apply\<close> always
  cross-validate with a usable limit, except that they may diverge: no other error is
  possible.\<close>

theorem pipeline_fails_only_by_divergence:
  assumes "AggregateADAUSDAt pools config now = (r, None)"
    and "list_all authentic (map (tk_observation \<circ> snd) t)" and "Current now t = Inr x"
    and "MaxDivergenceDenominator limit \<noteq> 0"
  shows "snd (CrossValidateADAUSD r x limit now) \<in> {None, Some ErrCrossSourceDivergence}"
proof -
  obtain m where m: "r_price r = Some m" "0 < m"
    using aggregate_price_pos [OF assms(1)] by blast
  then have "qualifiedDEXPrice r = Inr m"
    using aggregate_qualified [OF assms(1)] by (simp add: qualifiedDEXPrice_def Rat_def)
  moreover have "authentic x" "ValidateAt x now = None"
    using Current_candidate [OF assms(3)] assms(2) by (auto simp: known_def list_all_iff)
  then have "validDjedPrice x now = Inr (djed_rate x)" by (rule djed_price_valid)
  moreover obtain d where "crossSourceLimit limit = Inr d"
    using assms(4) by (auto simp: crossSourceLimit_def)
  ultimately show ?thesis by (simp add: CrossValidate_eq)
qed

section \<open>Witnesses\<close>

theorem pipeline_fails_only_by_divergence_witness:
  "\<exists>r. AggregateADAUSDAt [Some ada_usdm_pool] usdm_config 150 = (r, None)
     \<and> snd (CrossValidateADAUSD r (sample_observation 8 ''b'') DefaultCrossSourceConfig 150)
         \<in> {None, Some ErrCrossSourceDivergence}"
proof -
  obtain r where r: "AggregateADAUSDAt [Some ada_usdm_pool] usdm_config 150 = (r, None)"
    using usdm_published by blast
  have "candidates 150 (map snd sample_tracker) = {sample_observation 8 ''b''}"
    unfolding candidates_filter
    by (simp add: usable_def sample_tracker_def ValidateAt_def validateInterval_def sample_observation_def)
  then have cur: "Current 150 sample_tracker = Inr (sample_observation 8 ''b'')"
    by (intro Current_unique [OF sample_tracker_ok]) simp_all
  have auth: "list_all authentic (map (tk_observation \<circ> snd) sample_tracker)"
    by (simp add: sample_tracker_def authentic_def sample_observation_def)
  have den: "MaxDivergenceDenominator DefaultCrossSourceConfig \<noteq> 0"
    by (simp add: DefaultCrossSourceConfig_def)
  show ?thesis
    using r pipeline_fails_only_by_divergence [OF r auth cur den] by blast
qed

end
