(* ===== verification/Sha256.thy ===== *)
theory Sha256
  imports Prelude
begin

text \<open>
  SHA-256 as \<open>crypto/sha256.Sum256\<close> computes it, for the storage keys and pool identifiers that are
  built from it: padding, message schedule and compression over 32-bit words. The development needs
  only that a digest has 32 bytes.
\<close>

unbundle bit_operations_syntax

text \<open>
  The constants are the first 32 bits of the fractional parts of the cube and square roots of the
  first primes: \<open>root_frac k p\<close> is the \<open>k\<close>-th root of \<open>p\<close> times \<open>2 ^ 32\<close>, found bit by bit from the top
  (36 bits are enough for primes up to 311), reduced modulo \<open>2 ^ 32\<close>.
\<close>

definition root_frac :: "nat \<Rightarrow> int \<Rightarrow> u32" where
  "root_frac k p = word_of_int
     (fold (\<lambda>b acc. if (acc + 2 ^ b) ^ k \<le> p * 2 ^ (32 * k) then acc + 2 ^ b else acc) (rev [0..<37]) 0)"

definition small_primes :: "int list" where
  "small_primes = filter (\<lambda>n. list_all (\<lambda>d. n mod d \<noteq> 0) [2..n - 1]) [2..311]"

definition sha_k :: "u32 list" where
  "sha_k = map (root_frac 3) small_primes"

definition sha_init :: "u32 list" where
  "sha_init = map (root_frac 2) [2, 3, 5, 7, 11, 13, 17, 19]"

definition rotr :: "nat \<Rightarrow> u32 \<Rightarrow> u32" where
  "rotr n w = drop_bit n w OR push_bit (32 - n) w"

definition be_word :: "bytes \<Rightarrow> u32" where
  "be_word bs = fold (\<lambda>b acc. push_bit 8 acc OR ucast b) bs 0"

definition be_bytes :: "nat \<Rightarrow> 'a::len word \<Rightarrow> bytes" where
  "be_bytes n w = map (\<lambda>i. ucast (drop_bit (8 * (n - 1 - i)) w)) [0..<n]"

definition sha_pad :: "bytes \<Rightarrow> bytes" where
  "sha_pad m = m @ [0x80] @ replicate ((119 - length m mod 64) mod 64) 0
     @ be_bytes 8 (word_of_nat (8 * length m) :: u64)"

fun chunks :: "nat \<Rightarrow> 'a list \<Rightarrow> 'a list list" where
  "chunks n xs = (if n = 0 \<or> xs = [] then [] else take n xs # chunks n (drop n xs))"

declare chunks.simps [simp del]

text \<open>The schedule is built newest word first.\<close>

fun sha_extend :: "nat \<Rightarrow> u32 list \<Rightarrow> u32 list" where
  "sha_extend 0 ws = ws"
| "sha_extend (Suc n) ws =
     (let w2 = ws ! 1; w7 = ws ! 6; w15 = ws ! 14; w16 = ws ! 15;
          s0 = rotr 7 w15 XOR rotr 18 w15 XOR drop_bit 3 w15;
          s1 = rotr 17 w2 XOR rotr 19 w2 XOR drop_bit 10 w2
      in sha_extend n ((w16 + s0 + w7 + s1) # ws))"

definition sha_schedule :: "bytes \<Rightarrow> u32 list" where
  "sha_schedule block = rev (sha_extend 48 (rev (map be_word (chunks 4 block))))"

fun sha_round :: "u32 \<times> u32 \<Rightarrow> u32 list \<Rightarrow> u32 list" where
  "sha_round (k, w) [a, b, c, d, e, f, g, h] =
     (let s1 = rotr 6 e XOR rotr 11 e XOR rotr 25 e;
          ch = (e AND f) XOR (NOT e AND g);
          t1 = h + s1 + ch + k + w;
          s0 = rotr 2 a XOR rotr 13 a XOR rotr 22 a;
          maj = (a AND b) XOR (a AND c) XOR (b AND c);
          t2 = s0 + maj
      in [t1 + t2, a, b, c, d + t1, e, f, g])"
| "sha_round _ hs = hs"

definition sha_block :: "bytes \<Rightarrow> u32 list \<Rightarrow> u32 list" where
  "sha_block block hs = map2 (+) hs (fold sha_round (zip sha_k (sha_schedule block)) hs)"

definition Sum256 :: "bytes \<Rightarrow> bytes" where
  "Sum256 m = concat (map (be_bytes 4) (fold sha_block (chunks 64 (sha_pad m)) sha_init))"

text \<open>A Go string is its bytes.\<close>

definition bytes_of_string :: "string \<Rightarrow> bytes" where
  "bytes_of_string s = map (\<lambda>c. word_of_nat (of_char c)) s"

lemma sha_round_length: "length (sha_round kw hs) = length hs"
  by (cases "(kw, hs)" rule: sha_round.cases) (simp_all add: Let_def)

lemma sha_rounds_length: "length (fold sha_round kws hs) = length hs"
  by (induction kws arbitrary: hs) (simp_all add: sha_round_length)

lemma sha_block_length: "length (sha_block b hs) = length hs"
  by (simp add: sha_block_def sha_rounds_length)

lemma sha_blocks_length: "length (fold sha_block bs hs) = length hs"
  by (induction bs arbitrary: hs) (simp_all add: sha_block_length)

lemma length_Sum256 [simp]: "length (Sum256 m) = 32"
proof -
  have "length (concat (map (be_bytes 4) ws)) = 4 * length ws" for ws :: "u32 list"
    by (induction ws) (simp_all add: be_bytes_def)
  then show ?thesis by (simp add: Sum256_def sha_blocks_length sha_init_def)
qed

end
