(* ===== verification/Indigo.thy ===== *)
theory Indigo
  imports Cbor
begin

text \<open>
  Indigo collateralised debt positions (\<open>internal/oracle/indigo/models.go\<close>, \<open>parser.go\<close>): the datum
  structures with their custom decoders, the position state and its identifier. A decoder takes
  Plutus data and returns the structure, or \<open>None\<close> for the decoding errors, which the caller only
  wraps.
\<close>

section \<open>Data\<close>

record MaybePubKeyHash =
  IsJust :: bool
  Hash :: bytes

record AccumulatedFees =
  af_Type :: nat
  af_LastUpdated :: int
  af_IAssetAmount :: int
  af_Treasury :: int
  af_IndyStakers :: int

record CDPInner =
  ci_Owner :: MaybePubKeyHash
  ci_IAsset :: bytes
  ci_MintedAmount :: int
  ci_AccumulatedFees :: AccumulatedFees

record CDPState =
  CDPId :: string
  cdp_Network :: string
  cdp_Protocol :: string
  Owner :: string
  HasOwner :: bool
  IAsset :: string
  MintedAmount :: int
  cdp_Slot :: u64
  cdp_BlockHash :: string
  cdp_TxHash :: string
  cdp_TxIndex :: u32
  cdp_Timestamp :: time
  cdp_UpdatedAt :: time
  FeesType :: nat
  LastUpdated :: int
  IAssetFees :: int
  Treasury :: int
  IndyStakers :: int

definition IndigoProtocolName :: string where
  "IndigoProtocolName = ''indigo''"

section \<open>Decoders\<close>

text \<open>\<open>MaybePubKeyHash.UnmarshalCBOR\<close>.\<close>

definition decode_MaybePubKeyHash :: "plutus_data \<Rightarrow> MaybePubKeyHash option" where
  "decode_MaybePubKeyHash d = (case d of
     Constr tag flds \<Rightarrow>
       if tag = 0 then
         (case flds of
            [h] \<Rightarrow> map_option (\<lambda>b. \<lparr>IsJust = True, Hash = b\<rparr>) (as_bytes h)
          | _ \<Rightarrow> None)
       else if tag = 1 then Some \<lparr>IsJust = False, Hash = []\<rparr>
       else None
   | _ \<Rightarrow> None)"

text \<open>\<open>AccumulatedFees.UnmarshalCBOR\<close>.\<close>

definition decode_AccumulatedFees :: "plutus_data \<Rightarrow> AccumulatedFees option" where
  "decode_AccumulatedFees d = (case d of
     Constr tag flds \<Rightarrow>
       (case flds of
          [a, b] \<Rightarrow>
            (case (as_int64 a, as_int64 b) of
               (Some x, Some y) \<Rightarrow>
                 if tag = 0 then Some \<lparr>af_Type = 0, af_LastUpdated = x, af_IAssetAmount = y, af_Treasury = 0, af_IndyStakers = 0\<rparr>
                 else if tag = 1 then Some \<lparr>af_Type = 1, af_LastUpdated = 0, af_IAssetAmount = 0, af_Treasury = x, af_IndyStakers = y\<rparr>
                 else None
             | _ \<Rightarrow> None)
        | _ \<Rightarrow> None)
   | _ \<Rightarrow> None)"

text \<open>\<open>CDPInner.UnmarshalCBOR\<close>.\<close>

definition decode_CDPInner :: "plutus_data \<Rightarrow> CDPInner option" where
  "decode_CDPInner d = (case d of
     Constr tag flds \<Rightarrow>
       if tag \<noteq> 0 then None
       else (case flds of
          [ow, ia, mi, fe] \<Rightarrow>
            (case (decode_MaybePubKeyHash ow, as_bytes ia, as_int64 mi, decode_AccumulatedFees fe) of
               (Some own, Some ias, Some minted, Some fees) \<Rightarrow>
                 Some \<lparr>ci_Owner = own, ci_IAsset = ias, ci_MintedAmount = minted, ci_AccumulatedFees = fees\<rparr>
             | _ \<Rightarrow> None)
        | _ \<Rightarrow> None)
   | _ \<Rightarrow> None)"

text \<open>
  \<open>CDPContentDatum.UnmarshalCBOR\<close>: an error, or the inner structure, which is nil when the outer
  constructor is another one.
\<close>

definition decode_CDPContentDatum :: "plutus_data \<Rightarrow> CDPInner option option" where
  "decode_CDPContentDatum d = (case d of
     Constr tag flds \<Rightarrow>
       if tag \<noteq> 0 then Some None
       else (case flds of
          [i] \<Rightarrow> map_option Some (decode_CDPInner i)
        | _ \<Rightarrow> None)
   | _ \<Rightarrow> None)"

section \<open>Parser\<close>

definition GenerateCDPId :: "string \<Rightarrow> u32 \<Rightarrow> string" where
  "GenerateCDPId txHash txIndex = ''indigo_cdp_'' @ txHash @ ''#'' @ show_nat (unat txIndex)"

definition ParseCDPDatum ::
  "datum_decoder \<Rightarrow> bytes \<Rightarrow> string \<Rightarrow> u32 \<Rightarrow> u64 \<Rightarrow> time \<Rightarrow> unit + CDPState option" where
  "ParseCDPDatum dec datum txHash txIndex slot timestamp =
     (case Option.bind (dec datum) decode_CDPContentDatum of
        None \<Rightarrow> Inl ()
      | Some None \<Rightarrow> Inr None
      | Some (Some inner) \<Rightarrow>
          (let owner = (if IsJust (ci_Owner inner) \<and> length (Hash (ci_Owner inner)) > 0
                        then hex_encode (Hash (ci_Owner inner)) else []);
               fees = ci_AccumulatedFees inner;
               state = \<lparr>CDPId = GenerateCDPId txHash txIndex, cdp_Network = [], cdp_Protocol = IndigoProtocolName,
                 Owner = owner, HasOwner = (owner \<noteq> []), IAsset = hex_encode (ci_IAsset inner),
                 MintedAmount = ci_MintedAmount inner, cdp_Slot = slot, cdp_BlockHash = [], cdp_TxHash = txHash,
                 cdp_TxIndex = txIndex, cdp_Timestamp = timestamp, cdp_UpdatedAt = 0, FeesType = af_Type fees,
                 LastUpdated = 0, IAssetFees = 0, Treasury = 0, IndyStakers = 0\<rparr>
           in Inr (Some
                (if af_Type fees = 0
                 then state\<lparr>LastUpdated := af_LastUpdated fees, IAssetFees := af_IAssetAmount fees\<rparr>
                 else state\<lparr>Treasury := af_Treasury fees, IndyStakers := af_IndyStakers fees\<rparr>))))"

definition isPrintable :: "bytes \<Rightarrow> bool" where
  "isPrintable data = (list_all (\<lambda>b. \<not> (b < 32 \<or> b > 126)) data \<and> length data > 0)"

definition text_of_bytes :: "bytes \<Rightarrow> string" where
  "text_of_bytes bs = map (\<lambda>b. char_of (unat b)) bs"

definition IAssetName :: "CDPState \<Rightarrow> string" where
  "IAssetName c =
     (if IAsset c = hex_encode (map (\<lambda>x. word_of_nat (of_char x)) ''iUSD'') then ''iUSD''
      else if IAsset c = hex_encode (map (\<lambda>x. word_of_nat (of_char x)) ''iBTC'') then ''iBTC''
      else if IAsset c = hex_encode (map (\<lambda>x. word_of_nat (of_char x)) ''iETH'') then ''iETH''
      else (case hex_decode (IAsset c) of
         Some bs \<Rightarrow> if isPrintable bs then text_of_bytes bs else IAsset c
       | None \<Rightarrow> IAsset c))"

section \<open>Lemmas\<close>

lemma GenerateCDPId_inject:
  assumes "GenerateCDPId h i = GenerateCDPId h' i'" and "CHR ''#'' \<notin> set h" and "CHR ''#'' \<notin> set h'"
  shows "h = h' \<and> i = i'"
proof -
  have "h @ CHR ''#'' # show_nat (unat i) = h' @ CHR ''#'' # show_nat (unat i')"
    using assms(1) by (simp add: GenerateCDPId_def)
  from append_sep_inject [OF this assms(2,3)] show ?thesis by (simp add: word_unat_eq_iff)
qed

text \<open>The datum of a position, as the contract writes it.\<close>

definition encode_owner :: "MaybePubKeyHash \<Rightarrow> plutus_data" where
  "encode_owner m = (if IsJust m then Constr 0 [PBytes (Hash m)] else Constr 1 [])"

definition encode_fees :: "AccumulatedFees \<Rightarrow> plutus_data" where
  "encode_fees f =
     (if af_Type f = 0 then Constr 0 [PInt (af_LastUpdated f), PInt (af_IAssetAmount f)]
      else Constr 1 [PInt (af_Treasury f), PInt (af_IndyStakers f)])"

definition encode_position :: "CDPInner \<Rightarrow> plutus_data" where
  "encode_position c = Constr 0 [Constr 0
     [encode_owner (ci_Owner c), PBytes (ci_IAsset c), PInt (ci_MintedAmount c), encode_fees (ci_AccumulatedFees c)]]"

lemma decode_CDPContentDatum_iff:
  "decode_CDPContentDatum d = Some (Some c) \<longleftrightarrow> (\<exists>ow ia mi fe own ias fees.
     d = Constr 0 [Constr 0 [ow, ia, mi, fe]] \<and> decode_MaybePubKeyHash ow = Some own \<and> as_bytes ia = Some ias
     \<and> as_int64 mi = Some (ci_MintedAmount c) \<and> decode_AccumulatedFees fe = Some fees
     \<and> c = \<lparr>ci_Owner = own, ci_IAsset = ias, ci_MintedAmount = ci_MintedAmount c, ci_AccumulatedFees = fees\<rparr>)"
  by (auto simp: decode_CDPContentDatum_def decode_CDPInner_def split: plutus_data.splits list.splits option.splits if_splits)

end
