(* ===== verification/Oracle_Storage.thy ===== *)
theory Oracle_Storage
  imports Activity Sha256 Indigo
begin

text \<open>
  The oracle's persistent store (\<open>internal/oracle/storage.go\<close>, \<open>internal/oracle/activity_storage.go\<close>):
  the latest state of every pool, the confirmed swaps of the rolling window and the activity
  metadata, in one Badger database.

  Badger is a map from byte strings to values with transactions; the store is an association list
  and an iterator walks the keys with a prefix in byte order, forwards or backwards. A transaction
  is the store it sees together with its queued writes: a write fails when the queued writes no
  longer fit, and a transaction that fails leaves the store as it was. What a transaction holds
  (\<open>bl_fits\<close>), whether its commit succeeds (\<open>bl_commits\<close>) and the two batch limits belong to Badger and
  are arguments. Iterators of an updating transaction see its queued writes.

  A value is what \<open>json.Marshal\<close> was given, or bytes that do not decode; marshalling a time fails
  outside the years 0 to 9999.
\<close>

section \<open>Store and transactions\<close>

record activityMetadata =
  am_WindowSlots :: u64
  am_LatestSlot :: u64

datatype stored =
    PoolValue PoolState
  | SwapValue SwapTransition
  | MetaValue activityMetadata
  | CDPValue CDPState
  | BadValue

type_synonym store = "(string, stored) gomap"

datatype db_write = DbSet string stored | DbDelete string

datatype storage_error =
    NilPoolState
  | ZeroWindow
  | SwapMismatch
  | MarshalFailed
  | WindowChanged u64 u64
  | UnmarshalFailed
  | InvalidActivityKey string
  | SwapsWithoutMetadata
  | ZeroMetadataWindow
  | KeyNotFound
  | TxnTooBig
  | CommitFailed

record badger_lib =
  bl_fits :: "db_write list \<Rightarrow> bool"
  bl_commits :: "db_write list \<Rightarrow> bool"
  bl_maxBatchCount :: int
  bl_maxBatchSize :: int

record txn =
  t_store :: store
  t_writes :: "db_write list"

definition txn_Get :: "string \<Rightarrow> txn \<Rightarrow> stored option" where
  "txn_Get k t = map_of (t_store t) k"

definition txn_Set :: "badger_lib \<Rightarrow> string \<Rightarrow> stored \<Rightarrow> txn \<Rightarrow> storage_error + txn" where
  "txn_Set bl k v t =
     (if bl_fits bl (t_writes t @ [DbSet k v])
      then Inr \<lparr>t_store = AList.update k v (t_store t), t_writes = t_writes t @ [DbSet k v]\<rparr>
      else Inl TxnTooBig)"

definition txn_Delete :: "badger_lib \<Rightarrow> string \<Rightarrow> txn \<Rightarrow> storage_error + txn" where
  "txn_Delete bl k t =
     (if bl_fits bl (t_writes t @ [DbDelete k])
      then Inr \<lparr>t_store = AList.delete k (t_store t), t_writes = t_writes t @ [DbDelete k]\<rparr>
      else Inl TxnTooBig)"

text \<open>\<open>db.Update\<close>: the result of the transaction function and the store afterwards.\<close>

definition db_Update :: "badger_lib \<Rightarrow> (txn \<Rightarrow> storage_error + 'a \<times> txn) \<Rightarrow> store \<Rightarrow> (storage_error + 'a) \<times> store" where
  "db_Update bl f db = (case f \<lparr>t_store = db, t_writes = []\<rparr> of
     Inl e \<Rightarrow> (Inl e, db)
   | Inr (a, t) \<Rightarrow> if bl_commits bl (t_writes t) then (Inr a, t_store t) else (Inl CommitFailed, db))"

text \<open>The items an iterator with a prefix visits, in key order.\<close>

definition iterate :: "string \<Rightarrow> (string, 'v) gomap \<Rightarrow> (string \<times> 'v) list" where
  "iterate p db = sort_key fst (filter (\<lambda>(k, v). has_prefix p k) db)"

section \<open>Keys\<close>

definition poolStateKeyPrefix :: string where
  "poolStateKeyPrefix = ''oracle_pool_''"

definition cdpStateKeyPrefix :: string where
  "cdpStateKeyPrefix = ''oracle_cdp_''"

definition activityKeyPrefix :: string where
  "activityKeyPrefix = ''oracle_activity_swap_''"

definition activityMetaKey :: string where
  "activityMetaKey = ''oracle_activity_meta''"

definition activityDeleteEntryOverhead :: int where
  "activityDeleteEntryOverhead = 12"

definition poolStateKey :: "string \<Rightarrow> string \<Rightarrow> string \<Rightarrow> string" where
  "poolStateKey network protocol poolId = poolStateKeyPrefix @ network @ '':'' @ protocol @ '':'' @ poolId"

definition cdpStateKey :: "string \<Rightarrow> string \<Rightarrow> string \<Rightarrow> string" where
  "cdpStateKey network protocol cdpId = cdpStateKeyPrefix @ network @ '':'' @ protocol @ '':'' @ cdpId"

text \<open>\<open>strings.Cut(s, c)\<close>: the parts before and after the first separator.\<close>

fun cut :: "char \<Rightarrow> string \<Rightarrow> (string \<times> string) option" where
  "cut c [] = None"
| "cut c (x # xs) = (if x = c then Some ([], xs) else map_option (\<lambda>(a, b). (x # a, b)) (cut c xs))"

text \<open>\<open>strings.SplitN(s, ":", 3)\<close> gives three parts exactly when there are two separators.\<close>

definition split_key :: "string \<Rightarrow> string \<Rightarrow> (string \<times> string \<times> string) option" where
  "split_key prefix key =
     (if \<not> has_prefix prefix key then None
      else case cut CHR '':'' (drop (length prefix) key) of
        None \<Rightarrow> None
      | Some (network, rest) \<Rightarrow> (case cut CHR '':'' rest of
          None \<Rightarrow> None
        | Some (protocol, ident) \<Rightarrow>
            if network = [] \<or> protocol = [] \<or> ident = [] then None else Some (network, protocol, ident)))"

definition ParsePoolStateKey :: "string \<Rightarrow> (string \<times> string \<times> string) option" where
  "ParsePoolStateKey key = split_key poolStateKeyPrefix key"

definition ParseCDPStateKey :: "string \<Rightarrow> (string \<times> string \<times> string) option" where
  "ParseCDPStateKey key = split_key cdpStateKeyPrefix key"

definition swap_identity :: "SwapTransition \<Rightarrow> bytes" where
  "swap_identity swap = Sum256 (bytes_of_string
     (st_Network swap @ [CHR 0x00] @ st_Protocol swap @ [CHR 0x00] @ st_PoolID swap))"

definition poolActivityKey :: "SwapTransition \<Rightarrow> string" where
  "poolActivityKey swap = activityKeyPrefix @ pad_zero 20 (show_nat (unat (st_Slot swap))) @ '':''
     @ st_TxHash swap @ '':'' @ show_nat (unat (st_TxIndex swap)) @ '':'' @ hex_encode (swap_identity swap)"

definition activitySlotFromKey :: "string \<Rightarrow> storage_error + u64" where
  "activitySlotFromKey key = (case cut CHR '':'' (trim_prefix activityKeyPrefix key) of
     None \<Rightarrow> Inl (InvalidActivityKey key)
   | Some (slotText, _) \<Rightarrow>
       if length slotText \<noteq> 20 then Inl (InvalidActivityKey key)
       else case ParseUint64 slotText of
         None \<Rightarrow> Inl (InvalidActivityKey key)
       | Some slot \<Rightarrow> Inr slot)"

definition activityKeyReverseSeek :: string where
  "activityKeyReverseSeek = activityKeyPrefix @ [CHR 0xFF]"

section \<open>Pool states\<close>

text \<open>\<open>time.Time\<close> marshals for the years 0 to 9999; the zero time starts year 1.\<close>

definition json_time_ok :: "time \<Rightarrow> bool" where
  "json_time_ok t = (- (366 * 86400 * 10 ^ 9) \<le> t \<and> t < 3652059 * 86400 * 10 ^ 9)"

definition json_Marshal_pool :: "PoolState \<Rightarrow> storage_error + stored" where
  "json_Marshal_pool state =
     (if json_time_ok (Timestamp state) \<and> json_time_ok (UpdatedAt state) then Inr (PoolValue state)
      else Inl MarshalFailed)"

definition SavePoolState :: "badger_lib \<Rightarrow> PoolState \<Rightarrow> store \<Rightarrow> (storage_error + unit) \<times> store" where
  "SavePoolState bl state db = (case json_Marshal_pool state of
     Inl e \<Rightarrow> (Inl e, db)
   | Inr data \<Rightarrow> db_Update bl (\<lambda>t. map_sum id (Pair ())
       (txn_Set bl (poolStateKey (Network state) (Protocol state) (PoolId state)) data t)) db)"

definition unmarshal_pool :: "stored \<Rightarrow> PoolState option" where
  "unmarshal_pool v = (case v of PoolValue s \<Rightarrow> Some s | _ \<Rightarrow> None)"

definition LoadAllPoolStates :: "store \<Rightarrow> PoolState list" where
  "LoadAllPoolStates db = List.map_filter (\<lambda>(k, v). unmarshal_pool v) (iterate poolStateKeyPrefix db)"

definition LoadPoolState :: "string \<Rightarrow> string \<Rightarrow> string \<Rightarrow> store \<Rightarrow> storage_error + PoolState" where
  "LoadPoolState network protocol poolId db = (case map_of db (poolStateKey network protocol poolId) of
     None \<Rightarrow> Inl KeyNotFound
   | Some v \<Rightarrow> (case unmarshal_pool v of None \<Rightarrow> Inl UnmarshalFailed | Some s \<Rightarrow> Inr s))"

definition LoadPoolStatesByProtocol :: "string \<Rightarrow> store \<Rightarrow> PoolState list" where
  "LoadPoolStatesByProtocol protocol db = List.map_filter
     (\<lambda>(k, v). case ParsePoolStateKey k of
        None \<Rightarrow> None
      | Some (_, keyProtocol, _) \<Rightarrow> if keyProtocol \<noteq> protocol then None else unmarshal_pool v)
     (iterate poolStateKeyPrefix db)"

definition DeletePoolState :: "badger_lib \<Rightarrow> PoolState \<Rightarrow> store \<Rightarrow> (storage_error + unit) \<times> store" where
  "DeletePoolState bl state db = db_Update bl (\<lambda>t. map_sum id (Pair ())
     (txn_Delete bl (poolStateKey (Network state) (Protocol state) (PoolId state)) t)) db"

section \<open>Positions\<close>

definition json_Marshal_cdp :: "CDPState \<Rightarrow> storage_error + stored" where
  "json_Marshal_cdp state =
     (if json_time_ok (cdp_Timestamp state) \<and> json_time_ok (cdp_UpdatedAt state) then Inr (CDPValue state)
      else Inl MarshalFailed)"

definition SaveCDPState :: "badger_lib \<Rightarrow> CDPState \<Rightarrow> store \<Rightarrow> (storage_error + unit) \<times> store" where
  "SaveCDPState bl state db = (case json_Marshal_cdp state of
     Inl e \<Rightarrow> (Inl e, db)
   | Inr data \<Rightarrow> db_Update bl (\<lambda>t. map_sum id (Pair ())
       (txn_Set bl (cdpStateKey (cdp_Network state) (cdp_Protocol state) (CDPId state)) data t)) db)"

definition unmarshal_cdp :: "stored \<Rightarrow> CDPState option" where
  "unmarshal_cdp v = (case v of CDPValue s \<Rightarrow> Some s | _ \<Rightarrow> None)"

definition LoadAllCDPStates :: "store \<Rightarrow> CDPState list" where
  "LoadAllCDPStates db = List.map_filter (\<lambda>(k, v). unmarshal_cdp v) (iterate cdpStateKeyPrefix db)"

definition LoadCDPState :: "string \<Rightarrow> string \<Rightarrow> string \<Rightarrow> store \<Rightarrow> storage_error + CDPState" where
  "LoadCDPState network protocol cdpId db = (case map_of db (cdpStateKey network protocol cdpId) of
     None \<Rightarrow> Inl KeyNotFound
   | Some v \<Rightarrow> (case unmarshal_cdp v of None \<Rightarrow> Inl UnmarshalFailed | Some s \<Rightarrow> Inr s))"

definition DeleteCDPState :: "badger_lib \<Rightarrow> string \<Rightarrow> string \<Rightarrow> string \<Rightarrow> store \<Rightarrow> (storage_error + unit) \<times> store" where
  "DeleteCDPState bl network protocol cdpId db = db_Update bl (\<lambda>t. map_sum id (Pair ())
     (txn_Delete bl (cdpStateKey network protocol cdpId) t)) db"

section \<open>Activity\<close>

definition activityDeleteBudget :: "badger_lib \<Rightarrow> int \<times> int" where
  "activityDeleteBudget bl = (bl_maxBatchCount bl div 2, bl_maxBatchSize bl div 2)"

fun txn_Delete_all :: "badger_lib \<Rightarrow> string list \<Rightarrow> txn \<Rightarrow> storage_error + txn" where
  "txn_Delete_all bl [] t = Inr t"
| "txn_Delete_all bl (k # ks) t = (case txn_Delete bl k t of Inl e \<Rightarrow> Inl e | Inr t' \<Rightarrow> txn_Delete_all bl ks t')"

text \<open>The loop of \<open>pruneActivityKeys\<close>: the oldest keys below the cutoff that fit the budget.\<close>

fun prune_loop :: "u64 \<Rightarrow> int \<Rightarrow> int \<Rightarrow> int \<Rightarrow> int \<Rightarrow> string list \<Rightarrow> storage_error + string list" where
  "prune_loop cutoff maxCount maxSize cnt sz [] = Inr []"
| "prune_loop cutoff maxCount maxSize cnt sz (key # ks) = (case activitySlotFromKey key of
     Inl e \<Rightarrow> Inl e
   | Inr slot \<Rightarrow>
       if slot \<ge> cutoff then Inr []
       else let entry = int (length key) + activityDeleteEntryOverhead
            in if cnt + 1 > maxCount \<or> sz + entry > maxSize then Inr []
               else map_sum id ((#) key) (prune_loop cutoff maxCount maxSize (cnt + 1) (sz + entry) ks))"

definition pruneActivityKeys :: "badger_lib \<Rightarrow> u64 \<Rightarrow> int \<Rightarrow> int \<Rightarrow> txn \<Rightarrow> storage_error + txn" where
  "pruneActivityKeys bl cutoff maxCount maxSize t =
     (if cutoff = 0 then Inr t
      else case prune_loop cutoff maxCount maxSize 0 0 (map fst (iterate activityKeyPrefix (t_store t))) of
        Inl e \<Rightarrow> Inl e
      | Inr keys \<Rightarrow> txn_Delete_all bl keys t)"

text \<open>The metadata \<open>SavePoolStateAndActivity\<close> writes.\<close>

definition next_meta :: "PoolState \<Rightarrow> u64 \<Rightarrow> txn \<Rightarrow> storage_error + activityMetadata" where
  "next_meta state window t = (case txn_Get activityMetaKey t of
     None \<Rightarrow> Inr \<lparr>am_WindowSlots = window, am_LatestSlot = Slot state\<rparr>
   | Some (MetaValue meta) \<Rightarrow>
       if am_WindowSlots meta \<noteq> window then Inl (WindowChanged (am_WindowSlots meta) window)
       else if Slot state > am_LatestSlot meta then Inr (meta\<lparr>am_LatestSlot := Slot state\<rparr>)
       else Inr meta
   | Some _ \<Rightarrow> Inl UnmarshalFailed)"

text \<open>The transaction of \<open>SavePoolStateAndActivity\<close>.\<close>

definition save_txn ::
  "badger_lib \<Rightarrow> PoolState \<Rightarrow> stored \<Rightarrow> SwapTransition option \<Rightarrow> u64 \<Rightarrow> txn \<Rightarrow> storage_error + unit \<times> txn" where
  "save_txn bl state poolData swap window t = (case next_meta state window t of
     Inl e \<Rightarrow> Inl e
   | Inr meta \<Rightarrow> (case txn_Set bl (poolStateKey (Network state) (Protocol state) (PoolId state)) poolData t of
       Inl e \<Rightarrow> Inl e
     | Inr t1 \<Rightarrow> (case (case swap of None \<Rightarrow> Inr t1
                        | Some s \<Rightarrow> txn_Set bl (poolActivityKey s) (SwapValue s) t1) of
         Inl e \<Rightarrow> Inl e
       | Inr t2 \<Rightarrow> (case txn_Set bl activityMetaKey (MetaValue meta) t2 of
           Inl e \<Rightarrow> Inl e
         | Inr t3 \<Rightarrow>
             (let cutoff = (if am_LatestSlot meta > window then am_LatestSlot meta - window else 0);
                  (maxCount, maxSize) = activityDeleteBudget bl
              in map_sum id (Pair ()) (pruneActivityKeys bl cutoff maxCount maxSize t3))))))"

definition swap_matches :: "SwapTransition \<Rightarrow> PoolState \<Rightarrow> bool" where
  "swap_matches swap state = (st_Network swap = Network state \<and> st_Protocol swap = Protocol state
     \<and> st_PoolID swap = PoolId state \<and> st_Slot swap = Slot state)"

definition SavePoolStateAndActivity ::
  "badger_lib \<Rightarrow> PoolState option \<Rightarrow> SwapTransition option \<Rightarrow> u64 \<Rightarrow> store \<Rightarrow> (storage_error + unit) \<times> store" where
  "SavePoolStateAndActivity bl st swap window db = (case st of
     None \<Rightarrow> (Inl NilPoolState, db)
   | Some state \<Rightarrow>
       if window = 0 then (Inl ZeroWindow, db)
       else case json_Marshal_pool state of
         Inl e \<Rightarrow> (Inl e, db)
       | Inr poolData \<Rightarrow>
           if (case swap of None \<Rightarrow> False | Some s \<Rightarrow> \<not> swap_matches s state) then (Inl SwapMismatch, db)
           else db_Update bl (save_txn bl state poolData swap window) db)"

fun load_swaps :: "(string \<times> stored) list \<Rightarrow> storage_error + SwapTransition list" where
  "load_swaps [] = Inr []"
| "load_swaps ((key, v) # items) = (case activitySlotFromKey key of
     Inl e \<Rightarrow> Inl e
   | Inr _ \<Rightarrow> (case v of
       SwapValue swap \<Rightarrow> map_sum id ((#) swap) (load_swaps items)
     | _ \<Rightarrow> Inl UnmarshalFailed))"

definition LoadActivityState :: "store \<Rightarrow> storage_error + ActivityState" where
  "LoadActivityState db = (case map_of db activityMetaKey of
     None \<Rightarrow> if iterate activityKeyPrefix db \<noteq> [] then Inl SwapsWithoutMetadata
             else Inr \<lparr>as_WindowSlots = 0, as_LatestSlot = 0, as_Swaps = []\<rparr>
   | Some (MetaValue meta) \<Rightarrow>
       if am_WindowSlots meta = 0 then Inl ZeroMetadataWindow
       else map_sum id (\<lambda>sw. \<lparr>as_WindowSlots = am_WindowSlots meta, as_LatestSlot = am_LatestSlot meta, as_Swaps = sw\<rparr>)
              (load_swaps (iterate activityKeyPrefix db))
   | Some _ \<Rightarrow> Inl UnmarshalFailed)"

text \<open>
  The loop of \<open>rolledBackActivityKeys\<close> over the keys from the newest down: the keys collected, the
  lowest slot among them and whether nothing at or above the slot is left.
\<close>

fun rolled_back_loop ::
  "u64 \<Rightarrow> int \<Rightarrow> int \<Rightarrow> string list \<Rightarrow> int \<Rightarrow> int \<Rightarrow> u64 \<Rightarrow> string list \<Rightarrow> storage_error + string list \<times> u64 \<times> bool" where
  "rolled_back_loop slot maxCount maxSize keys cnt sz lowest [] = Inr (keys, lowest, True)"
| "rolled_back_loop slot maxCount maxSize keys cnt sz lowest (key # ks) = (case activitySlotFromKey key of
     Inl e \<Rightarrow> Inl e
   | Inr keySlot \<Rightarrow>
       if keySlot < slot then Inr (keys, lowest, True)
       else let entry = int (length key) + activityDeleteEntryOverhead
            in if keys \<noteq> [] \<and> keySlot \<noteq> lowest \<and> (cnt + 1 > maxCount \<or> sz + entry > maxSize)
               then Inr (keys, lowest, False)
               else rolled_back_loop slot maxCount maxSize (keys @ [key]) (cnt + 1) (sz + entry) keySlot ks)"

text \<open>Reverse iteration from the seek key visits the keys up to it, the greatest first.\<close>

definition rolledBackActivityKeys :: "u64 \<Rightarrow> int \<Rightarrow> int \<Rightarrow> txn \<Rightarrow> storage_error + string list \<times> u64 \<times> bool" where
  "rolledBackActivityKeys slot maxCount maxSize t =
     rolled_back_loop slot maxCount maxSize [] 0 0 slot
       (rev (filter (\<lambda>k. k \<le> activityKeyReverseSeek) (map fst (iterate activityKeyPrefix (t_store t)))))"

definition rewindActivityMeta :: "badger_lib \<Rightarrow> u64 \<Rightarrow> txn \<Rightarrow> storage_error + txn" where
  "rewindActivityMeta bl firstInvalid t = (case txn_Get activityMetaKey t of
     None \<Rightarrow> Inr t
   | Some (MetaValue meta) \<Rightarrow>
       (let latest = (if firstInvalid > 0 then firstInvalid - 1 else 0)
        in if latest \<ge> am_LatestSlot meta then Inr t
           else txn_Set bl activityMetaKey (MetaValue (meta\<lparr>am_LatestSlot := latest\<rparr>)) t)
   | Some _ \<Rightarrow> Inl UnmarshalFailed)"

definition rollback_txn :: "badger_lib \<Rightarrow> u64 \<Rightarrow> int \<Rightarrow> int \<Rightarrow> txn \<Rightarrow> storage_error + bool \<times> txn" where
  "rollback_txn bl slot maxCount maxSize t = (case rolledBackActivityKeys slot maxCount maxSize t of
     Inl e \<Rightarrow> Inl e
   | Inr (keys, lowest, done) \<Rightarrow>
       (let firstInvalid = (if done then slot else lowest)
        in case rewindActivityMeta bl firstInvalid t of
             Inl e \<Rightarrow> Inl e
           | Inr t' \<Rightarrow> map_sum id (Pair done) (txn_Delete_all bl keys t')))"

definition rollbackActivityBatch :: "badger_lib \<Rightarrow> u64 \<Rightarrow> int \<Rightarrow> int \<Rightarrow> store \<Rightarrow> (storage_error + bool) \<times> store" where
  "rollbackActivityBatch bl slot maxCount maxSize db = db_Update bl (rollback_txn bl slot maxCount maxSize) db"

section \<open>Keys and slots\<close>

lemma has_prefix_append [simp]: "has_prefix p (p @ s)"
  by (simp add: has_prefix_def)

lemma cut_append: "c \<notin> set xs \<Longrightarrow> cut c (xs @ c # ys) = Some (xs, ys)"
  by (induction xs) auto

lemma digits_val_acc: "digits_val acc xs = acc * 10 ^ length xs + digits_val 0 xs"
proof (induction xs arbitrary: acc)
  case Nil
  then show ?case by simp
next
  case (Cons c cs)
  show ?case
    using Cons [of "10 * acc + digit_val c"] Cons [of "digit_val c"] by (simp add: distrib_right mult.assoc)
qed

lemma digit_val_less: "is_digit c \<Longrightarrow> digit_val c < 10"
  by (auto simp: is_digit_def digit_val_def)

lemma digits_val_less: "list_all is_digit xs \<Longrightarrow> digits_val 0 xs < 10 ^ length xs"
proof (induction xs)
  case Nil
  then show ?case by simp
next
  case (Cons c cs)
  then have "digits_val 0 cs < 10 ^ length cs" "digit_val c \<le> 9"
    using digit_val_less [of c] by auto
  then have "digit_val c * 10 ^ length cs + digits_val 0 cs < 9 * 10 ^ length cs + 10 ^ length cs"
    by (intro add_le_less_mono mult_le_mono1)
  then show ?case by (simp add: digits_val_acc [of "digit_val c"])
qed

text \<open>Zero-padded numbers of one width are ordered as text the way they are ordered as numbers.\<close>

lemma digits_order:
  assumes "length xs = length ys" and "list_all is_digit xs" and "list_all is_digit ys"
    and "digits_val 0 xs < digits_val 0 ys"
  shows "xs @ us < ys @ (vs :: string)"
  using assms
proof (induction xs ys rule: list_induct2)
  case Nil
  then show ?case by simp
next
  case (Cons x xs y ys)
  have less: "digits_val 0 xs < 10 ^ length xs" "digits_val 0 ys < 10 ^ length xs"
    using Cons digits_val_less [of xs] digits_val_less [of ys] by auto
  have val: "digit_val x * 10 ^ length xs + digits_val 0 xs < digit_val y * 10 ^ length xs + digits_val 0 ys"
    using Cons.prems(3) Cons.hyps by (simp add: digits_val_acc [of "digit_val x"] digits_val_acc [of "digit_val y"])
  have "digit_val x \<le> digit_val y"
  proof (rule ccontr)
    assume "\<not> digit_val x \<le> digit_val y"
    then have "Suc (digit_val y) * 10 ^ length xs \<le> digit_val x * 10 ^ length xs"
      by (intro mult_le_mono1) simp
    then show False using val less by simp
  qed
  then consider "digit_val x < digit_val y" | "digit_val x = digit_val y" by linarith
  then show ?case
  proof cases
    case 1
    then have "x < y" using Cons.prems by (auto simp: less_char_def is_digit_def digit_val_def)
    then show ?thesis by simp
  next
    case 2
    then have "x = y" using Cons.prems by (auto simp: is_digit_def digit_val_def) (metis nat_le_iff_add add_diff_cancel_left' of_char_eq_iff)
    moreover have "xs @ us < ys @ vs" using Cons val 2 by simp
    ultimately show ?thesis by simp
  qed
qed

lemma show_nat_length: "n < 10 ^ k \<Longrightarrow> 0 < k \<Longrightarrow> length (show_nat n) \<le> k"
proof (induction n arbitrary: k rule: show_nat.induct)
  case (1 n)
  show ?case
  proof (cases "n < 10")
    case True
    then show ?thesis using 1 by (subst show_nat.simps) simp
  next
    case False
    then obtain j where j: "k = Suc j" "0 < j"
      using 1(2,3) by (cases k; cases "k - 1") auto
    have "n div 10 < 10 ^ j" using 1(2) j by (simp add: less_mult_imp_div_less mult.commute)
    then have "length (show_nat (n div 10)) \<le> j" using 1(1) False j by blast
    then show ?thesis using False j by (subst show_nat.simps) simp
  qed
qed

definition slot_text :: "u64 \<Rightarrow> string" where
  "slot_text s = pad_zero 20 (show_nat (unat s))"

lemma slot_text_length: "length (slot_text s) = 20"
proof -
  have "unat s < 10 ^ 20" using unat_u64_bound [of s] by simp
  then have "length (show_nat (unat s)) \<le> 20" by (rule show_nat_length) simp
  then show ?thesis by (simp add: slot_text_def pad_zero_def)
qed

lemma slot_text_digits: "list_all is_digit (slot_text s)"
  using show_nat_digits [of "unat s"] by (auto simp: slot_text_def pad_zero_def list_all_iff is_digit_def)

lemma digits_val_zeros: "digits_val 0 (replicate n CHR ''0'' @ xs) = digits_val 0 xs"
  by (induction n) (simp_all add: digit_val_def)

lemma slot_text_val: "digits_val 0 (slot_text s) = unat s"
  by (simp add: slot_text_def pad_zero_def digits_val_zeros digits_val_show_nat)

lemma slot_text_parse: "ParseUint64 (slot_text s) = Some s"
proof -
  have "slot_text s \<noteq> []" using slot_text_length [of s] by auto
  then show ?thesis
    using unat_u64_bound [of s] by (simp add: ParseUint64_def parse_nat_def slot_text_digits slot_text_val)
qed

definition key_tail :: "SwapTransition \<Rightarrow> string" where
  "key_tail s = st_TxHash s @ '':'' @ show_nat (unat (st_TxIndex s)) @ '':'' @ hex_encode (swap_identity s)"

lemma poolActivityKey_parts: "poolActivityKey s = activityKeyPrefix @ slot_text (st_Slot s) @ CHR '':'' # key_tail s"
  by (simp add: poolActivityKey_def key_tail_def slot_text_def)

lemma activitySlotFromKey_round_trip: "activitySlotFromKey (poolActivityKey s) = Inr (st_Slot s)"
proof -
  have "CHR '':'' \<notin> set (slot_text (st_Slot s))"
    using slot_text_digits [of "st_Slot s"] by (auto simp: list_all_iff is_digit_def)
  then show ?thesis
    by (simp add: activitySlotFromKey_def poolActivityKey_parts trim_prefix_def cut_append slot_text_length slot_text_parse)
qed

lemma append_less_same [simp]: "p @ xs < p @ (ys :: string) \<longleftrightarrow> xs < ys"
  by (induction p) simp_all

lemma key_order: "st_Slot a < st_Slot b \<Longrightarrow> poolActivityKey a < poolActivityKey b"
  by (simp add: poolActivityKey_parts digits_order slot_text_length slot_text_digits slot_text_val word_less_nat_alt)

lemma key_order_mono: "poolActivityKey a \<le> poolActivityKey b \<Longrightarrow> st_Slot a \<le> st_Slot b"
  using key_order [of b a] by (meson leD not_le)

lemma key_below_seek: "poolActivityKey s \<le> activityKeyReverseSeek"
proof -
  obtain c cs where c: "slot_text (st_Slot s) = c # cs" using slot_text_length [of "st_Slot s"] by (cases "slot_text (st_Slot s)") auto
  then have "is_digit c" using slot_text_digits [of "st_Slot s"] by simp
  then have "c < CHR 0xFF" by (auto simp: is_digit_def less_char_def)
  then show ?thesis
    by (intro less_imp_le) (simp add: poolActivityKey_parts activityKeyReverseSeek_def c)
qed

lemma meta_key_no_prefix [simp]: "\<not> has_prefix activityKeyPrefix activityMetaKey"
  by (simp add: has_prefix_def activityKeyPrefix_def activityMetaKey_def)

lemma pool_key_no_prefix [simp]: "\<not> has_prefix activityKeyPrefix (poolStateKey n p i)"
  by (simp add: has_prefix_def activityKeyPrefix_def poolStateKey_def poolStateKeyPrefix_def)

lemma activity_key_prefix [simp]: "has_prefix activityKeyPrefix (poolActivityKey s)"
  by (simp add: poolActivityKey_parts)

lemma pool_key_not_meta [simp]: "poolStateKey n p i \<noteq> activityMetaKey"
  by (simp add: activityMetaKey_def poolStateKey_def poolStateKeyPrefix_def)

section \<open>The store invariant\<close>

text \<open>
  Every entry under the activity prefix is a swap filed under its own key; the metadata, when
  there is any swap, is present with a window, and no swap lies above the latest slot it records.
\<close>

definition activity_entry_ok :: "u64 \<Rightarrow> string \<times> stored \<Rightarrow> bool" where
  "activity_entry_ok latest e = (case e of (k, v) \<Rightarrow> has_prefix activityKeyPrefix k \<longrightarrow>
     (case v of SwapValue s \<Rightarrow> k = poolActivityKey s \<and> st_Slot s \<le> latest | _ \<Rightarrow> False))"

definition store_ok :: "store \<Rightarrow> bool" where
  "store_ok db \<longleftrightarrow> gomap_ok db \<and>
     (case map_of db activityMetaKey of
        None \<Rightarrow> list_all (\<lambda>(k, v). \<not> has_prefix activityKeyPrefix k) db
      | Some (MetaValue m) \<Rightarrow> am_WindowSlots m \<noteq> 0 \<and> list_all (activity_entry_ok (am_LatestSlot m)) db
      | Some _ \<Rightarrow> False)"

definition store_latest :: "store \<Rightarrow> u64" where
  "store_latest db = (case map_of db activityMetaKey of Some (MetaValue m) \<Rightarrow> am_LatestSlot m | _ \<Rightarrow> 0)"

definition store_window :: "store \<Rightarrow> u64" where
  "store_window db = (case map_of db activityMetaKey of Some (MetaValue m) \<Rightarrow> am_WindowSlots m | _ \<Rightarrow> 0)"

definition store_swaps :: "store \<Rightarrow> SwapTransition set" where
  "store_swaps db = {s. map_of db (poolActivityKey s) = Some (SwapValue s)}"

lemma store_ok_entry:
  assumes "store_ok db" and "map_of db k = Some v" and "has_prefix activityKeyPrefix k"
  shows "\<exists>s. v = SwapValue s \<and> k = poolActivityKey s \<and> st_Slot s \<le> store_latest db"
proof -
  have "(k, v) \<in> set db" using assms(2) by (rule map_of_SomeD)
  then have "activity_entry_ok (store_latest db) (k, v)"
    using assms(1,3) by (auto simp: store_ok_def store_latest_def list_all_iff split: option.splits stored.splits)
  then show ?thesis
    using assms(3) by (cases v) (simp_all add: activity_entry_ok_def)
qed

lemma activity_keys_of_store:
  assumes "store_ok db" and "k \<in> set (map fst (iterate activityKeyPrefix db))"
  shows "\<exists>s \<in> store_swaps db. k = poolActivityKey s"
proof -
  obtain v where v: "(k, v) \<in> set db" "has_prefix activityKeyPrefix k"
    using assms(2) by (auto simp: iterate_def)
  have "map_of db k = Some v" using v(1) assms(1) by (simp add: store_ok_def gomap_ok_mem)
  with store_ok_entry [OF assms(1) _ v(2)] show ?thesis by (auto simp: store_swaps_def)
qed

lemma store_swap_key:
  assumes "s \<in> store_swaps db"
  shows "poolActivityKey s \<in> set (map fst (iterate activityKeyPrefix db))"
  using assms by (force simp: store_swaps_def iterate_def dest: map_of_SomeD)

lemma iterate_sorted: "sorted (map fst (iterate p db))"
  by (simp add: iterate_def)

lemma iterate_distinct: "gomap_ok db \<Longrightarrow> distinct (map fst (iterate p db))"
proof -
  assume "gomap_ok db"
  then have "distinct (map fst (filter (\<lambda>(k, v). has_prefix p k) db))"
    by (simp add: gomap_ok_def distinct_map_filter)
  moreover have "mset (map fst (iterate p db)) = mset (map fst (filter (\<lambda>(k, v). has_prefix p k) db))"
    by (simp add: iterate_def)
  ultimately show ?thesis by (metis mset_eq_imp_distinct_iff)
qed

definition key_slot :: "string \<Rightarrow> u64" where
  "key_slot k = (case activitySlotFromKey k of Inr s \<Rightarrow> s | Inl _ \<Rightarrow> 0)"

lemma key_slot_key [simp]: "key_slot (poolActivityKey s) = st_Slot s"
  by (simp add: key_slot_def activitySlotFromKey_round_trip)

text \<open>The activity keys of a store in good order parse, and their slots ascend with the keys.\<close>

lemma activity_keys_slots:
  assumes "store_ok db"
  shows "\<forall>k \<in> set (map fst (iterate activityKeyPrefix db)). activitySlotFromKey k = Inr (key_slot k)"
    and "sorted (map key_slot (map fst (iterate activityKeyPrefix db)))"
proof -
  show "\<forall>k \<in> set (map fst (iterate activityKeyPrefix db)). activitySlotFromKey k = Inr (key_slot k)"
    using activity_keys_of_store [OF assms] by (force simp: activitySlotFromKey_round_trip)
  have "sorted_wrt (\<lambda>a b. key_slot a \<le> key_slot b) (map fst (iterate activityKeyPrefix db))"
  proof (rule sorted_wrt_mono_rel [OF _ iterate_sorted])
    fix a b
    assume "a \<in> set (map fst (iterate activityKeyPrefix db))" "b \<in> set (map fst (iterate activityKeyPrefix db))" "a \<le> b"
    then obtain s s' where "a = poolActivityKey s" "b = poolActivityKey s'"
      using activity_keys_of_store [OF assms] by blast
    with \<open>a \<le> b\<close> show "key_slot a \<le> key_slot b" by (simp add: key_order_mono)
  qed
  then show "sorted (map key_slot (map fst (iterate activityKeyPrefix db)))"
    by (simp only: sorted_map)
qed

lemma reverse_keys:
  assumes "store_ok db"
  shows "filter (\<lambda>k. k \<le> activityKeyReverseSeek) (map fst (iterate activityKeyPrefix db)) = map fst (iterate activityKeyPrefix db)"
  using activity_keys_of_store [OF assms] key_below_seek by (intro filter_True) blast

section \<open>Writes of a transaction\<close>

lemma txn_Set_Inr: "txn_Set bl k v t = Inr t' \<Longrightarrow> t_store t' = AList.update k v (t_store t)"
  by (auto simp: txn_Set_def split: if_splits)

lemma txn_Set_Inl: "txn_Set bl k v t = Inl e \<Longrightarrow> e = TxnTooBig"
  by (auto simp: txn_Set_def split: if_splits)

lemma txn_Delete_all_Inr:
  "txn_Delete_all bl ks t = Inr t' \<Longrightarrow> t_store t' = filter (\<lambda>(k, v). k \<notin> set ks) (t_store t)"
proof (induction ks arbitrary: t)
  case Nil
  then show ?case by simp
next
  case (Cons k ks)
  then show ?case
    by (auto simp: txn_Delete_def AList.delete_eq split: if_splits sum.splits intro!: filter_cong)
qed

lemma txn_Delete_all_Inl: "txn_Delete_all bl ks t = Inl e \<Longrightarrow> e = TxnTooBig"
  by (induction ks arbitrary: t) (auto simp: txn_Delete_def split: if_splits)

lemma map_of_without_keys: "map_of (filter (\<lambda>(k, v). k \<notin> K) db) k = (if k \<in> K then None else map_of db k)"
  by (induction db) auto

text \<open>The backward scan collects exactly the keys from the newest down to the slot it reports.\<close>

lemma rolled_back_loop_keys:
  assumes "\<forall>k \<in> set ks. activitySlotFromKey k = Inr (key_slot k)"
    and "sorted_wrt (\<lambda>a b. key_slot b \<le> key_slot a) ks"
    and "keys \<noteq> [] \<Longrightarrow> slot \<le> lowest \<and> (\<forall>k \<in> set ks. key_slot k \<le> lowest)"
  shows "\<exists>lowest' fin. let first = (if fin then slot else lowest') in
    rolled_back_loop slot mc ms keys cnt sz lowest ks = Inr (keys @ filter (\<lambda>k. first \<le> key_slot k) ks, lowest', fin)
    \<and> (\<not> fin \<longrightarrow> keys @ filter (\<lambda>k. first \<le> key_slot k) ks \<noteq> [] \<and> slot \<le> lowest' \<and> (keys \<noteq> [] \<longrightarrow> lowest' \<le> lowest))"
  using assms
proof (induction ks arbitrary: keys cnt sz lowest)
  case Nil
  then show ?case by (intro exI [of _ lowest] exI [of _ True]) simp
next
  case (Cons k ks)
  let ?entry = "int (length k) + activityDeleteEntryOverhead"
  have k: "activitySlotFromKey k = Inr (key_slot k)" and desc: "\<forall>k' \<in> set ks. key_slot k' \<le> key_slot k"
    using Cons.prems by simp_all
  consider (below) "key_slot k < slot"
    | (full) "\<not> key_slot k < slot" "keys \<noteq> [] \<and> key_slot k \<noteq> lowest \<and> (cnt + 1 > mc \<or> sz + ?entry > ms)"
    | (take) "\<not> key_slot k < slot" "\<not> (keys \<noteq> [] \<and> key_slot k \<noteq> lowest \<and> (cnt + 1 > mc \<or> sz + ?entry > ms))"
    by blast
  then show ?case
  proof cases
    case below
    then have "filter (\<lambda>k. slot \<le> key_slot k) (k # ks) = []"
      using desc by (auto simp: filter_empty_conv not_le)
    with below k show ?thesis by (intro exI [of _ lowest] exI [of _ True]) simp
  next
    case full
    then have "key_slot k < lowest" using Cons.prems(3) by (auto simp: order_less_le)
    then have "filter (\<lambda>k. lowest \<le> key_slot k) (k # ks) = []"
      using desc by (auto simp: filter_empty_conv not_le)
    with full k Cons.prems(3) show ?thesis
      by (intro exI [of _ lowest] exI [of _ False]) (auto simp: Let_def)
  next
    case take
    have pre: "slot \<le> key_slot k \<and> (\<forall>k' \<in> set ks. key_slot k' \<le> key_slot k)"
      using take(1) desc by simp
    obtain lowest' fin where ih: "let first = (if fin then slot else lowest') in
      rolled_back_loop slot mc ms (keys @ [k]) (cnt + 1) (sz + ?entry) (key_slot k) ks
        = Inr ((keys @ [k]) @ filter (\<lambda>k. first \<le> key_slot k) ks, lowest', fin)
      \<and> (\<not> fin \<longrightarrow> (keys @ [k]) @ filter (\<lambda>k. first \<le> key_slot k) ks \<noteq> [] \<and> slot \<le> lowest' \<and> (keys @ [k] \<noteq> [] \<longrightarrow> lowest' \<le> key_slot k))"
      using Cons.IH [of "keys @ [k]" "key_slot k" "cnt + 1" "sz + ?entry"] Cons.prems(1,2) pre by auto
    have "(if fin then slot else lowest') \<le> key_slot k" using ih pre by (auto simp: Let_def)
    moreover have "keys \<noteq> [] \<Longrightarrow> key_slot k \<le> lowest" using Cons.prems(3) by simp
    ultimately show ?thesis
      using ih take k by (intro exI [of _ lowest'] exI [of _ "fin"]) (auto simp: Let_def)
  qed
qed

section \<open>Rollback of the persisted activity\<close>

definition activity_count :: "store \<Rightarrow> nat" where
  "activity_count db = length (filter (\<lambda>(k, v). has_prefix activityKeyPrefix k) db)"

lemma rolled_back_loop_progress:
  assumes "rolled_back_loop slot mc ms keys cnt sz lowest ks = Inr (keys', lowest', fin)"
  shows "set keys' \<subseteq> set keys \<union> set ks \<and> (\<not> fin \<longrightarrow> keys' \<noteq> [])"
  using assms
  by (induction slot mc ms keys cnt sz lowest ks rule: rolled_back_loop.induct)
    (fastforce simp: Let_def split: sum.splits if_splits)+

lemma rewind_store:
  assumes "rewindActivityMeta bl n t = Inr t'"
  shows "t_store t' = t_store t \<or> (\<exists>v. t_store t' = AList.update activityMetaKey v (t_store t))"
  using assms
  by (auto simp: rewindActivityMeta_def Let_def dest: txn_Set_Inr split: option.splits stored.splits if_splits)

lemma batch_progress:
  assumes "rollbackActivityBatch bl slot mc ms db = (Inr False, db')"
  shows "activity_count db' < activity_count db"
proof -
  let ?p = "\<lambda>(k, v :: stored). has_prefix activityKeyPrefix k"
  obtain t where t: "rollback_txn bl slot mc ms \<lparr>t_store = db, t_writes = []\<rparr> = Inr (False, t)" "db' = t_store t"
    using assms by (auto simp: rollbackActivityBatch_def db_Update_def split: sum.splits if_splits)
  then obtain keys lowest t1 where keys: "rolledBackActivityKeys slot mc ms \<lparr>t_store = db, t_writes = []\<rparr> = Inr (keys, lowest, False)"
    and t1: "rewindActivityMeta bl lowest \<lparr>t_store = db, t_writes = []\<rparr> = Inr t1" "txn_Delete_all bl keys t1 = Inr t"
    by (auto simp: rollback_txn_def Let_def map_sum_eq_Inr split: sum.splits if_splits)
  have ks: "set keys \<subseteq> fst ` set (filter ?p db)" "keys \<noteq> []"
    using rolled_back_loop_progress [of slot mc ms "[]" 0 0 slot _ keys lowest False] keys
    unfolding rolledBackActivityKeys_def by (force simp: iterate_def)+
  have "filter ?p (t_store t1) = filter ?p db"
    using rewind_store [OF t1(1)] by (auto simp: filter_keys_update)
  moreover have "db' = filter (\<lambda>e. fst e \<notin> set keys) (t_store t1)"
    using txn_Delete_all_Inr [OF t1(2)] t(2) by (simp add: case_prod_unfold)
  then have "filter ?p db' = filter (\<lambda>e. fst e \<notin> set keys) (filter ?p (t_store t1))"
    by (simp only: filter_filter conj_commute)
  ultimately have "filter ?p db' = filter (\<lambda>e. fst e \<notin> set keys) (filter ?p db)" by simp
  moreover obtain e where "e \<in> set (filter ?p db)" "fst e \<in> set keys"
    using ks by (cases keys) auto
  ultimately have "length (filter ?p db') < length (filter ?p db)"
    using length_filter_less [of e "filter ?p db" "\<lambda>e. fst e \<notin> set keys"] by simp
  then show ?thesis by (simp add: activity_count_def)
qed

function RollbackActivity :: "badger_lib \<Rightarrow> u64 \<Rightarrow> store \<Rightarrow> (storage_error + unit) \<times> store" where
  "RollbackActivity bl slot db =
     (case rollbackActivityBatch bl slot (fst (activityDeleteBudget bl)) (snd (activityDeleteBudget bl)) db of
        (Inl e, db') \<Rightarrow> (Inl e, db')
      | (Inr exhausted, db') \<Rightarrow> if exhausted then (Inr (), db') else RollbackActivity bl slot db')"
  by pat_completeness auto

termination
  by (relation "measure (\<lambda>(bl, slot, db). activity_count db)") (auto dest: batch_progress [OF sym])

declare RollbackActivity.simps [simp del]

text \<open>
  What a rollback to a slot leaves: the swaps before it, the latest slot lowered to the one before
  it, and everything else.
\<close>

definition rewound :: "u64 \<Rightarrow> activityMetadata \<Rightarrow> activityMetadata" where
  "rewound n m = m\<lparr>am_LatestSlot := min (am_LatestSlot m) (if n > 0 then n - 1 else 0)\<rparr>"

definition truncated :: "u64 \<Rightarrow> store \<Rightarrow> string \<Rightarrow> stored option" where
  "truncated n db k = (case map_of db k of
     None \<Rightarrow> None
   | Some v \<Rightarrow>
       if has_prefix activityKeyPrefix k then (if key_slot k < n then Some v else None)
       else if k = activityMetaKey then (case v of MetaValue m \<Rightarrow> Some (MetaValue (rewound n m)) | _ \<Rightarrow> Some v)
       else Some v)"

lemma store_ok_meta:
  assumes "store_ok db" and "map_of db activityMetaKey = Some v"
  shows "\<exists>m. v = MetaValue m \<and> am_WindowSlots m \<noteq> 0 \<and> am_LatestSlot m = store_latest db"
  using assms by (auto simp: store_ok_def store_latest_def split: stored.splits)

lemma rewindActivityMeta_Inr:
  assumes "store_ok (t_store t)" and "rewindActivityMeta bl n t = Inr t'"
  shows "gomap_ok (t_store t') \<and> map_of (t_store t') k =
    (if k = activityMetaKey then map_option (\<lambda>v. case v of MetaValue m \<Rightarrow> MetaValue (rewound n m) | _ \<Rightarrow> v) (map_of (t_store t) k)
     else map_of (t_store t) k)"
proof (cases "map_of (t_store t) activityMetaKey")
  case None
  then show ?thesis using assms by (simp add: rewindActivityMeta_def txn_Get_def store_ok_def)
next
  case (Some v)
  then obtain m where m: "v = MetaValue m" using store_ok_meta [OF assms(1)] by blast
  have ok: "gomap_ok (t_store t)" using assms(1) by (simp add: store_ok_def)
  have same: "rewound n m = m" if "am_LatestSlot m \<le> (if n > 0 then n - 1 else 0)"
    using that by (simp add: rewound_def min_def)
  have lower: "rewound n m = m\<lparr>am_LatestSlot := (if n > 0 then n - 1 else 0)\<rparr>" if "\<not> am_LatestSlot m \<le> (if n > 0 then n - 1 else 0)"
    using that by (auto simp: rewound_def min_def)
  show ?thesis
    using assms(2) Some m ok
    by (auto simp: rewindActivityMeta_def txn_Get_def Let_def same lower update_conv' dest!: txn_Set_Inr split: if_splits)
qed

lemma rewindActivityMeta_Inl:
  assumes "store_ok (t_store t)" and "rewindActivityMeta bl n t = Inl e"
  shows "e = TxnTooBig"
  using assms store_ok_meta [OF assms(1)]
  by (auto simp: rewindActivityMeta_def txn_Get_def Let_def dest: txn_Set_Inl split: option.splits stored.splits if_splits)

lemma truncated_ok:
  assumes "store_ok db" and "gomap_ok db'" and "\<And>k. map_of db' k = truncated n db k"
  shows "store_ok db'"
proof (cases "map_of db activityMetaKey")
  case None
  then have "\<not> has_prefix activityKeyPrefix k" if "map_of db k = Some v" for k v
    using that assms(1) by (force simp: store_ok_def list_all_iff dest: map_of_SomeD)
  then have "\<forall>k v. map_of db' k = Some v \<longrightarrow> \<not> has_prefix activityKeyPrefix k"
    by (auto simp: assms(3) truncated_def split: option.splits if_splits)
  with None assms(2,3) show ?thesis
    by (auto simp: store_ok_def list_all_gomap truncated_def)
next
  case (Some v)
  then obtain m where m: "v = MetaValue m" "am_WindowSlots m \<noteq> 0" "am_LatestSlot m = store_latest db"
    using store_ok_meta [OF assms(1)] by blast
  have "activity_entry_ok (am_LatestSlot (rewound n m)) (k, w)" if w: "map_of db' k = Some w" for k w
  proof (cases "has_prefix activityKeyPrefix k")
    case True
    then have old: "map_of db k = Some w" "key_slot k < n"
      using w by (auto simp: assms(3) truncated_def split: option.splits if_splits)
    then obtain s where s: "w = SwapValue s" "k = poolActivityKey s" "st_Slot s \<le> store_latest db"
      using store_ok_entry [OF assms(1) _ True] by blast
    have "st_Slot s < n" using old(2) s(2) by simp
    then have "n \<noteq> 0" "unat (st_Slot s) < unat n" by (auto simp: word_less_nat_alt)
    then have "st_Slot s \<le> n - 1" "n > 0"
      by (simp_all add: word_le_nat_alt unat_minus_one word_gt_0)
    with s m show ?thesis by (simp add: activity_entry_ok_def rewound_def)
  qed (simp add: activity_entry_ok_def)
  moreover have "map_of db' activityMetaKey = Some (MetaValue (rewound n m))"
    using Some m(1) by (simp add: assms(3) truncated_def)
  moreover have "am_WindowSlots (rewound n m) \<noteq> 0" using m(2) by (simp add: rewound_def)
  ultimately show ?thesis
    using assms(2) by (simp add: store_ok_def list_all_gomap)
qed

lemma rolledBackActivityKeys_spec:
  assumes "store_ok (t_store t)"
  shows "\<exists>keys lowest fin. rolledBackActivityKeys slot mc ms t = Inr (keys, lowest, fin)
    \<and> (fin \<or> slot \<le> lowest)
    \<and> set keys = {k \<in> set (map fst (iterate activityKeyPrefix (t_store t))). (if fin then slot else lowest) \<le> key_slot k}"
proof -
  let ?ks = "map fst (iterate activityKeyPrefix (t_store t))"
  have desc: "sorted_wrt (\<lambda>a b. key_slot b \<le> key_slot a) (rev ?ks)"
    unfolding sorted_wrt_rev using activity_keys_slots(2) [OF assms] by (simp only: sorted_map)
  have "\<forall>k \<in> set (rev ?ks). activitySlotFromKey k = Inr (key_slot k)"
    using activity_keys_slots(1) [OF assms] by simp
  then obtain lowest fin where "let first = (if fin then slot else lowest) in
      rolled_back_loop slot mc ms [] 0 0 slot (rev ?ks) = Inr (filter (\<lambda>k. first \<le> key_slot k) (rev ?ks), lowest, fin)
      \<and> (\<not> fin \<longrightarrow> slot \<le> lowest)"
    using rolled_back_loop_keys [OF _ desc, of "[]" slot slot mc ms 0 0] unfolding Let_def append_Nil by blast
  then show ?thesis
    unfolding rolledBackActivityKeys_def reverse_keys [OF assms] by (auto simp: Let_def)
qed

lemma batch_spec:
  assumes ok: "store_ok db" and run: "rollbackActivityBatch bl slot mc ms db = (r, db')"
  shows "case r of
      Inl e \<Rightarrow> (e = TxnTooBig \<or> e = CommitFailed) \<and> db' = db
    | Inr exhausted \<Rightarrow> store_ok db' \<and>
        (\<exists>first \<ge> slot. (exhausted \<longrightarrow> first = slot) \<and> (\<forall>k. map_of db' k = truncated first db k))"
proof -
  let ?t = "\<lparr>t_store = db, t_writes = []\<rparr>"
  obtain keys lowest fin where keys: "rolledBackActivityKeys slot mc ms ?t = Inr (keys, lowest, fin)" "fin \<or> slot \<le> lowest"
    "set keys = {k \<in> set (map fst (iterate activityKeyPrefix db)). (if fin then slot else lowest) \<le> key_slot k}"
    using rolledBackActivityKeys_spec [of ?t slot mc ms] ok by auto
  define first where "first = (if fin then slot else lowest)"
  have txn: "rollback_txn bl slot mc ms ?t = (case rewindActivityMeta bl first ?t of Inl e \<Rightarrow> Inl e
      | Inr t' \<Rightarrow> map_sum id (Pair fin) (txn_Delete_all bl keys t'))"
    using keys(1) by (simp add: rollback_txn_def first_def)
  have done_: "store_ok (t_store t) \<and> (\<forall>k. map_of (t_store t) k = truncated first db k)"
    if t: "rewindActivityMeta bl first ?t = Inr t1" "txn_Delete_all bl keys t1 = Inr t" for t1 t
  proof -
    have st: "t_store t = filter (\<lambda>(k, v). k \<notin> set keys) (t_store t1)"
      using t(2) by (rule txn_Delete_all_Inr)
    have in_keys: "k \<in> set keys \<longleftrightarrow> (\<exists>v. map_of db k = Some v) \<and> has_prefix activityKeyPrefix k \<and> first \<le> key_slot k" for k
      using ok by (force simp: keys(3) first_def iterate_def store_ok_def gomap_ok_def map_of_eq_Some_iff)
    have eq: "map_of (t_store t) k = truncated first db k" for k
    proof -
      have "map_of (t_store t) k = (if k \<in> set keys then None else map_of (t_store t1) k)"
        by (simp only: st map_of_without_keys)
      then show ?thesis
        using rewindActivityMeta_Inr [of ?t bl first t1 k] ok t(1)
        by (auto simp: truncated_def in_keys not_le split: option.splits stored.splits)
    qed
    moreover have "gomap_ok (t_store t)"
      using rewindActivityMeta_Inr [of ?t bl first t1] ok t(1) by (simp add: st)
    ultimately show ?thesis using truncated_ok [OF ok] by blast
  qed
  show ?thesis
    using run keys(2) done_ ok rewindActivityMeta_Inl [of ?t bl first]
    by (auto simp: rollbackActivityBatch_def db_Update_def txn first_def map_sum_eq_Inr map_sum_eq_Inl
        dest: txn_Delete_all_Inl split: sum.splits if_splits prod.splits)
qed

text \<open>A deeper rollback after a shallower one is the deeper one alone.\<close>

lemma rewound_rewound: "n \<le> m \<Longrightarrow> rewound n (rewound m x) = rewound n x"
proof -
  assume "n \<le> m"
  then have "(if n > 0 then n - 1 else 0) \<le> (if m > 0 then m - 1 else 0)"
    by (cases "n = 0"; cases "m = 0") (auto simp: word_le_nat_alt unat_minus_one word_gt_0)
  moreover have "y\<lparr>am_LatestSlot := min (am_LatestSlot y) a\<rparr>\<lparr>am_LatestSlot := min (am_LatestSlot (y\<lparr>am_LatestSlot := min (am_LatestSlot y) a\<rparr>)) b\<rparr>
      = y\<lparr>am_LatestSlot := min (am_LatestSlot y) b\<rparr>" if "b \<le> a" for y :: activityMetadata and a b
    using that by (simp add: min.assoc min.absorb2)
  ultimately show ?thesis unfolding rewound_def by blast
qed

lemma truncated_truncated:
  assumes "\<And>k. map_of db' k = truncated m db k" and "n \<le> m"
  shows "truncated n db' k = truncated n db k"
  using assms(2) rewound_rewound [OF assms(2)]
  by (auto simp: truncated_def [of n] assms(1) truncated_def [of m] split: option.splits stored.splits)

lemma RollbackActivity_spec:
  assumes "store_ok db" and "RollbackActivity bl slot db = (r, db')"
  shows "store_ok db'
    \<and> (case r of Inl e \<Rightarrow> e = TxnTooBig \<or> e = CommitFailed | Inr _ \<Rightarrow> \<forall>k. map_of db' k = truncated slot db k)
    \<and> (\<forall>k. truncated slot db' k = truncated slot db k)"
  using assms
proof (induction bl slot db rule: RollbackActivity.induct)
  case (1 bl slot db)
  let ?b = "rollbackActivityBatch bl slot (fst (activityDeleteBudget bl)) (snd (activityDeleteBudget bl)) db"
  obtain q db1 where b: "?b = (q, db1)" by (cases ?b)
  note spec = batch_spec [OF 1(2) b]
  have run: "RollbackActivity bl slot db = (case q of Inl e \<Rightarrow> (Inl e, db1)
      | Inr exhausted \<Rightarrow> if exhausted then (Inr (), db1) else RollbackActivity bl slot db1)"
    by (subst RollbackActivity.simps) (simp add: b split: sum.split)
  show ?case
  proof (cases q)
    case (Inl e)
    then show ?thesis using 1(2,3) spec run by auto
  next
    case (Inr exhausted)
    then obtain first where first: "slot \<le> first" "exhausted \<longrightarrow> first = slot" "\<And>k. map_of db1 k = truncated first db k"
      and ok: "store_ok db1" using spec by auto
    note same = truncated_truncated [OF first(3,1)]
    show ?thesis
    proof (cases exhausted)
      case True
      then show ?thesis using 1(3) run Inr ok first same by auto
    next
      case False
      then have "RollbackActivity bl slot db1 = (r, db')" using 1(3) run Inr by simp
      with 1(1) [OF b [symmetric] Inr False ok] show ?thesis
        using 1 b Inr False ok same by (auto simp: truncated_def [of slot db] split: sum.splits)
    qed
  qed
qed

definition reliable :: "badger_lib \<Rightarrow> bool" where
  "reliable bl \<longleftrightarrow> (\<forall>ws. bl_fits bl ws \<and> bl_commits bl ws)"

lemma reliable_delete_all: "reliable bl \<Longrightarrow> txn_Delete_all bl ks t \<noteq> Inl e"
  by (induction ks arbitrary: t) (simp_all add: reliable_def txn_Delete_def)

lemma reliable_batch:
  assumes "store_ok db" and "reliable bl"
  shows "fst (rollbackActivityBatch bl slot mc ms db) \<noteq> Inl e"
proof -
  let ?t = "\<lparr>t_store = db, t_writes = []\<rparr>"
  have "rewindActivityMeta bl n ?t \<noteq> Inl e'" for n e'
    using rewindActivityMeta_Inl [of ?t bl n e'] assms store_ok_meta [OF assms(1)]
    by (auto simp: rewindActivityMeta_def txn_Get_def txn_Set_def reliable_def Let_def split: option.splits stored.splits)
  then have "rollback_txn bl slot mc ms ?t \<noteq> Inl e'" for e'
    using rolledBackActivityKeys_spec [of ?t slot mc ms] assms reliable_delete_all [OF assms(2)]
    by (auto simp: rollback_txn_def Let_def map_sum_eq_Inl split: sum.split)
  then show ?thesis
    using assms(2) by (auto simp: rollbackActivityBatch_def db_Update_def reliable_def split: sum.split)
qed

lemma reliable_rollback:
  assumes "store_ok db" and "reliable bl"
  shows "fst (RollbackActivity bl slot db) = Inr ()"
  using assms
proof (induction bl slot db rule: RollbackActivity.induct)
  case (1 bl slot db)
  let ?b = "rollbackActivityBatch bl slot (fst (activityDeleteBudget bl)) (snd (activityDeleteBudget bl)) db"
  obtain q db1 where b: "?b = (q, db1)" by (cases ?b)
  then obtain exhausted where q: "q = Inr exhausted"
    using reliable_batch [OF 1(2,3), of slot "fst (activityDeleteBudget bl)" "snd (activityDeleteBudget bl)"] by (cases q) auto
  have ok: "store_ok db1" using batch_spec [OF 1(2) b] q by simp
  show ?case
    using 1(1) [OF b [symmetric] q _ ok 1(3)] by (subst RollbackActivity.simps) (simp add: b q)
qed

section \<open>Saving a pool state with its activity\<close>

lemma prune_loop_keys:
  assumes "\<forall>k \<in> set ks. activitySlotFromKey k = Inr (key_slot k)"
  shows "\<exists>xs ys. ks = xs @ ys \<and> prune_loop cutoff mc ms cnt sz ks = Inr xs \<and> (\<forall>k \<in> set xs. key_slot k < cutoff)"
  using assms
proof (induction ks arbitrary: cnt sz)
  case Nil
  then show ?case by simp
next
  case (Cons k ks)
  let ?sz = "sz + (int (length k) + activityDeleteEntryOverhead)"
  obtain xs ys where ih: "ks = xs @ ys" "prune_loop cutoff mc ms (cnt + 1) ?sz ks = Inr xs" "\<forall>k \<in> set xs. key_slot k < cutoff"
    using Cons.IH [of "cnt + 1" ?sz] Cons.prems by (meson list.set_intros(2))
  show ?case
  proof (cases "key_slot k \<ge> cutoff \<or> cnt + 1 > mc \<or> ?sz > ms")
    case True
    then have "prune_loop cutoff mc ms cnt sz (k # ks) = Inr []" using Cons.prems by (auto simp: Let_def)
    then show ?thesis by auto
  next
    case False
    then have "prune_loop cutoff mc ms cnt sz (k # ks) = Inr (k # xs)" using Cons.prems ih(2) by (auto simp: Let_def)
    with ih False show ?thesis by (intro exI [of _ "k # xs"] exI [of _ ys]) auto
  qed
qed

lemma pruneActivityKeys_Inr:
  assumes "store_ok (t_store t)" and "pruneActivityKeys bl cutoff mc ms t = Inr t'"
  shows "\<exists>K. t_store t' = filter (\<lambda>(k, v). k \<notin> K) (t_store t)
    \<and> (\<forall>k \<in> K. has_prefix activityKeyPrefix k \<and> key_slot k < cutoff)"
proof (cases "cutoff = 0")
  case True
  then show ?thesis using assms(2) by (intro exI [of _ "{}"]) (simp add: pruneActivityKeys_def)
next
  case False
  obtain xs ys where xs: "map fst (iterate activityKeyPrefix (t_store t)) = xs @ ys"
    "prune_loop cutoff mc ms 0 0 (map fst (iterate activityKeyPrefix (t_store t))) = Inr xs" "\<forall>k \<in> set xs. key_slot k < cutoff"
    using prune_loop_keys [OF activity_keys_slots(1) [OF assms(1)]] by blast
  have "set xs \<subseteq> set (map fst (iterate activityKeyPrefix (t_store t)))" unfolding xs(1) by auto
  then have "\<forall>k \<in> set xs. has_prefix activityKeyPrefix k" by (force simp: iterate_def)
  moreover have "t_store t' = filter (\<lambda>(k, v). k \<notin> set xs) (t_store t)"
    using assms(2) False xs(2) by (auto simp: pruneActivityKeys_def dest: txn_Delete_all_Inr)
  ultimately show ?thesis using xs(3) by (intro exI [of _ "set xs"]) auto
qed

lemma store_ok_filter:
  assumes "store_ok db" and "\<forall>k \<in> K. has_prefix activityKeyPrefix k"
  shows "store_ok (filter (\<lambda>(k, v). k \<notin> K) db)"
proof -
  have "map_of (filter (\<lambda>(k, v). k \<notin> K) db) activityMetaKey = map_of db activityMetaKey"
    using assms(2) by (auto simp: map_of_without_keys)
  then show ?thesis
    using assms(1) by (auto simp: store_ok_def list_all_iff split: option.splits stored.splits)
qed

lemma next_meta_Inr:
  assumes "store_ok (t_store t)" and "next_meta state w t = Inr m" and "w \<noteq> 0"
  shows "am_WindowSlots m = w \<and> am_LatestSlot m = max (store_latest (t_store t)) (Slot state)"
  using assms(2,3)
  by (auto simp: next_meta_def txn_Get_def store_latest_def max_def split: option.splits stored.splits if_splits)

text \<open>The three writes of a save on a store in good order.\<close>

definition saved :: "PoolState \<Rightarrow> SwapTransition option \<Rightarrow> activityMetadata \<Rightarrow> store \<Rightarrow> store" where
  "saved state swap meta db =
     AList.update activityMetaKey (MetaValue meta)
       ((case swap of None \<Rightarrow> id | Some s \<Rightarrow> AList.update (poolActivityKey s) (SwapValue s))
         (AList.update (poolStateKey (Network state) (Protocol state) (PoolId state)) (PoolValue state) db))"

lemma activity_key_not_others [simp]: "poolActivityKey s \<noteq> activityMetaKey" "poolActivityKey s \<noteq> poolStateKey n p i"
  using activity_key_prefix [of s] meta_key_no_prefix pool_key_no_prefix by metis+

lemma saved_lookup:
  "map_of (saved state swap meta db) k =
     (if k = activityMetaKey then Some (MetaValue meta)
      else if \<exists>s. swap = Some s \<and> k = poolActivityKey s then map_option SwapValue swap
      else if k = poolStateKey (Network state) (Protocol state) (PoolId state) then Some (PoolValue state)
      else map_of db k)"
  by (cases swap) (auto simp: saved_def update_conv')

lemma saved_ok:
  assumes ok: "store_ok db" and w: "am_WindowSlots meta \<noteq> 0" and latest: "am_LatestSlot meta = max (store_latest db) (Slot state)"
    and swap: "\<And>s. swap = Some s \<Longrightarrow> swap_matches s state"
  shows "store_ok (saved state swap meta db)"
proof -
  have gm: "gomap_ok (saved state swap meta db)"
    using ok by (cases swap) (simp_all add: saved_def store_ok_def)
  have "activity_entry_ok (am_LatestSlot meta) (k, v)" if kv: "map_of (saved state swap meta db) k = Some v" for k v
  proof (cases "has_prefix activityKeyPrefix k")
    case True
    then have "k \<noteq> activityMetaKey" "k \<noteq> poolStateKey n p i" for n p i by auto
    then consider s where "swap = Some s" "k = poolActivityKey s" "v = SwapValue s" | "map_of db k = Some v"
      using kv unfolding saved_lookup by (auto split: if_splits)
    then show ?thesis
    proof cases
      case 1
      then show ?thesis using swap [of s] by (simp add: activity_entry_ok_def swap_matches_def latest)
    next
      case 2
      then obtain s where "v = SwapValue s" "k = poolActivityKey s" "st_Slot s \<le> store_latest db"
        using store_ok_entry [OF ok _ True] by blast
      then show ?thesis by (simp add: activity_entry_ok_def latest max.coboundedI1)
    qed
  qed (simp add: activity_entry_ok_def)
  then show ?thesis
    using w gm by (simp add: store_ok_def saved_lookup list_all_gomap)
qed

lemma save_txn_Inr:
  assumes "save_txn bl state (PoolValue state) swap w t = Inr (u, t')"
  shows "\<exists>meta t3 mc ms. next_meta state w t = Inr meta \<and> t_store t3 = saved state swap meta (t_store t)
    \<and> pruneActivityKeys bl (cutoff_at w (am_LatestSlot meta)) mc ms t3 = Inr t'"
  using assms
  by (cases swap) (force simp: save_txn_def saved_def cutoff_at_def Let_def map_sum_eq_Inr case_prod_unfold
      split: sum.splits dest!: txn_Set_Inr)+

lemma save_Inr:
  assumes ok: "store_ok db" and save: "SavePoolStateAndActivity bl st swap w db = (Inr u, db')"
  obtains state meta K where "st = Some state" "w \<noteq> 0" "am_WindowSlots meta = w"
    "am_LatestSlot meta = max (store_latest db) (Slot state)" "\<And>s. swap = Some s \<Longrightarrow> swap_matches s state"
    "store_ok (saved state swap meta db)" "db' = filter (\<lambda>(k, v). k \<notin> K) (saved state swap meta db)"
    "\<forall>k \<in> K. has_prefix activityKeyPrefix k \<and> key_slot k < cutoff_at w (am_LatestSlot meta)"
proof -
  let ?t = "\<lparr>t_store = db, t_writes = []\<rparr>"
  obtain state t' where st: "st = Some state" "w \<noteq> 0" "\<And>s. swap = Some s \<Longrightarrow> swap_matches s state"
    and run: "save_txn bl state (PoolValue state) swap w ?t = Inr (u, t')" "db' = t_store t'"
    using save by (auto simp: SavePoolStateAndActivity_def json_Marshal_pool_def db_Update_def
        split: option.splits sum.splits if_splits)
  obtain meta t3 mc ms where m: "next_meta state w ?t = Inr meta" "t_store t3 = saved state swap meta db"
    "pruneActivityKeys bl (cutoff_at w (am_LatestSlot meta)) mc ms t3 = Inr t'"
    using save_txn_Inr [OF run(1)] by auto
  have meta: "am_WindowSlots meta = w" "am_LatestSlot meta = max (store_latest db) (Slot state)"
    using next_meta_Inr [OF _ m(1) st(2)] ok by auto
  have ok3: "store_ok (saved state swap meta db)" using saved_ok [OF ok _ meta(2) st(3)] meta(1) st(2) by blast
  show ?thesis
    using pruneActivityKeys_Inr [OF _ m(3)] ok3 m(2) st meta run(2) that by metis
qed

section \<open>Loading\<close>

lemma load_swaps_Inr:
  assumes "\<forall>(k, v) \<in> set items. \<exists>s. v = SwapValue s \<and> k = poolActivityKey s"
  shows "\<exists>ss. load_swaps items = Inr ss \<and> items = map (\<lambda>s. (poolActivityKey s, SwapValue s)) ss"
  using assms
proof (induction items)
  case Nil
  then show ?case by simp
next
  case (Cons i items)
  then obtain s ss where "i = (poolActivityKey s, SwapValue s)" "load_swaps items = Inr ss"
    "items = map (\<lambda>s. (poolActivityKey s, SwapValue s)) ss" by fastforce
  then show ?case by (intro exI [of _ "s # ss"]) (simp add: activitySlotFromKey_round_trip)
qed

lemma LoadActivityState_Inr:
  assumes "store_ok db"
  shows "\<exists>ss. LoadActivityState db = Inr \<lparr>as_WindowSlots = store_window db, as_LatestSlot = store_latest db, as_Swaps = ss\<rparr>
    \<and> set ss = store_swaps db \<and> distinct (map poolActivityKey ss) \<and> sorted (map st_Slot ss)"
proof -
  let ?it = "iterate activityKeyPrefix db"
  have gm: "gomap_ok db" using assms by (simp add: store_ok_def)
  have items: "\<exists>s. v = SwapValue s \<and> k = poolActivityKey s" if "(k, v) \<in> set ?it" for k v
    using store_ok_entry [OF assms, of k v] that gm by (auto simp: iterate_def gomap_ok_mem)
  then obtain ss where ss: "load_swaps ?it = Inr ss" "?it = map (\<lambda>s. (poolActivityKey s, SwapValue s)) ss"
    using load_swaps_Inr [of ?it] by blast
  have keys: "map fst ?it = map poolActivityKey ss" unfolding ss(2) by simp
  have "s \<in> set ss \<longleftrightarrow> s \<in> store_swaps db" for s
  proof -
    have "s \<in> set ss \<longleftrightarrow> (poolActivityKey s, SwapValue s) \<in> set ?it" unfolding ss(2) by auto
    also have "\<dots> \<longleftrightarrow> (poolActivityKey s, SwapValue s) \<in> set db" by (simp add: iterate_def)
    also have "\<dots> \<longleftrightarrow> s \<in> store_swaps db" using gm by (simp add: store_swaps_def gomap_ok_def map_of_eq_Some_iff)
    finally show ?thesis .
  qed
  then have "set ss = store_swaps db" by blast
  moreover have "distinct (map poolActivityKey ss)" using iterate_distinct [OF gm, of activityKeyPrefix] keys by simp
  moreover have "sorted (map st_Slot ss)"
    using activity_keys_slots(2) [OF assms] unfolding keys by (simp add: comp_def)
  moreover have "LoadActivityState db = Inr \<lparr>as_WindowSlots = store_window db, as_LatestSlot = store_latest db, as_Swaps = ss\<rparr>"
  proof (cases "map_of db activityMetaKey")
    case None
    then have "\<forall>e \<in> set db. \<not> has_prefix activityKeyPrefix (fst e)"
      using assms by (auto simp: store_ok_def list_all_iff)
    then have "?it = []" by (simp add: iterate_def filter_empty_conv case_prod_unfold)
    with None ss show ?thesis by (simp add: LoadActivityState_def store_window_def store_latest_def)
  next
    case (Some v)
    then show ?thesis
      using store_ok_meta [OF assms Some] ss(1)
      by (auto simp: LoadActivityState_def store_window_def store_latest_def)
  qed
  ultimately show ?thesis by blast
qed

section \<open>Keys of pools and positions\<close>

lemma split_key_append:
  assumes "CHR '':'' \<notin> set n" and "CHR '':'' \<notin> set p" and "n \<noteq> []" and "p \<noteq> []" and "i \<noteq> []"
  shows "split_key prefix (prefix @ n @ '':'' @ p @ '':'' @ i) = Some (n, p, i)"
  using assms by (simp add: split_key_def cut_append)

section \<open>Pools in the store\<close>

lemma db_Update_error: "db_Update bl f db = (Inl e, db') \<Longrightarrow> db' = db"
  by (auto simp: db_Update_def split: sum.splits if_splits)

lemma save_error: "SavePoolStateAndActivity bl st swap w db = (Inl e, db') \<Longrightarrow> db' = db"
  by (auto simp: SavePoolStateAndActivity_def dest: db_Update_error split: option.splits sum.splits if_splits)

definition swap_in :: "SwapTransition option \<Rightarrow> string \<Rightarrow> bool" where
  "swap_in swap k = (case swap of None \<Rightarrow> False | Some s \<Rightarrow> k = poolActivityKey s)"

lemma saved_activity:
  "has_prefix activityKeyPrefix k \<Longrightarrow> map_of (saved state swap meta db) k =
     (if swap_in swap k then map_option SwapValue swap else map_of db k)"
  by (auto simp: saved_lookup swap_in_def split: option.split)

section \<open>Every write keeps the store in good order\<close>

lemma store_ok_update_other:
  assumes "store_ok db" and "\<not> has_prefix activityKeyPrefix k" and "k \<noteq> activityMetaKey"
  shows "store_ok (AList.update k v db)"
  using assms by (auto simp: store_ok_def update_conv' activity_entry_ok_def
      intro!: list_all_alist_update split: option.splits stored.splits)

lemma store_ok_delete_other:
  assumes "store_ok db" and "k \<noteq> activityMetaKey"
  shows "store_ok (AList.delete k db)"
proof -
  have "set (AList.delete k db) \<subseteq> set db" by (auto simp: AList.delete_eq)
  moreover have "map_of (AList.delete k db) activityMetaKey = map_of db activityMetaKey"
    using assms(2) by (simp add: delete_conv')
  ultimately show ?thesis
    using assms(1) by (auto simp: store_ok_def list_all_iff split: option.splits stored.splits)
qed

lemma cdp_key_other [simp]: "\<not> has_prefix activityKeyPrefix (cdpStateKey n p i)" "cdpStateKey n p i \<noteq> activityMetaKey"
  by (simp_all add: has_prefix_def activityKeyPrefix_def activityMetaKey_def cdpStateKey_def cdpStateKeyPrefix_def)

lemma set_one_ok:
  assumes "store_ok db" and "\<not> has_prefix activityKeyPrefix k" and "k \<noteq> activityMetaKey"
  shows "store_ok (snd (db_Update bl (\<lambda>t. map_sum id (Pair ()) (txn_Set bl k v t)) db))"
  using assms store_ok_update_other [OF assms] by (simp add: db_Update_def txn_Set_def)

lemma delete_one_ok:
  assumes "store_ok db" and "k \<noteq> activityMetaKey"
  shows "store_ok (snd (db_Update bl (\<lambda>t. map_sum id (Pair ()) (txn_Delete bl k t)) db))"
  using assms store_ok_delete_other [OF assms] by (simp add: db_Update_def txn_Delete_def)

lemma SavePoolState_ok [inv_intros]: "store_ok db \<Longrightarrow> store_ok (snd (SavePoolState bl s db))"
  by (simp add: SavePoolState_def set_one_ok split: sum.split)

lemma DeletePoolState_ok [inv_intros]: "store_ok db \<Longrightarrow> store_ok (snd (DeletePoolState bl s db))"
  by (simp add: DeletePoolState_def delete_one_ok)

lemma SaveCDPState_ok [inv_intros]: "store_ok db \<Longrightarrow> store_ok (snd (SaveCDPState bl s db))"
  by (simp add: SaveCDPState_def set_one_ok split: sum.split)

lemma DeleteCDPState_ok [inv_intros]: "store_ok db \<Longrightarrow> store_ok (snd (DeleteCDPState bl n p i db))"
  by (simp add: DeleteCDPState_def delete_one_ok)

lemma SavePoolStateAndActivity_ok [inv_intros]:
  assumes "store_ok db"
  shows "store_ok (snd (SavePoolStateAndActivity bl st swap w db))"
proof (cases "SavePoolStateAndActivity bl st swap w db")
  case (Pair r db')
  show ?thesis
  proof (cases r)
    case (Inl e)
    then show ?thesis using save_error [of bl st swap w db e db'] Pair assms by simp
  next
    case (Inr u)
    then show ?thesis
      using save_Inr [OF assms, of bl st swap w u db'] store_ok_filter Pair by (metis snd_conv)
  qed
qed

lemma RollbackActivity_ok [inv_intros]: "store_ok db \<Longrightarrow> store_ok (snd (RollbackActivity bl n db))"
  using RollbackActivity_spec [OF _ surjective_pairing] by blast

text \<open>The persisted swaps follow a rollback the way every log of the development does.\<close>

interpretation store_log:
  rollback_log "\<lambda>(bl, db). reliable bl \<and> store_ok db" "\<lambda>(bl, db). store_swaps db" st_Slot
    "\<lambda>n (bl, db). (bl, snd (RollbackActivity bl n db))" "\<lambda>n s. s < n"
proof unfold_locales
  show "(case (case s of (bl, db) \<Rightarrow> (bl, snd (RollbackActivity bl n db))) of (bl, db) \<Rightarrow> store_swaps db) =
      {e \<in> case s of (bl, db) \<Rightarrow> store_swaps db. st_Slot e < n}"
    if ok: "case s of (bl, db) \<Rightarrow> reliable bl \<and> store_ok db" for s n
  proof (cases s)
    case (Pair bl db)
    then have "\<forall>k. map_of (snd (RollbackActivity bl n db)) k = truncated n db k"
      using RollbackActivity_spec [OF _ surjective_pairing, of db bl n] reliable_rollback [of db bl n] ok by simp
    then show ?thesis
      by (auto simp: Pair store_swaps_def truncated_def split: option.splits)
  qed
  show "case (case s of (bl, db) \<Rightarrow> (bl, snd (RollbackActivity bl n db))) of (bl, db) \<Rightarrow> reliable bl \<and> store_ok db"
    if "case s of (bl, db) \<Rightarrow> reliable bl \<and> store_ok db" for s n
    using that by (auto intro: inv_intros split: prod.splits)
  show "sl < m" if "n \<le> m" "sl < n" for n m sl :: u64
    using that by (rule order_less_le_trans [rotated])
qed

section \<open>Properties\<close>

text \<open>C8: rolling the persisted activity back to a slot keeps the store in good order whatever happens;
  when it succeeds, exactly the swaps at or above the slot are gone, the latest slot is lowered to
  the one before it, and nothing else changed; it fails only when the database refuses a
  transaction, and then the same rollback can be repeated with the result it would have had.\<close>

theorem rollback_activity_exact:
  assumes "store_ok db" and "RollbackActivity bl slot db = (r, db')"
  shows "store_ok db'
    \<and> (r = Inr () \<longrightarrow> (\<forall>k. map_of db' k = truncated slot db k))
    \<and> (\<forall>e. r = Inl e \<longrightarrow> e = TxnTooBig \<or> e = CommitFailed)
    \<and> (\<forall>k. truncated slot db' k = truncated slot db k)"
  using RollbackActivity_spec [OF assms] by (auto split: sum.splits)


text \<open>A save either leaves the store as it was, or writes the pool state, moves the latest slot to the
  newer of the two, and leaves every swap of the window as it was except the new one; pruning only
  ever removes swaps older than the window.\<close>

lemma save_pool_and_activity:
  assumes "store_ok db" and "SavePoolStateAndActivity bl (Some state) swap w db = (r, db')"
  shows "store_ok db' \<and> (case r of
      Inl e \<Rightarrow> db' = db
    | Inr _ \<Rightarrow> LoadPoolState (Network state) (Protocol state) (PoolId state) db' = Inr state
        \<and> store_window db' = w \<and> store_latest db' = max (store_latest db) (Slot state)
        \<and> (\<forall>k. has_prefix activityKeyPrefix k \<longrightarrow>
             (if key_slot k < cutoff_at w (store_latest db')
              then map_of db' k \<in> {None, if swap_in swap k then map_option SwapValue swap else map_of db k}
              else map_of db' k = (if swap_in swap k then map_option SwapValue swap else map_of db k))))"
proof (cases r)
  case (Inl e)
  then show ?thesis using save_error [of bl "Some state" swap w db e db'] assms by simp
next
  case (Inr u)
  obtain state' meta K where s: "Some state = Some state'" "w \<noteq> 0" "am_WindowSlots meta = w"
    "am_LatestSlot meta = max (store_latest db) (Slot state')" "store_ok (saved state' swap meta db)"
    "db' = filter (\<lambda>(k, v). k \<notin> K) (saved state' swap meta db)"
    "\<forall>k \<in> K. has_prefix activityKeyPrefix k \<and> key_slot k < cutoff_at w (am_LatestSlot meta)"
    using save_Inr [OF assms(1)] assms(2) Inr by metis
  have look: "map_of db' k = (if k \<in> K then None else map_of (saved state swap meta db) k)" for k
    using s(1,6) by (simp add: map_of_without_keys)
  have other: "activityMetaKey \<notin> K" "poolStateKey n p i \<notin> K" for n p i using s(7) by auto
  have meta: "store_latest db' = am_LatestSlot meta" "store_window db' = w"
    using s(1,3) other by (simp_all add: store_latest_def store_window_def look saved_lookup)
  have latest: "store_latest db' = max (store_latest db) (Slot state)" using meta(1) s(1,4) by simp
  have "LoadPoolState (Network state) (Protocol state) (PoolId state) db' = Inr state"
    using other by (simp add: LoadPoolState_def look saved_lookup unmarshal_pool_def activity_key_not_others(2) [symmetric])
  moreover have "store_ok db'" using store_ok_filter [OF s(5)] s(6,7) by blast
  moreover have "if key_slot k < cutoff_at w (store_latest db')
      then map_of db' k \<in> {None, if swap_in swap k then map_option SwapValue swap else map_of db k}
      else map_of db' k = (if swap_in swap k then map_option SwapValue swap else map_of db k)"
    if "has_prefix activityKeyPrefix k" for k
    using s(7) meta(1) saved_activity [OF that, of state swap meta db] by (auto simp: look)
  ultimately show ?thesis
    unfolding Inr sum.case using meta(2) latest by blast
qed

text \<open>Activity keys are ordered by slot and give their slot back, and a pool key gives back the
  network, the protocol and the pool it was built from when the first two have no colon.\<close>

lemma storage_keys_round_trip:
  "activitySlotFromKey (poolActivityKey a) = Inr (st_Slot a)
   \<and> (st_Slot a < st_Slot b \<longrightarrow> poolActivityKey a < poolActivityKey b)
   \<and> (CHR '':'' \<notin> set n \<and> CHR '':'' \<notin> set p \<and> n \<noteq> [] \<and> p \<noteq> [] \<and> i \<noteq> [] \<longrightarrow>
        ParsePoolStateKey (poolStateKey n p i) = Some (n, p, i) \<and> ParseCDPStateKey (cdpStateKey n p i) = Some (n, p, i))"
  by (simp add: activitySlotFromKey_round_trip key_order ParsePoolStateKey_def ParseCDPStateKey_def
      poolStateKey_def cdpStateKey_def split_key_append [simplified])

section \<open>Witnesses\<close>

definition swap_at :: "u64 \<Rightarrow> SwapTransition" where
  "swap_at n = one_swap\<lparr>st_Slot := n\<rparr>"

definition two_swaps :: store where
  "two_swaps = [(poolActivityKey (swap_at 10), SwapValue (swap_at 10)),
    (poolActivityKey (swap_at 20), SwapValue (swap_at 20)),
    (activityMetaKey, MetaValue \<lparr>am_WindowSlots = 100, am_LatestSlot = 20\<rparr>)]"

definition open_badger :: badger_lib where
  "open_badger = \<lparr>bl_fits = (\<lambda>_. True), bl_commits = (\<lambda>_. True), bl_maxBatchCount = 2, bl_maxBatchSize = 10000\<rparr>"

lemma swap_at_slot [simp]: "st_Slot (swap_at n) = n"
  by (simp add: swap_at_def)

lemma swap_keys_distinct: "a < b \<Longrightarrow> poolActivityKey (swap_at a) \<noteq> poolActivityKey (swap_at b)"
  using key_order [of "swap_at a" "swap_at b"] by auto

lemma two_swaps_ok: "store_ok two_swaps"
  using swap_keys_distinct [of 10 20]
  by (simp add: store_ok_def two_swaps_def gomap_ok_def activity_entry_ok_def
      activity_key_not_others(1) [symmetric])

lemma open_badger_reliable: "reliable open_badger"
  by (simp add: reliable_def open_badger_def)


theorem rollback_activity_exact_witness:
  "store_ok (snd (RollbackActivity open_badger 15 two_swaps))
   \<and> map_of (snd (RollbackActivity open_badger 15 two_swaps)) activityMetaKey
     = Some (MetaValue \<lparr>am_WindowSlots = 100, am_LatestSlot = 14\<rparr>)"
proof -
  obtain db' where run: "RollbackActivity open_badger 15 two_swaps = (Inr (), db')"
    using reliable_rollback [OF two_swaps_ok open_badger_reliable, of 15]
    by (cases "RollbackActivity open_badger 15 two_swaps") auto
  show ?thesis
    using rollback_activity_exact [OF two_swaps_ok run] run
    by (simp add: truncated_def two_swaps_def rewound_def activity_key_not_others(1) [symmetric])
qed

section \<open>Limits of the code\<close>

text \<open>
  A rollback of more than one batch commits its batches one by one. After the first one the store
  can still hold a swap that is being rolled back at or below the latest slot it records, and a
  restart at that point counts it.
\<close>

lemma interrupted_rollback_keeps_rolled_back_swap:
  "\<exists>db. rollbackActivityBatch open_badger 5 1 5000 two_swaps = (Inr False, db)
    \<and> swap_at 10 \<in> store_swaps db \<and> 5 \<le> st_Slot (swap_at 10) \<and> st_Slot (swap_at 10) \<le> store_latest db"
proof -
  let ?k10 = "poolActivityKey (swap_at 10)" and ?k20 = "poolActivityKey (swap_at 20)"
  have order: "?k10 < ?k20" by (rule key_order) simp
  have "iterate activityKeyPrefix two_swaps = [(?k10, SwapValue (swap_at 10)), (?k20, SwapValue (swap_at 20))]"
    using order by (simp add: iterate_def two_swaps_def sort_key_id_if_sorted less_imp_le)
  then have keys: "rolledBackActivityKeys 5 1 5000 \<lparr>t_store = two_swaps, t_writes = []\<rparr> = Inr ([?k20], 20, False)"
    by (simp add: rolledBackActivityKeys_def key_below_seek activitySlotFromKey_round_trip Let_def)
  have meta: "map_of two_swaps activityMetaKey = Some (MetaValue \<lparr>am_WindowSlots = 100, am_LatestSlot = 20\<rparr>)"
    by (simp add: two_swaps_def activity_key_not_others(1) [symmetric])
  have k10: "map_of two_swaps ?k10 = Some (SwapValue (swap_at 10))" by (simp add: two_swaps_def)
  let ?db = "AList.delete ?k20 (AList.update activityMetaKey (MetaValue \<lparr>am_WindowSlots = 100, am_LatestSlot = 19\<rparr>) two_swaps)"
  have "rollbackActivityBatch open_badger 5 1 5000 two_swaps = (Inr False, ?db)"
    by (simp add: rollbackActivityBatch_def db_Update_def rollback_txn_def keys rewindActivityMeta_def txn_Get_def meta
        txn_Set_def txn_Delete_def open_badger_def Let_def)
  moreover have "swap_at 10 \<in> store_swaps ?db"
    using order k10 by (simp add: store_swaps_def delete_conv' update_conv')
  moreover have "store_latest ?db = 19"
    by (simp add: store_latest_def delete_conv' update_conv' activity_key_not_others(1) [symmetric])
  ultimately show ?thesis by (intro exI [of _ ?db]) simp
qed

end
