(* ===== verification/Mempool.thy ===== *)
theory Mempool
  imports Pool
begin

text \<open>
  \<open>internal/oracle/mempool.go\<close>: pending transactions per pool, each as the signed change it makes to
  the confirmed reserves, in the order they were seen. Deltas are int64 values, here integers kept in
  range by the saturating operations of the code; \<open>wrap_int64\<close> is Go's wrapping addition. The clock
  (\<open>time.Now\<close>) is an argument. A pool's state is reached through the manager's map; an operation on
  it writes the entry back.
\<close>

section \<open>Data\<close>

record MempoolTxEffect =
  e_TxHash :: string
  e_PoolId :: string
  e_Protocol :: string
  e_Timestamp :: time
  e_DeltaX :: int
  e_DeltaY :: int
  e_ResultingPriceXY :: f64

record MempoolPoolState =
  m_poolId :: string
  m_protocol :: string
  m_confirmedState :: "PoolState option"
  m_pendingTxs :: "(string, MempoolTxEffect) gomap"
  m_txOrder :: "string list"

type_synonym MempoolStateManager = "(string, MempoolPoolState) gomap"

section \<open>Deltas\<close>

definition PriceImpact :: "MempoolTxEffect \<Rightarrow> f64 \<Rightarrow> f64" where
  "PriceImpact e confirmedPrice =
     (if f64_is_zero confirmedPrice then Fin 0
      else f64_mul (f64_div (f64_sub (e_ResultingPriceXY e) confirmedPrice) confirmedPrice) (Fin 100))"

definition poolReserves :: "PoolState option \<Rightarrow> u64 \<times> u64" where
  "poolReserves state =
     (case state of None \<Rightarrow> (0, 0) | Some s \<Rightarrow> (Amount (AssetX s), Amount (AssetY s)))"

definition reserveDelta :: "u64 \<Rightarrow> u64 \<Rightarrow> int" where
  "reserveDelta newAmount oldAmount =
     (if newAmount \<ge> oldAmount then
        let diff = newAmount - oldAmount in
        if int (unat diff) \<le> MaxInt64 then int (unat diff) else MaxInt64
      else
        let diff = oldAmount - newAmount in
        if int (unat diff) \<le> MaxInt64 then - int (unat diff) else MinInt64)"

definition addDeltaSaturating :: "int \<Rightarrow> int \<Rightarrow> int" where
  "addDeltaSaturating a b =
     (let sum = wrap_int64 (a + b) in
      if a > 0 \<and> b > 0 \<and> sum < 0 then MaxInt64
      else if a < 0 \<and> b < 0 \<and> sum \<ge> 0 then MinInt64
      else sum)"

section \<open>One pool\<close>

definition NewMempoolPoolState :: "string \<Rightarrow> string \<Rightarrow> PoolState option \<Rightarrow> MempoolPoolState" where
  "NewMempoolPoolState poolId protocol confirmed =
     \<lparr>m_poolId = poolId, m_protocol = protocol, m_confirmedState = confirmed, m_pendingTxs = [], m_txOrder = []\<rparr>"

definition AddPendingTx ::
    "time \<Rightarrow> string \<Rightarrow> PoolState option \<Rightarrow> MempoolPoolState \<Rightarrow> MempoolTxEffect option \<times> MempoolPoolState" where
  "AddPendingTx now txHash newState m =
     (case map_of (m_pendingTxs m) txHash of
        Some existing \<Rightarrow> (Some existing, m)
      | None \<Rightarrow>
          (case newState of
             None \<Rightarrow> (None, m)
           | Some s \<Rightarrow>
               let (oldX, oldY) = poolReserves (m_confirmedState m);
                   effect = \<lparr>e_TxHash = txHash, e_PoolId = m_poolId m, e_Protocol = m_protocol m,
                     e_Timestamp = now, e_DeltaX = reserveDelta (Amount (AssetX s)) oldX,
                     e_DeltaY = reserveDelta (Amount (AssetY s)) oldY, e_ResultingPriceXY = PriceXY s\<rparr>
               in (Some effect, m\<lparr>m_pendingTxs := AList.update txHash effect (m_pendingTxs m),
                                  m_txOrder := m_txOrder m @ [txHash]\<rparr>)))"

definition RemovePendingTx :: "string \<Rightarrow> MempoolPoolState \<Rightarrow> MempoolPoolState" where
  "RemovePendingTx txHash m =
     (if map_of (m_pendingTxs m) txHash = None then m
      else m\<lparr>m_pendingTxs := AList.delete txHash (m_pendingTxs m), m_txOrder := remove1 txHash (m_txOrder m)\<rparr>)"

definition PendingCount :: "MempoolPoolState \<Rightarrow> nat" where
  "PendingCount m = length (m_pendingTxs m)"

definition shift_effect :: "int \<Rightarrow> int \<Rightarrow> MempoolTxEffect \<Rightarrow> MempoolTxEffect" where
  "shift_effect shiftX shiftY e =
     e\<lparr>e_DeltaX := addDeltaSaturating (e_DeltaX e) shiftX, e_DeltaY := addDeltaSaturating (e_DeltaY e) shiftY\<rparr>"

definition SetConfirmedState :: "PoolState option \<Rightarrow> MempoolPoolState \<Rightarrow> MempoolPoolState" where
  "SetConfirmedState newConfirmed m =
     (let (oldX, oldY) = poolReserves (m_confirmedState m);
          (newX, newY) = poolReserves newConfirmed;
          m1 = m\<lparr>m_confirmedState := newConfirmed\<rparr>;
          m2 = (case newConfirmed of None \<Rightarrow> m1 | Some s \<Rightarrow> RemovePendingTx (TxHash s) m1);
          shiftX = reserveDelta oldX newX;
          shiftY = reserveDelta oldY newY
      in if shiftX = 0 \<and> shiftY = 0 then m2
         else m2\<lparr>m_pendingTxs := map (\<lambda>(h, e). (h, shift_effect shiftX shiftY e)) (m_pendingTxs m2)\<rparr>)"

definition GetPendingTxs :: "MempoolPoolState \<Rightarrow> MempoolTxEffect list" where
  "GetPendingTxs m = List.map_filter (map_of (m_pendingTxs m)) (m_txOrder m)"

section \<open>All pools\<close>

definition GetOrCreatePoolState ::
    "string \<Rightarrow> string \<Rightarrow> PoolState option \<Rightarrow> MempoolStateManager \<Rightarrow> MempoolPoolState \<times> MempoolStateManager" where
  "GetOrCreatePoolState poolId protocol confirmed mgr =
     (case map_of mgr poolId of
        Some ps \<Rightarrow> (ps, mgr)
      | None \<Rightarrow> let ps = NewMempoolPoolState poolId protocol confirmed in (ps, AList.update poolId ps mgr))"

definition mgr_AddPendingTx ::
    "time \<Rightarrow> string \<Rightarrow> string \<Rightarrow> string \<Rightarrow> PoolState option \<Rightarrow> MempoolStateManager
     \<Rightarrow> MempoolTxEffect option \<times> MempoolStateManager" where
  "mgr_AddPendingTx now poolId protocol txHash newState mgr =
     (if newState = None then
        (case map_of mgr poolId of
           None \<Rightarrow> (None, mgr)
         | Some ps \<Rightarrow> let (e, ps') = AddPendingTx now txHash None ps in (e, AList.update poolId ps' mgr))
      else
        let (ps, mgr') = GetOrCreatePoolState poolId protocol None mgr;
            (e, ps') = AddPendingTx now txHash newState ps
        in (e, AList.update poolId ps' mgr'))"

definition mgr_RemovePendingTx :: "string \<Rightarrow> MempoolStateManager \<Rightarrow> MempoolStateManager" where
  "mgr_RemovePendingTx txHash mgr = map (\<lambda>(p, ps). (p, RemovePendingTx txHash ps)) mgr"

definition TotalPendingTxs :: "MempoolStateManager \<Rightarrow> nat" where
  "TotalPendingTxs mgr = sum_list (map (\<lambda>(p, ps). PendingCount ps) mgr)"

definition GetPoolsAffectedByTx :: "string \<Rightarrow> MempoolStateManager \<Rightarrow> string list" where
  "GetPoolsAffectedByTx txHash mgr = map fst (filter (\<lambda>(p, ps). map_of (m_pendingTxs ps) txHash \<noteq> None) mgr)"

definition RemovePoolState :: "string \<Rightarrow> MempoolStateManager \<Rightarrow> MempoolStateManager" where
  "RemovePoolState poolId mgr = AList.delete poolId mgr"

definition UpdateConfirmedState :: "string \<Rightarrow> PoolState option \<Rightarrow> MempoolStateManager \<Rightarrow> MempoolStateManager" where
  "UpdateConfirmedState poolId state mgr =
     (case state of
        None \<Rightarrow> mgr
      | Some s \<Rightarrow>
          let (ps, mgr') = GetOrCreatePoolState poolId (Protocol s) state mgr
          in AList.update poolId (SetConfirmedState state ps) mgr')"

section \<open>Saturating arithmetic\<close>

lemma reserveDelta_sat: "reserveDelta a b = sat_int64 (int (unat a) - int (unat b))"
proof (cases "b \<le> a")
  case True
  then have "int (unat (a - b)) = int (unat a) - int (unat b)"
    by (simp add: unat_sub word_le_nat_alt of_nat_diff)
  moreover have "int (unat a) - int (unat b) \<ge> 0"
    using True by (simp only: word_le_nat_alt)
  ultimately show ?thesis
    unfolding reserveDelta_def Let_def using True by (auto simp: sat_int64_def MinInt64_def)
next
  case False
  then have le: "unat a < unat b" by (simp add: word_le_nat_alt)
  then have "int (unat (b - a)) = int (unat b) - int (unat a)"
    by (simp add: unat_sub word_le_nat_alt of_nat_diff)
  moreover have "int (unat b) - int (unat a) > 0" using le by linarith
  moreover have "int (unat b) < 2 ^ 64" by (rule int_unat_u64_bound)
  ultimately show ?thesis
    unfolding reserveDelta_def Let_def using False by (auto simp: sat_int64_def MinInt64_def MaxInt64_def)
qed

lemma wrap_int64_id: "int64_range x \<Longrightarrow> wrap_int64 x = x"
  by (simp add: wrap_int64_def int64_range_def MinInt64_def MaxInt64_def)

lemma addDelta_sat:
  assumes "int64_range a" and "int64_range b"
  shows "addDeltaSaturating a b = sat_int64 (a + b)"
proof -
  have r: "- (2 ^ 63) \<le> a" "a \<le> 2 ^ 63 - 1" "- (2 ^ 63) \<le> b" "b \<le> 2 ^ 63 - 1"
    using assms by (simp_all add: int64_range_def MinInt64_def MaxInt64_def)
  consider (over) "a + b > MaxInt64" | (under) "a + b < MinInt64" | (fits) "int64_range (a + b)"
    unfolding int64_range_def by linarith
  then show ?thesis
  proof cases
    case over
    have "(a + b + 2 ^ 63) mod 2 ^ 64 = a + b + 2 ^ 63 - 2 ^ 64"
      using over r by (subst mod_pos_geq) (simp_all add: MaxInt64_def)
    then have "wrap_int64 (a + b) < 0" using r by (simp add: wrap_int64_def)
    moreover have "a > 0" "b > 0" using over r by (simp_all add: MaxInt64_def)
    ultimately show ?thesis using over by (simp add: addDeltaSaturating_def sat_int64_def)
  next
    case under
    have "(a + b + 2 ^ 63) mod 2 ^ 64 = a + b + 2 ^ 63 + 2 ^ 64"
      using under r by (subst mod_add_self2 [symmetric], intro mod_pos_pos_trivial) (simp_all add: MinInt64_def)
    then have "wrap_int64 (a + b) \<ge> 0" using r by (simp add: wrap_int64_def)
    moreover have "a < 0" "b < 0" using under r by (simp_all add: MinInt64_def)
    ultimately show ?thesis using under by (simp add: addDeltaSaturating_def sat_int64_def MaxInt64_def MinInt64_def)
  next
    case fits
    then show ?thesis
      using r by (auto simp: addDeltaSaturating_def Let_def wrap_int64_id sat_int64_def int64_range_def)
  qed
qed

lemma sat_int64_range: "int64_range (sat_int64 x)"
  by (simp add: sat_int64_def int64_range_def MinInt64_def MaxInt64_def)

section \<open>The invariant\<close>

text \<open>
  The order lists exactly the pending hashes, once each; every effect is filed under its hash and
  its deltas are int64 values.
\<close>

definition mempool_ok :: "MempoolPoolState \<Rightarrow> bool" where
  "mempool_ok m =
     (gomap_ok (m_pendingTxs m) \<and> distinct (m_txOrder m)
      \<and> set (m_txOrder m) = fst ` set (m_pendingTxs m)
      \<and> list_all (\<lambda>(h, e). e_TxHash e = h \<and> int64_range (e_DeltaX e) \<and> int64_range (e_DeltaY e)) (m_pendingTxs m))"

definition manager_ok :: "MempoolStateManager \<Rightarrow> bool" where
  "manager_ok mgr = (gomap_ok mgr \<and> list_all (\<lambda>(p, ps). mempool_ok ps) mgr)"

lemma NewMempoolPoolState_ok: "mempool_ok (NewMempoolPoolState p q c)"
  by (simp add: mempool_ok_def NewMempoolPoolState_def)

lemma reserveDelta_range: "int64_range (reserveDelta a b)"
  by (simp add: reserveDelta_sat sat_int64_range)

lemma AddPendingTx_ok [inv_intros]:
  assumes "mempool_ok m"
  shows "mempool_ok (snd (AddPendingTx now h s m))"
proof (cases "map_of (m_pendingTxs m) h")
  case None
  then have "h \<notin> fst ` set (m_pendingTxs m)" by (simp add: map_of_eq_None_iff)
  with None assms show ?thesis
    by (auto simp: AddPendingTx_def Let_def mempool_ok_def dom_update list_all_alist_update reserveDelta_range
        split: option.splits prod.splits)
qed (simp add: AddPendingTx_def assms)

lemma RemovePendingTx_ok [inv_intros]:
  assumes "mempool_ok m"
  shows "mempool_ok (RemovePendingTx h m)"
  using assms
  by (auto simp: RemovePendingTx_def mempool_ok_def list_all_iff AList.delete_eq
      set_remove1_eq split: if_splits)

lemma shift_effect_ok:
  "int64_range (e_DeltaX e) \<Longrightarrow> int64_range (e_DeltaY e) \<Longrightarrow> int64_range x \<Longrightarrow> int64_range y \<Longrightarrow>
   e_TxHash (shift_effect x y e) = e_TxHash e \<and> int64_range (e_DeltaX (shift_effect x y e))
   \<and> int64_range (e_DeltaY (shift_effect x y e))"
  by (simp add: shift_effect_def addDelta_sat sat_int64_range)

lemma mempool_ok_confirmed: "mempool_ok m \<Longrightarrow> mempool_ok (m\<lparr>m_confirmedState := s\<rparr>)"
  by (simp add: mempool_ok_def)

lemma shift_all_ok:
  assumes "mempool_ok m" and "int64_range x" and "int64_range y"
  shows "mempool_ok (m\<lparr>m_pendingTxs := map (\<lambda>(h, e). (h, shift_effect x y e)) (m_pendingTxs m)\<rparr>)"
proof -
  have "fst ` set (map (\<lambda>(h, e). (h, shift_effect x y e)) (m_pendingTxs m)) = fst ` set (m_pendingTxs m)"
    by (force simp: image_iff)
  moreover have "gomap_ok (map (\<lambda>(h, e). (h, shift_effect x y e)) (m_pendingTxs m))"
    using assms(1) gomap_ok_map_vals [of "m_pendingTxs m" "\<lambda>_. shift_effect x y"] by (simp add: mempool_ok_def)
  ultimately show ?thesis
    using assms shift_effect_ok [where x = x and y = y] by (fastforce simp: mempool_ok_def list_all_iff)
qed

lemma SetConfirmedState_ok [inv_intros]:
  assumes "mempool_ok m"
  shows "mempool_ok (SetConfirmedState s m)"
proof -
  have "mempool_ok (case s of None \<Rightarrow> m\<lparr>m_confirmedState := s\<rparr>
      | Some c \<Rightarrow> RemovePendingTx (TxHash c) (m\<lparr>m_confirmedState := s\<rparr>))"
    using assms by (auto intro: mempool_ok_confirmed RemovePendingTx_ok split: option.splits)
  then show ?thesis
    by (auto simp: SetConfirmedState_def Let_def reserveDelta_range intro: shift_all_ok split: prod.splits)
qed

lemma manager_update: "manager_ok mgr \<Longrightarrow> mempool_ok ps \<Longrightarrow> manager_ok (AList.update p ps mgr)"
  by (simp add: manager_ok_def list_all_alist_update)

lemma manager_lookup: "manager_ok mgr \<Longrightarrow> map_of mgr p = Some ps \<Longrightarrow> mempool_ok ps"
  by (auto simp: manager_ok_def list_all_iff dest: map_of_SomeD)

lemma GetOrCreate_ok:
  assumes "manager_ok mgr" and "GetOrCreatePoolState p q c mgr = (ps, mgr')"
  shows "mempool_ok ps" and "manager_ok mgr'"
  using assms
  by (auto simp: GetOrCreatePoolState_def Let_def intro: manager_update NewMempoolPoolState_ok manager_lookup
      split: option.splits)

lemma AddPendingTx_ok': "mempool_ok m \<Longrightarrow> AddPendingTx now h s m = (e, m') \<Longrightarrow> mempool_ok m'"
  using AddPendingTx_ok [of m now h s] by simp

lemma mgr_AddPendingTx_ok [inv_intros]:
  assumes "manager_ok mgr"
  shows "manager_ok (snd (mgr_AddPendingTx now p q h s mgr))"
proof (cases s)
  case None
  then show ?thesis
    using assms
    by (auto simp: mgr_AddPendingTx_def Let_def intro: manager_update AddPendingTx_ok' manager_lookup
        split: option.splits prod.splits)
next
  case (Some c)
  then show ?thesis
    using assms
    by (auto simp: mgr_AddPendingTx_def Let_def intro: manager_update AddPendingTx_ok' GetOrCreate_ok
        split: prod.splits)
qed

lemma mgr_RemovePendingTx_ok [inv_intros]: "manager_ok mgr \<Longrightarrow> manager_ok (mgr_RemovePendingTx h mgr)"
  using gomap_ok_map_vals [of mgr "\<lambda>_. RemovePendingTx h"]
  by (auto simp: manager_ok_def mgr_RemovePendingTx_def list_all_iff intro: RemovePendingTx_ok)

lemma RemovePoolState_ok [inv_intros]: "manager_ok mgr \<Longrightarrow> manager_ok (RemovePoolState p mgr)"
  by (auto simp: manager_ok_def RemovePoolState_def list_all_iff AList.delete_eq)

lemma UpdateConfirmedState_ok [inv_intros]:
  "manager_ok mgr \<Longrightarrow> manager_ok (UpdateConfirmedState p s mgr)"
  by (auto simp: UpdateConfirmedState_def Let_def intro: manager_update SetConfirmedState_ok GetOrCreate_ok
      split: option.splits prod.splits)

section \<open>Resulting reserves\<close>

text \<open>The reserves a pending transaction leads to: the confirmed ones plus its deltas.\<close>

definition resulting :: "PoolState option \<Rightarrow> MempoolTxEffect \<Rightarrow> int \<times> int" where
  "resulting c e = (int (unat (fst (poolReserves c))) + e_DeltaX e, int (unat (snd (poolReserves c))) + e_DeltaY e)"

definition small :: "u64 \<Rightarrow> bool" where
  "small a = (int (unat a) \<le> MaxInt64)"

definition small_reserves :: "PoolState option \<Rightarrow> bool" where
  "small_reserves c = (small (fst (poolReserves c)) \<and> small (snd (poolReserves c)))"

definition small_result :: "int \<times> int \<Rightarrow> bool" where
  "small_result r = (0 \<le> fst r \<and> fst r \<le> MaxInt64 \<and> 0 \<le> snd r \<and> snd r \<le> MaxInt64)"

lemma sat_int64_id: "MinInt64 \<le> x \<Longrightarrow> x \<le> MaxInt64 \<Longrightarrow> sat_int64 x = x"
  by (simp add: sat_int64_def)

lemma reserveDelta_small:
  assumes "small a" and "small b"
  shows "reserveDelta a b = int (unat a) - int (unat b)"
  unfolding reserveDelta_sat
proof (rule sat_int64_id)
  have "0 \<le> int (unat a)" "0 \<le> int (unat b)" by (rule of_nat_0_le_iff)+
  with assms show "MinInt64 \<le> int (unat a) - int (unat b)" "int (unat a) - int (unat b) \<le> MaxInt64"
    unfolding small_def MinInt64_def MaxInt64_def by linarith+
qed

lemma shift_small:
  assumes "small a" and "small b" and "int64_range d" and "0 \<le> int (unat a) + d" and "int (unat a) + d \<le> MaxInt64"
  shows "int (unat b) + addDeltaSaturating d (reserveDelta a b) = int (unat a) + d"
proof -
  have "0 \<le> int (unat b)" by (rule of_nat_0_le_iff)
  with assms have "MinInt64 \<le> d + (int (unat a) - int (unat b))" "d + (int (unat a) - int (unat b)) \<le> MaxInt64"
    unfolding small_def MinInt64_def MaxInt64_def by linarith+
  then have "sat_int64 (d + (int (unat a) - int (unat b))) = d + (int (unat a) - int (unat b))"
    by (rule sat_int64_id)
  then show ?thesis
    using addDelta_sat [OF assms(3) reserveDelta_range [of a b]]
    by (simp only: reserveDelta_small [OF assms(1,2)])
qed

lemma shift_effect_resulting:
  assumes "small_reserves c" and "small_reserves c'" and "int64_range (e_DeltaX e)" and "int64_range (e_DeltaY e)"
    and "small_result (resulting c e)"
  shows "resulting c' (shift_effect (reserveDelta (fst (poolReserves c)) (fst (poolReserves c')))
      (reserveDelta (snd (poolReserves c)) (snd (poolReserves c'))) e) = resulting c e"
  using assms shift_small [of "fst (poolReserves c)" "fst (poolReserves c')" "e_DeltaX e"]
    shift_small [of "snd (poolReserves c)" "snd (poolReserves c')" "e_DeltaY e"]
  by (simp add: resulting_def shift_effect_def small_reserves_def small_result_def)

lemma shift_zero:
  assumes "small_reserves c" and "small_reserves c'"
    and "reserveDelta (fst (poolReserves c)) (fst (poolReserves c')) = 0"
    and "reserveDelta (snd (poolReserves c)) (snd (poolReserves c')) = 0"
  shows "resulting c' e = resulting c e"
proof -
  have "int (unat (fst (poolReserves c))) = int (unat (fst (poolReserves c')))"
    "int (unat (snd (poolReserves c))) = int (unat (snd (poolReserves c')))"
    using assms reserveDelta_small unfolding small_reserves_def by (metis diff_0_eq_0 eq_iff_diff_eq_0)+
  then show ?thesis by (simp only: resulting_def)
qed

lemma RemovePendingTx_lookup:
  "map_of (m_pendingTxs (RemovePendingTx h m)) k = (if k = h then None else map_of (m_pendingTxs m) k)"
  by (auto simp: RemovePendingTx_def AList.delete_conv')

lemma SetConfirmedState_lookup:
  "map_of (m_pendingTxs (SetConfirmedState (Some s) m)) k =
     (if k = TxHash s then None
      else map_option
        (if reserveDelta (fst (poolReserves (m_confirmedState m))) (fst (poolReserves (Some s))) = 0
            \<and> reserveDelta (snd (poolReserves (m_confirmedState m))) (snd (poolReserves (Some s))) = 0
         then id
         else shift_effect (reserveDelta (fst (poolReserves (m_confirmedState m))) (fst (poolReserves (Some s))))
                (reserveDelta (snd (poolReserves (m_confirmedState m))) (snd (poolReserves (Some s)))))
        (map_of (m_pendingTxs m) k))"
  by (auto simp: SetConfirmedState_def Let_def RemovePendingTx_lookup option.map_id
      map_of_map_vals [of "\<lambda>_. shift_effect _ _"] split: prod.splits)

lemma map_filter_inverse:
  "(\<And>h. h \<in> set xs \<Longrightarrow> \<exists>e. f h = Some e \<and> g e = h) \<Longrightarrow> map g (List.map_filter f xs) = xs"
proof (induction xs)
  case (Cons x xs)
  then show ?case by (force simp: List.map_filter_simps split: option.splits)
qed (simp add: List.map_filter_simps)

lemma GetPendingTxs_map:
  assumes "mempool_ok m"
  shows "map e_TxHash (GetPendingTxs m) = m_txOrder m"
proof -
  have "\<exists>e. map_of (m_pendingTxs m) h = Some e \<and> e_TxHash e = h" if "h \<in> set (m_txOrder m)" for h
  proof -
    from that assms obtain e where "(h, e) \<in> set (m_pendingTxs m)" by (auto simp: mempool_ok_def)
    with assms show ?thesis by (auto simp: mempool_ok_def list_all_iff gomap_ok_mem)
  qed
  then show ?thesis
    unfolding GetPendingTxs_def by (intro map_filter_inverse) blast
qed

section \<open>Properties\<close>

text \<open>A delta between two reserves is their exact difference saturated to the int64 range, and adding
  two deltas is their exact sum saturated to that range: no sign ever flips.\<close>

lemma deltas_saturate:
  "reserveDelta a b = sat_int64 (int (unat a) - int (unat b))
   \<and> (int64_range x \<and> int64_range y \<longrightarrow> addDeltaSaturating x y = sat_int64 (x + y))"
  by (simp add: reserveDelta_sat addDelta_sat)

text \<open>A new confirmed state drops the pending transaction it confirms and rebases every other one, so
  that the reserves each leads to stay what they were, as long as reserves are below \<open>2 ^ 63\<close>.\<close>

lemma rebasing_keeps_resulting_reserves:
  assumes "mempool_ok m" and "map_of (m_pendingTxs m) h = Some e" and "h \<noteq> TxHash s"
    and "small_reserves (m_confirmedState m)" and "small_reserves (Some s)"
    and "small_result (resulting (m_confirmedState m) e)"
  shows "map_of (m_pendingTxs (SetConfirmedState (Some s) m)) (TxHash s) = None
    \<and> (\<exists>e'. map_of (m_pendingTxs (SetConfirmedState (Some s) m)) h = Some e'
         \<and> resulting (Some s) e' = resulting (m_confirmedState m) e)"
proof -
  have "(h, e) \<in> set (m_pendingTxs m)" using assms(2) by (rule map_of_SomeD)
  then have "int64_range (e_DeltaX e)" "int64_range (e_DeltaY e)"
    using assms(1) by (auto simp: mempool_ok_def list_all_iff)
  with shift_effect_resulting [OF assms(4,5) _ _ assms(6)] shift_zero [OF assms(4,5), of e] show ?thesis
    using assms(2,3) by (auto simp: SetConfirmedState_lookup)
qed

text \<open>Every operation of the pool state and of the manager keeps their invariant: the order lists
  exactly the pending hashes once each, every effect is filed under its hash, and deltas stay in
  the int64 range.\<close>

lemma mempool_invariant:
  assumes "manager_ok mgr"
  shows "manager_ok (snd (mgr_AddPendingTx now p q h s mgr)) \<and> manager_ok (mgr_RemovePendingTx h mgr)
    \<and> manager_ok (RemovePoolState p mgr) \<and> manager_ok (UpdateConfirmedState p s mgr)"
  using assms by (auto intro: inv_intros)

text \<open>The pending effects are reported in the order of arrival, each pending transaction exactly
  once.\<close>

lemma pending_in_arrival_order:
  assumes "mempool_ok m"
  shows "map e_TxHash (GetPendingTxs m) = m_txOrder m \<and> distinct (m_txOrder m)
    \<and> length (GetPendingTxs m) = PendingCount m"
proof -
  have order: "map e_TxHash (GetPendingTxs m) = m_txOrder m" by (rule GetPendingTxs_map [OF assms])
  have ok: "distinct (m_txOrder m)" "distinct (gokeys (m_pendingTxs m))"
    "set (m_txOrder m) = set (gokeys (m_pendingTxs m))"
    using assms by (simp_all add: mempool_ok_def gomap_ok_def)
  then have "length (m_txOrder m) = length (gokeys (m_pendingTxs m))"
    using distinct_card [of "m_txOrder m"] distinct_card [of "gokeys (m_pendingTxs m)"] by simp
  moreover have "length (GetPendingTxs m) = length (m_txOrder m)"
    using order by (metis length_map)
  ultimately show ?thesis
    using order ok(1) by (simp add: PendingCount_def)
qed

section \<open>Witnesses\<close>

definition sample_mempool :: MempoolPoolState where
  "sample_mempool =
     \<lparr>m_poolId = ''p1'', m_protocol = ''cswap'', m_confirmedState = Some ada_usdm_pool,
      m_pendingTxs = [(''u'', \<lparr>e_TxHash = ''u'', e_PoolId = ''p1'', e_Protocol = ''cswap'', e_Timestamp = 1,
                               e_DeltaX = 1000, e_DeltaY = - 498, e_ResultingPriceXY = Fin 0\<rparr>)],
      m_txOrder = [''u'']\<rparr>"

lemma sample_mempool_ok: "mempool_ok sample_mempool" "manager_ok [(''p1'', sample_mempool)]"
  by (simp_all add: mempool_ok_def manager_ok_def gomap_ok_def sample_mempool_def int64_range_def MinInt64_def MaxInt64_def)

end
