(* ===== verification/Oracle.thy ===== *)
theory Oracle
  imports Oracle_Storage Mempool
begin

text \<open>
  The oracle service (\<open>internal/oracle/oracle.go\<close>): it follows the chain, keeps the latest state of
  every pool and position in memory and in the store, feeds the activity tracker and the mempool
  overlay, and pushes price updates to its subscribers.

  The state is a record with the source's fields; the store is part of it. The parser of the
  profile, the configured network, the profile type and the database are the environment. Each
  event is handled in one piece: the indexer delivers events one at a time, and the locks make what
  other goroutines see of it atomic. Within one event the clock is read once. A subscriber's channel
  is its buffer of at most 100 updates; receiving takes the first one. A nil tracker is \<open>None\<close>.
  Events come from the adder library; the parts the oracle reads are in the event types below.
\<close>

section \<open>Events and environment\<close>

record tx_input =
  in_Id :: string
  in_Index :: u32

record tx_output =
  out_Address :: string
  out_Datum :: "bytes option"
  out_Cbor :: bytes

record ledger_utxo =
  utxo_Id :: tx_input
  utxo_Output :: tx_output

record ledger_tx =
  tx_Consumed :: "tx_input list"
  tx_Produced :: "ledger_utxo list"

record transaction_event =
  te_BlockHash :: string
  te_Inputs :: "tx_input list"
  te_Outputs :: "tx_output list"
  te_Transaction :: "ledger_tx option"

record transaction_context =
  ctx_TransactionHash :: string
  ctx_SlotNumber :: u64

datatype chain_event =
    TransactionEvt "transaction_context option" transaction_event
  | RollbackEvt u64
  | OtherEvt

record cdp_parser =
  cp_Protocol :: string
  cp_ParseCDPDatum :: "bytes \<Rightarrow> string \<Rightarrow> u32 \<Rightarrow> u64 \<Rightarrow> time \<Rightarrow> unit + CDPState option"
  cp_CDPIdForOutput :: "string \<Rightarrow> u32 \<Rightarrow> string"

type_synonym pool_datum_parser = "bytes \<Rightarrow> bytes \<Rightarrow> string \<Rightarrow> u32 \<Rightarrow> u64 \<Rightarrow> time \<Rightarrow> unit + PoolState option"

record oracle_env =
  oe_badger :: badger_lib
  oe_ParsePoolDatum :: pool_datum_parser
  oe_cdpParser :: "cdp_parser option"
  oe_synthetics :: bool
  oe_network :: string

section \<open>State\<close>

type_synonym subscriber = "nat \<times> PriceUpdate list"

record Oracle =
  o_pools :: "(string, PoolState) gomap"
  o_cdps :: "(string, CDPState) gomap"
  o_poolAddresses :: "string list"
  o_storage :: store
  o_subscribers :: "subscriber list"
  o_nextChan :: nat
  o_stopped :: bool
  o_dropCount :: u64
  o_mempoolMgr :: MempoolStateManager
  o_activity :: "ActivityTracker option"

datatype oracle_error =
    RecordActivityFailed string activity_error
  | PersistPoolFailed string storage_error
  | RollbackNotPersisted "storage_error list"
  | LoadFailed storage_error
  | RestoreFailed activity_error

definition subscriberBufferSize :: nat where
  "subscriberBufferSize = 100"

definition defaultPoolActivityWindowSlots :: u64 where
  "defaultPoolActivityWindowSlots = 86400"

text \<open>\<open>New\<close>, with the addresses of the profile (\<open>addProfileAddresses\<close>); the store is opened by \<open>Start\<close>.\<close>

definition New :: "string list \<Rightarrow> store \<Rightarrow> Oracle" where
  "New addresses db = \<lparr>o_pools = [], o_cdps = [], o_poolAddresses = addresses, o_storage = db, o_subscribers = [],
     o_nextChan = 0, o_stopped = False, o_dropCount = 0, o_mempoolMgr = [],
     o_activity = (case NewActivityTracker defaultPoolActivityWindowSlots of Inl _ \<Rightarrow> None | Inr t \<Rightarrow> Some t)\<rparr>"

section \<open>Subscribers\<close>

text \<open>The number of the channel; on a stopped oracle the channel is closed and not registered.\<close>

definition Subscribe :: "Oracle \<Rightarrow> nat \<times> Oracle" where
  "Subscribe o1 =
     (let ch = o_nextChan o1; o2 = o1\<lparr>o_nextChan := ch + 1\<rparr>
      in if o_stopped o1 then (ch, o2) else (ch, o2\<lparr>o_subscribers := o_subscribers o1 @ [(ch, [])]\<rparr>))"

fun remove_first :: "('a \<Rightarrow> bool) \<Rightarrow> 'a list \<Rightarrow> 'a list" where
  "remove_first p [] = []"
| "remove_first p (x # xs) = (if p x then xs else x # remove_first p xs)"

definition Unsubscribe :: "nat \<Rightarrow> Oracle \<Rightarrow> Oracle" where
  "Unsubscribe ch o1 = o1\<lparr>o_subscribers := remove_first (\<lambda>s. fst s = ch) (o_subscribers o1)\<rparr>"

definition oracle_Stop :: "Oracle \<Rightarrow> Oracle" where
  "oracle_Stop o1 = (if o_stopped o1 then o1 else o1\<lparr>o_stopped := True, o_subscribers := []\<rparr>)"

text \<open>Sending to a full channel first drops the oldest update.\<close>

definition send_update :: "PriceUpdate \<Rightarrow> PriceUpdate list \<Rightarrow> PriceUpdate list \<times> nat" where
  "send_update u buf =
     (if length buf < subscriberBufferSize then (buf @ [u], 0)
      else (tl buf @ [u], 1))"

fun notify_all :: "PriceUpdate \<Rightarrow> subscriber list \<Rightarrow> u64 \<Rightarrow> subscriber list \<times> u64" where
  "notify_all u [] drops = ([], drops)"
| "notify_all u ((ch, buf) # subs) drops =
     (let (buf', d) = send_update u buf;
          (subs', drops') = notify_all u subs (drops + word_of_nat d)
      in ((ch, buf') # subs', drops'))"

definition notifySubscribers :: "PoolState \<Rightarrow> f64 \<Rightarrow> Oracle \<Rightarrow> Oracle" where
  "notifySubscribers state prevPrice o1 = (case NewPriceUpdate (Some state) prevPrice of
     None \<Rightarrow> o1
   | Some u \<Rightarrow> (let (subs, drops) = notify_all u (o_subscribers o1) (o_dropCount o1)
                in o1\<lparr>o_subscribers := subs, o_dropCount := drops\<rparr>))"

section \<open>Transactions\<close>

definition transactionInputs :: "transaction_event \<Rightarrow> tx_input list" where
  "transactionInputs evt =
     (if length (te_Inputs evt) > 0 then te_Inputs evt
      else case te_Transaction evt of None \<Rightarrow> [] | Some tx \<Rightarrow> tx_Consumed tx)"

definition producedUTXOs :: "transaction_event \<Rightarrow> string \<Rightarrow> ledger_utxo list" where
  "producedUTXOs evt txHash = (case te_Transaction evt of
     Some tx \<Rightarrow> tx_Produced tx
   | None \<Rightarrow> map (\<lambda>(i, out). \<lparr>utxo_Id = \<lparr>in_Id = txHash, in_Index = word_of_nat i\<rparr>, utxo_Output = out\<rparr>)
       (zip [0..<length (te_Outputs evt)] (te_Outputs evt)))"

definition isPoolAddress :: "string \<Rightarrow> Oracle \<Rightarrow> bool" where
  "isPoolAddress addr o1 = (addr \<in> set (o_poolAddresses o1))"

text \<open>A failed delete of a spent position is only logged.\<close>

fun deleteSpentCDPStates :: "oracle_env \<Rightarrow> cdp_parser \<Rightarrow> tx_input list \<Rightarrow> Oracle \<Rightarrow> Oracle" where
  "deleteSpentCDPStates env cp [] o1 = o1"
| "deleteSpentCDPStates env cp (input # inputs) o1 =
     (let cdpId = cp_CDPIdForOutput cp (in_Id input) (in_Index input)
      in case map_of (o_cdps o1) cdpId of
           None \<Rightarrow> deleteSpentCDPStates env cp inputs o1
         | Some state \<Rightarrow>
             (let network = (if cdp_Network state = [] then oe_network env else cdp_Network state);
                  protocol = (if cdp_Protocol state = [] then cp_Protocol cp else cdp_Protocol state);
                  (r, db) = DeleteCDPState (oe_badger env) network protocol cdpId (o_storage o1)
              in deleteSpentCDPStates env cp inputs
                   (o1\<lparr>o_cdps := AList.delete cdpId (o_cdps o1), o_storage := db\<rparr>)))"

text \<open>A failed save of a position is only logged.\<close>

definition handleProducedCDPOutput ::
  "oracle_env \<Rightarrow> cdp_parser \<Rightarrow> time \<Rightarrow> string \<Rightarrow> transaction_context \<Rightarrow> ledger_utxo \<Rightarrow> Oracle \<Rightarrow> Oracle" where
  "handleProducedCDPOutput env cp now blockHash ctx utxo o1 = (case out_Datum (utxo_Output utxo) of
     None \<Rightarrow> o1
   | Some datum \<Rightarrow>
       (case cp_ParseCDPDatum cp datum (ctx_TransactionHash ctx) (in_Index (utxo_Id utxo)) (ctx_SlotNumber ctx) now of
          Inl _ \<Rightarrow> o1
        | Inr None \<Rightarrow> o1
        | Inr (Some parsed) \<Rightarrow>
            (let state = parsed\<lparr>cdp_Network := oe_network env, cdp_Protocol := cp_Protocol cp,
                   cdp_BlockHash := blockHash, cdp_UpdatedAt := now\<rparr>;
                 (r, db) = SaveCDPState (oe_badger env) state (o_storage o1)
             in o1\<lparr>o_cdps := AList.update (CDPId state) state (o_cdps o1), o_storage := db\<rparr>)))"

text \<open>The observation of a new state by the tracker, when there is one: the swap to persist and the tracker.\<close>

definition observe_pool ::
  "PoolState \<Rightarrow> Oracle \<Rightarrow> activity_error + SwapTransition option \<times> ActivityTracker option" where
  "observe_pool state o1 = (case o_activity o1 of
     None \<Rightarrow> Inr (None, None)
   | Some t \<Rightarrow> (case ObserveTransition (map_of (o_pools o1) (PoolId state)) (Some state) t of
       (Inl e, t') \<Rightarrow> Inl e
     | (Inr (swap, recorded), t') \<Rightarrow> Inr (if recorded then swap else None, Some t')))"

definition persist_pool ::
  "oracle_env \<Rightarrow> PoolState \<Rightarrow> SwapTransition option \<Rightarrow> ActivityTracker option \<Rightarrow> store \<Rightarrow> (storage_error + unit) \<times> store" where
  "persist_pool env state transition activity db = (case activity of
     None \<Rightarrow> SavePoolState (oe_badger env) state db
   | Some t \<Rightarrow> SavePoolStateAndActivity (oe_badger env) (Some state) transition (windowSlots t) db)"

text \<open>The part of the loop body of \<open>handleTransaction\<close> that follows a parsed pool state.\<close>

definition record_pool_state :: "oracle_env \<Rightarrow> PoolState \<Rightarrow> Oracle \<Rightarrow> oracle_error option \<times> Oracle" where
  "record_pool_state env state o1 =
     (let prevPrice = (case map_of (o_pools o1) (PoolId state) of None \<Rightarrow> Fin 0 | Some prev \<Rightarrow> PriceXY prev)
      in case observe_pool state o1 of
           Inl e \<Rightarrow> (Some (RecordActivityFailed (PoolId state) e), o1)
         | Inr (transition, activity) \<Rightarrow>
             (case persist_pool env state transition activity (o_storage o1) of
                (persisted, db) \<Rightarrow>
                  (let o2 = o1\<lparr>o_activity := activity, o_pools := AList.update (PoolId state) state (o_pools o1),
                               o_storage := db\<rparr>
                   in case persisted of
                        Inl e \<Rightarrow> (Some (PersistPoolFailed (PoolId state) e), o2)
                      | Inr _ \<Rightarrow> (None, notifySubscribers state prevPrice
                          (o2\<lparr>o_mempoolMgr := UpdateConfirmedState (PoolId state) (Some state) (o_mempoolMgr o2)\<rparr>)))))"

text \<open>The loop body: \<open>None\<close> as the error lets the loop go on.\<close>

definition handle_utxo ::
  "oracle_env \<Rightarrow> time \<Rightarrow> string \<Rightarrow> transaction_context \<Rightarrow> ledger_utxo \<Rightarrow> Oracle \<Rightarrow> oracle_error option \<times> Oracle" where
  "handle_utxo env now blockHash ctx utxo o1 =
     (if \<not> isPoolAddress (out_Address (utxo_Output utxo)) o1 then (None, o1)
      else case out_Datum (utxo_Output utxo) of
        None \<Rightarrow> (None, o1)
      | Some datum \<Rightarrow>
          (case (if oe_synthetics env then oe_cdpParser env else None) of
             Some cp \<Rightarrow> (None, handleProducedCDPOutput env cp now blockHash ctx utxo o1)
           | None \<Rightarrow>
               (case oe_ParsePoolDatum env datum (out_Cbor (utxo_Output utxo)) (ctx_TransactionHash ctx)
                       (in_Index (utxo_Id utxo)) (ctx_SlotNumber ctx) now of
                  Inl _ \<Rightarrow> (None, o1)
                | Inr None \<Rightarrow> (None, o1)
                | Inr (Some parsed) \<Rightarrow> record_pool_state env
                    (parsed\<lparr>Network := oe_network env, BlockHash := blockHash, UpdatedAt := now\<rparr>) o1)))"

fun handle_utxos ::
  "oracle_env \<Rightarrow> time \<Rightarrow> string \<Rightarrow> transaction_context \<Rightarrow> ledger_utxo list \<Rightarrow> Oracle \<Rightarrow> oracle_error option \<times> Oracle" where
  "handle_utxos env now blockHash ctx [] o1 = (None, o1)"
| "handle_utxos env now blockHash ctx (utxo # utxos) o1 = (case handle_utxo env now blockHash ctx utxo o1 of
     (Some e, o2) \<Rightarrow> (Some e, o2)
   | (None, o2) \<Rightarrow> handle_utxos env now blockHash ctx utxos o2)"

definition handleTransaction ::
  "oracle_env \<Rightarrow> time \<Rightarrow> transaction_context option \<Rightarrow> transaction_event \<Rightarrow> Oracle \<Rightarrow> oracle_error option \<times> Oracle" where
  "handleTransaction env now context evt o1 = (case context of
     None \<Rightarrow> (None, o1)
   | Some ctx \<Rightarrow>
       (let o2 = (case (if oe_synthetics env then oe_cdpParser env else None) of
              Some cp \<Rightarrow> deleteSpentCDPStates env cp (transactionInputs evt) o1
            | None \<Rightarrow> o1)
        in handle_utxos env now (te_BlockHash evt) ctx (producedUTXOs evt (ctx_TransactionHash ctx)) o2))"

section \<open>Rollback\<close>

definition firstRolledBackSlot :: "u64 \<Rightarrow> u64" where
  "firstRolledBackSlot slot = (if slot = MaxUint64 then slot else slot + 1)"

fun delete_pool_states :: "oracle_env \<Rightarrow> PoolState list \<Rightarrow> store \<Rightarrow> storage_error list \<times> store" where
  "delete_pool_states env [] db = ([], db)"
| "delete_pool_states env (state # states) db =
     (let (r, db1) = DeletePoolState (oe_badger env) state db;
          (errs, db2) = delete_pool_states env states db1
      in (case r of Inl e \<Rightarrow> e # errs | Inr _ \<Rightarrow> errs, db2))"

fun delete_cdp_states :: "oracle_env \<Rightarrow> CDPState list \<Rightarrow> store \<Rightarrow> storage_error list \<times> store" where
  "delete_cdp_states env [] db = ([], db)"
| "delete_cdp_states env (state # states) db =
     (let (r, db1) = DeleteCDPState (oe_badger env) (cdp_Network state) (cdp_Protocol state) (CDPId state) db;
          (errs, db2) = delete_cdp_states env states db1
      in (case r of Inl e \<Rightarrow> e # errs | Inr _ \<Rightarrow> errs, db2))"

definition handleRollback :: "oracle_env \<Rightarrow> u64 \<Rightarrow> Oracle \<Rightarrow> oracle_error option \<times> Oracle" where
  "handleRollback env slotNumber o1 =
     (let firstInvalidSlot = firstRolledBackSlot slotNumber;
          toDelete = filter (\<lambda>s. Slot s \<ge> firstInvalidSlot) (map snd (o_pools o1));
          pools = fold (\<lambda>s m. AList.delete (PoolId s) m) toDelete (o_pools o1);
          cdpsToDelete = filter (\<lambda>s. cdp_Slot s \<ge> firstInvalidSlot) (map snd (o_cdps o1));
          cdps = fold (\<lambda>s m. AList.delete (CDPId s) m) cdpsToDelete (o_cdps o1);
          (r, db1) = RollbackActivity (oe_badger env) firstInvalidSlot (o_storage o1);
          errs1 = (case r of Inl e \<Rightarrow> [e] | Inr _ \<Rightarrow> []);
          activity = (case r of Inl _ \<Rightarrow> o_activity o1 | Inr _ \<Rightarrow> map_option (Rollback firstInvalidSlot) (o_activity o1));
          mempool = fold (\<lambda>s m. RemovePoolState (PoolId s) m) toDelete (o_mempoolMgr o1);
          (errs2, db2) = delete_pool_states env toDelete db1;
          (errs3, db3) = delete_cdp_states env cdpsToDelete db2;
          errs = errs1 @ errs2 @ errs3
      in (if length errs > 0 then Some (RollbackNotPersisted errs) else None,
          o1\<lparr>o_pools := pools, o_cdps := cdps, o_storage := db3, o_activity := activity, o_mempoolMgr := mempool\<rparr>))"

definition HandleChainsyncEvent :: "oracle_env \<Rightarrow> time \<Rightarrow> chain_event \<Rightarrow> Oracle \<Rightarrow> oracle_error option \<times> Oracle" where
  "HandleChainsyncEvent env now evt o1 = (case evt of
     TransactionEvt context payload \<Rightarrow> handleTransaction env now context payload o1
   | RollbackEvt slotNumber \<Rightarrow> handleRollback env slotNumber o1
   | OtherEvt \<Rightarrow> (None, o1))"

section \<open>Restart and queries\<close>

definition loadPersistedStates :: "Oracle \<Rightarrow> oracle_error option \<times> Oracle" where
  "loadPersistedStates o1 =
     (let states = LoadAllPoolStates (o_storage o1);
          cdpStates = LoadAllCDPStates (o_storage o1)
      in case LoadActivityState (o_storage o1) of
           Inl e \<Rightarrow> (Some (LoadFailed e), o1)
         | Inr activityState \<Rightarrow>
             (let tracker = (case o_activity o1 of
                    Some t \<Rightarrow> Inr t
                  | None \<Rightarrow> NewActivityTracker defaultPoolActivityWindowSlots)
              in case tracker of
                   Inl e \<Rightarrow> (Some (RestoreFailed e), o1)
                 | Inr t \<Rightarrow>
                     (let (r, t') = (if as_WindowSlots activityState \<noteq> 0 then Restore activityState t else (Inr (), t))
                      in case r of
                           Inl e \<Rightarrow> (Some (RestoreFailed e), o1\<lparr>o_activity := Some t'\<rparr>)
                         | Inr _ \<Rightarrow> (None, o1\<lparr>
                             o_activity := Some t',
                             o_pools := fold (\<lambda>s m. AList.update (PoolId s) s m) states (o_pools o1),
                             o_cdps := fold (\<lambda>s m. AList.update (CDPId s) s m) cdpStates (o_cdps o1),
                             o_mempoolMgr := fold (\<lambda>s m. UpdateConfirmedState (PoolId s) (Some s) m) states (o_mempoolMgr o1)\<rparr>))))"

definition GetPoolState :: "string \<Rightarrow> Oracle \<Rightarrow> PoolState option" where
  "GetPoolState poolId o1 = map_of (o_pools o1) poolId"

definition GetPoolVolume :: "string \<Rightarrow> u64 \<Rightarrow> Oracle \<Rightarrow> activity_error + PoolVolume option" where
  "GetPoolVolume poolId atSlot o1 = (case (GetPoolState poolId o1, o_activity o1) of
     (Some state, Some t) \<Rightarrow> Volume (Network state) (Protocol state) (PoolId state) atSlot t
   | _ \<Rightarrow> Inr None)"

definition GetAllPools :: "Oracle \<Rightarrow> PoolState list" where
  "GetAllPools o1 = map snd (o_pools o1)"

definition GetCDPState :: "string \<Rightarrow> Oracle \<Rightarrow> CDPState option" where
  "GetCDPState cdpId o1 = map_of (o_cdps o1) cdpId"

definition GetAllCDPs :: "Oracle \<Rightarrow> CDPState list" where
  "GetAllCDPs o1 = map snd (o_cdps o1)"

definition GetPrice :: "string \<Rightarrow> Oracle \<Rightarrow> f64 option" where
  "GetPrice poolId o1 = map_option PriceXY (GetPoolState poolId o1)"

section \<open>The invariant\<close>

text \<open>
  Pools and positions are filed under their identifiers, the store, the tracker and the mempool
  overlay are each in good order, and every subscriber has a channel of its own that is not over
  its capacity.
\<close>

definition subscribers_ok :: "Oracle \<Rightarrow> bool" where
  "subscribers_ok o1 \<longleftrightarrow> distinct (map fst (o_subscribers o1))
     \<and> list_all (\<lambda>(ch, buf). ch < o_nextChan o1 \<and> length buf \<le> subscriberBufferSize) (o_subscribers o1)"

definition oracle_ok :: "Oracle \<Rightarrow> bool" where
  "oracle_ok o1 \<longleftrightarrow>
     gomap_ok (o_pools o1) \<and> list_all (\<lambda>(k, s). PoolId s = k) (o_pools o1)
     \<and> gomap_ok (o_cdps o1) \<and> list_all (\<lambda>(k, s). CDPId s = k) (o_cdps o1)
     \<and> store_ok (o_storage o1) \<and> manager_ok (o_mempoolMgr o1)
     \<and> pred_option tracker_ok (o_activity o1) \<and> subscribers_ok o1"

lemma send_update_length: "length buf \<le> subscriberBufferSize \<Longrightarrow> length (fst (send_update u buf)) \<le> subscriberBufferSize"
  by (auto simp: send_update_def subscriberBufferSize_def)

lemma notify_all_subs:
  "fst (notify_all u subs drops) = map (\<lambda>(ch, buf). (ch, fst (send_update u buf))) subs"
  by (induction subs arbitrary: drops) (auto simp: case_prod_beta Let_def)

lemma notify_all_drops:
  "snd (notify_all u subs drops) = drops + word_of_nat (length (filter (\<lambda>(ch, buf). length buf \<ge> subscriberBufferSize) subs))"
  by (induction subs arbitrary: drops)
    (auto simp: send_update_def case_prod_beta Let_def algebra_simps)

lemma notifySubscribers_ok [inv_intros]: "oracle_ok o1 \<Longrightarrow> oracle_ok (notifySubscribers s p o1)"
proof -
  assume ok: "oracle_ok o1"
  have "map fst (map (\<lambda>(ch, buf). (ch, fst (send_update u buf))) subs) = map fst subs" for u and subs :: "subscriber list"
    by (simp add: case_prod_beta)
  then show ?thesis
    using ok notify_all_subs
    by (auto simp: notifySubscribers_def oracle_ok_def comp_def subscribers_ok_def list_all_iff case_prod_beta Let_def
        send_update_length split: option.split)
qed

lemma Subscribe_ok [inv_intros]: "oracle_ok o1 \<Longrightarrow> oracle_ok (snd (Subscribe o1))"
  by (auto simp: Subscribe_def Let_def oracle_ok_def subscribers_ok_def list_all_iff)

lemma remove_first_subset: "set (remove_first p xs) \<subseteq> set xs"
  by (induction xs) auto

lemma remove_first_distinct: "distinct (map f xs) \<Longrightarrow> distinct (map f (remove_first p xs))"
  using remove_first_subset by (induction xs) fastforce+

lemma Unsubscribe_ok [inv_intros]: "oracle_ok o1 \<Longrightarrow> oracle_ok (Unsubscribe ch o1)"
  using remove_first_subset [of "\<lambda>s. fst s = ch" "o_subscribers o1"]
  by (auto simp: Unsubscribe_def oracle_ok_def subscribers_ok_def list_all_iff remove_first_distinct)

lemma oracle_Stop_ok [inv_intros]: "oracle_ok o1 \<Longrightarrow> oracle_ok (oracle_Stop o1)"
  by (simp add: oracle_Stop_def oracle_ok_def subscribers_ok_def)

lemma observe_pool_ok:
  assumes "oracle_ok o1" and "observe_pool state o1 = Inr (transition, activity)"
  shows "pred_option tracker_ok activity"
proof (cases "o_activity o1")
  case None
  then show ?thesis using assms(2) by (simp add: observe_pool_def)
next
  case (Some t)
  then have "tracker_ok (snd (ObserveTransition (map_of (o_pools o1) (PoolId state)) (Some state) t))"
    using assms(1) by (simp add: oracle_ok_def inv_intros)
  then show ?thesis using assms(2) Some by (auto simp: observe_pool_def split: prod.splits sum.splits)
qed

lemma persist_pool_ok [inv_intros]: "store_ok db \<Longrightarrow> store_ok (snd (persist_pool env state transition activity db))"
  by (cases activity) (simp_all add: persist_pool_def inv_intros)

lemma record_pool_state_ok [inv_intros]:
  assumes "oracle_ok o1"
  shows "oracle_ok (snd (record_pool_state env state o1))"
proof (cases "observe_pool state o1")
  case (Inl e)
  then show ?thesis using assms by (simp add: record_pool_state_def)
next
  case (Inr x)
  obtain transition activity where x: "x = (transition, activity)" by (cases x)
  obtain persisted db where p: "persist_pool env state transition activity (o_storage o1) = (persisted, db)"
    by (cases "persist_pool env state transition activity (o_storage o1)")
  have "store_ok db"
    using persist_pool_ok [of "o_storage o1" env state transition activity] p assms by (simp add: oracle_ok_def)
  moreover have "pred_option tracker_ok activity" using observe_pool_ok [OF assms] Inr x by simp
  ultimately have "oracle_ok (o1\<lparr>o_activity := activity, o_pools := AList.update (PoolId state) state (o_pools o1), o_storage := db\<rparr>)"
    and "oracle_ok (o1\<lparr>o_activity := activity, o_pools := AList.update (PoolId state) state (o_pools o1), o_storage := db,
      o_mempoolMgr := UpdateConfirmedState (PoolId state) (Some state) (o_mempoolMgr o1)\<rparr>)"
    using assms by (simp_all add: oracle_ok_def subscribers_ok_def list_all_alist_update inv_intros)
  then show ?thesis
    using Inr x p by (cases persisted) (simp_all add: record_pool_state_def Let_def notifySubscribers_ok)
qed

lemma handleProducedCDPOutput_ok [inv_intros]:
  assumes "oracle_ok o1"
  shows "oracle_ok (handleProducedCDPOutput env cp now bh ctx utxo o1)"
proof -
  have "store_ok (snd (SaveCDPState b s (o_storage o1)))" for b s
    using assms by (simp add: oracle_ok_def inv_intros)
  then show ?thesis
    using assms by (auto simp: handleProducedCDPOutput_def Let_def case_prod_beta oracle_ok_def subscribers_ok_def
        list_all_alist_update split: option.split sum.split)
qed

lemma deleteSpentCDPStates_ok [inv_intros]: "oracle_ok o1 \<Longrightarrow> oracle_ok (deleteSpentCDPStates env cp inputs o1)"
proof (induction inputs arbitrary: o1)
  case Nil
  then show ?case by simp
next
  case (Cons i inputs)
  have "oracle_ok (o1\<lparr>o_cdps := AList.delete k (o_cdps o1), o_storage := snd (DeleteCDPState b n p k (o_storage o1))\<rparr>)" for b n p k
    using Cons.prems by (auto simp: oracle_ok_def subscribers_ok_def inv_intros list_all_iff AList.delete_eq)
  with Cons show ?case by (simp add: Let_def case_prod_beta split: option.split)
qed

lemma handle_utxo_ok [inv_intros]: "oracle_ok o1 \<Longrightarrow> oracle_ok (snd (handle_utxo env now bh ctx utxo o1))"
  by (simp add: handle_utxo_def inv_intros split: option.split sum.split)

lemma handle_utxos_ok [inv_intros]: "oracle_ok o1 \<Longrightarrow> oracle_ok (snd (handle_utxos env now bh ctx utxos o1))"
proof (induction utxos arbitrary: o1)
  case Nil
  then show ?case by simp
next
  case (Cons u utxos)
  have "oracle_ok (snd (handle_utxo env now bh ctx u o1))" using Cons.prems by (rule handle_utxo_ok)
  with Cons.IH show ?case by (auto split: prod.split option.split)
qed

lemma handleTransaction_ok [inv_intros]: "oracle_ok o1 \<Longrightarrow> oracle_ok (snd (handleTransaction env now ctx evt o1))"
  by (auto simp: handleTransaction_def Let_def intro!: inv_intros split: option.split)

section \<open>Rollback\<close>

lemma fold_delete_ids:
  "fold (\<lambda>s m. AList.delete (f s) m) xs m = filter (\<lambda>(k, v). k \<notin> f ` set xs) m"
proof (induction xs arbitrary: m)
  case Nil
  then show ?case by (simp add: case_prod_beta)
next
  case (Cons x xs)
  have "fold (\<lambda>s m. AList.delete (f s) m) (x # xs) m = filter (\<lambda>(k, v). k \<notin> f ` set xs) (AList.delete (f x) m)"
    by (simp add: Cons)
  also have "\<dots> = filter (\<lambda>(k, v). k \<notin> f ` set (x # xs)) m"
    unfolding AList.delete_eq filter_filter by (intro filter_cong) auto
  finally show ?case .
qed

lemma delete_pool_states_ok [inv_intros]: "store_ok db \<Longrightarrow> store_ok (snd (delete_pool_states env ss db))"
  by (induction ss arbitrary: db) (simp_all add: Let_def case_prod_beta inv_intros)

lemma delete_cdp_states_ok [inv_intros]: "store_ok db \<Longrightarrow> store_ok (snd (delete_cdp_states env ss db))"
  by (induction ss arbitrary: db) (simp_all add: Let_def case_prod_beta inv_intros)

lemma fold_RemovePoolState_ok: "manager_ok m \<Longrightarrow> manager_ok (fold (\<lambda>s m. RemovePoolState (PoolId s) m) xs m)"
  by (induction xs arbitrary: m) (simp_all add: inv_intros)

text \<open>What a rollback keeps in the two maps, filed by identifier.\<close>

lemma keyed_filter:
  assumes "list_all (\<lambda>(k, v). f v = k) m" and "gomap_ok m"
  shows "filter (\<lambda>(k, v). k \<notin> f ` set (filter p (map snd m))) m = filter (\<lambda>(k, v). \<not> p v) m"
proof (intro filter_cong refl)
  fix x
  assume x: "x \<in> set m"
  obtain k v where kv: "x = (k, v)" by (cases x)
  have "k \<in> f ` set (filter p (map snd m)) \<longleftrightarrow> p v"
  proof
    assume "k \<in> f ` set (filter p (map snd m))"
    then obtain k' v' where v': "(k', v') \<in> set m" "p v'" "f v' = k" by auto
    then have "k' = k" using assms(1) by (auto simp: list_all_iff)
    then have "v' = v" using v'(1) x kv assms(2) by (metis gomap_ok_mem option.inject)
    with v'(2) show "p v" by simp
  next
    assume "p v"
    then show "k \<in> f ` set (filter p (map snd m))"
      using x kv assms(1) by (force simp: list_all_iff)
  qed
  then show "(case x of (k, v) \<Rightarrow> k \<notin> f ` set (filter p (map snd m))) = (case x of (k, v) \<Rightarrow> \<not> p v)"
    by (simp add: kv)
qed

lemma handleRollback_maps:
  assumes "oracle_ok o1"
  shows "o_pools (snd (handleRollback env n o1)) = filter (\<lambda>(k, s). Slot s < firstRolledBackSlot n) (o_pools o1)"
    and "o_cdps (snd (handleRollback env n o1)) = filter (\<lambda>(k, s). cdp_Slot s < firstRolledBackSlot n) (o_cdps o1)"
  using assms keyed_filter [of PoolId "o_pools o1" "\<lambda>s. Slot s \<ge> firstRolledBackSlot n"]
    keyed_filter [of CDPId "o_cdps o1" "\<lambda>s. cdp_Slot s \<ge> firstRolledBackSlot n"]
  by (simp_all add: handleRollback_def Let_def case_prod_beta fold_delete_ids oracle_ok_def not_le)

lemma handleRollback_ok [inv_intros]:
  assumes "oracle_ok o1"
  shows "oracle_ok (snd (handleRollback env n o1))"
proof -
  have maps: "gomap_ok (o_pools (snd (handleRollback env n o1)))" "list_all (\<lambda>(k, s). PoolId s = k) (o_pools (snd (handleRollback env n o1)))"
    "gomap_ok (o_cdps (snd (handleRollback env n o1)))" "list_all (\<lambda>(k, s). CDPId s = k) (o_cdps (snd (handleRollback env n o1)))"
    using assms unfolding handleRollback_maps [OF assms] by (auto simp: oracle_ok_def list_all_iff)
  have "store_ok (o_storage (snd (handleRollback env n o1)))"
    using assms by (simp add: handleRollback_def Let_def case_prod_beta oracle_ok_def inv_intros)
  moreover have "manager_ok (o_mempoolMgr (snd (handleRollback env n o1)))"
    using assms by (simp add: handleRollback_def Let_def case_prod_beta oracle_ok_def fold_RemovePoolState_ok)
  moreover have "pred_option tracker_ok (o_activity (snd (handleRollback env n o1)))"
    using assms by (auto simp: handleRollback_def Let_def case_prod_beta oracle_ok_def option.pred_map comp_def
        elim!: option.pred_mono_strong intro: inv_intros split: sum.split)
  moreover have "subscribers_ok (snd (handleRollback env n o1))"
    using assms by (simp add: handleRollback_def Let_def case_prod_beta oracle_ok_def subscribers_ok_def)
  ultimately show ?thesis using maps by (simp add: oracle_ok_def)
qed

text \<open>The pool states follow a rollback the way every log of the development does.\<close>

definition pool_states :: "Oracle \<Rightarrow> PoolState set" where
  "pool_states o1 = snd ` set (o_pools o1)"

lemma firstRolledBackSlot_mono: "n \<le> m \<Longrightarrow> firstRolledBackSlot n \<le> firstRolledBackSlot m"
proof -
  assume le: "n \<le> m"
  have top: "unat (x + 1) = unat x + 1" if "x \<noteq> MaxUint64" for x :: u64
  proof -
    have "unat x \<noteq> 2 ^ 64 - 1" using that by (simp add: word_unat_eq_iff unat_MaxUint64)
    then have "unat x + unat (1 :: u64) < 2 ^ 64" using unat_u64_bound [of x] by simp
    from unat_u64_add [OF this] show ?thesis by simp
  qed
  show ?thesis
    using le top [of n] top [of m] unat_u64_bound [of "n + 1"]
    by (auto simp: firstRolledBackSlot_def word_le_nat_alt unat_MaxUint64)
qed

interpretation pool_log:
  rollback_log "\<lambda>(env, o1). oracle_ok o1" "\<lambda>(env, o1). pool_states o1" Slot
    "\<lambda>n (env, o1). (env, snd (handleRollback env n o1))" "\<lambda>n s. s < firstRolledBackSlot n"
proof unfold_locales
  show "(case (case s of (env, o1) \<Rightarrow> (env, snd (handleRollback env n o1))) of (env, o1) \<Rightarrow> pool_states o1) =
      {e \<in> case s of (env, o1) \<Rightarrow> pool_states o1. Slot e < firstRolledBackSlot n}"
    if "case s of (env, o1) \<Rightarrow> oracle_ok o1" for s n
  proof (cases s)
    case (Pair env o1)
    with that have "oracle_ok o1" by simp
    then show ?thesis by (auto simp: Pair pool_states_def handleRollback_maps(1) image_iff)
  qed
  show "case (case s of (env, o1) \<Rightarrow> (env, snd (handleRollback env n o1))) of (env, o1) \<Rightarrow> oracle_ok o1"
    if "case s of (env, o1) \<Rightarrow> oracle_ok o1" for s n
    using that by (auto intro: inv_intros split: prod.splits)
  show "sl < firstRolledBackSlot m" if "n \<le> m" "sl < firstRolledBackSlot n" for n m sl
    using that firstRolledBackSlot_mono by (meson order_less_le_trans)
qed

section \<open>Subscribers\<close>

text \<open>Sending a series of updates to one channel.\<close>

lemma send_update_take:
  assumes "length buf \<le> subscriberBufferSize"
  shows "fst (send_update u buf) = drop (length (buf @ [u]) - subscriberBufferSize) (buf @ [u])"
proof (cases "length buf < subscriberBufferSize")
  case True
  then show ?thesis by (simp add: send_update_def)
next
  case False
  with assms obtain b bs where b: "buf = b # bs" "Suc (length bs) = subscriberBufferSize"
    by (cases buf) (auto simp: subscriberBufferSize_def)
  then have "length (buf @ [u]) - subscriberBufferSize = 1" by simp
  then show ?thesis using b by (simp add: send_update_def)
qed

lemma send_updates_suffix:
  assumes "length buf \<le> subscriberBufferSize"
  shows "fold (\<lambda>u b. fst (send_update u b)) us buf = drop (length (buf @ us) - subscriberBufferSize) (buf @ us)"
  using assms
proof (induction us arbitrary: buf)
  case Nil
  then show ?case by simp
next
  case (Cons u us)
  let ?d = "length (buf @ [u]) - subscriberBufferSize"
  have "length (fst (send_update u buf)) \<le> subscriberBufferSize" using Cons.prems by (rule send_update_length)
  from Cons.IH [OF this] have "fold (\<lambda>u b. fst (send_update u b)) (u # us) buf
      = drop (length (drop ?d (buf @ [u]) @ us) - subscriberBufferSize) (drop ?d (buf @ [u]) @ us)"
    by (simp only: fold_Cons comp_apply send_update_take [OF Cons.prems])
  also have "drop ?d (buf @ [u]) @ us = drop ?d ((buf @ [u]) @ us)"
    unfolding drop_append by (simp add: subscriberBufferSize_def)
  also have "(buf @ [u]) @ us = buf @ u # us" by simp
  also have "drop (length (drop ?d (buf @ u # us)) - subscriberBufferSize) (drop ?d (buf @ u # us))
      = drop (length (buf @ u # us) - subscriberBufferSize) (buf @ u # us)"
  proof -
    have "length (buf @ u # us) - ?d - subscriberBufferSize + ?d = length (buf @ u # us) - subscriberBufferSize"
      by simp
    then show ?thesis by (simp only: drop_drop length_drop)
  qed
  finally show ?case .
qed

fun notify_series :: "(PoolState \<times> f64) list \<Rightarrow> Oracle \<Rightarrow> Oracle" where
  "notify_series [] o1 = o1"
| "notify_series ((s, p) # xs) o1 = notify_series xs (notifySubscribers s p o1)"

lemma notify_series_buffers:
  "o_subscribers (notify_series xs o1) =
     map (\<lambda>(ch, buf). (ch, fold (\<lambda>u b. fst (send_update u b)) (map (\<lambda>(s, p). the (NewPriceUpdate (Some s) p)) xs) buf))
       (o_subscribers o1)"
proof (induction xs o1 rule: notify_series.induct)
  case (1 o1)
  then show ?case by (simp add: case_prod_beta)
next
  case (2 s p xs o1)
  obtain u where u: "NewPriceUpdate (Some s) p = Some u" by (simp add: NewPriceUpdate_def)
  have "o_subscribers (notifySubscribers s p o1) = map (\<lambda>(ch, buf). (ch, fst (send_update u buf))) (o_subscribers o1)"
    using notify_all_subs [of u "o_subscribers o1"] by (simp add: notifySubscribers_def u case_prod_beta)
  with 2 u show ?case by (simp add: case_prod_beta comp_def)
qed

section \<open>Properties\<close>


text \<open>C26: a slow subscriber loses the oldest updates only: after any series of updates its channel holds
  the most recent ones, in order, up to its capacity.\<close>

theorem subscriber_gets_latest_updates:
  assumes "oracle_ok o1" and "(ch, buf) \<in> set (o_subscribers o1)"
  shows "\<exists>buf'. (ch, buf') \<in> set (o_subscribers (notify_series xs o1)) \<and>
    (let sent = buf @ map (\<lambda>(s, p). the (NewPriceUpdate (Some s) p)) xs
     in buf' = drop (length sent - subscriberBufferSize) sent)"
proof -
  have "length buf \<le> subscriberBufferSize"
    using assms by (auto simp: oracle_ok_def subscribers_ok_def list_all_iff)
  from send_updates_suffix [OF this] show ?thesis
    unfolding notify_series_buffers Let_def using assms(2) by (intro exI conjI refl) (force simp: image_iff)
qed

lemma new_oracle_ok: "oracle_ok (New [] [])"
  by (simp add: oracle_ok_def New_def NewActivityTracker_def defaultPoolActivityWindowSlots_def tracker_ok_def
      store_ok_def manager_ok_def subscribers_ok_def)


theorem subscriber_gets_latest_updates_witness:
  "\<exists>buf'. (0, buf') \<in> set (o_subscribers (notify_series [(ada_usdm_pool, Fin 0)] (snd (Subscribe (New [] [])))))
    \<and> buf' = [the (NewPriceUpdate (Some ada_usdm_pool) (Fin 0))]"
  using subscriber_gets_latest_updates [OF Subscribe_ok [OF new_oracle_ok], of 0 "[]" "[(ada_usdm_pool, Fin 0)]"]
  by (simp add: Subscribe_def New_def subscriberBufferSize_def)

end
