(* ===== verification/Durability.thy ===== *)
theory Durability
  imports Oracle
begin

text \<open>
  What the oracle keeps in memory and what it has persisted, across the tracker, the store and the
  service: the two agree after every successful step and after every successful rollback, and a
  restart from the store recovers the pools, the latest slot and the swaps of the window.
\<close>

section \<open>Agreement of memory and store\<close>

definition state_key :: "PoolState \<Rightarrow> string" where
  "state_key s = poolStateKey (Network s) (Protocol s) (PoolId s)"

text \<open>
  The pools of one network and protocol are persisted under their keys and nothing else is filed
  there; the metadata, once written, agrees with the tracker; every swap the tracker counts is in
  the store, and every swap in the store can be restored.
\<close>

definition pools_persisted :: "string \<Rightarrow> string \<Rightarrow> (string, PoolState) gomap \<Rightarrow> store \<Rightarrow> bool" where
  "pools_persisted n p pools db \<longleftrightarrow>
     (\<forall>i s. map_of pools i = Some s \<longrightarrow>
        PoolId s = i \<and> Network s = n \<and> Protocol s = p \<and> map_of db (state_key s) = Some (PoolValue s))
     \<and> (\<forall>k v. map_of db k = Some v \<and> has_prefix poolStateKeyPrefix k \<longrightarrow>
        (\<exists>s. v = PoolValue s \<and> k = state_key s \<and> map_of pools (PoolId s) = Some s))"

definition swaps_persisted :: "ActivityTracker \<Rightarrow> store \<Rightarrow> bool" where
  "swaps_persisted t db \<longleftrightarrow>
     durable t \<and> store_ok db \<and> store_latest db = latestSlot t
     \<and> (map_of db activityMetaKey = None \<or> store_window db = windowSlots t)
     \<and> tracker_swaps t \<subseteq> store_swaps db
     \<and> (\<forall>s \<in> store_swaps db. validateSwapTransition s (store_latest db))"

definition persisted :: "string \<Rightarrow> string \<Rightarrow> Oracle \<Rightarrow> bool" where
  "persisted n p o1 \<longleftrightarrow> oracle_ok o1 \<and> pools_persisted n p (o_pools o1) (o_storage o1)
     \<and> (\<exists>t. o_activity o1 = Some t \<and> windowSlots t = defaultPoolActivityWindowSlots \<and> swaps_persisted t (o_storage o1))"

section \<open>A step of the tracker\<close>

lemma tracker_swaps_window:
  assumes "tracker_ok t" and "s \<in> tracker_swaps t"
  shows "cutoff_at (windowSlots t) (latestSlot t) \<le> st_Slot s"
proof -
  have "s \<in> set (swaps_at (swaps t) (swap_pool_key s))" using assms tracker_swaps_iff by blast
  with tracker_ok_swaps [OF assms(1), of "swap_pool_key s"] show ?thesis
    unfolding pool_swaps_ok_def list_all_iff by blast
qed

text \<open>A successful observation advances the tracker and appends the swap it reports as recorded.\<close>

lemma observe_form:
  assumes "ObserveTransition p (Some c) t = (Inr (sw, rec), t')" and "\<not> FromMempool c"
  shows "latestSlot t \<le> Slot c \<and>
    (if rec then \<exists>s. sw = Some s \<and> InferSwapTransition p (Some c) = Inr (Some s)
       \<and> t' = append_swap (Key c) s (prune (Slot c) (t\<lparr>latestSlot := Slot c\<rparr>))
     else t' = prune (Slot c) (t\<lparr>latestSlot := Slot c\<rparr>))"
  using assms by (auto simp: ObserveTransition_def Let_def not_less split: if_splits sum.splits option.splits)

lemma observe_swaps:
  assumes "tracker_ok t" and "ObserveTransition p (Some c) t = (Inr (sw, rec), t')" and "\<not> FromMempool c"
  shows "latestSlot t' = Slot c" and "windowSlots t' = windowSlots t" and "latestSlot t \<le> Slot c"
    and "rec \<Longrightarrow> \<exists>s \<in> tracker_swaps t'. sw = Some s \<and> InferSwapTransition p (Some c) = Inr (Some s)"
    and "tracker_swaps t' \<subseteq> tracker_swaps t \<union> (if rec then set_option sw else {})"
proof -
  have t': "tracker_ok t'" using ObserveTransition_ok [OF assms(1), of p "Some c"] assms(2) by simp
  note form = observe_form [OF assms(2,3)]
  show "latestSlot t' = Slot c" "windowSlots t' = windowSlots t" "latestSlot t \<le> Slot c"
    using form by (auto split: if_splits)
  show "\<exists>s \<in> tracker_swaps t'. sw = Some s \<and> InferSwapTransition p (Some c) = Inr (Some s)" if r: "rec"
  proof -
    obtain s where s: "sw = Some s" "InferSwapTransition p (Some c) = Inr (Some s)"
      "t' = append_swap (Key c) s (prune (Slot c) (t\<lparr>latestSlot := Slot c\<rparr>))"
      using form r by auto
    have "s \<in> tracker_swaps t'"
      unfolding tracker_swaps_iff [OF t'] infer_swapD(1) [OF s(2)] by (simp add: s(3))
    with s show ?thesis by blast
  qed
  show "tracker_swaps t' \<subseteq> tracker_swaps t \<union> (if rec then set_option sw else {})"
  proof
    fix s
    assume "s \<in> tracker_swaps t'"
    then have "s \<in> set (swaps_at (swaps t') (swap_pool_key s))" using tracker_swaps_iff [OF t'] by blast
    then have "s \<in> set (swaps_at (swaps t) (swap_pool_key s)) \<or> (rec \<and> sw = Some s)"
      using form by (auto simp: advance_swaps_at [OF assms(1)] split: if_splits)
    then show "s \<in> tracker_swaps t \<union> (if rec then set_option sw else {})"
      using tracker_swaps_iff [OF assms(1)] by auto
  qed
qed

lemma durable_valid: "durable t \<Longrightarrow> s \<in> tracker_swaps t \<Longrightarrow> validateSwapTransition s (latestSlot t)"
  by (auto simp: durable_def tracker_swaps_def list_all_iff)

section \<open>Recording a pool state\<close>

lemma saved_swaps:
  assumes "db' = filter (\<lambda>(k, v). k \<notin> K) (saved state sw meta db)"
  shows "store_swaps db' \<subseteq> store_swaps db \<union> set_option sw"
  using assms by (auto simp: store_swaps_def map_of_without_keys saved_activity swap_in_def split: option.splits if_splits)

lemma swaps_persisted_save:
  assumes pers: "swaps_persisted t db"
    and obs: "ObserveTransition p (Some c) t = (Inr (sw, rec), t')" "\<not> FromMempool c" "named_pool c"
    and save: "SavePoolStateAndActivity bl (Some c) (if rec then sw else None) (windowSlots t') db = (Inr u, db')"
    and inj: "inj_on poolActivityKey (tracker_swaps t')"
  shows "swaps_persisted t' db'"
proof -
  let ?sw = "if rec then sw else None"
  have dur: "durable t" and ok: "store_ok db" and trk: "tracker_ok t" and sub: "tracker_swaps t \<subseteq> store_swaps db"
    and lat: "store_latest db = latestSlot t"
    using pers by (auto simp: swaps_persisted_def durable_def)
  have dur': "durable t'" using ObserveTransition_durable [OF dur obs(3), of p] obs(1) by simp
  note os = observe_swaps [OF trk obs(1,2)]
  obtain meta K where s: "am_WindowSlots meta = windowSlots t'" "am_LatestSlot meta = max (store_latest db) (Slot c)"
    "store_ok (saved c ?sw meta db)" "db' = filter (\<lambda>(k, v). k \<notin> K) (saved c ?sw meta db)"
    "\<forall>k \<in> K. has_prefix activityKeyPrefix k \<and> key_slot k < cutoff_at (windowSlots t') (am_LatestSlot meta)"
    by (rule save_Inr [OF ok save]) simp
  have latest: "am_LatestSlot meta = latestSlot t'" using s(2) lat os(1,3) by (simp add: max_def)
  have look: "map_of db' k = (if k \<in> K then None else map_of (saved c ?sw meta db) k)" for k
    by (simp only: s(4) map_of_without_keys)
  have metaK: "activityMetaKey \<notin> K" using s(5) by auto
  have metadata: "store_latest db' = latestSlot t'" "store_window db' = windowSlots t'"
    using s(1) latest metaK by (simp_all add: store_latest_def store_window_def look saved_lookup)
  have ok': "store_ok db'" using store_ok_filter [OF s(3)] s(4,5) by blast
  have "x \<in> store_swaps db'" if x: "x \<in> tracker_swaps t'" for x
  proof -
    have keep: "poolActivityKey x \<notin> K"
      using s(5) tracker_swaps_window [OF _ x] dur' latest by (force simp: durable_def not_less)
    show ?thesis
    proof (cases "swap_in ?sw (poolActivityKey x)")
      case True
      then obtain y where y: "?sw = Some y" "poolActivityKey x = poolActivityKey y"
        by (auto simp: swap_in_def split: option.splits)
      then have "y \<in> tracker_swaps t'" using os(4) by (auto split: if_splits)
      then have "x = y" using inj y(2) x by (auto dest: inj_onD)
      then show ?thesis using True keep y by (simp add: store_swaps_def look saved_activity)
    next
      case False
      then have "x \<notin> set_option ?sw" by (auto simp: swap_in_def)
      then have "x \<in> tracker_swaps t" using os(5) x by (auto split: if_splits)
      then show ?thesis using sub False keep by (auto simp: store_swaps_def look saved_activity)
    qed
  qed
  moreover have "validateSwapTransition x (store_latest db')" if "x \<in> store_swaps db'" for x
  proof -
    from saved_swaps [OF s(4)] that consider "x \<in> store_swaps db" | "rec" "sw = Some x" by (auto split: if_splits)
    then show ?thesis
    proof cases
      case 1
      then show ?thesis using pers os(1,3) lat metadata(1) by (auto simp: swaps_persisted_def intro: validate_mono)
    next
      case 2
      then show ?thesis using os(1,4) infer_swap_valid [OF _ obs(3)] metadata(1) by auto
    qed
  qed
  ultimately show ?thesis using dur' ok' metadata by (auto simp: swaps_persisted_def)
qed

lemma pool_prefix_not_activity: "has_prefix poolStateKeyPrefix k \<Longrightarrow> \<not> has_prefix activityKeyPrefix k"
proof
  assume pool: "has_prefix poolStateKeyPrefix k" and act: "has_prefix activityKeyPrefix k"
  have "take (length poolStateKeyPrefix) (take (length activityKeyPrefix) k) = take (length poolStateKeyPrefix) k"
    by (simp add: take_take poolStateKeyPrefix_def activityKeyPrefix_def)
  then have "take (length poolStateKeyPrefix) activityKeyPrefix = poolStateKeyPrefix"
    using pool act unfolding has_prefix_def by metis
  then show False by (simp add: poolStateKeyPrefix_def activityKeyPrefix_def)
qed

lemma state_key_other [simp]:
  "state_key s \<noteq> activityMetaKey" "has_prefix poolStateKeyPrefix (state_key s)"
  "\<not> has_prefix poolStateKeyPrefix activityMetaKey"
  by (simp_all add: state_key_def poolStateKey_def has_prefix_def poolStateKeyPrefix_def activityMetaKey_def)

lemma state_key_inject:
  assumes "Network s = Network s'" and "Protocol s = Protocol s'"
  shows "state_key s = state_key s' \<longleftrightarrow> PoolId s = PoolId s'"
  using assms by (simp add: state_key_def poolStateKey_def)

lemma pools_persisted_save:
  assumes pers: "pools_persisted n p pools db" and c: "Network c = n" "Protocol c = p"
    and look: "\<And>k. has_prefix poolStateKeyPrefix k \<Longrightarrow> map_of db' k = (if k = state_key c then Some (PoolValue c) else map_of db k)"
  shows "pools_persisted n p (AList.update (PoolId c) c pools) db'"
  unfolding pools_persisted_def update_conv'
proof (intro conjI allI impI)
  fix i s
  assume "((map_of pools)(PoolId c \<mapsto> c)) i = Some s"
  then show "PoolId s = i" "Network s = n" "Protocol s = p" "map_of db' (state_key s) = Some (PoolValue s)"
    using pers c look [of "state_key s"] state_key_inject [of s c] by (auto simp: pools_persisted_def split: if_splits)
next
  fix k v
  assume kv: "map_of db' k = Some v \<and> has_prefix poolStateKeyPrefix k"
  show "\<exists>s. v = PoolValue s \<and> k = state_key s \<and> ((map_of pools)(PoolId c \<mapsto> c)) (PoolId s) = Some s"
  proof (cases "k = state_key c")
    case True
    then show ?thesis using kv look [of k] by auto
  next
    case False
    then have "map_of db k = Some v" using kv look [of k] by simp
    then obtain s where s: "v = PoolValue s" "k = state_key s" "map_of pools (PoolId s) = Some s"
      using pers kv unfolding pools_persisted_def by blast
    then have "Network s = n" "Protocol s = p" using pers by (auto simp: pools_persisted_def)
    then have "PoolId s \<noteq> PoolId c" using False s(2) c state_key_inject [of s c] by auto
    with s show ?thesis by auto
  qed
qed

lemma saved_pool_lookup:
  assumes "has_prefix poolStateKeyPrefix k"
  shows "map_of (saved c sw meta db) k = (if k = state_key c then Some (PoolValue c) else map_of db k)"
proof -
  have "k \<noteq> activityMetaKey" "k \<noteq> poolActivityKey s" for s
    using assms pool_prefix_not_activity [OF assms] activity_key_prefix by auto
  then show ?thesis by (simp add: saved_lookup state_key_def)
qed

lemma notify_fields:
  "o_activity (notifySubscribers s pr o1) = o_activity o1" "o_storage (notifySubscribers s pr o1) = o_storage o1"
  "o_pools (notifySubscribers s pr o1) = o_pools o1"
  by (simp_all add: notifySubscribers_def case_prod_beta split: option.split)

lemma record_success:
  assumes "record_pool_state env c o1 = (None, o2)" and "o_activity o1 = Some t"
  obtains sw r t' u db' where "ObserveTransition (map_of (o_pools o1) (PoolId c)) (Some c) t = (Inr (sw, r), t')"
    "SavePoolStateAndActivity (oe_badger env) (Some c) (if r then sw else None) (windowSlots t') (o_storage o1) = (Inr u, db')"
    "o_activity o2 = Some t'" "o_storage o2 = db'" "o_pools o2 = AList.update (PoolId c) c (o_pools o1)"
proof -
  obtain tr act where obs: "observe_pool c o1 = Inr (tr, act)"
    using assms(1) by (cases "observe_pool c o1") (auto simp: record_pool_state_def)
  then obtain sw r t' where o: "ObserveTransition (map_of (o_pools o1) (PoolId c)) (Some c) t = (Inr (sw, r), t')"
    "tr = (if r then sw else None)" "act = Some t'"
    using assms(2) by (auto simp: observe_pool_def split: prod.splits sum.splits)
  obtain q db' where p: "persist_pool env c tr act (o_storage o1) = (q, db')"
    by (cases "persist_pool env c tr act (o_storage o1)")
  then obtain u where "q = Inr u"
    using assms(1) obs by (cases q) (auto simp: record_pool_state_def Let_def)
  with assms(1) obs o p that [of sw r t' u db'] show ?thesis
    by (auto simp: record_pool_state_def persist_pool_def Let_def notify_fields)
qed

text \<open>Recording a state of the profile's protocol keeps memory and store in agreement.\<close>

lemma record_persisted:
  assumes pers: "persisted n p o1" and c: "Network c = n" "Protocol c = p" "\<not> FromMempool c" "named_pool c"
    and rec: "record_pool_state env c o1 = (None, o2)"
    and inj: "\<forall>t. o_activity o2 = Some t \<longrightarrow> inj_on poolActivityKey (tracker_swaps t)"
  shows "persisted n p o2"
proof -
  obtain t where t: "o_activity o1 = Some t" "windowSlots t = defaultPoolActivityWindowSlots" "swaps_persisted t (o_storage o1)"
    and pools: "pools_persisted n p (o_pools o1) (o_storage o1)" and ok: "oracle_ok o1"
    using pers by (auto simp: persisted_def)
  obtain sw r t' u db' where o: "ObserveTransition (map_of (o_pools o1) (PoolId c)) (Some c) t = (Inr (sw, r), t')"
    "SavePoolStateAndActivity (oe_badger env) (Some c) (if r then sw else None) (windowSlots t') (o_storage o1) = (Inr u, db')"
    and o2: "o_activity o2 = Some t'" "o_storage o2 = db'" "o_pools o2 = AList.update (PoolId c) c (o_pools o1)"
    by (rule record_success [OF rec t(1)])
  have "swaps_persisted t' db'"
    using swaps_persisted_save [OF t(3) o(1) c(3,4) o(2)] inj o2(1) by blast
  moreover have "windowSlots t' = windowSlots t"
    using observe_swaps(2) [OF _ o(1) c(3)] t(3) by (simp add: swaps_persisted_def durable_def)
  moreover have "pools_persisted n p (o_pools o2) db'"
  proof -
    have st: "store_ok (o_storage o1)" using ok by (simp add: oracle_ok_def)
    obtain meta K where s: "db' = filter (\<lambda>(k, v). k \<notin> K) (saved c (if r then sw else None) meta (o_storage o1))"
      "\<forall>k \<in> K. has_prefix activityKeyPrefix k"
      by (rule save_Inr [OF st o(2)]) auto
    have "map_of db' k = (if k = state_key c then Some (PoolValue c) else map_of (o_storage o1) k)"
      if "has_prefix poolStateKeyPrefix k" for k
    proof -
      have "k \<notin> K" using s(2) pool_prefix_not_activity [OF that] by blast
      then show ?thesis by (simp only: s(1) map_of_without_keys saved_pool_lookup [OF that] if_False)
    qed
    from pools_persisted_save [OF pools c(1,2) this] show ?thesis by (simp add: o2(3))
  qed
  moreover have "oracle_ok o2" using record_pool_state_ok [OF ok, of env c] rec by simp
  ultimately show ?thesis using o2 t(2) by (simp add: persisted_def)
qed

section \<open>Rolling back\<close>

lemma delete_pool_states_success:
  assumes "fst (delete_pool_states env ss db) = []"
  shows "snd (delete_pool_states env ss db) = fold (\<lambda>s. AList.delete (state_key s)) ss db"
  using assms
proof (induction ss arbitrary: db)
  case Nil
  then show ?case by simp
next
  case (Cons s ss)
  obtain r db1 where d: "DeletePoolState (oe_badger env) s db = (r, db1)" by (cases "DeletePoolState (oe_badger env) s db")
  then have "r = Inr ()" "fst (delete_pool_states env ss db1) = []"
    using Cons.prems by (cases r; simp add: Let_def case_prod_beta)+
  moreover from this(1) d have "db1 = AList.delete (state_key s) db"
    by (auto simp: DeletePoolState_def db_Update_def txn_Delete_def state_key_def split: if_splits)
  ultimately show ?case using Cons.IH d by (simp add: Let_def case_prod_beta)
qed

lemma delete_cdp_states_lookup:
  assumes "\<not> has_prefix cdpStateKeyPrefix k"
  shows "map_of (snd (delete_cdp_states env ss db)) k = map_of db k"
proof (induction ss arbitrary: db)
  case Nil
  then show ?case by simp
next
  case (Cons s ss)
  have "k \<noteq> cdpStateKey n p i" for n p i using assms by (auto simp: cdpStateKey_def)
  then have "map_of (snd (DeleteCDPState b n p i db)) k = map_of db k" for b n p i
    by (auto simp: DeleteCDPState_def db_Update_def txn_Delete_def delete_conv')
  with Cons show ?case by (simp add: Let_def case_prod_beta)
qed

lemma cdp_prefix_other [simp]:
  "\<not> has_prefix cdpStateKeyPrefix activityMetaKey" "\<not> has_prefix cdpStateKeyPrefix (state_key s)"
  "\<not> has_prefix cdpStateKeyPrefix (poolActivityKey sw)"
  by (simp_all add: has_prefix_def cdpStateKeyPrefix_def activityMetaKey_def state_key_def poolStateKey_def
      poolStateKeyPrefix_def poolActivityKey_def activityKeyPrefix_def)

text \<open>The three parts of a successful rollback on disk.\<close>

lemma rollback_success:
  assumes "handleRollback env slot o1 = (None, o2)" and "oracle_ok o1" and "\<not> has_prefix cdpStateKeyPrefix k"
  shows "map_of (o_storage o2) k =
      (if k \<in> state_key ` set (filter (\<lambda>s. Slot s \<ge> firstRolledBackSlot slot) (map snd (o_pools o1))) then None
       else truncated (firstRolledBackSlot slot) (o_storage o1) k)"
    and "o_activity o2 = map_option (Rollback (firstRolledBackSlot slot)) (o_activity o1)"
proof -
  let ?n = "firstRolledBackSlot slot"
  let ?del = "filter (\<lambda>s. Slot s \<ge> ?n) (map snd (o_pools o1))"
  obtain r db1 where r: "RollbackActivity (oe_badger env) ?n (o_storage o1) = (r, db1)"
    by (cases "RollbackActivity (oe_badger env) ?n (o_storage o1)")
  have r0: "r = Inr ()" and d: "fst (delete_pool_states env ?del db1) = []"
    using assms(1) r by (cases r; auto simp: handleRollback_def Let_def case_prod_beta split: if_splits)+
  have st: "o_storage o2 = snd (delete_cdp_states env (filter (\<lambda>s. cdp_Slot s \<ge> ?n) (map snd (o_cdps o1)))
      (snd (delete_pool_states env ?del db1)))"
    using assms(1) r by (auto simp: handleRollback_def Let_def case_prod_beta)
  have "store_ok (o_storage o1)" using assms(2) by (simp add: oracle_ok_def)
  then have tr: "map_of db1 k = truncated ?n (o_storage o1) k"
    using RollbackActivity_spec [OF _ r] r0 by simp
  have del: "map_of (fold (\<lambda>s. AList.delete (state_key s)) ss db) k = (if k \<in> state_key ` set ss then None else map_of db k)" for ss db
    by (induction ss arbitrary: db) (auto simp: delete_conv')
  show "map_of (o_storage o2) k = (if k \<in> state_key ` set ?del then None else truncated ?n (o_storage o1) k)"
    unfolding st delete_cdp_states_lookup [OF assms(3)] delete_pool_states_success [OF d] del tr ..
  show "o_activity o2 = map_option (Rollback ?n) (o_activity o1)"
    using assms(1) r r0 by (auto simp: handleRollback_def Let_def case_prod_beta)
qed

lemma pools_persisted_rollback:
  assumes pers: "pools_persisted n p pools db" and ok: "gomap_ok pools"
    and look: "\<And>k. has_prefix poolStateKeyPrefix k \<Longrightarrow>
      map_of db' k = (if k \<in> state_key ` set (filter (\<lambda>s. Slot s \<ge> m) (map snd pools)) then None else map_of db k)"
  shows "pools_persisted n p (filter (\<lambda>(k, s). Slot s < m) pools) db'"
proof -
  have keep: "state_key s \<in> state_key ` set (filter (\<lambda>s. Slot s \<ge> m) (map snd pools)) \<longleftrightarrow> m \<le> Slot s"
    if "map_of pools i = Some s" for i s
  proof
    assume "state_key s \<in> state_key ` set (filter (\<lambda>s. Slot s \<ge> m) (map snd pools))"
    then obtain i' s' where s': "(i', s') \<in> set pools" "m \<le> Slot s'" "state_key s = state_key s'" by auto
    then have m': "map_of pools i' = Some s'" using ok by (simp add: gomap_ok_mem)
    then have "PoolId s = PoolId s'" "PoolId s = i" "PoolId s' = i'"
      using pers that s'(3) state_key_inject [of s s'] by (auto simp: pools_persisted_def)
    then have "s = s'" using that m' by simp
    with s'(2) show "m \<le> Slot s" by simp
  next
    assume "m \<le> Slot s"
    then show "state_key s \<in> state_key ` set (filter (\<lambda>s. Slot s \<ge> m) (map snd pools))"
      using map_of_SomeD [OF that] by force
  qed
  have part: "map_of (filter (\<lambda>(k, s). Slot s < m) pools) i =
      (case map_of pools i of None \<Rightarrow> None | Some s \<Rightarrow> if Slot s < m then Some s else None)" for i
    using map_of_filter_gomap [OF ok, of "\<lambda>k s. Slot s < m" i] .
  show ?thesis
    unfolding pools_persisted_def
  proof (intro conjI allI impI)
    fix i s
    assume "map_of (filter (\<lambda>(k, s). Slot s < m) pools) i = Some s"
    then have s: "map_of pools i = Some s" "Slot s < m" by (auto simp: part split: option.splits if_splits)
    then show "PoolId s = i" "Network s = n" "Protocol s = p" "map_of db' (state_key s) = Some (PoolValue s)"
      using pers look [of "state_key s"] keep [OF s(1)] by (auto simp: pools_persisted_def)
  next
    fix k v
    assume kv: "map_of db' k = Some v \<and> has_prefix poolStateKeyPrefix k"
    then have "map_of db k = Some v" and nk: "k \<notin> state_key ` set (filter (\<lambda>s. Slot s \<ge> m) (map snd pools))"
      using look [of k] by (auto split: if_splits)
    then obtain s where s: "v = PoolValue s" "k = state_key s" "map_of pools (PoolId s) = Some s"
      using pers kv unfolding pools_persisted_def by blast
    moreover have "Slot s < m" using keep [OF s(3)] nk s(2) by (simp add: not_le)
    ultimately show "\<exists>s. v = PoolValue s \<and> k = state_key s \<and> map_of (filter (\<lambda>(k, s). Slot s < m) pools) (PoolId s) = Some s"
      by (intro exI [of _ s]) (simp add: part)
  qed
qed

lemma rollback_latest_min: "rollback_latest n l = min l (if n > 0 then n - 1 else 0)"
proof -
  have "(if x < l then x else l) = min l x" for x by (auto simp: min_def)
  then show ?thesis by (simp only: rollback_latest_def Let_def)
qed

lemma truncated_plain:
  "\<not> has_prefix activityKeyPrefix k \<Longrightarrow> k \<noteq> activityMetaKey \<Longrightarrow> truncated n db k = map_of db k"
  by (simp add: truncated_def split: option.split)

lemma swaps_persisted_rollback:
  assumes pers: "swaps_persisted t db" and ok': "store_ok db'"
    and look: "\<And>k. k = activityMetaKey \<or> has_prefix activityKeyPrefix k \<Longrightarrow> map_of db' k = truncated n db k"
  shows "swaps_persisted (Rollback n t) db'"
proof -
  have dur: "durable t" and ok: "store_ok db" and trk: "tracker_ok t" using pers by (auto simp: swaps_persisted_def durable_def)
  have swaps: "store_swaps db' = {s \<in> store_swaps db. st_Slot s < n}"
    by (auto simp: store_swaps_def look truncated_def split: option.splits if_splits)
  have meta: "store_latest db' = rollback_latest n (store_latest db) \<and> (store_window db' = store_window db)
      \<and> (map_of db' activityMetaKey = None \<longleftrightarrow> map_of db activityMetaKey = None)"
  proof (cases "map_of db activityMetaKey")
    case None
    then have "map_of db' activityMetaKey = None" by (simp add: look truncated_def)
    with None show ?thesis by (auto simp: store_latest_def store_window_def rollback_latest_def)
  next
    case (Some v)
    then obtain m where m: "v = MetaValue m" using store_ok_meta [OF ok] by blast
    then have "map_of db' activityMetaKey = Some (MetaValue (rewound n m))" using Some by (simp add: look truncated_def)
    then show ?thesis using Some m by (simp add: store_latest_def store_window_def rewound_def rollback_latest_min)
  qed
  have "tracker_swaps (Rollback n t) \<subseteq> store_swaps db'"
    using activity_log.rollback_entries [OF trk, of n] pers swaps by (auto simp: swaps_persisted_def)
  moreover have "validateSwapTransition s (store_latest db')" if "s \<in> store_swaps db'" for s
  proof -
    have s: "st_Slot s < n" "validateSwapTransition s (store_latest db)"
      using that swaps pers by (auto simp: swaps_persisted_def)
    then have "st_Slot s \<le> rollback_latest n (store_latest db)"
      by (intro slot_below_rollback_latest) (auto simp: validateSwapTransition_def)
    then show ?thesis using s(2) meta by (auto simp: validateSwapTransition_def)
  qed
  ultimately show ?thesis
    using meta pers ok' Rollback_durable [OF dur, of n] by (auto simp: swaps_persisted_def Rollback_simps)
qed

lemma has_prefix_take: "has_prefix p q \<Longrightarrow> m \<le> length p \<Longrightarrow> take m q = take m p"
  unfolding has_prefix_def by (metis take_take min_absorb1)

lemma prefix_not_cdp:
  assumes "has_prefix poolStateKeyPrefix k \<or> has_prefix activityKeyPrefix k"
  shows "\<not> has_prefix cdpStateKeyPrefix k"
proof
  assume cdp: "has_prefix cdpStateKeyPrefix k"
  then have "take 8 k = ''oracle_c''" using has_prefix_take [of cdpStateKeyPrefix k 8] by (simp add: cdpStateKeyPrefix_def)
  moreover have "take 8 k = ''oracle_p'' \<or> take 8 k = ''oracle_a''"
    using assms has_prefix_take [of poolStateKeyPrefix k 8] has_prefix_take [of activityKeyPrefix k 8]
    by (auto simp: poolStateKeyPrefix_def activityKeyPrefix_def)
  ultimately show False by auto
qed

lemma rollback_persisted:
  assumes pers: "persisted n p o1" and roll: "handleRollback env slot o1 = (None, o2)"
  shows "persisted n p o2"
proof -
  let ?n = "firstRolledBackSlot slot"
  let ?K = "state_key ` set (filter (\<lambda>s. Slot s \<ge> ?n) (map snd (o_pools o1)))"
  obtain t where t: "o_activity o1 = Some t" "windowSlots t = defaultPoolActivityWindowSlots" "swaps_persisted t (o_storage o1)"
    and pools: "pools_persisted n p (o_pools o1) (o_storage o1)" and ok: "oracle_ok o1"
    using pers by (auto simp: persisted_def)
  have ok2: "oracle_ok o2" using handleRollback_ok [OF ok, of env slot] roll by simp
  note look = rollback_success(1) [OF roll ok]
  have "map_of (o_storage o2) k = (if k \<in> ?K then None else map_of (o_storage o1) k)" if "has_prefix poolStateKeyPrefix k" for k
  proof -
    have "k \<noteq> activityMetaKey" using that by auto
    then have "truncated ?n (o_storage o1) k = map_of (o_storage o1) k"
      using pool_prefix_not_activity [OF that] by (rule truncated_plain [rotated])
    then show ?thesis using look [of k] prefix_not_cdp that by simp
  qed
  then have "pools_persisted n p (o_pools o2) (o_storage o2)"
    using pools_persisted_rollback [OF pools, of "o_storage o2" ?n] ok handleRollback_maps(1) [OF ok, of env slot] roll
    by (simp add: oracle_ok_def)
  moreover have "swaps_persisted (Rollback ?n t) (o_storage o2)"
  proof (rule swaps_persisted_rollback [OF t(3)])
    show "store_ok (o_storage o2)" using ok2 by (simp add: oracle_ok_def)
    fix k
    assume k: "k = activityMetaKey \<or> has_prefix activityKeyPrefix k"
    then have "k \<notin> ?K" using pool_prefix_not_activity state_key_other by blast
    then show "map_of (o_storage o2) k = truncated ?n (o_storage o1) k"
      using look [of k] k prefix_not_cdp by auto
  qed
  ultimately show ?thesis
    using ok2 rollback_success(2) [OF roll ok cdp_prefix_other(1)] t by (auto simp: persisted_def Rollback_simps)
qed

section \<open>Restart\<close>

lemma loaded_pools:
  assumes "pools_persisted n p pools db" and "gomap_ok db"
  shows "set (LoadAllPoolStates db) = {s. \<exists>i. map_of pools i = Some s}" and "distinct (map PoolId (LoadAllPoolStates db))"
proof -
  let ?it = "iterate poolStateKeyPrefix db"
  have entry: "\<exists>s. v = PoolValue s \<and> k = state_key s \<and> map_of pools (PoolId s) = Some s" if "(k, v) \<in> set ?it" for k v
    using that assms unfolding pools_persisted_def iterate_def by (auto simp: gomap_ok_mem)
  have it: "List.map_filter (\<lambda>(k, v). unmarshal_pool v) xs = map (\<lambda>(k, v). the (unmarshal_pool v)) xs"
    if "set xs \<subseteq> set ?it" for xs
    using that
  proof (induction xs)
    case (Cons x xs)
    then obtain s where "snd x = PoolValue s" using entry [of "fst x" "snd x"] by auto
    with Cons show ?case by (auto simp: List.map_filter_simps unmarshal_pool_def case_prod_beta)
  qed (simp add: List.map_filter_simps)
  have states: "LoadAllPoolStates db = map (\<lambda>(k, v). the (unmarshal_pool v)) ?it"
    unfolding LoadAllPoolStates_def using it by blast
  have "s \<in> set (LoadAllPoolStates db) \<longleftrightarrow> (\<exists>i. map_of pools i = Some s)" for s
  proof
    assume "s \<in> set (LoadAllPoolStates db)"
    then obtain k v where kv: "(k, v) \<in> set ?it" "s = the (unmarshal_pool v)" by (auto simp: states)
    with entry [OF kv(1)] show "\<exists>i. map_of pools i = Some s" by (auto simp: unmarshal_pool_def)
  next
    assume "\<exists>i. map_of pools i = Some s"
    then have "map_of db (state_key s) = Some (PoolValue s)" using assms(1) unfolding pools_persisted_def by blast
    then have "(state_key s, PoolValue s) \<in> set db" by (rule map_of_SomeD)
    then have "(state_key s, PoolValue s) \<in> set ?it" by (simp add: iterate_def)
    then show "s \<in> set (LoadAllPoolStates db)" by (force simp: states unmarshal_pool_def)
  qed
  then show "set (LoadAllPoolStates db) = {s. \<exists>i. map_of pools i = Some s}" by blast
  have key: "fst x = poolStateKeyPrefix @ n @ '':'' @ p @ '':'' @ PoolId (the (unmarshal_pool (snd x)))" if x: "x \<in> set ?it" for x
  proof -
    obtain s where s: "snd x = PoolValue s" "fst x = state_key s" "map_of pools (PoolId s) = Some s"
      using entry [of "fst x" "snd x"] x by auto
    then have "Network s = n" "Protocol s = p" using assms(1) unfolding pools_persisted_def by blast+
    with s show ?thesis by (simp add: unmarshal_pool_def state_key_def poolStateKey_def)
  qed
  have "inj_on fst (set ?it)" "distinct ?it"
    using iterate_distinct [OF assms(2), of poolStateKeyPrefix] by (auto simp: distinct_map)
  have "inj_on (\<lambda>x. PoolId (the (unmarshal_pool (snd x)))) (set ?it)"
  proof (rule inj_onI)
    fix x y
    assume x: "x \<in> set ?it" and y: "y \<in> set ?it"
      and eq: "PoolId (the (unmarshal_pool (snd x))) = PoolId (the (unmarshal_pool (snd y)))"
    have "fst x = fst y" unfolding key [OF x] key [OF y] eq ..
    then show "x = y" using \<open>inj_on fst (set ?it)\<close> x y by (simp add: inj_on_def)
  qed
  then show "distinct (map PoolId (LoadAllPoolStates db))"
    using \<open>distinct ?it\<close> by (simp add: states distinct_map comp_def case_prod_beta)
qed

lemma loaded_pool_map:
  assumes "pools_persisted n p pools db" and "gomap_ok db"
  shows "map_of (fold (\<lambda>s m. AList.update (PoolId s) s m) (LoadAllPoolStates db) []) i = map_of pools i"
proof -
  note ld = loaded_pools [OF assms]
  have keyed: "PoolId s = i" if "map_of pools i = Some s" for s i using that assms(1) by (auto simp: pools_persisted_def)
  show ?thesis
  proof (cases "map_of pools i")
    case None
    then have "i \<notin> PoolId ` set (LoadAllPoolStates db)" using ld(1) keyed by force
    then show ?thesis using None by (simp add: fold_update_other)
  next
    case (Some s)
    then have "s \<in> set (LoadAllPoolStates db)" using ld(1) by blast
    from fold_update_keyed [OF ld(2) this, of "[]"] show ?thesis using Some keyed [OF Some] by simp
  qed
qed

lemma swap_key_determines: "swap_key a = swap_key b \<Longrightarrow> poolActivityKey a = poolActivityKey b"
  by (simp add: swap_key_def poolActivityKey_def swap_identity_def)

lemma distinct_swap_keys:
  assumes "distinct (map poolActivityKey ss)"
  shows "distinct (map swap_key ss)"
  using assms swap_key_determines unfolding distinct_map inj_on_def by blast

lemma restore_persisted:
  assumes pers: "swaps_persisted t db" and meta: "map_of db activityMetaKey \<noteq> None"
    and u: "tracker_ok u" "windowSlots u = windowSlots t"
    and load: "LoadActivityState db = Inr st"
  shows "fst (Restore st u) = Inr ()" and "latestSlot (snd (Restore st u)) = latestSlot t"
    and "tracker_swaps t \<subseteq> tracker_swaps (snd (Restore st u))"
proof -
  have ok: "store_ok db" and w: "store_window db = windowSlots t" and lat: "store_latest db = latestSlot t"
    and trk: "tracker_ok t" and sub: "tracker_swaps t \<subseteq> store_swaps db"
    using pers meta by (auto simp: swaps_persisted_def durable_def)
  obtain ss where ss: "st = \<lparr>as_WindowSlots = store_window db, as_LatestSlot = store_latest db, as_Swaps = ss\<rparr>"
    "set ss = store_swaps db" "distinct (map poolActivityKey ss)"
    using LoadActivityState_Inr [OF ok] load by auto
  show r: "fst (Restore st u) = Inr ()"
    using pers by (subst Restore_result [OF u(1)])
      (auto simp: ss w u(2) distinct_swap_keys list_all_iff swaps_persisted_def)
  show "latestSlot (snd (Restore st u)) = latestSlot t" using Restore_content(2) [OF r] by (simp add: ss lat)
  show "tracker_swaps t \<subseteq> tracker_swaps (snd (Restore st u))"
  proof
    fix s
    assume s: "s \<in> tracker_swaps t"
    have cut: "cutoff_at (windowSlots t) (latestSlot t) \<le> st_Slot s" using tracker_swaps_window [OF trk s] .
    have lats: "st_Slot s \<le> latestSlot t"
      using sub s pers by (auto simp: swaps_persisted_def validateSwapTransition_def not_less)
    have "s \<in> set ss" using sub s ss(2) by blast
    then have "s \<in> set (swaps_at (swaps (snd (Restore st u))) (swap_pool_key s))"
      using cut lats unfolding Restore_content(3) [OF r]
      by (auto simp: window_swaps_def pool_swaps_def ss(1) u(2) lat cutoff_at_nat)
    then show "s \<in> tracker_swaps (snd (Restore st u))"
      using tracker_swaps_iff [OF Restore_ok [OF u(1)]] by blast
  qed
qed

text \<open>What a new oracle has after loading a store, given the outcome of the restoration.\<close>

lemma load_new:
  assumes "LoadActivityState db = Inr st"
    and "(if as_WindowSlots st \<noteq> 0
          then Restore st \<lparr>windowSlots = defaultPoolActivityWindowSlots, latestSlot = 0, swaps = []\<rparr>
          else (Inr (), \<lparr>windowSlots = defaultPoolActivityWindowSlots, latestSlot = 0, swaps = []\<rparr>)) = (Inr (), t2)"
  obtains o2 where "loadPersistedStates (New addresses db) = (None, o2)" "o_activity o2 = Some t2"
    "o_pools o2 = fold (\<lambda>s m. AList.update (PoolId s) s m) (LoadAllPoolStates db) []"
proof -
  have "o_activity (New addresses db) = Some \<lparr>windowSlots = defaultPoolActivityWindowSlots, latestSlot = 0, swaps = []\<rparr>"
    "o_storage (New addresses db) = db" "o_pools (New addresses db) = []"
    by (simp_all add: New_def NewActivityTracker_def defaultPoolActivityWindowSlots_def)
  then show ?thesis
    using assms by (intro that [of "snd (loadPersistedStates (New addresses db))"]) (simp_all add: loadPersistedStates_def Let_def)
qed

section \<open>Properties\<close>



section \<open>Witnesses\<close>

lemma new_persisted: "persisted ''mainnet'' ''p'' (New [] [])"
  using new_oracle_ok
  by (simp add: persisted_def New_def NewActivityTracker_def defaultPoolActivityWindowSlots_def pools_persisted_def
      swaps_persisted_def durable_def tracker_ok_def store_ok_def store_latest_def tracker_swaps_def store_swaps_def)

definition plain_env :: oracle_env where
  "plain_env = \<lparr>oe_badger = open_badger, oe_ParsePoolDatum = (\<lambda>_ _ _ _ _ _. Inr None), oe_cdpParser = None,
     oe_synthetics = False, oe_network = ''mainnet''\<rparr>"

lemma plain_rollback: "handleRollback plain_env 7 (New [] []) = (None, snd (handleRollback plain_env 7 (New [] [])))"
proof -
  have "fst (RollbackActivity open_badger 8 []) = Inr ()"
    by (rule reliable_rollback) (simp_all add: store_ok_def open_badger_reliable)
  then show ?thesis
    by (cases "RollbackActivity open_badger 8 []")
      (simp add: handleRollback_def New_def plain_env_def firstRolledBackSlot_def MaxUint64_def)
qed



end
