(* ===== verification/Reserves.thy ===== *)
theory Reserves
  imports Cbor Pool "HOL-Library.Monad_Syntax"
begin

text \<open>
  What the pool parsers of \<open>dex/*/parser.go\<close> share: the value of a transaction output, the lookup of
  an asset amount in it, the state they return and the interface \<open>PoolParser\<close> of \<open>dex/models.go\<close> as
  a locale.

  The ledger library (\<open>ledger.NewTransactionOutputFromCbor\<close>) is a parameter: a function from the CBOR
  of an output to its value. A value is the amount of lovelace and, when there are native assets, a
  map from policies to maps from names to amounts; the amounts are \<open>big.Int\<close> values. The order of
  the association lists is the order in which \<open>Policies\<close> and \<open>Assets\<close> list their keys.
\<close>

section \<open>Data\<close>

type_synonym multi_asset = "(bytes, (bytes, int) gomap) gomap"

record utxo_value =
  uv_Amount :: int
  uv_Assets :: "multi_asset option"

type_synonym output_decoder = "bytes \<Rightarrow> utxo_value option"

datatype amount_error =
    MalformedAsset bytes
  | NoNativeAssets bytes
  | PolicyIdLength nat
  | AssetNotFound bytes bytes

text \<open>
  The errors of all parsers. \<open>DivideByZeroPanic\<close> is Go's run-time panic on an integer division by
  zero.
\<close>

datatype parse_error =
    DatumDecodeError
  | OutputDecodeError
  | ReserveAError amount_error
  | ReserveBError amount_error
  | FeeOverflow u64 u64
  | FeeExceeds u64 u64
  | ZeroFeeDenominators u64 u64
  | DivideByZeroPanic
  | IdentifierLength nat
  | UnsupportedVersion nat
  | ValueDecodeError
  | NoAda
  | ZeroAssetAmount string
  | NoNFT
  | MultipleNFTs nat
  | NoToken
  | MultipleTokens nat
  | AssetIdTooShort string
  | PolicyHexError
  | NameHexError

text \<open>The \<open>PoolState\<close> of a parser package: the fields of \<open>dex.PoolState\<close> that a datum determines.\<close>

record parsed_pool =
  pp_PoolId :: string
  pp_Protocol :: string
  pp_AssetX :: AssetAmount
  pp_AssetY :: AssetAmount
  pp_FeeNum :: u64
  pp_FeeDenom :: u64
  pp_Slot :: u64
  pp_TxHash :: string
  pp_TxIndex :: u32
  pp_Timestamp :: time

text \<open>The conversion at the end of each wrapper in \<open>dex/\<close>: the other fields keep their zero values.\<close>

definition to_pool_state :: "('a) parsed_pool_scheme \<Rightarrow> PoolState" where
  "to_pool_state s = \<lparr>PoolId = pp_PoolId s, Network = [], Protocol = pp_Protocol s, AssetX = pp_AssetX s,
     AssetY = pp_AssetY s, FeeNum = pp_FeeNum s, FeeDenom = pp_FeeDenom s, Slot = pp_Slot s, BlockHash = [],
     TxHash = pp_TxHash s, TxIndex = pp_TxIndex s, Timestamp = pp_Timestamp s, UpdatedAt = 0, FromMempool = False\<rparr>"

section \<open>Decoding structures\<close>

text \<open>
  A structure decoded from a CBOR array takes exactly as many items as it has fields, and each field
  is decoded from its own item.
\<close>

definition dec_struct :: "cbor_lib \<Rightarrow> nat \<Rightarrow> bytes \<Rightarrow> bytes list option" where
  "dec_struct cb n raw =
     (case dec_list cb raw of
        None \<Rightarrow> None
      | Some flds \<Rightarrow> if length flds = n then Some flds else None)"

fun dec_each :: "('a \<Rightarrow> 'b option) \<Rightarrow> 'a list \<Rightarrow> 'b list option" where
  "dec_each f [] = Some []"
| "dec_each f (x # xs) = do { y \<leftarrow> f x; ys \<leftarrow> dec_each f xs; Some (y # ys) }"

text \<open>A policy id and a name, as every package lays out an asset class.\<close>

definition dec_class :: "cbor_lib \<Rightarrow> bytes \<Rightarrow> AssetClass option" where
  "dec_class cb raw = do {
     flds \<leftarrow> dec_struct cb 2 raw;
     p \<leftarrow> dec_bytes cb (flds ! 0);
     n \<leftarrow> dec_bytes cb (flds ! 1);
     Some \<lparr>PolicyId = p, Name = n\<rparr> }"

section \<open>Amounts\<close>

text \<open>\<open>big.Int.Uint64\<close>: the low 64 bits of the absolute value.\<close>

definition big_Uint64 :: "int \<Rightarrow> u64" where
  "big_Uint64 x = word_of_int \<bar>x\<bar>"

definition Policies :: "multi_asset \<Rightarrow> bytes list" where
  "Policies assets = map fst assets"

definition Assets_of :: "multi_asset \<Rightarrow> bytes \<Rightarrow> bytes list" where
  "Assets_of assets policy = (case map_of assets policy of None \<Rightarrow> [] | Some names \<Rightarrow> map fst names)"

definition Asset_of :: "multi_asset \<Rightarrow> bytes \<Rightarrow> bytes \<Rightarrow> int" where
  "Asset_of assets policy name =
     (case Option.bind (map_of assets policy) (\<lambda>names. map_of names name) of None \<Rightarrow> 0 | Some q \<Rightarrow> q)"

text \<open>The two nested loops of \<open>getAssetAmount\<close>.\<close>

fun name_loop :: "multi_asset \<Rightarrow> bytes \<Rightarrow> bytes \<Rightarrow> bytes list \<Rightarrow> u64 option" where
  "name_loop assets policy assetName [] = None"
| "name_loop assets policy assetName (name # names) =
     (if name = assetName then Some (big_Uint64 (Asset_of assets policy name))
      else name_loop assets policy assetName names)"

fun policy_loop :: "multi_asset \<Rightarrow> bytes \<Rightarrow> bytes \<Rightarrow> bytes list \<Rightarrow> u64 option" where
  "policy_loop assets policyHash assetName [] = None"
| "policy_loop assets policyHash assetName (policy # policies) =
     (if policy \<noteq> policyHash then policy_loop assets policyHash assetName policies
      else case name_loop assets policy assetName (Assets_of assets policy) of
        Some q \<Rightarrow> Some q
      | None \<Rightarrow> policy_loop assets policyHash assetName policies)"

definition getAssetAmount :: "utxo_value \<Rightarrow> bytes \<Rightarrow> bytes \<Rightarrow> amount_error + u64" where
  "getAssetAmount txOut policyId assetName =
     (if length policyId = 0 then
        (if length assetName \<noteq> 0 then Inl (MalformedAsset assetName)
         else Inr (big_Uint64 (uv_Amount txOut)))
      else case uv_Assets txOut of
        None \<Rightarrow> Inl (NoNativeAssets policyId)
      | Some assets \<Rightarrow>
          if length policyId \<noteq> 28 then Inl (PolicyIdLength (length policyId))
          else case policy_loop assets policyId assetName (Policies assets) of
            Some q \<Rightarrow> Inr q
          | None \<Rightarrow> Inl (AssetNotFound policyId assetName))"

text \<open>\<open>extractReservesFromValue\<close>, the same in the four packages that read reserves from the output.\<close>

definition extractReservesFromValue ::
  "output_decoder \<Rightarrow> bytes \<Rightarrow> AssetClass \<Rightarrow> AssetClass \<Rightarrow> parse_error + u64 \<times> u64" where
  "extractReservesFromValue out utxoValue assetA assetB =
     (case out utxoValue of
        None \<Rightarrow> Inl OutputDecodeError
      | Some txOut \<Rightarrow>
          (case getAssetAmount txOut (PolicyId assetA) (Name assetA) of
             Inl e \<Rightarrow> Inl (ReserveAError e)
           | Inr reserveA \<Rightarrow>
               (case getAssetAmount txOut (PolicyId assetB) (Name assetB) of
                  Inl e \<Rightarrow> Inl (ReserveBError e)
                | Inr reserveB \<Rightarrow> Inr (reserveA, reserveB))))"

section \<open>Lemmas\<close>

lemma dec_struct_length: "dec_struct cb n raw = Some flds \<Longrightarrow> length flds = n"
  by (auto simp: dec_struct_def split: option.splits if_splits)

text \<open>The amount of an asset in a value: the lookup that the loops of the parsers amount to.\<close>

definition held :: "utxo_value \<Rightarrow> AssetClass \<Rightarrow> int option" where
  "held v c =
     (if c = Lovelace then Some (uv_Amount v)
      else Option.bind (uv_Assets v) (\<lambda>m. Option.bind (map_of m (PolicyId c)) (\<lambda>names. map_of names (Name c))))"

lemma name_loop_iff:
  "name_loop assets policy n names = (if n \<in> set names then Some (big_Uint64 (Asset_of assets policy n)) else None)"
  by (induction names) auto

lemma policy_loop_eq:
  "policy_loop assets p n ps =
     (if p \<in> set ps \<and> n \<in> set (Assets_of assets p) then Some (big_Uint64 (Asset_of assets p n)) else None)"
  by (induction ps) (auto simp: name_loop_iff)

lemma policy_loop_lookup:
  "policy_loop assets p n (Policies assets) =
     map_option big_Uint64 (Option.bind (map_of assets p) (\<lambda>names. map_of names n))"
proof (cases "map_of assets p")
  case None
  then show ?thesis by (simp add: policy_loop_eq Assets_of_def)
next
  case (Some names)
  then have "(p, names) \<in> set assets" by (rule map_of_SomeD)
  then have "p \<in> set (Policies assets)" by (force simp: Policies_def)
  moreover have "n \<in> fst ` set names \<longleftrightarrow> map_of names n \<noteq> None"
    by (simp add: map_of_eq_None_iff)
  ultimately show ?thesis
    using Some by (cases "map_of names n") (simp_all add: policy_loop_eq Assets_of_def Asset_of_def)
qed

lemma getAssetAmount_Inr_iff:
  "getAssetAmount v (PolicyId c) (Name c) = Inr q \<longleftrightarrow>
     (c = Lovelace \<or> length (PolicyId c) = 28) \<and> map_option big_Uint64 (held v c) = Some q"
proof (cases "length (PolicyId c) = 0")
  case True
  then have "c = Lovelace \<longleftrightarrow> Name c = []"
    by (cases c) (simp add: Lovelace_def)
  then show ?thesis
    using True by (auto simp: getAssetAmount_def held_def)
next
  case False
  then have ne: "c \<noteq> Lovelace" by (auto simp: Lovelace_def)
  show ?thesis
  proof (cases "uv_Assets v")
    case None
    then show ?thesis using False ne by (simp add: getAssetAmount_def held_def)
  next
    case (Some m)
    then have "map_option big_Uint64 (held v c) = policy_loop m (PolicyId c) (Name c) (Policies m)"
      using ne by (simp add: held_def policy_loop_lookup)
    then show ?thesis
      using False ne Some by (auto simp: getAssetAmount_def split: option.splits)
  qed
qed

lemma extractReserves_Inr_iff:
  "extractReservesFromValue out raw a b = Inr (x, y) \<longleftrightarrow>
     (\<exists>v. out raw = Some v \<and> getAssetAmount v (PolicyId a) (Name a) = Inr x
        \<and> getAssetAmount v (PolicyId b) (Name b) = Inr y)"
  by (auto simp: extractReservesFromValue_def split: option.splits sum.splits)

text \<open>The text \<open>policy.name\<close> of an asset in a pool identifier splits in one way.\<close>

definition class_text :: "AssetClass \<Rightarrow> string" where
  "class_text c = hex_encode (PolicyId c) @ ''.'' @ hex_encode (Name c)"

lemma class_text_inj [simp]: "class_text a = class_text b \<longleftrightarrow> a = b"
  using append_sep_inject [of "hex_encode (PolicyId a)" "CHR ''.''" "hex_encode (Name a)" "hex_encode (PolicyId b)" "hex_encode (Name b)"]
  by (auto simp: class_text_def hex_encode_no_sep dot_not_hex)

lemma sep_not_class: "\<not> is_hex c \<Longrightarrow> c \<noteq> CHR ''.'' \<Longrightarrow> c \<notin> set (class_text a)"
  by (simp add: class_text_def hex_encode_no_sep)

section \<open>The parser interface\<close>

text \<open>
  \<open>PoolParser\<close> as the oracle relies on it: a parsed state carries the coordinates it was given, the
  parser's protocol and a usable fee. The state can then be quoted, with no error of the fee.
\<close>

type_synonym 'e pool_parse = "bytes \<Rightarrow> bytes \<Rightarrow> string \<Rightarrow> u32 \<Rightarrow> u64 \<Rightarrow> time \<Rightarrow> 'e + PoolState"

locale pool_parser =
  fixes parse :: "'e pool_parse" and protocol :: string
  assumes parse_coordinates:
    "parse d v h i s t = Inr p \<Longrightarrow> TxHash p = h \<and> TxIndex p = i \<and> Slot p = s \<and> Timestamp p = t"
  and parse_protocol: "parse d v h i s t = Inr p \<Longrightarrow> Protocol p = protocol \<and> Network p = [] \<and> \<not> FromMempool p"
  and parse_fee: "parse d v h i s t = Inr p \<Longrightarrow> 0 < FeeDenom p \<and> FeeNum p \<le> FeeDenom p"
begin

lemma parsed_quote:
  assumes "parse d v h i s t = Inr p" and "Amount (AssetX p) \<noteq> 0" and "Amount (AssetY p) \<noteq> 0"
    and "quote_reserves p pol nm \<noteq> None"
  shows "\<exists>r. Quote p pol nm amountIn = Inr r"
proof -
  obtain rIn rOut where r: "quote_reserves p pol nm = Some (rIn, rOut)" using assms(4) by auto
  then have "rIn \<noteq> 0" "rOut \<noteq> 0"
    using quote_reserves_swap [OF r] assms(2,3) by (auto simp: doubleton_eq_iff)
  then show ?thesis
    using r parse_fee [OF assms(1)] Quote_Inr_iff [of p pol nm amountIn] by auto
qed

end

end
