(* ===== verification/Minswap.thy ===== *)
theory Minswap
  imports Reserves
begin

text \<open>
  Minswap V1 and V2 pools (\<open>dex/minswap/models.go\<close>, \<open>parser.go\<close>): the datum structures with their
  decoders and the two parsers. V1 takes the reserves from the output and has a fixed fee; V2 has
  the reserves in the datum and averages its two fees.
\<close>

section \<open>Data\<close>

record minswap_Credential =
  mc_Type :: nat
  mc_Hash :: bytes

record BaseFee =
  FeeANumerator :: u64
  FeeBNumerator :: u64

record FeeSharing =
  fs_IsPresent :: bool
  FeeTo :: bytes
  FeeToDatumHash :: bytes

record OptionalUint64 =
  ou_IsPresent :: bool
  ou_Value :: u64

record minswap_V1PoolDatum =
  m1_AssetA :: AssetClass
  m1_AssetB :: AssetClass
  m1_TotalLiquidity :: u64
  m1_RootKLast :: u64
  m1_FeeSharing :: FeeSharing

record minswap_V2PoolDatum =
  m2_StakeCredential :: minswap_Credential
  m2_AssetA :: AssetClass
  m2_AssetB :: AssetClass
  m2_TotalLiquidity :: u64
  m2_ReserveA :: u64
  m2_ReserveB :: u64
  m2_BaseFee :: BaseFee
  m2_FeeSharingNumerator :: OptionalUint64
  m2_AllowDynamicFee :: bool

definition minswap_ProtocolName :: string where
  "minswap_ProtocolName = ''minswap''"

definition minswap_FeeDenom :: u64 where
  "minswap_FeeDenom = 10000"

section \<open>Decoders\<close>

text \<open>The \<open>UnmarshalCBOR\<close> methods. \<open>Asset\<close> and \<open>BaseFee\<close> do not look at the constructor.\<close>

definition decode_minswap_Asset :: "cbor_lib \<Rightarrow> bytes \<Rightarrow> AssetClass option" where
  "decode_minswap_Asset cb data = do { (tag, flds) \<leftarrow> dec_constr cb data; dec_class cb flds }"

definition decode_minswap_Bool :: "cbor_lib \<Rightarrow> bytes \<Rightarrow> bool option" where
  "decode_minswap_Bool cb data = do {
     (tag, flds) \<leftarrow> dec_constr cb data;
     if tag = 0 then Some False else if tag = 1 then Some True else None }"

definition decode_minswap_Credential :: "cbor_lib \<Rightarrow> bytes \<Rightarrow> minswap_Credential option" where
  "decode_minswap_Credential cb data = do {
     (constr, raw) \<leftarrow> dec_constr cb data;
     if constr \<noteq> 0 \<and> constr \<noteq> 1 then None
     else do {
       flds \<leftarrow> dec_struct cb 1 raw;
       h \<leftarrow> dec_bytes cb (flds ! 0);
       Some \<lparr>mc_Type = constr, mc_Hash = h\<rparr> } }"

definition decode_BaseFee :: "cbor_lib \<Rightarrow> bytes \<Rightarrow> BaseFee option" where
  "decode_BaseFee cb data = do {
     (tag, raw) \<leftarrow> dec_constr cb data;
     flds \<leftarrow> dec_struct cb 2 raw;
     a \<leftarrow> dec_uint cb (flds ! 0);
     b \<leftarrow> dec_uint cb (flds ! 1);
     Some \<lparr>FeeANumerator = a, FeeBNumerator = b\<rparr> }"

definition decode_FeeSharing :: "cbor_lib \<Rightarrow> bytes \<Rightarrow> FeeSharing option" where
  "decode_FeeSharing cb data = do {
     (tag, raw) \<leftarrow> dec_constr cb data;
     if tag = 1 then Some \<lparr>fs_IsPresent = False, FeeTo = [], FeeToDatumHash = []\<rparr>
     else if tag = 0 then do {
       flds \<leftarrow> dec_struct cb 2 raw;
       a \<leftarrow> dec_bytes cb (flds ! 0);
       b \<leftarrow> dec_bytes cb (flds ! 1);
       Some \<lparr>fs_IsPresent = True, FeeTo = a, FeeToDatumHash = b\<rparr> }
     else None }"

definition decode_OptionalUint64 :: "cbor_lib \<Rightarrow> bytes \<Rightarrow> OptionalUint64 option" where
  "decode_OptionalUint64 cb data = do {
     (tag, raw) \<leftarrow> dec_constr cb data;
     if tag = 0 then do {
       flds \<leftarrow> dec_struct cb 1 raw;
       v \<leftarrow> dec_uint cb (flds ! 0);
       Some \<lparr>ou_IsPresent = True, ou_Value = v\<rparr> }
     else if tag = 1 then Some \<lparr>ou_IsPresent = False, ou_Value = 0\<rparr>
     else None }"

definition decode_minswap_V1PoolDatum :: "cbor_lib \<Rightarrow> bytes \<Rightarrow> minswap_V1PoolDatum option" where
  "decode_minswap_V1PoolDatum cb data = do {
     (tag, raw) \<leftarrow> dec_constr cb data;
     if tag \<noteq> 0 then None
     else do {
       flds \<leftarrow> dec_struct cb 5 raw;
       a \<leftarrow> decode_minswap_Asset cb (flds ! 0);
       b \<leftarrow> decode_minswap_Asset cb (flds ! 1);
       liq \<leftarrow> dec_uint cb (flds ! 2);
       k \<leftarrow> dec_uint cb (flds ! 3);
       fs \<leftarrow> decode_FeeSharing cb (flds ! 4);
       Some \<lparr>m1_AssetA = a, m1_AssetB = b, m1_TotalLiquidity = liq, m1_RootKLast = k, m1_FeeSharing = fs\<rparr> } }"

definition decode_minswap_V2PoolDatum :: "cbor_lib \<Rightarrow> bytes \<Rightarrow> minswap_V2PoolDatum option" where
  "decode_minswap_V2PoolDatum cb data = do {
     (tag, raw) \<leftarrow> dec_constr cb data;
     if tag \<noteq> 0 then None
     else do {
       flds \<leftarrow> dec_struct cb 9 raw;
       cred \<leftarrow> decode_minswap_Credential cb (flds ! 0);
       a \<leftarrow> decode_minswap_Asset cb (flds ! 1);
       b \<leftarrow> decode_minswap_Asset cb (flds ! 2);
       liq \<leftarrow> dec_uint cb (flds ! 3);
       ra \<leftarrow> dec_uint cb (flds ! 4);
       rb \<leftarrow> dec_uint cb (flds ! 5);
       fee \<leftarrow> decode_BaseFee cb (flds ! 6);
       fs \<leftarrow> decode_OptionalUint64 cb (flds ! 7);
       dyn \<leftarrow> decode_minswap_Bool cb (flds ! 8);
       Some \<lparr>m2_StakeCredential = cred, m2_AssetA = a, m2_AssetB = b, m2_TotalLiquidity = liq,
         m2_ReserveA = ra, m2_ReserveB = rb, m2_BaseFee = fee, m2_FeeSharingNumerator = fs,
         m2_AllowDynamicFee = dyn\<rparr> } }"

section \<open>Parsers\<close>

datatype minswap_version = MinswapV1 | MinswapV2

definition minswap_Protocol :: "minswap_version \<Rightarrow> string" where
  "minswap_Protocol ver =
     (if ver = MinswapV1 then minswap_ProtocolName @ ''-v1'' else minswap_ProtocolName @ ''-v2'')"

definition minswap_GeneratePoolId :: "bytes \<Rightarrow> bytes \<Rightarrow> bytes \<Rightarrow> bytes \<Rightarrow> string" where
  "minswap_GeneratePoolId policyA nameA policyB nameB =
     ''minswap_'' @ hex_encode policyA @ ''.'' @ hex_encode nameA @ ''_'' @ hex_encode policyB @ ''.'' @ hex_encode nameB"

definition minswap_parseV1Datum ::
  "cbor_lib \<Rightarrow> output_decoder \<Rightarrow> bytes \<Rightarrow> bytes \<Rightarrow> string \<Rightarrow> u32 \<Rightarrow> u64 \<Rightarrow> time \<Rightarrow> parse_error + parsed_pool" where
  "minswap_parseV1Datum cb out datum utxoValue txHash txIndex slot timestamp =
     (case decode_minswap_V1PoolDatum cb datum of
        None \<Rightarrow> Inl DatumDecodeError
      | Some d \<Rightarrow>
          (let poolId = minswap_GeneratePoolId (PolicyId (m1_AssetA d)) (Name (m1_AssetA d))
                 (PolicyId (m1_AssetB d)) (Name (m1_AssetB d))
           in case extractReservesFromValue out utxoValue (m1_AssetA d) (m1_AssetB d) of
                Inl e \<Rightarrow> Inl e
              | Inr (reserveA, reserveB) \<Rightarrow> Inr
                  \<lparr>pp_PoolId = poolId, pp_Protocol = minswap_Protocol MinswapV1,
                   pp_AssetX = \<lparr>Class = m1_AssetA d, Amount = reserveA\<rparr>,
                   pp_AssetY = \<lparr>Class = m1_AssetB d, Amount = reserveB\<rparr>,
                   pp_FeeNum = 9970, pp_FeeDenom = minswap_FeeDenom, pp_Slot = slot, pp_TxHash = txHash,
                   pp_TxIndex = txIndex, pp_Timestamp = timestamp\<rparr>))"

definition minswap_parseV2Datum ::
  "cbor_lib \<Rightarrow> bytes \<Rightarrow> string \<Rightarrow> u32 \<Rightarrow> u64 \<Rightarrow> time \<Rightarrow> parse_error + parsed_pool" where
  "minswap_parseV2Datum cb datum txHash txIndex slot timestamp =
     (case decode_minswap_V2PoolDatum cb datum of
        None \<Rightarrow> Inl DatumDecodeError
      | Some d \<Rightarrow>
          (let poolId = minswap_GeneratePoolId (PolicyId (m2_AssetA d)) (Name (m2_AssetA d))
                 (PolicyId (m2_AssetB d)) (Name (m2_AssetB d));
               feeA = FeeANumerator (m2_BaseFee d);
               feeB = FeeBNumerator (m2_BaseFee d)
           in if feeA > MaxUint64 - feeB then Inl (FeeOverflow feeA feeB)
              else let avgFee = (feeA + feeB) div 2
                   in if avgFee > minswap_FeeDenom then Inl (FeeExceeds avgFee minswap_FeeDenom)
                      else Inr
                        \<lparr>pp_PoolId = poolId, pp_Protocol = minswap_Protocol MinswapV2,
                         pp_AssetX = \<lparr>Class = m2_AssetA d, Amount = m2_ReserveA d\<rparr>,
                         pp_AssetY = \<lparr>Class = m2_AssetB d, Amount = m2_ReserveB d\<rparr>,
                         pp_FeeNum = minswap_FeeDenom - avgFee, pp_FeeDenom = minswap_FeeDenom, pp_Slot = slot,
                         pp_TxHash = txHash, pp_TxIndex = txIndex, pp_Timestamp = timestamp\<rparr>))"

definition minswap_ParsePoolDatum ::
  "cbor_lib \<Rightarrow> output_decoder \<Rightarrow> minswap_version \<Rightarrow> bytes \<Rightarrow> bytes \<Rightarrow> string \<Rightarrow> u32 \<Rightarrow> u64 \<Rightarrow> time \<Rightarrow> parse_error + parsed_pool" where
  "minswap_ParsePoolDatum cb out ver datum utxoValue txHash txIndex slot timestamp =
     (if ver = MinswapV1 then minswap_parseV1Datum cb out datum utxoValue txHash txIndex slot timestamp
      else minswap_parseV2Datum cb datum txHash txIndex slot timestamp)"

text \<open>The wrapper \<open>MinswapParser.ParsePoolDatum\<close> of \<open>dex/minswap.go\<close>.\<close>

definition MinswapParser_ParsePoolDatum ::
  "cbor_lib \<Rightarrow> output_decoder \<Rightarrow> minswap_version \<Rightarrow> parse_error pool_parse" where
  "MinswapParser_ParsePoolDatum cb out ver datum utxoValue txHash txIndex slot timestamp =
     (case minswap_ParsePoolDatum cb out ver datum utxoValue txHash txIndex slot timestamp of
        Inl e \<Rightarrow> Inl e
      | Inr state \<Rightarrow> Inr (to_pool_state state))"

section \<open>Lemmas\<close>

lemma minswap_V2_fee:
  assumes "\<not> feeA > MaxUint64 - feeB" and "\<not> (feeA + feeB) div 2 > minswap_FeeDenom"
  shows "unat (minswap_FeeDenom - (feeA + feeB) div 2) = 10000 - (unat feeA + unat feeB) div 2"
    and "(unat feeA + unat feeB) div 2 \<le> 10000"
proof -
  have "unat feeB + unat feeA < 2 ^ 64"
    using assms(1) by (simp only: max_u64_sub_less not_le)
  then have h: "unat ((feeA + feeB) div 2) = (unat feeA + unat feeB) div 2"
    using unat_u64_add [of feeA feeB] by (simp only: unat_div unat_u64_2 add.commute)
  have "unat ((feeA + feeB) div 2) \<le> 10000"
    using assms(2) by (simp add: not_less word_le_nat_alt minswap_FeeDenom_def)
  then show "(unat feeA + unat feeB) div 2 \<le> 10000" using h by simp
  show "unat (minswap_FeeDenom - (feeA + feeB) div 2) = 10000 - (unat feeA + unat feeB) div 2"
    using assms(2) h by (simp add: not_less unat_sub minswap_FeeDenom_def)
qed

lemma minswap_wrap_iff:
  "MinswapParser_ParsePoolDatum cb out ver d v h i s t = Inr p \<longleftrightarrow>
     (\<exists>q. minswap_ParsePoolDatum cb out ver d v h i s t = Inr q \<and> p = to_pool_state q)"
  by (auto simp: MinswapParser_ParsePoolDatum_def split: sum.splits)

lemma minswap_parse_ok:
  assumes "minswap_ParsePoolDatum cb out ver d v h i s t = Inr q"
  shows "pp_TxHash q = h \<and> pp_TxIndex q = i \<and> pp_Slot q = s \<and> pp_Timestamp q = t"
    and "pp_Protocol q = minswap_Protocol ver" and "0 < pp_FeeDenom q \<and> pp_FeeNum q \<le> pp_FeeDenom q"
  using assms
  by (cases ver; auto simp: minswap_ParsePoolDatum_def minswap_parseV1Datum_def minswap_parseV2Datum_def
      Let_def minswap_FeeDenom_def not_less word_le_nat_alt unat_sub split: option.splits sum.splits if_splits)+

interpretation minswap: pool_parser "MinswapParser_ParsePoolDatum cb out ver" "minswap_Protocol ver"
  by unfold_locales (auto simp: minswap_wrap_iff to_pool_state_def dest: minswap_parse_ok)

end
