(* ===== verification/Sundaeswap.thy ===== *)
theory Sundaeswap
  imports Reserves
begin

text \<open>
  SundaeSwap V1 and V3 pools (\<open>dex/sundaeswap/models.go\<close>, \<open>parser.go\<close>). Both versions take the
  reserves from the output. The V3 fee is the mean of two fractions, computed in 64-bit words; where
  the source divides by a word that wrapped to zero, the model has the value \<open>DivideByZeroPanic\<close>.
\<close>

section \<open>Data\<close>

record sundae_V1PoolDatum =
  s1_Ident :: bytes
  s1_AssetA :: AssetClass
  s1_AssetB :: AssetClass
  s1_CirculatingLp :: u64
  s1_FeeNumerator :: u64

record Fees =
  Numerator :: u64
  Denominator :: u64

record MultisigScript =
  ms_Constructor :: nat
  ms_Signature :: bytes
  ms_RawCbor :: bytes

record OptionalMultisigScript =
  om_IsPresent :: bool
  om_Value :: MultisigScript

record sundae_V3PoolDatum =
  s3_Identifier :: bytes
  s3_Assets :: "AssetClass \<times> AssetClass"
  s3_CirculatingLp :: u64
  s3_BidFeesPer10Thousand :: Fees
  s3_AskFeesPer10Thousand :: Fees
  s3_FeeManager :: OptionalMultisigScript
  s3_MarketOpen :: u64
  s3_FeeFinalized :: u64
  s3_ProtocolFees :: u64

definition sundae_ProtocolName :: string where
  "sundae_ProtocolName = ''sundaeswap''"

definition sundae_FeeDenom :: u64 where
  "sundae_FeeDenom = 10000"

definition V1DefaultFee :: u64 where
  "V1DefaultFee = 30"

definition V1PoolIdentLength :: nat where
  "V1PoolIdentLength = 28"

section \<open>Decoders\<close>

definition decode_V1AssetClass :: "cbor_lib \<Rightarrow> bytes \<Rightarrow> AssetClass option" where
  "decode_V1AssetClass cb data = do {
     (tag, raw) \<leftarrow> dec_constr cb data;
     if tag \<noteq> 0 then None else dec_class cb raw }"

definition decode_sundae_V1PoolDatum :: "cbor_lib \<Rightarrow> bytes \<Rightarrow> sundae_V1PoolDatum option" where
  "decode_sundae_V1PoolDatum cb data = do {
     (tag, raw) \<leftarrow> dec_constr cb data;
     if tag \<noteq> 0 then None
     else do {
       flds \<leftarrow> dec_struct cb 5 raw;
       ident \<leftarrow> dec_bytes cb (flds ! 0);
       a \<leftarrow> decode_V1AssetClass cb (flds ! 1);
       b \<leftarrow> decode_V1AssetClass cb (flds ! 2);
       lp \<leftarrow> dec_uint cb (flds ! 3);
       fee \<leftarrow> dec_uint cb (flds ! 4);
       Some \<lparr>s1_Ident = ident, s1_AssetA = a, s1_AssetB = b, s1_CirculatingLp = lp, s1_FeeNumerator = fee\<rparr> } }"

definition GetPoolIdent :: "sundae_V1PoolDatum \<Rightarrow> string" where
  "GetPoolIdent d = hex_encode (s1_Ident d)"

definition decode_sundae_AssetClass :: "cbor_lib \<Rightarrow> bytes \<Rightarrow> AssetClass option" where
  "decode_sundae_AssetClass cb data = dec_class cb data"

definition decode_sundae_Assets :: "cbor_lib \<Rightarrow> bytes \<Rightarrow> (AssetClass \<times> AssetClass) option" where
  "decode_sundae_Assets cb data = do {
     flds \<leftarrow> dec_struct cb 2 data;
     a \<leftarrow> decode_sundae_AssetClass cb (flds ! 0);
     b \<leftarrow> decode_sundae_AssetClass cb (flds ! 1);
     Some (a, b) }"

definition decode_Fees :: "cbor_lib \<Rightarrow> bytes \<Rightarrow> Fees option" where
  "decode_Fees cb data = do {
     flds \<leftarrow> dec_struct cb 2 data;
     n \<leftarrow> dec_uint cb (flds ! 0);
     d \<leftarrow> dec_uint cb (flds ! 1);
     Some \<lparr>Numerator = n, Denominator = d\<rparr> }"

definition decode_MultisigScript :: "cbor_lib \<Rightarrow> bytes \<Rightarrow> MultisigScript option" where
  "decode_MultisigScript cb data = do {
     (tag, raw) \<leftarrow> dec_constr cb data;
     if tag = 0 then do {
       flds \<leftarrow> dec_struct cb 1 raw;
       h \<leftarrow> dec_bytes cb (flds ! 0);
       Some \<lparr>ms_Constructor = tag, ms_Signature = h, ms_RawCbor = data\<rparr> }
     else if tag \<le> 5 then Some \<lparr>ms_Constructor = tag, ms_Signature = [], ms_RawCbor = data\<rparr>
     else None }"

definition decode_OptionalMultisigScript :: "cbor_lib \<Rightarrow> bytes \<Rightarrow> OptionalMultisigScript option" where
  "decode_OptionalMultisigScript cb data = do {
     (tag, raw) \<leftarrow> dec_constr cb data;
     if tag = 0 then do {
       flds \<leftarrow> dec_struct cb 1 raw;
       script \<leftarrow> decode_MultisigScript cb (flds ! 0);
       Some \<lparr>om_IsPresent = True, om_Value = script\<rparr> }
     else if tag = 1 then
       Some \<lparr>om_IsPresent = False, om_Value = \<lparr>ms_Constructor = 0, ms_Signature = [], ms_RawCbor = []\<rparr>\<rparr>
     else None }"

definition decode_sundae_V3PoolDatum :: "cbor_lib \<Rightarrow> bytes \<Rightarrow> sundae_V3PoolDatum option" where
  "decode_sundae_V3PoolDatum cb data = do {
     flds \<leftarrow> dec_struct cb 9 data;
     ident \<leftarrow> dec_bytes cb (flds ! 0);
     assets \<leftarrow> decode_sundae_Assets cb (flds ! 1);
     lp \<leftarrow> dec_uint cb (flds ! 2);
     bid \<leftarrow> decode_Fees cb (flds ! 3);
     ask \<leftarrow> decode_Fees cb (flds ! 4);
     mgr \<leftarrow> decode_OptionalMultisigScript cb (flds ! 5);
     mkt \<leftarrow> dec_uint cb (flds ! 6);
     fin \<leftarrow> dec_uint cb (flds ! 7);
     prot \<leftarrow> dec_uint cb (flds ! 8);
     Some \<lparr>s3_Identifier = ident, s3_Assets = assets, s3_CirculatingLp = lp, s3_BidFeesPer10Thousand = bid,
       s3_AskFeesPer10Thousand = ask, s3_FeeManager = mgr, s3_MarketOpen = mkt, s3_FeeFinalized = fin,
       s3_ProtocolFees = prot\<rparr> }"

section \<open>Parsers\<close>

definition sundae_Protocol :: "nat \<Rightarrow> string" where
  "sundae_Protocol version = sundae_ProtocolName @ ''-v'' @ show_nat version"

definition GeneratePoolIdentId :: "bytes \<Rightarrow> parse_error + string" where
  "GeneratePoolIdentId identifier =
     (if length identifier \<noteq> V1PoolIdentLength then Inl (IdentifierLength (length identifier))
      else Inr (''sundaeswap_'' @ hex_encode identifier))"

definition sundae_GeneratePoolId :: "bytes \<Rightarrow> bytes \<Rightarrow> bytes \<Rightarrow> bytes \<Rightarrow> string" where
  "sundae_GeneratePoolId policyA nameA policyB nameB =
     ''sundaeswap_'' @ hex_encode policyA @ ''.'' @ hex_encode nameA @ ''_'' @ hex_encode policyB @ ''.'' @ hex_encode nameB"

definition sundae_parseV1Datum ::
  "cbor_lib \<Rightarrow> output_decoder \<Rightarrow> bytes \<Rightarrow> bytes \<Rightarrow> string \<Rightarrow> u32 \<Rightarrow> u64 \<Rightarrow> time \<Rightarrow> parse_error + parsed_pool" where
  "sundae_parseV1Datum cb out datum utxoValue txHash txIndex slot timestamp =
     (case decode_sundae_V1PoolDatum cb datum of
        None \<Rightarrow> Inl DatumDecodeError
      | Some d \<Rightarrow>
          (case GeneratePoolIdentId (s1_Ident d) of
             Inl e \<Rightarrow> Inl e
           | Inr poolId \<Rightarrow>
               (let feeNum = (if s1_FeeNumerator d = 0 then V1DefaultFee else s1_FeeNumerator d)
                in if feeNum > sundae_FeeDenom then Inl (FeeExceeds feeNum sundae_FeeDenom)
                   else case extractReservesFromValue out utxoValue (s1_AssetA d) (s1_AssetB d) of
                     Inl e \<Rightarrow> Inl e
                   | Inr (reserveA, reserveB) \<Rightarrow> Inr
                       \<lparr>pp_PoolId = poolId, pp_Protocol = sundae_Protocol 1,
                        pp_AssetX = \<lparr>Class = s1_AssetA d, Amount = reserveA\<rparr>,
                        pp_AssetY = \<lparr>Class = s1_AssetB d, Amount = reserveB\<rparr>,
                        pp_FeeNum = sundae_FeeDenom - feeNum, pp_FeeDenom = sundae_FeeDenom, pp_Slot = slot,
                        pp_TxHash = txHash, pp_TxIndex = txIndex, pp_Timestamp = timestamp\<rparr>)))"

text \<open>The fee computation of \<open>parseV3Datum\<close>.\<close>

definition sundae_V3_fee :: "u64 \<Rightarrow> u64 \<Rightarrow> u64 \<Rightarrow> u64 \<Rightarrow> parse_error + u64" where
  "sundae_V3_fee bidNum bidDen askNum askDen =
     (if bidDen = 0 \<or> askDen = 0 then Inl (ZeroFeeDenominators bidDen askDen)
      else let avgNum = bidNum * askDen + askNum * bidDen;
               avgDen = 2 * bidDen * askDen
           in if avgNum > avgDen then Inl (FeeExceeds avgNum avgDen)
              else if avgDen = 0 then Inl DivideByZeroPanic
              else let effectiveFeeNum = sundae_FeeDenom * (avgDen - avgNum) div avgDen
                   in if effectiveFeeNum > sundae_FeeDenom then Inl (FeeExceeds effectiveFeeNum sundae_FeeDenom)
                      else Inr effectiveFeeNum)"

definition sundae_parseV3Datum ::
  "cbor_lib \<Rightarrow> output_decoder \<Rightarrow> bytes \<Rightarrow> bytes \<Rightarrow> string \<Rightarrow> u32 \<Rightarrow> u64 \<Rightarrow> time \<Rightarrow> parse_error + parsed_pool" where
  "sundae_parseV3Datum cb out datum utxoValue txHash txIndex slot timestamp =
     (case decode_sundae_V3PoolDatum cb datum of
        None \<Rightarrow> Inl DatumDecodeError
      | Some d \<Rightarrow>
          (let assetA = fst (s3_Assets d);
               assetB = snd (s3_Assets d);
               poolId = sundae_GeneratePoolId (PolicyId assetA) (Name assetA) (PolicyId assetB) (Name assetB)
           in case sundae_V3_fee (Numerator (s3_BidFeesPer10Thousand d)) (Denominator (s3_BidFeesPer10Thousand d))
                     (Numerator (s3_AskFeesPer10Thousand d)) (Denominator (s3_AskFeesPer10Thousand d)) of
                Inl e \<Rightarrow> Inl e
              | Inr effectiveFeeNum \<Rightarrow>
                  (case extractReservesFromValue out utxoValue assetA assetB of
                     Inl e \<Rightarrow> Inl e
                   | Inr (reserveA, reserveB) \<Rightarrow> Inr
                       \<lparr>pp_PoolId = poolId, pp_Protocol = sundae_Protocol 3,
                        pp_AssetX = \<lparr>Class = assetA, Amount = reserveA\<rparr>,
                        pp_AssetY = \<lparr>Class = assetB, Amount = reserveB\<rparr>,
                        pp_FeeNum = effectiveFeeNum, pp_FeeDenom = sundae_FeeDenom, pp_Slot = slot,
                        pp_TxHash = txHash, pp_TxIndex = txIndex, pp_Timestamp = timestamp\<rparr>)))"

definition sundae_ParsePoolDatum ::
  "cbor_lib \<Rightarrow> output_decoder \<Rightarrow> nat \<Rightarrow> bytes \<Rightarrow> bytes \<Rightarrow> string \<Rightarrow> u32 \<Rightarrow> u64 \<Rightarrow> time \<Rightarrow> parse_error + parsed_pool" where
  "sundae_ParsePoolDatum cb out version datum utxoValue txHash txIndex slot timestamp =
     (if version = 1 then sundae_parseV1Datum cb out datum utxoValue txHash txIndex slot timestamp
      else if version = 3 then sundae_parseV3Datum cb out datum utxoValue txHash txIndex slot timestamp
      else Inl (UnsupportedVersion version))"

text \<open>The wrapper \<open>SundaeSwapParser.ParsePoolDatum\<close> of \<open>dex/sundaeswap.go\<close>.\<close>

definition SundaeSwapParser_ParsePoolDatum ::
  "cbor_lib \<Rightarrow> output_decoder \<Rightarrow> nat \<Rightarrow> parse_error pool_parse" where
  "SundaeSwapParser_ParsePoolDatum cb out version datum utxoValue txHash txIndex slot timestamp =
     (case sundae_ParsePoolDatum cb out version datum utxoValue txHash txIndex slot timestamp of
        Inl e \<Rightarrow> Inl e
      | Inr state \<Rightarrow> Inr (to_pool_state state))"

section \<open>Lemmas\<close>

lemma sundae_V3_fee_le: "sundae_V3_fee bn bd an ad = Inr f \<Longrightarrow> f \<le> sundae_FeeDenom"
  by (auto simp: sundae_V3_fee_def Let_def not_less split: if_splits)

lemma sundae_wrap_iff:
  "SundaeSwapParser_ParsePoolDatum cb out ver d v h i s t = Inr p \<longleftrightarrow>
     (\<exists>q. sundae_ParsePoolDatum cb out ver d v h i s t = Inr q \<and> p = to_pool_state q)"
  by (auto simp: SundaeSwapParser_ParsePoolDatum_def split: sum.splits)

lemma sundae_parse_ok:
  assumes "sundae_ParsePoolDatum cb out ver d v h i s t = Inr q"
  shows "pp_TxHash q = h \<and> pp_TxIndex q = i \<and> pp_Slot q = s \<and> pp_Timestamp q = t"
    and "pp_Protocol q = sundae_Protocol ver" and "0 < pp_FeeDenom q \<and> pp_FeeNum q \<le> pp_FeeDenom q"
proof -
  have "pp_TxHash q = h \<and> pp_TxIndex q = i \<and> pp_Slot q = s \<and> pp_Timestamp q = t
    \<and> pp_Protocol q = sundae_Protocol ver \<and> pp_FeeDenom q = sundae_FeeDenom \<and> pp_FeeNum q \<le> sundae_FeeDenom"
    using assms
    by (auto simp: sundae_ParsePoolDatum_def sundae_parseV1Datum_def sundae_parseV3Datum_def Let_def
        not_less word_le_nat_alt unat_sub dest!: sundae_V3_fee_le split: option.splits sum.splits if_splits)
  then show "pp_TxHash q = h \<and> pp_TxIndex q = i \<and> pp_Slot q = s \<and> pp_Timestamp q = t"
    and "pp_Protocol q = sundae_Protocol ver" and "0 < pp_FeeDenom q \<and> pp_FeeNum q \<le> pp_FeeDenom q"
    by (auto simp: sundae_FeeDenom_def)
qed

interpretation sundaeswap: pool_parser "SundaeSwapParser_ParsePoolDatum cb out ver" "sundae_Protocol ver"
  by unfold_locales (auto simp: sundae_wrap_iff to_pool_state_def dest: sundae_parse_ok)

section \<open>The V3 fee\<close>

text \<open>Inside the range where no product wraps, the words are the products of the fractions.\<close>

lemma sundae_avg_words:
  fixes bn bd an ad :: u64
  assumes "unat bn * unat ad + unat an * unat bd < 2 ^ 64" and "20000 * unat bd * unat ad < 2 ^ 64"
  shows "unat (bn * ad + an * bd) = unat bn * unat ad + unat an * unat bd"
    and "unat (2 * bd * ad) = 2 * unat bd * unat ad"
proof -
  have "unat (bn * ad) = unat bn * unat ad" "unat (an * bd) = unat an * unat bd"
    using assms(1) by (simp_all add: unat_word_ariths)
  then show "unat (bn * ad + an * bd) = unat bn * unat ad + unat an * unat bd"
    using assms(1) by (simp add: unat_u64_add)
  show "unat (2 * bd * ad) = 2 * unat bd * unat ad"
    using assms(2) by (simp add: unat_word_ariths mod_mult_left_eq)
qed


text \<open>The mean of the two fees, as a fraction of the amount.\<close>

definition mean_fee :: "u64 \<Rightarrow> u64 \<Rightarrow> u64 \<Rightarrow> u64 \<Rightarrow> rat" where
  "mean_fee bidNum bidDen askNum askDen =
     (of_nat (unat bidNum) / of_nat (unat bidDen) + of_nat (unat askNum) / of_nat (unat askDen)) / 2"

lemma mean_fee_fraction:
  assumes "bd \<noteq> 0" and "ad \<noteq> 0"
  shows "mean_fee bn bd an ad =
    of_nat (unat bn * unat ad + unat an * unat bd) / of_nat (2 * unat bd * unat ad)"
proof -
  have "(a / b + c / d) / 2 = (a * d + c * b) / (2 * b * d)" if "b \<noteq> 0" "d \<noteq> 0" for a b c d :: rat
    using that by (simp add: field_simps)
  moreover have "of_nat (unat bd) \<noteq> (0 :: rat)" "of_nat (unat ad) \<noteq> (0 :: rat)"
    using assms by (simp_all only: of_nat_eq_0_iff unat_u64_eq_0 not_False_eq_True)
  ultimately show ?thesis
    by (simp only: mean_fee_def of_nat_add of_nat_mult of_nat_numeral)
qed

lemma floor_rest_fraction:
  assumes "n \<le> d" and "0 < (d :: nat)"
  shows "\<lfloor>of_nat k * (1 - of_nat n / (of_nat d :: rat))\<rfloor> = int (k * (d - n) div d)"
proof -
  have "of_nat k * (1 - of_nat n / (of_nat d :: rat)) = of_nat (k * (d - n)) / of_nat d"
    using assms by (simp add: field_simps of_nat_diff)
  then show ?thesis by (simp only: floor_divide_of_nat_eq)
qed

text \<open>The division of the source, in words.\<close>

lemma unat_fee_div:
  fixes N D :: u64
  assumes "N \<le> D" and "10000 * unat D < 2 ^ 64"
  shows "unat (sundae_FeeDenom * (D - N) div D) = 10000 * (unat D - unat N) div unat D"
    and "sundae_FeeDenom * (D - N) div D \<le> sundae_FeeDenom"
proof -
  have "10000 * (unat D - unat N) < 2 ^ 64" using assms(2) by linarith
  moreover have "unat (D - N) = unat D - unat N" using assms(1) by (rule unat_sub)
  ultimately have "unat (sundae_FeeDenom * (D - N)) = 10000 * (unat D - unat N)"
    using unat_mult_lem [of sundae_FeeDenom "D - N"] by (simp add: sundae_FeeDenom_def)
  then show q: "unat (sundae_FeeDenom * (D - N) div D) = 10000 * (unat D - unat N) div unat D"
    by (simp only: unat_div)
  have "10000 * (unat D - unat N) div unat D \<le> 10000 * unat D div unat D"
    by (intro div_le_mono) simp
  also have "\<dots> \<le> 10000" by simp
  finally show "sundae_FeeDenom * (D - N) div D \<le> sundae_FeeDenom"
    using q by (simp add: word_le_nat_alt sundae_FeeDenom_def)
qed

text \<open>While no product of numerators and denominators leaves 64 bits, the fee of a V3 pool is
  exact: the parser refuses a mean fee above one, and otherwise keeps
  \<open>10000 * (1 - mean fee)\<close> rounded down, so that the remaining fraction is never overstated.\<close>

lemma sundae_v3_fee_exact:
  assumes "bd \<noteq> 0" and "ad \<noteq> 0"
    and "unat bn * unat ad + unat an * unat bd < 2 ^ 64" and "20000 * unat bd * unat ad < 2 ^ 64"
  shows "sundae_V3_fee bn bd an ad =
    (if mean_fee bn bd an ad > 1 then Inl (FeeExceeds (bn * ad + an * bd) (2 * bd * ad))
     else Inr (word_of_int \<lfloor>10000 * (1 - mean_fee bn bd an ad)\<rfloor>))"
proof -
  let ?n = "unat bn * unat ad + unat an * unat bd" and ?d = "2 * unat bd * unat ad"
  have words: "unat (bn * ad + an * bd) = ?n" "unat (2 * bd * ad) = ?d"
    using sundae_avg_words [OF assms(3,4)] by blast+
  have dpos: "0 < ?d" using assms(1,2) by (simp add: unat_gt_0)
  then have dnz: "2 * bd * ad \<noteq> 0" using words(2) by (metis less_irrefl unat_0)
  have gt: "mean_fee bn bd an ad > 1 \<longleftrightarrow> ?n > ?d"
    unfolding mean_fee_fraction [OF assms(1,2)] using dpos by (simp only: of_nat_0_less_iff less_divide_eq_1_pos of_nat_less_iff)
  have gt_word: "bn * ad + an * bd > 2 * bd * ad \<longleftrightarrow> ?n > ?d"
    by (simp only: word_less_nat_alt words)
  show ?thesis
  proof (cases "?n > ?d")
    case True
    then show ?thesis using assms(1,2) gt gt_word by (simp add: sundae_V3_fee_def Let_def)
  next
    case False
    then have le: "bn * ad + an * bd \<le> 2 * bd * ad" using False gt_word linorder_not_less by blast
    have small: "10000 * unat (2 * bd * ad) < 2 ^ 64" using assms(4) words(2) by simp
    let ?f = "sundae_FeeDenom * (2 * bd * ad - (bn * ad + an * bd)) div (2 * bd * ad)"
    have "\<lfloor>10000 * (1 - mean_fee bn bd an ad)\<rfloor> = int (10000 * (?d - ?n) div ?d)"
      unfolding mean_fee_fraction [OF assms(1,2)]
      using floor_rest_fraction [of ?n ?d 10000] False dpos by simp
    also have "\<dots> = int (unat ?f)" using unat_fee_div(1) [OF le small] words by simp
    finally have "word_of_int \<lfloor>10000 * (1 - mean_fee bn bd an ad)\<rfloor> = ?f" by simp
    then show ?thesis
      using assms(1,2) gt gt_word False dnz unat_fee_div(2) [OF le small]
      by (simp add: sundae_V3_fee_def Let_def not_less)
  qed
qed


text \<open>
  Outside that range the words wrap. A pair of denominators whose product is a multiple of
  \<open>2 ^ 63\<close> makes the divisor zero, and the division panics; a free pool with a large common
  denominator is read as one that keeps the whole amount.
\<close>

lemma sundae_v3_fee_wraps:
  "sundae_V3_fee 0 (2 ^ 63) 0 1 = Inl DivideByZeroPanic"
  "sundae_V3_fee 0 (2 ^ 32) 0 (2 ^ 30) = Inr 0"
  "mean_fee 0 (2 ^ 32) 0 (2 ^ 30) = 0"
  by (simp_all add: sundae_V3_fee_def sundae_FeeDenom_def mean_fee_def)

end
