(* ===== verification/Splash.thy ===== *)
theory Splash
  imports Reserves
begin

text \<open>
  Splash pools (\<open>dex/splash/models.go\<close>, \<open>parser.go\<close>): the datum with its decoder, its encoder and its
  text, the pool identifier and the parser. The encoder of the CBOR library is a parameter beside
  its decoder; it encodes a field that has a \<open>MarshalCBOR\<close> method with that method.
\<close>

section \<open>Data\<close>

record splash_PoolDatum =
  sp_Nft :: AssetClass
  sp_X :: AssetClass
  sp_Y :: AssetClass
  sp_Lq :: AssetClass
  sp_FeeNum :: u64
  sp_AdminPolicy :: "bytes list"
  sp_LqBound :: u64

record cbor_enc =
  enc_constr :: "nat \<Rightarrow> bytes list \<Rightarrow> bytes"
  enc_list :: "bytes list \<Rightarrow> bytes"
  enc_indef_list :: "bytes list \<Rightarrow> bytes"
  enc_bytes :: "bytes \<Rightarrow> bytes"
  enc_uint :: "u64 \<Rightarrow> bytes"
  enc_big :: "int option \<Rightarrow> bytes"

definition splash_ProtocolName :: string where
  "splash_ProtocolName = ''splash''"

definition splash_FeeDenom :: u64 where
  "splash_FeeDenom = 1000"

section \<open>Codec\<close>

definition decode_splash_AssetClass :: "cbor_lib \<Rightarrow> bytes \<Rightarrow> AssetClass option" where
  "decode_splash_AssetClass cb data = do {
     (tag, raw) \<leftarrow> dec_constr cb data;
     if tag \<noteq> 0 then None else dec_class cb raw }"

definition splash_AssetClass_MarshalCBOR :: "cbor_enc \<Rightarrow> AssetClass \<Rightarrow> bytes" where
  "splash_AssetClass_MarshalCBOR e a = enc_constr e 0 [enc_bytes e (PolicyId a), enc_bytes e (Name a)]"

definition decode_splash_PoolDatum :: "cbor_lib \<Rightarrow> bytes \<Rightarrow> splash_PoolDatum option" where
  "decode_splash_PoolDatum cb data = do {
     (tag, raw) \<leftarrow> dec_constr cb data;
     if tag \<noteq> 0 then None
     else do {
       flds \<leftarrow> dec_struct cb 7 raw;
       nft \<leftarrow> decode_splash_AssetClass cb (flds ! 0);
       x \<leftarrow> decode_splash_AssetClass cb (flds ! 1);
       y \<leftarrow> decode_splash_AssetClass cb (flds ! 2);
       lq \<leftarrow> decode_splash_AssetClass cb (flds ! 3);
       fee \<leftarrow> dec_uint cb (flds ! 4);
       admins \<leftarrow> dec_list cb (flds ! 5);
       policies \<leftarrow> dec_each (dec_bytes cb) admins;
       bound \<leftarrow> dec_uint cb (flds ! 6);
       Some \<lparr>sp_Nft = nft, sp_X = x, sp_Y = y, sp_Lq = lq, sp_FeeNum = fee, sp_AdminPolicy = policies,
         sp_LqBound = bound\<rparr> } }"

definition splash_PoolDatum_MarshalCBOR :: "cbor_enc \<Rightarrow> splash_PoolDatum \<Rightarrow> bytes" where
  "splash_PoolDatum_MarshalCBOR e p =
     (let tmpAdminPolicy =
        (if length (sp_AdminPolicy p) > 0 then enc_indef_list e (map (enc_bytes e) (sp_AdminPolicy p))
         else enc_list e [])
      in enc_constr e 0
           [splash_AssetClass_MarshalCBOR e (sp_Nft p), splash_AssetClass_MarshalCBOR e (sp_X p),
            splash_AssetClass_MarshalCBOR e (sp_Y p), splash_AssetClass_MarshalCBOR e (sp_Lq p),
            enc_uint e (sp_FeeNum p), tmpAdminPolicy, enc_uint e (sp_LqBound p)])"

section \<open>Text\<close>

definition splash_AssetClass_String :: "AssetClass \<Rightarrow> string" where
  "splash_AssetClass_String a =
     ''AssetClass< name = '' @ string_of_bytes (Name a) @ '', policy_id = '' @ hex_encode (PolicyId a) @ '' >''"

text \<open>\<open>%v\<close> of a slice: its elements between brackets, separated by blanks.\<close>

fun show_words :: "string list \<Rightarrow> string" where
  "show_words [] = []"
| "show_words [s] = s"
| "show_words (s # ss) = s @ '' '' @ show_words ss"

definition show_slice :: "('a \<Rightarrow> string) \<Rightarrow> 'a list \<Rightarrow> string" where
  "show_slice f xs = ''['' @ show_words (map f xs) @ '']''"

definition splash_PoolDatum_String :: "splash_PoolDatum \<Rightarrow> string" where
  "splash_PoolDatum_String p =
     ''PoolDatum< nft = '' @ splash_AssetClass_String (sp_Nft p) @ '', x = '' @ splash_AssetClass_String (sp_X p)
     @ '', y = '' @ splash_AssetClass_String (sp_Y p) @ '', lq = '' @ splash_AssetClass_String (sp_Lq p)
     @ '', fee_num = '' @ show_nat (unat (sp_FeeNum p))
     @ '', admin_policy = '' @ show_slice (show_slice (\<lambda>b. show_nat (unat b))) (sp_AdminPolicy p)
     @ '', lq_bound = '' @ show_nat (unat (sp_LqBound p)) @ '' >''"

section \<open>Parser\<close>

definition splash_Protocol :: string where
  "splash_Protocol = splash_ProtocolName @ ''-v1''"

definition splash_GeneratePoolId :: "bytes \<Rightarrow> bytes \<Rightarrow> bytes \<Rightarrow> bytes \<Rightarrow> string" where
  "splash_GeneratePoolId policyIdA assetNameA policyIdB assetNameB =
     (let assetA = hex_encode policyIdA @ ''.'' @ hex_encode assetNameA;
          assetB = hex_encode policyIdB @ ''.'' @ hex_encode assetNameB
      in if assetA > assetB then assetB @ ''-'' @ assetA else assetA @ ''-'' @ assetB)"

definition splash_ParsePoolDatum ::
  "cbor_lib \<Rightarrow> output_decoder \<Rightarrow> bytes \<Rightarrow> bytes \<Rightarrow> string \<Rightarrow> u32 \<Rightarrow> u64 \<Rightarrow> time \<Rightarrow> parse_error + parsed_pool" where
  "splash_ParsePoolDatum cb out datum utxoValue txHash txIndex slot timestamp =
     (case decode_splash_PoolDatum cb datum of
        None \<Rightarrow> Inl DatumDecodeError
      | Some d \<Rightarrow>
          (let poolId = splash_GeneratePoolId (PolicyId (sp_X d)) (Name (sp_X d)) (PolicyId (sp_Y d)) (Name (sp_Y d))
           in if sp_FeeNum d > splash_FeeDenom then Inl (FeeExceeds (sp_FeeNum d) splash_FeeDenom)
              else case extractReservesFromValue out utxoValue (sp_X d) (sp_Y d) of
                Inl e \<Rightarrow> Inl e
              | Inr (reserveX, reserveY) \<Rightarrow> Inr
                  \<lparr>pp_PoolId = poolId, pp_Protocol = splash_Protocol,
                   pp_AssetX = \<lparr>Class = sp_X d, Amount = reserveX\<rparr>,
                   pp_AssetY = \<lparr>Class = sp_Y d, Amount = reserveY\<rparr>,
                   pp_FeeNum = sp_FeeNum d, pp_FeeDenom = splash_FeeDenom, pp_Slot = slot, pp_TxHash = txHash,
                   pp_TxIndex = txIndex, pp_Timestamp = timestamp\<rparr>))"

text \<open>The wrapper \<open>SplashParser.ParsePoolDatum\<close> of \<open>dex/splash.go\<close>.\<close>

definition SplashParser_ParsePoolDatum :: "cbor_lib \<Rightarrow> output_decoder \<Rightarrow> parse_error pool_parse" where
  "SplashParser_ParsePoolDatum cb out datum utxoValue txHash txIndex slot timestamp =
     (case splash_ParsePoolDatum cb out datum utxoValue txHash txIndex slot timestamp of
        Inl e \<Rightarrow> Inl e
      | Inr state \<Rightarrow> Inr (to_pool_state state))"

section \<open>Lemmas\<close>

lemma splash_wrap_iff:
  "SplashParser_ParsePoolDatum cb out d v h i s t = Inr p \<longleftrightarrow>
     (\<exists>q. splash_ParsePoolDatum cb out d v h i s t = Inr q \<and> p = to_pool_state q)"
  by (auto simp: SplashParser_ParsePoolDatum_def split: sum.splits)

lemma splash_parse_ok:
  assumes "splash_ParsePoolDatum cb out d v h i s t = Inr q"
  shows "pp_TxHash q = h \<and> pp_TxIndex q = i \<and> pp_Slot q = s \<and> pp_Timestamp q = t"
    and "pp_Protocol q = splash_Protocol" and "0 < pp_FeeDenom q \<and> pp_FeeNum q \<le> pp_FeeDenom q"
  using assms
  by (auto simp: splash_ParsePoolDatum_def Let_def splash_FeeDenom_def not_less
      split: option.splits sum.splits if_splits)

interpretation splash: pool_parser "SplashParser_ParsePoolDatum cb out" splash_Protocol
  by unfold_locales (auto simp: splash_wrap_iff to_pool_state_def dest: splash_parse_ok)

lemma splash_id_classes:
  "splash_GeneratePoolId (PolicyId a) (Name a) (PolicyId b) (Name b) =
     (if class_text a > class_text b then class_text b @ ''-'' @ class_text a else class_text a @ ''-'' @ class_text b)"
  by (simp add: splash_GeneratePoolId_def class_text_def)

lemma splash_dash_inject:
  "class_text a @ CHR ''-'' # class_text b = class_text c @ CHR ''-'' # class_text d \<longleftrightarrow> a = c \<and> b = d"
  using append_sep_inject [of "class_text a" "CHR ''-''" "class_text b" "class_text c" "class_text d"]
    sep_not_class [of "CHR ''-''"]
  by (auto simp: is_hex_def hex_val_def)

text \<open>Two Splash pools get the same identifier exactly when they hold the same two assets.\<close>

lemma splash_id_iff:
  fixes a b c d :: AssetClass
  shows "splash_GeneratePoolId (PolicyId a) (Name a) (PolicyId b) (Name b) =
   splash_GeneratePoolId (PolicyId c) (Name c) (PolicyId d) (Name d) \<longleftrightarrow> {a, b} = {c, d}"
  unfolding splash_id_classes
  by (auto simp: splash_dash_inject doubleton_eq_iff not_less split: if_splits)


section \<open>Round trip\<close>

text \<open>
  What the encoder promises: the decoder reads back the constructor and the items, byte strings and
  integers that were encoded.
\<close>

definition codec_ok :: "cbor_lib \<Rightarrow> cbor_enc \<Rightarrow> bool" where
  "codec_ok cb e = (
     (\<forall>t fs. \<exists>raw. dec_constr cb (enc_constr e t fs) = Some (t, raw) \<and> dec_list cb raw = Some fs)
     \<and> (\<forall>xs. dec_list cb (enc_list e xs) = Some xs) \<and> (\<forall>xs. dec_list cb (enc_indef_list e xs) = Some xs)
     \<and> (\<forall>b. dec_bytes cb (enc_bytes e b) = Some b) \<and> (\<forall>u. dec_uint cb (enc_uint e u) = Some u)
     \<and> (\<forall>n. dec_big cb (enc_big e n) = Some n))"

lemma dec_each_map: "(\<And>x. f (g x) = Some x) \<Longrightarrow> dec_each f (map g xs) = Some xs"
  by (induction xs) simp_all

lemma codec_constr:
  assumes "codec_ok cb e"
  obtains raw where "dec_constr cb (enc_constr e t fs) = Some (t, raw)" and "dec_struct cb (length fs) raw = Some fs"
  using assms by (fastforce simp: codec_ok_def dec_struct_def)

lemma splash_AssetClass_codec:
  assumes "codec_ok cb e"
  shows "decode_splash_AssetClass cb (splash_AssetClass_MarshalCBOR e a) = Some a"
proof -
  obtain raw where "dec_constr cb (splash_AssetClass_MarshalCBOR e a) = Some (0, raw)"
    and "dec_struct cb 2 raw = Some [enc_bytes e (PolicyId a), enc_bytes e (Name a)]"
    using codec_constr [OF assms, of 0 "[enc_bytes e (PolicyId a), enc_bytes e (Name a)]"]
    by (auto simp: splash_AssetClass_MarshalCBOR_def numeral_2_eq_2)
  then show ?thesis
    using assms by (simp add: decode_splash_AssetClass_def dec_class_def codec_ok_def)
qed

lemma splash_admins_codec:
  assumes "codec_ok cb e"
  shows "Option.bind (dec_list cb (if length ps > 0 then enc_indef_list e (map (enc_bytes e) ps) else enc_list e []))
    (dec_each (dec_bytes cb)) = Some ps"
  using assms dec_each_map [of "dec_bytes cb" "enc_bytes e" ps] by (simp add: codec_ok_def)

text \<open>On any CBOR codec whose decoder reads back what its encoder wrote, a Splash pool datum
  survives being encoded and decoded, whatever its admin policies.\<close>

lemma splash_decode_marshal:
  assumes "codec_ok cb e"
  shows "decode_splash_PoolDatum cb (splash_PoolDatum_MarshalCBOR e d) = Some d"
proof -
  let ?adm = "if length (sp_AdminPolicy d) > 0 then enc_indef_list e (map (enc_bytes e) (sp_AdminPolicy d)) else enc_list e []"
  let ?fs = "[splash_AssetClass_MarshalCBOR e (sp_Nft d), splash_AssetClass_MarshalCBOR e (sp_X d),
    splash_AssetClass_MarshalCBOR e (sp_Y d), splash_AssetClass_MarshalCBOR e (sp_Lq d),
    enc_uint e (sp_FeeNum d), ?adm, enc_uint e (sp_LqBound d)]"
  obtain raw where raw: "dec_constr cb (splash_PoolDatum_MarshalCBOR e d) = Some (0, raw)" "dec_struct cb 7 raw = Some ?fs"
    using codec_constr [OF assms, of 0 ?fs] by (auto simp: splash_PoolDatum_MarshalCBOR_def Let_def eval_nat_numeral)
  obtain items where "dec_list cb ?adm = Some items" "dec_each (dec_bytes cb) items = Some (sp_AdminPolicy d)"
    using splash_admins_codec [OF assms, of "sp_AdminPolicy d"] by (auto simp: bind_eq_Some_conv)
  then show ?thesis
    using raw assms
    by (simp add: decode_splash_PoolDatum_def splash_AssetClass_codec [OF assms] codec_ok_def)
qed

text \<open>
  A codec with these laws: items are delimited by a zero byte and their bytes marked by a one, a
  constructor and an integer are written in unary.
\<close>

fun pack :: "bytes list \<Rightarrow> bytes" where
  "pack [] = []"
| "pack (x # xs) = concat (map (\<lambda>b. [1, b]) x) @ 0 # pack xs"

fun unpack :: "bytes \<Rightarrow> bytes \<Rightarrow> bytes list option" where
  "unpack cur [] = (if cur = [] then Some [] else None)"
| "unpack cur (m # bs) =
     (if m = 0 then map_option ((#) (rev cur)) (unpack [] bs)
      else case bs of [] \<Rightarrow> None | b # rest \<Rightarrow> unpack (b # cur) rest)"

definition unary_lib :: cbor_lib where
  "unary_lib = \<lparr>dec_constr = (\<lambda>bs. Some (length (takeWhile ((=) 1) bs), tl (dropWhile ((=) 1) bs))),
     dec_list = unpack [], dec_bytes = Some, dec_uint = (\<lambda>bs. Some (word_of_nat (length bs))), dec_int64 = (\<lambda>bs. Some (int (length bs))),
     dec_big = (\<lambda>bs. Some (case bs of [] \<Rightarrow> None | b # bs \<Rightarrow> Some (if b = 1 then int (length bs) else - int (length bs))))\<rparr>"

definition unary_enc :: cbor_enc where
  "unary_enc = \<lparr>enc_constr = (\<lambda>t fs. replicate t 1 @ 0 # pack fs), enc_list = pack, enc_indef_list = pack,
     enc_bytes = id, enc_uint = (\<lambda>u. replicate (unat u) 0),
     enc_big = (\<lambda>n. case n of None \<Rightarrow> [] | Some i \<Rightarrow> (if 0 \<le> i then 1 else 2) # replicate (nat \<bar>i\<bar>) 0)\<rparr>"

lemma unpack_item: "unpack cur (concat (map (\<lambda>b. [1, b]) x) @ 0 # bs) = map_option ((#) (rev cur @ x)) (unpack [] bs)"
  by (induction x arbitrary: cur) simp_all

lemma unpack_pack: "unpack [] (pack xs) = Some xs"
  by (induction xs) (simp_all add: unpack_item)

lemma unary_prefix:
  "takeWhile ((=) 1) (replicate t 1 @ (0 :: u8) # bs) = replicate t 1"
  "dropWhile ((=) 1) (replicate t 1 @ (0 :: u8) # bs) = 0 # bs"
  by (induction t) simp_all

lemma unary_codec_ok: "codec_ok unary_lib unary_enc"
  by (auto simp: codec_ok_def unary_lib_def unary_enc_def unpack_pack unary_prefix split: option.split)

text \<open>A pool of lovelace and a token, and the value of its output.\<close>

definition ada_snek_datum :: splash_PoolDatum where
  "ada_snek_datum = \<lparr>sp_Nft = \<lparr>PolicyId = [7], Name = [1]\<rparr>, sp_X = Lovelace, sp_Y = \<lparr>PolicyId = replicate 28 9, Name = [2]\<rparr>,
     sp_Lq = \<lparr>PolicyId = [8], Name = []\<rparr>, sp_FeeNum = 997, sp_AdminPolicy = [[1, 2], []], sp_LqBound = 0\<rparr>"

definition ada_snek_value :: utxo_value where
  "ada_snek_value = \<lparr>uv_Amount = 5000000, uv_Assets = Some [(replicate 28 9, [([2], 700)])]\<rparr>"

lemma ada_snek_parsed:
  "splash_ParsePoolDatum unary_lib (\<lambda>_. Some ada_snek_value) (splash_PoolDatum_MarshalCBOR unary_enc ada_snek_datum) v h i s t =
     Inr \<lparr>pp_PoolId = splash_GeneratePoolId [] [] (replicate 28 9) [2], pp_Protocol = splash_Protocol,
       pp_AssetX = \<lparr>Class = Lovelace, Amount = 5000000\<rparr>,
       pp_AssetY = \<lparr>Class = \<lparr>PolicyId = replicate 28 9, Name = [2]\<rparr>, Amount = 700\<rparr>,
       pp_FeeNum = 997, pp_FeeDenom = 1000, pp_Slot = s, pp_TxHash = h, pp_TxIndex = i, pp_Timestamp = t\<rparr>"
proof -
  have "extractReservesFromValue (\<lambda>_. Some ada_snek_value) v Lovelace \<lparr>PolicyId = replicate 28 9, Name = [2]\<rparr> = Inr (5000000, 700)"
    by (simp add: extractReservesFromValue_def getAssetAmount_def ada_snek_value_def Lovelace_def policy_loop_lookup big_Uint64_def)
  then show ?thesis
    by (simp add: splash_ParsePoolDatum_def splash_decode_marshal [OF unary_codec_ok] ada_snek_datum_def splash_FeeDenom_def Lovelace_def)
qed

end
