(* ===== verification/Wingriders.thy ===== *)
theory Wingriders
  imports Reserves
begin

text \<open>
  WingRiders V2 pools (\<open>dex/wingriders/models.go\<close>, \<open>parser.go\<close>): the datum holds the reserves and the
  swap fee; the output's value is not used.
\<close>

section \<open>Data\<close>

record wing_PoolDatum =
  wr_RequestValidatorHash :: bytes
  wr_AssetA :: AssetClass
  wr_AssetB :: AssetClass
  wr_SwapFeeInBasis :: u64
  wr_ProtocolFeeInBasis :: u64
  wr_ProjectFeeInBasis :: u64
  wr_FeeBasis :: u64
  wr_AgentFeeAda :: u64
  wr_LastInteraction :: u64
  wr_TreasuryA :: u64
  wr_TreasuryB :: u64
  wr_ProjectTreasuryA :: u64
  wr_ProjectTreasuryB :: u64

definition wing_ProtocolName :: string where
  "wing_ProtocolName = ''wingriders''"

definition wing_FeeDenom :: u64 where
  "wing_FeeDenom = 10000"

section \<open>Decoders\<close>

definition decode_wing_AssetClass :: "cbor_lib \<Rightarrow> bytes \<Rightarrow> AssetClass option" where
  "decode_wing_AssetClass cb data = do {
     (tag, raw) \<leftarrow> dec_constr cb data;
     if tag \<noteq> 0 then None else dec_class cb raw }"

definition decode_wing_PoolDatum :: "cbor_lib \<Rightarrow> bytes \<Rightarrow> wing_PoolDatum option" where
  "decode_wing_PoolDatum cb data = do {
     (tag, raw) \<leftarrow> dec_constr cb data;
     if tag \<noteq> 0 then None
     else do {
       flds \<leftarrow> dec_struct cb 13 raw;
       h \<leftarrow> dec_bytes cb (flds ! 0);
       a \<leftarrow> decode_wing_AssetClass cb (flds ! 1);
       b \<leftarrow> decode_wing_AssetClass cb (flds ! 2);
       us \<leftarrow> dec_each (dec_uint cb) (drop 3 flds);
       Some \<lparr>wr_RequestValidatorHash = h, wr_AssetA = a, wr_AssetB = b, wr_SwapFeeInBasis = us ! 0,
         wr_ProtocolFeeInBasis = us ! 1, wr_ProjectFeeInBasis = us ! 2, wr_FeeBasis = us ! 3,
         wr_AgentFeeAda = us ! 4, wr_LastInteraction = us ! 5, wr_TreasuryA = us ! 6, wr_TreasuryB = us ! 7,
         wr_ProjectTreasuryA = us ! 8, wr_ProjectTreasuryB = us ! 9\<rparr> } }"

section \<open>Text\<close>

definition wing_AssetClass_String :: "AssetClass \<Rightarrow> string" where
  "wing_AssetClass_String a =
     ''AssetClass< name = '' @ map (\<lambda>b. char_of (unat b)) (Name a) @ '', policy_id = '' @ hex_encode (PolicyId a) @ '' >''"

definition wing_PoolDatum_String :: "wing_PoolDatum \<Rightarrow> string" where
  "wing_PoolDatum_String p =
     ''PoolDatum< assetA = '' @ wing_AssetClass_String (wr_AssetA p) @ '', assetB = '' @ wing_AssetClass_String (wr_AssetB p)
     @ '', treasuryA = '' @ show_nat (unat (wr_TreasuryA p)) @ '', treasuryB = '' @ show_nat (unat (wr_TreasuryB p))
     @ '', swapFee = '' @ show_nat (unat (wr_SwapFeeInBasis p)) @ '', protocolFee = '' @ show_nat (unat (wr_ProtocolFeeInBasis p))
     @ '', projectFee = '' @ show_nat (unat (wr_ProjectFeeInBasis p)) @ '' >''"

section \<open>Parser\<close>

definition wing_Protocol :: string where
  "wing_Protocol = wing_ProtocolName @ ''-v2''"

definition wing_GeneratePoolId :: "bytes \<Rightarrow> bytes \<Rightarrow> bytes \<Rightarrow> bytes \<Rightarrow> string" where
  "wing_GeneratePoolId policyA nameA policyB nameB =
     ''wingriders_'' @ hex_encode policyA @ ''.'' @ hex_encode nameA @ ''_'' @ hex_encode policyB @ ''.'' @ hex_encode nameB"

definition wing_ParsePoolDatum ::
  "cbor_lib \<Rightarrow> bytes \<Rightarrow> bytes \<Rightarrow> string \<Rightarrow> u32 \<Rightarrow> u64 \<Rightarrow> time \<Rightarrow> parse_error + parsed_pool" where
  "wing_ParsePoolDatum cb datum utxoValue txHash txIndex slot timestamp =
     (case decode_wing_PoolDatum cb datum of
        None \<Rightarrow> Inl DatumDecodeError
      | Some d \<Rightarrow>
          (let poolId = wing_GeneratePoolId (PolicyId (wr_AssetA d)) (Name (wr_AssetA d))
                 (PolicyId (wr_AssetB d)) (Name (wr_AssetB d));
               swapFee = wr_SwapFeeInBasis d
           in if swapFee > wing_FeeDenom then Inl (FeeExceeds swapFee wing_FeeDenom)
              else let effectiveFeeNum = wing_FeeDenom - swapFee
                   in Inr
                     \<lparr>pp_PoolId = poolId, pp_Protocol = wing_Protocol,
                      pp_AssetX = \<lparr>Class = wr_AssetA d, Amount = wr_TreasuryA d\<rparr>,
                      pp_AssetY = \<lparr>Class = wr_AssetB d, Amount = wr_TreasuryB d\<rparr>,
                      pp_FeeNum = effectiveFeeNum, pp_FeeDenom = wing_FeeDenom, pp_Slot = slot, pp_TxHash = txHash,
                      pp_TxIndex = txIndex, pp_Timestamp = timestamp\<rparr>))"

text \<open>\<open>PoolState.PriceXY\<close> of the package.\<close>

definition wing_PriceXY :: "parsed_pool \<Rightarrow> f64" where
  "wing_PriceXY p =
     (if Amount (pp_AssetX p) = 0 then Fin 0
      else f64_div (f64_of_u64 (Amount (pp_AssetY p))) (f64_of_u64 (Amount (pp_AssetX p))))"

text \<open>The wrapper \<open>WingRidersParser.ParsePoolDatum\<close> of \<open>dex/wingriders.go\<close>.\<close>

definition WingRidersParser_ParsePoolDatum :: "cbor_lib \<Rightarrow> parse_error pool_parse" where
  "WingRidersParser_ParsePoolDatum cb datum utxoValue txHash txIndex slot timestamp =
     (case wing_ParsePoolDatum cb datum utxoValue txHash txIndex slot timestamp of
        Inl e \<Rightarrow> Inl e
      | Inr state \<Rightarrow> Inr (to_pool_state state))"

section \<open>Lemmas\<close>

lemma wing_price_agrees: "wing_PriceXY q = PriceXY (to_pool_state q)"
  by (simp add: wing_PriceXY_def PriceXY_def to_pool_state_def)

lemma wing_wrap_iff:
  "WingRidersParser_ParsePoolDatum cb d v h i s t = Inr p \<longleftrightarrow>
     (\<exists>q. wing_ParsePoolDatum cb d v h i s t = Inr q \<and> p = to_pool_state q)"
  by (auto simp: WingRidersParser_ParsePoolDatum_def split: sum.splits)

lemma wing_parse_ok:
  assumes "wing_ParsePoolDatum cb d v h i s t = Inr q"
  shows "pp_TxHash q = h \<and> pp_TxIndex q = i \<and> pp_Slot q = s \<and> pp_Timestamp q = t"
    and "pp_Protocol q = wing_Protocol" and "0 < pp_FeeDenom q \<and> pp_FeeNum q \<le> pp_FeeDenom q"
  using assms
  by (auto simp: wing_ParsePoolDatum_def Let_def wing_FeeDenom_def not_less word_le_nat_alt unat_sub
      split: option.splits if_splits)

interpretation wingriders: pool_parser "WingRidersParser_ParsePoolDatum cb" wing_Protocol
  by unfold_locales (auto simp: wing_wrap_iff to_pool_state_def dest: wing_parse_ok)

end
