(* ===== verification/Cswap.thy ===== *)
theory Cswap
  imports Reserves
begin

text \<open>
  CSWAP pools (\<open>dex/cswap/models.go\<close>, \<open>parser.go\<close>): the fee and the asset classes are in the datum,
  the reserves in the output, and the pool is named by its liquidity token.
\<close>

section \<open>Data\<close>

record cswap_PoolDatum =
  cs_TotalLpTokens :: u64
  cs_PoolFee :: u64
  cs_QuotePolicy :: bytes
  cs_QuoteName :: bytes
  cs_BasePolicy :: bytes
  cs_BaseName :: bytes
  cs_LPTokenPolicy :: bytes
  cs_LPTokenName :: bytes

definition cswap_ProtocolName :: string where
  "cswap_ProtocolName = ''cswap''"

definition cswap_FeeDenom :: u64 where
  "cswap_FeeDenom = 10000"

definition decode_cswap_PoolDatum :: "cbor_lib \<Rightarrow> bytes \<Rightarrow> cswap_PoolDatum option" where
  "decode_cswap_PoolDatum cb data = do {
     (tag, raw) \<leftarrow> dec_constr cb data;
     if tag \<noteq> 0 then None
     else do {
       flds \<leftarrow> dec_struct cb 8 raw;
       lp \<leftarrow> dec_uint cb (flds ! 0);
       fee \<leftarrow> dec_uint cb (flds ! 1);
       qp \<leftarrow> dec_bytes cb (flds ! 2);
       qn \<leftarrow> dec_bytes cb (flds ! 3);
       bp \<leftarrow> dec_bytes cb (flds ! 4);
       bn \<leftarrow> dec_bytes cb (flds ! 5);
       lpp \<leftarrow> dec_bytes cb (flds ! 6);
       lpn \<leftarrow> dec_bytes cb (flds ! 7);
       Some \<lparr>cs_TotalLpTokens = lp, cs_PoolFee = fee, cs_QuotePolicy = qp, cs_QuoteName = qn, cs_BasePolicy = bp,
         cs_BaseName = bn, cs_LPTokenPolicy = lpp, cs_LPTokenName = lpn\<rparr> } }"

definition QuoteAsset :: "cswap_PoolDatum \<Rightarrow> AssetClass" where
  "QuoteAsset d = \<lparr>PolicyId = cs_QuotePolicy d, Name = cs_QuoteName d\<rparr>"

definition BaseAsset :: "cswap_PoolDatum \<Rightarrow> AssetClass" where
  "BaseAsset d = \<lparr>PolicyId = cs_BasePolicy d, Name = cs_BaseName d\<rparr>"

section \<open>Parser\<close>

definition cswap_GeneratePoolId :: "bytes \<Rightarrow> bytes \<Rightarrow> string" where
  "cswap_GeneratePoolId lpPolicy lpName = cswap_ProtocolName @ ''_'' @ hex_encode lpPolicy @ ''.'' @ hex_encode lpName"

definition cswap_ParsePoolDatum ::
  "cbor_lib \<Rightarrow> output_decoder \<Rightarrow> bytes \<Rightarrow> bytes \<Rightarrow> string \<Rightarrow> u32 \<Rightarrow> u64 \<Rightarrow> time \<Rightarrow> parse_error + parsed_pool" where
  "cswap_ParsePoolDatum cb out datum utxoValue txHash txIndex slot timestamp =
     (case decode_cswap_PoolDatum cb datum of
        None \<Rightarrow> Inl DatumDecodeError
      | Some d \<Rightarrow>
          if cs_PoolFee d > cswap_FeeDenom then Inl (FeeExceeds (cs_PoolFee d) cswap_FeeDenom)
          else case extractReservesFromValue out utxoValue (QuoteAsset d) (BaseAsset d) of
            Inl e \<Rightarrow> Inl e
          | Inr (reserveQuote, reserveBase) \<Rightarrow> Inr
              \<lparr>pp_PoolId = cswap_GeneratePoolId (cs_LPTokenPolicy d) (cs_LPTokenName d), pp_Protocol = cswap_ProtocolName,
               pp_AssetX = \<lparr>Class = QuoteAsset d, Amount = reserveQuote\<rparr>,
               pp_AssetY = \<lparr>Class = BaseAsset d, Amount = reserveBase\<rparr>,
               pp_FeeNum = cswap_FeeDenom - cs_PoolFee d, pp_FeeDenom = cswap_FeeDenom, pp_Slot = slot,
               pp_TxHash = txHash, pp_TxIndex = txIndex, pp_Timestamp = timestamp\<rparr>)"

text \<open>The wrapper \<open>CSwapParser.ParsePoolDatum\<close> of \<open>dex/cswap.go\<close>.\<close>

definition CSwapParser_ParsePoolDatum :: "cbor_lib \<Rightarrow> output_decoder \<Rightarrow> parse_error pool_parse" where
  "CSwapParser_ParsePoolDatum cb out datum utxoValue txHash txIndex slot timestamp =
     (case cswap_ParsePoolDatum cb out datum utxoValue txHash txIndex slot timestamp of
        Inl e \<Rightarrow> Inl e
      | Inr state \<Rightarrow> Inr (to_pool_state state))"

section \<open>Lemmas\<close>

lemma cswap_wrap_iff:
  "CSwapParser_ParsePoolDatum cb out d v h i s t = Inr p \<longleftrightarrow>
     (\<exists>q. cswap_ParsePoolDatum cb out d v h i s t = Inr q \<and> p = to_pool_state q)"
  by (auto simp: CSwapParser_ParsePoolDatum_def split: sum.splits)

lemma cswap_parse_ok:
  assumes "cswap_ParsePoolDatum cb out d v h i s t = Inr q"
  shows "pp_TxHash q = h \<and> pp_TxIndex q = i \<and> pp_Slot q = s \<and> pp_Timestamp q = t"
    and "pp_Protocol q = cswap_ProtocolName" and "0 < pp_FeeDenom q \<and> pp_FeeNum q \<le> pp_FeeDenom q"
  using assms
  by (auto simp: cswap_ParsePoolDatum_def cswap_FeeDenom_def not_less word_le_nat_alt unat_sub
      split: option.splits sum.splits if_splits)

interpretation cswap: pool_parser "CSwapParser_ParsePoolDatum cb out" cswap_ProtocolName
  by unfold_locales (auto simp: cswap_wrap_iff to_pool_state_def dest: cswap_parse_ok)

end
