(* ===== verification/Vyfi.thy ===== *)
theory Vyfi
  imports Reserves
begin

text \<open>
  VyFi pools and orders (\<open>dex/vyfi/models.go\<close>, \<open>parser.go\<close>). The datum has the reserves and no asset
  identifiers: the assets and the pool's NFT come from the output's value, which the parser decodes
  as a map from asset texts to amounts. That decoder is a parameter; the order of the association
  list it returns is the order in which the loop ranges over the map.
\<close>

section \<open>Data\<close>

record vyfi_PoolDatum =
  vy_TreasuryA :: u64
  vy_TreasuryB :: u64
  vy_IssuedShares :: u64

datatype OrderType =
    OrderTypeAddLiquidity
  | OrderTypeRemoveLiquidity
  | OrderTypeServe
  | OrderTypeTradeAToB
  | OrderTypeTradeBToA
  | OrderTypeZapInA
  | OrderTypeZapInB

record OrderDetails =
  od_Type :: OrderType
  MinWantedShares :: u64
  MinWantedTokens :: u64
  MinWantedTokensA :: u64
  MinWantedTokensB :: u64

record OrderDatum =
  vo_Owner :: bytes
  vo_OrderDetails :: OrderDetails

record vyfi_pool = parsed_pool +
  pp_Shares :: u64

type_synonym value_decoder = "bytes \<Rightarrow> (string, u64) gomap option"

definition vyfi_ProtocolName :: string where
  "vyfi_ProtocolName = ''vyfi''"

definition vyfi_FeeDenom :: u64 where
  "vyfi_FeeDenom = 1000"

section \<open>Decoders\<close>

definition decode_vyfi_PoolDatum :: "cbor_lib \<Rightarrow> bytes \<Rightarrow> vyfi_PoolDatum option" where
  "decode_vyfi_PoolDatum cb data = do {
     (tag, raw) \<leftarrow> dec_constr cb data;
     if tag \<noteq> 0 then None
     else do {
       flds \<leftarrow> dec_struct cb 3 raw;
       a \<leftarrow> dec_uint cb (flds ! 0);
       b \<leftarrow> dec_uint cb (flds ! 1);
       sh \<leftarrow> dec_uint cb (flds ! 2);
       Some \<lparr>vy_TreasuryA = a, vy_TreasuryB = b, vy_IssuedShares = sh\<rparr> } }"

definition vyfi_PoolDatum_String :: "vyfi_PoolDatum \<Rightarrow> string" where
  "vyfi_PoolDatum_String p =
     ''PoolDatum< treasuryA = '' @ show_nat (unat (vy_TreasuryA p)) @ '', treasuryB = '' @ show_nat (unat (vy_TreasuryB p))
     @ '', issuedShares = '' @ show_nat (unat (vy_IssuedShares p)) @ '' >''"

text \<open>The constructor of an order is its type, in the order of the constants.\<close>

definition order_type_of_tag :: "nat \<Rightarrow> OrderType option" where
  "order_type_of_tag tag =
     (if tag < 7 then Some ([OrderTypeAddLiquidity, OrderTypeRemoveLiquidity, OrderTypeServe, OrderTypeTradeAToB,
        OrderTypeTradeBToA, OrderTypeZapInA, OrderTypeZapInB] ! tag)
      else None)"

definition decode_OrderDetails :: "cbor_lib \<Rightarrow> bytes \<Rightarrow> OrderDetails option" where
  "decode_OrderDetails cb data = do {
     (tag, raw) \<leftarrow> dec_constr cb data;
     ty \<leftarrow> order_type_of_tag tag;
     let o0 = \<lparr>od_Type = ty, MinWantedShares = 0, MinWantedTokens = 0, MinWantedTokensA = 0, MinWantedTokensB = 0\<rparr>;
     if ty \<in> {OrderTypeAddLiquidity, OrderTypeZapInA, OrderTypeZapInB} then do {
       flds \<leftarrow> dec_struct cb 1 raw;
       n \<leftarrow> dec_uint cb (flds ! 0);
       Some (o0\<lparr>MinWantedShares := n\<rparr>) }
     else if ty = OrderTypeRemoveLiquidity then do {
       (tag', inner) \<leftarrow> dec_constr cb raw;
       flds \<leftarrow> dec_struct cb 2 inner;
       a \<leftarrow> dec_uint cb (flds ! 0);
       b \<leftarrow> dec_uint cb (flds ! 1);
       Some (o0\<lparr>MinWantedTokensA := a, MinWantedTokensB := b\<rparr>) }
     else if ty = OrderTypeServe then Some o0
     else do {
       flds \<leftarrow> dec_struct cb 1 raw;
       n \<leftarrow> dec_uint cb (flds ! 0);
       Some (o0\<lparr>MinWantedTokens := n\<rparr>) } }"

definition decode_OrderDatum :: "cbor_lib \<Rightarrow> bytes \<Rightarrow> OrderDatum option" where
  "decode_OrderDatum cb data = do {
     (tag, raw) \<leftarrow> dec_constr cb data;
     if tag \<noteq> 0 then None
     else do {
       flds \<leftarrow> dec_struct cb 2 raw;
       ow \<leftarrow> dec_bytes cb (flds ! 0);
       det \<leftarrow> decode_OrderDetails cb (flds ! 1);
       Some \<lparr>vo_Owner = ow, vo_OrderDetails = det\<rparr> } }"

definition IsSwap :: "OrderDetails \<Rightarrow> bool" where
  "IsSwap d = (od_Type d = OrderTypeTradeAToB \<or> od_Type d = OrderTypeTradeBToA)"

definition IsLiquidity :: "OrderDetails \<Rightarrow> bool" where
  "IsLiquidity d = (od_Type d = OrderTypeAddLiquidity \<or> od_Type d = OrderTypeRemoveLiquidity
     \<or> od_Type d = OrderTypeZapInA \<or> od_Type d = OrderTypeZapInB)"

section \<open>Parser\<close>

text \<open>\<open>strings.Index(s, ".")\<close>: the position of the first dot.\<close>

definition dot_index :: "string \<Rightarrow> nat option" where
  "dot_index s = (if CHR ''.'' \<in> set s then Some (length (takeWhile ((\<noteq>) (CHR ''.'')) s)) else None)"

definition parseAssetId :: "string \<Rightarrow> parse_error + AssetClass" where
  "parseAssetId assetId =
     (let decode = (\<lambda>policyIdHex nameHex.
            (case hex_decode policyIdHex of
               None \<Rightarrow> Inl PolicyHexError
             | Some policyId \<Rightarrow>
                 (case hex_decode nameHex of
                    None \<Rightarrow> Inl NameHexError
                  | Some name \<Rightarrow> Inr \<lparr>PolicyId = policyId, Name = name\<rparr>)))
      in case dot_index assetId of
           Some i \<Rightarrow> decode (take i assetId) (drop (i + 1) assetId)
         | None \<Rightarrow>
             if length assetId < 56 then Inl (AssetIdTooShort assetId)
             else decode (take 56 assetId) (drop 56 assetId))"

text \<open>
  The loops of \<open>extractAssetsFromUtxoValue\<close>: the first collects the lovelace amount and the other
  assets in order, the second counts the assets of amount one and of a larger amount and keeps the
  last of each; an amount of zero ends it.
\<close>

fun split_value :: "(string, u64) gomap \<Rightarrow> u64 \<times> (string \<times> u64) list \<Rightarrow> u64 \<times> (string \<times> u64) list" where
  "split_value [] acc = acc"
| "split_value ((assetId, amount) # rest) (ada, others) =
     (if assetId = ''lovelace'' then split_value rest (amount, others)
      else split_value rest (ada, others @ [(assetId, amount)]))"

record asset_tally =
  nftCount :: nat
  tokenCount :: nat
  nftAsset :: string
  tokenAsset :: string

fun tally_assets :: "(string \<times> u64) list \<Rightarrow> asset_tally \<Rightarrow> parse_error + asset_tally" where
  "tally_assets [] acc = Inr acc"
| "tally_assets ((assetId, amount) # rest) acc =
     (if amount = 1 then tally_assets rest (acc\<lparr>nftCount := nftCount acc + 1, nftAsset := assetId\<rparr>)
      else if amount > 1 then tally_assets rest (acc\<lparr>tokenCount := tokenCount acc + 1, tokenAsset := assetId\<rparr>)
      else Inl (ZeroAssetAmount assetId))"

definition extractAssetsFromUtxoValue ::
  "value_decoder \<Rightarrow> bytes \<Rightarrow> parse_error + AssetClass \<times> AssetClass \<times> string" where
  "extractAssetsFromUtxoValue dv utxoValue =
     (case dv utxoValue of
        None \<Rightarrow> Inl ValueDecodeError
      | Some value \<Rightarrow>
          (case split_value value (0, []) of
             (adaAmount, nonAdaAssets) \<Rightarrow>
               if adaAmount = 0 then Inl NoAda
               else case tally_assets nonAdaAssets \<lparr>nftCount = 0, tokenCount = 0, nftAsset = [], tokenAsset = []\<rparr> of
                 Inl e \<Rightarrow> Inl e
               | Inr t \<Rightarrow>
                   if nftCount t = 0 then Inl NoNFT
                   else if nftCount t > 1 then Inl (MultipleNFTs (nftCount t))
                   else if tokenCount t = 0 then Inl NoToken
                   else if tokenCount t > 1 then Inl (MultipleTokens (tokenCount t))
                   else case parseAssetId (tokenAsset t) of
                     Inl e \<Rightarrow> Inl e
                   | Inr tokenClass \<Rightarrow> Inr (\<lparr>PolicyId = [], Name = []\<rparr>, tokenClass, nftAsset t)))"

definition vyfi_GeneratePoolId :: "string \<Rightarrow> AssetClass \<Rightarrow> AssetClass \<Rightarrow> string" where
  "vyfi_GeneratePoolId poolNFT assetA assetB =
     (if poolNFT \<noteq> [] then ''vyfi_'' @ poolNFT
      else ''vyfi_'' @ hex_encode (PolicyId assetA) @ ''.'' @ hex_encode (Name assetA) @ ''_''
        @ hex_encode (PolicyId assetB) @ ''.'' @ hex_encode (Name assetB))"

definition vyfi_ParsePoolDatum ::
  "cbor_lib \<Rightarrow> value_decoder \<Rightarrow> bytes \<Rightarrow> bytes \<Rightarrow> string \<Rightarrow> u32 \<Rightarrow> u64 \<Rightarrow> time \<Rightarrow> parse_error + vyfi_pool" where
  "vyfi_ParsePoolDatum cb dv datum utxoValue txHash txIndex slot timestamp =
     (case decode_vyfi_PoolDatum cb datum of
        None \<Rightarrow> Inl DatumDecodeError
      | Some d \<Rightarrow>
          (case extractAssetsFromUtxoValue dv utxoValue of
             Inl e \<Rightarrow> Inl e
           | Inr (assetA, assetB, poolNFT) \<Rightarrow> Inr
               \<lparr>pp_PoolId = vyfi_GeneratePoolId poolNFT assetA assetB, pp_Protocol = vyfi_ProtocolName,
                pp_AssetX = \<lparr>Class = assetA, Amount = vy_TreasuryA d\<rparr>,
                pp_AssetY = \<lparr>Class = assetB, Amount = vy_TreasuryB d\<rparr>,
                pp_FeeNum = 997, pp_FeeDenom = 1000, pp_Slot = slot, pp_TxHash = txHash, pp_TxIndex = txIndex,
                pp_Timestamp = timestamp, pp_Shares = vy_IssuedShares d\<rparr>))"

definition ParsePoolDatumSimple :: "cbor_lib \<Rightarrow> bytes \<Rightarrow> parse_error + vyfi_PoolDatum" where
  "ParsePoolDatumSimple cb datum =
     (case decode_vyfi_PoolDatum cb datum of None \<Rightarrow> Inl DatumDecodeError | Some d \<Rightarrow> Inr d)"

definition vyfi_PriceXY :: "vyfi_pool \<Rightarrow> f64" where
  "vyfi_PriceXY p =
     (if Amount (pp_AssetX p) = 0 then Fin 0
      else f64_div (f64_of_u64 (Amount (pp_AssetY p))) (f64_of_u64 (Amount (pp_AssetX p))))"

text \<open>The wrapper \<open>VyFiParser.ParsePoolDatum\<close> of \<open>dex/vyfi.go\<close>, which drops the shares.\<close>

definition VyFiParser_ParsePoolDatum :: "cbor_lib \<Rightarrow> value_decoder \<Rightarrow> parse_error pool_parse" where
  "VyFiParser_ParsePoolDatum cb dv datum utxoValue txHash txIndex slot timestamp =
     (case vyfi_ParsePoolDatum cb dv datum utxoValue txHash txIndex slot timestamp of
        Inl e \<Rightarrow> Inl e
      | Inr state \<Rightarrow> Inr (to_pool_state state))"

section \<open>Lemmas\<close>

lemma vyfi_price_agrees: "vyfi_PriceXY q = PriceXY (to_pool_state q)"
  by (simp add: vyfi_PriceXY_def PriceXY_def to_pool_state_def)

lemma vyfi_wrap_iff:
  "VyFiParser_ParsePoolDatum cb dv d v h i s t = Inr p \<longleftrightarrow>
     (\<exists>q. vyfi_ParsePoolDatum cb dv d v h i s t = Inr q \<and> p = to_pool_state q)"
  by (auto simp: VyFiParser_ParsePoolDatum_def split: sum.splits)

lemma vyfi_parse_ok:
  assumes "vyfi_ParsePoolDatum cb dv d v h i s t = Inr q"
  shows "pp_TxHash q = h \<and> pp_TxIndex q = i \<and> pp_Slot q = s \<and> pp_Timestamp q = t"
    and "pp_Protocol q = vyfi_ProtocolName" and "0 < pp_FeeDenom q \<and> pp_FeeNum q \<le> pp_FeeDenom q"
  using assms by (auto simp: vyfi_ParsePoolDatum_def split: option.splits sum.splits)

interpretation vyfi: pool_parser "VyFiParser_ParsePoolDatum cb dv" vyfi_ProtocolName
  by unfold_locales (auto simp: vyfi_wrap_iff to_pool_state_def dest: vyfi_parse_ok)


section \<open>The assets of a pool\<close>

lemma u64_gt_1: "(q :: u64) \<noteq> 0 \<Longrightarrow> q \<noteq> 1 \<Longrightarrow> q > 1"
proof -
  assume "q \<noteq> 0" "q \<noteq> 1"
  moreover from this have "unat q \<noteq> 1" by (metis unat_1 unsigned_word_eqI)
  ultimately have "1 < unat q" by (cases "unat q") auto
  then show ?thesis by (simp add: word_less_nat_alt)
qed

lemma split_value_eq:
  "split_value vs (ada, others) =
     (fold (\<lambda>(k, q) a. if k = ''lovelace'' then q else a) vs ada,
      others @ filter (\<lambda>(k, q). k \<noteq> ''lovelace'') vs)"
  by (induction vs "(ada, others)" arbitrary: ada others rule: split_value.induct) auto

lemma lovelace_fold:
  "gomap_ok vs \<Longrightarrow> fold (\<lambda>(k, q) a. if k = ''lovelace'' then q else a) vs ada =
     (case map_of vs ''lovelace'' of None \<Rightarrow> ada | Some q \<Rightarrow> q)"
proof (induction vs arbitrary: ada)
  case Nil
  then show ?case by simp
next
  case (Cons kq vs)
  obtain k q where [simp]: "kq = (k, q)" by (cases kq)
  show ?case
  proof (cases "k = ''lovelace''")
    case True
    then have "map_of vs ''lovelace'' = None"
      using Cons.prems by (auto simp: gomap_ok_def map_of_eq_None_iff)
    then show ?thesis using True Cons by (simp add: gomap_ok_def)
  next
    case False
    then show ?thesis using Cons by (simp add: gomap_ok_def)
  qed
qed

lemma tally_assets_Inr:
  assumes "\<forall>(k, q) \<in> set xs. q \<noteq> 0"
  shows "tally_assets xs acc = Inr
    \<lparr>nftCount = nftCount acc + length (filter (\<lambda>(k, q). q = 1) xs),
     tokenCount = tokenCount acc + length (filter (\<lambda>(k, q). q \<noteq> 1) xs),
     nftAsset = last (nftAsset acc # map fst (filter (\<lambda>(k, q). q = 1) xs)),
     tokenAsset = last (tokenAsset acc # map fst (filter (\<lambda>(k, q). q \<noteq> 1) xs))\<rparr>"
  using assms
proof (induction xs acc rule: tally_assets.induct)
  case (1 acc)
  then show ?case by simp
next
  case (2 assetId amount rest acc)
  then have "amount \<noteq> 1 \<Longrightarrow> amount > 1" using u64_gt_1 [of amount] by simp
  then show ?case using 2 by auto
qed

lemma tally_assets_Inl: "\<not> (\<forall>(k, q) \<in> set xs. q \<noteq> 0) \<Longrightarrow> \<exists>e. tally_assets xs acc = Inl e"
  by (induction xs acc rule: tally_assets.induct) auto


lemma filter_key:
  "gomap_ok m \<Longrightarrow> filter (\<lambda>(k', q). k' = k) m = (case map_of m k of None \<Rightarrow> [] | Some v \<Rightarrow> [(k, v)])"
proof (induction m)
  case Nil
  then show ?case by simp
next
  case (Cons kv m)
  obtain k' v' where [simp]: "kv = (k', v')" by (cases kv)
  show ?case
  proof (cases "k' = k")
    case True
    then have "map_of m k = None" using Cons.prems by (auto simp: gomap_ok_def map_of_eq_None_iff)
    then show ?thesis using Cons True by (simp add: gomap_ok_def)
  next
    case False
    then show ?thesis using Cons by (simp add: gomap_ok_def)
  qed
qed

abbreviation is_nft :: "string \<times> u64 \<Rightarrow> bool" where
  "is_nft \<equiv> \<lambda>(k, q). q = 1"

abbreviation is_token :: "string \<times> u64 \<Rightarrow> bool" where
  "is_token \<equiv> \<lambda>(k, q). q \<noteq> 1"

abbreviation not_ada :: "string \<times> u64 \<Rightarrow> bool" where
  "not_ada \<equiv> \<lambda>(k, q). k \<noteq> ''lovelace''"

lemma set_nft_token: "set xs = set (filter is_nft xs) \<union> set (filter is_token xs)"
  by auto

lemma length_1_conv: "length xs = 1 \<longleftrightarrow> (\<exists>x. xs = [x])"
  by (cases xs) auto

lemma extractAssets_lists:
  assumes "dv raw = Some vs" and "gomap_ok vs"
  shows "extractAssetsFromUtxoValue dv raw = Inr (a, b, nft) \<longleftrightarrow>
    (\<exists>ada tok q. map_of vs ''lovelace'' = Some ada \<and> ada \<noteq> 0 \<and> q \<noteq> 0 \<and> filter is_nft (filter not_ada vs) = [(nft, 1)]
       \<and> filter is_token (filter not_ada vs) = [(tok, q)] \<and> parseAssetId tok = Inr b \<and> a = Lovelace)"
    (is "?L = ?R")
proof -
  let ?xs = "filter not_ada vs"
  let ?t0 = "\<lparr>nftCount = 0, tokenCount = 0, nftAsset = [], tokenAsset = []\<rparr> :: asset_tally"
  have split: "split_value vs (0, []) = (case map_of vs ''lovelace'' of None \<Rightarrow> 0 | Some q \<Rightarrow> q, ?xs)"
    by (simp add: split_value_eq lovelace_fold [OF assms(2)])
  show ?thesis
  proof (cases "\<forall>(k, q) \<in> set ?xs. q \<noteq> 0")
    case False
    then obtain e where "tally_assets ?xs ?t0 = Inl e" using tally_assets_Inl by blast
    then have "\<not> ?L" by (simp add: extractAssetsFromUtxoValue_def assms(1) split)
    moreover have "\<not> ?R"
    proof
      assume ?R
      then obtain tok q where "q \<noteq> 0" "filter is_nft ?xs = [(nft, 1)]" "filter is_token ?xs = [(tok, q)]" by blast
      then have "set ?xs \<subseteq> {(nft, 1), (tok, q)}"
        using set_nft_token [of ?xs] by simp
      then show False using False \<open>q \<noteq> 0\<close> by auto
    qed
    ultimately show ?thesis by blast
  next
    case True
    let ?N = "filter is_nft ?xs" and ?T = "filter is_token ?xs"
    show ?thesis
    proof (cases "length ?N = 1 \<and> length ?T = 1")
      case False
      have "length ?N \<noteq> 0 \<and> \<not> length ?N > 1 \<and> length ?T \<noteq> 0 \<and> \<not> length ?T > 1" if ?L
        using that unfolding extractAssetsFromUtxoValue_def assms(1) split option.case prod.case tally_assets_Inr [OF True] sum.case
        by (simp del: filter_filter length_0_conv length_greater_0_conv split: if_splits)
      then have "\<not> ?L" using False by linarith
      moreover have "\<not> ?R" using False by auto
      ultimately show ?thesis by blast
    next
      case one: True
      then obtain n i where N: "?N = [(n, i)]" by (metis length_1_conv surj_pair)
      obtain k q where T: "?T = [(k, q)]" using one by (metis length_1_conv surj_pair)
      have "(n, i) \<in> set ?N" "(k, q) \<in> set ?T" unfolding N T by simp_all
      then have "i = 1" "q \<noteq> 0" using True by auto
      then show ?thesis
        unfolding extractAssetsFromUtxoValue_def assms(1) split option.case prod.case tally_assets_Inr [OF True] sum.case N T
        by (auto simp: Lovelace_def split: option.splits sum.splits)
    qed
  qed
qed


lemma mset_filter_split: "mset xs = mset (filter P xs) + mset (filter (\<lambda>x. \<not> P x) xs)"
  by (induction xs) auto

lemma mset_value_parts:
  assumes "gomap_ok vs" and "map_of vs ''lovelace'' = Some ada"
  shows "mset vs = {#(''lovelace'', ada)#} + mset (filter is_nft (filter not_ada vs)) + mset (filter is_token (filter not_ada vs))"
proof -
  have "mset vs = mset (filter (\<lambda>(k, q). k = ''lovelace'') vs) + mset (filter not_ada vs)"
    using mset_filter_split [of vs "\<lambda>(k, q). k = ''lovelace''"] by (simp add: case_prod_unfold)
  moreover have "mset (filter not_ada vs) = mset (filter is_nft (filter not_ada vs)) + mset (filter is_token (filter not_ada vs))"
    using mset_filter_split [of "filter not_ada vs" is_nft] by (simp add: case_prod_unfold)
  ultimately show ?thesis using filter_key [OF assms(1), of "''lovelace''"] assms(2) by simp
qed

text \<open>The assets of a VyFi pool are read off its value exactly when the value holds lovelace, one
  asset of amount one and one of a larger amount, and nothing else; the first is the pool's NFT, the
  second its token, which has to have a well-formed identifier. The answer does not depend on the
  order in which the map is walked.\<close>

lemma vyfi_assets_exact:
  assumes "dv raw = Some vs" and "gomap_ok vs"
  shows "extractAssetsFromUtxoValue dv raw = Inr (a, b, nft) \<longleftrightarrow>
    a = Lovelace \<and> (\<exists>ada tok q. ada \<noteq> 0 \<and> q > 1 \<and> parseAssetId tok = Inr b
       \<and> mset vs = {#(''lovelace'', ada), (nft, 1), (tok, q)#})"
    (is "?L = ?R")
proof
  assume ?L
  then obtain ada tok q where h: "map_of vs ''lovelace'' = Some ada" "ada \<noteq> 0" "q \<noteq> 0"
    "filter is_nft (filter not_ada vs) = [(nft, 1)]" "filter is_token (filter not_ada vs) = [(tok, q)]"
    "parseAssetId tok = Inr b" "a = Lovelace"
    using extractAssets_lists [of dv raw vs, OF assms] by blast
  then have "(tok, q) \<in> set (filter is_token (filter not_ada vs))" by simp
  then have "q > 1" using h(3) u64_gt_1 by auto
  moreover have "mset vs = {#(''lovelace'', ada), (nft, 1), (tok, q)#}"
    using mset_value_parts [OF assms(2) h(1)] unfolding h(4,5) by simp
  ultimately show ?R using h by blast
next
  assume ?R
  then obtain ada tok q where h: "a = Lovelace" "ada \<noteq> 0" "q > 1" "parseAssetId tok = Inr b"
    and m: "mset vs = {#(''lovelace'', ada), (nft, 1), (tok, q)#}" by blast
  have "mset (map fst vs) = mset [''lovelace'', nft, tok]" using m by simp
  then have "distinct [''lovelace'', nft, tok]"
    using assms(2) mset_eq_imp_distinct_iff unfolding gomap_ok_def by blast
  then have rest: "mset (filter not_ada vs) = {#(nft, 1), (tok, q)#}" using m by (auto simp: mset_filter)
  have "q \<noteq> 1" "q \<noteq> 0" using h(3) by auto
  then have "filter is_nft (filter not_ada vs) = [(nft, 1)]" "filter is_token (filter not_ada vs) = [(tok, q)]"
    unfolding mset_single_iff [symmetric] mset_filter [of _ "filter not_ada vs"] rest by simp_all
  moreover have "set_mset (mset vs) = {(''lovelace'', ada), (nft, 1), (tok, q)}" using m by simp
  then have "map_of vs ''lovelace'' = Some ada" by (intro gomap_ok_mem [OF assms(2)]) simp
  ultimately show ?L
    unfolding extractAssets_lists [of dv raw vs, OF assms] using h \<open>q \<noteq> 0\<close> by blast
qed


definition ada_wmt_value :: "(string, u64) gomap" where
  "ada_wmt_value = [(''2b.77'', 1), (''lovelace'', 5000000), (''1d.574d54'', 800)]"

text \<open>Both forms of an asset text are read back to the class they were written from.\<close>

lemma parseAssetId_dotted: "parseAssetId (class_text c) = Inr c"
proof -
  have "takeWhile ((\<noteq>) (CHR ''.'')) (xs @ CHR ''.'' # ys) = xs" if "CHR ''.'' \<notin> set xs" for xs ys
    using that by (induction xs) auto
  then have "dot_index (class_text c) = Some (length (hex_encode (PolicyId c)))"
    by (simp add: dot_index_def class_text_def hex_encode_no_sep dot_not_hex)
  then show ?thesis by (simp add: parseAssetId_def class_text_def)
qed

lemma parseAssetId_concatenated:
  assumes "length (PolicyId c) = 28"
  shows "parseAssetId (hex_encode (PolicyId c) @ hex_encode (Name c)) = Inr c"
proof -
  have "length (hex_encode bs) = 2 * length bs" for bs by (induction bs) simp_all
  moreover have "dot_index (hex_encode (PolicyId c) @ hex_encode (Name c)) = None"
    by (simp add: dot_index_def hex_encode_no_sep dot_not_hex)
  ultimately show ?thesis using assms by (simp add: parseAssetId_def)
qed

end
