(* ===== verification/Dex_Parsers.thy ===== *)
theory Dex_Parsers
  imports Minswap Sundaeswap Splash Wingriders Cswap Vyfi
begin

text \<open>
  The parsers together: the locator registry of \<open>dex/locator.go\<close>, the choice of a parser by protocol
  name (\<open>getOracleParser\<close> of \<open>cmd/shai/main.go\<close>) and the calls of the \<open>PoolParser\<close> interface, which go
  to the chosen parser. The libraries the parsers call are the fields of one record.
\<close>

section \<open>Choosing a parser\<close>

record parser_libs =
  pl_cbor :: cbor_lib
  pl_output :: output_decoder
  pl_value :: value_decoder

datatype oracle_parser =
    MinswapParser minswap_version
  | SundaeSwapParser nat
  | SplashParser
  | WingRidersParser
  | VyFiParser
  | CSwapParser

definition getOracleParser :: "string \<Rightarrow> oracle_parser option" where
  "getOracleParser protocol =
     (if protocol = ''minswap-v1'' then Some (MinswapParser MinswapV1)
      else if protocol = ''minswap-v2'' \<or> protocol = ''minswap'' then Some (MinswapParser MinswapV2)
      else if protocol = ''sundaeswap-v1'' then Some (SundaeSwapParser 1)
      else if protocol = ''sundaeswap-v3'' \<or> protocol = ''sundaeswap'' then Some (SundaeSwapParser 3)
      else if protocol = ''splash-v1'' \<or> protocol = ''splash'' then Some SplashParser
      else if protocol = ''wingriders-v2'' \<or> protocol = ''wingriders'' then Some WingRidersParser
      else if protocol = ''vyfi'' then Some VyFiParser
      else if protocol = ''cswap'' then Some CSwapParser
      else None)"

fun parser_Protocol :: "oracle_parser \<Rightarrow> string" where
  "parser_Protocol (MinswapParser ver) = minswap_Protocol ver"
| "parser_Protocol (SundaeSwapParser ver) = sundae_Protocol ver"
| "parser_Protocol SplashParser = splash_Protocol"
| "parser_Protocol WingRidersParser = wing_Protocol"
| "parser_Protocol VyFiParser = vyfi_ProtocolName"
| "parser_Protocol CSwapParser = cswap_ProtocolName"

fun parser_ParsePoolDatum :: "parser_libs \<Rightarrow> oracle_parser \<Rightarrow> parse_error pool_parse" where
  "parser_ParsePoolDatum L (MinswapParser ver) = MinswapParser_ParsePoolDatum (pl_cbor L) (pl_output L) ver"
| "parser_ParsePoolDatum L (SundaeSwapParser ver) = SundaeSwapParser_ParsePoolDatum (pl_cbor L) (pl_output L) ver"
| "parser_ParsePoolDatum L SplashParser = SplashParser_ParsePoolDatum (pl_cbor L) (pl_output L)"
| "parser_ParsePoolDatum L WingRidersParser = WingRidersParser_ParsePoolDatum (pl_cbor L)"
| "parser_ParsePoolDatum L VyFiParser = VyFiParser_ParsePoolDatum (pl_cbor L) (pl_value L)"
| "parser_ParsePoolDatum L CSwapParser = CSwapParser_ParsePoolDatum (pl_cbor L) (pl_output L)"

text \<open>Every parser of the interface keeps its contract.\<close>

interpretation any: pool_parser "parser_ParsePoolDatum L P" "parser_Protocol P"
  by (cases P) (simp_all add: minswap.pool_parser_axioms sundaeswap.pool_parser_axioms splash.pool_parser_axioms
      wingriders.pool_parser_axioms vyfi.pool_parser_axioms cswap.pool_parser_axioms)

section \<open>Locators\<close>

record PoolLocator =
  pl_Protocol :: string
  pl_Network :: string
  pl_Addresses :: "string list"
  pl_PoolNFTPolicy :: string

definition mainnet_locator :: "string \<Rightarrow> string list \<Rightarrow> string \<times> PoolLocator" where
  "mainnet_locator protocol addresses =
     (protocol, \<lparr>pl_Protocol = protocol, pl_Network = ''mainnet'', pl_Addresses = addresses, pl_PoolNFTPolicy = []\<rparr>)"

definition mainnetLocators :: "(string, PoolLocator) gomap" where
  "mainnetLocators = [
     mainnet_locator ''minswap-v1''
       [''addr1z8snz7c4974vzdpxu65ruphl3zjdvtxw8strf2c2tmqnxzfgf2ypu62xjxel6aqdmr333p0ds377t4phv8098c8s8fmqffc3l3''],
     mainnet_locator ''minswap-v2''
       [''addr1z8snz7c4974vzdpxu65ruphl3zjdvtxw8strf2c2tmqnxz2j2c79gy9l76sdg0xwhd7r0c0kna0tycz4y5s6mlenh8pq0xmsha''],
     mainnet_locator ''sundaeswap-v1''
       [''addr1wyx22z2s4kasd3w976pnjf9xdty88epjqfvgkmfnfpsdacqe7utc8''],
     mainnet_locator ''sundaeswap-v3''
       [''addr1x8srqftqemf0mjlukfszd97ljuxdp44r372txfcr75wrz26rnxqnmtv3hdu2t6chcfhl2zzjh36a87nmd6dwsu3jenqsslnz7e''],
     mainnet_locator ''splash-v1''
       [''addr1w94ec3t25egvhqy2n265xfhq882jxhkknurfe9ny4rl9k6g03d4zz''],
     mainnet_locator ''wingriders-v2''
       [''addr1w8nvjzjeydcn4atcd93aac8allvrpjn7pjr2qsweukpnayghhwcpj''],
     mainnet_locator ''vyfi''
       [''addr1z9vgl40qezca5s8ajz6wnpuwevt98l3jqx2ce5nlu8h8nnw60wckas4haxwwclas0g39cc8cvt2r8yalrfa9e8vxx92qsss9sx''],
     mainnet_locator ''cswap''
       [''addr1z8ke0c9p89rjfwmuh98jpt8ky74uy5mffjft3zlcld9h7ml3lmln3mwk0y3zsh3gs3dzqlwa9rjzrxawkwm4udw9axhs6fuu6e'']]"

definition Locator :: "string \<Rightarrow> PoolLocator \<times> bool" where
  "Locator protocol = (case map_of mainnetLocators protocol of
     None \<Rightarrow> (\<lparr>pl_Protocol = [], pl_Network = [], pl_Addresses = [], pl_PoolNFTPolicy = []\<rparr>, False)
   | Some loc \<Rightarrow> (loc, True))"

definition Locators :: "PoolLocator list" where
  "Locators = map snd mainnetLocators"

definition PoolAddresses :: "string \<Rightarrow> string list" where
  "PoolAddresses protocol = (case map_of mainnetLocators protocol of None \<Rightarrow> [] | Some loc \<Rightarrow> pl_Addresses loc)"

text \<open>\<open>poolAddrs\<close> of \<open>internal/config/profiles.go\<close>: the addresses an oracle profile watches.\<close>

definition poolAddrs :: "string \<Rightarrow> string list" where
  "poolAddrs protocol = map (\<lambda>a. a) (PoolAddresses protocol)"

lemma protocol_names:
  "minswap_Protocol MinswapV1 = ''minswap-v1''" "minswap_Protocol MinswapV2 = ''minswap-v2''"
  "sundae_Protocol (Suc 0) = ''sundaeswap-v1''" "sundae_Protocol 3 = ''sundaeswap-v3''"
  "splash_Protocol = ''splash-v1''" "wing_Protocol = ''wingriders-v2''" "vyfi_ProtocolName = ''vyfi''"
  "cswap_ProtocolName = ''cswap''"
proof -
  have "show_nat (Suc 0) = ''1''" by code_simp
  moreover have "show_nat 3 = ''3''" by code_simp
  ultimately show "sundae_Protocol (Suc 0) = ''sundaeswap-v1''" "sundae_Protocol 3 = ''sundaeswap-v3''"
    by (simp_all add: sundae_Protocol_def sundae_ProtocolName_def)
qed (simp_all add: minswap_Protocol_def splash_Protocol_def wing_Protocol_def minswap_ProtocolName_def
    splash_ProtocolName_def wing_ProtocolName_def vyfi_ProtocolName_def cswap_ProtocolName_def)

lemma locator_keys:
  "map fst mainnetLocators = [''minswap-v1'', ''minswap-v2'', ''sundaeswap-v1'', ''sundaeswap-v3'', ''splash-v1'',
     ''wingriders-v2'', ''vyfi'', ''cswap'']"
  by (simp add: mainnetLocators_def mainnet_locator_def)

lemma getOracleParser_range:
  "getOracleParser name = Some P \<Longrightarrow> P \<in> {MinswapParser MinswapV1, MinswapParser MinswapV2, SundaeSwapParser (Suc 0),
     SundaeSwapParser 3, SplashParser, WingRidersParser, VyFiParser, CSwapParser}"
  unfolding getOracleParser_def by (simp split: if_split_asm)

text \<open>Every parser the service can choose has a locator under the name it reports.\<close>

lemma known_protocols:
  assumes "getOracleParser name = Some P"
  shows "parser_Protocol P \<in> set (map fst mainnetLocators)"
  using getOracleParser_range [OF assms] unfolding locator_keys by (auto simp: protocol_names)

lemma locators_named: "list_all (\<lambda>(k, loc). pl_Protocol loc = k \<and> pl_Addresses loc \<noteq> []) mainnetLocators"
  by (simp add: mainnetLocators_def mainnet_locator_def)

lemma locator_addresses_distinct: "distinct (concat (map pl_Addresses Locators))"
  by (simp add: Locators_def mainnetLocators_def mainnet_locator_def)


section \<open>Pool identifiers\<close>

text \<open>The form of the identifier each parser gives to the pools it accepts.\<close>

fun id_form :: "oracle_parser \<Rightarrow> AssetClass \<Rightarrow> AssetClass \<Rightarrow> string \<Rightarrow> bool" where
  "id_form (MinswapParser ver) x y s = (s = ''minswap_'' @ class_text x @ ''_'' @ class_text y)"
| "id_form (SundaeSwapParser ver) x y s =
     (if ver = 1 then \<exists>ident. s = ''sundaeswap_'' @ hex_encode ident
      else ver = 3 \<and> s = ''sundaeswap_'' @ class_text x @ ''_'' @ class_text y)"
| "id_form SplashParser x y s = (s = splash_GeneratePoolId (PolicyId x) (Name x) (PolicyId y) (Name y))"
| "id_form WingRidersParser x y s = (s = ''wingriders_'' @ class_text x @ ''_'' @ class_text y)"
| "id_form VyFiParser x y s = (\<exists>r. s = ''vyfi_'' @ r)"
| "id_form CSwapParser x y s = (\<exists>c. s = ''cswap_'' @ class_text c)"

lemma minswap_id_form:
  "MinswapParser_ParsePoolDatum cb out ver d v h i s t = Inr p \<Longrightarrow>
     id_form (MinswapParser ver) (Class (AssetX p)) (Class (AssetY p)) (PoolId p)"
  by (auto simp: minswap_wrap_iff to_pool_state_def minswap_ParsePoolDatum_def minswap_parseV1Datum_def Let_def
      minswap_parseV2Datum_def minswap_GeneratePoolId_def class_text_def split: if_splits option.splits sum.splits)

lemma sundae_id_form:
  "SundaeSwapParser_ParsePoolDatum cb out ver d v h i s t = Inr p \<Longrightarrow>
     id_form (SundaeSwapParser ver) (Class (AssetX p)) (Class (AssetY p)) (PoolId p)"
  by (auto simp: sundae_wrap_iff to_pool_state_def sundae_ParsePoolDatum_def sundae_parseV1Datum_def Let_def
      sundae_parseV3Datum_def sundae_GeneratePoolId_def GeneratePoolIdentId_def class_text_def
      split: if_splits option.splits sum.splits)

lemma parsed_id_form:
  assumes "parser_ParsePoolDatum L P d v h i s t = Inr p"
  shows "id_form P (Class (AssetX p)) (Class (AssetY p)) (PoolId p)"
proof (cases P)
  case SplashParser
  then show ?thesis
    using assms by (auto simp: splash_wrap_iff to_pool_state_def splash_ParsePoolDatum_def Let_def
        split: if_splits option.splits sum.splits)
next
  case WingRidersParser
  then show ?thesis
    using assms by (auto simp: wing_wrap_iff to_pool_state_def wing_ParsePoolDatum_def Let_def wing_GeneratePoolId_def
        class_text_def split: if_splits option.splits)
next
  case VyFiParser
  then show ?thesis
    using assms by (auto simp: vyfi_wrap_iff to_pool_state_def vyfi_ParsePoolDatum_def vyfi_GeneratePoolId_def
        split: option.splits sum.splits)
next
  case CSwapParser
  have "\<exists>c. cswap_GeneratePoolId a b = ''cswap_'' @ class_text c" for a b
    by (intro exI [of _ "\<lparr>PolicyId = a, Name = b\<rparr>"]) (simp add: cswap_GeneratePoolId_def class_text_def cswap_ProtocolName_def)
  then show ?thesis
    using assms CSwapParser by (auto simp: cswap_wrap_iff to_pool_state_def cswap_ParsePoolDatum_def
        split: if_splits option.splits sum.splits)
next
  case (MinswapParser ver)
  then show ?thesis using minswap_id_form assms by (simp del: id_form.simps)
next
  case (SundaeSwapParser ver)
  then show ?thesis using sundae_id_form assms by (simp del: id_form.simps)
qed

text \<open>The two versions of Minswap name their pools in the same way; every other parser has names of its own.\<close>

fun id_family :: "oracle_parser \<Rightarrow> oracle_parser" where
  "id_family (MinswapParser ver) = MinswapParser MinswapV2"
| "id_family P = P"

lemma splash_id_no_underscore: "CHR ''_'' \<notin> set (splash_GeneratePoolId a b c d)"
  by (simp add: splash_GeneratePoolId_def Let_def hex_encode_no_sep is_hex_def hex_val_def)

lemma underscore_sep: "CHR ''_'' \<notin> set (class_text c)"
  by (simp add: sep_not_class is_hex_def hex_val_def)

lemma pair_text_inject:
  "class_text a @ CHR ''_'' # class_text b = class_text c @ CHR ''_'' # class_text d \<longleftrightarrow> a = c \<and> b = d"
  using append_sep_inject [of "class_text a" "CHR ''_''" "class_text b" "class_text c" "class_text d"] underscore_sep
  by auto

lemma hex_not_pair: "hex_encode i \<noteq> class_text c @ r"
proof
  assume "hex_encode i = class_text c @ r"
  then have "CHR ''.'' \<in> set (hex_encode i)" by (simp add: class_text_def)
  then show False using hex_encode_no_sep [OF dot_not_hex] by blast
qed

fun id_tag :: "oracle_parser \<Rightarrow> string" where
  "id_tag (MinswapParser ver) = ''minswap_''"
| "id_tag (SundaeSwapParser ver) = ''sundaeswap_''"
| "id_tag SplashParser = []"
| "id_tag WingRidersParser = ''wingriders_''"
| "id_tag VyFiParser = ''vyfi_''"
| "id_tag CSwapParser = ''cswap_''"

lemma id_form_tag: "id_form P x y s \<Longrightarrow> P \<noteq> SplashParser \<Longrightarrow> \<exists>r. s = id_tag P @ r"
  by (cases P) (simp_all only: id_form.simps id_tag.simps split: if_split_asm, blast+)

lemma id_tag_underscore: "P \<noteq> SplashParser \<Longrightarrow> CHR ''_'' \<in> set (id_tag P)"
  by (cases P) simp_all

lemma id_tag_take: "P \<noteq> SplashParser \<Longrightarrow> take 2 (id_tag P @ r) = take 2 (id_tag P)"
  by (cases P) simp_all

lemma id_tag_family:
  "take 2 (id_tag P) = take 2 (id_tag P') \<Longrightarrow>
     id_family P = id_family P' \<or> (\<exists>m n. P = SundaeSwapParser m \<and> P' = SundaeSwapParser n)"
  by (cases P; cases P') simp_all

lemma sundae_forms_apart:
  assumes "id_form (SundaeSwapParser m) x y s" and "id_form (SundaeSwapParser n) x' y' s"
  shows "m = n"
  using assms hex_not_pair hex_not_pair [symmetric] unfolding id_form.simps
  by (auto simp only: same_append_eq split: if_split_asm)

lemma id_forms_apart:
  assumes "id_form P x y s" and "id_form P' x' y' s"
  shows "id_family P = id_family P'"
proof (cases "P = SplashParser \<or> P' = SplashParser")
  case True
  have "CHR ''_'' \<in> set s" if "id_form Q a b s" "Q \<noteq> SplashParser" for Q a b
    using id_form_tag [OF that] id_tag_underscore [OF that(2)] by auto
  then have "P = SplashParser \<and> P' = SplashParser"
    using True assms splash_id_no_underscore by (metis id_form.simps(3))
  then show ?thesis by simp
next
  case False
  then obtain r r' where "s = id_tag P @ r" "s = id_tag P' @ r'"
    using id_form_tag assms by meson
  then have "take 2 (id_tag P) = take 2 (id_tag P')" using False id_tag_take by metis
  then consider "id_family P = id_family P'" | m n where "P = SundaeSwapParser m" "P' = SundaeSwapParser n"
    using id_tag_family by blast
  then show ?thesis
  proof cases
    case 2
    then show ?thesis using sundae_forms_apart assms by blast
  qed
qed


section \<open>Properties\<close>

text \<open>C32: whatever parser the service chose, a pool state it returns carries the transaction, the slot
  and the time it was parsed with, the protocol of the parser and a usable fee; with both reserves
  in place, a quote from either side succeeds for every amount.\<close>

theorem parsed_pools_quotable:
  assumes "parser_ParsePoolDatum L P datum utxoValue txHash txIndex slot timestamp = Inr p"
  shows "TxHash p = txHash \<and> TxIndex p = txIndex \<and> Slot p = slot \<and> Timestamp p = timestamp
    \<and> Protocol p = parser_Protocol P \<and> 0 < FeeDenom p \<and> FeeNum p \<le> FeeDenom p
    \<and> (Amount (AssetX p) = 0 \<or> Amount (AssetY p) = 0 \<or>
       (\<exists>r. Quote p (PolicyId (Class (AssetX p))) (Name (Class (AssetX p))) amountIn = Inr r)
       \<and> (\<exists>r. Quote p (PolicyId (Class (AssetY p))) (Name (Class (AssetY p))) amountIn = Inr r))"
proof -
  have "quote_reserves p (PolicyId (Class (AssetX p))) (Name (Class (AssetX p))) \<noteq> None"
    "quote_reserves p (PolicyId (Class (AssetY p))) (Name (Class (AssetY p))) \<noteq> None"
    by (simp_all add: quote_reserves_def)
  then show ?thesis
    using any.parse_coordinates [OF assms] any.parse_protocol [OF assms] any.parse_fee [OF assms]
      any.parsed_quote [OF assms] by blast
qed

text \<open>C33: pool identifiers keep pools apart. Two pools that parsers named alike come from the same
  protocol (the versions of Minswap apart), and where the name is made from the two assets they hold
  the same assets, for Splash in either order.\<close>

theorem pool_ids_identify:
  assumes "parser_ParsePoolDatum L P d v h i s t = Inr p" and "parser_ParsePoolDatum L P' d' v' h' i' s' t' = Inr p'"
    and "PoolId p = PoolId p'"
  shows "id_family P = id_family P'
    \<and> (id_family P \<in> {MinswapParser MinswapV2, SundaeSwapParser 3, WingRidersParser} \<longrightarrow>
        Class (AssetX p) = Class (AssetX p') \<and> Class (AssetY p) = Class (AssetY p'))
    \<and> (P = SplashParser \<longrightarrow> {Class (AssetX p), Class (AssetY p)} = {Class (AssetX p'), Class (AssetY p')})"
proof -
  have f: "id_form P (Class (AssetX p)) (Class (AssetY p)) (PoolId p)"
    "id_form P' (Class (AssetX p')) (Class (AssetY p')) (PoolId p)"
    using parsed_id_form assms by metis+
  have fam: "id_family P = id_family P'" using id_forms_apart [OF f] .
  show ?thesis
    using fam f by (cases P; cases P') (auto simp: pair_text_inject splash_id_iff)
qed

definition snek_libs :: parser_libs where
  "snek_libs = \<lparr>pl_cbor = unary_lib, pl_output = (\<lambda>_. Some ada_snek_value), pl_value = (\<lambda>_. None)\<rparr>"

lemma snek_pool:
  "\<exists>p. parser_ParsePoolDatum snek_libs SplashParser (splash_PoolDatum_MarshalCBOR unary_enc ada_snek_datum) [] ''aa'' 1 s 9 = Inr p
     \<and> PoolId p = splash_GeneratePoolId [] [] (replicate 28 9) [2] \<and> Amount (AssetX p) = 5000000 \<and> Amount (AssetY p) = 700"
  using ada_snek_parsed [of "[]" "''aa''" 1 s 9]
  by (simp add: snek_libs_def SplashParser_ParsePoolDatum_def to_pool_state_def)

theorem parsed_pools_quotable_witness:
  "\<exists>p r. parser_ParsePoolDatum snek_libs SplashParser (splash_PoolDatum_MarshalCBOR unary_enc ada_snek_datum) [] ''aa'' 1 77 9 = Inr p
     \<and> Slot p = 77 \<and> Quote p (PolicyId (Class (AssetX p))) (Name (Class (AssetX p))) 1000 = Inr r"
proof -
  obtain p where p: "parser_ParsePoolDatum snek_libs SplashParser (splash_PoolDatum_MarshalCBOR unary_enc ada_snek_datum) [] ''aa'' 1 77 9 = Inr p"
    "Amount (AssetX p) = 5000000" "Amount (AssetY p) = 700"
    using snek_pool by blast
  then show ?thesis using parsed_pools_quotable [OF p(1), of 1000] by auto
qed

theorem pool_ids_identify_witness:
  "\<exists>p p'. parser_ParsePoolDatum snek_libs SplashParser (splash_PoolDatum_MarshalCBOR unary_enc ada_snek_datum) [] ''aa'' 1 77 9 = Inr p
     \<and> parser_ParsePoolDatum snek_libs SplashParser (splash_PoolDatum_MarshalCBOR unary_enc ada_snek_datum) [] ''aa'' 1 78 9 = Inr p'
     \<and> {Class (AssetX p), Class (AssetY p)} = {Class (AssetX p'), Class (AssetY p')}"
proof -
  obtain p p' where "parser_ParsePoolDatum snek_libs SplashParser (splash_PoolDatum_MarshalCBOR unary_enc ada_snek_datum) [] ''aa'' 1 77 9 = Inr p"
    "parser_ParsePoolDatum snek_libs SplashParser (splash_PoolDatum_MarshalCBOR unary_enc ada_snek_datum) [] ''aa'' 1 78 9 = Inr p'"
    "PoolId p = PoolId p'"
    using snek_pool [of 77] snek_pool [of 78] by metis
  then show ?thesis using pool_ids_identify by blast
qed

end
