(* ===== verification/Oracle_Pools.thy ===== *)
theory Oracle_Pools
  imports Oracle Dex_Parsers
begin

text \<open>
  The oracle service with one of the pool parsers, as \<open>startOracleProfile\<close> of \<open>cmd/shai/main.go\<close> puts
  them together: what the two components promise each other, over any sequence of chain events.
\<close>

text \<open>The environment of an oracle profile: the parser's errors are only logged.\<close>

definition profile_env :: "parser_libs \<Rightarrow> oracle_parser \<Rightarrow> badger_lib \<Rightarrow> string \<Rightarrow> oracle_env" where
  "profile_env L P badger network = \<lparr>oe_badger = badger,
     oe_ParsePoolDatum = (\<lambda>d v h i s t. case parser_ParsePoolDatum L P d v h i s t of Inl _ \<Rightarrow> Inl () | Inr p \<Rightarrow> Inr (Some p)),
     oe_cdpParser = None, oe_synthetics = False, oe_network = network\<rparr>"

fun run_events :: "oracle_env \<Rightarrow> (time \<times> chain_event) list \<Rightarrow> Oracle \<Rightarrow> Oracle" where
  "run_events env [] o1 = o1"
| "run_events env ((now, evt) # evts) o1 = run_events env evts (snd (HandleChainsyncEvent env now evt o1))"

text \<open>A property of pool states that the parser guarantees holds of all pools of the oracle.\<close>

definition pools_all :: "(PoolState \<Rightarrow> bool) \<Rightarrow> Oracle \<Rightarrow> bool" where
  "pools_all Q o1 = list_all (\<lambda>(k, s). Q s) (o_pools o1)"

definition parser_gives :: "(PoolState \<Rightarrow> bool) \<Rightarrow> oracle_env \<Rightarrow> bool" where
  "parser_gives Q env = (\<forall>d v h i s t p bh now. oe_ParsePoolDatum env d v h i s t = Inr (Some p) \<longrightarrow>
     Q (p\<lparr>Network := oe_network env, BlockHash := bh, UpdatedAt := now\<rparr>))"

lemma notifySubscribers_pools: "o_pools (notifySubscribers s p o1) = o_pools o1"
  by (simp add: notifySubscribers_def case_prod_beta Let_def split: option.split)

lemma record_pool_state_pools:
  "o_pools (snd (record_pool_state env state o1)) = o_pools o1
   \<or> o_pools (snd (record_pool_state env state o1)) = AList.update (PoolId state) state (o_pools o1)"
  by (simp add: record_pool_state_def Let_def notifySubscribers_pools split: sum.split prod.split)

lemma record_pool_state_all: "pools_all Q o1 \<Longrightarrow> Q state \<Longrightarrow> pools_all Q (snd (record_pool_state env state o1))"
  using record_pool_state_pools [of env state o1] by (auto simp: pools_all_def list_all_alist_update)

lemma deleteSpentCDPStates_pools: "o_pools (deleteSpentCDPStates env cp inputs o1) = o_pools o1"
  by (induction inputs arbitrary: o1) (simp_all add: Let_def case_prod_beta split: option.split)

lemma handle_utxos_all:
  assumes "parser_gives Q env"
    and "pools_all Q o1"
  shows "pools_all Q (snd (handle_utxos env now bh ctx utxos o1))"
  using assms(2)
proof (induction utxos arbitrary: o1)
  case Nil
  then show ?case by simp
next
  case (Cons u utxos)
  have "pools_all Q (handleProducedCDPOutput env cp now bh ctx u o1)" for cp
    using Cons.prems by (auto simp: handleProducedCDPOutput_def pools_all_def Let_def case_prod_beta split: option.split sum.split)
  then have "pools_all Q (snd (handle_utxo env now bh ctx u o1))"
    using Cons.prems assms(1) record_pool_state_all [OF Cons.prems]
    by (simp add: handle_utxo_def parser_gives_def split: option.split sum.split)
  with Cons.IH show ?case by (auto split: prod.split option.split)
qed

lemma event_pools_all:
  assumes "parser_gives Q env"
    and "pools_all Q o1" and "oracle_ok o1"
  shows "pools_all Q (snd (HandleChainsyncEvent env now evt o1))"
proof (cases evt)
  case (TransactionEvt ctx payload)
  have "pools_all Q (deleteSpentCDPStates env cp inputs o1)" for cp inputs
    using assms(2) by (simp add: pools_all_def deleteSpentCDPStates_pools)
  then show ?thesis
    using TransactionEvt assms(2) handle_utxos_all [OF assms(1)]
    by (simp add: HandleChainsyncEvent_def handleTransaction_def Let_def split: option.split)
next
  case (RollbackEvt n)
  then show ?thesis
    using assms(2) by (auto simp: HandleChainsyncEvent_def pools_all_def handleRollback_maps(1) [OF assms(3)] list_all_iff)
next
  case OtherEvt
  then show ?thesis using assms(2) by (simp add: HandleChainsyncEvent_def)
qed

lemma event_ok: "oracle_ok o1 \<Longrightarrow> oracle_ok (snd (HandleChainsyncEvent env now evt o1))"
  by (auto simp: HandleChainsyncEvent_def intro: inv_intros split: chain_event.split)

lemma run_events_all:
  assumes "parser_gives Q env"
    and "pools_all Q o1" and "oracle_ok o1"
  shows "pools_all Q (run_events env evts o1) \<and> oracle_ok (run_events env evts o1)"
  using assms(2,3)
proof (induction evts arbitrary: o1)
  case Nil
  then show ?case by simp
next
  case (Cons e evts)
  obtain now evt where e: "e = (now, evt)" by (cases e)
  have "pools_all Q (snd (HandleChainsyncEvent env now evt o1))"
    using event_pools_all [OF assms(1)] Cons.prems by blast
  then show ?case using Cons event_ok e by simp
qed

text \<open>What is true of every pool an oracle profile can serve.\<close>

definition served_ok :: "oracle_parser \<Rightarrow> string \<Rightarrow> PoolState \<Rightarrow> bool" where
  "served_ok P network p = (Protocol p = parser_Protocol P \<and> Network p = network \<and> \<not> FromMempool p
     \<and> 0 < FeeDenom p \<and> FeeNum p \<le> FeeDenom p)"

lemma profile_gives: "parser_gives (served_ok P network) (profile_env L P badger network)"
proof -
  have "served_ok P network (p\<lparr>Network := network, BlockHash := bh, UpdatedAt := now\<rparr>)"
    if "parser_ParsePoolDatum L P d v h i s t = Inr p" for d v h i s t p bh now
    using any.parse_protocol [OF that] any.parse_fee [OF that] by (simp add: served_ok_def)
  then show ?thesis by (auto simp: parser_gives_def profile_env_def split: sum.splits)
qed

lemma served_quotes:
  assumes "served_ok P network p" and "Amount (AssetX p) \<noteq> 0" and "Amount (AssetY p) \<noteq> 0"
    and "quote_reserves p pol nm \<noteq> None"
  shows "\<exists>r. Quote p pol nm amountIn = Inr r"
proof -
  obtain rIn rOut where r: "quote_reserves p pol nm = Some (rIn, rOut)" using assms(4) by auto
  then have "rIn \<noteq> 0" "rOut \<noteq> 0"
    using quote_reserves_swap [OF r] assms(2,3) by (auto simp: doubleton_eq_iff)
  then show ?thesis using r assms(1) Quote_Inr_iff [of p pol nm amountIn] by (auto simp: served_ok_def)
qed

lemma fresh_oracle_ok: "oracle_ok (New addresses [])"
  by (simp add: oracle_ok_def New_def NewActivityTracker_def defaultPoolActivityWindowSlots_def tracker_ok_def
      store_ok_def manager_ok_def subscribers_ok_def)



text \<open>A transaction that produces the pool output of a Splash profile.\<close>

definition snek_event :: chain_event where
  "snek_event = TransactionEvt (Some \<lparr>ctx_TransactionHash = ''aa'', ctx_SlotNumber = 77\<rparr>)
     \<lparr>te_BlockHash = ''bb'', te_Inputs = [],
      te_Outputs = [\<lparr>out_Address = ''pool'', out_Datum = Some (splash_PoolDatum_MarshalCBOR unary_enc ada_snek_datum), out_Cbor = []\<rparr>],
      te_Transaction = None\<rparr>"

lemma record_first_pool:
  assumes "\<not> FromMempool state" and "o_pools o1 = []" and "o_activity o1 = Some t" and "latestSlot t = 0"
  shows "map_of (o_pools (snd (record_pool_state env state o1))) (PoolId state) = Some state"
  using assms
  by (simp add: record_pool_state_def Let_def observe_pool_def ObserveTransition_def InferSwapTransition_def
      notifySubscribers_pools split: prod.split sum.split)

lemma snek_served:
  "\<exists>p. GetPoolState (splash_GeneratePoolId [] [] (replicate 28 9) [2])
      (run_events (profile_env snek_libs SplashParser open_badger ''mainnet'') [(9, snek_event)] (New [''pool''] [])) = Some p
     \<and> Amount (AssetX p) = 5000000 \<and> Amount (AssetY p) = 700"
proof -
  let ?env = "profile_env snek_libs SplashParser open_badger ''mainnet''"
  obtain p where p: "parser_ParsePoolDatum snek_libs SplashParser (splash_PoolDatum_MarshalCBOR unary_enc ada_snek_datum) [] ''aa'' 0 77 9 = Inr p"
    "PoolId p = splash_GeneratePoolId [] [] (replicate 28 9) [2]" "Amount (AssetX p) = 5000000" "Amount (AssetY p) = 700"
    using ada_snek_parsed [of "[]" "''aa''" 0 77 9]
    by (simp add: snek_libs_def SplashParser_ParsePoolDatum_def to_pool_state_def)
  let ?p = "p\<lparr>Network := ''mainnet'', BlockHash := ''bb'', UpdatedAt := 9\<rparr>"
  have "\<not> FromMempool ?p" using any.parse_protocol [OF p(1)] by simp
  then have r: "map_of (o_pools (snd (record_pool_state ?env ?p (New [''pool''] [])))) (PoolId ?p) = Some ?p"
    by (intro record_first_pool [where t = "\<lparr>windowSlots = 86400, latestSlot = 0, swaps = []\<rparr>"])
      (simp_all add: New_def NewActivityTracker_def defaultPoolActivityWindowSlots_def)
  have "snd (HandleChainsyncEvent ?env 9 snek_event (New [''pool''] [])) = snd (record_pool_state ?env ?p (New [''pool''] []))"
    using p(1) by (simp add: snek_event_def HandleChainsyncEvent_def handleTransaction_def producedUTXOs_def profile_env_def
        handle_utxo_def isPoolAddress_def New_def del: parser_ParsePoolDatum.simps split: prod.split option.split)
  then show ?thesis using r p by (simp add: GetPoolState_def del: parser_ParsePoolDatum.simps)
qed


end
