(* ===== verification/Watches.thy ===== *)
theory Watches
  imports Prelude
begin

text \<open>
  The watch manager of the indexer (\<open>internal/indexer/watches.go\<close>): watches for a transaction id or
  for the spending of an output, found through two indexes from pattern to watch ids, with
  expiration and shutdown.

  The manager is a record with the source's fields. A callback is the identity of the registered
  function; starting its goroutine is the pair of the watch id and the callback, so \<open>CheckEvent\<close>
  returns the list of goroutines it starts, in the order in which it starts them. The locks make
  every method one step, except \<open>Stop\<close>, which releases the lock and then waits for the callbacks in
  flight: the step relation at the end has both halves. The time comes in as an argument where the
  source reads the clock. The events come from the adder library; the part the manager reads is
  the transaction hash of the context and the consumed inputs of the payload.
\<close>

section \<open>Model\<close>

datatype WatchType = WatchTypeTxId | WatchTypeUTxO

type_synonym WatchCallback = nat

record Watch =
  w_Id :: string
  w_Type :: WatchType
  w_Pattern :: string
  w_Callback :: "WatchCallback option"
  w_TTL :: duration
  w_CreatedAt :: time

record WatchManager =
  wm_watches :: "(string, Watch) gomap"
  wm_txIdIndex :: "(string, string list) gomap"
  wm_utxoIndex :: "(string, string list) gomap"
  wm_nextId :: u64
  wm_stopped :: bool

datatype payload =
    TransactionEvent "(string \<times> u32) list option"
  | OtherPayload

record event =
  evt_TransactionHash :: "string option"
  evt_Payload :: payload

definition utxoPattern :: "string \<Rightarrow> u32 \<Rightarrow> string" where
  "utxoPattern txId i = txId @ ''#'' @ show_nat (unat i)"

definition NewWatchManager :: WatchManager where
  "NewWatchManager = \<lparr>wm_watches = [], wm_txIdIndex = [], wm_utxoIndex = [], wm_nextId = 0, wm_stopped = False\<rparr>"

text \<open>Reading a missing key of a map of slices gives the nil slice.\<close>

definition index_ids :: "(string, string list) gomap \<Rightarrow> string \<Rightarrow> string list" where
  "index_ids m k = (case map_of m k of None \<Rightarrow> [] | Some ids \<Rightarrow> ids)"

definition addToIndex :: "string \<Rightarrow> string \<Rightarrow> (string, string list) gomap \<Rightarrow> (string, string list) gomap" where
  "addToIndex k i m = AList.update k (index_ids m k @ [i]) m"

definition RegisterTxWatch ::
  "time \<Rightarrow> string \<Rightarrow> duration \<Rightarrow> WatchCallback option \<Rightarrow> WatchManager \<Rightarrow> string \<times> WatchManager" where
  "RegisterTxWatch now txId ttl callback wm =
     (if wm_stopped wm then ('''', wm)
      else let n = wm_nextId wm + 1;
               watchId = ''tx-'' @ show_nat (unat n);
               watch = \<lparr>w_Id = watchId, w_Type = WatchTypeTxId, w_Pattern = txId, w_Callback = callback,
                        w_TTL = ttl, w_CreatedAt = now\<rparr>
           in (watchId, wm\<lparr>wm_nextId := n,
                           wm_watches := AList.update watchId watch (wm_watches wm),
                           wm_txIdIndex := addToIndex txId watchId (wm_txIdIndex wm)\<rparr>))"

definition RegisterUTxOWatch ::
  "time \<Rightarrow> string \<Rightarrow> u32 \<Rightarrow> duration \<Rightarrow> WatchCallback option \<Rightarrow> WatchManager \<Rightarrow> string \<times> WatchManager" where
  "RegisterUTxOWatch now txId i ttl callback wm =
     (if wm_stopped wm then ('''', wm)
      else let n = wm_nextId wm + 1;
               watchId = ''utxo-'' @ show_nat (unat n);
               pattern = utxoPattern txId i;
               watch = \<lparr>w_Id = watchId, w_Type = WatchTypeUTxO, w_Pattern = pattern, w_Callback = callback,
                        w_TTL = ttl, w_CreatedAt = now\<rparr>
           in (watchId, wm\<lparr>wm_nextId := n,
                           wm_watches := AList.update watchId watch (wm_watches wm),
                           wm_utxoIndex := addToIndex pattern watchId (wm_utxoIndex wm)\<rparr>))"

definition removeFromIndex :: "string \<Rightarrow> string \<Rightarrow> (string, string list) gomap \<Rightarrow> (string, string list) gomap" where
  "removeFromIndex key watchId m =
     (let watchIds = index_ids m key;
          m' = (if watchId \<in> set watchIds then AList.update key (remove1 watchId watchIds) m else m)
      in if index_ids m' key = [] then AList.delete key m' else m')"

definition unregisterLocked :: "string \<Rightarrow> WatchManager \<Rightarrow> WatchManager" where
  "unregisterLocked watchId wm = (case map_of (wm_watches wm) watchId of
     None \<Rightarrow> wm
   | Some watch \<Rightarrow>
       (let wm' = (case w_Type watch of
              WatchTypeTxId \<Rightarrow> wm\<lparr>wm_txIdIndex := removeFromIndex (w_Pattern watch) watchId (wm_txIdIndex wm)\<rparr>
            | WatchTypeUTxO \<Rightarrow> wm\<lparr>wm_utxoIndex := removeFromIndex (w_Pattern watch) watchId (wm_utxoIndex wm)\<rparr>)
        in wm'\<lparr>wm_watches := AList.delete watchId (wm_watches wm')\<rparr>))"

definition Unregister :: "string \<Rightarrow> WatchManager \<Rightarrow> WatchManager" where
  "Unregister watchId wm = unregisterLocked watchId wm"

fun fireWatches :: "string list \<Rightarrow> WatchManager \<Rightarrow> (string \<times> WatchCallback) list" where
  "fireWatches [] wm = []"
| "fireWatches (watchId # watchIds) wm = (case map_of (wm_watches wm) watchId of
     None \<Rightarrow> fireWatches watchIds wm
   | Some watch \<Rightarrow> (case w_Callback watch of
       None \<Rightarrow> fireWatches watchIds wm
     | Some callback \<Rightarrow> (watchId, callback) # fireWatches watchIds wm))"

definition CheckEvent :: "event \<Rightarrow> WatchManager \<Rightarrow> (string \<times> WatchCallback) list" where
  "CheckEvent evt wm =
     (if wm_stopped wm then []
      else case evt_Payload evt of
        OtherPayload \<Rightarrow> []
      | TransactionEvent tx \<Rightarrow>
          (case evt_TransactionHash evt of
             None \<Rightarrow> []
           | Some h \<Rightarrow> fireWatches (index_ids (wm_txIdIndex wm) h) wm) @
          (case tx of
             None \<Rightarrow> []
           | Some consumed \<Rightarrow>
               concat (map (\<lambda>(txId, i). fireWatches (index_ids (wm_utxoIndex wm) (utxoPattern txId i)) wm) consumed)))"

definition watch_expired :: "time \<Rightarrow> Watch \<Rightarrow> bool" where
  "watch_expired now watch = (w_TTL watch > 0 \<and> time_sub now (w_CreatedAt watch) > w_TTL watch)"

definition expireWatches :: "time \<Rightarrow> WatchManager \<Rightarrow> WatchManager" where
  "expireWatches now wm =
     (let expiredIds = map fst (filter (\<lambda>(watchId, watch). watch_expired now watch) (wm_watches wm))
      in fold unregisterLocked expiredIds wm)"

text \<open>The part of \<open>Stop\<close> under the lock.\<close>

definition wm_Stop :: "WatchManager \<Rightarrow> WatchManager" where
  "wm_Stop wm =
     (if wm_stopped wm then wm
      else wm\<lparr>wm_stopped := True, wm_watches := [], wm_txIdIndex := [], wm_utxoIndex := []\<rparr>)"

definition WatchCount :: "WatchManager \<Rightarrow> nat" where
  "WatchCount wm = length (wm_watches wm)"

section \<open>Indexes\<close>

text \<open>
  What the manager relies on in an index: looking up a key after an id was added or removed. A
  table represents a list of entries, in the order of their registration, when looking up a key
  gives the ids of its entries in that order.
\<close>

locale key_index =
  fixes ids :: "'m \<Rightarrow> 'k \<Rightarrow> 'i list"
    and add :: "'k \<Rightarrow> 'i \<Rightarrow> 'm \<Rightarrow> 'm"
    and del :: "'k \<Rightarrow> 'i \<Rightarrow> 'm \<Rightarrow> 'm"
  assumes ids_add: "ids (add k i m) k' = (if k' = k then ids m k @ [i] else ids m k')"
    and ids_del: "ids (del k i m) k' = (if k' = k then remove1 i (ids m k) else ids m k')"
begin

definition represents :: "'m \<Rightarrow> ('k \<times> 'i) list \<Rightarrow> bool" where
  "represents m es = (\<forall>k. ids m k = map snd (filter (\<lambda>e. fst e = k) es))"

lemma represents_ids: "represents m es \<Longrightarrow> ids m k = map snd (filter (\<lambda>e. fst e = k) es)"
  by (simp add: represents_def)

lemma represents_add: "represents m es \<Longrightarrow> represents (add k i m) (es @ [(k, i)])"
  by (simp add: represents_def ids_add)

lemma remove1_entries:
  assumes "distinct (map snd es)"
  shows "remove1 i (map snd (filter p es)) = map snd (filter p (filter (\<lambda>e. snd e \<noteq> i) es))"
proof -
  have "distinct (map snd (filter p es))"
    using assms by (simp add: distinct_map_filter)
  then have "remove1 i (map snd (filter p es)) = filter (\<lambda>x. x \<noteq> i) (map snd (filter p es))"
    by (simp add: distinct_remove1_removeAll removeAll_filter_not_eq eq_commute)
  also have "\<dots> = map snd (filter p (filter (\<lambda>e. snd e \<noteq> i) es))"
    by (simp add: filter_map comp_def conj_commute)
  finally show ?thesis .
qed

lemma represents_del:
  assumes "represents m es" and "distinct (map snd es)" and "(k, i) \<in> set es"
  shows "represents (del k i m) (filter (\<lambda>e. snd e \<noteq> i) es)"
proof -
  have uniq: "e = (k, i)" if "e \<in> set es" "snd e = i" for e
    using inj_onD [of snd "set es" e "(k, i)"] that assms(2,3) by (simp add: distinct_map)
  have other: "filter (\<lambda>e. fst e = k') (filter (\<lambda>e. snd e \<noteq> i) es) = filter (\<lambda>e. fst e = k') es"
    if "k' \<noteq> k" for k'
    unfolding filter_filter
    using that by (intro filter_cong) (auto dest: uniq)
  show ?thesis
    unfolding represents_def
    using assms(1) remove1_entries [OF assms(2), of i "\<lambda>e. fst e = k"] other
    by (simp add: represents_def ids_del)
qed

end

interpretation watch_index: key_index index_ids addToIndex removeFromIndex
proof unfold_locales
  show "index_ids (addToIndex k i m) k' = (if k' = k then index_ids m k @ [i] else index_ids m k')" for k i m k'
    by (simp add: index_ids_def addToIndex_def update_conv')
  show "index_ids (removeFromIndex k i m) k' = (if k' = k then remove1 i (index_ids m k) else index_ids m k')"
    for k i m k'
    by (auto simp: removeFromIndex_def Let_def index_ids_def update_conv' delete_conv' remove1_idem split: option.splits)
qed

section \<open>Specification\<close>

text \<open>
  The manager as a plain list of live watches in the order of registration: an event starts the
  callbacks of the watches it matches, found by looking through the list.
\<close>

record watch_spec =
  live :: "Watch list"
  issued :: nat
  closed :: bool

definition spec_fire :: "WatchType \<Rightarrow> string \<Rightarrow> Watch list \<Rightarrow> (string \<times> WatchCallback) list" where
  "spec_fire ty pat ws = List.map_filter
     (\<lambda>w. if w_Type w = ty \<and> w_Pattern w = pat then map_option (Pair (w_Id w)) (w_Callback w) else None) ws"

datatype watch_op =
    OpTxWatch time string duration "WatchCallback option"
  | OpUTxOWatch time string u32 duration "WatchCallback option"
  | OpUnregister string
  | OpEvent event
  | OpExpire time
  | OpStop

fun is_register :: "watch_op \<Rightarrow> bool" where
  "is_register (OpTxWatch _ _ _ _) = True"
| "is_register (OpUTxOWatch _ _ _ _ _) = True"
| "is_register _ = False"

type_synonym watch_result = "string \<times> (string \<times> WatchCallback) list"

fun watch_exec :: "watch_op \<Rightarrow> WatchManager \<Rightarrow> watch_result \<times> WatchManager" where
  "watch_exec (OpTxWatch now tx ttl cb) wm = (let (i, wm') = RegisterTxWatch now tx ttl cb wm in ((i, []), wm'))"
| "watch_exec (OpUTxOWatch now tx n ttl cb) wm = (let (i, wm') = RegisterUTxOWatch now tx n ttl cb wm in ((i, []), wm'))"
| "watch_exec (OpUnregister i) wm = (('''', []), Unregister i wm)"
| "watch_exec (OpEvent evt) wm = (('''', CheckEvent evt wm), wm)"
| "watch_exec (OpExpire now) wm = (('''', []), expireWatches now wm)"
| "watch_exec OpStop wm = (('''', []), wm_Stop wm)"

definition spec_register :: "Watch \<Rightarrow> watch_spec \<Rightarrow> watch_result \<times> watch_spec" where
  "spec_register w s =
     (if closed s then (('''', []), s)
      else ((w_Id w, []), s\<lparr>live := live s @ [w], issued := issued s + 1\<rparr>))"

definition spec_matches :: "event \<Rightarrow> Watch list \<Rightarrow> (string \<times> WatchCallback) list" where
  "spec_matches evt ws = (case evt_Payload evt of
     OtherPayload \<Rightarrow> []
   | TransactionEvent tx \<Rightarrow>
       (case evt_TransactionHash evt of None \<Rightarrow> [] | Some h \<Rightarrow> spec_fire WatchTypeTxId h ws) @
       (case tx of None \<Rightarrow> []
        | Some consumed \<Rightarrow> concat (map (\<lambda>(t, i). spec_fire WatchTypeUTxO (utxoPattern t i) ws) consumed)))"

fun spec_exec :: "watch_op \<Rightarrow> watch_spec \<Rightarrow> watch_result \<times> watch_spec" where
  "spec_exec (OpTxWatch now tx ttl cb) s = spec_register
     \<lparr>w_Id = ''tx-'' @ show_nat (issued s + 1), w_Type = WatchTypeTxId, w_Pattern = tx, w_Callback = cb,
      w_TTL = ttl, w_CreatedAt = now\<rparr> s"
| "spec_exec (OpUTxOWatch now tx n ttl cb) s = spec_register
     \<lparr>w_Id = ''utxo-'' @ show_nat (issued s + 1), w_Type = WatchTypeUTxO, w_Pattern = utxoPattern tx n,
      w_Callback = cb, w_TTL = ttl, w_CreatedAt = now\<rparr> s"
| "spec_exec (OpUnregister i) s = (('''', []), s\<lparr>live := filter (\<lambda>w. w_Id w \<noteq> i) (live s)\<rparr>)"
| "spec_exec (OpEvent evt) s = (('''', spec_matches evt (live s)), s)"
| "spec_exec (OpExpire now) s = (('''', []), s\<lparr>live := filter (\<lambda>w. \<not> watch_expired now w) (live s)\<rparr>)"
| "spec_exec OpStop s = (('''', []), s\<lparr>live := [], closed := True\<rparr>)"

fun run_ops :: "('o \<Rightarrow> 's \<Rightarrow> 'r \<times> 's) \<Rightarrow> 'o list \<Rightarrow> 's \<Rightarrow> 'r list \<times> 's" where
  "run_ops f [] s = ([], s)"
| "run_ops f (op # ops) s = (let (r, s') = f op s; (rs, s'') = run_ops f ops s' in (r # rs, s''))"

definition spec_init :: watch_spec where
  "spec_init = \<lparr>live = [], issued = 0, closed = False\<rparr>"

text \<open>The simulation: the map holds the live watches by id, each index represents its watches.\<close>

definition entries_of :: "WatchType \<Rightarrow> Watch list \<Rightarrow> (string \<times> string) list" where
  "entries_of ty ws = map (\<lambda>w. (w_Pattern w, w_Id w)) (filter (\<lambda>w. w_Type w = ty) ws)"

definition numbered :: "nat \<Rightarrow> Watch \<Rightarrow> bool" where
  "numbered n w = (\<exists>k \<le> n. w_Id w = ''tx-'' @ show_nat k \<or> w_Id w = ''utxo-'' @ show_nat k)"

definition watch_sim :: "WatchManager \<Rightarrow> watch_spec \<Rightarrow> bool" where
  "watch_sim wm s \<longleftrightarrow>
     gomap_ok (wm_watches wm) \<and> set (wm_watches wm) = (\<lambda>w. (w_Id w, w)) ` set (live s)
     \<and> watch_index.represents (wm_txIdIndex wm) (entries_of WatchTypeTxId (live s))
     \<and> watch_index.represents (wm_utxoIndex wm) (entries_of WatchTypeUTxO (live s))
     \<and> distinct (map w_Id (live s)) \<and> list_all (numbered (issued s)) (live s)
     \<and> wm_stopped wm = closed s \<and> (closed s \<longrightarrow> live s = [])
     \<and> wm_nextId wm = word_of_nat (issued s)"

section \<open>Simulation\<close>

lemma entries_of_snoc:
  "entries_of ty (ws @ [w]) = entries_of ty ws @ (if w_Type w = ty then [(w_Pattern w, w_Id w)] else [])"
  by (simp add: entries_of_def)

lemma entries_of_remove:
  "entries_of ty (filter (\<lambda>w. w_Id w \<noteq> i) ws) = filter (\<lambda>e. snd e \<noteq> i) (entries_of ty ws)"
  by (induction ws) (auto simp: entries_of_def)

lemma distinct_entries: "distinct (map w_Id ws) \<Longrightarrow> distinct (map snd (entries_of ty ws))"
  by (simp add: entries_of_def comp_def distinct_map_filter)

lemma sim_lookup:
  assumes "watch_sim wm s"
  shows "map_of (wm_watches wm) i = Some w \<longleftrightarrow> w \<in> set (live s) \<and> w_Id w = i"
  using assms unfolding watch_sim_def gomap_ok_def by (auto simp: map_of_eq_Some_iff)

lemma fresh_number: "numbered n w \<Longrightarrow> w_Id w \<noteq> ''tx-'' @ show_nat (n + 1) \<and> w_Id w \<noteq> ''utxo-'' @ show_nat (n + 1)"
  by (auto simp: numbered_def)

lemma sim_register:
  assumes sim: "watch_sim wm s" and open_: "\<not> closed s"
    and fresh: "\<forall>w' \<in> set (live s). w_Id w' \<noteq> w_Id w" and num: "numbered (issued s + 1) w"
  shows "watch_sim (wm\<lparr>wm_nextId := wm_nextId wm + 1,
      wm_watches := AList.update (w_Id w) w (wm_watches wm),
      wm_txIdIndex := (if w_Type w = WatchTypeTxId then addToIndex (w_Pattern w) (w_Id w) (wm_txIdIndex wm) else wm_txIdIndex wm),
      wm_utxoIndex := (if w_Type w = WatchTypeUTxO then addToIndex (w_Pattern w) (w_Id w) (wm_utxoIndex wm) else wm_utxoIndex wm)\<rparr>)
    (s\<lparr>live := live s @ [w], issued := issued s + 1\<rparr>)"
proof -
  have ok: "gomap_ok (wm_watches wm)" and ws: "set (wm_watches wm) = (\<lambda>w. (w_Id w, w)) ` set (live s)"
    using sim by (simp_all add: watch_sim_def)
  have new: "w_Id w \<notin> fst ` set (wm_watches wm)"
    using fresh ws by auto
  then have upd: "AList.update (w_Id w) w (wm_watches wm) = wm_watches wm @ [(w_Id w, w)]"
    by (rule update_fresh)
  have num': "list_all (numbered (issued s + 1)) (live s)"
    using sim by (force simp: watch_sim_def list_all_iff numbered_def)
  show ?thesis
    using sim open_ fresh num num' new ok
    by (auto simp: watch_sim_def entries_of_snoc upd gomap_ok_def intro: watch_index.represents_add)
qed

lemma sim_unregister:
  assumes sim: "watch_sim wm s"
  shows "watch_sim (unregisterLocked i wm) (s\<lparr>live := filter (\<lambda>w. w_Id w \<noteq> i) (live s)\<rparr>)"
proof (cases "map_of (wm_watches wm) i")
  case None
  then have "\<forall>w \<in> set (live s). w_Id w \<noteq> i"
    using sim_lookup [OF sim, of i] by auto
  then have "filter (\<lambda>w. w_Id w \<noteq> i) (live s) = live s" by simp
  with sim None show ?thesis by (simp add: unregisterLocked_def)
next
  case (Some w)
  then have w: "w \<in> set (live s)" "w_Id w = i" using sim_lookup [OF sim] by auto
  have dist: "distinct (map w_Id (live s))" and ok: "gomap_ok (wm_watches wm)"
    using sim by (simp_all add: watch_sim_def)
  have entry: "(w_Pattern w, i) \<in> set (entries_of (w_Type w) (live s))"
    using w by (force simp: entries_of_def)
  have other: "filter (\<lambda>e. snd e \<noteq> i) (entries_of ty (live s)) = entries_of ty (live s)" if "ty \<noteq> w_Type w" for ty
  proof -
    have "w' = w" if "w' \<in> set (live s)" "w_Id w' = i" for w'
      using that w dist by (metis distinct_map inj_onD)
    with that show ?thesis by (auto simp: entries_of_def filter_id_conv)
  qed
  have ws: "set (AList.delete i (wm_watches wm)) = (\<lambda>w. (w_Id w, w)) ` {w \<in> set (live s). w_Id w \<noteq> i}"
    using sim by (auto simp: watch_sim_def AList.delete_eq)
  note del = watch_index.represents_del [OF _ distinct_entries [OF dist] entry]
  show ?thesis
    using sim Some ws ok del other
    by (cases "w_Type w")
      (auto simp: watch_sim_def unregisterLocked_def entries_of_remove distinct_map_filter list_all_iff)
qed

lemma sim_unregister_all:
  assumes "watch_sim wm s"
  shows "watch_sim (fold unregisterLocked is wm) (s\<lparr>live := filter (\<lambda>w. w_Id w \<notin> set is) (live s)\<rparr>)"
  using assms
proof (induction "is" arbitrary: wm s)
  case Nil
  then show ?case by simp
next
  case (Cons i "is")
  from Cons.IH [OF sim_unregister [OF Cons.prems, of i]] show ?case
    by (simp add: conj_commute)
qed

lemma sim_expire:
  assumes sim: "watch_sim wm s"
  shows "watch_sim (expireWatches now wm) (s\<lparr>live := filter (\<lambda>w. \<not> watch_expired now w) (live s)\<rparr>)"
proof -
  let ?is = "map fst (filter (\<lambda>(watchId, watch). watch_expired now watch) (wm_watches wm))"
  have dist: "distinct (map w_Id (live s))" and ws: "set (wm_watches wm) = (\<lambda>w. (w_Id w, w)) ` set (live s)"
    using sim by (simp_all add: watch_sim_def)
  have uniq: "w = w'" if "w \<in> set (live s)" "w' \<in> set (live s)" "w_Id w = w_Id w'" for w w'
    using dist that by (metis distinct_map inj_onD)
  have "w_Id w \<in> set ?is \<longleftrightarrow> watch_expired now w" if "w \<in> set (live s)" for w
    using that uniq by (force simp: ws image_iff)
  then have "filter (\<lambda>w. w_Id w \<notin> set ?is) (live s) = filter (\<lambda>w. \<not> watch_expired now w) (live s)"
    by (intro filter_cong) auto
  with sim_unregister_all [OF sim, of ?is] show ?thesis by (simp add: expireWatches_def)
qed

lemma fire_watches:
  assumes sim: "watch_sim wm s" and sub: "set ws \<subseteq> set (live s)"
  shows "fireWatches (map w_Id ws) wm = List.map_filter (\<lambda>w. map_option (Pair (w_Id w)) (w_Callback w)) ws"
  using sub
proof (induction ws)
  case Nil
  then show ?case by (simp add: List.map_filter_def)
next
  case (Cons w ws)
  then have "map_of (wm_watches wm) (w_Id w) = Some w" using sim_lookup [OF sim] by auto
  with Cons show ?case by (auto simp: List.map_filter_simps split: option.splits)
qed

lemma spec_fire_filter:
  "spec_fire ty pat ws = List.map_filter (\<lambda>w. map_option (Pair (w_Id w)) (w_Callback w))
     (filter (\<lambda>w. w_Type w = ty \<and> w_Pattern w = pat) ws)"
  unfolding spec_fire_def by (induction ws) (auto simp: List.map_filter_simps split: option.splits)

lemma index_fire:
  assumes sim: "watch_sim wm s" and rep: "watch_index.represents m (entries_of ty (live s))"
  shows "fireWatches (index_ids m pat) wm = spec_fire ty pat (live s)"
proof -
  have "index_ids m pat = map w_Id (filter (\<lambda>w. w_Type w = ty \<and> w_Pattern w = pat) (live s))"
    using watch_index.represents_ids [OF rep, of pat]
    by (simp add: entries_of_def filter_map comp_def conj_commute)
  then show ?thesis
    using fire_watches [OF sim, of "filter (\<lambda>w. w_Type w = ty \<and> w_Pattern w = pat) (live s)"]
    by (auto simp: spec_fire_filter)
qed

lemma sim_event:
  assumes sim: "watch_sim wm s"
  shows "CheckEvent evt wm = spec_matches evt (live s)"
proof -
  have tx: "fireWatches (index_ids (wm_txIdIndex wm) pat) wm = spec_fire WatchTypeTxId pat (live s)" for pat
    using sim by (intro index_fire [OF sim]) (simp add: watch_sim_def)
  have ut: "fireWatches (index_ids (wm_utxoIndex wm) pat) wm = spec_fire WatchTypeUTxO pat (live s)" for pat
    using sim by (intro index_fire [OF sim]) (simp add: watch_sim_def)
  have none: "spec_fire ty pat [] = []" for ty pat by (simp add: spec_fire_def List.map_filter_def)
  show ?thesis
  proof (cases "wm_stopped wm")
    case True
    with sim have "live s = []" by (simp add: watch_sim_def)
    with True show ?thesis
      by (auto simp: CheckEvent_def spec_matches_def none split: payload.splits option.splits)
  next
    case False
    then show ?thesis
      by (simp add: CheckEvent_def spec_matches_def tx ut cong: payload.case_cong option.case_cong)
  qed
qed

lemma sim_init: "watch_sim NewWatchManager spec_init"
  by (simp add: watch_sim_def NewWatchManager_def spec_init_def entries_of_def
      watch_index.represents_def index_ids_def)

lemma sim_step:
  assumes sim: "watch_sim wm s" and bound: "is_register op \<Longrightarrow> issued s + 1 < 2 ^ 64"
  shows "fst (watch_exec op wm) = fst (spec_exec op s) \<and> watch_sim (snd (watch_exec op wm)) (snd (spec_exec op s))"
proof -
  have flags: "wm_stopped wm = closed s" "closed s \<Longrightarrow> live s = []" "wm_nextId wm = word_of_nat (issued s)"
    and num: "list_all (numbered (issued s)) (live s)"
    using sim by (simp_all add: watch_sim_def)
  have next_id: "unat (word_of_nat (issued s) + 1 :: u64) = issued s + 1" if "is_register op"
  proof -
    have "unat (word_of_nat (issued s + 1) :: u64) = issued s + 1"
      using bound [OF that] by (rule unat_word_of_nat_u64)
    then show ?thesis by (simp add: add.commute)
  qed
  have fresh: "\<forall>w' \<in> set (live s). w_Id w' \<noteq> ''tx-'' @ show_nat (issued s + 1) \<and> w_Id w' \<noteq> ''utxo-'' @ show_nat (issued s + 1)"
    using num fresh_number unfolding list_all_iff by blast
  show ?thesis
  proof (cases op)
    case (OpTxWatch now tx ttl cb)
    let ?w = "\<lparr>w_Id = ''tx-'' @ show_nat (issued s + 1), w_Type = WatchTypeTxId, w_Pattern = tx, w_Callback = cb,
      w_TTL = ttl, w_CreatedAt = now\<rparr>"
    have "numbered (issued s + 1) ?w" by (auto simp: numbered_def)
    with sim_register [OF sim, of ?w] fresh next_id flags sim show ?thesis
      by (auto simp: OpTxWatch RegisterTxWatch_def spec_register_def Let_def)
  next
    case (OpUTxOWatch now tx n ttl cb)
    let ?w = "\<lparr>w_Id = ''utxo-'' @ show_nat (issued s + 1), w_Type = WatchTypeUTxO, w_Pattern = utxoPattern tx n,
      w_Callback = cb, w_TTL = ttl, w_CreatedAt = now\<rparr>"
    have "numbered (issued s + 1) ?w" by (auto simp: numbered_def)
    with sim_register [OF sim, of ?w] fresh next_id flags sim show ?thesis
      by (auto simp: OpUTxOWatch RegisterUTxOWatch_def spec_register_def Let_def)
  next
    case OpStop
    with sim show ?thesis
      by (auto simp: wm_Stop_def watch_sim_def entries_of_def watch_index.represents_def index_ids_def)
  qed (use sim in \<open>simp_all add: Unregister_def sim_unregister sim_event sim_expire\<close>)
qed

lemma spec_issued: "issued (snd (spec_exec op s)) \<le> issued s + (if is_register op then 1 else 0)"
  by (cases op) (auto simp: spec_register_def)

lemma sim_run:
  assumes "watch_sim wm s" and "issued s + length (filter is_register ops) < 2 ^ 64"
  shows "fst (run_ops watch_exec ops wm) = fst (run_ops spec_exec ops s)
    \<and> watch_sim (snd (run_ops watch_exec ops wm)) (snd (run_ops spec_exec ops s))"
  using assms
proof (induction ops arbitrary: wm s)
  case Nil
  then show ?case by simp
next
  case (Cons op ops)
  have step: "fst (watch_exec op wm) = fst (spec_exec op s)"
    "watch_sim (snd (watch_exec op wm)) (snd (spec_exec op s))"
    using sim_step [OF Cons.prems(1), of op] Cons.prems(2) by (auto split: if_splits)
  have "issued (snd (spec_exec op s)) + length (filter is_register ops) < 2 ^ 64"
    using spec_issued [of op s] Cons.prems(2) by (auto split: if_splits)
  from Cons.IH [OF step(2) this] step(1) show ?case
    by (auto simp: case_prod_beta Let_def)
qed

section \<open>Shutdown\<close>

text \<open>
  The manager together with the callback goroutines in flight and whether the call of \<open>Stop\<close> that
  closed it has returned. \<open>Stop\<close> takes two steps: the part under the lock, then, once no callback
  is in flight, its return. A call of \<open>Stop\<close> on a stopped manager returns at once.
\<close>

record watch_system =
  mgr :: WatchManager
  inflight :: "(string \<times> WatchCallback) list"
  stop_returned :: bool

datatype watch_label = LExec watch_op | LCallbackDone | LStop | LStopReturn | LStopAgain

inductive watch_step :: "watch_system \<Rightarrow> watch_label \<Rightarrow> watch_system \<Rightarrow> bool" where
  exec: "op \<noteq> OpStop \<Longrightarrow> watch_exec op (mgr s) = ((i, fired), wm) \<Longrightarrow>
    watch_step s (LExec op) (s\<lparr>mgr := wm, inflight := inflight s @ fired\<rparr>)"
| callback_done: "c \<in> set (inflight s) \<Longrightarrow>
    watch_step s LCallbackDone (s\<lparr>inflight := remove1 c (inflight s)\<rparr>)"
| stop: "\<not> wm_stopped (mgr s) \<Longrightarrow> watch_step s LStop (s\<lparr>mgr := wm_Stop (mgr s)\<rparr>)"
| stop_return: "wm_stopped (mgr s) \<Longrightarrow> \<not> stop_returned s \<Longrightarrow> inflight s = [] \<Longrightarrow>
    watch_step s LStopReturn (s\<lparr>stop_returned := True\<rparr>)"
| stop_again: "wm_stopped (mgr s) \<Longrightarrow> watch_step s LStopAgain s"

inductive_cases watch_stepE: "watch_step s l s'"

inductive watch_reachable :: "watch_system \<Rightarrow> bool" where
  start: "watch_reachable \<lparr>mgr = NewWatchManager, inflight = [], stop_returned = False\<rparr>"
| step: "watch_reachable s \<Longrightarrow> watch_step s l s' \<Longrightarrow> watch_reachable s'"

definition shut_down :: "WatchManager \<Rightarrow> bool" where
  "shut_down wm \<longleftrightarrow> wm_stopped wm \<and> wm_watches wm = []"

lemma exec_shut_down: "shut_down wm \<Longrightarrow> op \<noteq> OpStop \<Longrightarrow> fst (watch_exec op wm) = ('''', []) \<and> snd (watch_exec op wm) = wm"
  by (cases op) (simp_all add: shut_down_def RegisterTxWatch_def RegisterUTxOWatch_def Unregister_def
      unregisterLocked_def CheckEvent_def expireWatches_def)

lemma exec_stopped: "wm_stopped (snd (watch_exec op wm)) = (wm_stopped wm \<or> op = OpStop)"
proof -
  have un: "wm_stopped (unregisterLocked i m) = wm_stopped m" for i m
    by (simp add: unregisterLocked_def Let_def split: option.split WatchType.split)
  have "wm_stopped (fold unregisterLocked is m) = wm_stopped m" for "is" m
    by (induction "is" arbitrary: m) (simp_all add: un)
  with un show ?thesis
    by (cases op) (auto simp: RegisterTxWatch_def RegisterUTxOWatch_def Unregister_def expireWatches_def
        wm_Stop_def Let_def)
qed

lemma reachable_shutdown:
  assumes "watch_reachable s"
  shows "(wm_stopped (mgr s) \<longrightarrow> shut_down (mgr s)) \<and> (stop_returned s \<longrightarrow> wm_stopped (mgr s) \<and> inflight s = [])"
  using assms
proof (induction rule: watch_reachable.induct)
  case start
  then show ?case by (simp add: NewWatchManager_def)
next
  case (step s l s')
  from step(2) show ?case
  proof cases
    case (exec op i fired wm)
    have "wm_stopped wm = wm_stopped (mgr s)"
      using exec exec_stopped [of op "mgr s"] by simp
    moreover have "fired = [] \<and> wm = mgr s" if "wm_stopped (mgr s)"
      using exec exec_shut_down [of "mgr s" op] that step.IH by simp
    ultimately show ?thesis using exec step.IH by auto
  next
    case stop
    then show ?thesis using step.IH by (auto simp: wm_Stop_def shut_down_def)
  qed (use step.IH in auto)
qed

text \<open>
  A second call of \<open>Stop\<close> gives no such guarantee: it can return while a callback started before
  the first call is still running.
\<close>

lemma second_stop_returns_early:
  "\<exists>s. watch_reachable s \<and> inflight s \<noteq> [] \<and> watch_step s LStopAgain s"
proof -
  let ?s0 = "\<lparr>mgr = NewWatchManager, inflight = [], stop_returned = False\<rparr>"
  let ?op1 = "OpTxWatch 0 ''t'' 0 (Some 7)"
  let ?op2 = "OpEvent \<lparr>evt_TransactionHash = Some ''t'', evt_Payload = TransactionEvent None\<rparr>"
  let ?m1 = "snd (watch_exec ?op1 NewWatchManager)"
  let ?s1 = "?s0\<lparr>mgr := ?m1\<rparr>"
  let ?s2 = "?s1\<lparr>inflight := [(''tx-1'', 7)]\<rparr>"
  let ?s3 = "?s2\<lparr>mgr := wm_Stop ?m1\<rparr>"
  have m1: "?m1 = \<lparr>wm_watches = [(''tx-1'', \<lparr>w_Id = ''tx-1'', w_Type = WatchTypeTxId, w_Pattern = ''t'',
      w_Callback = Some 7, w_TTL = 0, w_CreatedAt = 0\<rparr>)], wm_txIdIndex = [(''t'', [''tx-1''])],
      wm_utxoIndex = [], wm_nextId = 1, wm_stopped = False\<rparr>"
    by code_simp
  have "watch_step ?s0 (LExec ?op1) (?s0\<lparr>mgr := ?m1, inflight := inflight ?s0 @ []\<rparr>)"
    by (rule watch_step.exec [where i = "''tx-1''"]) (simp, code_simp)
  then have r1: "watch_reachable ?s1"
    by (auto intro: watch_reachable.intros)
  have "watch_step ?s1 (LExec ?op2) (?s1\<lparr>mgr := ?m1, inflight := inflight ?s1 @ [(''tx-1'', 7)]\<rparr>)"
    by (rule watch_step.exec [where i = "''''"]) (simp, code_simp)
  then have r2: "watch_reachable ?s2"
    using r1 by (auto intro: watch_reachable.intros)
  have "watch_step ?s2 LStop (?s2\<lparr>mgr := wm_Stop (mgr ?s2)\<rparr>)"
    by (rule watch_step.stop) (simp add: m1 del: watch_exec.simps)
  then have "watch_reachable ?s3"
    using r2 by (auto intro: watch_reachable.intros)
  moreover have "watch_step ?s3 LStopAgain ?s3"
    by (rule watch_step.stop_again) (simp add: wm_Stop_def)
  ultimately show ?thesis by (intro exI [of _ ?s3]) simp
qed

section \<open>Properties\<close>

text \<open>C16: for any sequence of operations with fewer than \<open>2 ^ 64\<close> registrations, the indexed manager
  returns the same watch ids and starts the same callbacks in the same order as a plain list of
  live watches searched on every event.\<close>

theorem watches_refine_list:
  assumes "length (filter is_register ops) < 2 ^ 64"
  shows "fst (run_ops watch_exec ops NewWatchManager) = fst (run_ops spec_exec ops spec_init)"
  using sim_run [OF sim_init, of ops] assms by (simp add: spec_init_def)

theorem watches_refine_list_witness:
  "fst (run_ops watch_exec
     [OpTxWatch 0 ''t'' 0 (Some 7), OpTxWatch 0 ''t'' 5 (Some 8), OpUTxOWatch 0 ''u'' 1 0 (Some 9), OpExpire 6,
      OpEvent \<lparr>evt_TransactionHash = Some ''t'', evt_Payload = TransactionEvent (Some [(''u'', 1)])\<rparr>] NewWatchManager)
   = [(''tx-1'', []), (''tx-2'', []), (''utxo-3'', []), ('''', []), ('''', [(''tx-1'', 7), (''utxo-3'', 9)])]"
  by (subst watches_refine_list) (simp, code_simp)

text \<open>C17: after the call of \<open>Stop\<close> that shut the manager down has returned, no callback is running and
  none is started by any later event, in every interleaving of operations and callbacks.\<close>

theorem no_callback_after_stop:
  assumes "watch_reachable s" and "stop_returned s"
  shows "inflight s = [] \<and> WatchCount (mgr s) = 0 \<and> CheckEvent evt (mgr s) = []"
  using reachable_shutdown [OF assms(1)] assms(2)
  by (simp add: shut_down_def WatchCount_def CheckEvent_def)

lemma stopped_once: "watch_reachable \<lparr>mgr = wm_Stop NewWatchManager, inflight = [], stop_returned = True\<rparr>"
proof -
  let ?s0 = "\<lparr>mgr = NewWatchManager, inflight = [], stop_returned = False\<rparr>"
  have "watch_step ?s0 LStop (?s0\<lparr>mgr := wm_Stop (mgr ?s0)\<rparr>)"
    by (rule watch_step.stop) (simp add: NewWatchManager_def)
  then have "watch_reachable (?s0\<lparr>mgr := wm_Stop (mgr ?s0)\<rparr>)"
    by (rule watch_reachable.step [OF watch_reachable.start])
  moreover have "watch_step (?s0\<lparr>mgr := wm_Stop (mgr ?s0)\<rparr>) LStopReturn (?s0\<lparr>mgr := wm_Stop (mgr ?s0)\<rparr>\<lparr>stop_returned := True\<rparr>)"
    by (rule watch_step.stop_return) (simp_all add: NewWatchManager_def wm_Stop_def)
  ultimately show ?thesis by (auto dest: watch_reachable.step)
qed

theorem no_callback_after_stop_witness:
  "WatchCount (wm_Stop NewWatchManager) = 0
   \<and> CheckEvent \<lparr>evt_TransactionHash = Some ''t'', evt_Payload = TransactionEvent None\<rparr> (wm_Stop NewWatchManager) = []"
  using no_callback_after_stop [OF stopped_once] by simp

end
