(* ===== verification/Wallet_Store.thy ===== *)
theory Wallet_Store
  imports Twap
begin

text \<open>
  The service's key-value store (\<open>internal/storage/storage.go\<close>, \<open>twap.go\<close>): the chainsync cursor, the
  configuration fingerprint, the UTxOs of watched addresses with their index by address, the UTxO of
  an asset, and TWAP snapshots.

  The database is a Go map from keys to byte strings, which are written as \<open>string\<close>s. Badger is a
  parameter: a predicate that says whether it accepts the transaction from one store to the next. A
  transaction that it refuses, or whose function returns an error, changes nothing. The CBOR encoder
  of a UTxO and the JSON codec of a TWAP snapshot are parameters too.
\<close>

section \<open>Database\<close>

type_synonym kv_store = "(string, string) gomap"
type_synonym kv_badger = "kv_store \<Rightarrow> kv_store \<Rightarrow> bool"

datatype wallet_error =
    KeyMissing
  | TxnRefused
  | BadTxIdHex
  | EncodeFailed
  | FingerprintMismatch string
  | BadCursorSlot
  | CursorIndexPanic
  | NoUtxoForAsset bytes bytes
  | NoTWAPName
  | TWAPMarshalFailed
  | TWAPUnmarshalFailed
  | TWAPNotFound

definition kv_update :: "kv_badger \<Rightarrow> (kv_store \<Rightarrow> wallet_error + kv_store) \<Rightarrow> kv_store \<Rightarrow> wallet_error option \<times> kv_store" where
  "kv_update acc f db = (case f db of
     Inl e \<Rightarrow> (Some e, db)
   | Inr db' \<Rightarrow> if acc db db' then (None, db') else (Some TxnRefused, db))"

text \<open>\<open>strings.Split\<close> and \<open>strings.Join\<close> at a comma: the empty text has one empty part.\<close>

fun split_comma :: "string \<Rightarrow> string list" where
  "split_comma [] = [[]]"
| "split_comma (c # cs) =
     (if c = CHR '','' then [] # split_comma cs
      else case split_comma cs of [] \<Rightarrow> [[c]] | p # ps \<Rightarrow> (c # p) # ps)"

fun join_comma :: "string list \<Rightarrow> string" where
  "join_comma [] = []"
| "join_comma [p] = p"
| "join_comma (p # ps) = p @ '','' @ join_comma ps"

section \<open>Fingerprint and cursor\<close>

definition chainsyncCursorKey :: string where
  "chainsyncCursorKey = ''chainsync_cursor''"

definition fingerprintKey :: string where
  "fingerprintKey = ''config_fingerprint''"

definition compareFingerprint :: "kv_badger \<Rightarrow> string \<Rightarrow> string list \<Rightarrow> kv_store \<Rightarrow> wallet_error option \<times> kv_store" where
  "compareFingerprint acc network profiles db =
     (let fingerprint = ''network='' @ network @ '',profiles='' @ join_comma profiles
      in kv_update acc (\<lambda>txn. case map_of txn fingerprintKey of
           None \<Rightarrow> Inr (AList.update fingerprintKey fingerprint txn)
         | Some v \<Rightarrow> if v \<noteq> fingerprint then Inl (FingerprintMismatch v) else Inr txn) db)"

definition UpdateCursor :: "kv_badger \<Rightarrow> u64 \<Rightarrow> string \<Rightarrow> kv_store \<Rightarrow> wallet_error option \<times> kv_store" where
  "UpdateCursor acc slotNumber blockHash db =
     kv_update acc (\<lambda>txn. Inr (AList.update chainsyncCursorKey (show_nat (unat slotNumber) @ '','' @ blockHash) txn)) db"

definition GetCursor :: "kv_store \<Rightarrow> wallet_error + u64 \<times> string" where
  "GetCursor db = (case map_of db chainsyncCursorKey of
     None \<Rightarrow> Inr (0, [])
   | Some v \<Rightarrow>
       (let cursorParts = split_comma v
        in case ParseUint64 (cursorParts ! 0) of
             None \<Rightarrow> Inl BadCursorSlot
           | Some slotNumber \<Rightarrow>
               if length cursorParts \<le> 1 then Inl CursorIndexPanic
               else Inr (slotNumber, cursorParts ! 1)))"

section \<open>UTxOs\<close>

definition utxo_id :: "string \<Rightarrow> u32 \<Rightarrow> string" where
  "utxo_id txId txOutIdx = txId @ ''.'' @ show_nat (unat txOutIdx)"

definition utxoKey :: "string \<Rightarrow> string" where
  "utxoKey i = ''utxo_'' @ i"

definition utxoAddressKey :: "string \<Rightarrow> string" where
  "utxoAddressKey i = ''utxo_'' @ i @ ''_address''"

definition addressKey :: "string \<Rightarrow> string" where
  "addressKey a = ''address_'' @ a"

type_synonym utxo_encoder = "bytes \<Rightarrow> u32 \<Rightarrow> bytes \<Rightarrow> string option"

definition AddUtxo ::
  "kv_badger \<Rightarrow> utxo_encoder \<Rightarrow> string \<Rightarrow> string \<Rightarrow> u32 \<Rightarrow> bytes \<Rightarrow> kv_store \<Rightarrow> wallet_error option \<times> kv_store" where
  "AddUtxo acc enc address txId txOutIdx txOutBytes db =
     (let utxoId = utxo_id txId txOutIdx
      in kv_update acc (\<lambda>txn. case hex_decode txId of
           None \<Rightarrow> Inl BadTxIdHex
         | Some txIdBytes \<Rightarrow>
             (case enc txIdBytes txOutIdx txOutBytes of
                None \<Rightarrow> Inl EncodeFailed
              | Some cborBytes \<Rightarrow>
                  (let txn1 = AList.update (utxoKey utxoId) cborBytes txn;
                       txn2 = AList.update (utxoAddressKey utxoId) address txn1;
                       oldVal = (case map_of txn2 (addressKey address) of None \<Rightarrow> [] | Some v \<Rightarrow> v);
                       newVal = (if length oldVal = 0 then utxoId else oldVal @ '','' @ utxoId)
                   in Inr (AList.update (addressKey address) newVal txn2)))) db)"

definition RemoveUtxo :: "kv_badger \<Rightarrow> string \<Rightarrow> u32 \<Rightarrow> kv_store \<Rightarrow> wallet_error option \<times> kv_store" where
  "RemoveUtxo acc txId utxoIdx db =
     (let utxoId = utxo_id txId utxoIdx
      in kv_update acc (\<lambda>txn. case map_of txn (utxoAddressKey utxoId) of
           None \<Rightarrow> Inr txn
         | Some addressVal \<Rightarrow>
             (let txn1 = AList.delete (utxoKey utxoId) txn;
                  txn2 = (case map_of txn1 (addressKey addressVal) of
                       None \<Rightarrow> txn1
                     | Some utxosVal \<Rightarrow>
                         AList.update (addressKey addressVal)
                           (join_comma (filter (\<lambda>i. i \<noteq> utxoId) (split_comma utxosVal))) txn1)
              in Inr (AList.delete (utxoAddressKey utxoId) txn2))) db)"

definition GetUtxoById :: "string \<Rightarrow> kv_store \<Rightarrow> wallet_error + string" where
  "GetUtxoById utxoId db = (case map_of db (utxoKey utxoId) of None \<Rightarrow> Inl KeyMissing | Some v \<Rightarrow> Inr v)"

fun get_each :: "kv_store \<Rightarrow> string list \<Rightarrow> wallet_error + string list" where
  "get_each db [] = Inr []"
| "get_each db (i # is) = (case GetUtxoById i db of
     Inl e \<Rightarrow> Inl e
   | Inr v \<Rightarrow> (case get_each db is of Inl e \<Rightarrow> Inl e | Inr vs \<Rightarrow> Inr (v # vs)))"

definition GetUtxos :: "string \<Rightarrow> kv_store \<Rightarrow> wallet_error + string list" where
  "GetUtxos address db = (case map_of db (addressKey address) of
     None \<Rightarrow> Inl KeyMissing
   | Some v \<Rightarrow> get_each db (split_comma v))"

definition GetUtxoAddress :: "string \<Rightarrow> kv_store \<Rightarrow> wallet_error + string" where
  "GetUtxoAddress utxoId db = (case map_of db (utxoAddressKey utxoId) of None \<Rightarrow> Inl KeyMissing | Some v \<Rightarrow> Inr v)"

section \<open>UTxOs by asset\<close>

definition asset_key :: "string \<Rightarrow> bytes \<Rightarrow> bytes \<Rightarrow> string" where
  "asset_key keyPrefix policyId assetName =
     keyPrefix @ ''_asset_'' @ hex_encode policyId @ ''_'' @ hex_encode assetName"

definition UpdateAssetUtxo ::
  "kv_badger \<Rightarrow> string \<Rightarrow> bytes \<Rightarrow> bytes \<Rightarrow> string \<Rightarrow> u32 \<Rightarrow> kv_store \<Rightarrow> wallet_error option \<times> kv_store" where
  "UpdateAssetUtxo acc keyPrefix policyId assetName txId txOutIdx db =
     kv_update acc (\<lambda>txn. Inr (AList.update (asset_key keyPrefix policyId assetName) (utxo_id txId txOutIdx) txn)) db"

definition GetAssetUtxoId :: "string \<Rightarrow> bytes \<Rightarrow> bytes \<Rightarrow> kv_store \<Rightarrow> wallet_error + string" where
  "GetAssetUtxoId keyPrefix policyId assetName db =
     (case map_of db (asset_key keyPrefix policyId assetName) of
        None \<Rightarrow> Inl (NoUtxoForAsset policyId assetName)
      | Some v \<Rightarrow> Inr v)"

definition GetAssetUtxo :: "string \<Rightarrow> bytes \<Rightarrow> bytes \<Rightarrow> kv_store \<Rightarrow> wallet_error + string" where
  "GetAssetUtxo keyPrefix policyId assetName db =
     (case GetAssetUtxoId keyPrefix policyId assetName db of
        Inl e \<Rightarrow> Inl e
      | Inr utxoId \<Rightarrow> GetUtxoById utxoId db)"

section \<open>TWAP snapshots\<close>

definition twapStateKeyPrefix :: string where
  "twapStateKeyPrefix = ''price_twap_''"

record twap_json =
  tj_marshal :: "TWAPState \<Rightarrow> string option"
  tj_unmarshal :: "string \<Rightarrow> TWAPState option"

definition SaveTWAPState :: "kv_badger \<Rightarrow> twap_json \<Rightarrow> string \<Rightarrow> TWAPState \<Rightarrow> kv_store \<Rightarrow> wallet_error option \<times> kv_store" where
  "SaveTWAPState acc js name state db =
     (if name = [] then (Some NoTWAPName, db)
      else case tj_marshal js state of
        None \<Rightarrow> (Some TWAPMarshalFailed, db)
      | Some data \<Rightarrow> kv_update acc (\<lambda>txn. Inr (AList.update (twapStateKeyPrefix @ name) data txn)) db)"

definition LoadTWAPState :: "twap_json \<Rightarrow> string \<Rightarrow> kv_store \<Rightarrow> wallet_error + TWAPState" where
  "LoadTWAPState js name db =
     (if name = [] then Inl NoTWAPName
      else case map_of db (twapStateKeyPrefix @ name) of
        None \<Rightarrow> Inl TWAPNotFound
      | Some v \<Rightarrow> (case tj_unmarshal js v of None \<Rightarrow> Inl TWAPUnmarshalFailed | Some state \<Rightarrow> Inr state))"


section \<open>Text at commas\<close>

lemma split_comma_not_Nil [simp]: "split_comma s \<noteq> []"
  by (cases s) (simp_all split: list.split)

lemma split_comma_plain: "CHR '','' \<notin> set p \<Longrightarrow> split_comma p = [p]"
  by (induction p) auto

lemma split_comma_append:
  "CHR '','' \<notin> set p \<Longrightarrow> split_comma (p @ CHR '','' # s) = p # split_comma s"
  by (induction p) auto

lemma split_join_comma:
  "ps \<noteq> [] \<Longrightarrow> \<forall>p \<in> set ps. CHR '','' \<notin> set p \<Longrightarrow> split_comma (join_comma ps) = ps"
  by (induction ps rule: join_comma.induct) (simp_all add: split_comma_plain split_comma_append)

lemma join_comma_snoc: "ps \<noteq> [] \<Longrightarrow> join_comma (ps @ [q]) = join_comma ps @ '','' @ q"
  by (induction ps rule: join_comma.induct) (simp_all split: list.split)

lemma join_split_comma: "join_comma (split_comma s) = s"
proof (induction s)
  case Nil
  then show ?case by simp
next
  case (Cons c s)
  obtain p ps where p: "split_comma s = p # ps" by (meson list.exhaust split_comma_not_Nil)
  have "join_comma ((c # p) # ps) = c # join_comma (p # ps)" by (cases ps) simp_all
  moreover have "join_comma ([] # p # ps) = CHR '','' # join_comma (p # ps)" by simp
  ultimately show ?case using Cons p by simp
qed

lemma kv_update_cases:
  assumes "kv_update acc f db = (e, db')"
  obtains "e \<noteq> None" and "db' = db" | "e = None" and "f db = Inr db'" and "acc db db'"
  using assms by (auto simp: kv_update_def split: sum.splits if_splits)

section \<open>Keys\<close>

text \<open>The kinds of keys differ in their first letter or in the number of underscores they hold.\<close>

abbreviation underscores :: "string \<Rightarrow> nat" where
  "underscores s \<equiv> count_list s (CHR ''_'')"

lemma underscores_none: "CHR ''_'' \<notin> set s \<Longrightarrow> underscores s = 0"
  by simp

definition plain :: "string \<Rightarrow> bool" where
  "plain s = (CHR ''_'' \<notin> set s)"

definition valid_id :: "string \<Rightarrow> bool" where
  "valid_id i = (i \<noteq> [] \<and> CHR ''_'' \<notin> set i \<and> CHR '','' \<notin> set i)"

lemma keys_apart:
  assumes "CHR ''_'' \<notin> set i" and "CHR ''_'' \<notin> set j" and "CHR ''_'' \<notin> set a"
  shows "utxoKey i \<noteq> utxoAddressKey j" "utxoKey i \<noteq> addressKey b" "utxoAddressKey j \<noteq> addressKey b"
    "utxoKey i \<noteq> chainsyncCursorKey" "utxoAddressKey j \<noteq> chainsyncCursorKey" "addressKey a \<noteq> chainsyncCursorKey"
    "utxoKey i \<noteq> fingerprintKey" "utxoAddressKey j \<noteq> fingerprintKey" "addressKey a \<noteq> fingerprintKey"
    "utxoKey i \<noteq> twapStateKeyPrefix @ n" "utxoAddressKey j \<noteq> twapStateKeyPrefix @ n" "addressKey a \<noteq> twapStateKeyPrefix @ n"
  using assms by (auto simp: utxoKey_def utxoAddressKey_def addressKey_def chainsyncCursorKey_def fingerprintKey_def twapStateKeyPrefix_def)

lemma keys_inject [simp]:
  "utxoKey i = utxoKey j \<longleftrightarrow> i = j" "utxoAddressKey i = utxoAddressKey j \<longleftrightarrow> i = j" "addressKey i = addressKey j \<longleftrightarrow> i = j"
  by (simp_all add: utxoKey_def utxoAddressKey_def addressKey_def)

lemma asset_key_apart:
  assumes "CHR ''_'' \<notin> set i" and "CHR ''_'' \<notin> set a"
  shows "asset_key p pol nm \<noteq> utxoKey i" "asset_key p pol nm \<noteq> utxoAddressKey i" "asset_key p pol nm \<noteq> addressKey a"
proof -
  have "underscores (asset_key p pol nm) \<ge> 3" by (simp add: asset_key_def)
  moreover have "underscores (utxoKey i) = 1" "underscores (utxoAddressKey i) = 2" "underscores (addressKey a) = 1"
    using assms by (simp_all add: utxoKey_def utxoAddressKey_def addressKey_def)
  ultimately show "asset_key p pol nm \<noteq> utxoKey i" "asset_key p pol nm \<noteq> utxoAddressKey i" "asset_key p pol nm \<noteq> addressKey a"
    by auto
qed

lemma is_hex_not_sep: "is_hex c \<Longrightarrow> c \<noteq> CHR ''_'' \<and> c \<noteq> CHR '',''"
  by (auto simp: is_hex_def hex_val_def)

lemma hex_decode_is_hex: "hex_decode s = Some bs \<Longrightarrow> list_all is_hex s"
  by (induction s arbitrary: bs rule: hex_decode.induct) (auto simp: is_hex_def split: option.splits)

lemma utxo_id_valid:
  assumes "hex_decode txId = Some bs"
  shows "valid_id (utxo_id txId i)"
proof -
  have "c \<noteq> CHR ''_'' \<and> c \<noteq> CHR '',''" if "c \<in> set txId" for c
    using hex_decode_is_hex [OF assms] that is_hex_not_sep by (simp add: list_all_iff)
  moreover have "c \<noteq> CHR ''_'' \<and> c \<noteq> CHR '',''" if "c \<in> set (show_nat (unat i))" for c
    using show_nat_not_sign [OF that] by (auto simp: is_digit_def)
  ultimately show ?thesis by (auto simp: valid_id_def utxo_id_def)
qed


section \<open>The UTxOs the store holds\<close>

text \<open>
  The specification of the UTxO part: a list of the UTxOs held, oldest first. \<open>wallet_reach db held\<close>
  says that the store \<open>db\<close> can be reached from an empty one by the operations of this theory, and
  that \<open>held\<close> is the list the successful ones lead to. A UTxO is added while it is not held;
  addresses have no underscore (they are in bech32 form).
\<close>

record held_utxo =
  h_address :: string
  h_id :: string
  h_cbor :: string

inductive wallet_reach :: "kv_badger \<Rightarrow> utxo_encoder \<Rightarrow> kv_store \<Rightarrow> held_utxo list \<Rightarrow> bool" for acc enc where
  reach_empty: "wallet_reach acc enc [] []"
| reach_added: "wallet_reach acc enc db held \<Longrightarrow> plain address \<Longrightarrow> utxo_id txId i \<notin> h_id ` set held \<Longrightarrow>
    hex_decode txId = Some b \<Longrightarrow> enc b i raw = Some c \<Longrightarrow> AddUtxo acc enc address txId i raw db = (None, db') \<Longrightarrow>
    wallet_reach acc enc db' (held @ [\<lparr>h_address = address, h_id = utxo_id txId i, h_cbor = c\<rparr>])"
| reach_add_failed: "wallet_reach acc enc db held \<Longrightarrow> AddUtxo acc enc address txId i raw db = (Some e, db') \<Longrightarrow>
    wallet_reach acc enc db' held"
| reach_removed: "wallet_reach acc enc db held \<Longrightarrow> hex_decode txId = Some b \<Longrightarrow> RemoveUtxo acc txId i db = (None, db') \<Longrightarrow>
    wallet_reach acc enc db' (filter (\<lambda>h. h_id h \<noteq> utxo_id txId i) held)"
| reach_remove_failed: "wallet_reach acc enc db held \<Longrightarrow> RemoveUtxo acc txId i db = (Some e, db') \<Longrightarrow>
    wallet_reach acc enc db' held"
| reach_cursor: "wallet_reach acc enc db held \<Longrightarrow> UpdateCursor acc s bh db = (r, db') \<Longrightarrow> wallet_reach acc enc db' held"
| reach_fingerprint: "wallet_reach acc enc db held \<Longrightarrow> compareFingerprint acc net profs db = (r, db') \<Longrightarrow>
    wallet_reach acc enc db' held"
| reach_asset: "wallet_reach acc enc db held \<Longrightarrow> UpdateAssetUtxo acc p pol nm txId i db = (r, db') \<Longrightarrow>
    wallet_reach acc enc db' held"
| reach_twap: "wallet_reach acc enc db held \<Longrightarrow> SaveTWAPState acc js n st db = (r, db') \<Longrightarrow> wallet_reach acc enc db' held"

definition listed :: "kv_store \<Rightarrow> string \<Rightarrow> string list" where
  "listed db a = (case map_of db (addressKey a) of None \<Rightarrow> [] | Some v \<Rightarrow> if v = [] then [] else split_comma v)"

definition store_rel :: "kv_store \<Rightarrow> held_utxo list \<Rightarrow> bool" where
  "store_rel db held \<longleftrightarrow> distinct (map h_id held)
     \<and> (\<forall>h \<in> set held. valid_id (h_id h) \<and> plain (h_address h) \<and> map_of db (utxoKey (h_id h)) = Some (h_cbor h)
          \<and> map_of db (utxoAddressKey (h_id h)) = Some (h_address h))
     \<and> (\<forall>i. valid_id i \<and> i \<notin> h_id ` set held \<longrightarrow> map_of db (utxoAddressKey i) = None)
     \<and> map_of db (utxoKey []) = None
     \<and> (\<forall>a. plain a \<longrightarrow> listed db a = map h_id (filter (\<lambda>h. h_address h = a) held))"

lemma valid_id_plain: "valid_id i \<Longrightarrow> CHR ''_'' \<notin> set i"
  by (simp add: valid_id_def)

lemma store_rel_frame:
  assumes "store_rel db held"
    and "\<And>i. CHR ''_'' \<notin> set i \<Longrightarrow> k \<noteq> utxoKey i \<and> k \<noteq> utxoAddressKey i \<and> k \<noteq> addressKey i"
  shows "store_rel (AList.update k v db) held"
proof -
  have same: "map_of (AList.update k v db) (utxoKey i) = map_of db (utxoKey i)"
    "map_of (AList.update k v db) (utxoAddressKey i) = map_of db (utxoAddressKey i)"
    "map_of (AList.update k v db) (addressKey i) = map_of db (addressKey i)" if "CHR ''_'' \<notin> set i" for i
    using assms(2) [OF that] by (auto simp add: update_conv')
  have "map_of (AList.update k v db) (utxoKey []) = map_of db (utxoKey [])" by (rule same(1)) simp
  then show ?thesis
    using assms(1) same unfolding store_rel_def listed_def plain_def valid_id_def by simp
qed

lemma split_comma_snoc: "split_comma (s @ CHR '','' # t) = split_comma s @ split_comma t"
proof (induction s)
  case Nil
  then show ?case by simp
next
  case (Cons c s)
  then show ?case by (auto split: list.split)
qed


lemma keys_apart_ids:
  assumes "CHR ''_'' \<notin> set i" and "CHR ''_'' \<notin> set j"
  shows "utxoKey i \<noteq> utxoAddressKey j" "utxoAddressKey j \<noteq> utxoKey i"
    "utxoKey i \<noteq> addressKey b" "addressKey b \<noteq> utxoKey i"
    "utxoAddressKey j \<noteq> addressKey b" "addressKey b \<noteq> utxoAddressKey j"
  using keys_apart(1-3) [OF assms, of "[]"] by (simp_all, metis+)

text \<open>What adding and removing do to the three kinds of entries.\<close>

lemma AddUtxo_effect:
  assumes "AddUtxo acc enc address txId i raw db = (None, db')" and "enc b i raw = Some c" and "hex_decode txId = Some b"
  defines "u \<equiv> utxo_id txId i"
  shows "\<And>j. plain j \<Longrightarrow> map_of db' (utxoKey j) = (if j = u then Some c else map_of db (utxoKey j))"
    and "\<And>j. plain j \<Longrightarrow> map_of db' (utxoAddressKey j) = (if j = u then Some address else map_of db (utxoAddressKey j))"
    and "\<And>a. plain a \<Longrightarrow> listed db' a = (if a = address then listed db a @ [u] else listed db a)"
proof -
  have u: "valid_id u" using utxo_id_valid [OF assms(3)] by (simp add: u_def)
  then have up: "CHR ''_'' \<notin> set u" and uc: "split_comma u = [u]" and un: "u \<noteq> []"
    by (simp_all add: valid_id_def split_comma_plain)
  note apart = keys_apart_ids [OF _ up] keys_apart_ids [OF up up] keys_apart_ids [OF up]
  let ?txn2 = "AList.update (utxoAddressKey u) address (AList.update (utxoKey u) c db)"
  let ?old = "case map_of ?txn2 (addressKey address) of None \<Rightarrow> [] | Some v \<Rightarrow> v"
  have db': "db' = AList.update (addressKey address) (if length ?old = 0 then u else ?old @ '','' @ u) ?txn2"
    using assms(1-3) by (auto simp: AddUtxo_def u_def [symmetric] Let_def kv_update_def split: if_splits)
  have old: "?old = (case map_of db (addressKey address) of None \<Rightarrow> [] | Some v \<Rightarrow> v)"
    using up by (simp add: update_conv' keys_apart_ids)
  show "map_of db' (utxoKey j) = (if j = u then Some c else map_of db (utxoKey j))" if "plain j" for j
    using that up unfolding db' plain_def by (simp add: update_conv' keys_apart_ids)
  show "map_of db' (utxoAddressKey j) = (if j = u then Some address else map_of db (utxoAddressKey j))" if "plain j" for j
    using that up unfolding db' plain_def by (simp add: update_conv' keys_apart_ids)
  show "listed db' a = (if a = address then listed db a @ [u] else listed db a)" if "plain a" for a
    using up un uc unfolding db' old listed_def
    by (auto simp: update_conv' keys_apart_ids split_comma_snoc split: option.split)
qed

lemma RemoveUtxo_effect:
  assumes "RemoveUtxo acc txId i db = (None, db')" and "hex_decode txId = Some b"
  defines "u \<equiv> utxo_id txId i"
  assumes "map_of db (utxoAddressKey u) = Some address" and "plain address"
    and "\<forall>a. plain a \<longrightarrow> list_all valid_id (listed db a)"
  shows "\<And>j. plain j \<Longrightarrow> map_of db' (utxoKey j) = (if j = u then None else map_of db (utxoKey j))"
    and "\<And>j. plain j \<Longrightarrow> map_of db' (utxoAddressKey j) = (if j = u then None else map_of db (utxoAddressKey j))"
    and "\<And>a. plain a \<Longrightarrow> listed db' a = (if a = address then filter (\<lambda>j. j \<noteq> u) (listed db a) else listed db a)"
proof -
  have u: "valid_id u" using utxo_id_valid [OF assms(2)] by (simp add: u_def)
  then have up: "CHR ''_'' \<notin> set u" by (simp add: valid_id_def)
  let ?txn1 = "AList.delete (utxoKey u) db"
  let ?txn2 = "case map_of ?txn1 (addressKey address) of None \<Rightarrow> ?txn1
     | Some v \<Rightarrow> AList.update (addressKey address) (join_comma (filter (\<lambda>j. j \<noteq> u) (split_comma v))) ?txn1"
  have db': "db' = AList.delete (utxoAddressKey u) ?txn2"
    using assms(1,4) by (auto simp: RemoveUtxo_def u_def [symmetric] Let_def kv_update_def split: if_splits)
  have look: "map_of ?txn1 (addressKey address) = map_of db (addressKey address)"
    using up by (simp add: delete_conv' keys_apart_ids)
  show "map_of db' (utxoKey j) = (if j = u then None else map_of db (utxoKey j))" if "plain j" for j
    using that up unfolding db' look plain_def
    by (auto simp: update_conv' delete_conv' keys_apart_ids split: option.split)
  show "map_of db' (utxoAddressKey j) = (if j = u then None else map_of db (utxoAddressKey j))" if "plain j" for j
    using that up unfolding db' look plain_def
    by (auto simp: update_conv' delete_conv' keys_apart_ids split: option.split)
  show "listed db' a = (if a = address then filter (\<lambda>j. j \<noteq> u) (listed db a) else listed db a)" if "plain a" for a
  proof (cases "map_of db (addressKey address)")
    case None
    then show ?thesis
      using up unfolding db' look by (auto simp: listed_def delete_conv' keys_apart_ids)
  next
    case (Some v)
    let ?ps = "filter (\<lambda>j. j \<noteq> u) (split_comma v)"
    have l': "listed db' address = (if join_comma ?ps = [] then [] else split_comma (join_comma ?ps))"
      using up Some unfolding db' look by (simp add: listed_def delete_conv' update_conv' keys_apart_ids)
    have other: "listed db' a = listed db a" if "a \<noteq> address"
      using that up Some unfolding db' look by (simp add: listed_def delete_conv' update_conv' keys_apart_ids)
    have "listed db' address = filter (\<lambda>j. j \<noteq> u) (listed db address)"
    proof (cases "v = []")
      case True
      then show ?thesis using l' Some u by (simp add: listed_def valid_id_def)
    next
      case False
      then have ps: "?ps = filter (\<lambda>j. j \<noteq> u) (listed db address)" using Some by (simp add: listed_def)
      then have ok: "list_all valid_id ?ps" using assms(6,5) by (auto simp: list_all_iff)
      show ?thesis
      proof (cases "?ps = []")
        case True
        then show ?thesis using l' ps by simp
      next
        case False
        then have "split_comma (join_comma ?ps) = ?ps"
          using ok by (intro split_join_comma) (auto simp: list_all_iff valid_id_def)
        moreover have "join_comma ?ps \<noteq> []"
          using ok calculation by (metis list.pred_inject(2) split_comma.simps(1) valid_id_def)
        ultimately show ?thesis using l' ps by simp
      qed
    qed
    then show ?thesis using other by simp
  qed
qed


lemma store_rel_listed_valid: "store_rel db held \<Longrightarrow> \<forall>a. plain a \<longrightarrow> list_all valid_id (listed db a)"
  by (auto simp: store_rel_def list_all_iff)

lemma store_rel_add:
  assumes "store_rel db held" and "plain address" and "utxo_id txId i \<notin> h_id ` set held"
    and "hex_decode txId = Some b" and "enc b i raw = Some c" and "AddUtxo acc enc address txId i raw db = (None, db')"
  shows "store_rel db' (held @ [\<lparr>h_address = address, h_id = utxo_id txId i, h_cbor = c\<rparr>])"
proof -
  note eff = AddUtxo_effect [OF assms(6,5,4)]
  have v: "valid_id (utxo_id txId i)" using utxo_id_valid [OF assms(4)] .
  have old: "plain (h_id h) \<and> h_id h \<noteq> utxo_id txId i" if "h \<in> set held" for h
    using assms(1,3) that by (auto simp: store_rel_def valid_id_def plain_def)
  have "plain []" "[] \<noteq> utxo_id txId i" using v by (auto simp: plain_def valid_id_def)
  moreover have "plain j" if "valid_id j" for j using that by (simp add: valid_id_def plain_def)
  ultimately show ?thesis
    using assms(1,2,3) v old unfolding store_rel_def by (simp add: eff)
qed

lemma store_rel_remove:
  assumes "store_rel db held" and "hex_decode txId = Some b" and "RemoveUtxo acc txId i db = (None, db')"
  shows "store_rel db' (filter (\<lambda>h. h_id h \<noteq> utxo_id txId i) held)"
proof -
  let ?u = "utxo_id txId i"
  have v: "valid_id ?u" using utxo_id_valid [OF assms(2)] .
  show ?thesis
  proof (cases "map_of db (utxoAddressKey ?u)")
    case None
    then have "?u \<notin> h_id ` set held" using assms(1) by (force simp: store_rel_def)
    then have "filter (\<lambda>h. h_id h \<noteq> ?u) held = held" by (induction held) auto
    moreover have "db' = db"
      using assms(3) None by (auto simp: RemoveUtxo_def Let_def kv_update_def split: if_splits)
    ultimately show ?thesis using assms(1) by simp
  next
    case (Some address)
    then have mem: "?u \<in> h_id ` set held" using assms(1) v unfolding store_rel_def by (metis option.distinct(1))
    then have addr: "plain address" and own: "\<And>h. h \<in> set held \<Longrightarrow> h_id h = ?u \<Longrightarrow> h_address h = address"
      using assms(1) Some unfolding store_rel_def by (metis imageE option.inject)+
    note eff = RemoveUtxo_effect [OF assms(3,2) Some addr store_rel_listed_valid [OF assms(1)]]
    have list: "listed db' a = map h_id (filter (\<lambda>h. h_address h = a) (filter (\<lambda>h. h_id h \<noteq> ?u) held))" if "plain a" for a
    proof -
      have "listed db a = map h_id (filter (\<lambda>h. h_address h = a) held)" using assms(1) that by (simp add: store_rel_def)
      moreover have "filter (\<lambda>h. h_address h = a \<and> h_id h \<noteq> ?u) held = filter (\<lambda>h. h_address h = a) held" if "a \<noteq> address"
        using own that by (intro filter_cong) auto
      ultimately show ?thesis
        using eff(3) [OF that] by (auto simp: filter_map comp_def conj_commute)
    qed
    have old: "plain (h_id h)" if "h \<in> set held" for h
      using assms(1) that by (auto simp: store_rel_def valid_id_def plain_def)
    have "plain []" "[] \<noteq> ?u" using v by (auto simp: plain_def valid_id_def)
    moreover have "plain j" if "valid_id j" for j using that by (simp add: valid_id_def plain_def)
    moreover have "distinct (map h_id (filter (\<lambda>h. h_id h \<noteq> ?u) held))"
      using assms(1) by (simp add: store_rel_def distinct_map_filter)
    ultimately show ?thesis
      using assms(1) list old unfolding store_rel_def by (auto simp: eff image_iff)
  qed
qed

lemma kv_update_set_frame:
  assumes "store_rel db held" and "kv_update acc (\<lambda>txn. Inr (AList.update k v txn)) db = (r, db')"
    and "\<And>i. CHR ''_'' \<notin> set i \<Longrightarrow> k \<noteq> utxoKey i \<and> k \<noteq> utxoAddressKey i \<and> k \<noteq> addressKey i"
  shows "store_rel db' held"
  using assms(2) by (rule kv_update_cases) (use assms(1) store_rel_frame [OF assms(1,3)] in auto)

text \<open>Every reachable store represents the list of UTxOs that its history leads to.\<close>

lemma reach_store_rel: "wallet_reach acc enc db held \<Longrightarrow> store_rel db held"
proof (induction rule: wallet_reach.induct)
  case reach_empty
  then show ?case by (simp add: store_rel_def listed_def)
next
  case reach_added
  then show ?case using store_rel_add by blast
next
  case (reach_add_failed db held address txId i raw e db')
  then show ?case by (auto simp: AddUtxo_def Let_def elim!: kv_update_cases)
next
  case reach_removed
  then show ?case using store_rel_remove by blast
next
  case (reach_remove_failed db held txId i e db')
  then show ?case by (auto simp: RemoveUtxo_def Let_def elim!: kv_update_cases)
next
  case (reach_cursor db held s bh r db')
  show ?case
    by (rule kv_update_set_frame [OF reach_cursor.IH reach_cursor.hyps(2) [unfolded UpdateCursor_def]])
      (use keys_apart(4-6) in metis)
next
  case (reach_fingerprint db held net profs r db')
  have "store_rel (AList.update fingerprintKey v db) held" for v
    using keys_apart(7-9) by (intro store_rel_frame [OF reach_fingerprint.IH]) metis
  then show ?case
    using reach_fingerprint by (auto simp: compareFingerprint_def Let_def elim!: kv_update_cases split: option.splits if_splits)
next
  case (reach_asset db held p pol nm txId i r db')
  show ?case
    by (rule kv_update_set_frame [OF reach_asset.IH reach_asset.hyps(2) [unfolded UpdateAssetUtxo_def]])
      (use asset_key_apart in metis)
next
  case (reach_twap db held js n st r db')
  have "store_rel (AList.update (twapStateKeyPrefix @ n) v db) held" for v
    using keys_apart(10-12) by (intro store_rel_frame [OF reach_twap.IH]) metis
  then show ?case
    using reach_twap by (auto simp: SaveTWAPState_def elim!: kv_update_cases split: option.splits if_splits)
qed


section \<open>Properties\<close>

lemma get_each_held:
  "(\<And>h. h \<in> set hs \<Longrightarrow> map_of db (utxoKey (h_id h)) = Some (h_cbor h)) \<Longrightarrow>
     get_each db (map h_id hs) = Inr (map h_cbor hs)"
  by (induction hs) (simp_all add: GetUtxoById_def)

lemma store_rel_GetUtxos:
  assumes "store_rel db held" and "plain a"
  shows "GetUtxos a db = (let own = filter (\<lambda>h. h_address h = a) held in if own = [] then Inl KeyMissing else Inr (map h_cbor own))"
proof -
  let ?own = "filter (\<lambda>h. h_address h = a) held"
  have l: "listed db a = map h_id ?own" using assms by (simp add: store_rel_def)
  have none: "map_of db (utxoKey []) = None" using assms(1) by (simp add: store_rel_def)
  show ?thesis
  proof (cases "map_of db (addressKey a)")
    case None
    then show ?thesis using l by (simp add: GetUtxos_def listed_def)
  next
    case (Some v)
    show ?thesis
    proof (cases "v = []")
      case True
      then show ?thesis using l Some none by (simp add: GetUtxos_def listed_def GetUtxoById_def)
    next
      case False
      then have s: "split_comma v = map h_id ?own" using l Some by (simp add: listed_def)
      then have "?own \<noteq> []" using split_comma_not_Nil [of v] by auto
      moreover have "get_each db (split_comma v) = Inr (map h_cbor ?own)"
        unfolding s using assms(1) by (intro get_each_held) (auto simp: store_rel_def)
      ultimately show ?thesis using Some by (simp add: GetUtxos_def)
    qed
  qed
qed


lemma cursor_round_trip:
  assumes "UpdateCursor acc slot blockHash db = (None, db')" and "CHR '','' \<notin> set blockHash"
  shows "GetCursor db' = Inr (slot, blockHash)"
proof -
  let ?v = "show_nat (unat slot) @ CHR '','' # blockHash"
  have "db' = AList.update chainsyncCursorKey ?v db"
    using assms(1) by (auto simp: UpdateCursor_def elim: kv_update_cases)
  moreover have "CHR '','' \<notin> set (show_nat (unat slot))"
    using show_nat_not_sign by (fastforce simp: is_digit_def)
  then have "split_comma ?v = [show_nat (unat slot), blockHash]"
    using assms(2) by (simp add: split_comma_append split_comma_plain)
  moreover have "ParseUint64 (show_nat (unat slot)) = Some slot"
    using unat_u64_bound [of slot] by (simp add: ParseUint64_def)
  ultimately show ?thesis by (simp add: GetCursor_def update_conv')
qed

lemma twap_state_round_trip:
  assumes "SaveTWAPState acc js name state db = (None, db')" and "\<And>st v. tj_marshal js st = Some v \<Longrightarrow> tj_unmarshal js v = Some st"
  shows "LoadTWAPState js name db' = Inr state"
  using assms by (auto simp: SaveTWAPState_def LoadTWAPState_def update_conv' elim!: kv_update_cases split: if_splits option.splits)

text \<open>
  A UTxO that is added a second time while it is held, as after a restart from an earlier cursor, is
  listed twice.
\<close>

definition raw_encoder :: utxo_encoder where
  "raw_encoder t i raw = Some (hex_encode raw)"

lemma replayed_utxo_listed_twice:
  "(let db1 = snd (AddUtxo (\<lambda>_ _. True) raw_encoder ''addr1'' ''ab'' 0 [1] []);
        db2 = snd (AddUtxo (\<lambda>_ _. True) raw_encoder ''addr1'' ''ab'' 0 [1] db1)
    in GetUtxos ''addr1'' db2) = Inr [''01'', ''01'']"
  by code_simp


end
