(* ===== verification/Indexer.thy ===== *)
theory Indexer
  imports Watches Wallet_Store
begin

text \<open>
  The indexer (\<open>internal/indexer/indexer.go\<close>): the handlers that a chain event goes through, the wallet
  bookkeeping of \<open>handleEvent\<close>, the point at which the chain is followed on a start, and the catch-up
  log with its timer.

  The pipeline and the chainsync input are the adder library's; what the indexer reads of an event is
  the transaction hash of its context, the consumed inputs and the produced outputs. The wallet's
  payment address and the store's libraries are parameters. The catch-up log is a step relation,
  because the timer's callback gives up the lock between its check and its message.
\<close>

section \<open>Events\<close>

record produced_utxo =
  po_Address :: string
  po_Index :: u32
  po_Cbor :: bytes

record idx_transaction =
  it_Consumed :: "(string \<times> u32) list"
  it_Produced :: "produced_utxo list"

datatype idx_payload = TxPayload "idx_transaction option" | NoTxPayload

record idx_event =
  ie_TransactionHash :: "string option"
  ie_Payload :: idx_payload

datatype index_error = StoreFailed wallet_error | ContextPanic

text \<open>The part of an event that the watch manager reads.\<close>

definition watch_event :: "idx_event \<Rightarrow> event" where
  "watch_event evt = \<lparr>evt_TransactionHash = ie_TransactionHash evt,
     evt_Payload = (case ie_Payload evt of TxPayload tx \<Rightarrow> TransactionEvent (map_option it_Consumed tx) | NoTxPayload \<Rightarrow> OtherPayload)\<rparr>"

text \<open>The callback of the pipeline's output: every registered handler in turn, up to the first error.\<close>

fun call_handlers :: "('e \<Rightarrow> 's \<Rightarrow> 'err option \<times> 's) list \<Rightarrow> 'e \<Rightarrow> 's \<Rightarrow> 'err option \<times> 's" where
  "call_handlers [] evt s = (None, s)"
| "call_handlers (f # fs) evt s = (case f evt s of
     (Some e, s') \<Rightarrow> (Some e, s')
   | (None, s') \<Rightarrow> call_handlers fs evt s')"

definition AddEventFunc :: "('e \<Rightarrow> 's \<Rightarrow> 'err option \<times> 's) \<Rightarrow> ('e \<Rightarrow> 's \<Rightarrow> 'err option \<times> 's) list \<Rightarrow> ('e \<Rightarrow> 's \<Rightarrow> 'err option \<times> 's) list" where
  "AddEventFunc f fs = fs @ [f]"

section \<open>Wallet bookkeeping\<close>

fun remove_consumed :: "kv_badger \<Rightarrow> (string \<times> u32) list \<Rightarrow> kv_store \<Rightarrow> wallet_error option \<times> kv_store" where
  "remove_consumed acc [] db = (None, db)"
| "remove_consumed acc ((txId, i) # inputs) db = (case RemoveUtxo acc txId i db of
     (Some e, db') \<Rightarrow> (Some e, db')
   | (None, db') \<Rightarrow> remove_consumed acc inputs db')"

fun store_produced ::
  "kv_badger \<Rightarrow> utxo_encoder \<Rightarrow> string \<Rightarrow> string \<Rightarrow> produced_utxo list \<Rightarrow> kv_store \<Rightarrow> wallet_error option \<times> kv_store" where
  "store_produced acc enc payment txHash [] db = (None, db)"
| "store_produced acc enc payment txHash (utxo # utxos) db =
     (if po_Address utxo = payment then
        (case AddUtxo acc enc (po_Address utxo) txHash (po_Index utxo) (po_Cbor utxo) db of
           (Some e, db') \<Rightarrow> (Some e, db')
         | (None, db') \<Rightarrow> store_produced acc enc payment txHash utxos db')
      else store_produced acc enc payment txHash utxos db)"

text \<open>
  \<open>handleEvent\<close>: the callbacks it starts, the error and the store. A transaction without a context
  fails the type assertion and panics.
\<close>

definition handleEvent ::
  "kv_badger \<Rightarrow> utxo_encoder \<Rightarrow> string \<Rightarrow> WatchManager option \<Rightarrow> idx_event \<Rightarrow> kv_store
     \<Rightarrow> (string \<times> WatchCallback) list \<times> index_error option \<times> kv_store" where
  "handleEvent acc enc payment watches evt db =
     (let fired = (case watches of None \<Rightarrow> [] | Some wm \<Rightarrow> CheckEvent (watch_event evt) wm)
      in case ie_Payload evt of
           NoTxPayload \<Rightarrow> (fired, None, db)
         | TxPayload None \<Rightarrow> (fired, None, db)
         | TxPayload (Some tx) \<Rightarrow>
             (case ie_TransactionHash evt of
                None \<Rightarrow> (fired, Some ContextPanic, db)
              | Some txHash \<Rightarrow>
                  (case remove_consumed acc (it_Consumed tx) db of
                     (Some e, db1) \<Rightarrow> (fired, Some (StoreFailed e), db1)
                   | (None, db1) \<Rightarrow>
                       (case store_produced acc enc payment txHash (it_Produced tx) db1 of
                          (e, db2) \<Rightarrow> (fired, map_option StoreFailed e, db2)))))"

section \<open>Where to start\<close>

record idx_profile =
  pr_InterceptSlot :: u64
  pr_InterceptHash :: string

datatype start_error = CursorFailed wallet_error | BadHash string | NoInterceptPoint

fun earliest_intercept :: "idx_profile list \<Rightarrow> u64 \<times> string \<Rightarrow> u64 \<times> string" where
  "earliest_intercept [] best = best"
| "earliest_intercept (p # ps) (s, h) =
     (if s = 0 \<or> pr_InterceptSlot p < s then earliest_intercept ps (pr_InterceptSlot p, pr_InterceptHash p)
      else earliest_intercept ps (s, h))"

text \<open>The intersect point that \<open>Start\<close> gives to the chainsync input.\<close>

definition intersect_point :: "idx_profile list \<Rightarrow> kv_store \<Rightarrow> start_error + u64 \<times> bytes" where
  "intersect_point profiles db = (case GetCursor db of
     Inl e \<Rightarrow> Inl (CursorFailed e)
   | Inr (cursorSlotNumber, cursorBlockHash) \<Rightarrow>
       if cursorSlotNumber > 0 then
         (case hex_decode cursorBlockHash of
            None \<Rightarrow> Inl (BadHash cursorBlockHash)
          | Some hashBytes \<Rightarrow> Inr (cursorSlotNumber, hashBytes))
       else
         (case earliest_intercept profiles (0, []) of
            (interceptSlot, interceptHash) \<Rightarrow>
              if interceptSlot = 0 then Inl NoInterceptPoint
              else (case hex_decode interceptHash of
                 None \<Rightarrow> Inl (BadHash interceptHash)
               | Some hashBytes \<Rightarrow> Inr (interceptSlot, hashBytes))))"

section \<open>The catch-up log\<close>

record sync_status =
  ss_SlotNumber :: u64
  ss_BlockHash :: string
  ss_TipSlotNumber :: u64
  ss_TipBlockHash :: string
  ss_TipReached :: bool

record sync_log =
  cursorSlot :: u64
  cursorHash :: string
  tipSlot :: u64
  tipHash :: string
  tipReached :: bool
  syncLogTimer :: bool
  syncLogDone :: bool

text \<open>\<open>syncLogTimer\<close> says that a timer is armed; stopping one that has fired has no effect.\<close>

definition stopSyncLogTimerLocked :: "sync_log \<Rightarrow> sync_log" where
  "stopSyncLogTimerLocked s = s\<lparr>syncLogDone := True, syncLogTimer := False\<rparr>"

definition scheduleSyncStatusLogLocked :: "sync_log \<Rightarrow> sync_log" where
  "scheduleSyncStatusLogLocked s = (if syncLogDone s then s else s\<lparr>syncLogTimer := True\<rparr>)"

definition applyStatus :: "sync_status \<Rightarrow> sync_log \<Rightarrow> sync_log" where
  "applyStatus st s =
     (let s1 = (if \<not> tipReached s \<and> ss_TipReached st then (stopSyncLogTimerLocked s)\<lparr>tipReached := True\<rparr> else s)
      in s1\<lparr>cursorSlot := ss_SlotNumber st, cursorHash := ss_BlockHash st, tipSlot := ss_TipSlotNumber st,
            tipHash := ss_TipBlockHash st\<rparr>)"

text \<open>\<open>updateStatus\<close>: a failed update of the stored cursor is only logged.\<close>

definition updateStatus :: "kv_badger \<Rightarrow> sync_status \<Rightarrow> sync_log \<Rightarrow> kv_store \<Rightarrow> sync_log \<times> kv_store" where
  "updateStatus acc st s db = (applyStatus st s, snd (UpdateCursor acc (ss_SlotNumber st) (ss_BlockHash st) db))"

definition sync_message :: "u64 \<times> string \<times> u64 \<Rightarrow> string" where
  "sync_message m = (case m of (slot, hash, tip) \<Rightarrow>
     ''catch-up sync in progress: at '' @ show_nat (unat slot) @ ''.'' @ hash @ '' (current tip slot is '' @ show_nat (unat tip) @ '')'')"

text \<open>
  The callback \<open>syncStatusLog\<close> has three steps: it takes its snapshot under the lock, unless logging is
  over; it logs; it schedules the next one. The three lists and counters are the callbacks waiting for
  each step, and the messages logged.
\<close>

record sync_system =
  sy_log :: sync_log
  sy_fired :: nat
  sy_snapshots :: "(u64 \<times> string \<times> u64) list"
  sy_logged :: nat
  sy_messages :: "string list"

definition sync_start :: sync_system where
  "sync_start = \<lparr>sy_log = scheduleSyncStatusLogLocked \<lparr>cursorSlot = 0, cursorHash = [], tipSlot = 0, tipHash = [],
     tipReached = False, syncLogTimer = False, syncLogDone = False\<rparr>,
     sy_fired = 0, sy_snapshots = [], sy_logged = 0, sy_messages = []\<rparr>"

inductive sync_step :: "sync_system \<Rightarrow> sync_system \<Rightarrow> bool" where
  sync_status: "sync_step s (s\<lparr>sy_log := applyStatus st (sy_log s)\<rparr>)"
| sync_stop: "sync_step s (s\<lparr>sy_log := stopSyncLogTimerLocked (sy_log s)\<rparr>)"
| sync_fire: "syncLogTimer (sy_log s) \<Longrightarrow>
    sync_step s (s\<lparr>sy_log := (sy_log s)\<lparr>syncLogTimer := False\<rparr>, sy_fired := sy_fired s + 1\<rparr>)"
| sync_bail: "sy_fired s > 0 \<Longrightarrow> syncLogDone (sy_log s) \<Longrightarrow> sync_step s (s\<lparr>sy_fired := sy_fired s - 1\<rparr>)"
| sync_snapshot: "sy_fired s > 0 \<Longrightarrow> \<not> syncLogDone (sy_log s) \<Longrightarrow>
    sync_step s (s\<lparr>sy_fired := sy_fired s - 1,
      sy_snapshots := (cursorSlot (sy_log s), cursorHash (sy_log s), tipSlot (sy_log s)) # sy_snapshots s\<rparr>)"
| sync_emit: "sy_snapshots s = m # ms \<Longrightarrow>
    sync_step s (s\<lparr>sy_snapshots := ms, sy_messages := sy_messages s @ [sync_message m], sy_logged := sy_logged s + 1\<rparr>)"
| sync_reschedule: "sy_logged s > 0 \<Longrightarrow>
    sync_step s (s\<lparr>sy_logged := sy_logged s - 1, sy_log := scheduleSyncStatusLogLocked (sy_log s)\<rparr>)"

inductive_cases sync_stepE: "sync_step s s'"

inductive sync_reachable :: "sync_system \<Rightarrow> bool" where
  sync_init: "sync_reachable sync_start"
| sync_next: "sync_reachable s \<Longrightarrow> sync_step s s' \<Longrightarrow> sync_reachable s'"

definition log_workers :: "sync_system \<Rightarrow> nat" where
  "log_workers s = (if syncLogTimer (sy_log s) then 1 else 0) + sy_fired s + length (sy_snapshots s) + sy_logged s"

lemma sync_invariant:
  "sync_reachable s \<Longrightarrow> (syncLogDone (sy_log s) \<longrightarrow> \<not> syncLogTimer (sy_log s)) \<and> (tipReached (sy_log s) \<longrightarrow> syncLogDone (sy_log s))
     \<and> log_workers s \<le> 1"
proof (induction rule: sync_reachable.induct)
  case sync_init
  then show ?case by (simp add: sync_start_def scheduleSyncStatusLogLocked_def log_workers_def)
next
  case (sync_next s s')
  from sync_next(2) show ?case
    by cases (use sync_next.IH in \<open>auto simp: log_workers_def applyStatus_def stopSyncLogTimerLocked_def
      scheduleSyncStatusLogLocked_def Let_def simp flip: length_0_conv split: if_splits\<close>)
qed


section \<open>Lemmas\<close>

lemma remove_consumed_reach:
  assumes "wallet_reach acc enc db held" and "list_all (\<lambda>(t, i). hex_decode t \<noteq> None) inputs"
    and "remove_consumed acc inputs db = (None, db')"
  shows "wallet_reach acc enc db' (filter (\<lambda>h. h_id h \<notin> (\<lambda>(t, i). utxo_id t i) ` set inputs) held)"
  using assms
proof (induction inputs arbitrary: db held)
  case Nil
  then show ?case by simp
next
  case (Cons input inputs)
  obtain t i where ti: "input = (t, i)" by (cases input)
  obtain b where b: "hex_decode t = Some b" using Cons.prems(2) ti by auto
  obtain db1 where r: "RemoveUtxo acc t i db = (None, db1)" "remove_consumed acc inputs db1 = (None, db')"
    using Cons.prems(3) ti by (auto split: prod.splits option.splits)
  from Cons.IH [OF reach_removed [OF Cons.prems(1) b r(1)] _ r(2)] Cons.prems(2) show ?case
    by (simp add: ti conj_commute)
qed

definition own_utxos :: "utxo_encoder \<Rightarrow> string \<Rightarrow> string \<Rightarrow> bytes \<Rightarrow> produced_utxo list \<Rightarrow> held_utxo list" where
  "own_utxos enc payment txHash b utxos =
     map (\<lambda>u. \<lparr>h_address = payment, h_id = utxo_id txHash (po_Index u), h_cbor = the (enc b (po_Index u) (po_Cbor u))\<rparr>)
       (filter (\<lambda>u. po_Address u = payment) utxos)"

lemma store_produced_reach:
  assumes "wallet_reach acc enc db held" and "plain payment" and "hex_decode txHash = Some b"
    and "distinct (map h_id (held @ own_utxos enc payment txHash b utxos))"
    and "store_produced acc enc payment txHash utxos db = (None, db')"
  shows "wallet_reach acc enc db' (held @ own_utxos enc payment txHash b utxos)"
  using assms
proof (induction utxos arbitrary: db held)
  case Nil
  then show ?case by (simp add: own_utxos_def)
next
  case (Cons u utxos)
  show ?case
  proof (cases "po_Address u = payment")
    case False
    then show ?thesis using Cons by (simp add: own_utxos_def)
  next
    case True
    obtain db1 where r: "AddUtxo acc enc payment txHash (po_Index u) (po_Cbor u) db = (None, db1)"
      "store_produced acc enc payment txHash utxos db1 = (None, db')"
      using Cons.prems(5) True by (auto split: prod.splits option.splits)
    then obtain c where c: "enc b (po_Index u) (po_Cbor u) = Some c"
      using Cons.prems(3) by (auto simp: AddUtxo_def Let_def kv_update_def split: option.splits)
    have fresh: "utxo_id txHash (po_Index u) \<notin> h_id ` set held"
      using Cons.prems(4) True by (simp add: own_utxos_def)
    note reach = reach_added [OF Cons.prems(1,2) fresh Cons.prems(3) c r(1)]
    have own: "own_utxos enc payment txHash b (u # utxos) =
        \<lparr>h_address = payment, h_id = utxo_id txHash (po_Index u), h_cbor = c\<rparr> # own_utxos enc payment txHash b utxos"
      using True c by (simp add: own_utxos_def)
    from Cons.IH [OF reach Cons.prems(2,3) _ r(2)] Cons.prems(4) show ?thesis by (simp add: own)
  qed
qed

lemma earliest_intercept_min:
  assumes "list_all (\<lambda>p. pr_InterceptSlot p > 0) ps" and "s > 0"
  shows "case earliest_intercept ps (s, h) of (s', h') \<Rightarrow>
    s' > 0 \<and> s' \<le> s \<and> list_all (\<lambda>p. s' \<le> pr_InterceptSlot p) ps
    \<and> (s' = s \<and> h' = h \<or> (\<exists>p \<in> set ps. s' = pr_InterceptSlot p \<and> h' = pr_InterceptHash p))"
  using assms
proof (induction ps arbitrary: s h)
  case Nil
  then show ?case by simp
next
  case (Cons p ps)
  show ?case
  proof (cases "pr_InterceptSlot p < s")
    case True
    then show ?thesis
      using Cons.IH [of "pr_InterceptSlot p" "pr_InterceptHash p"] Cons.prems
      by (auto simp: list_all_iff)
  next
    case False
    then show ?thesis
      using Cons.IH [of s h] Cons.prems by (auto simp: list_all_iff word_not_simps)
  qed
qed


section \<open>Properties\<close>


text \<open>The service resumes where it stopped: after a cursor was stored the chain is followed from that
  point, and on a store without a cursor from the earliest point of the enabled profiles.\<close>

lemma indexer_start_point:
  assumes "list_all (\<lambda>p. pr_InterceptSlot p > 0 \<and> hex_decode (pr_InterceptHash p) \<noteq> None) profiles" and "profiles \<noteq> []"
  shows "(map_of db chainsyncCursorKey = None \<longrightarrow>
      (\<exists>p \<in> set profiles. \<exists>h. intersect_point profiles db = Inr (pr_InterceptSlot p, h) \<and> hex_decode (pr_InterceptHash p) = Some h
         \<and> list_all (\<lambda>q. pr_InterceptSlot p \<le> pr_InterceptSlot q) profiles))
    \<and> (UpdateCursor acc slot (hex_encode hash) db = (None, db') \<and> slot > 0 \<longrightarrow> intersect_point profiles db' = Inr (slot, hash))"
proof (intro conjI impI)
  assume none: "map_of db chainsyncCursorKey = None"
  obtain p ps where ps: "profiles = p # ps" using assms(2) by (cases profiles) auto
  obtain s h where sh: "earliest_intercept ps (pr_InterceptSlot p, pr_InterceptHash p) = (s, h)" by fastforce
  have "s > 0 \<and> list_all (\<lambda>q. s \<le> pr_InterceptSlot q) profiles
      \<and> (\<exists>q \<in> set profiles. s = pr_InterceptSlot q \<and> h = pr_InterceptHash q)"
    using earliest_intercept_min [of ps "pr_InterceptSlot p" "pr_InterceptHash p"] assms(1) sh
    by (auto simp: ps list_all_iff)
  moreover have "earliest_intercept profiles (0, []) = (s, h)" using sh by (simp add: ps)
  ultimately show "\<exists>p \<in> set profiles. \<exists>h. intersect_point profiles db = Inr (pr_InterceptSlot p, h)
      \<and> hex_decode (pr_InterceptHash p) = Some h \<and> list_all (\<lambda>q. pr_InterceptSlot p \<le> pr_InterceptSlot q) profiles"
    using none assms(1) by (fastforce simp: intersect_point_def GetCursor_def list_all_iff)
next
  assume "UpdateCursor acc slot (hex_encode hash) db = (None, db') \<and> slot > 0"
  moreover have "CHR '','' \<notin> set (hex_encode hash)" by (simp add: hex_encode_no_sep is_hex_def hex_val_def)
  ultimately have "GetCursor db' = Inr (slot, hex_encode hash)" using cursor_round_trip by blast
  with \<open>_ \<and> slot > 0\<close> show "intersect_point profiles db' = Inr (slot, hash)" by (simp add: intersect_point_def)
qed

lemma log_done_step:
  assumes "sync_step s s'" and "syncLogDone (sy_log s)"
  shows "syncLogDone (sy_log s') \<and>
    length (sy_messages s') + length (sy_snapshots s') \<le> length (sy_messages s) + length (sy_snapshots s)"
  using assms(1)
  by cases (use assms(2) in \<open>auto simp: applyStatus_def stopSyncLogTimerLocked_def scheduleSyncStatusLogLocked_def Let_def\<close>)

lemma log_done_steps:
  assumes "sync_step\<^sup>*\<^sup>* s s'" and "syncLogDone (sy_log s)"
  shows "syncLogDone (sy_log s') \<and> length (sy_messages s') + length (sy_snapshots s') \<le> length (sy_messages s) + length (sy_snapshots s)"
  using assms(1)
proof (induction rule: rtranclp_induct)
  case base
  then show ?case using assms(2) by simp
next
  case (step y z)
  then show ?case using log_done_step [of y z] by simp
qed

lemma reachable_steps: "sync_reachable s \<Longrightarrow> sync_step\<^sup>*\<^sup>* s s' \<Longrightarrow> sync_reachable s'"
  by (rotate_tac, induction rule: rtranclp_induct) (auto intro: sync_next)

text \<open>The catch-up log is a single worker, and it ends: once the tip was reached or the indexer
  stopped, no timer is armed in any later state and at most one message, whose snapshot was taken
  before, can still be logged.\<close>

lemma catch_up_log_ends:
  assumes "sync_reachable s" and "syncLogDone (sy_log s)" and "sync_step\<^sup>*\<^sup>* s s'"
  shows "\<not> syncLogTimer (sy_log s') \<and> log_workers s' \<le> 1
    \<and> length (sy_messages s') \<le> length (sy_messages s) + length (sy_snapshots s) \<and> length (sy_snapshots s) \<le> 1"
proof -
  have "sync_reachable s'" using assms(1,3) by (rule reachable_steps)
  then show ?thesis
    using sync_invariant [of s'] sync_invariant [OF assms(1)] log_done_steps [OF assms(3,2)]
    by (auto simp: log_workers_def)
qed


text \<open>
  The message is logged after the lock is given up, so one can still appear after logging is over.
\<close>

lemma stale_message_after_stop:
  "\<exists>s s'. sync_reachable s \<and> syncLogDone (sy_log s) \<and> sync_step s s' \<and> length (sy_messages s') = length (sy_messages s) + 1"
proof -
  let ?fired = "sync_start\<lparr>sy_log := (sy_log sync_start)\<lparr>syncLogTimer := False\<rparr>, sy_fired := 1\<rparr>"
  let ?snap = "?fired\<lparr>sy_fired := 0, sy_snapshots := [(0, [], 0)]\<rparr>"
  let ?stopped = "?snap\<lparr>sy_log := stopSyncLogTimerLocked (sy_log ?snap)\<rparr>"
  let ?emitted = "?stopped\<lparr>sy_snapshots := [], sy_messages := [sync_message (0, [], 0)], sy_logged := 1\<rparr>"
  have f: "sync_reachable ?fired"
    using sync_next [OF sync_init, of ?fired] sync_fire [of sync_start]
    by (simp add: sync_start_def scheduleSyncStatusLogLocked_def)
  have "sync_step ?fired ?snap"
    using sync_snapshot [of ?fired] by (simp add: sync_start_def scheduleSyncStatusLogLocked_def)
  then have "sync_reachable ?snap" using f sync_next by blast
  then have "sync_reachable ?stopped" using sync_stop sync_next by blast
  moreover have "sync_step ?stopped ?emitted"
    using sync_emit [of ?stopped "(0, [], 0)" "[]"] by (simp add: sync_start_def)
  ultimately show ?thesis
    by (intro exI [of _ ?stopped] exI [of _ ?emitted]) (simp add: stopSyncLogTimerLocked_def sync_start_def)
qed

definition ada_pay_event :: idx_transaction where
  "ada_pay_event = \<lparr>it_Consumed = [(''cd'', 3)], it_Produced = [\<lparr>po_Address = ''addr1'', po_Index = 0, po_Cbor = [1]\<rparr>,
     \<lparr>po_Address = ''addr9'', po_Index = 1, po_Cbor = [2]\<rparr>]\<rparr>"


end
