(* ===== verification/Liqwid.thy ===== *)
theory Liqwid
  imports Reserves Float64
begin

text \<open>
  The Liqwid lending protocol (\<open>dex/liqwid/models.go\<close>, \<open>dex/liqwid/parser.go\<close>, re-exported by
  \<open>internal/oracle/liqwid.go\<close>): the datums of markets, of supply and borrow positions, of price
  feeds and of the interest rate model, their decoders, the states the parser makes of them and the
  identifiers of these states.

  The methods that \<open>MarketDatum\<close> and \<open>MarketState\<close> share are one definition each. A credential
  constructor is decoded as an unsigned tag; its conversion to \<open>int\<close> matters only for values the
  decoder refuses.
\<close>

section \<open>Datums\<close>

record liqwid_MarketDatum =
  md_MarketNft :: AssetClass
  md_UnderlyingAsset :: AssetClass
  md_QTokenAsset :: AssetClass
  md_TotalSupply :: u64
  md_TotalBorrows :: u64
  md_ReserveAmount :: u64
  md_InterestRate :: u64
  md_CollateralFactor :: u64

record liqwid_Credential =
  cred_Type :: nat
  cred_Hash :: bytes

record SupplyPositionDatum =
  sd_Owner :: liqwid_Credential
  sd_MarketNft :: AssetClass
  sd_QTokenAmount :: u64
  sd_DepositSlot :: u64

record BorrowPositionDatum =
  bd_Owner :: liqwid_Credential
  bd_MarketNft :: AssetClass
  bd_BorrowAmount :: u64
  bd_BorrowIndex :: u64
  bd_BorrowSlot :: u64

record liqwid_OracleDatum =
  od_Asset :: AssetClass
  od_Price :: u64
  od_Denominator :: u64
  od_ValidFrom :: int
  od_ValidTo :: int

record InterestRateModelDatum =
  im_BaseRatePerSlot :: u64
  im_MultiplierPerSlot :: u64
  im_JumpMultiplierPerSlot :: u64
  im_Kink :: u64

definition liqwid_ProtocolName :: string where
  "liqwid_ProtocolName = ''liqwid''"

definition BasisPointsDenom :: u64 where
  "BasisPointsDenom = 10000"

section \<open>Decoders\<close>

definition decode_liqwid_Asset :: "cbor_lib \<Rightarrow> bytes \<Rightarrow> AssetClass option" where
  "decode_liqwid_Asset cb data = do {
     (tag, raw) \<leftarrow> dec_constr cb data;
     if tag \<noteq> 0 then None else dec_class cb raw }"

definition decode_liqwid_Credential :: "cbor_lib \<Rightarrow> bytes \<Rightarrow> liqwid_Credential option" where
  "decode_liqwid_Credential cb data = do {
     (tag, raw) \<leftarrow> dec_constr cb data;
     if tag \<noteq> 0 \<and> tag \<noteq> 1 then None
     else do {
       flds \<leftarrow> dec_struct cb 1 raw;
       hash \<leftarrow> dec_bytes cb (flds ! 0);
       Some \<lparr>cred_Type = tag, cred_Hash = hash\<rparr> } }"

definition decode_liqwid_MarketDatum :: "cbor_lib \<Rightarrow> bytes \<Rightarrow> liqwid_MarketDatum option" where
  "decode_liqwid_MarketDatum cb data = do {
     (tag, raw) \<leftarrow> dec_constr cb data;
     if tag \<noteq> 0 then None
     else do {
       flds \<leftarrow> dec_struct cb 8 raw;
       nft \<leftarrow> decode_liqwid_Asset cb (flds ! 0);
       underlying \<leftarrow> decode_liqwid_Asset cb (flds ! 1);
       qtoken \<leftarrow> decode_liqwid_Asset cb (flds ! 2);
       supply \<leftarrow> dec_uint cb (flds ! 3);
       borrows \<leftarrow> dec_uint cb (flds ! 4);
       reserve \<leftarrow> dec_uint cb (flds ! 5);
       rate \<leftarrow> dec_uint cb (flds ! 6);
       factor \<leftarrow> dec_uint cb (flds ! 7);
       Some \<lparr>md_MarketNft = nft, md_UnderlyingAsset = underlying, md_QTokenAsset = qtoken,
         md_TotalSupply = supply, md_TotalBorrows = borrows, md_ReserveAmount = reserve,
         md_InterestRate = rate, md_CollateralFactor = factor\<rparr> } }"

definition decode_SupplyPositionDatum :: "cbor_lib \<Rightarrow> bytes \<Rightarrow> SupplyPositionDatum option" where
  "decode_SupplyPositionDatum cb data = do {
     (tag, raw) \<leftarrow> dec_constr cb data;
     if tag \<noteq> 0 then None
     else do {
       flds \<leftarrow> dec_struct cb 4 raw;
       owner \<leftarrow> decode_liqwid_Credential cb (flds ! 0);
       nft \<leftarrow> decode_liqwid_Asset cb (flds ! 1);
       amount \<leftarrow> dec_uint cb (flds ! 2);
       slot \<leftarrow> dec_uint cb (flds ! 3);
       Some \<lparr>sd_Owner = owner, sd_MarketNft = nft, sd_QTokenAmount = amount, sd_DepositSlot = slot\<rparr> } }"

definition decode_BorrowPositionDatum :: "cbor_lib \<Rightarrow> bytes \<Rightarrow> BorrowPositionDatum option" where
  "decode_BorrowPositionDatum cb data = do {
     (tag, raw) \<leftarrow> dec_constr cb data;
     if tag \<noteq> 0 then None
     else do {
       flds \<leftarrow> dec_struct cb 5 raw;
       owner \<leftarrow> decode_liqwid_Credential cb (flds ! 0);
       nft \<leftarrow> decode_liqwid_Asset cb (flds ! 1);
       amount \<leftarrow> dec_uint cb (flds ! 2);
       index \<leftarrow> dec_uint cb (flds ! 3);
       slot \<leftarrow> dec_uint cb (flds ! 4);
       Some \<lparr>bd_Owner = owner, bd_MarketNft = nft, bd_BorrowAmount = amount, bd_BorrowIndex = index,
         bd_BorrowSlot = slot\<rparr> } }"

definition decode_liqwid_OracleDatum :: "cbor_lib \<Rightarrow> bytes \<Rightarrow> liqwid_OracleDatum option" where
  "decode_liqwid_OracleDatum cb data = do {
     (tag, raw) \<leftarrow> dec_constr cb data;
     if tag \<noteq> 0 then None
     else do {
       flds \<leftarrow> dec_struct cb 5 raw;
       asset \<leftarrow> decode_liqwid_Asset cb (flds ! 0);
       price \<leftarrow> dec_uint cb (flds ! 1);
       denominator \<leftarrow> dec_uint cb (flds ! 2);
       from \<leftarrow> dec_int64 cb (flds ! 3);
       upto \<leftarrow> dec_int64 cb (flds ! 4);
       Some \<lparr>od_Asset = asset, od_Price = price, od_Denominator = denominator, od_ValidFrom = from,
         od_ValidTo = upto\<rparr> } }"

definition decode_InterestRateModelDatum :: "cbor_lib \<Rightarrow> bytes \<Rightarrow> InterestRateModelDatum option" where
  "decode_InterestRateModelDatum cb data = do {
     (tag, raw) \<leftarrow> dec_constr cb data;
     if tag \<noteq> 0 then None
     else do {
       flds \<leftarrow> dec_struct cb 4 raw;
       base \<leftarrow> dec_uint cb (flds ! 0);
       mult \<leftarrow> dec_uint cb (flds ! 1);
       jump \<leftarrow> dec_uint cb (flds ! 2);
       kink \<leftarrow> dec_uint cb (flds ! 3);
       Some \<lparr>im_BaseRatePerSlot = base, im_MultiplierPerSlot = mult, im_JumpMultiplierPerSlot = jump,
         im_Kink = kink\<rparr> } }"

section \<open>Rates, liquidity and credentials\<close>

definition basisPointsFloat :: "u64 \<Rightarrow> f64" where
  "basisPointsFloat v = f64_div (f64_of_u64 v) (f64_of_u64 BasisPointsDenom)"

definition KinkFloat :: "InterestRateModelDatum \<Rightarrow> f64" where
  "KinkFloat d = f64_div (f64_of_u64 (im_Kink d)) (f64_of_u64 BasisPointsDenom)"

definition UtilizationRate :: "liqwid_MarketDatum \<Rightarrow> f64" where
  "UtilizationRate d =
     (if md_TotalSupply d = 0 then Fin 0
      else f64_div (f64_of_u64 (md_TotalBorrows d)) (f64_of_u64 (md_TotalSupply d)))"

definition availableLiquidity :: "u64 \<Rightarrow> u64 \<Rightarrow> u64 \<Rightarrow> u64" where
  "availableLiquidity totalSupply totalBorrows reserveAmount =
     (if totalSupply \<le> totalBorrows then 0
      else let liquid = totalSupply - totalBorrows
           in if liquid \<le> reserveAmount then 0 else liquid - reserveAmount)"

definition Identifier :: "liqwid_Credential \<Rightarrow> string" where
  "Identifier c =
     (if cred_Type c = 0 then ''pubkey:'' @ hex_encode (cred_Hash c)
      else if cred_Type c = 1 then ''script:'' @ hex_encode (cred_Hash c)
      else ''credential'' @ show_nat (cred_Type c) @ '':'' @ hex_encode (cred_Hash c))"

definition cred_IsPubKey :: "liqwid_Credential \<Rightarrow> bool" where
  "cred_IsPubKey c = (cred_Type c = 0)"

definition cred_IsScript :: "liqwid_Credential \<Rightarrow> bool" where
  "cred_IsScript c = (cred_Type c = 1)"

section \<open>States\<close>

record MarketState =
  ms_MarketId :: string
  ms_Protocol :: string
  ms_UnderlyingAsset :: AssetAmount
  ms_QTokenAsset :: AssetClass
  ms_TotalSupply :: u64
  ms_TotalBorrows :: u64
  ms_ReserveAmount :: u64
  ms_InterestRate :: u64
  ms_CollateralFactor :: u64
  ms_UtilizationRate :: f64
  ms_Slot :: u64
  ms_TxHash :: string
  ms_TxIndex :: u32
  ms_Timestamp :: time

record SupplyState =
  ss_PositionId :: string
  ss_Owner :: string
  ss_MarketId :: string
  ss_QTokenAmount :: u64
  ss_DepositSlot :: u64
  ss_Slot :: u64
  ss_TxHash :: string
  ss_TxIndex :: u32
  ss_Timestamp :: time

record BorrowState =
  bs_PositionId :: string
  bs_Owner :: string
  bs_MarketId :: string
  bs_BorrowAmount :: u64
  bs_BorrowIndex :: u64
  bs_BorrowSlot :: u64
  bs_Slot :: u64
  bs_TxHash :: string
  bs_TxIndex :: u32
  bs_Timestamp :: time

record OracleState =
  os_Asset :: AssetClass
  os_Price :: u64
  os_Denominator :: u64
  os_ValidFrom :: time
  os_ValidTo :: time
  os_Slot :: u64
  os_TxHash :: string
  os_Timestamp :: time

definition GenerateMarketId :: "bytes \<Rightarrow> bytes \<Rightarrow> string" where
  "GenerateMarketId policyId assetName = ''liqwid_'' @ hex_encode policyId @ ''.'' @ hex_encode assetName"

definition GeneratePositionId :: "string \<Rightarrow> u32 \<Rightarrow> string" where
  "GeneratePositionId txHash txIndex = ''liqwid_pos_'' @ txHash @ ''#'' @ show_nat (unat txIndex)"

definition MarketState_Key :: "MarketState \<Rightarrow> string" where
  "MarketState_Key m = ''liqwid:'' @ ms_MarketId m"

definition SupplyState_Key :: "SupplyState \<Rightarrow> string" where
  "SupplyState_Key s = ''liqwid:supply:'' @ ss_PositionId s"

definition BorrowState_Key :: "BorrowState \<Rightarrow> string" where
  "BorrowState_Key b = ''liqwid:borrow:'' @ bs_PositionId b"

definition OracleState_Key :: "OracleState \<Rightarrow> string" where
  "OracleState_Key s = ''liqwid:oracle:'' @ hex_encode (PolicyId (os_Asset s)) @ ''.'' @ hex_encode (Name (os_Asset s))"

text \<open>\<open>PriceFloat\<close> of a datum and of a state.\<close>

definition liqwid_PriceFloat :: "u64 \<Rightarrow> u64 \<Rightarrow> f64" where
  "liqwid_PriceFloat price denominator =
     (if denominator = 0 then Fin 0 else f64_div (f64_of_u64 price) (f64_of_u64 denominator))"

section \<open>Parser\<close>

datatype liqwid_error = MarketDecodeError | SupplyDecodeError | BorrowDecodeError | OracleDecodeError

definition ParseMarketDatumSimple :: "cbor_lib \<Rightarrow> bytes \<Rightarrow> liqwid_error + liqwid_MarketDatum" where
  "ParseMarketDatumSimple cb datum =
     (case decode_liqwid_MarketDatum cb datum of None \<Rightarrow> Inl MarketDecodeError | Some d \<Rightarrow> Inr d)"

definition ParseMarketDatum ::
  "cbor_lib \<Rightarrow> bytes \<Rightarrow> string \<Rightarrow> u32 \<Rightarrow> u64 \<Rightarrow> time \<Rightarrow> liqwid_error + MarketState" where
  "ParseMarketDatum cb datum txHash txIndex slot timestamp =
     (case decode_liqwid_MarketDatum cb datum of
        None \<Rightarrow> Inl MarketDecodeError
      | Some d \<Rightarrow>
          (let marketId = GenerateMarketId (PolicyId (md_MarketNft d)) (Name (md_MarketNft d));
               utilization = UtilizationRate d
           in Inr \<lparr>ms_MarketId = marketId, ms_Protocol = liqwid_ProtocolName,
                ms_UnderlyingAsset = \<lparr>Class = md_UnderlyingAsset d, Amount = md_TotalSupply d\<rparr>,
                ms_QTokenAsset = md_QTokenAsset d, ms_TotalSupply = md_TotalSupply d,
                ms_TotalBorrows = md_TotalBorrows d, ms_ReserveAmount = md_ReserveAmount d,
                ms_InterestRate = md_InterestRate d, ms_CollateralFactor = md_CollateralFactor d,
                ms_UtilizationRate = utilization, ms_Slot = slot, ms_TxHash = txHash, ms_TxIndex = txIndex,
                ms_Timestamp = timestamp\<rparr>))"

definition ParseSupplyPositionDatum ::
  "cbor_lib \<Rightarrow> bytes \<Rightarrow> string \<Rightarrow> u32 \<Rightarrow> u64 \<Rightarrow> time \<Rightarrow> liqwid_error + SupplyState" where
  "ParseSupplyPositionDatum cb datum txHash txIndex slot timestamp =
     (case decode_SupplyPositionDatum cb datum of
        None \<Rightarrow> Inl SupplyDecodeError
      | Some d \<Rightarrow> Inr \<lparr>ss_PositionId = GeneratePositionId txHash txIndex, ss_Owner = Identifier (sd_Owner d),
          ss_MarketId = GenerateMarketId (PolicyId (sd_MarketNft d)) (Name (sd_MarketNft d)),
          ss_QTokenAmount = sd_QTokenAmount d, ss_DepositSlot = sd_DepositSlot d, ss_Slot = slot,
          ss_TxHash = txHash, ss_TxIndex = txIndex, ss_Timestamp = timestamp\<rparr>)"

definition ParseBorrowPositionDatum ::
  "cbor_lib \<Rightarrow> bytes \<Rightarrow> string \<Rightarrow> u32 \<Rightarrow> u64 \<Rightarrow> time \<Rightarrow> liqwid_error + BorrowState" where
  "ParseBorrowPositionDatum cb datum txHash txIndex slot timestamp =
     (case decode_BorrowPositionDatum cb datum of
        None \<Rightarrow> Inl BorrowDecodeError
      | Some d \<Rightarrow> Inr \<lparr>bs_PositionId = GeneratePositionId txHash txIndex, bs_Owner = Identifier (bd_Owner d),
          bs_MarketId = GenerateMarketId (PolicyId (bd_MarketNft d)) (Name (bd_MarketNft d)),
          bs_BorrowAmount = bd_BorrowAmount d, bs_BorrowIndex = bd_BorrowIndex d, bs_BorrowSlot = bd_BorrowSlot d,
          bs_Slot = slot, bs_TxHash = txHash, bs_TxIndex = txIndex, bs_Timestamp = timestamp\<rparr>)"

definition liqwid_ParseOracleDatum ::
  "cbor_lib \<Rightarrow> bytes \<Rightarrow> string \<Rightarrow> u64 \<Rightarrow> time \<Rightarrow> liqwid_error + OracleState" where
  "liqwid_ParseOracleDatum cb datum txHash slot timestamp =
     (case decode_liqwid_OracleDatum cb datum of
        None \<Rightarrow> Inl OracleDecodeError
      | Some d \<Rightarrow> Inr \<lparr>os_Asset = od_Asset d, os_Price = od_Price d, os_Denominator = od_Denominator d,
          os_ValidFrom = UnixMilli (od_ValidFrom d), os_ValidTo = UnixMilli (od_ValidTo d), os_Slot = slot,
          os_TxHash = txHash, os_Timestamp = timestamp\<rparr>)"

definition GetMarketAddresses :: "string list" where
  "GetMarketAddresses =
     [''addr1w8dprfgfdxnlwu3948579jrwg0ferf5a63ln8xj0mqcdzegayxmqq'',
      ''addr1w9wjz8tjt87gldh2usu8t5mfe4nkmlngp30a387h8s94fyg5uup5n'',
      ''addr1wyw3ap36lnepstpjadwg8cg73llvmju4y94kmfld23lkzjggq4hyj'',
      ''addr1wxrxa3ucywn3lqpkzlyucak0a7aavkudh49fqt06yc05sws4l4zs2'']"

definition GetOracleAddresses :: "string list" where
  "GetOracleAddresses = [''addr1wyd8cezjr0gcf8nfxuc9trd4hs7ec520jmkwkqzywx6l5jg0al0ya'']"

section \<open>Lemmas\<close>

text \<open>The four kinds of datum never overlap: they differ in their number of fields, and the first
  field of a position has one item where that of a price has two.\<close>

lemma credential_not_asset: "decode_liqwid_Credential cb x = Some c \<Longrightarrow> decode_liqwid_Asset cb x = None"
  by (auto simp: decode_liqwid_Credential_def decode_liqwid_Asset_def dec_class_def dec_struct_def bind_eq_Some_conv
      split: if_splits option.splits)

definition datum_shape :: "cbor_lib \<Rightarrow> bytes \<Rightarrow> (nat \<times> bool) option" where
  "datum_shape cb x = do {
     (tag, raw) \<leftarrow> dec_constr cb x;
     flds \<leftarrow> dec_list cb raw;
     Some (length flds, decode_liqwid_Asset cb (flds ! 0) \<noteq> None) }"

lemma dec_struct_iff: "dec_struct cb n raw = Some flds \<longleftrightarrow> dec_list cb raw = Some flds \<and> length flds = n"
  by (auto simp: dec_struct_def split: option.splits)

lemmas decode_shape = datum_shape_def bind_eq_Some_conv dec_struct_iff

lemma market_shape: "decode_liqwid_MarketDatum cb x = Some d \<Longrightarrow> \<exists>b. datum_shape cb x = Some (8, b)"
  by (auto simp: decode_liqwid_MarketDatum_def decode_shape simp del: not_None_eq split: if_splits)

lemma supply_shape: "decode_SupplyPositionDatum cb x = Some d \<Longrightarrow> \<exists>b. datum_shape cb x = Some (4, b)"
  by (auto simp: decode_SupplyPositionDatum_def decode_shape split: if_splits)

lemma borrow_shape: "decode_BorrowPositionDatum cb x = Some d \<Longrightarrow> datum_shape cb x = Some (5, False)"
  by (auto simp: decode_BorrowPositionDatum_def decode_shape split: if_splits dest: credential_not_asset)

lemma oracle_shape: "decode_liqwid_OracleDatum cb x = Some d \<Longrightarrow> datum_shape cb x = Some (5, True)"
  by (auto simp: decode_liqwid_OracleDatum_def decode_shape split: if_splits)

lemma liqwid_kinds_disjoint:
  "decode_liqwid_MarketDatum cb x = Some m \<Longrightarrow> decode_SupplyPositionDatum cb x = None \<and> decode_BorrowPositionDatum cb x = None
     \<and> decode_liqwid_OracleDatum cb x = None"
  "decode_SupplyPositionDatum cb x = Some s \<Longrightarrow> decode_liqwid_MarketDatum cb x = None \<and> decode_BorrowPositionDatum cb x = None
     \<and> decode_liqwid_OracleDatum cb x = None"
  "decode_BorrowPositionDatum cb x = Some b \<Longrightarrow> decode_liqwid_MarketDatum cb x = None \<and> decode_SupplyPositionDatum cb x = None
     \<and> decode_liqwid_OracleDatum cb x = None"
  "decode_liqwid_OracleDatum cb x = Some p \<Longrightarrow> decode_liqwid_MarketDatum cb x = None \<and> decode_SupplyPositionDatum cb x = None
     \<and> decode_BorrowPositionDatum cb x = None"
  by (cases "decode_liqwid_MarketDatum cb x"; cases "decode_SupplyPositionDatum cb x";
      cases "decode_BorrowPositionDatum cb x"; cases "decode_liqwid_OracleDatum cb x";
      force dest: market_shape supply_shape borrow_shape oracle_shape)+

text \<open>A market identifier is that of one token, a position identifier that of one output, and neither
  is the other.\<close>

lemma GenerateMarketId_text: "GenerateMarketId (PolicyId (c :: AssetClass)) (Name c) = ''liqwid_'' @ class_text c"
  by (simp add: GenerateMarketId_def class_text_def)

lemma OracleState_Key_text: "OracleState_Key s = ''liqwid:oracle:'' @ class_text (os_Asset s)"
  by (simp add: OracleState_Key_def class_text_def)

lemma position_id_inject: "GeneratePositionId h i = GeneratePositionId h' i' \<longleftrightarrow> h = h' \<and> i = i'"
proof
  assume "GeneratePositionId h i = GeneratePositionId h' i'"
  then have "rev (h @ CHR ''#'' # show_nat (unat i)) = rev (h' @ CHR ''#'' # show_nat (unat i'))"
    by (simp add: GeneratePositionId_def)
  then have "rev (show_nat (unat i)) @ CHR ''#'' # rev h = rev (show_nat (unat i')) @ CHR ''#'' # rev h'"
    by simp
  moreover have "CHR ''#'' \<notin> set (show_nat n)" for n
    using show_nat_not_sign [of "CHR ''#''" n] by (auto simp: is_digit_def)
  ultimately have "rev (show_nat (unat i)) = rev (show_nat (unat i')) \<and> rev h = rev h'"
    by (intro append_sep_inject) simp_all
  then show "h = h' \<and> i = i'" by (simp add: word_unat_eq_iff)
qed simp

lemma class_text_hd: "class_text c \<noteq> [] \<and> (is_hex (hd (class_text c)) \<or> hd (class_text c) = CHR ''.'')"
proof (cases "hex_encode (PolicyId c)")
  case (Cons a as)
  then show ?thesis using hex_encode_is_hex [of "PolicyId c"] by (simp add: class_text_def)
qed (simp add: class_text_def)

lemma market_id_not_position: "GenerateMarketId (PolicyId (c :: AssetClass)) (Name c) \<noteq> GeneratePositionId h i"
proof
  assume "GenerateMarketId (PolicyId c) (Name c) = GeneratePositionId h i"
  then have "class_text c = CHR ''p'' # ''os_'' @ h @ ''#'' @ show_nat (unat i)"
    by (simp add: GenerateMarketId_text GeneratePositionId_def)
  then show False using class_text_hd [of c] by (simp add: is_hex_def hex_val_def)
qed

end
