(* ===== verification/Lending_State.thy ===== *)
theory Lending_State
  imports Liqwid Splash Oracle
begin

text \<open>
  Lending states and their persistence (\<open>LendingState\<close> and \<open>LendingUpdate\<close> of
  \<open>internal/oracle/lending_oracle.go\<close>, \<open>internal/oracle/lending_adapters.go\<close>,
  \<open>internal/oracle/lending_storage.go\<close>): the unified state of a lending protocol, the Liqwid adapter
  that makes it of a datum, and the store that keeps the latest state under its key.

  Badger is a map whose transactions may fail (the argument \<open>commits\<close>, asked with the key and the
  value to be written, \<open>None\<close> for a deletion). JSON refuses times outside the years 0 to 9999 and
  floating point values that are not finite.
\<close>

section \<open>States\<close>

datatype LendingStateType =
    LendingStateTypeMarket
  | LendingStateTypeLoan
  | LendingStateTypeLoanOffer
  | LendingStateTypePosition
  | LendingStateTypeOracle

record LendingState =
  ls_StateId :: string
  ls_StateType :: LendingStateType
  ls_Protocol :: string
  ls_Network :: string
  ls_TotalSupply :: u64
  ls_TotalBorrows :: u64
  ls_AvailableLiq :: u64
  ls_UtilizationRate :: f64
  ls_InterestRate :: u64
  ls_CollateralFactor :: u64
  ls_InterestRatePct :: f64
  ls_UnderlyingAsset :: AssetClass
  ls_CollateralAsset :: AssetClass
  ls_LpToken :: AssetClass
  ls_OraclePrice :: u64
  ls_OracleDenominator :: u64
  ls_OraclePriceValue :: f64
  ls_ValidFrom :: time
  ls_ValidTo :: time
  ls_LoanAmount :: u64
  ls_RepaymentAmount :: u64
  ls_StartTime :: time
  ls_DueDate :: time
  ls_Duration :: duration
  ls_IsOverdue :: bool
  ls_CanLiquidate :: bool
  ls_LoanStatus :: string
  ls_Lender :: string
  ls_Borrower :: string
  ls_Slot :: u64
  ls_TxHash :: string
  ls_TxIndex :: u32
  ls_Timestamp :: time
  ls_UpdatedAt :: time

text \<open>The zero value, from which a composite literal sets the fields it names.\<close>

definition zero_LendingState :: LendingState where
  "zero_LendingState = \<lparr>ls_StateId = [], ls_StateType = LendingStateTypeMarket, ls_Protocol = [], ls_Network = [],
     ls_TotalSupply = 0, ls_TotalBorrows = 0, ls_AvailableLiq = 0, ls_UtilizationRate = Fin 0, ls_InterestRate = 0,
     ls_CollateralFactor = 0, ls_InterestRatePct = Fin 0, ls_UnderlyingAsset = Lovelace, ls_CollateralAsset = Lovelace,
     ls_LpToken = Lovelace, ls_OraclePrice = 0, ls_OracleDenominator = 0, ls_OraclePriceValue = Fin 0, ls_ValidFrom = 0,
     ls_ValidTo = 0, ls_LoanAmount = 0, ls_RepaymentAmount = 0, ls_StartTime = 0, ls_DueDate = 0, ls_Duration = 0,
     ls_IsOverdue = False, ls_CanLiquidate = False, ls_LoanStatus = [], ls_Lender = [], ls_Borrower = [], ls_Slot = 0,
     ls_TxHash = [], ls_TxIndex = 0, ls_Timestamp = 0, ls_UpdatedAt = 0\<rparr>"

definition LendingState_Key :: "LendingState \<Rightarrow> string" where
  "LendingState_Key s = ls_Network s @ '':'' @ ls_Protocol s @ '':'' @ ls_StateId s"

definition IsMarket :: "LendingState \<Rightarrow> bool" where
  "IsMarket s = (ls_StateType s = LendingStateTypeMarket)"

definition IsLoan :: "LendingState \<Rightarrow> bool" where
  "IsLoan s = (ls_StateType s = LendingStateTypeLoan)"

definition IsLoanOffer :: "LendingState \<Rightarrow> bool" where
  "IsLoanOffer s = (ls_StateType s = LendingStateTypeLoanOffer)"

record LendingUpdate =
  lu_StateId :: string
  lu_StateType :: LendingStateType
  lu_Protocol :: string
  lu_UtilizationRate :: f64
  lu_InterestRate :: f64
  lu_OraclePrice :: f64
  lu_TotalSupply :: u64
  lu_TotalBorrows :: u64
  lu_LoanStatus :: string
  lu_Slot :: u64
  lu_Timestamp :: time

definition NewLendingUpdate :: "LendingState \<Rightarrow> LendingUpdate" where
  "NewLendingUpdate s = \<lparr>lu_StateId = ls_StateId s, lu_StateType = ls_StateType s, lu_Protocol = ls_Protocol s,
     lu_UtilizationRate = ls_UtilizationRate s, lu_InterestRate = ls_InterestRatePct s,
     lu_OraclePrice = ls_OraclePriceValue s, lu_TotalSupply = ls_TotalSupply s, lu_TotalBorrows = ls_TotalBorrows s,
     lu_LoanStatus = ls_LoanStatus s, lu_Slot = ls_Slot s, lu_Timestamp = ls_Timestamp s\<rparr>"

section \<open>The Liqwid adapter\<close>

definition marketToLendingState :: "MarketState \<Rightarrow> LendingState" where
  "marketToLendingState s = zero_LendingState
     \<lparr>ls_StateId := ms_MarketId s, ls_StateType := LendingStateTypeMarket, ls_Protocol := ms_Protocol s,
      ls_TotalSupply := ms_TotalSupply s, ls_TotalBorrows := ms_TotalBorrows s,
      ls_AvailableLiq := availableLiquidity (ms_TotalSupply s) (ms_TotalBorrows s) (ms_ReserveAmount s),
      ls_UtilizationRate := ms_UtilizationRate s, ls_InterestRate := ms_InterestRate s,
      ls_CollateralFactor := ms_CollateralFactor s, ls_InterestRatePct := basisPointsFloat (ms_InterestRate s),
      ls_UnderlyingAsset := Class (ms_UnderlyingAsset s), ls_LpToken := ms_QTokenAsset s, ls_Slot := ms_Slot s,
      ls_TxHash := ms_TxHash s, ls_TxIndex := ms_TxIndex s, ls_Timestamp := ms_Timestamp s\<rparr>"

definition supplyToLendingState :: "SupplyState \<Rightarrow> LendingState" where
  "supplyToLendingState s = zero_LendingState
     \<lparr>ls_StateId := ss_PositionId s, ls_StateType := LendingStateTypePosition, ls_Protocol := liqwid_ProtocolName,
      ls_TotalSupply := ss_QTokenAmount s, ls_Lender := ss_Owner s, ls_Slot := ss_Slot s, ls_TxHash := ss_TxHash s,
      ls_TxIndex := ss_TxIndex s, ls_Timestamp := ss_Timestamp s\<rparr>"

definition borrowToLendingState :: "BorrowState \<Rightarrow> LendingState" where
  "borrowToLendingState s = zero_LendingState
     \<lparr>ls_StateId := bs_PositionId s, ls_StateType := LendingStateTypePosition, ls_Protocol := liqwid_ProtocolName,
      ls_LoanAmount := bs_BorrowAmount s, ls_Borrower := bs_Owner s, ls_Slot := bs_Slot s, ls_TxHash := bs_TxHash s,
      ls_TxIndex := bs_TxIndex s, ls_Timestamp := bs_Timestamp s\<rparr>"

definition oracleToLendingState :: "OracleState \<Rightarrow> u32 \<Rightarrow> LendingState" where
  "oracleToLendingState s txIndex = zero_LendingState
     \<lparr>ls_StateId := OracleState_Key s, ls_StateType := LendingStateTypeOracle, ls_Protocol := liqwid_ProtocolName,
      ls_UnderlyingAsset := os_Asset s, ls_OraclePrice := os_Price s, ls_OracleDenominator := os_Denominator s,
      ls_OraclePriceValue := liqwid_PriceFloat (os_Price s) (os_Denominator s), ls_ValidFrom := os_ValidFrom s,
      ls_ValidTo := os_ValidTo s, ls_Slot := os_Slot s, ls_TxHash := os_TxHash s, ls_TxIndex := txIndex,
      ls_Timestamp := os_Timestamp s\<rparr>"

definition liqwid_ParseDatum ::
  "cbor_lib \<Rightarrow> bytes \<Rightarrow> string \<Rightarrow> u32 \<Rightarrow> u64 \<Rightarrow> time \<Rightarrow> liqwid_error + LendingState option" where
  "liqwid_ParseDatum cb datum txHash txIndex slot timestamp =
     (case ParseMarketDatum cb datum txHash txIndex slot timestamp of
        Inr s \<Rightarrow> Inr (Some (marketToLendingState s))
      | Inl marketErr \<Rightarrow>
     (case ParseSupplyPositionDatum cb datum txHash txIndex slot timestamp of
        Inr s \<Rightarrow> Inr (Some (supplyToLendingState s))
      | Inl _ \<Rightarrow>
     (case ParseBorrowPositionDatum cb datum txHash txIndex slot timestamp of
        Inr s \<Rightarrow> Inr (Some (borrowToLendingState s))
      | Inl _ \<Rightarrow>
     (case liqwid_ParseOracleDatum cb datum txHash slot timestamp of
        Inr s \<Rightarrow> Inr (Some (oracleToLendingState s txIndex))
      | Inl _ \<Rightarrow> Inl marketErr))))"

text \<open>The interface \<open>LendingParser\<close> and the parser of a protocol.\<close>

record 'e lending_parser =
  lp_Protocol :: string
  lp_ParseDatum :: "bytes \<Rightarrow> string \<Rightarrow> u32 \<Rightarrow> u64 \<Rightarrow> time \<Rightarrow> 'e + LendingState option"
  lp_GetAddresses :: "string list"

definition NewLiqwidLendingAdapter :: "cbor_lib \<Rightarrow> liqwid_error lending_parser" where
  "NewLiqwidLendingAdapter cb =
     \<lparr>lp_Protocol = liqwid_ProtocolName, lp_ParseDatum = liqwid_ParseDatum cb, lp_GetAddresses = GetMarketAddresses\<rparr>"

definition GetLendingParser :: "cbor_lib \<Rightarrow> string \<Rightarrow> liqwid_error lending_parser option" where
  "GetLendingParser cb protocol = (if protocol = ''liqwid'' then Some (NewLiqwidLendingAdapter cb) else None)"

section \<open>Storage\<close>

datatype lending_stored = LendingValue LendingState | BadLendingValue

type_synonym lending_store = "(string, lending_stored) gomap"

datatype lending_storage_error = LendingMarshalFailed | LendingCommitFailed | LendingKeyNotFound | LendingUnmarshalFailed

type_synonym lending_commits = "string \<Rightarrow> lending_stored option \<Rightarrow> bool"

definition lendingStateKeyPrefix :: string where
  "lendingStateKeyPrefix = ''lending_state_''"

definition lendingStateKey :: "string \<Rightarrow> string \<Rightarrow> string \<Rightarrow> string" where
  "lendingStateKey network protocol stateId = lendingStateKeyPrefix @ network @ '':'' @ protocol @ '':'' @ stateId"

definition ParseLendingStateKey :: "string \<Rightarrow> (string \<times> string \<times> string) option" where
  "ParseLendingStateKey key =
     (if \<not> has_prefix lendingStateKeyPrefix key then None
      else case cut CHR '':'' (trim_prefix lendingStateKeyPrefix key) of
        None \<Rightarrow> None
      | Some (network, rest) \<Rightarrow> (case cut CHR '':'' rest of
          None \<Rightarrow> None
        | Some (protocol, stateId) \<Rightarrow> Some (network, protocol, stateId)))"

definition lending_json_ok :: "LendingState \<Rightarrow> bool" where
  "lending_json_ok s =
     (f64_isfinite (ls_UtilizationRate s) \<and> f64_isfinite (ls_InterestRatePct s) \<and> f64_isfinite (ls_OraclePriceValue s)
      \<and> json_time_ok (ls_ValidFrom s) \<and> json_time_ok (ls_ValidTo s) \<and> json_time_ok (ls_StartTime s)
      \<and> json_time_ok (ls_DueDate s) \<and> json_time_ok (ls_Timestamp s) \<and> json_time_ok (ls_UpdatedAt s))"

definition SaveLendingState ::
  "lending_commits \<Rightarrow> LendingState \<Rightarrow> lending_store \<Rightarrow> (lending_storage_error + unit) \<times> lending_store" where
  "SaveLendingState commits s db =
     (let key = lendingStateKey (ls_Network s) (ls_Protocol s) (ls_StateId s)
      in if \<not> lending_json_ok s then (Inl LendingMarshalFailed, db)
         else if commits key (Some (LendingValue s)) then (Inr (), AList.update key (LendingValue s) db)
         else (Inl LendingCommitFailed, db))"

definition unmarshal_lending :: "lending_stored \<Rightarrow> LendingState option" where
  "unmarshal_lending v = (case v of LendingValue s \<Rightarrow> Some s | BadLendingValue \<Rightarrow> None)"

definition LoadLendingState :: "string \<Rightarrow> string \<Rightarrow> string \<Rightarrow> lending_store \<Rightarrow> lending_storage_error + LendingState" where
  "LoadLendingState network protocol stateId db = (case map_of db (lendingStateKey network protocol stateId) of
     None \<Rightarrow> Inl LendingKeyNotFound
   | Some v \<Rightarrow> (case unmarshal_lending v of None \<Rightarrow> Inl LendingUnmarshalFailed | Some s \<Rightarrow> Inr s))"

definition LoadAllLendingStates :: "lending_store \<Rightarrow> LendingState list" where
  "LoadAllLendingStates db = List.map_filter (\<lambda>(k, v). unmarshal_lending v) (iterate lendingStateKeyPrefix db)"

definition DeleteLendingState ::
  "lending_commits \<Rightarrow> string \<Rightarrow> string \<Rightarrow> string \<Rightarrow> lending_store \<Rightarrow> (lending_storage_error + unit) \<times> lending_store" where
  "DeleteLendingState commits network protocol stateId db =
     (let key = lendingStateKey network protocol stateId
      in if commits key None then (Inr (), AList.delete key db) else (Inl LendingCommitFailed, db))"

definition LoadLendingStatesByProtocol :: "string \<Rightarrow> string \<Rightarrow> lending_store \<Rightarrow> LendingState list" where
  "LoadLendingStatesByProtocol network protocol db =
     (let prefix = lendingStateKeyPrefix @ network @ '':'' @ protocol @ '':''
      in List.map_filter (\<lambda>(k, v). unmarshal_lending v) (iterate prefix db))"

definition LoadLendingStatesByType :: "LendingStateType \<Rightarrow> lending_store \<Rightarrow> LendingState list" where
  "LoadLendingStatesByType stateType db = List.map_filter
     (\<lambda>(k, v). case unmarshal_lending v of
        None \<Rightarrow> None
      | Some s \<Rightarrow> if ls_StateType s = stateType then Some s else None)
     (iterate lendingStateKeyPrefix db)"

section \<open>The parser interface\<close>

text \<open>
  \<open>LendingParser\<close> as the lending oracle relies on it: a parsed state carries the coordinates it was
  given and the parser's protocol, no network, and values that JSON can write.
\<close>

locale lending_source =
  fixes lp :: "'e lending_parser"
  assumes source_coordinates:
    "lp_ParseDatum lp d h i s t = Inr (Some st) \<Longrightarrow> ls_TxHash st = h \<and> ls_TxIndex st = i \<and> ls_Slot st = s \<and> ls_Timestamp st = t"
  and source_protocol: "lp_ParseDatum lp d h i s t = Inr (Some st) \<Longrightarrow> ls_Protocol st = lp_Protocol lp \<and> ls_Network st = []"
  and source_floats: "lp_ParseDatum lp d h i s t = Inr (Some st) \<Longrightarrow>
    f64_isfinite (ls_UtilizationRate st) \<and> f64_isfinite (ls_InterestRatePct st) \<and> f64_isfinite (ls_OraclePriceValue st)"
  and source_times: "lp_ParseDatum lp d h i s t = Inr (Some st) \<Longrightarrow> ls_StartTime st = 0 \<and> ls_DueDate st = 0"

definition liqwid_state :: "cbor_lib \<Rightarrow> bytes \<Rightarrow> string \<Rightarrow> u32 \<Rightarrow> u64 \<Rightarrow> time \<Rightarrow> LendingState \<Rightarrow> bool" where
  "liqwid_state cb d h i s t st =
     ((\<exists>m. ParseMarketDatum cb d h i s t = Inr m \<and> st = marketToLendingState m)
      \<or> (\<exists>p. ParseSupplyPositionDatum cb d h i s t = Inr p \<and> st = supplyToLendingState p)
      \<or> (\<exists>p. ParseBorrowPositionDatum cb d h i s t = Inr p \<and> st = borrowToLendingState p)
      \<or> (\<exists>p. liqwid_ParseOracleDatum cb d h s t = Inr p \<and> st = oracleToLendingState p i))"

lemmas liqwid_parse_defs = ParseMarketDatum_def ParseSupplyPositionDatum_def ParseBorrowPositionDatum_def
  liqwid_ParseOracleDatum_def

text \<open>The fields of the four literals that the lemmas below read.\<close>

lemma market_literal [simp]:
  "ls_StateId (marketToLendingState x) = ms_MarketId x"
  "ls_StateType (marketToLendingState x) = LendingStateTypeMarket"
  "ls_Protocol (marketToLendingState x) = ms_Protocol x"
  "ls_Network (marketToLendingState x) = []"
  "ls_UtilizationRate (marketToLendingState x) = ms_UtilizationRate x"
  "ls_InterestRatePct (marketToLendingState x) = basisPointsFloat (ms_InterestRate x)"
  "ls_OraclePriceValue (marketToLendingState x) = Fin 0"
  "ls_UnderlyingAsset (marketToLendingState x) = Class (ms_UnderlyingAsset x)"
  "ls_ValidFrom (marketToLendingState x) = 0"
  "ls_ValidTo (marketToLendingState x) = 0"
  "ls_StartTime (marketToLendingState x) = 0"
  "ls_DueDate (marketToLendingState x) = 0"
  "ls_Slot (marketToLendingState x) = ms_Slot x"
  "ls_TxHash (marketToLendingState x) = ms_TxHash x"
  "ls_TxIndex (marketToLendingState x) = ms_TxIndex x"
  "ls_Timestamp (marketToLendingState x) = ms_Timestamp x"
  by (simp_all add: marketToLendingState_def zero_LendingState_def)

lemma supply_literal [simp]:
  "ls_StateId (supplyToLendingState x) = ss_PositionId x"
  "ls_StateType (supplyToLendingState x) = LendingStateTypePosition"
  "ls_Protocol (supplyToLendingState x) = liqwid_ProtocolName"
  "ls_Network (supplyToLendingState x) = []"
  "ls_UtilizationRate (supplyToLendingState x) = Fin 0"
  "ls_InterestRatePct (supplyToLendingState x) = Fin 0"
  "ls_OraclePriceValue (supplyToLendingState x) = Fin 0"
  "ls_UnderlyingAsset (supplyToLendingState x) = Lovelace"
  "ls_ValidFrom (supplyToLendingState x) = 0"
  "ls_ValidTo (supplyToLendingState x) = 0"
  "ls_StartTime (supplyToLendingState x) = 0"
  "ls_DueDate (supplyToLendingState x) = 0"
  "ls_Slot (supplyToLendingState x) = ss_Slot x"
  "ls_TxHash (supplyToLendingState x) = ss_TxHash x"
  "ls_TxIndex (supplyToLendingState x) = ss_TxIndex x"
  "ls_Timestamp (supplyToLendingState x) = ss_Timestamp x"
  by (simp_all add: supplyToLendingState_def zero_LendingState_def)

lemma borrow_literal [simp]:
  "ls_StateId (borrowToLendingState x) = bs_PositionId x"
  "ls_StateType (borrowToLendingState x) = LendingStateTypePosition"
  "ls_Protocol (borrowToLendingState x) = liqwid_ProtocolName"
  "ls_Network (borrowToLendingState x) = []"
  "ls_UtilizationRate (borrowToLendingState x) = Fin 0"
  "ls_InterestRatePct (borrowToLendingState x) = Fin 0"
  "ls_OraclePriceValue (borrowToLendingState x) = Fin 0"
  "ls_UnderlyingAsset (borrowToLendingState x) = Lovelace"
  "ls_ValidFrom (borrowToLendingState x) = 0"
  "ls_ValidTo (borrowToLendingState x) = 0"
  "ls_StartTime (borrowToLendingState x) = 0"
  "ls_DueDate (borrowToLendingState x) = 0"
  "ls_Slot (borrowToLendingState x) = bs_Slot x"
  "ls_TxHash (borrowToLendingState x) = bs_TxHash x"
  "ls_TxIndex (borrowToLendingState x) = bs_TxIndex x"
  "ls_Timestamp (borrowToLendingState x) = bs_Timestamp x"
  by (simp_all add: borrowToLendingState_def zero_LendingState_def)

lemma oracle_literal [simp]:
  "ls_StateId (oracleToLendingState x i) = OracleState_Key x"
  "ls_StateType (oracleToLendingState x i) = LendingStateTypeOracle"
  "ls_Protocol (oracleToLendingState x i) = liqwid_ProtocolName"
  "ls_Network (oracleToLendingState x i) = []"
  "ls_UtilizationRate (oracleToLendingState x i) = Fin 0"
  "ls_InterestRatePct (oracleToLendingState x i) = Fin 0"
  "ls_OraclePriceValue (oracleToLendingState x i) = liqwid_PriceFloat (os_Price x) (os_Denominator x)"
  "ls_UnderlyingAsset (oracleToLendingState x i) = os_Asset x"
  "ls_ValidFrom (oracleToLendingState x i) = os_ValidFrom x"
  "ls_ValidTo (oracleToLendingState x i) = os_ValidTo x"
  "ls_StartTime (oracleToLendingState x i) = 0"
  "ls_DueDate (oracleToLendingState x i) = 0"
  "ls_Slot (oracleToLendingState x i) = os_Slot x"
  "ls_TxHash (oracleToLendingState x i) = os_TxHash x"
  "ls_TxIndex (oracleToLendingState x i) = i"
  "ls_Timestamp (oracleToLendingState x i) = os_Timestamp x"
  by (simp_all add: oracleToLendingState_def zero_LendingState_def)

text \<open>What the four parsers put into the fields.\<close>

lemma market_parsed: "ParseMarketDatum cb d h i s t = Inr m \<Longrightarrow> ms_TxHash m = h \<and> ms_TxIndex m = i \<and> ms_Slot m = s \<and> ms_Timestamp m = t
    \<and> ms_Protocol m = liqwid_ProtocolName
    \<and> (\<exists>x. decode_liqwid_MarketDatum cb d = Some x \<and> ms_UtilizationRate m = UtilizationRate x
          \<and> ms_MarketId m = GenerateMarketId (PolicyId (md_MarketNft x)) (Name (md_MarketNft x)))"
  by (auto simp: ParseMarketDatum_def Let_def split: option.splits)

lemma supply_parsed: "ParseSupplyPositionDatum cb d h i s t = Inr p \<Longrightarrow> ss_TxHash p = h \<and> ss_TxIndex p = i \<and> ss_Slot p = s
    \<and> ss_Timestamp p = t \<and> ss_PositionId p = GeneratePositionId h i"
  by (auto simp: ParseSupplyPositionDatum_def split: option.splits)

lemma borrow_parsed: "ParseBorrowPositionDatum cb d h i s t = Inr p \<Longrightarrow> bs_TxHash p = h \<and> bs_TxIndex p = i \<and> bs_Slot p = s
    \<and> bs_Timestamp p = t \<and> bs_PositionId p = GeneratePositionId h i"
  by (auto simp: ParseBorrowPositionDatum_def split: option.splits)

lemma oracle_parsed: "liqwid_ParseOracleDatum cb d h s t = Inr p \<Longrightarrow> os_TxHash p = h \<and> os_Slot p = s \<and> os_Timestamp p = t"
  by (auto simp: liqwid_ParseOracleDatum_def split: option.splits)

lemma market_refused: "ParseMarketDatum cb d h i s t = Inl e \<longleftrightarrow> e = MarketDecodeError \<and> decode_liqwid_MarketDatum cb d = None"
  by (cases "decode_liqwid_MarketDatum cb d") (auto simp: ParseMarketDatum_def Let_def)

lemma supply_refused: "ParseSupplyPositionDatum cb d h i s t = Inl e \<longleftrightarrow> e = SupplyDecodeError \<and> decode_SupplyPositionDatum cb d = None"
  by (cases "decode_SupplyPositionDatum cb d") (auto simp: ParseSupplyPositionDatum_def)

lemma borrow_refused: "ParseBorrowPositionDatum cb d h i s t = Inl e \<longleftrightarrow> e = BorrowDecodeError \<and> decode_BorrowPositionDatum cb d = None"
  by (cases "decode_BorrowPositionDatum cb d") (auto simp: ParseBorrowPositionDatum_def)

lemma oracle_refused: "liqwid_ParseOracleDatum cb d h s t = Inl e \<longleftrightarrow> e = OracleDecodeError \<and> decode_liqwid_OracleDatum cb d = None"
  by (cases "decode_liqwid_OracleDatum cb d") (auto simp: liqwid_ParseOracleDatum_def)

lemmas liqwid_refused = market_refused supply_refused borrow_refused oracle_refused

lemma parse_Inr_decodes:
  "ParseMarketDatum cb d h i s t = Inr m \<Longrightarrow> \<exists>x. decode_liqwid_MarketDatum cb d = Some x"
  "ParseSupplyPositionDatum cb d h i s t = Inr p \<Longrightarrow> \<exists>x. decode_SupplyPositionDatum cb d = Some x"
  "ParseBorrowPositionDatum cb d h i s t = Inr q \<Longrightarrow> \<exists>x. decode_BorrowPositionDatum cb d = Some x"
  "liqwid_ParseOracleDatum cb d h s t = Inr r \<Longrightarrow> \<exists>x. decode_liqwid_OracleDatum cb d = Some x"
  by (rule ccontr, simp add: liqwid_parse_defs)+

lemma liqwid_ParseDatum_Inr: "liqwid_ParseDatum cb d h i s t = Inr r \<Longrightarrow> \<exists>st. r = Some st \<and> liqwid_state cb d h i s t st"
  unfolding liqwid_ParseDatum_def liqwid_state_def by (simp split: sum.splits) metis+

lemma liqwid_ParseDatum_Inl:
  "liqwid_ParseDatum cb d h i s t = Inl e \<longleftrightarrow>
     e = MarketDecodeError \<and> decode_liqwid_MarketDatum cb d = None \<and> decode_SupplyPositionDatum cb d = None
     \<and> decode_BorrowPositionDatum cb d = None \<and> decode_liqwid_OracleDatum cb d = None"
  by (cases "decode_liqwid_MarketDatum cb d"; cases "decode_SupplyPositionDatum cb d"; cases "decode_BorrowPositionDatum cb d";
      cases "decode_liqwid_OracleDatum cb d") (simp_all add: liqwid_ParseDatum_def liqwid_parse_defs Let_def eq_commute [of MarketDecodeError])

lemma liqwid_ParseDatum_state:
  assumes "liqwid_state cb d h i s t st"
  shows "liqwid_ParseDatum cb d h i s t = Inr (Some st)"
proof -
  note none = liqwid_refused [THEN iffD2, OF conjI, OF refl]
  consider (market) m where "ParseMarketDatum cb d h i s t = Inr m" "st = marketToLendingState m"
    | (deposit) p where "ParseSupplyPositionDatum cb d h i s t = Inr p" "st = supplyToLendingState p"
    | (borrow) p where "ParseBorrowPositionDatum cb d h i s t = Inr p" "st = borrowToLendingState p"
    | (feed) p where "liqwid_ParseOracleDatum cb d h s t = Inr p" "st = oracleToLendingState p i"
    using assms unfolding liqwid_state_def by blast
  then show ?thesis
  proof cases
    case market
    then show ?thesis by (simp add: liqwid_ParseDatum_def)
  next
    case deposit
    then obtain x where "decode_SupplyPositionDatum cb d = Some x" using parse_Inr_decodes(2) by blast
    note liqwid_kinds_disjoint(2) [OF this]
    then show ?thesis using deposit by (simp add: liqwid_ParseDatum_def none)
  next
    case borrow
    then obtain x where "decode_BorrowPositionDatum cb d = Some x" using parse_Inr_decodes(3) by blast
    note liqwid_kinds_disjoint(3) [OF this]
    then show ?thesis using borrow by (simp add: liqwid_ParseDatum_def none)
  next
    case feed
    then obtain x where "decode_liqwid_OracleDatum cb d = Some x" using parse_Inr_decodes(4) by blast
    note liqwid_kinds_disjoint(4) [OF this]
    then show ?thesis using feed by (simp add: liqwid_ParseDatum_def none)
  qed
qed

lemma liqwid_ParseDatum_iff: "liqwid_ParseDatum cb d h i s t = Inr (Some st) \<longleftrightarrow> liqwid_state cb d h i s t st"
  using liqwid_ParseDatum_Inr [of cb d h i s t "Some st"] liqwid_ParseDatum_state [of cb d h i s t st] by auto

lemma basisPoints_finite: "f64_isfinite (basisPointsFloat v)"
  unfolding basisPointsFloat_def by (rule u64_ratio_finite) (simp add: BasisPointsDenom_def)

lemma zero_finite: "f64_isfinite (Fin 0)"
  by (simp add: f64_isfinite_def)

lemma PriceFloat_finite: "f64_isfinite (liqwid_PriceFloat p d)"
  by (simp add: liqwid_PriceFloat_def u64_ratio_finite zero_finite)

lemma Utilization_finite: "f64_isfinite (UtilizationRate m)"
  by (simp add: UtilizationRate_def u64_ratio_finite zero_finite)

lemma liqwid_state_facts:
  assumes "liqwid_state cb d h i s t st"
  shows "ls_TxHash st = h \<and> ls_TxIndex st = i \<and> ls_Slot st = s \<and> ls_Timestamp st = t"
    and "ls_Protocol st = liqwid_ProtocolName \<and> ls_Network st = []"
    and "f64_isfinite (ls_UtilizationRate st) \<and> f64_isfinite (ls_InterestRatePct st) \<and> f64_isfinite (ls_OraclePriceValue st)"
    and "ls_StartTime st = 0 \<and> ls_DueDate st = 0"
  using assms unfolding liqwid_state_def
  by (auto simp: zero_finite Utilization_finite basisPoints_finite PriceFloat_finite
      dest: market_parsed supply_parsed borrow_parsed oracle_parsed)

interpretation liqwid: lending_source "NewLiqwidLendingAdapter cb"
  by unfold_locales (simp_all add: NewLiqwidLendingAdapter_def liqwid_ParseDatum_iff liqwid_state_facts)

definition feed_id :: "AssetClass \<Rightarrow> string" where
  "feed_id c = ''liqwid:oracle:'' @ class_text c"

text \<open>What the identifier of a state says of the datum it came from.\<close>

lemma liqwid_state_kind:
  assumes "liqwid_state cb d h i s t st"
  shows "(\<exists>m. decode_liqwid_MarketDatum cb d = Some m \<and> ls_StateType st = LendingStateTypeMarket
            \<and> ls_StateId st = GenerateMarketId (PolicyId (md_MarketNft m)) (Name (md_MarketNft m)))
       \<or> (ls_StateType st = LendingStateTypePosition \<and> ls_StateId st = GeneratePositionId h i)
       \<or> (ls_StateType st = LendingStateTypeOracle \<and> ls_StateId st = feed_id (ls_UnderlyingAsset st))"
  using assms unfolding liqwid_state_def
  by (auto simp: OracleState_Key_text feed_id_def dest: market_parsed supply_parsed borrow_parsed)

lemma oracle_id_not_others:
  "feed_id c \<noteq> GenerateMarketId p n" "feed_id c \<noteq> GeneratePositionId h i"
  by (simp_all add: feed_id_def GenerateMarketId_def GeneratePositionId_def)

lemma feed_id_inject: "feed_id a = feed_id b \<longleftrightarrow> a = b"
  by (simp add: feed_id_def)

lemma market_id_inject:
  "GenerateMarketId (PolicyId a) (Name a) = GenerateMarketId (PolicyId b) (Name b) \<longleftrightarrow> a = (b :: AssetClass)"
  by (simp add: GenerateMarketId_text)

lemmas state_id_rules = feed_id_inject market_id_inject position_id_inject market_id_not_position oracle_id_not_others
  market_id_not_position [THEN not_sym] oracle_id_not_others [THEN not_sym]

section \<open>Keys\<close>

lemma lendingStateKey_text: "lendingStateKey (ls_Network s) (ls_Protocol s) (ls_StateId s) = lendingStateKeyPrefix @ LendingState_Key s"
  by (simp add: lendingStateKey_def LendingState_Key_def)

lemma ParseLendingStateKey_round_trip:
  assumes "CHR '':'' \<notin> set n" and "CHR '':'' \<notin> set p"
  shows "ParseLendingStateKey (lendingStateKey n p i) = Some (n, p, i)"
  using assms cut_append [of "CHR '':''" n "p @ CHR '':'' # i"] cut_append [of "CHR '':''" p i]
  by (simp add: ParseLendingStateKey_def lendingStateKey_def trim_prefix_def)

text \<open>However a Liqwid datum is tried, it is read as at most one kind of state; the adapter returns
  that state, and the error of the market decoder exactly when no kind fits.\<close>

lemma liqwid_datum_has_one_kind:
  "(liqwid_ParseDatum cb d h i s t = Inr (Some st) \<longleftrightarrow>
      (\<exists>m. ParseMarketDatum cb d h i s t = Inr m \<and> st = marketToLendingState m)
      \<or> (\<exists>p. ParseSupplyPositionDatum cb d h i s t = Inr p \<and> st = supplyToLendingState p)
      \<or> (\<exists>p. ParseBorrowPositionDatum cb d h i s t = Inr p \<and> st = borrowToLendingState p)
      \<or> (\<exists>p. liqwid_ParseOracleDatum cb d h s t = Inr p \<and> st = oracleToLendingState p i))
   \<and> (liqwid_ParseDatum cb d h i s t = Inl e \<longleftrightarrow>
      e = MarketDecodeError \<and> decode_liqwid_MarketDatum cb d = None \<and> decode_SupplyPositionDatum cb d = None
      \<and> decode_BorrowPositionDatum cb d = None \<and> decode_liqwid_OracleDatum cb d = None)"
  by (simp add: liqwid_ParseDatum_iff liqwid_state_def liqwid_ParseDatum_Inl)

text \<open>Two Liqwid states with the same key are of the same kind and about the same thing: the market
  of one token, the position of one output, or the price feed of one asset.\<close>

lemma lending_keys_identify:
  assumes "liqwid_ParseDatum cb d h i s t = Inr (Some a)" and "liqwid_ParseDatum cb d' h' i' s' t' = Inr (Some b)"
    and "LendingState_Key (a\<lparr>ls_Network := n\<rparr>) = LendingState_Key (b\<lparr>ls_Network := n\<rparr>)"
  shows "ls_StateType a = ls_StateType b
    \<and> (ls_StateType a = LendingStateTypeMarket \<longrightarrow>
        map_option md_MarketNft (decode_liqwid_MarketDatum cb d) = map_option md_MarketNft (decode_liqwid_MarketDatum cb d'))
    \<and> (ls_StateType a = LendingStateTypePosition \<longrightarrow> h = h' \<and> i = i')
    \<and> (ls_StateType a = LendingStateTypeOracle \<longrightarrow> ls_UnderlyingAsset a = ls_UnderlyingAsset b)"
proof -
  have st: "liqwid_state cb d h i s t a" "liqwid_state cb d' h' i' s' t' b"
    using assms(1,2) by (simp_all add: liqwid_ParseDatum_iff)
  have id: "ls_StateId a = ls_StateId b"
    using assms(3) liqwid_state_facts(2) [OF st(1)] liqwid_state_facts(2) [OF st(2)] by (simp add: LendingState_Key_def)
  from liqwid_state_kind [OF st(1)] liqwid_state_kind [OF st(2)] show ?thesis
    by (elim disjE exE conjE; use id in \<open>simp add: state_id_rules\<close>)
qed

section \<open>A market datum\<close>

definition market_fields :: "bytes list" where
  "market_fields = map (splash_AssetClass_MarshalCBOR unary_enc)
       [\<lparr>PolicyId = [7], Name = [1]\<rparr>, Lovelace, \<lparr>PolicyId = [8], Name = [2]\<rparr>]
     @ map (enc_uint unary_enc) [1000, 400, 100, 500, 7500]"

definition market_datum :: bytes where
  "market_datum = enc_constr unary_enc 0 market_fields"

lemma liqwid_asset_codec: "decode_liqwid_Asset unary_lib (splash_AssetClass_MarshalCBOR unary_enc a) = Some a"
  using splash_AssetClass_codec [OF unary_codec_ok, of a]
  by (simp add: decode_liqwid_Asset_def decode_splash_AssetClass_def)

lemma market_datum_decodes:
  "decode_liqwid_MarketDatum unary_lib market_datum = Some
     \<lparr>md_MarketNft = \<lparr>PolicyId = [7], Name = [1]\<rparr>, md_UnderlyingAsset = Lovelace,
      md_QTokenAsset = \<lparr>PolicyId = [8], Name = [2]\<rparr>, md_TotalSupply = 1000, md_TotalBorrows = 400,
      md_ReserveAmount = 100, md_InterestRate = 500, md_CollateralFactor = 7500\<rparr>"
proof -
  obtain raw where "dec_constr unary_lib market_datum = Some (0, raw)" "dec_struct unary_lib 8 raw = Some market_fields"
    using codec_constr [OF unary_codec_ok, of 0 market_fields]
    by (auto simp: market_datum_def market_fields_def eval_nat_numeral)
  moreover have "dec_uint unary_lib (enc_uint unary_enc u) = Some u" for u
    using unary_codec_ok by (simp add: codec_ok_def)
  ultimately show ?thesis
    by (simp add: decode_liqwid_MarketDatum_def market_fields_def liqwid_asset_codec)
qed

lemma market_datum_parsed: "\<exists>m. ParseMarketDatum unary_lib market_datum h i s t = Inr m"
  by (simp add: ParseMarketDatum_def market_datum_decodes Let_def)

lemma market_datum_state:
  "\<exists>st. liqwid_ParseDatum unary_lib market_datum h i s t = Inr (Some st) \<and> ls_Protocol st = liqwid_ProtocolName
     \<and> ls_StateType st = LendingStateTypeMarket \<and> ls_StateId st = GenerateMarketId [7] [1]"
proof -
  obtain m where m: "ParseMarketDatum unary_lib market_datum h i s t = Inr m" using market_datum_parsed by blast
  then show ?thesis
    using market_parsed [OF m] by (auto simp: liqwid_ParseDatum_def market_datum_decodes)
qed

end
