(* ===== verification/Lending.thy ===== *)
theory Lending
  imports Lending_State
begin

text \<open>
  The lending oracle (\<open>internal/oracle/lending_oracle.go\<close>): it follows the chain for one lending
  protocol, keeps the latest state under every key in memory and in its store, forgets the states a
  rollback invalidates and pushes updates to its subscribers.

  A channel is its buffer of at most 100 updates and whether it is still open; sending to a closed
  channel and closing one twice are Go's panics, \<open>None\<close>. Receiving takes the first update. The
  locks make every operation atomic, the indexer delivers events one at a time, and the clock is
  read once per event. The HTTP handlers are in
  \<open>Api_Streams\<close>.
\<close>

section \<open>State and environment\<close>

record 'e lending_env =
  le_parser :: "'e lending_parser"
  le_network :: string
  le_commits :: lending_commits

record lending_chan =
  lc_buf :: "LendingUpdate list"
  lc_open :: bool

record LendingOracle =
  lo_states :: "(string, LendingState) gomap"
  lo_addresses :: "string list"
  lo_storage :: "lending_store option"
  lo_subscribers :: "nat list"
  lo_chans :: "(nat, lending_chan) gomap"
  lo_nextChan :: nat
  lo_stopped :: bool

datatype lending_error = LendingStorageRequired | LendingRollbackFailed nat

text \<open>\<open>NewLendingOracle\<close>, with the market and oracle addresses of a \<open>LendingProfileConfig\<close>.\<close>

definition NewLendingOracle ::
  "'e lending_parser \<Rightarrow> (string list \<times> string list) option \<Rightarrow> lending_store option \<Rightarrow> LendingOracle" where
  "NewLendingOracle parser cfg storage =
     \<lparr>lo_states = [],
      lo_addresses = lp_GetAddresses parser @ (case cfg of None \<Rightarrow> [] | Some (markets, oracles) \<Rightarrow> markets @ oracles),
      lo_storage = storage, lo_subscribers = [], lo_chans = [], lo_nextChan = 0, lo_stopped = False\<rparr>"

section \<open>Channels and subscribers\<close>

definition lending_bufferSize :: nat where
  "lending_bufferSize = 100"

text \<open>\<open>select\<close> with a send and a default: a full channel is skipped.\<close>

definition try_send :: "LendingUpdate \<Rightarrow> nat \<Rightarrow> (nat, lending_chan) gomap \<Rightarrow> (nat, lending_chan) gomap option" where
  "try_send u ch chans = (case map_of chans ch of
     None \<Rightarrow> None
   | Some c \<Rightarrow>
       if \<not> lc_open c then None
       else if length (lc_buf c) < lending_bufferSize
         then Some (AList.update ch (c\<lparr>lc_buf := lc_buf c @ [u]\<rparr>) chans)
         else Some chans)"

definition close_chan :: "nat \<Rightarrow> (nat, lending_chan) gomap \<Rightarrow> (nat, lending_chan) gomap option" where
  "close_chan ch chans = (case map_of chans ch of
     None \<Rightarrow> None
   | Some c \<Rightarrow> if \<not> lc_open c then None else Some (AList.update ch (c\<lparr>lc_open := False\<rparr>) chans))"

fun send_all :: "LendingUpdate \<Rightarrow> nat list \<Rightarrow> (nat, lending_chan) gomap \<Rightarrow> (nat, lending_chan) gomap option" where
  "send_all u [] chans = Some chans"
| "send_all u (ch # chs) chans = do { chans' \<leftarrow> try_send u ch chans; send_all u chs chans' }"

fun close_all :: "nat list \<Rightarrow> (nat, lending_chan) gomap \<Rightarrow> (nat, lending_chan) gomap option" where
  "close_all [] chans = Some chans"
| "close_all (ch # chs) chans = do { chans' \<leftarrow> close_chan ch chans; close_all chs chans' }"

definition lending_notifySubscribers :: "LendingUpdate \<Rightarrow> LendingOracle \<Rightarrow> LendingOracle option" where
  "lending_notifySubscribers u o1 =
     do { chans \<leftarrow> send_all u (lo_subscribers o1) (lo_chans o1); Some (o1\<lparr>lo_chans := chans\<rparr>) }"

definition lending_Subscribe :: "LendingOracle \<Rightarrow> nat \<times> LendingOracle" where
  "lending_Subscribe o1 =
     (let ch = lo_nextChan o1
      in (ch, o1\<lparr>lo_chans := AList.update ch \<lparr>lc_buf = [], lc_open = True\<rparr> (lo_chans o1), lo_nextChan := ch + 1,
                lo_subscribers := lo_subscribers o1 @ [ch]\<rparr>))"

definition lending_Unsubscribe :: "nat \<Rightarrow> LendingOracle \<Rightarrow> LendingOracle option" where
  "lending_Unsubscribe ch o1 =
     (if ch \<in> set (lo_subscribers o1) then do {
        chans \<leftarrow> close_chan ch (lo_chans o1);
        Some (o1\<lparr>lo_subscribers := remove_first ((=) ch) (lo_subscribers o1), lo_chans := chans\<rparr>) }
      else Some o1)"

definition lending_Stop :: "LendingOracle \<Rightarrow> LendingOracle option" where
  "lending_Stop o1 =
     (if lo_stopped o1 then Some o1
      else do {
        chans \<leftarrow> close_all (lo_subscribers o1) (lo_chans o1);
        Some (o1\<lparr>lo_stopped := True, lo_chans := chans, lo_subscribers := []\<rparr>) })"

section \<open>Events\<close>

definition isLendingAddress :: "string \<Rightarrow> LendingOracle \<Rightarrow> bool" where
  "isLendingAddress addr o1 = (addr \<in> set (lo_addresses o1))"

text \<open>The part of the loop body that follows a parsed state: a failed save is only logged.\<close>

definition record_lending_state :: "'e lending_env \<Rightarrow> LendingState \<Rightarrow> LendingOracle \<Rightarrow> LendingOracle option" where
  "record_lending_state env s o1 =
     lending_notifySubscribers (NewLendingUpdate s)
       (o1\<lparr>lo_states := AList.update (LendingState_Key s) s (lo_states o1),
           lo_storage := map_option (\<lambda>db. snd (SaveLendingState (le_commits env) s db)) (lo_storage o1)\<rparr>)"

definition handle_lending_utxo ::
  "'e lending_env \<Rightarrow> time \<Rightarrow> transaction_context \<Rightarrow> ledger_utxo \<Rightarrow> LendingOracle \<Rightarrow> LendingOracle option" where
  "handle_lending_utxo env now ctx utxo o1 =
     (if \<not> isLendingAddress (out_Address (utxo_Output utxo)) o1 then Some o1
      else case out_Datum (utxo_Output utxo) of
        None \<Rightarrow> Some o1
      | Some datum \<Rightarrow>
          (case lp_ParseDatum (le_parser env) datum (ctx_TransactionHash ctx) (in_Index (utxo_Id utxo)) (ctx_SlotNumber ctx) now of
             Inl _ \<Rightarrow> Some o1
           | Inr None \<Rightarrow> Some o1
           | Inr (Some s) \<Rightarrow> record_lending_state env (s\<lparr>ls_Network := le_network env, ls_UpdatedAt := now\<rparr>) o1))"

fun handle_lending_utxos ::
  "'e lending_env \<Rightarrow> time \<Rightarrow> transaction_context \<Rightarrow> ledger_utxo list \<Rightarrow> LendingOracle \<Rightarrow> LendingOracle option" where
  "handle_lending_utxos env now ctx [] o1 = Some o1"
| "handle_lending_utxos env now ctx (utxo # utxos) o1 =
     do { o2 \<leftarrow> handle_lending_utxo env now ctx utxo o1; handle_lending_utxos env now ctx utxos o2 }"

definition lending_handleTransaction ::
  "'e lending_env \<Rightarrow> time \<Rightarrow> transaction_context option \<Rightarrow> transaction_event \<Rightarrow> LendingOracle \<Rightarrow> LendingOracle option" where
  "lending_handleTransaction env now context evt o1 = (case context of
     None \<Rightarrow> Some o1
   | Some ctx \<Rightarrow> handle_lending_utxos env now ctx (producedUTXOs evt (ctx_TransactionHash ctx)) o1)"

text \<open>The second loop of \<open>handleRollback\<close>: how many deletions failed, and the store.\<close>

fun delete_lending_states :: "lending_commits \<Rightarrow> LendingState list \<Rightarrow> lending_store \<Rightarrow> nat \<times> lending_store" where
  "delete_lending_states commits [] db = (0, db)"
| "delete_lending_states commits (s # ss) db =
     (let (r, db1) = DeleteLendingState commits (ls_Network s) (ls_Protocol s) (ls_StateId s) db;
          (n, db2) = delete_lending_states commits ss db1
      in (case r of Inl _ \<Rightarrow> n + 1 | Inr _ \<Rightarrow> n, db2))"

definition lending_handleRollback :: "'e lending_env \<Rightarrow> u64 \<Rightarrow> LendingOracle \<Rightarrow> lending_error option \<times> LendingOracle" where
  "lending_handleRollback env slotNumber o1 =
     (let firstInvalidSlot = firstRolledBackSlot slotNumber;
          toDelete = filter (\<lambda>(k, s). ls_Slot s \<ge> firstInvalidSlot) (lo_states o1);
          o2 = o1\<lparr>lo_states := fold (\<lambda>(k, s) m. AList.delete k m) toDelete (lo_states o1)\<rparr>
      in case lo_storage o1 of
           None \<Rightarrow> (None, o2)
         | Some db \<Rightarrow>
             (let (errs, db') = delete_lending_states (le_commits env) (map snd toDelete) db
              in (if errs > 0 then Some (LendingRollbackFailed errs) else None, o2\<lparr>lo_storage := Some db'\<rparr>)))"

definition lending_HandleChainsyncEvent ::
  "'e lending_env \<Rightarrow> time \<Rightarrow> chain_event \<Rightarrow> LendingOracle \<Rightarrow> (lending_error option \<times> LendingOracle) option" where
  "lending_HandleChainsyncEvent env now evt o1 =
     (if lo_stopped o1 then Some (None, o1)
      else case evt of
        TransactionEvt context payload \<Rightarrow> map_option (Pair None) (lending_handleTransaction env now context payload o1)
      | RollbackEvt slotNumber \<Rightarrow> Some (lending_handleRollback env slotNumber o1)
      | OtherEvt \<Rightarrow> Some (None, o1))"

section \<open>Start and queries\<close>

definition lending_loadPersistedStates :: "'e lending_env \<Rightarrow> LendingOracle \<Rightarrow> LendingOracle" where
  "lending_loadPersistedStates env o1 = (case lo_storage o1 of
     None \<Rightarrow> o1
   | Some db \<Rightarrow>
       (let states = LoadLendingStatesByProtocol (le_network env) (lp_Protocol (le_parser env)) db
        in o1\<lparr>lo_states := fold (\<lambda>s m. AList.update (LendingState_Key s) s m) states (lo_states o1)\<rparr>))"

definition lending_Start :: "'e lending_env \<Rightarrow> LendingOracle \<Rightarrow> lending_error + LendingOracle" where
  "lending_Start env o1 =
     (if lo_storage o1 = None then Inl LendingStorageRequired else Inr (lending_loadPersistedStates env o1))"

text \<open>The loop of \<open>GetState\<close> over the states: the match so far, \<open>None\<close> inside when a second one is found.\<close>

fun match_state :: "string \<Rightarrow> LendingState option \<Rightarrow> LendingState list \<Rightarrow> LendingState option" where
  "match_state stateId matched [] = matched"
| "match_state stateId matched (s # ss) =
     (if ls_StateId s = stateId
      then (if matched \<noteq> None then None else match_state stateId (Some s) ss)
      else match_state stateId matched ss)"

definition GetState :: "string \<Rightarrow> LendingOracle \<Rightarrow> LendingState option" where
  "GetState stateId o1 = (case map_of (lo_states o1) stateId of
     Some s \<Rightarrow> Some s
   | None \<Rightarrow> match_state stateId None (map snd (lo_states o1)))"

definition GetAllStates :: "LendingOracle \<Rightarrow> LendingState list" where
  "GetAllStates o1 = map snd (lo_states o1)"

definition GetMarkets :: "LendingOracle \<Rightarrow> LendingState list" where
  "GetMarkets o1 = filter IsMarket (map snd (lo_states o1))"

definition GetLoans :: "LendingOracle \<Rightarrow> LendingState list" where
  "GetLoans o1 = filter IsLoan (map snd (lo_states o1))"

definition GetActiveLoans :: "LendingOracle \<Rightarrow> LendingState list" where
  "GetActiveLoans o1 = filter (\<lambda>s. IsLoan s \<and> ls_LoanStatus s = ''active'') (map snd (lo_states o1))"

definition GetOverdueLoans :: "LendingOracle \<Rightarrow> LendingState list" where
  "GetOverdueLoans o1 = filter (\<lambda>s. IsLoan s \<and> ls_IsOverdue s) (map snd (lo_states o1))"

definition StateCount :: "LendingOracle \<Rightarrow> nat" where
  "StateCount o1 = length (lo_states o1)"

definition GetUtilization :: "string \<Rightarrow> LendingOracle \<Rightarrow> f64 option" where
  "GetUtilization stateId o1 = (case map_of (lo_states o1) stateId of
     None \<Rightarrow> None
   | Some s \<Rightarrow> if IsMarket s then Some (ls_UtilizationRate s) else None)"

definition GetInterestRate :: "string \<Rightarrow> LendingOracle \<Rightarrow> f64 option" where
  "GetInterestRate stateId o1 = (case GetState stateId o1 of
     None \<Rightarrow> None
   | Some s \<Rightarrow> if IsMarket s then Some (ls_InterestRatePct s) else None)"

section \<open>Channels\<close>

definition is_open :: "(nat, lending_chan) gomap \<Rightarrow> nat \<Rightarrow> bool" where
  "is_open chans ch = (case map_of chans ch of None \<Rightarrow> False | Some c \<Rightarrow> lc_open c)"

definition buffers_ok :: "(nat, lending_chan) gomap \<Rightarrow> bool" where
  "buffers_ok chans = (gomap_ok chans \<and> list_all (\<lambda>(ch, c). length (lc_buf c) \<le> lending_bufferSize) chans)"

definition lending_ok :: "LendingOracle \<Rightarrow> bool" where
  "lending_ok o1 =
     (distinct (lo_subscribers o1) \<and> list_all (is_open (lo_chans o1)) (lo_subscribers o1) \<and> buffers_ok (lo_chans o1)
      \<and> dom (map_of (lo_chans o1)) \<subseteq> {..<lo_nextChan o1} \<and> gomap_ok (lo_states o1)
      \<and> list_all (\<lambda>(k, s). LendingState_Key s = k) (lo_states o1))"

text \<open>What a send keeps: the channels there are, which of them are open, and the bound of the buffers.\<close>

definition same_chans :: "(nat, lending_chan) gomap \<Rightarrow> (nat, lending_chan) gomap \<Rightarrow> bool" where
  "same_chans a b = (dom (map_of a) = dom (map_of b) \<and> (buffers_ok a \<longrightarrow> buffers_ok b))"

lemma buffers_ok_update: "buffers_ok chans \<Longrightarrow> length (lc_buf c) \<le> lending_bufferSize \<Longrightarrow> buffers_ok (AList.update ch c chans)"
  by (auto simp: buffers_ok_def list_all_iff dest: set_alist_update)

lemma buffers_ok_lookup: "buffers_ok chans \<Longrightarrow> map_of chans ch = Some c \<Longrightarrow> length (lc_buf c) \<le> lending_bufferSize"
  by (auto simp: buffers_ok_def list_all_iff dest: map_of_SomeD)

lemma dom_update_present: "map_of m k = Some v \<Longrightarrow> dom (map_of (AList.update k w m)) = dom (map_of m)"
  by (auto simp: update_conv')

lemma try_send_open:
  assumes "is_open chans ch"
  shows "\<exists>chans'. try_send u ch chans = Some chans' \<and> is_open chans' = is_open chans \<and> same_chans chans chans'"
proof -
  obtain c where c: "map_of chans ch = Some c" "lc_open c"
    using assms by (auto simp: is_open_def split: option.splits)
  show ?thesis
  proof (cases "length (lc_buf c) < lending_bufferSize")
    case True
    then show ?thesis
      using c by (auto simp: try_send_def is_open_def fun_eq_iff update_conv' same_chans_def dom_update_present
          intro!: buffers_ok_update split: option.split)
  qed (use c in \<open>simp add: try_send_def same_chans_def\<close>)
qed

lemma send_all_open:
  "list_all (is_open chans) chs \<Longrightarrow>
     \<exists>chans'. send_all u chs chans = Some chans' \<and> is_open chans' = is_open chans \<and> same_chans chans chans'"
proof (induction chs arbitrary: chans)
  case Nil
  then show ?case by (simp add: same_chans_def)
next
  case (Cons ch chs)
  obtain c1 where c1: "try_send u ch chans = Some c1" "is_open c1 = is_open chans" "same_chans chans c1"
    using try_send_open [of chans ch u] Cons.prems by auto
  with Cons.IH [of c1] Cons.prems show ?case by (auto simp: same_chans_def)
qed

lemma close_chan_open:
  assumes "is_open chans ch"
  shows "\<exists>chans'. close_chan ch chans = Some chans' \<and> is_open chans' = (is_open chans)(ch := False) \<and> same_chans chans chans'"
proof -
  obtain c where c: "map_of chans ch = Some c" "lc_open c"
    using assms by (auto simp: is_open_def split: option.splits)
  then show ?thesis
    by (auto simp: close_chan_def is_open_def fun_eq_iff update_conv' same_chans_def dom_update_present
        intro!: buffers_ok_update dest: buffers_ok_lookup split: option.split)
qed

lemma close_all_open:
  "list_all (is_open chans) chs \<Longrightarrow> distinct chs \<Longrightarrow>
     \<exists>chans'. close_all chs chans = Some chans' \<and> is_open chans' = (\<lambda>ch. is_open chans ch \<and> ch \<notin> set chs) \<and> same_chans chans chans'"
proof (induction chs arbitrary: chans)
  case Nil
  then show ?case by (simp add: same_chans_def)
next
  case (Cons ch chs)
  obtain c1 where c1: "close_chan ch chans = Some c1" "is_open c1 = (is_open chans)(ch := False)" "same_chans chans c1"
    using close_chan_open [of chans ch] Cons.prems by auto
  have "list_all (is_open c1) chs" using Cons.prems c1(2) by (auto simp: list_all_iff)
  from Cons.IH [OF this] Cons.prems obtain c2
    where c2: "close_all chs c1 = Some c2" "is_open c2 = (\<lambda>x. is_open c1 x \<and> x \<notin> set chs)" "same_chans c1 c2"
    by auto
  have "is_open c2 = (\<lambda>x. is_open chans x \<and> x \<notin> set (ch # chs))" using c1(2) c2(2) by (auto simp: fun_eq_iff)
  with c1 c2 show ?case by (auto simp: same_chans_def)
qed

section \<open>The invariant\<close>

lemma gomap_keyed_update:
  "list_all (\<lambda>(k, s). f s = k) m \<Longrightarrow> list_all (\<lambda>(k, s). f s = k) (AList.update (f x) x m)"
  by (auto simp: list_all_iff dest: set_alist_update)

lemma lending_notify_ok:
  assumes "lending_ok o1"
  shows "\<exists>chans. lending_notifySubscribers u o1 = Some (o1\<lparr>lo_chans := chans\<rparr>) \<and> lending_ok (o1\<lparr>lo_chans := chans\<rparr>)"
proof -
  have "list_all (is_open (lo_chans o1)) (lo_subscribers o1)" using assms by (simp add: lending_ok_def)
  from send_all_open [OF this, of u] obtain c
    where "send_all u (lo_subscribers o1) (lo_chans o1) = Some c" "is_open c = is_open (lo_chans o1)" "same_chans (lo_chans o1) c"
    by blast
  then show ?thesis using assms by (auto simp: lending_notifySubscribers_def lending_ok_def same_chans_def)
qed

lemma record_lending_state_ok:
  assumes "lending_ok o1"
  shows "\<exists>chans. record_lending_state env s o1 = Some
      (o1\<lparr>lo_states := AList.update (LendingState_Key s) s (lo_states o1),
          lo_storage := map_option (\<lambda>db. snd (SaveLendingState (le_commits env) s db)) (lo_storage o1), lo_chans := chans\<rparr>)
    \<and> lending_ok (o1\<lparr>lo_states := AList.update (LendingState_Key s) s (lo_states o1),
          lo_storage := map_option (\<lambda>db. snd (SaveLendingState (le_commits env) s db)) (lo_storage o1), lo_chans := chans\<rparr>)"
proof -
  have "lending_ok (o1\<lparr>lo_states := AList.update (LendingState_Key s) s (lo_states o1),
          lo_storage := map_option (\<lambda>db. snd (SaveLendingState (le_commits env) s db)) (lo_storage o1)\<rparr>)"
    using assms by (simp add: lending_ok_def gomap_keyed_update)
  from lending_notify_ok [OF this, of "NewLendingUpdate s"] show ?thesis
    unfolding record_lending_state_def by simp
qed

text \<open>What the handlers of one output and of a transaction can do: nothing, or record states.\<close>

lemma handle_lending_utxo_cases:
  "handle_lending_utxo env now ctx utxo o1 = Some o1
   \<or> (\<exists>datum s. lp_ParseDatum (le_parser env) datum (ctx_TransactionHash ctx) (in_Index (utxo_Id utxo)) (ctx_SlotNumber ctx) now = Inr (Some s)
      \<and> handle_lending_utxo env now ctx utxo o1 = record_lending_state env (s\<lparr>ls_Network := le_network env, ls_UpdatedAt := now\<rparr>) o1)"
proof (cases "out_Datum (utxo_Output utxo)")
  case None
  then show ?thesis by (simp add: handle_lending_utxo_def)
next
  case (Some datum)
  note datum = this
  show ?thesis
  proof (cases "lp_ParseDatum (le_parser env) datum (ctx_TransactionHash ctx) (in_Index (utxo_Id utxo)) (ctx_SlotNumber ctx) now")
    case (Inl e)
    then show ?thesis by (simp add: handle_lending_utxo_def datum)
  next
    case (Inr r)
    then show ?thesis by (cases r) (auto simp: handle_lending_utxo_def datum)
  qed
qed

lemma handle_lending_utxo_ok:
  assumes "lending_ok o1"
  shows "\<exists>o2. handle_lending_utxo env now ctx utxo o1 = Some o2 \<and> lending_ok o2"
  using handle_lending_utxo_cases [of env now ctx utxo o1] record_lending_state_ok [OF assms, of env] assms
  by metis

lemma handle_lending_utxos_ok:
  "lending_ok o1 \<Longrightarrow> \<exists>o2. handle_lending_utxos env now ctx utxos o1 = Some o2 \<and> lending_ok o2"
proof (induction utxos arbitrary: o1)
  case (Cons u utxos)
  obtain o2 where "handle_lending_utxo env now ctx u o1 = Some o2" "lending_ok o2"
    using handle_lending_utxo_ok [OF Cons.prems] by blast
  with Cons.IH show ?case by simp
qed simp

lemma rollback_filter:
  fixes m :: "(string, LendingState) gomap"
  assumes "gomap_ok m"
  shows "fold (\<lambda>(k, s) m. AList.delete k m) (filter (\<lambda>(k, s). p s) m) m = filter (\<lambda>(k, s). \<not> p s) m"
proof -
  have "fold (\<lambda>(k, s) m. AList.delete k m) (filter (\<lambda>(k, s). p s) m) m = filter (\<lambda>(k, s). k \<notin> fst ` set (filter (\<lambda>(k, s). p s) m)) m"
    unfolding fold_delete_ids [of fst, symmetric] by (intro fold_cong) auto
  also have "\<dots> = filter (\<lambda>(k, s). \<not> p s) m"
  proof (intro filter_cong refl)
    fix x
    assume x: "x \<in> set m"
    have "v = snd x" if "(fst x, v) \<in> set m" for v
      using gomap_ok_mem [OF assms that] gomap_ok_mem [OF assms, of "fst x" "snd x"] x by simp
    then have "fst x \<in> fst ` set (filter (\<lambda>(k, s). p s) m) \<longleftrightarrow> p (snd x)"
      using x by (force simp: image_iff)
    then show "(case x of (k, s) \<Rightarrow> k \<notin> fst ` set (filter (\<lambda>(k, s). p s) m)) = (case x of (k, s) \<Rightarrow> \<not> p s)"
      by (simp add: case_prod_beta)
  qed
  finally show ?thesis .
qed

lemma lending_handleRollback_states:
  assumes "lending_ok o1"
  shows "lo_states (snd (lending_handleRollback env n o1)) = filter (\<lambda>(k, s). ls_Slot s < firstRolledBackSlot n) (lo_states o1)"
  using rollback_filter [of "lo_states o1" "\<lambda>s. ls_Slot s \<ge> firstRolledBackSlot n"] assms
  by (simp add: lending_handleRollback_def Let_def lending_ok_def case_prod_beta not_le split: option.split)

lemma lending_handleRollback_others:
  "lo_subscribers (snd (lending_handleRollback env n o1)) = lo_subscribers o1"
  "lo_chans (snd (lending_handleRollback env n o1)) = lo_chans o1"
  "lo_nextChan (snd (lending_handleRollback env n o1)) = lo_nextChan o1"
  by (simp_all add: lending_handleRollback_def Let_def case_prod_beta split: option.split)

lemma lending_handleRollback_ok: "lending_ok o1 \<Longrightarrow> lending_ok (snd (lending_handleRollback env n o1))"
  by (simp add: lending_ok_def [of "snd (lending_handleRollback env n o1)"] lending_handleRollback_states
      lending_handleRollback_others, auto simp: lending_ok_def list_all_iff)

lemma lending_event_ok:
  assumes "lending_ok o1"
  shows "\<exists>e o2. lending_HandleChainsyncEvent env now evt o1 = Some (e, o2) \<and> lending_ok o2"
proof -
  have "\<exists>o2. lending_handleTransaction env now c p o1 = Some o2 \<and> lending_ok o2" for c p
    using handle_lending_utxos_ok [OF assms] assms by (auto simp: lending_handleTransaction_def split: option.split)
  moreover have "\<exists>e o2. lending_handleRollback env n o1 = (e, o2) \<and> lending_ok o2" for n
    using lending_handleRollback_ok [OF assms, of env n] by (metis prod.collapse)
  ultimately show ?thesis
    using assms by (cases evt) (force simp: lending_HandleChainsyncEvent_def)+
qed

lemma lending_Subscribe_ok:
  assumes "lending_ok o1"
  shows "lending_ok (snd (lending_Subscribe o1))"
proof -
  let ?ch = "lo_nextChan o1"
  have fresh: "map_of (lo_chans o1) ?ch = None" using assms by (auto simp: lending_ok_def)
  have "ch \<noteq> ?ch" if "is_open (lo_chans o1) ch" for ch
    using that fresh by (auto simp: is_open_def)
  moreover have "is_open (AList.update ?ch c (lo_chans o1)) ch = (if ch = ?ch then lc_open c else is_open (lo_chans o1) ch)" for c ch
    by (simp add: is_open_def update_conv')
  ultimately show ?thesis
    using assms unfolding lending_ok_def lending_Subscribe_def Let_def
    by (auto simp: list_all_iff update_conv' intro!: buffers_ok_update)
qed

lemma remove_first_distinct_eq: "distinct xs \<Longrightarrow> remove_first ((=) x) xs = filter (\<lambda>y. y \<noteq> x) xs"
proof (induction xs)
  case (Cons y ys)
  then show ?case by (cases "x = y") (auto intro!: filter_True [symmetric])
qed simp

lemma lending_Unsubscribe_ok:
  assumes "lending_ok o1"
  shows "\<exists>o2. lending_Unsubscribe ch o1 = Some o2 \<and> lending_ok o2"
proof (cases "ch \<in> set (lo_subscribers o1)")
  case True
  then have "is_open (lo_chans o1) ch" using assms by (auto simp: lending_ok_def list_all_iff)
  from close_chan_open [OF this] obtain c
    where "close_chan ch (lo_chans o1) = Some c" "is_open c = (is_open (lo_chans o1))(ch := False)" "same_chans (lo_chans o1) c"
    by blast
  then show ?thesis
    using assms True by (auto simp: lending_Unsubscribe_def lending_ok_def same_chans_def remove_first_distinct_eq list_all_iff)
qed (use assms in \<open>simp add: lending_Unsubscribe_def\<close>)

lemma lending_Stop_ok:
  assumes "lending_ok o1"
  shows "\<exists>o2. lending_Stop o1 = Some o2 \<and> lending_ok o2"
proof (cases "lo_stopped o1")
  case False
  have "list_all (is_open (lo_chans o1)) (lo_subscribers o1)" "distinct (lo_subscribers o1)"
    using assms by (simp_all add: lending_ok_def)
  from close_all_open [OF this] obtain c
    where "close_all (lo_subscribers o1) (lo_chans o1) = Some c" "same_chans (lo_chans o1) c"
    by blast
  then show ?thesis using assms False by (auto simp: lending_Stop_def lending_ok_def same_chans_def)
qed (use assms in \<open>simp add: lending_Stop_def\<close>)

text \<open>Any history of calls and events on a new oracle.\<close>

datatype lending_op = LSubscribe | LUnsubscribe nat | LEvent time chain_event | LStop

fun lending_step :: "'e lending_env \<Rightarrow> lending_op \<Rightarrow> LendingOracle \<Rightarrow> LendingOracle option" where
  "lending_step env LSubscribe o1 = Some (snd (lending_Subscribe o1))"
| "lending_step env (LUnsubscribe ch) o1 = lending_Unsubscribe ch o1"
| "lending_step env (LEvent now evt) o1 = map_option snd (lending_HandleChainsyncEvent env now evt o1)"
| "lending_step env LStop o1 = lending_Stop o1"

fun lending_run :: "'e lending_env \<Rightarrow> lending_op list \<Rightarrow> LendingOracle \<Rightarrow> LendingOracle option" where
  "lending_run env [] o1 = Some o1"
| "lending_run env (op # ops) o1 = do { o2 \<leftarrow> lending_step env op o1; lending_run env ops o2 }"

lemma lending_step_ok: "lending_ok o1 \<Longrightarrow> \<exists>o2. lending_step env op o1 = Some o2 \<and> lending_ok o2"
  using lending_Subscribe_ok [of o1] lending_Unsubscribe_ok [of o1] lending_event_ok [of o1 env] lending_Stop_ok [of o1]
  by (cases op) fastforce+

lemma lending_run_ok: "lending_ok o1 \<Longrightarrow> \<exists>o2. lending_run env ops o1 = Some o2 \<and> lending_ok o2"
proof (induction ops arbitrary: o1)
  case (Cons op ops)
  obtain o2 where "lending_step env op o1 = Some o2" "lending_ok o2" using lending_step_ok [OF Cons.prems] by blast
  with Cons.IH show ?case by simp
qed simp

lemma NewLendingOracle_ok: "lending_ok (NewLendingOracle p cfg db)"
  by (simp add: lending_ok_def NewLendingOracle_def buffers_ok_def)

text \<open>Whatever is subscribed, unsubscribed, delivered and stopped, in any order, the lending oracle
  never sends on a closed channel nor closes one twice, its subscribers' channels are open and hold
  at most 100 updates, and every state is filed under its own key.\<close>

lemma lending_never_panics:
  "\<exists>o1. lending_run env ops (NewLendingOracle parser cfg db) = Some o1 \<and> lending_ok o1"
  by (rule lending_run_ok [OF NewLendingOracle_ok])

section \<open>Memory and store\<close>

text \<open>
  The store agrees with the states in memory on the keys of one network and protocol. Other keys
  of the database, which other oracles write, are left alone.
\<close>

definition lending_scope :: "string \<Rightarrow> string \<Rightarrow> string" where
  "lending_scope n p = n @ '':'' @ p @ '':''"

definition lending_entry_ok :: "string \<Rightarrow> string \<Rightarrow> string \<Rightarrow> LendingState \<Rightarrow> bool" where
  "lending_entry_ok n p k s = (LendingState_Key s = k \<and> ls_Network s = n \<and> ls_Protocol s = p)"

definition lending_db_ok :: "string \<Rightarrow> string \<Rightarrow> lending_store \<Rightarrow> bool" where
  "lending_db_ok n p db = (gomap_ok db \<and> list_all (\<lambda>(k, v). has_prefix (lendingStateKeyPrefix @ lending_scope n p) k \<longrightarrow>
     (case v of BadLendingValue \<Rightarrow> False
      | LendingValue s \<Rightarrow> lending_entry_ok n p (drop (length lendingStateKeyPrefix) k) s)) db)"

definition mirrored :: "string \<Rightarrow> string \<Rightarrow> LendingOracle \<Rightarrow> bool" where
  "mirrored n p o1 = (\<exists>db. lo_storage o1 = Some db \<and> lending_db_ok n p db
     \<and> list_all (\<lambda>(k, s). lending_entry_ok n p k s) (lo_states o1)
     \<and> (\<forall>k. has_prefix (lending_scope n p) k \<longrightarrow>
          map_of db (lendingStateKeyPrefix @ k) = map_option LendingValue (map_of (lo_states o1) k)))"

lemma scope_key: "ls_Network s = n \<Longrightarrow> ls_Protocol s = p \<Longrightarrow> LendingState_Key s = lending_scope n p @ ls_StateId s"
  by (simp add: LendingState_Key_def lending_scope_def)

lemma entry_scope: "lending_entry_ok n p k s \<Longrightarrow> has_prefix (lending_scope n p) k"
  by (auto simp: lending_entry_ok_def scope_key)

lemma has_prefix_same [simp]: "has_prefix (a @ b) (a @ k) \<longleftrightarrow> has_prefix b k"
  by (simp add: has_prefix_def)

lemma has_prefix_split: "has_prefix (a @ b) k \<longleftrightarrow> (\<exists>x. k = a @ x \<and> has_prefix b x)"
proof
  assume h: "has_prefix (a @ b) k"
  then have "take (length a) k = a" by (metis append_eq_conv_conj has_prefix_def length_append min.absorb1 le_add1 take_take)
  then have "k = a @ drop (length a) k" by (metis append_take_drop_id)
  with h show "\<exists>x. k = a @ x \<and> has_prefix b x" by (metis has_prefix_same)
qed auto

text \<open>Loading the states of a protocol gives back what the store holds for it.\<close>

lemma map_filter_set: "set (List.map_filter f xs) = {y. \<exists>x \<in> set xs. f x = Some y}"
  by (induction xs) (auto simp: List.map_filter_simps split: option.splits)

lemma unmarshal_Some: "unmarshal_lending v = Some s \<longleftrightarrow> v = LendingValue s"
  by (cases v) (auto simp: unmarshal_lending_def)

lemma loaded_states:
  assumes "lending_db_ok n p db"
  shows "s \<in> set (LoadLendingStatesByProtocol n p db) \<longleftrightarrow>
    has_prefix (lending_scope n p) (LendingState_Key s) \<and> map_of db (lendingStateKeyPrefix @ LendingState_Key s) = Some (LendingValue s)"
proof -
  let ?pre = "lendingStateKeyPrefix @ lending_scope n p"
  have "s \<in> set (LoadLendingStatesByProtocol n p db) \<longleftrightarrow> (\<exists>k. (k, LendingValue s) \<in> set db \<and> has_prefix ?pre k)"
    by (auto simp: LoadLendingStatesByProtocol_def Let_def map_filter_set iterate_def unmarshal_Some lending_scope_def)
  also have "\<dots> \<longleftrightarrow> has_prefix (lending_scope n p) (LendingState_Key s) \<and> map_of db (lendingStateKeyPrefix @ LendingState_Key s) = Some (LendingValue s)"
  proof
    assume "\<exists>k. (k, LendingValue s) \<in> set db \<and> has_prefix ?pre k"
    then obtain k where k: "(k, LendingValue s) \<in> set db" "has_prefix ?pre k" by blast
    then obtain x where x: "k = lendingStateKeyPrefix @ x" "has_prefix (lending_scope n p) x" by (auto simp: has_prefix_split [of lendingStateKeyPrefix])
    have "LendingState_Key s = x" using assms k x unfolding lending_db_ok_def list_all_iff lending_entry_ok_def by fastforce
    with k x assms show "has_prefix (lending_scope n p) (LendingState_Key s) \<and> map_of db (lendingStateKeyPrefix @ LendingState_Key s) = Some (LendingValue s)"
      by (simp add: lending_db_ok_def gomap_ok_mem)
  next
    assume "has_prefix (lending_scope n p) (LendingState_Key s) \<and> map_of db (lendingStateKeyPrefix @ LendingState_Key s) = Some (LendingValue s)"
    then show "\<exists>k. (k, LendingValue s) \<in> set db \<and> has_prefix ?pre k"
      by (auto dest!: map_of_SomeD simp: has_prefix_split [of lendingStateKeyPrefix])
  qed
  finally show ?thesis .
qed

lemma loaded_map:
  assumes "lending_db_ok n p db"
  shows "map_of (fold (\<lambda>s m. AList.update (LendingState_Key s) s m) (LoadLendingStatesByProtocol n p db) []) k = Some s \<longleftrightarrow>
    has_prefix (lending_scope n p) k \<and> map_of db (lendingStateKeyPrefix @ k) = Some (LendingValue s)"
proof -
  let ?L = "LoadLendingStatesByProtocol n p db"
  have inj: "inj_on LendingState_Key (set ?L)" by (auto simp: inj_on_def loaded_states [OF assms])
  have key: "LendingState_Key s = k" if "has_prefix (lending_scope n p) k" "map_of db (lendingStateKeyPrefix @ k) = Some (LendingValue s)" for s k
    using map_of_SomeD [OF that(2)] that(1) assms unfolding lending_db_ok_def list_all_iff lending_entry_ok_def by fastforce
  show ?thesis
  proof (cases "\<exists>x \<in> set ?L. LendingState_Key x = k")
    case True
    then obtain x where x: "x \<in> set ?L" "LendingState_Key x = k" by blast
    from fold_update_inj [OF inj x(1), of "[]"] show ?thesis
      using x loaded_states [OF assms, of x] by auto
  next
    case False
    then have "map_of (fold (\<lambda>s m. AList.update (LendingState_Key s) s m) ?L []) k = None"
      using fold_update_other [of k LendingState_Key ?L "[]"] by auto
    then show ?thesis using False loaded_states [OF assms, of s] key [of k s] by auto
  qed
qed

lemma start_mirrored:
  assumes "lending_db_ok (le_network env) (lp_Protocol (le_parser env)) db"
    and "lending_Start env (NewLendingOracle parser cfg (Some db)) = Inr o1"
  shows "map_of (lo_states o1) k = Some s \<longleftrightarrow>
      has_prefix (lending_scope (le_network env) (lp_Protocol (le_parser env))) k \<and> map_of db (lendingStateKeyPrefix @ k) = Some (LendingValue s)"
    and "lending_ok o1" and "mirrored (le_network env) (lp_Protocol (le_parser env)) o1"
proof -
  let ?n = "le_network env" and ?p = "lp_Protocol (le_parser env)"
  let ?m = "fold (\<lambda>s m. AList.update (LendingState_Key s) s m) (LoadLendingStatesByProtocol ?n ?p db) []"
  have o1: "o1 = (NewLendingOracle parser cfg (Some db))\<lparr>lo_states := ?m\<rparr>"
    using assms(2) by (auto simp: lending_Start_def lending_loadPersistedStates_def NewLendingOracle_def Let_def split: if_splits)
  then have st: "lo_states o1 = ?m" "lo_storage o1 = Some db" by (simp_all add: NewLendingOracle_def)
  show look: "map_of (lo_states o1) k = Some s \<longleftrightarrow> has_prefix (lending_scope ?n ?p) k \<and> map_of db (lendingStateKeyPrefix @ k) = Some (LendingValue s)" for k s
    unfolding st by (rule loaded_map [OF assms(1)])
  have gm: "gomap_ok m \<Longrightarrow> gomap_ok (fold (\<lambda>s m. AList.update (LendingState_Key s) s m) xs m)" for xs m
    by (induction xs arbitrary: m) simp_all
  have ok: "gomap_ok (lo_states o1)" unfolding st by (rule gm) simp
  have entry: "lending_entry_ok ?n ?p k s" if "(k, s) \<in> set (lo_states o1)" for k s
  proof -
    have "has_prefix (lending_scope ?n ?p) k" "map_of db (lendingStateKeyPrefix @ k) = Some (LendingValue s)"
      using look [of k s] gomap_ok_mem [OF ok that] by simp_all
    then show ?thesis using assms(1) unfolding lending_db_ok_def list_all_iff by (fastforce dest: map_of_SomeD)
  qed
  then have "list_all (\<lambda>(k, s). LendingState_Key s = k) (lo_states o1)"
    by (auto simp: list_all_iff lending_entry_ok_def)
  then show "lending_ok o1"
    using ok NewLendingOracle_ok [of parser cfg "Some db"] by (simp add: o1 lending_ok_def)
  have "map_of db (lendingStateKeyPrefix @ k) = map_option LendingValue (map_of (lo_states o1) k)"
    if k: "has_prefix (lending_scope ?n ?p) k" for k
  proof (cases "map_of db (lendingStateKeyPrefix @ k)")
    case None
    then show ?thesis using look [of k] by (cases "map_of (lo_states o1) k") auto
  next
    case (Some v)
    then have "v \<noteq> BadLendingValue"
      using assms(1) k unfolding lending_db_ok_def list_all_iff by (fastforce dest: map_of_SomeD)
    then obtain s where "v = LendingValue s" by (cases v) auto
    then show ?thesis using look [of k s] Some k by simp
  qed
  then show "mirrored ?n ?p o1"
    using st(2) assms(1) entry by (auto simp: mirrored_def list_all_iff)
qed

text \<open>The conditions under which every write succeeds.\<close>

definition lending_reliable :: "'e lending_env \<Rightarrow> bool" where
  "lending_reliable env = ((\<forall>k v. le_commits env k v)
     \<and> (\<forall>d h i s t st. lp_ParseDatum (le_parser env) d h i s t = Inr (Some st) \<longrightarrow> json_time_ok (ls_ValidFrom st) \<and> json_time_ok (ls_ValidTo st)))"

lemma json_zero: "json_time_ok 0"
  by (simp add: json_time_ok_def)

lemma mirrored_update:
  assumes "mirrored n p o1" and "ls_Network s = n" and "ls_Protocol s = p" and "lending_json_ok s" and "\<And>k v. commits k v"
    and "lo_states o2 = AList.update (LendingState_Key s) s (lo_states o1)"
    and "lo_storage o2 = map_option (\<lambda>db. snd (SaveLendingState commits s db)) (lo_storage o1)"
  shows "mirrored n p o2"
proof -
  obtain db where db: "lo_storage o1 = Some db" "lending_db_ok n p db" "list_all (\<lambda>(k, s). lending_entry_ok n p k s) (lo_states o1)"
    "\<And>k. has_prefix (lending_scope n p) k \<Longrightarrow> map_of db (lendingStateKeyPrefix @ k) = map_option LendingValue (map_of (lo_states o1) k)"
    using assms(1) by (auto simp: mirrored_def)
  let ?db = "AList.update (lendingStateKeyPrefix @ LendingState_Key s) (LendingValue s) db"
  have "lo_storage o2 = Some ?db"
    using assms(2-5,7) db(1) by (simp add: SaveLendingState_def Let_def lendingStateKey_text flip: assms(2,3))
  moreover have "lending_db_ok n p ?db"
    using db(2) assms(2,3) by (auto simp: lending_db_ok_def list_all_iff lending_entry_ok_def dest!: set_alist_update)
  moreover have "list_all (\<lambda>(k, s). lending_entry_ok n p k s) (lo_states o2)"
    using db(3) assms(2,3) unfolding assms(6) by (auto simp: list_all_iff lending_entry_ok_def dest!: set_alist_update)
  moreover have "map_of ?db (lendingStateKeyPrefix @ k) = map_option LendingValue (map_of (lo_states o2) k)"
    if "has_prefix (lending_scope n p) k" for k
    using db(4) [OF that] unfolding assms(6) by (simp add: update_conv')
  ultimately show ?thesis by (auto simp: mirrored_def)
qed

lemma delete_lending_states_all:
  assumes "\<And>k v. commits k v"
  shows "delete_lending_states commits ss db = (0, fold (\<lambda>s m. AList.delete (lendingStateKeyPrefix @ LendingState_Key s) m) ss db)"
  using assms by (induction ss arbitrary: db) (simp_all add: DeleteLendingState_def Let_def lendingStateKey_text)

lemma mirrored_rollback:
  assumes "mirrored (le_network env) p o1" and "lending_ok o1" and "\<And>k v. le_commits env k v"
  shows "mirrored (le_network env) p (snd (lending_handleRollback env n o1))"
    and "fst (lending_handleRollback env n o1) = None"
proof -
  let ?n = "le_network env" and ?o2 = "snd (lending_handleRollback env n o1)"
  let ?gone = "filter (\<lambda>(k, s). ls_Slot s \<ge> firstRolledBackSlot n) (lo_states o1)"
  obtain db where db: "lo_storage o1 = Some db" "lending_db_ok ?n p db" "list_all (\<lambda>(k, s). lending_entry_ok ?n p k s) (lo_states o1)"
    "\<And>k. has_prefix (lending_scope ?n p) k \<Longrightarrow> map_of db (lendingStateKeyPrefix @ k) = map_option LendingValue (map_of (lo_states o1) k)"
    using assms(1) by (auto simp: mirrored_def)
  note st = lending_handleRollback_states [OF assms(2), of env n]
  let ?db = "filter (\<lambda>(k, v). k \<notin> (\<lambda>s. lendingStateKeyPrefix @ LendingState_Key s) ` set (map snd ?gone)) db"
  have sto: "lo_storage ?o2 = Some ?db" and none: "fst (lending_handleRollback env n o1) = None"
    using db(1) assms(3)
    by (simp_all add: lending_handleRollback_def Let_def delete_lending_states_all
        fold_delete_ids [of "\<lambda>s. lendingStateKeyPrefix @ LendingState_Key s"])
  show "fst (lending_handleRollback env n o1) = None" by (rule none)
  have keys: "lendingStateKeyPrefix @ k \<in> (\<lambda>s. lendingStateKeyPrefix @ LendingState_Key s) ` set (map snd ?gone)
      \<longleftrightarrow> (\<exists>s. map_of (lo_states o1) k = Some s \<and> ls_Slot s \<ge> firstRolledBackSlot n)" for k
  proof
    assume "\<exists>s. map_of (lo_states o1) k = Some s \<and> ls_Slot s \<ge> firstRolledBackSlot n"
    then obtain s where s: "(k, s) \<in> set (lo_states o1)" "ls_Slot s \<ge> firstRolledBackSlot n" by (auto dest: map_of_SomeD)
    then have "LendingState_Key s = k" using assms(2) by (auto simp: lending_ok_def list_all_iff)
    with s show "lendingStateKeyPrefix @ k \<in> (\<lambda>s. lendingStateKeyPrefix @ LendingState_Key s) ` set (map snd ?gone)"
      by (force simp: image_iff)
  next
    assume "lendingStateKeyPrefix @ k \<in> (\<lambda>s. lendingStateKeyPrefix @ LendingState_Key s) ` set (map snd ?gone)"
    then obtain k' s where s: "(k', s) \<in> set (lo_states o1)" "ls_Slot s \<ge> firstRolledBackSlot n" "LendingState_Key s = k" by auto
    then have "k' = k" using assms(2) by (auto simp: lending_ok_def list_all_iff)
    with s show "\<exists>s. map_of (lo_states o1) k = Some s \<and> ls_Slot s \<ge> firstRolledBackSlot n"
      using gomap_ok_mem [of "lo_states o1"] assms(2) by (auto simp: lending_ok_def)
  qed
  have "lending_db_ok ?n p ?db" using db(2) by (simp add: lending_db_ok_def list_all_iff)
  moreover have "list_all (\<lambda>(k, s). lending_entry_ok ?n p k s) (lo_states ?o2)"
    using db(3) unfolding st by (simp add: list_all_iff)
  moreover have "map_of ?db (lendingStateKeyPrefix @ k) = map_option LendingValue (map_of (lo_states ?o2) k)"
    if "has_prefix (lending_scope ?n p) k" for k
  proof -
    have ok: "gomap_ok (lo_states o1)" using assms(2) by (simp add: lending_ok_def)
    show ?thesis
      unfolding map_of_without_keys keys st map_of_filter_gomap [OF ok] db(4) [OF that]
      by (cases "map_of (lo_states o1) k") (auto simp: not_le)
  qed
  ultimately show "mirrored ?n p ?o2" using sto by (auto simp: mirrored_def)
qed

section \<open>Every event keeps memory and store in agreement\<close>

context lending_source
begin

lemma parsed_json_ok:
  assumes "le_parser env = lp" and "lending_reliable env" and "lp_ParseDatum lp d h i s t = Inr (Some st)"
    and "json_time_ok t" and "json_time_ok u"
  shows "lending_json_ok (st\<lparr>ls_Network := n, ls_UpdatedAt := u\<rparr>)"
proof -
  have "json_time_ok (ls_ValidFrom st) \<and> json_time_ok (ls_ValidTo st)"
    using assms(1-3) unfolding lending_reliable_def by blast
  then show ?thesis
    using source_floats [OF assms(3)] source_times [OF assms(3)] source_coordinates [OF assms(3)] assms(4,5)
    by (simp add: lending_json_ok_def json_zero)
qed

lemma utxo_mirrored:
  assumes "le_parser env = lp" and "lending_reliable env" and "json_time_ok now" and "lending_ok o1"
    and "mirrored (le_network env) (lp_Protocol lp) o1" and "handle_lending_utxo env now ctx utxo o1 = Some o2"
  shows "mirrored (le_network env) (lp_Protocol lp) o2"
  using handle_lending_utxo_cases [of env now ctx utxo o1]
proof (elim disjE exE conjE)
  assume "handle_lending_utxo env now ctx utxo o1 = Some o1"
  then show ?thesis using assms(5,6) by simp
next
  fix datum s
  assume parse: "lp_ParseDatum (le_parser env) datum (ctx_TransactionHash ctx) (in_Index (utxo_Id utxo)) (ctx_SlotNumber ctx) now = Inr (Some s)"
    and step: "handle_lending_utxo env now ctx utxo o1 = record_lending_state env (s\<lparr>ls_Network := le_network env, ls_UpdatedAt := now\<rparr>) o1"
  let ?s = "s\<lparr>ls_Network := le_network env, ls_UpdatedAt := now\<rparr>"
  note parse = parse [unfolded assms(1)]
  from record_lending_state_ok [OF assms(4), of env ?s] obtain c where "o2 =
      o1\<lparr>lo_states := AList.update (LendingState_Key ?s) ?s (lo_states o1),
         lo_storage := map_option (\<lambda>db. snd (SaveLendingState (le_commits env) ?s db)) (lo_storage o1), lo_chans := c\<rparr>"
    using assms(6) step by auto
  then show ?thesis
    using source_protocol [OF parse] parsed_json_ok [OF assms(1,2) parse assms(3,3)] assms(2)
    by (intro mirrored_update [OF assms(5), of ?s "le_commits env"]) (simp_all add: lending_reliable_def)
qed

lemma utxos_mirrored:
  assumes "le_parser env = lp" and "lending_reliable env" and "json_time_ok now"
  shows "lending_ok o1 \<Longrightarrow> mirrored (le_network env) (lp_Protocol lp) o1 \<Longrightarrow>
    handle_lending_utxos env now ctx utxos o1 = Some o2 \<Longrightarrow> mirrored (le_network env) (lp_Protocol lp) o2"
proof (induction utxos arbitrary: o1)
  case (Cons u utxos)
  obtain o' where o': "handle_lending_utxo env now ctx u o1 = Some o'" "lending_ok o'"
    using handle_lending_utxo_ok [OF Cons.prems(1)] by blast
  show ?case
    using Cons.IH [OF o'(2) utxo_mirrored [OF assms Cons.prems(1,2) o'(1)]] Cons.prems(3) o'(1) by simp
qed simp

lemma event_mirrored:
  assumes "le_parser env = lp" and "lending_reliable env" and "json_time_ok now" and "lending_ok o1"
    and "mirrored (le_network env) (lp_Protocol lp) o1" and "lending_HandleChainsyncEvent env now evt o1 = Some (e, o2)"
  shows "mirrored (le_network env) (lp_Protocol lp) o2"
proof (cases "lo_stopped o1")
  case False
  show ?thesis
  proof (cases evt)
    case (TransactionEvt c p)
    then show ?thesis
      using assms(6) False assms(5) utxos_mirrored [OF assms(1-3) assms(4,5)]
      by (auto simp: lending_HandleChainsyncEvent_def lending_handleTransaction_def split: option.splits)
  next
    case (RollbackEvt n)
    then have "o2 = snd (lending_handleRollback env n o1)"
      using assms(6) False by (simp add: lending_HandleChainsyncEvent_def)
    then show ?thesis using mirrored_rollback(1) [OF assms(5,4)] assms(2) by (simp add: lending_reliable_def)
  next
    case OtherEvt
    then show ?thesis using assms(5,6) False by (simp add: lending_HandleChainsyncEvent_def)
  qed
qed (use assms(5,6) in \<open>simp add: lending_HandleChainsyncEvent_def\<close>)

lemma step_mirrored:
  assumes "le_parser env = lp" and "lending_reliable env" and "\<And>now evt. op = LEvent now evt \<Longrightarrow> json_time_ok now" and "lending_ok o1"
    and "mirrored (le_network env) (lp_Protocol lp) o1" and "lending_step env op o1 = Some o2"
  shows "mirrored (le_network env) (lp_Protocol lp) o2"
proof (cases op)
  case (LEvent now evt)
  then show ?thesis using assms event_mirrored [OF assms(1,2) _ assms(4,5), of now evt] by auto
qed (use assms(5,6) in \<open>auto simp: lending_Subscribe_def lending_Unsubscribe_def lending_Stop_def Let_def mirrored_def
        bind_eq_Some_conv split: if_splits\<close>)

lemma run_mirrored:
  assumes "le_parser env = lp" and "lending_reliable env"
  shows "lending_ok o1 \<Longrightarrow> mirrored (le_network env) (lp_Protocol lp) o1 \<Longrightarrow>
    list_all (\<lambda>op. case op of LEvent now evt \<Rightarrow> json_time_ok now | _ \<Rightarrow> True) ops \<Longrightarrow>
    lending_run env ops o1 = Some o2 \<Longrightarrow> mirrored (le_network env) (lp_Protocol lp) o2"
proof (induction ops arbitrary: o1)
  case (Cons op ops)
  obtain o' where o': "lending_step env op o1 = Some o'" "lending_ok o'" using lending_step_ok [OF Cons.prems(1)] by blast
  have "mirrored (le_network env) (lp_Protocol lp) o'"
    using Cons.prems(3) by (intro step_mirrored [OF assms _ Cons.prems(1,2) o'(1)]) auto
  from Cons.IH [OF o'(2) this] show ?case using Cons.prems(3,4) o'(1) by simp
qed simp

end

text \<open>A restart loads what was in memory.\<close>

lemma mirrored_restart:
  assumes "mirrored (le_network env) (lp_Protocol (le_parser env)) o1" and "lending_ok o1"
  shows "\<exists>o2. lending_Start env (NewLendingOracle parser cfg (lo_storage o1)) = Inr o2
    \<and> map_of (lo_states o2) = map_of (lo_states o1)"
proof -
  let ?n = "le_network env" and ?p = "lp_Protocol (le_parser env)"
  obtain db where db: "lo_storage o1 = Some db" "lending_db_ok ?n ?p db" "list_all (\<lambda>(k, s). lending_entry_ok ?n ?p k s) (lo_states o1)"
    "\<And>k. has_prefix (lending_scope ?n ?p) k \<Longrightarrow> map_of db (lendingStateKeyPrefix @ k) = map_option LendingValue (map_of (lo_states o1) k)"
    using assms(1) by (auto simp: mirrored_def)
  obtain o2 where o2: "lending_Start env (NewLendingOracle parser cfg (Some db)) = Inr o2"
    by (simp add: lending_Start_def NewLendingOracle_def)
  have "map_of (lo_states o2) k = Some s \<longleftrightarrow> map_of (lo_states o1) k = Some s" for k s
  proof
    assume "map_of (lo_states o2) k = Some s"
    then show "map_of (lo_states o1) k = Some s"
      using start_mirrored(1) [OF db(2) o2, of k s] db(4) [of k] by (cases "map_of (lo_states o1) k") auto
  next
    assume s: "map_of (lo_states o1) k = Some s"
    then have "(k, s) \<in> set (lo_states o1)" by (rule map_of_SomeD)
    then have "has_prefix (lending_scope ?n ?p) k" using db(3) by (auto simp: list_all_iff dest: entry_scope)
    then show "map_of (lo_states o2) k = Some s"
      using start_mirrored(1) [OF db(2) o2, of k s] db(4) [of k] s by simp
  qed
  then have "map_of (lo_states o2) k = map_of (lo_states o1) k" for k by (metis not_Some_eq)
  then show ?thesis using o2 db(1) by (auto simp: fun_eq_iff)
qed

section \<open>Properties\<close>

lemma match_state_found:
  "match_state i (Some m) ss = (if filter (\<lambda>s. ls_StateId s = i) ss = [] then Some m else None)"
  by (induction ss) auto

lemma match_state_filter:
  "match_state i None ss = (case filter (\<lambda>s. ls_StateId s = i) ss of [s] \<Rightarrow> Some s | _ \<Rightarrow> None)"
  by (induction ss) (auto simp: match_state_found split: list.split)

lemma singleton_mset: "mset xs = mset ys \<Longrightarrow> (case xs of [s] \<Rightarrow> Some s | _ \<Rightarrow> None) = (case ys of [s] \<Rightarrow> Some s | _ \<Rightarrow> None)"
  by (cases xs; cases ys; cases "tl xs"; cases "tl ys") (auto simp: add_mset_eq_single)

text \<open>A lookup does not depend on the order in which Go happens to walk the map: a key finds its
  state, and a bare identifier finds the one state that has it, and nothing when there are several.\<close>

lemma lending_lookup_unambiguous:
  assumes "lending_ok o1" and "mset (lo_states o1) = mset (lo_states o2)"
  shows "GetState i o1 = GetState i o2
    \<and> GetState i o1 = (case map_of (lo_states o1) i of
        Some s \<Rightarrow> Some s
      | None \<Rightarrow> (case filter (\<lambda>s. ls_StateId s = i) (GetAllStates o1) of [s] \<Rightarrow> Some s | _ \<Rightarrow> None))"
proof -
  have d: "distinct (map fst (lo_states o1))" using assms(1) by (simp add: lending_ok_def gomap_ok_def)
  moreover have "mset (map fst (lo_states o1)) = mset (map fst (lo_states o2))" using assms(2) by (simp only: mset_map)
  ultimately have "distinct (map fst (lo_states o2))" using mset_eq_imp_distinct_iff by blast
  with d have "map_of (lo_states o1) = map_of (lo_states o2)"
    using mset_eq_setD [OF assms(2)] by (metis map_of_inject_set)
  moreover have "mset (filter (\<lambda>s. ls_StateId s = i) (map snd (lo_states o1))) = mset (filter (\<lambda>s. ls_StateId s = i) (map snd (lo_states o2)))"
    using assms(2) by (simp only: mset_filter mset_map)
  note singleton_mset [OF this]
  ultimately show ?thesis
    unfolding GetState_def match_state_filter GetAllStates_def by (cases "map_of (lo_states o2) i") simp_all
qed


text \<open>A rollback removes exactly the states of later slots, from memory and from the store alike, and
  reports no error when the database takes every write.\<close>

lemma lending_rollback_exact:
  assumes "le_parser env = NewLiqwidLendingAdapter cb" and "lending_reliable env"
    and "lending_db_ok (le_network env) liqwid_ProtocolName db"
    and "lending_Start env (NewLendingOracle (le_parser env) cfg (Some db)) = Inr o1"
    and "list_all (\<lambda>op. case op of LEvent now evt \<Rightarrow> json_time_ok now | _ \<Rightarrow> True) ops"
    and "lending_run env ops o1 = Some o2" and "\<not> lo_stopped o2"
  shows "\<exists>o3 db3. lending_HandleChainsyncEvent env now (RollbackEvt n) o2 = Some (None, o3) \<and> lo_storage o3 = Some db3
    \<and> (\<forall>i. let k = le_network env @ '':'' @ liqwid_ProtocolName @ '':'' @ i;
              kept = (case map_of (lo_states o2) k of
                  None \<Rightarrow> None
                | Some s \<Rightarrow> if ls_Slot s < firstRolledBackSlot n then Some s else None)
          in map_of (lo_states o3) k = kept
           \<and> LoadLendingState (le_network env) liqwid_ProtocolName i db3 =
               (case kept of None \<Rightarrow> Inl LendingKeyNotFound | Some s \<Rightarrow> Inr s))"
proof -
  let ?n = "le_network env" and ?p = liqwid_ProtocolName
  have p: "lp_Protocol (le_parser env) = ?p" by (simp add: assms(1) NewLiqwidLendingAdapter_def)
  note start = start_mirrored [OF assms(3) [folded p] assms(4), unfolded p]
  have m: "mirrored ?n ?p o2"
    using liqwid.run_mirrored [OF assms(1,2) start(2) _ assms(5,6)] start(3) p assms(1) by simp
  have ok: "lending_ok o2" using lending_run_ok [OF start(2), of env ops] assms(6) by simp
  let ?o3 = "snd (lending_handleRollback env n o2)"
  have commits: "\<And>k v. le_commits env k v" using assms(2) by (simp add: lending_reliable_def)
  note rb = mirrored_rollback [OF m ok commits, of n]
  obtain db3 where db3: "lo_storage ?o3 = Some db3"
    "\<And>k. has_prefix (lending_scope ?n ?p) k \<Longrightarrow> map_of db3 (lendingStateKeyPrefix @ k) = map_option LendingValue (map_of (lo_states ?o3) k)"
    using rb(1) by (auto simp: mirrored_def)
  have evt: "lending_HandleChainsyncEvent env now (RollbackEvt n) o2 = Some (None, ?o3)"
    using assms(7) rb(2) by (simp add: lending_HandleChainsyncEvent_def prod_eq_iff)
  have mem: "map_of (lo_states ?o3) k = (case map_of (lo_states o2) k of
                  None \<Rightarrow> None
                | Some s \<Rightarrow> if ls_Slot s < firstRolledBackSlot n then Some s else None)" for k
    using ok unfolding lending_handleRollback_states [OF ok] by (simp add: lending_ok_def map_of_filter_gomap)
  have sto: "LoadLendingState ?n ?p i db3 =
      (case map_of (lo_states ?o3) (?n @ '':'' @ ?p @ '':'' @ i) of None \<Rightarrow> Inl LendingKeyNotFound | Some s \<Rightarrow> Inr s)" for i
  proof -
    have "map_of db3 (lendingStateKey ?n ?p i) = map_option LendingValue (map_of (lo_states ?o3) (lending_scope ?n ?p @ i))"
      using db3(2) [OF has_prefix_append [of "lending_scope ?n ?p" i]] by (simp add: lendingStateKey_def lending_scope_def)
    then show ?thesis
      by (simp add: LoadLendingState_def lending_scope_def unmarshal_lending_def split: option.split)
  qed
  show ?thesis
    by (rule exI [of _ ?o3], rule exI [of _ db3]) (simp only: evt db3(1) sto mem Let_def simp_thms)
qed

text \<open>A price feed valid beyond the year 9999 is kept in memory, but cannot be written to the store.\<close>

lemma far_future_feed_not_persisted:
  assumes "lending_ok o1" and "\<not> json_time_ok (ls_ValidTo s)" and "record_lending_state env s o1 = Some o2"
  shows "map_of (lo_states o2) (LendingState_Key s) = Some s" and "lo_storage o2 = lo_storage o1"
  using record_lending_state_ok [OF assms(1), of env s] assms(2,3)
  by (auto simp: update_conv' SaveLendingState_def lending_json_ok_def Let_def option.map_ident)

section \<open>A run\<close>

text \<open>A Liqwid oracle on the preview network, and a transaction that produces a market.\<close>

definition feed_lib :: cbor_lib where
  "feed_lib = unary_lib\<lparr>dec_int64 := \<lambda>_. Some 5\<rparr>"

definition preview_env :: "liqwid_error lending_env" where
  "preview_env = \<lparr>le_parser = NewLiqwidLendingAdapter feed_lib, le_network = ''preview'', le_commits = \<lambda>k v. True\<rparr>"

definition market_ctx :: transaction_context where
  "market_ctx = \<lparr>ctx_TransactionHash = ''a'', ctx_SlotNumber = 5\<rparr>"

definition market_utxo :: ledger_utxo where
  "market_utxo = \<lparr>utxo_Id = \<lparr>in_Id = ''a'', in_Index = 0\<rparr>,
     utxo_Output = \<lparr>out_Address = hd GetMarketAddresses, out_Datum = Some market_datum, out_Cbor = []\<rparr>\<rparr>"

definition market_tx :: chain_event where
  "market_tx = TransactionEvt (Some market_ctx)
     \<lparr>te_BlockHash = ''b'', te_Inputs = [], te_Outputs = [], te_Transaction = Some \<lparr>tx_Consumed = [], tx_Produced = [market_utxo]\<rparr>\<rparr>"

definition preview_oracle :: LendingOracle where
  "preview_oracle = NewLendingOracle (le_parser preview_env) None (Some [])"

lemma preview_parser: "le_parser preview_env = NewLiqwidLendingAdapter feed_lib" "le_network preview_env = ''preview''"
  by (simp_all add: preview_env_def)

lemma preview_start: "lending_Start preview_env preview_oracle = Inr preview_oracle"
  by (simp add: lending_Start_def preview_oracle_def NewLendingOracle_def lending_loadPersistedStates_def
      LoadLendingStatesByProtocol_def Let_def iterate_def List.map_filter_simps)

lemma feed_lib_market: "decode_liqwid_MarketDatum feed_lib d = decode_liqwid_MarketDatum unary_lib d"
  by (simp add: feed_lib_def decode_liqwid_MarketDatum_def decode_liqwid_Asset_def dec_class_def dec_struct_def cong: if_cong)

lemma feed_lib_valid: "decode_liqwid_OracleDatum feed_lib d = Some p \<Longrightarrow> od_ValidFrom p = 5 \<and> od_ValidTo p = 5"
  by (auto simp: decode_liqwid_OracleDatum_def bind_eq_Some_conv feed_lib_def split: if_splits)

lemma feed_lib_times:
  assumes "liqwid_ParseDatum feed_lib d h i s t = Inr (Some st)"
  shows "json_time_ok (ls_ValidFrom st) \<and> json_time_ok (ls_ValidTo st)"
proof -
  have five: "json_time_ok (UnixMilli 5)" by (simp add: json_time_ok_def UnixMilli_def)
  have "os_ValidFrom p = UnixMilli 5 \<and> os_ValidTo p = UnixMilli 5" if "liqwid_ParseOracleDatum feed_lib d h s t = Inr p" for p
    using that feed_lib_valid [of d] by (auto simp: liqwid_ParseOracleDatum_def split: option.splits)
  then show ?thesis
    using assms five json_zero unfolding liqwid_ParseDatum_iff liqwid_state_def by auto
qed

lemma preview_reliable: "lending_reliable preview_env"
  using feed_lib_times by (simp add: lending_reliable_def preview_env_def NewLiqwidLendingAdapter_def)

lemma preview_db: "lending_db_ok (le_network preview_env) liqwid_ProtocolName []"
  by (simp add: lending_db_ok_def)

lemma preview_market:
  "\<exists>st. liqwid_ParseDatum feed_lib market_datum ''a'' 0 5 0 = Inr (Some st) \<and> ls_Protocol st = liqwid_ProtocolName
     \<and> ls_StateId st = GenerateMarketId [7] [1] \<and> ls_Slot st = 5"
proof -
  have "ParseMarketDatum feed_lib market_datum ''a'' 0 5 0 = ParseMarketDatum unary_lib market_datum ''a'' 0 5 0"
    by (simp add: ParseMarketDatum_def feed_lib_market)
  moreover obtain m where m: "ParseMarketDatum unary_lib market_datum ''a'' 0 5 0 = Inr m" using market_datum_parsed by blast
  ultimately show ?thesis
    using market_parsed [OF m] by (auto simp: liqwid_ParseDatum_def market_datum_decodes)
qed

definition market_key :: string where
  "market_key = ''preview'' @ '':'' @ liqwid_ProtocolName @ '':'' @ GenerateMarketId [7] [1]"

lemma preview_run:
  "\<exists>o2 s. lending_run preview_env [LEvent 0 market_tx] preview_oracle = Some o2 \<and> \<not> lo_stopped o2
     \<and> lo_states o2 = [(market_key, s)] \<and> ls_Slot s = 5"
proof -
  obtain st where st: "liqwid_ParseDatum feed_lib market_datum ''a'' 0 5 0 = Inr (Some st)" "ls_Protocol st = liqwid_ProtocolName"
    "ls_StateId st = GenerateMarketId [7] [1]" "ls_Slot st = 5"
    using preview_market by blast
  let ?s = "st\<lparr>ls_Network := ''preview'', ls_UpdatedAt := 0\<rparr>"
  have "isLendingAddress (hd GetMarketAddresses) preview_oracle"
    by (simp add: isLendingAddress_def preview_oracle_def NewLendingOracle_def preview_parser NewLiqwidLendingAdapter_def GetMarketAddresses_def)
  then have "handle_lending_utxo preview_env 0 market_ctx market_utxo preview_oracle = record_lending_state preview_env ?s preview_oracle"
    using st(1) by (simp add: handle_lending_utxo_def market_utxo_def market_ctx_def preview_parser NewLiqwidLendingAdapter_def)
  moreover have "lending_ok preview_oracle" by (simp add: preview_oracle_def NewLendingOracle_ok)
  note record_lending_state_ok [OF this, of preview_env ?s]
  moreover have "lo_states preview_oracle = []" "\<not> lo_stopped preview_oracle"
    by (simp_all add: preview_oracle_def NewLendingOracle_def)
  moreover have "LendingState_Key ?s = market_key" using st(2,3) by (simp add: LendingState_Key_def market_key_def)
  ultimately show ?thesis
    using st(4) by (auto simp: lending_HandleChainsyncEvent_def market_tx_def lending_handleTransaction_def producedUTXOs_def)
qed


text \<open>Two states with one identifier under two protocols: the identifier alone finds neither.\<close>

definition two_states :: "(string, LendingState) gomap" where
  "two_states = map (\<lambda>p. (''n:'' @ p @ '':m'', zero_LendingState\<lparr>ls_Network := ''n'', ls_Protocol := p, ls_StateId := ''m''\<rparr>)) [''p'', ''q'']"

end
