(* ===== verification/Spectrum_Models.thy ===== *)
theory Spectrum_Models
  imports Splash
begin

text \<open>
  Spectrum's on-chain data (\<open>internal/spectrum/models.go\<close>): the configurations of a swap, a deposit, a
  redemption and a pool, with their decoders, encoders and texts.

  The decoders of this package do not look at the constructor's tag. A nil \<open>Pkh\<close> (no staking key)
  is \<open>None\<close> and told apart from an empty one, because the encoder does; a nil \<open>*big.Int\<close> is \<open>None\<close>.
\<close>

section \<open>Data\<close>

record SwapConfig =
  sc_Base :: AssetClass
  sc_Quote :: AssetClass
  sc_PoolId :: AssetClass
  sc_FeeNum :: u64
  sc_FeePerTokenNum :: "int option"
  sc_FeePerTokenDen :: "int option"
  sc_RewardPkh :: bytes
  sc_StakePkh :: "bytes option"
  sc_BaseAmount :: u64
  sc_MinQuoteAmount :: u64

record DepositConfig =
  dc_PoolId :: AssetClass
  dc_X :: AssetClass
  dc_Y :: AssetClass
  dc_Lq :: AssetClass
  dc_ExFee :: u64
  dc_RewardPkh :: bytes
  dc_StakePkh :: "bytes option"
  dc_CollateralAda :: u64

record RedeemConfig =
  rc_PoolId :: AssetClass
  rc_X :: AssetClass
  rc_Y :: AssetClass
  rc_Lq :: AssetClass
  rc_ExFee :: u64
  rc_RewardPkh :: bytes
  rc_StakePkh :: "bytes option"

record PoolConfig =
  pc_Nft :: AssetClass
  pc_X :: AssetClass
  pc_Y :: AssetClass
  pc_Lq :: AssetClass
  pc_FeeNum :: u64
  pc_AdminPolicy :: "bytes list"
  pc_LqBound :: u64

section \<open>Codecs\<close>

text \<open>A decoding error or another tag than zero leaves the key nil without an error.\<close>

definition decode_WrappedPkh :: "cbor_lib \<Rightarrow> bytes \<Rightarrow> bytes option option" where
  "decode_WrappedPkh cb data = (case dec_constr cb data of
     None \<Rightarrow> Some None
   | Some (tag, raw) \<Rightarrow>
       if tag \<noteq> 0 then Some None
       else do {
         flds \<leftarrow> dec_struct cb 1 raw;
         pkh \<leftarrow> dec_bytes cb (flds ! 0);
         Some (Some pkh) })"

definition WrappedPkh_MarshalCBOR :: "cbor_enc \<Rightarrow> bytes option \<Rightarrow> bytes" where
  "WrappedPkh_MarshalCBOR e w = (case w of
     Some pkh \<Rightarrow> enc_constr e 0 [enc_bytes e pkh]
   | None \<Rightarrow> enc_constr e 1 [])"

definition decode_spectrum_AssetClass :: "cbor_lib \<Rightarrow> bytes \<Rightarrow> AssetClass option" where
  "decode_spectrum_AssetClass cb data = do {
     (tag, raw) \<leftarrow> dec_constr cb data;
     dec_class cb raw }"

definition spectrum_AssetClass_MarshalCBOR :: "cbor_enc \<Rightarrow> AssetClass \<Rightarrow> bytes" where
  "spectrum_AssetClass_MarshalCBOR e a = enc_constr e 0 [enc_bytes e (PolicyId a), enc_bytes e (Name a)]"

definition decode_SwapConfig :: "cbor_lib \<Rightarrow> bytes \<Rightarrow> SwapConfig option" where
  "decode_SwapConfig cb data = do {
     (tag, raw) \<leftarrow> dec_constr cb data;
     flds \<leftarrow> dec_struct cb 10 raw;
     base \<leftarrow> decode_spectrum_AssetClass cb (flds ! 0);
     quote \<leftarrow> decode_spectrum_AssetClass cb (flds ! 1);
     pool \<leftarrow> decode_spectrum_AssetClass cb (flds ! 2);
     fee \<leftarrow> dec_uint cb (flds ! 3);
     num \<leftarrow> dec_big cb (flds ! 4);
     den \<leftarrow> dec_big cb (flds ! 5);
     reward \<leftarrow> dec_bytes cb (flds ! 6);
     stake \<leftarrow> decode_WrappedPkh cb (flds ! 7);
     baseAmount \<leftarrow> dec_uint cb (flds ! 8);
     minQuote \<leftarrow> dec_uint cb (flds ! 9);
     Some \<lparr>sc_Base = base, sc_Quote = quote, sc_PoolId = pool, sc_FeeNum = fee, sc_FeePerTokenNum = num,
       sc_FeePerTokenDen = den, sc_RewardPkh = reward, sc_StakePkh = stake, sc_BaseAmount = baseAmount,
       sc_MinQuoteAmount = minQuote\<rparr> }"

definition SwapConfig_MarshalCBOR :: "cbor_enc \<Rightarrow> SwapConfig \<Rightarrow> bytes" where
  "SwapConfig_MarshalCBOR e s = enc_constr e 0
     [spectrum_AssetClass_MarshalCBOR e (sc_Base s), spectrum_AssetClass_MarshalCBOR e (sc_Quote s),
      spectrum_AssetClass_MarshalCBOR e (sc_PoolId s), enc_uint e (sc_FeeNum s), enc_big e (sc_FeePerTokenNum s),
      enc_big e (sc_FeePerTokenDen s), enc_bytes e (sc_RewardPkh s), WrappedPkh_MarshalCBOR e (sc_StakePkh s),
      enc_uint e (sc_BaseAmount s), enc_uint e (sc_MinQuoteAmount s)]"

definition decode_DepositConfig :: "cbor_lib \<Rightarrow> bytes \<Rightarrow> DepositConfig option" where
  "decode_DepositConfig cb data = do {
     (tag, raw) \<leftarrow> dec_constr cb data;
     flds \<leftarrow> dec_struct cb 8 raw;
     pool \<leftarrow> decode_spectrum_AssetClass cb (flds ! 0);
     x \<leftarrow> decode_spectrum_AssetClass cb (flds ! 1);
     y \<leftarrow> decode_spectrum_AssetClass cb (flds ! 2);
     lq \<leftarrow> decode_spectrum_AssetClass cb (flds ! 3);
     exFee \<leftarrow> dec_uint cb (flds ! 4);
     reward \<leftarrow> dec_bytes cb (flds ! 5);
     stake \<leftarrow> decode_WrappedPkh cb (flds ! 6);
     collateral \<leftarrow> dec_uint cb (flds ! 7);
     Some \<lparr>dc_PoolId = pool, dc_X = x, dc_Y = y, dc_Lq = lq, dc_ExFee = exFee, dc_RewardPkh = reward,
       dc_StakePkh = stake, dc_CollateralAda = collateral\<rparr> }"

definition DepositConfig_MarshalCBOR :: "cbor_enc \<Rightarrow> DepositConfig \<Rightarrow> bytes" where
  "DepositConfig_MarshalCBOR e d = enc_constr e 0
     [spectrum_AssetClass_MarshalCBOR e (dc_PoolId d), spectrum_AssetClass_MarshalCBOR e (dc_X d),
      spectrum_AssetClass_MarshalCBOR e (dc_Y d), spectrum_AssetClass_MarshalCBOR e (dc_Lq d), enc_uint e (dc_ExFee d),
      enc_bytes e (dc_RewardPkh d), WrappedPkh_MarshalCBOR e (dc_StakePkh d), enc_uint e (dc_CollateralAda d)]"

definition decode_RedeemConfig :: "cbor_lib \<Rightarrow> bytes \<Rightarrow> RedeemConfig option" where
  "decode_RedeemConfig cb data = do {
     (tag, raw) \<leftarrow> dec_constr cb data;
     flds \<leftarrow> dec_struct cb 7 raw;
     pool \<leftarrow> decode_spectrum_AssetClass cb (flds ! 0);
     x \<leftarrow> decode_spectrum_AssetClass cb (flds ! 1);
     y \<leftarrow> decode_spectrum_AssetClass cb (flds ! 2);
     lq \<leftarrow> decode_spectrum_AssetClass cb (flds ! 3);
     exFee \<leftarrow> dec_uint cb (flds ! 4);
     reward \<leftarrow> dec_bytes cb (flds ! 5);
     stake \<leftarrow> decode_WrappedPkh cb (flds ! 6);
     Some \<lparr>rc_PoolId = pool, rc_X = x, rc_Y = y, rc_Lq = lq, rc_ExFee = exFee, rc_RewardPkh = reward,
       rc_StakePkh = stake\<rparr> }"

definition RedeemConfig_MarshalCBOR :: "cbor_enc \<Rightarrow> RedeemConfig \<Rightarrow> bytes" where
  "RedeemConfig_MarshalCBOR e r = enc_constr e 0
     [spectrum_AssetClass_MarshalCBOR e (rc_PoolId r), spectrum_AssetClass_MarshalCBOR e (rc_X r),
      spectrum_AssetClass_MarshalCBOR e (rc_Y r), spectrum_AssetClass_MarshalCBOR e (rc_Lq r), enc_uint e (rc_ExFee r),
      enc_bytes e (rc_RewardPkh r), WrappedPkh_MarshalCBOR e (rc_StakePkh r)]"

definition decode_PoolConfig :: "cbor_lib \<Rightarrow> bytes \<Rightarrow> PoolConfig option" where
  "decode_PoolConfig cb data = do {
     (tag, raw) \<leftarrow> dec_constr cb data;
     flds \<leftarrow> dec_struct cb 7 raw;
     nft \<leftarrow> decode_spectrum_AssetClass cb (flds ! 0);
     x \<leftarrow> decode_spectrum_AssetClass cb (flds ! 1);
     y \<leftarrow> decode_spectrum_AssetClass cb (flds ! 2);
     lq \<leftarrow> decode_spectrum_AssetClass cb (flds ! 3);
     fee \<leftarrow> dec_uint cb (flds ! 4);
     admins \<leftarrow> dec_list cb (flds ! 5);
     policies \<leftarrow> dec_each (dec_bytes cb) admins;
     bound \<leftarrow> dec_uint cb (flds ! 6);
     Some \<lparr>pc_Nft = nft, pc_X = x, pc_Y = y, pc_Lq = lq, pc_FeeNum = fee, pc_AdminPolicy = policies, pc_LqBound = bound\<rparr> }"

definition PoolConfig_MarshalCBOR :: "cbor_enc \<Rightarrow> PoolConfig \<Rightarrow> bytes" where
  "PoolConfig_MarshalCBOR e p =
     (let tmpAdminPolicy =
        (if length (pc_AdminPolicy p) > 0 then enc_indef_list e (map (enc_bytes e) (pc_AdminPolicy p))
         else enc_list e [])
      in enc_constr e 0
           [spectrum_AssetClass_MarshalCBOR e (pc_Nft p), spectrum_AssetClass_MarshalCBOR e (pc_X p),
            spectrum_AssetClass_MarshalCBOR e (pc_Y p), spectrum_AssetClass_MarshalCBOR e (pc_Lq p),
            enc_uint e (pc_FeeNum p), tmpAdminPolicy, enc_uint e (pc_LqBound p)])"

section \<open>Text\<close>

definition spectrum_AssetClass_String :: "AssetClass \<Rightarrow> string" where
  "spectrum_AssetClass_String a =
     ''AssetClass< name = '' @ string_of_bytes (Name a) @ '', policy_id = '' @ hex_encode (PolicyId a) @ '' >''"

text \<open>\<open>%d\<close> of a \<open>*big.Int\<close>, and \<open>%x\<close> of a byte string that may be nil.\<close>

definition show_big :: "int option \<Rightarrow> string" where
  "show_big n = (case n of None \<Rightarrow> ''<nil>'' | Some i \<Rightarrow> show_int i)"

definition show_pkh :: "bytes option \<Rightarrow> string" where
  "show_pkh w = (case w of None \<Rightarrow> [] | Some pkh \<Rightarrow> hex_encode pkh)"

definition SwapConfig_String :: "SwapConfig \<Rightarrow> string" where
  "SwapConfig_String s =
     ''SwapConfig< base = '' @ spectrum_AssetClass_String (sc_Base s) @ '', quote = '' @ spectrum_AssetClass_String (sc_Quote s)
     @ '', pool_id = '' @ spectrum_AssetClass_String (sc_PoolId s) @ '', fee_num = '' @ show_nat (unat (sc_FeeNum s))
     @ '', fee_per_token_num = '' @ show_big (sc_FeePerTokenNum s) @ '', fee_per_token_den = '' @ show_big (sc_FeePerTokenDen s)
     @ '', reward_pkh = '' @ hex_encode (sc_RewardPkh s) @ '', stake_pkh = '' @ show_pkh (sc_StakePkh s)
     @ '', base_amount = '' @ show_nat (unat (sc_BaseAmount s)) @ '', min_quote_amount = '' @ show_nat (unat (sc_MinQuoteAmount s))
     @ '' >''"

definition DepositConfig_String :: "DepositConfig \<Rightarrow> string" where
  "DepositConfig_String d =
     ''DepositConfig< pool_id = '' @ spectrum_AssetClass_String (dc_PoolId d) @ '', x = '' @ spectrum_AssetClass_String (dc_X d)
     @ '', y = '' @ spectrum_AssetClass_String (dc_Y d) @ '', lq = '' @ spectrum_AssetClass_String (dc_Lq d)
     @ '', ex_fee = '' @ show_nat (unat (dc_ExFee d)) @ '', reward_pkh = '' @ hex_encode (dc_RewardPkh d)
     @ '', stake_pkh = '' @ show_pkh (dc_StakePkh d) @ '', collateral_ada = '' @ show_nat (unat (dc_CollateralAda d)) @ '' >''"

definition RedeemConfig_String :: "RedeemConfig \<Rightarrow> string" where
  "RedeemConfig_String r =
     ''RedeemConfig< pool_id = '' @ spectrum_AssetClass_String (rc_PoolId r) @ '', x = '' @ spectrum_AssetClass_String (rc_X r)
     @ '', y = '' @ spectrum_AssetClass_String (rc_Y r) @ '', lq = '' @ spectrum_AssetClass_String (rc_Lq r)
     @ '', ex_fee = '' @ show_nat (unat (rc_ExFee r)) @ '', reward_pkh = '' @ hex_encode (rc_RewardPkh r)
     @ '', stake_pkh = '' @ show_pkh (rc_StakePkh r) @ '' >''"

definition PoolConfig_String :: "PoolConfig \<Rightarrow> string" where
  "PoolConfig_String p =
     ''PoolConfig< nft = '' @ spectrum_AssetClass_String (pc_Nft p) @ '', x = '' @ spectrum_AssetClass_String (pc_X p)
     @ '', y = '' @ spectrum_AssetClass_String (pc_Y p) @ '', lq = '' @ spectrum_AssetClass_String (pc_Lq p)
     @ '', fee_num = '' @ show_nat (unat (pc_FeeNum p))
     @ '', admin_policy = '' @ show_slice (show_slice (\<lambda>b. show_nat (unat b))) (pc_AdminPolicy p)
     @ '', lq_bound = '' @ show_nat (unat (pc_LqBound p)) @ '' >''"

section \<open>Round trips\<close>

lemma spectrum_AssetClass_codec:
  assumes "codec_ok cb e"
  shows "decode_spectrum_AssetClass cb (spectrum_AssetClass_MarshalCBOR e a) = Some a"
proof -
  obtain raw where "dec_constr cb (spectrum_AssetClass_MarshalCBOR e a) = Some (0, raw)"
    and "dec_struct cb 2 raw = Some [enc_bytes e (PolicyId a), enc_bytes e (Name a)]"
    using codec_constr [OF assms, of 0 "[enc_bytes e (PolicyId a), enc_bytes e (Name a)]"]
    by (auto simp: spectrum_AssetClass_MarshalCBOR_def numeral_2_eq_2)
  then show ?thesis
    using assms by (simp add: decode_spectrum_AssetClass_def dec_class_def codec_ok_def)
qed

lemma WrappedPkh_codec:
  assumes "codec_ok cb e"
  shows "decode_WrappedPkh cb (WrappedPkh_MarshalCBOR e w) = Some w"
proof (cases w)
  case None
  obtain raw where "dec_constr cb (enc_constr e 1 []) = Some (1, raw)"
    using codec_constr [OF assms, of 1 "[]"] by blast
  then show ?thesis using None by (simp add: decode_WrappedPkh_def WrappedPkh_MarshalCBOR_def)
next
  case (Some pkh)
  obtain raw where "dec_constr cb (enc_constr e 0 [enc_bytes e pkh]) = Some (0, raw)"
    and "dec_struct cb 1 raw = Some [enc_bytes e pkh]"
    using codec_constr [OF assms, of 0 "[enc_bytes e pkh]"] by auto
  then show ?thesis using Some assms by (simp add: decode_WrappedPkh_def WrappedPkh_MarshalCBOR_def codec_ok_def)
qed

lemma codec_items:
  assumes "codec_ok cb e"
  shows "dec_uint cb (enc_uint e u) = Some u" and "dec_bytes cb (enc_bytes e b) = Some b" and "dec_big cb (enc_big e n) = Some n"
  using assms by (simp_all add: codec_ok_def)

lemmas spectrum_codec = spectrum_AssetClass_codec WrappedPkh_codec codec_items

lemma SwapConfig_codec:
  assumes "codec_ok cb e"
  shows "decode_SwapConfig cb (SwapConfig_MarshalCBOR e s) = Some s"
  by (rule codec_constr [OF assms, of 0 "[spectrum_AssetClass_MarshalCBOR e (sc_Base s), spectrum_AssetClass_MarshalCBOR e (sc_Quote s),
      spectrum_AssetClass_MarshalCBOR e (sc_PoolId s), enc_uint e (sc_FeeNum s), enc_big e (sc_FeePerTokenNum s),
      enc_big e (sc_FeePerTokenDen s), enc_bytes e (sc_RewardPkh s), WrappedPkh_MarshalCBOR e (sc_StakePkh s),
      enc_uint e (sc_BaseAmount s), enc_uint e (sc_MinQuoteAmount s)]"])
    (simp add: decode_SwapConfig_def SwapConfig_MarshalCBOR_def spectrum_codec [OF assms] eval_nat_numeral)

lemma DepositConfig_codec:
  assumes "codec_ok cb e"
  shows "decode_DepositConfig cb (DepositConfig_MarshalCBOR e d) = Some d"
  by (rule codec_constr [OF assms, of 0 "[spectrum_AssetClass_MarshalCBOR e (dc_PoolId d), spectrum_AssetClass_MarshalCBOR e (dc_X d),
      spectrum_AssetClass_MarshalCBOR e (dc_Y d), spectrum_AssetClass_MarshalCBOR e (dc_Lq d), enc_uint e (dc_ExFee d),
      enc_bytes e (dc_RewardPkh d), WrappedPkh_MarshalCBOR e (dc_StakePkh d), enc_uint e (dc_CollateralAda d)]"])
    (simp add: decode_DepositConfig_def DepositConfig_MarshalCBOR_def spectrum_codec [OF assms] eval_nat_numeral)

lemma RedeemConfig_codec:
  assumes "codec_ok cb e"
  shows "decode_RedeemConfig cb (RedeemConfig_MarshalCBOR e r) = Some r"
  by (rule codec_constr [OF assms, of 0 "[spectrum_AssetClass_MarshalCBOR e (rc_PoolId r), spectrum_AssetClass_MarshalCBOR e (rc_X r),
      spectrum_AssetClass_MarshalCBOR e (rc_Y r), spectrum_AssetClass_MarshalCBOR e (rc_Lq r), enc_uint e (rc_ExFee r),
      enc_bytes e (rc_RewardPkh r), WrappedPkh_MarshalCBOR e (rc_StakePkh r)]"])
    (simp add: decode_RedeemConfig_def RedeemConfig_MarshalCBOR_def spectrum_codec [OF assms] eval_nat_numeral)

lemma PoolConfig_codec:
  assumes "codec_ok cb e"
  shows "decode_PoolConfig cb (PoolConfig_MarshalCBOR e p) = Some p"
proof -
  let ?adm = "if length (pc_AdminPolicy p) > 0 then enc_indef_list e (map (enc_bytes e) (pc_AdminPolicy p)) else enc_list e []"
  let ?fs = "[spectrum_AssetClass_MarshalCBOR e (pc_Nft p), spectrum_AssetClass_MarshalCBOR e (pc_X p),
    spectrum_AssetClass_MarshalCBOR e (pc_Y p), spectrum_AssetClass_MarshalCBOR e (pc_Lq p),
    enc_uint e (pc_FeeNum p), ?adm, enc_uint e (pc_LqBound p)]"
  obtain raw where raw: "dec_constr cb (PoolConfig_MarshalCBOR e p) = Some (0, raw)" "dec_struct cb 7 raw = Some ?fs"
    using codec_constr [OF assms, of 0 ?fs] by (auto simp: PoolConfig_MarshalCBOR_def Let_def eval_nat_numeral)
  obtain items where "dec_list cb ?adm = Some items" "dec_each (dec_bytes cb) items = Some (pc_AdminPolicy p)"
    using splash_admins_codec [OF assms, of "pc_AdminPolicy p"] by (auto simp: bind_eq_Some_conv)
  then show ?thesis
    using raw by (simp add: decode_PoolConfig_def spectrum_codec [OF assms])
qed


text \<open>A swap of lovelace for a token, and the pool of the two.\<close>

definition ada_swap :: SwapConfig where
  "ada_swap = \<lparr>sc_Base = Lovelace, sc_Quote = \<lparr>PolicyId = replicate 28 9, Name = [2]\<rparr>, sc_PoolId = \<lparr>PolicyId = [7], Name = [1]\<rparr>,
     sc_FeeNum = 997, sc_FeePerTokenNum = Some 16129032258064517, sc_FeePerTokenDen = Some 1000000000000,
     sc_RewardPkh = [3], sc_StakePkh = None, sc_BaseAmount = 10000000, sc_MinQuoteAmount = 93\<rparr>"

definition ada_pool_config :: PoolConfig where
  "ada_pool_config = \<lparr>pc_Nft = \<lparr>PolicyId = [7], Name = [1]\<rparr>, pc_X = Lovelace, pc_Y = \<lparr>PolicyId = replicate 28 9, Name = [2]\<rparr>,
     pc_Lq = \<lparr>PolicyId = [8], Name = []\<rparr>, pc_FeeNum = 997, pc_AdminPolicy = [[4]], pc_LqBound = 20000000000\<rparr>"


end
