(* ===== verification/Spectrum_Pool.thy ===== *)
theory Spectrum_Pool
  imports Spectrum_Models
begin

text \<open>
  Spectrum pools (\<open>internal/spectrum/pool.go\<close>): a pool read from a transaction output, the amount it
  pays for an input, and what a swap returns to it.

  The package's own \<open>AssetClass\<close> and \<open>AssetAmount\<close> have the fields of the common ones. An output is
  what the ledger library reports of it; a policy id is cut or padded to 28 bytes for the lookup, and
  an output without assets answers zero for every asset. \<open>None\<close> is the panic of an integer division
  by zero.
\<close>

section \<open>Pools\<close>

record spectrum_Pool =
  spool_Id :: AssetClass
  spool_X :: AssetAmount
  spool_Y :: AssetAmount
  spool_Lq :: AssetAmount
  spool_FeeNum :: u64
  spool_Datum :: PoolConfig
  spool_DatumCbor :: bytes

record spectrum_output =
  so_Datum :: "bytes option"
  so_Value :: utxo_value

definition spectrum_feeDenom :: int where
  "spectrum_feeDenom = 1000"

definition zero_amount :: AssetAmount where
  "zero_amount = \<lparr>Class = Lovelace, Amount = 0\<rparr>"

definition NewBlake2b224 :: "bytes \<Rightarrow> bytes" where
  "NewBlake2b224 b = take 28 (b @ replicate 28 0)"

definition getAssetAmountFromTransactionOutput :: "AssetClass \<Rightarrow> utxo_value \<Rightarrow> u64" where
  "getAssetAmountFromTransactionOutput c v =
     (if length (PolicyId c) = 0 then big_Uint64 (uv_Amount v)
      else big_Uint64 (Asset_of (case uv_Assets v of None \<Rightarrow> [] | Some m \<Rightarrow> m) (NewBlake2b224 (PolicyId c)) (Name c)))"

datatype pool_error = NoPoolDatum | PoolDatumDecode | PoolUtxoDecode

definition NewPoolFromTransactionOutput :: "cbor_lib \<Rightarrow> spectrum_output \<Rightarrow> pool_error + spectrum_Pool" where
  "NewPoolFromTransactionOutput cb out = (case so_Datum out of
     None \<Rightarrow> Inl NoPoolDatum
   | Some datum \<Rightarrow> (case decode_PoolConfig cb datum of
       None \<Rightarrow> Inl PoolDatumDecode
     | Some cfg \<Rightarrow>
         (let amt = (\<lambda>c. \<lparr>Class = c, Amount = getAssetAmountFromTransactionOutput c (so_Value out)\<rparr>)
          in Inr \<lparr>spool_Id = pc_Nft cfg, spool_X = amt (pc_X cfg), spool_Y = amt (pc_Y cfg), spool_Lq = amt (pc_Lq cfg),
               spool_FeeNum = pc_FeeNum cfg, spool_Datum = cfg, spool_DatumCbor = datum\<rparr>)))"

text \<open>\<open>storage.Utxo\<close>, decoded from the bytes of the store: its output, when it decodes.\<close>

definition NewPoolFromUtxoBytes :: "cbor_lib \<Rightarrow> (string \<Rightarrow> spectrum_output option) \<Rightarrow> string \<Rightarrow> pool_error + spectrum_Pool" where
  "NewPoolFromUtxoBytes cb dec utxoBytes = (case dec utxoBytes of
     None \<Rightarrow> Inl PoolUtxoDecode
   | Some out \<Rightarrow> NewPoolFromTransactionOutput cb out)"

definition OutputForInput :: "AssetClass \<Rightarrow> u64 \<Rightarrow> spectrum_Pool \<Rightarrow> AssetAmount option" where
  "OutputForInput inputAssetClass inputAmount p =
     (let sides = (if IsAsset (spool_X p) inputAssetClass then Some (spool_X p, spool_Y p)
                   else if IsAsset (spool_Y p) inputAssetClass then Some (spool_Y p, spool_X p)
                   else None)
      in case sides of
           None \<Rightarrow> Some zero_amount
         | Some (inputAsset, outputAsset) \<Rightarrow>
             (let numerator = int (unat (spool_FeeNum p)) * (int (unat (Amount outputAsset)) * int (unat inputAmount));
                  denominator = (int (unat (Amount inputAsset)) + 0) * spectrum_feeDenom
                    + int (unat inputAmount) * int (unat (spool_FeeNum p))
              in if denominator = 0 then None
                 else Some \<lparr>Class = Class outputAsset, Amount = big_Uint64 (numerator div denominator)\<rparr>))"

definition pool_Asset :: "AssetClass \<Rightarrow> spectrum_Pool \<Rightarrow> AssetAmount" where
  "pool_Asset c p =
     (if IsAsset (spool_X p) c then spool_X p else if IsAsset (spool_Y p) c then spool_Y p else zero_amount)"

text \<open>The lovelace and the assets of the new pool output; the error carries the two amounts.\<close>

definition CalculateReturnToPool :: "AssetAmount \<Rightarrow> AssetAmount \<Rightarrow> spectrum_Pool \<Rightarrow> u64 \<times> u64 + u64 \<times> AssetAmount list" where
  "CalculateReturnToPool inputAsset rewardAsset p =
     (let retUnits = [\<lparr>Class = spool_Id p, Amount = 1\<rparr>, spool_Lq p];
          inAsset0 = pool_Asset (Class inputAsset) p;
          inAsset = inAsset0\<lparr>Amount := Amount inAsset0 + Amount inputAsset\<rparr>;
          outAsset0 = pool_Asset (Class rewardAsset) p
      in if Amount outAsset0 < Amount rewardAsset then Inl (Amount outAsset0, Amount rewardAsset)
         else
           (let outAsset = outAsset0\<lparr>Amount := Amount outAsset0 - Amount rewardAsset\<rparr>
            in if amount_IsLovelace inAsset then Inr (Amount inAsset, retUnits @ [outAsset])
               else if amount_IsLovelace outAsset then Inr (Amount outAsset, retUnits @ [inAsset])
               else Inr (0, retUnits)))"

section \<open>Agreement with the oracle's quote\<close>

text \<open>What the oracle's Splash parser reads from an output, the batcher reads too.\<close>

lemma decode_class_agrees: "decode_splash_AssetClass cb x = Some a \<Longrightarrow> decode_spectrum_AssetClass cb x = Some a"
  by (auto simp: decode_splash_AssetClass_def decode_spectrum_AssetClass_def bind_eq_Some_conv split: if_splits)

lemma decode_pool_agrees:
  assumes "decode_splash_PoolDatum cb datum = Some d"
  shows "decode_PoolConfig cb datum = Some \<lparr>pc_Nft = sp_Nft d, pc_X = sp_X d, pc_Y = sp_Y d, pc_Lq = sp_Lq d,
    pc_FeeNum = sp_FeeNum d, pc_AdminPolicy = sp_AdminPolicy d, pc_LqBound = sp_LqBound d\<rparr>"
  using assms
  by (auto simp: decode_splash_PoolDatum_def decode_PoolConfig_def bind_eq_Some_conv dest!: decode_class_agrees split: if_splits)

lemma amounts_agree:
  assumes "getAssetAmount v (PolicyId c) (Name c) = Inr q"
  shows "getAssetAmountFromTransactionOutput c v = q"
proof -
  have h: "c = Lovelace \<or> length (PolicyId c) = 28" "map_option big_Uint64 (held v c) = Some q"
    using assms by (simp_all add: getAssetAmount_Inr_iff)
  show ?thesis
  proof (cases "c = Lovelace")
    case True
    then show ?thesis using h(2) by (simp add: getAssetAmountFromTransactionOutput_def held_def Lovelace_def)
  next
    case False
    then have len: "length (PolicyId c) = 28" using h(1) by simp
    then have "NewBlake2b224 (PolicyId c) = PolicyId c" by (simp add: NewBlake2b224_def)
    moreover have "PolicyId c \<noteq> []" using len by auto
    ultimately show ?thesis
      using h(2) False
      by (auto simp: getAssetAmountFromTransactionOutput_def held_def Asset_of_def bind_eq_Some_conv)
  qed
qed

lemma batcher_reads_pool:
  assumes "splash_ParsePoolDatum cb out datum raw h i s t = Inr q" and "out raw = Some v"
  shows "\<exists>p. NewPoolFromTransactionOutput cb \<lparr>so_Datum = Some datum, so_Value = v\<rparr> = Inr p
    \<and> spool_X p = pp_AssetX q \<and> spool_Y p = pp_AssetY q \<and> spool_FeeNum p = pp_FeeNum q \<and> pp_FeeDenom q = 1000"
proof -
  obtain d where d: "decode_splash_PoolDatum cb datum = Some d"
    using assms(1) by (auto simp: splash_ParsePoolDatum_def split: option.splits)
  then obtain x y where r: "extractReservesFromValue out raw (sp_X d) (sp_Y d) = Inr (x, y)"
    and q: "pp_AssetX q = \<lparr>Class = sp_X d, Amount = x\<rparr>" "pp_AssetY q = \<lparr>Class = sp_Y d, Amount = y\<rparr>"
      "pp_FeeNum q = sp_FeeNum d" "pp_FeeDenom q = 1000"
    using assms(1) by (auto simp: splash_ParsePoolDatum_def Let_def splash_FeeDenom_def split: if_splits sum.splits)
  have "getAssetAmountFromTransactionOutput (sp_X d) v = x" "getAssetAmountFromTransactionOutput (sp_Y d) v = y"
    using r assms(2) by (auto simp: extractReserves_Inr_iff intro: amounts_agree)
  then show ?thesis
    using q by (simp add: NewPoolFromTransactionOutput_def decode_pool_agrees [OF d] Let_def)
qed

lemma word_of_int_nat: "word_of_int (int n) = (word_of_nat n :: u64)"
  by simp

lemma swap_amount:
  assumes "x \<noteq> 0"
  shows "(int (unat x) + 0) * spectrum_feeDenom + int (unat a) * int (unat f) \<noteq> 0"
    and "big_Uint64 (int (unat f) * (int (unat y) * int (unat a)) div ((int (unat x) + 0) * spectrum_feeDenom + int (unat a) * int (unat f)))
      = word_of_nat (unat f * (unat y * unat a) div (unat x * 1000 + unat a * unat f))"
proof -
  have den: "(int (unat x) + 0) * spectrum_feeDenom + int (unat a) * int (unat f) = int (unat x * 1000 + unat a * unat f)"
    by (simp add: spectrum_feeDenom_def)
  have "0 < unat x" using assms by (simp add: unat_gt_0)
  then have "unat x * 1000 + unat a * unat f \<noteq> 0" by linarith
  then show "(int (unat x) + 0) * spectrum_feeDenom + int (unat a) * int (unat f) \<noteq> 0"
    unfolding den by (simp only: of_nat_eq_0_iff not_False_eq_True)
  have "int (unat f) * (int (unat y) * int (unat a)) = int (unat f * (unat y * unat a))" by simp
  then show "big_Uint64 (int (unat f) * (int (unat y) * int (unat a)) div ((int (unat x) + 0) * spectrum_feeDenom + int (unat a) * int (unat f)))
      = word_of_nat (unat f * (unat y * unat a) div (unat x * 1000 + unat a * unat f))"
    unfolding den by (simp only: big_Uint64_def zdiv_int [symmetric] abs_of_nat word_of_int_nat)
qed

text \<open>The amount paid for each side, when its reserve is not zero.\<close>

lemma OutputForInput_X:
  assumes "IsAsset (spool_X p) c" and "Amount (spool_X p) \<noteq> 0"
  shows "OutputForInput c a p = Some \<lparr>Class = Class (spool_Y p), Amount = word_of_nat
    (unat (spool_FeeNum p) * (unat (Amount (spool_Y p)) * unat a) div (unat (Amount (spool_X p)) * 1000 + unat a * unat (spool_FeeNum p)))\<rparr>"
  using assms(1)
  unfolding OutputForInput_def Let_def
  by (simp only: swap_amount(1) [OF assms(2)] swap_amount(2) [OF assms(2)] if_True if_False option.case prod.case)

lemma OutputForInput_Y:
  assumes "\<not> IsAsset (spool_X p) c" and "IsAsset (spool_Y p) c" and "Amount (spool_Y p) \<noteq> 0"
  shows "OutputForInput c a p = Some \<lparr>Class = Class (spool_X p), Amount = word_of_nat
    (unat (spool_FeeNum p) * (unat (Amount (spool_X p)) * unat a) div (unat (Amount (spool_Y p)) * 1000 + unat a * unat (spool_FeeNum p)))\<rparr>"
  using assms(1,2)
  unfolding OutputForInput_def Let_def
  by (simp only: swap_amount(1) [OF assms(3)] swap_amount(2) [OF assms(3)] if_True if_False option.case prod.case)

lemma OutputForInput_quote:
  assumes "Quote st pol nm a = Inr (amountOut, impact)"
    and "spool_X p = AssetX st" and "spool_Y p = AssetY st" and "spool_FeeNum p = FeeNum st" and "FeeDenom st = 1000"
  shows "\<exists>r. OutputForInput \<lparr>PolicyId = pol, Name = nm\<rparr> a p = Some r \<and> Amount r = amountOut"
proof -
  obtain rIn rOut where r: "quote_reserves st pol nm = Some (rIn, rOut)" and pos: "rIn \<noteq> 0" "rOut \<noteq> 0"
    using assms(1) Quote_Inr_iff [of st pol nm a] by auto
  have out: "unat amountOut = cp_out (unat (FeeNum st)) (unat (FeeDenom st)) (unat rIn) (unat rOut) (unat a)"
    using Quote_amount [OF assms(1) r] by simp
  let ?num = "unat (FeeNum st) * (unat rOut * unat a)" and ?den = "unat rIn * 1000 + unat a * unat (FeeNum st)"
  have "unat (FeeDenom st) = 1000" by (simp add: assms(5) unat_numeral)
  then have "unat amountOut = ?num div ?den" using out by (simp add: cp_out_def ac_simps)
  then have amount: "amountOut = word_of_nat (?num div ?den)" by (metis word_of_nat_unat)
  have side: "(IsAsset (spool_X p) \<lparr>PolicyId = pol, Name = nm\<rparr> \<and> Amount (spool_X p) = rIn \<and> Amount (spool_Y p) = rOut)
     \<or> (\<not> IsAsset (spool_X p) \<lparr>PolicyId = pol, Name = nm\<rparr> \<and> IsAsset (spool_Y p) \<lparr>PolicyId = pol, Name = nm\<rparr>
        \<and> Amount (spool_Y p) = rIn \<and> Amount (spool_X p) = rOut)"
    using r unfolding assms(2,3) quote_reserves_def IsAsset_def by (auto split: if_splits)
  from side show ?thesis
  proof
    assume x: "IsAsset (spool_X p) \<lparr>PolicyId = pol, Name = nm\<rparr> \<and> Amount (spool_X p) = rIn \<and> Amount (spool_Y p) = rOut"
    then have "Amount (spool_X p) \<noteq> 0" using pos by simp
    from OutputForInput_X [OF _ this, of "\<lparr>PolicyId = pol, Name = nm\<rparr>" a] x show ?thesis by (simp add: amount assms(4) del: IsAsset_eq)
  next
    assume y: "\<not> IsAsset (spool_X p) \<lparr>PolicyId = pol, Name = nm\<rparr> \<and> IsAsset (spool_Y p) \<lparr>PolicyId = pol, Name = nm\<rparr>
        \<and> Amount (spool_Y p) = rIn \<and> Amount (spool_X p) = rOut"
    then have "Amount (spool_Y p) \<noteq> 0" using pos by simp
    from OutputForInput_Y [OF _ _ this, of "\<lparr>PolicyId = pol, Name = nm\<rparr>" a] y show ?thesis by (simp add: amount assms(4) del: IsAsset_eq)
  qed
qed

text \<open>C11: Wherever the oracle's Splash parser reads a pool from an output, the batcher reads the same pool,
  and it pays for any input exactly what the oracle quotes.\<close>

theorem batcher_pays_oracle_quote:
  assumes "SplashParser_ParsePoolDatum cb out datum raw h i s t = Inr st" and "out raw = Some v"
    and "Quote st pol nm a = Inr (amountOut, impact)"
  shows "\<exists>p r. NewPoolFromTransactionOutput cb \<lparr>so_Datum = Some datum, so_Value = v\<rparr> = Inr p
    \<and> OutputForInput \<lparr>PolicyId = pol, Name = nm\<rparr> a p = Some r \<and> Amount r = amountOut"
proof -
  obtain q where q: "splash_ParsePoolDatum cb out datum raw h i s t = Inr q" "st = to_pool_state q"
    using assms(1) by (auto simp: splash_wrap_iff)
  obtain p where p: "NewPoolFromTransactionOutput cb \<lparr>so_Datum = Some datum, so_Value = v\<rparr> = Inr p"
    "spool_X p = pp_AssetX q" "spool_Y p = pp_AssetY q" "spool_FeeNum p = pp_FeeNum q" "pp_FeeDenom q = 1000"
    using batcher_reads_pool [OF q(1) assms(2)] by blast
  with OutputForInput_quote [OF assms(3), of p] show ?thesis by (auto simp: q(2) to_pool_state_def)
qed

section \<open>Conservation\<close>

lemma CalculateReturn_Inr:
  assumes "CalculateReturnToPool inp rew p = Inr (ada, units)"
  defines "ia \<equiv> pool_Asset (Class inp) p" and "oa \<equiv> pool_Asset (Class rew) p"
  shows "Amount rew \<le> Amount oa"
    and "if Class ia = Lovelace then ada = Amount ia + Amount inp
           \<and> units = [\<lparr>Class = spool_Id p, Amount = 1\<rparr>, spool_Lq p, oa\<lparr>Amount := Amount oa - Amount rew\<rparr>]
         else if Class oa = Lovelace then ada = Amount oa - Amount rew
           \<and> units = [\<lparr>Class = spool_Id p, Amount = 1\<rparr>, spool_Lq p, ia\<lparr>Amount := Amount ia + Amount inp\<rparr>]
         else ada = 0 \<and> units = [\<lparr>Class = spool_Id p, Amount = 1\<rparr>, spool_Lq p]"
  using assms(1) unfolding CalculateReturnToPool_def Let_def ia_def [symmetric] oa_def [symmetric] amount_IsLovelace_def IsLovelace_iff
  by (auto split: if_splits)

section \<open>What the code gets wrong\<close>

text \<open>A pool of two tokens gets neither of its reserves back, nor its lovelace.\<close>

lemma pool_Asset_side: "c \<in> {Class (spool_X p), Class (spool_Y p)} \<Longrightarrow> pool_Asset c p = spool_X p \<or> pool_Asset c p = spool_Y p"
  unfolding pool_Asset_def IsAsset_eq by (metis insertE singletonD)

lemma token_pair_loses_reserves:
  assumes "Class (spool_X p) \<noteq> Lovelace" and "Class (spool_Y p) \<noteq> Lovelace"
    and "Class inp \<in> {Class (spool_X p), Class (spool_Y p)}" and "Class rew \<in> {Class (spool_X p), Class (spool_Y p)}"
    and "Amount rew \<le> Amount (pool_Asset (Class rew) p)"
  shows "CalculateReturnToPool inp rew p = Inr (0, [\<lparr>Class = spool_Id p, Amount = 1\<rparr>, spool_Lq p])"
proof -
  have c: "Class (pool_Asset (Class inp) p) \<noteq> Lovelace" "Class (pool_Asset (Class rew) p) \<noteq> Lovelace"
    using assms(1,2) pool_Asset_side [OF assms(3)] pool_Asset_side [OF assms(4)] by metis+
  show ?thesis
    using assms(5) c by (simp add: CalculateReturnToPool_def Let_def amount_IsLovelace_def IsLovelace_iff not_less)
qed

text \<open>The amount a swap adds to the pool's is not checked: it wraps.\<close>

definition wrapping_pool :: spectrum_Pool where
  "wrapping_pool = \<lparr>spool_Id = \<lparr>PolicyId = [7], Name = [1]\<rparr>, spool_X = \<lparr>Class = Lovelace, Amount = 5000000\<rparr>,
     spool_Y = \<lparr>Class = \<lparr>PolicyId = [9], Name = [2]\<rparr>, Amount = 700\<rparr>, spool_Lq = \<lparr>Class = \<lparr>PolicyId = [8], Name = []\<rparr>, Amount = 1\<rparr>,
     spool_FeeNum = 997, spool_Datum = ada_pool_config, spool_DatumCbor = []\<rparr>"

lemma pool_return_wraps:
  "CalculateReturnToPool \<lparr>Class = \<lparr>PolicyId = [9], Name = [2]\<rparr>, Amount = MaxUint64\<rparr> \<lparr>Class = Lovelace, Amount = 4999999\<rparr> wrapping_pool
     = Inr (1, [\<lparr>Class = \<lparr>PolicyId = [7], Name = [1]\<rparr>, Amount = 1\<rparr>, \<lparr>Class = \<lparr>PolicyId = [8], Name = []\<rparr>, Amount = 1\<rparr>,
         \<lparr>Class = \<lparr>PolicyId = [9], Name = [2]\<rparr>, Amount = 699\<rparr>])"
  by code_simp

text \<open>A pool without the asset of the order, and an order of nothing: the division panics.\<close>

lemma empty_pool_panics:
  assumes "IsAsset (spool_X p) c" and "Amount (spool_X p) = 0"
  shows "OutputForInput c 0 p = None"
  using assms by (simp add: OutputForInput_def Let_def del: IsAsset_eq)

section \<open>A concrete pool\<close>

definition ada_snek_bytes :: bytes where
  "ada_snek_bytes = splash_PoolDatum_MarshalCBOR unary_enc ada_snek_datum"

theorem batcher_pays_oracle_quote_witness:
  "\<exists>st amountOut impact p r.
     SplashParser_ParsePoolDatum unary_lib (\<lambda>_. Some ada_snek_value) ada_snek_bytes [] ''h'' 0 1 0 = Inr st
     \<and> Quote st [] [] 1000000 = Inr (amountOut, impact)
     \<and> NewPoolFromTransactionOutput unary_lib \<lparr>so_Datum = Some ada_snek_bytes, so_Value = ada_snek_value\<rparr> = Inr p
     \<and> OutputForInput \<lparr>PolicyId = [], Name = []\<rparr> 1000000 p = Some r \<and> Amount r = amountOut"
proof -
  note parsed = ada_snek_parsed [of "[]" "''h''" 0 1 0, folded ada_snek_bytes_def]
  obtain st where st: "SplashParser_ParsePoolDatum unary_lib (\<lambda>_. Some ada_snek_value) ada_snek_bytes [] ''h'' 0 1 0 = Inr st"
    and f: "FeeNum st = 997" "FeeDenom st = 1000" "AssetX st = \<lparr>Class = Lovelace, Amount = 5000000\<rparr>"
      "Amount (AssetY st) = 700"
    using parsed by (auto simp: splash_wrap_iff to_pool_state_def)
  have "quote_reserves st [] [] = Some (5000000, 700)"
    using f by (simp add: quote_reserves_def Lovelace_def)
  moreover have "FeeDenom st \<noteq> 0" "FeeNum st \<le> FeeDenom st" "(5000000 :: u64) \<noteq> 0" "(700 :: u64) \<noteq> 0"
    unfolding f by simp_all
  ultimately obtain amountOut impact where q: "Quote st [] [] 1000000 = Inr (amountOut, impact)"
    using Quote_Inr_iff [of st "[]" "[]" 1000000] by (metis surj_pair)
  from batcher_pays_oracle_quote [OF st refl q] st q show ?thesis by blast
qed

end
