(* ===== verification/Spectrum_Swap.thy ===== *)
theory Spectrum_Swap
  imports Spectrum_Pool Wallet_Store
begin

text \<open>
  The swap transaction (\<open>internal/spectrum/tx.go\<close>): reference inputs, collateral, the amounts paid to
  the pool, the trader and the matcher, the input order that the redeemers name, and the checks on
  the built transaction.

  The transaction builder, the wallet's keys, the ledger and the protocol parameters are libraries:
  they are the fields of \<open>swap_env\<close>, given what the code hands to them in a \<open>swap_plan\<close>. The table of
  known reference scripts is an argument too, because its values are only data. \<open>big.Float\<close> is exact
  rational arithmetic rounded to nearest even at the precision Go gives the result.
\<close>

section \<open>Errors as a monad\<close>

definition and_then :: "'e + 'a \<Rightarrow> ('a \<Rightarrow> 'e + 'b) \<Rightarrow> 'e + 'b" where
  "and_then x f = (case x of Inl e \<Rightarrow> Inl e | Inr a \<Rightarrow> f a)"

definition or_fail :: "'a option \<Rightarrow> 'e \<Rightarrow> 'e + 'a" where
  "or_fail x e = (case x of None \<Rightarrow> Inl e | Some a \<Rightarrow> Inr a)"

definition ensure :: "bool \<Rightarrow> 'e \<Rightarrow> 'e + unit" where
  "ensure b e = (if b then Inr () else Inl e)"

lemma and_then_simps [simp]: "and_then (Inl e) f = Inl e" "and_then (Inr a) f = f a"
  by (simp_all add: and_then_def)

lemma and_then_Inr: "and_then x f = Inr b \<longleftrightarrow> (\<exists>a. x = Inr a \<and> f a = Inr b)"
  by (cases x) (simp_all add: and_then_def)

lemma or_fail_Inr: "or_fail x e = Inr a \<longleftrightarrow> x = Some a"
  by (cases x) (simp_all add: or_fail_def)

lemma ensure_Inr: "ensure b e = Inr u \<longleftrightarrow> b"
  by (simp add: ensure_def)

lemmas monad_Inr = and_then_Inr or_fail_Inr ensure_Inr

section \<open>Data\<close>

record wallet_output =
  wo_Amount :: "int option"
  wo_HasAssets :: bool
  wo_AddrType :: nat

record wallet_utxo =
  wu_Id :: "string \<times> u32"
  wu_Output :: "wallet_output option"

record utxo_lib =
  ul_items :: "string \<Rightarrow> string list option"
  ul_input :: "string \<Rightarrow> (string \<times> u32) option"
  ul_output :: "string \<Rightarrow> wallet_output option"

record input_ref =
  ir_TxId :: string
  ir_OutputIdx :: u64

datatype swap_error =
    InvalidReference string
  | UnknownReference string u64
  | InvalidReferenceScript string u64
  | UtxoDecodeFailed
  | WalletReadFailed wallet_error
  | CollateralParamsFailed
  | CollateralPercentInvalid int
  | CollateralOverflow
  | NoCollateral u64
  | SwapDivisionPanic
  | BelowMinQuote u64 u64
  | ExceedsInt64 string u64
  | RewardZero
  | PoolUnderflow u64 u64
  | FeeNumeratorNil
  | FeeDenominatorZero
  | NoOutput string
  | InvalidLovelace string
  | CoinBelowMatcherFee u64 u64
  | LeftoverBelowBase u64 u64
  | RewardOverflow
  | MatcherFeeTooLow u64
  | BadRewardAddress
  | BadPoolAddress
  | BadChangeAddress
  | InputIndexesUnknown
  | DatumDecodeFailed
  | RedeemerFailed
  | WalletKeyFailed
  | BuildFailed
  | InputCount nat
  | PoolInputMissing
  | SwapInputMissing
  | InputOrderChanged
  | SignFailed
  | BuiltTxDecodeFailed

definition swapTxTtlSlots :: u64 where
  "swapTxTtlSlots = 30"

definition swapTxFee :: u64 where
  "swapTxFee = 295000"

section \<open>Reference inputs\<close>

definition to_lower_char :: "char \<Rightarrow> char" where
  "to_lower_char c = (let n = of_char c :: nat in if 65 \<le> n \<and> n \<le> 90 then char_of (n + 32) else c)"

text \<open>The entries that are added to the chain context: the output's id and its script.\<close>

fun newSwapTxChainContext ::
  "(string \<times> string) list \<Rightarrow> input_ref list \<Rightarrow> swap_error + ((bytes \<times> u32) \<times> bytes option) list" where
  "newSwapTxChainContext known [] = Inr []"
| "newSwapTxChainContext known (ref # refs) = (case hex_decode (ir_TxId ref) of
     None \<Rightarrow> Inl (InvalidReference (ir_TxId ref))
   | Some txHash \<Rightarrow>
       if length txHash \<noteq> 32 then Inl (InvalidReference (ir_TxId ref))
       else (case map_of known (map to_lower_char (ir_TxId ref) @ ''.'' @ show_nat (unat (ir_OutputIdx ref))) of
         None \<Rightarrow> Inl (UnknownReference (ir_TxId ref) (ir_OutputIdx ref))
       | Some scriptHex \<Rightarrow>
           and_then (if scriptHex = [] then Inr None
                     else case hex_decode scriptHex of
                       None \<Rightarrow> Inl (InvalidReferenceScript (ir_TxId ref) (ir_OutputIdx ref))
                     | Some script \<Rightarrow> Inr (Some script))
             (\<lambda>scriptRef. and_then (newSwapTxChainContext known refs)
               (\<lambda>rest. Inr (((txHash, ucast (ir_OutputIdx ref)), scriptRef) # rest)))))"

section \<open>Stored outputs\<close>

definition decodeUtxo :: "utxo_lib \<Rightarrow> string \<Rightarrow> swap_error + wallet_utxo" where
  "decodeUtxo lib utxoBytes = (case ul_items lib utxoBytes of
     None \<Rightarrow> Inl UtxoDecodeFailed
   | Some items \<Rightarrow>
       if length items \<noteq> 2 then Inl UtxoDecodeFailed
       else (case ul_input lib (items ! 0) of
         None \<Rightarrow> Inl UtxoDecodeFailed
       | Some input \<Rightarrow> (case ul_output lib (items ! 1) of
           None \<Rightarrow> Inl UtxoDecodeFailed
         | Some output \<Rightarrow> Inr \<lparr>wu_Id = input, wu_Output = Some output\<rparr>)))"

fun decode_utxos :: "utxo_lib \<Rightarrow> string list \<Rightarrow> swap_error + wallet_utxo list" where
  "decode_utxos lib [] = Inr []"
| "decode_utxos lib (b # bs) = and_then (decodeUtxo lib b) (\<lambda>u. and_then (decode_utxos lib bs) (\<lambda>us. Inr (u # us)))"

definition utxoLovelace :: "wallet_utxo \<Rightarrow> string \<Rightarrow> swap_error + u64" where
  "utxoLovelace utxo label = (case wu_Output utxo of
     None \<Rightarrow> Inl (NoOutput label)
   | Some out \<Rightarrow> (case wo_Amount out of
       None \<Rightarrow> Inl (InvalidLovelace label)
     | Some amount \<Rightarrow>
         if 0 \<le> amount \<and> amount < 2 ^ 64 then Inr (word_of_int amount) else Inl (InvalidLovelace label)))"

definition uint64ToInt64 :: "string \<Rightarrow> u64 \<Rightarrow> swap_error + int" where
  "uint64ToInt64 label amount =
     (if int (unat amount) > MaxInt64 then Inl (ExceedsInt64 label amount) else Inr (int (unat amount)))"

section \<open>Collateral\<close>

text \<open>The collateral percentage of the protocol parameters, \<open>None\<close> when they cannot be loaded.\<close>

definition requiredCollateralLovelace :: "int option \<Rightarrow> u64 \<Rightarrow> swap_error + u64" where
  "requiredCollateralLovelace params fee = (case params of
     None \<Rightarrow> Inl CollateralParamsFailed
   | Some collateralPercent \<Rightarrow>
       if collateralPercent \<le> 0 then Inl (CollateralPercentInvalid collateralPercent)
       else let percent = word_of_int collateralPercent :: u64
            in if fee > (MaxUint64 - 99) div percent then Inl CollateralOverflow
               else Inr ((fee * percent + 99) div 100))"

text \<open>Address types: 0 has a payment and a staking key, 6 a payment key only.\<close>

definition AddressTypeKeyKey :: nat where
  "AddressTypeKeyKey = 0"

definition AddressTypeKeyNone :: nat where
  "AddressTypeKeyNone = 6"

fun select_collateral :: "u64 \<Rightarrow> (wallet_utxo \<times> u64) option \<Rightarrow> wallet_utxo list \<Rightarrow> (wallet_utxo \<times> u64) option" where
  "select_collateral minLovelace sel [] = sel"
| "select_collateral minLovelace sel (utxo # utxos) = select_collateral minLovelace
     (case wu_Output utxo of
        None \<Rightarrow> sel
      | Some out \<Rightarrow>
          if wo_HasAssets out then sel
          else if wo_AddrType out \<noteq> AddressTypeKeyKey \<and> wo_AddrType out \<noteq> AddressTypeKeyNone then sel
          else (case utxoLovelace utxo ''collateral UTxO'' of
            Inl _ \<Rightarrow> sel
          | Inr amount \<Rightarrow>
              if amount < minLovelace then sel
              else (case sel of
                None \<Rightarrow> Some (utxo, amount)
              | Some (_, selectedAmount) \<Rightarrow> if amount < selectedAmount then Some (utxo, amount) else sel)))
     utxos"

definition selectCollateralUtxo :: "wallet_utxo list \<Rightarrow> u64 \<Rightarrow> swap_error + wallet_utxo" where
  "selectCollateralUtxo utxos minLovelace = (case select_collateral minLovelace None utxos of
     Some (selected, _) \<Rightarrow> Inr selected
   | None \<Rightarrow> Inl (NoCollateral minLovelace))"

section \<open>The matcher's fee\<close>

text \<open>Rounding to a mantissa of \<open>p\<close> bits, and the conversion back to \<open>uint64\<close>.\<close>

definition bf_round :: "nat \<Rightarrow> rat \<Rightarrow> rat" where
  "bf_round p x = (if x = 0 then 0
     else let e = ilog2 \<bar>x\<bar> - int (p - 1) in sgn x * (of_int (rne (\<bar>x\<bar> / pow2 e)) * pow2 e))"

definition bf_prec :: "int \<Rightarrow> nat" where
  "bf_prec n = max 64 (bit_length (nat \<bar>n\<bar>))"

definition bf_Uint64 :: "rat \<Rightarrow> u64" where
  "bf_Uint64 x = (if x < 1 then 0 else if 2 ^ 64 \<le> x then MaxUint64 else word_of_int \<lfloor>x\<rfloor>)"

definition matcher_fee :: "u64 \<Rightarrow> int \<Rightarrow> int \<Rightarrow> u64" where
  "matcher_fee minQuoteAmount feeNum feeDen =
     (let p = max 64 (bf_prec feeNum);
          prod = bf_round p (of_nat (unat minQuoteAmount) * of_int feeNum);
          q = max p (bf_prec feeDen)
      in bf_Uint64 (bf_round q (prod / of_int feeDen)))"

section \<open>The amounts\<close>

record swap_split =
  sa_poolLovelace :: int
  sa_poolUnits :: "(AssetClass \<times> int) list"
  sa_rewardLovelace :: int
  sa_rewardUnits :: "(AssetClass \<times> int) list"
  sa_matcherChange :: int

fun pool_return_units :: "AssetAmount list \<Rightarrow> swap_error + (AssetClass \<times> int) list" where
  "pool_return_units [] = Inr []"
| "pool_return_units (a # as) = and_then (uint64ToInt64 ''pool return asset amount'' (Amount a))
     (\<lambda>n. and_then (pool_return_units as) (\<lambda>us. Inr ((Class a, n) # us)))"

definition swap_amounts :: "spectrum_Pool \<Rightarrow> SwapConfig \<Rightarrow> wallet_utxo \<Rightarrow> swap_error + swap_split" where
  "swap_amounts p cfg swapUtxo =
     and_then (or_fail (OutputForInput (sc_Base cfg) (sc_BaseAmount cfg) p) SwapDivisionPanic) (\<lambda>rewardAsset.
     and_then (ensure (\<not> Amount rewardAsset < sc_MinQuoteAmount cfg) (BelowMinQuote (Amount rewardAsset) (sc_MinQuoteAmount cfg))) (\<lambda>_.
     and_then (if amount_IsLovelace rewardAsset then Inr (Amount rewardAsset, [])
               else and_then (uint64ToInt64 ''reward asset amount'' (Amount rewardAsset))
                 (\<lambda>n. Inr (0, [(Class rewardAsset, n)]))) (\<lambda>(rewardLovelace, rewardUnits).
     and_then (ensure (Amount rewardAsset \<noteq> 0) RewardZero) (\<lambda>_.
     and_then (case CalculateReturnToPool \<lparr>Class = sc_Base cfg, Amount = sc_BaseAmount cfg\<rparr> rewardAsset p of
                 Inl (have, want) \<Rightarrow> Inl (PoolUnderflow have want)
               | Inr r \<Rightarrow> Inr r) (\<lambda>(poolReturnLovelace, poolReturnAssets).
     and_then (pool_return_units poolReturnAssets) (\<lambda>poolReturnUnits.
     and_then (or_fail (sc_FeePerTokenNum cfg) FeeNumeratorNil) (\<lambda>feeNum.
     and_then (case sc_FeePerTokenDen cfg of
                 None \<Rightarrow> Inl FeeDenominatorZero
               | Some d \<Rightarrow> if d = 0 then Inl FeeDenominatorZero else Inr d) (\<lambda>feeDen.
     let matcherFee = matcher_fee (sc_MinQuoteAmount cfg) feeNum feeDen in
     and_then (utxoLovelace swapUtxo ''swap UTxO'') (\<lambda>swapUtxoCoin.
     and_then (ensure (\<not> swapUtxoCoin < matcherFee) (CoinBelowMatcherFee swapUtxoCoin matcherFee)) (\<lambda>_.
     let leftover = swapUtxoCoin - matcherFee in
     and_then (if length (PolicyId (sc_Base cfg)) = 0
               then (if leftover < sc_BaseAmount cfg then Inl (LeftoverBelowBase leftover (sc_BaseAmount cfg))
                     else Inr (leftover - sc_BaseAmount cfg))
               else Inr leftover) (\<lambda>leftoverSwapLovelace.
     and_then (ensure (\<not> rewardLovelace > MaxUint64 - leftoverSwapLovelace) RewardOverflow) (\<lambda>_.
     let rewardLovelace' = rewardLovelace + leftoverSwapLovelace in
     and_then (ensure (\<not> matcherFee \<le> swapTxFee) (MatcherFeeTooLow matcherFee)) (\<lambda>_.
     and_then (uint64ToInt64 ''pool return lovelace'' poolReturnLovelace) (\<lambda>poolReturnLovelaceInt.
     and_then (uint64ToInt64 ''reward lovelace'' rewardLovelace') (\<lambda>rewardLovelaceInt.
     and_then (uint64ToInt64 ''matcher fee change'' (matcherFee - swapTxFee)) (\<lambda>matcherChange.
       Inr \<lparr>sa_poolLovelace = poolReturnLovelaceInt, sa_poolUnits = poolReturnUnits,
            sa_rewardLovelace = rewardLovelaceInt, sa_rewardUnits = rewardUnits,
            sa_matcherChange = matcherChange\<rparr>))))))))))))))))"

section \<open>Input order\<close>

text \<open>The position of an input among others, \<open>-1\<close> when it is not there.\<close>

fun index_from :: "int \<Rightarrow> ('a \<Rightarrow> bool) \<Rightarrow> 'a list \<Rightarrow> int" where
  "index_from i p [] = - 1"
| "index_from i p (x # xs) = (if p x then i else index_from (i + 1) p xs)"

definition sortedInputIndex :: "(wallet_utxo list \<Rightarrow> wallet_utxo list) \<Rightarrow> wallet_utxo list \<Rightarrow> string \<times> u32 \<Rightarrow> int" where
  "sortedInputIndex SortInputs utxos txInput = index_from 0 (\<lambda>u. wu_Id u = txInput) (SortInputs utxos)"

definition transactionInputIndex :: "(string \<times> u32) list \<Rightarrow> string \<times> u32 \<Rightarrow> int" where
  "transactionInputIndex inputs txInput = index_from 0 (\<lambda>i. i = txInput) inputs"

definition validateSwapTxInputs ::
  "(string \<times> u32) list \<Rightarrow> string \<times> u32 \<Rightarrow> string \<times> u32 \<Rightarrow> int \<Rightarrow> int \<Rightarrow> swap_error + unit" where
  "validateSwapTxInputs inputs poolInput swapInput datumPoolInputIdx datumSwapInputIdx =
     (if length inputs \<noteq> 2 then Inl (InputCount (length inputs))
      else let poolInputIdx = transactionInputIndex inputs poolInput
      in if poolInputIdx < 0 then Inl PoolInputMissing
      else let swapInputIdx = transactionInputIndex inputs swapInput
      in if swapInputIdx < 0 then Inl SwapInputMissing
      else if poolInputIdx \<noteq> datumPoolInputIdx \<or> swapInputIdx \<noteq> datumSwapInputIdx then Inl InputOrderChanged
      else Inr ())"

section \<open>The transaction\<close>

text \<open>What the builder is given, in the order of the calls.\<close>

record swap_plan =
  pl_ChangeAddress :: string
  pl_Collateral :: wallet_utxo
  pl_Ttl :: int
  pl_PoolAddress :: string
  pl_PoolDatum :: bytes
  pl_PoolLovelace :: int
  pl_PoolUnits :: "(AssetClass \<times> int) list"
  pl_RewardAddress :: string
  pl_RewardLovelace :: int
  pl_RewardUnits :: "(AssetClass \<times> int) list"
  pl_MatcherChange :: int
  pl_References :: "input_ref list"
  pl_PoolInput :: wallet_utxo
  pl_PoolRedeemer :: bytes
  pl_SwapInput :: wallet_utxo
  pl_SwapRedeemer :: bytes
  pl_Fee :: u64

record 'tx swap_env =
  sw_known :: "(string \<times> string) list"
  sw_lib :: utxo_lib
  sw_PaymentAddress :: string
  sw_collateralPercent :: "int option"
  sw_fromParts :: "(nat \<Rightarrow> bytes \<Rightarrow> bytes \<Rightarrow> string option) option"
  sw_addressOk :: "string \<Rightarrow> bool"
  sw_now :: int
  sw_ShelleyOffsetSlot :: u64
  sw_ShelleyOffsetTime :: int
  sw_SortInputs :: "wallet_utxo list \<Rightarrow> wallet_utxo list"
  sw_decodeDatum :: "bytes \<Rightarrow> bytes option"
  sw_redeemer :: "int list \<Rightarrow> bytes option"
  sw_walletOk :: bool
  sw_referenceOk :: "input_ref \<Rightarrow> bool"
  sw_build :: "swap_plan \<Rightarrow> 'tx option"
  sw_inputs :: "'tx \<Rightarrow> (string \<times> u32) list"
  sw_sign :: "'tx \<Rightarrow> 'tx option"
  sw_cbor :: "'tx \<Rightarrow> bytes option"
  sw_decodeTx :: "bytes \<Rightarrow> (string \<times> u32) list option"

definition addressFromKeys :: "'tx swap_env \<Rightarrow> bytes \<Rightarrow> bytes \<Rightarrow> string" where
  "addressFromKeys env paymentKey stakeKey = (case sw_fromParts env of
     None \<Rightarrow> []
   | Some fromParts \<Rightarrow>
       (case fromParts (if length stakeKey > 0 then AddressTypeKeyKey else AddressTypeKeyNone) paymentKey stakeKey of
          None \<Rightarrow> []
        | Some addr \<Rightarrow> addr))"

definition unixTimeToSlot :: "'tx swap_env \<Rightarrow> int \<Rightarrow> u64" where
  "unixTimeToSlot env unixTime = sw_ShelleyOffsetSlot env + word_of_int (unixTime - sw_ShelleyOffsetTime env)"

record createSwapTxOpts =
  op_poolUtxoBytes :: string
  op_pool :: spectrum_Pool
  op_swapUtxoBytes :: string
  op_swapConfig :: SwapConfig
  op_outputPoolAddress :: string
  op_poolInputRef :: input_ref

text \<open>The inputs and the collateral.\<close>

definition gather_swap_inputs :: "'tx swap_env \<Rightarrow> input_ref \<Rightarrow> createSwapTxOpts \<Rightarrow> kv_store \<Rightarrow> swap_error + wallet_utxo \<times> wallet_utxo \<times> wallet_utxo" where
  "gather_swap_inputs env swapInputRef opts db =
     and_then (newSwapTxChainContext (sw_known env) [op_poolInputRef opts, swapInputRef]) (\<lambda>_.
     and_then (decodeUtxo (sw_lib env) (op_poolUtxoBytes opts)) (\<lambda>poolUtxo.
     and_then (decodeUtxo (sw_lib env) (op_swapUtxoBytes opts)) (\<lambda>swapUtxo.
     and_then (case GetUtxos (sw_PaymentAddress env) db of Inl e \<Rightarrow> Inl (WalletReadFailed e) | Inr bs \<Rightarrow> Inr bs) (\<lambda>utxosBytes.
     and_then (decode_utxos (sw_lib env) utxosBytes) (\<lambda>utxos.
     and_then (requiredCollateralLovelace (sw_collateralPercent env) swapTxFee) (\<lambda>requiredCollateral.
     and_then (selectCollateralUtxo utxos requiredCollateral) (\<lambda>collateralUtxo.
       Inr (poolUtxo, swapUtxo, collateralUtxo))))))))"

text \<open>The plan: everything up to the builder.\<close>

definition swap_transaction_plan :: "'tx swap_env \<Rightarrow> input_ref \<Rightarrow> createSwapTxOpts \<Rightarrow> kv_store \<Rightarrow> swap_error + swap_plan \<times> int \<times> int" where
  "swap_transaction_plan env swapInputRef opts db =
     and_then (gather_swap_inputs env swapInputRef opts db) (\<lambda>(poolUtxo, swapUtxo, collateralUtxo).
     and_then (swap_amounts (op_pool opts) (op_swapConfig opts) swapUtxo) (\<lambda>amounts.
     let rewardAddress = addressFromKeys env (sc_RewardPkh (op_swapConfig opts))
           (case sc_StakePkh (op_swapConfig opts) of None \<Rightarrow> [] | Some pkh \<Rightarrow> pkh) in
     and_then (ensure (sw_addressOk env rewardAddress) BadRewardAddress) (\<lambda>_.
     and_then (ensure (sw_addressOk env (op_outputPoolAddress opts)) BadPoolAddress) (\<lambda>_.
     and_then (ensure (sw_addressOk env (sw_PaymentAddress env)) BadChangeAddress) (\<lambda>_.
     let currentSlot = unixTimeToSlot env (sw_now env);
         inputUtxos = [poolUtxo, swapUtxo];
         datumPoolInputIdx = sortedInputIndex (sw_SortInputs env) inputUtxos (wu_Id poolUtxo);
         datumSwapInputIdx = sortedInputIndex (sw_SortInputs env) inputUtxos (wu_Id swapUtxo) in
     and_then (ensure (\<not> (datumPoolInputIdx < 0 \<or> datumSwapInputIdx < 0)) InputIndexesUnknown) (\<lambda>_.
     and_then (or_fail (sw_decodeDatum env (spool_DatumCbor (op_pool opts))) DatumDecodeFailed) (\<lambda>poolDatum.
     and_then (or_fail (sw_redeemer env [2, datumPoolInputIdx]) RedeemerFailed) (\<lambda>poolRedeemer.
     and_then (or_fail (sw_redeemer env [datumPoolInputIdx, datumSwapInputIdx, 1, 0]) RedeemerFailed) (\<lambda>swapRedeemer.
     and_then (ensure (sw_walletOk env) WalletKeyFailed) (\<lambda>_.
     and_then (ensure (sw_referenceOk env (op_poolInputRef opts) \<and> sw_referenceOk env swapInputRef) BuildFailed) (\<lambda>_.
       Inr (\<lparr>pl_ChangeAddress = sw_PaymentAddress env, pl_Collateral = collateralUtxo,
             pl_Ttl = sint (currentSlot + swapTxTtlSlots), pl_PoolAddress = op_outputPoolAddress opts,
             pl_PoolDatum = poolDatum, pl_PoolLovelace = sa_poolLovelace amounts, pl_PoolUnits = sa_poolUnits amounts,
             pl_RewardAddress = rewardAddress, pl_RewardLovelace = sa_rewardLovelace amounts,
             pl_RewardUnits = sa_rewardUnits amounts, pl_MatcherChange = sa_matcherChange amounts,
             pl_References = [op_poolInputRef opts, swapInputRef], pl_PoolInput = poolUtxo,
             pl_PoolRedeemer = poolRedeemer, pl_SwapInput = swapUtxo, pl_SwapRedeemer = swapRedeemer,
             pl_Fee = swapTxFee\<rparr>, datumPoolInputIdx, datumSwapInputIdx))))))))))))"

text \<open>The rest: building, checking, signing, and checking what will be sent.\<close>

definition createSwapTx :: "'tx swap_env \<Rightarrow> input_ref \<Rightarrow> createSwapTxOpts \<Rightarrow> kv_store \<Rightarrow> swap_error + bytes" where
  "createSwapTx env swapInputRef opts db =
     and_then (swap_transaction_plan env swapInputRef opts db) (\<lambda>(plan, poolIdx, swapIdx).
     and_then (or_fail (sw_build env plan) BuildFailed) (\<lambda>tx.
     and_then (validateSwapTxInputs (sw_inputs env tx) (wu_Id (pl_PoolInput plan)) (wu_Id (pl_SwapInput plan)) poolIdx swapIdx) (\<lambda>_.
     and_then (or_fail (sw_sign env tx) SignFailed) (\<lambda>tx'.
     and_then (or_fail (sw_cbor env tx') SignFailed) (\<lambda>txBytes.
     and_then (or_fail (sw_decodeTx env txBytes) BuiltTxDecodeFailed) (\<lambda>decoded.
     and_then (validateSwapTxInputs decoded (wu_Id (pl_PoolInput plan)) (wu_Id (pl_SwapInput plan)) poolIdx swapIdx) (\<lambda>_.
       Inr txBytes)))))))"

section \<open>What a successful swap pays\<close>

lemma OutputForInput_class:
  assumes "OutputForInput c a p = Some r"
  shows "if Class (spool_X p) = c then Class r = Class (spool_Y p)
         else if Class (spool_Y p) = c then Class r = Class (spool_X p) else r = zero_amount"
  using assms by (auto simp: OutputForInput_def Let_def split: if_splits)

text \<open>The trader's lovelace, before the proceeds of a sale for lovelace.\<close>

definition swap_leftover :: "SwapConfig \<Rightarrow> u64 \<Rightarrow> u64 \<Rightarrow> u64" where
  "swap_leftover cfg coin mf = coin - mf - (if PolicyId (sc_Base cfg) = [] then sc_BaseAmount cfg else 0)"

lemma swap_amounts_Inr:
  assumes "swap_amounts p cfg u = Inr s"
  shows "\<exists>r ada units feeNum feeDen coin.
    OutputForInput (sc_Base cfg) (sc_BaseAmount cfg) p = Some r
    \<and> sc_MinQuoteAmount cfg \<le> Amount r \<and> Amount r \<noteq> 0
    \<and> CalculateReturnToPool \<lparr>Class = sc_Base cfg, Amount = sc_BaseAmount cfg\<rparr> r p = Inr (ada, units)
    \<and> pool_return_units units = Inr (sa_poolUnits s)
    \<and> sc_FeePerTokenNum cfg = Some feeNum \<and> sc_FeePerTokenDen cfg = Some feeDen \<and> feeDen \<noteq> 0
    \<and> utxoLovelace u ''swap UTxO'' = Inr coin
    \<and> (let mf = matcher_fee (sc_MinQuoteAmount cfg) feeNum feeDen;
           rl = (if amount_IsLovelace r then Amount r else 0)
       in mf \<le> coin \<and> swapTxFee < mf \<and> (PolicyId (sc_Base cfg) = [] \<longrightarrow> sc_BaseAmount cfg \<le> coin - mf)
          \<and> rl \<le> MaxUint64 - swap_leftover cfg coin mf
          \<and> sa_rewardUnits s = (if amount_IsLovelace r then [] else [(Class r, int (unat (Amount r)))])
          \<and> sa_poolLovelace s = int (unat ada) \<and> sa_rewardLovelace s = int (unat (rl + swap_leftover cfg coin mf))
          \<and> sa_matcherChange s = int (unat (mf - swapTxFee)))"
  using assms
  unfolding swap_amounts_def Let_def split_beta monad_Inr
  apply (elim exE conjE)
  subgoal for r u1 z u2 z2 punits feeNum feeDen coin
    apply (rule exI [of _ r], rule exI [of _ "fst z2"], rule exI [of _ "snd z2"],
      rule exI [of _ feeNum], rule exI [of _ feeDen], rule exI [of _ coin])
    apply (cases z; cases z2)
    apply (auto simp: monad_Inr uint64ToInt64_def swap_leftover_def not_less not_le split: if_splits sum.splits option.splits)
    done
  done

definition units_of :: "AssetClass \<Rightarrow> (AssetClass \<times> int) list \<Rightarrow> int" where
  "units_of c us = sum_list (map snd (filter (\<lambda>x. fst x = c) us))"

lemma pool_return_units_Inr: "pool_return_units as = Inr us \<Longrightarrow> us = map (\<lambda>a. (Class a, int (unat (Amount a)))) as"
  by (induction as arbitrary: us) (auto simp: monad_Inr uint64ToInt64_def split: if_splits)

lemma plus_exact: "unat a + unat b < 2 ^ 64 \<Longrightarrow> uint (a + b) = uint a + uint (b :: u64)"
  by (rule uint_plus_simple) (simp add: no_olen_add_nat word_le_nat_alt unat_word_ariths)

lemma minus_exact: "b \<le> a \<Longrightarrow> uint (a - b) = uint a - uint (b :: u64)"
  by (rule uint_minus_simple_alt [THEN iffD1])

lemma reward_exact: "rl \<le> MaxUint64 - left \<Longrightarrow> uint (rl + left) = uint rl + uint left"
proof -
  assume a: "rl \<le> MaxUint64 - left"
  have m: "unat MaxUint64 = 2 ^ 64 - 1" by (simp add: MaxUint64_def unsigned_minus_1_eq_mask mask_eq_exp_minus_1)
  have "unat (MaxUint64 - left) = unat MaxUint64 - unat left"
    by (rule unat_sub) (simp add: MaxUint64_def)
  moreover have "unat left < 2 ^ 64" using unsigned_less [of left] by simp
  moreover have "unat rl \<le> unat (MaxUint64 - left)" using a by (simp only: word_le_nat_alt)
  ultimately have "unat rl + unat left < 2 ^ 64" using m by linarith
  then show ?thesis by (rule plus_exact)
qed

text \<open>Both sides of a pool of lovelace and one token.\<close>

definition ada_token_pool :: "spectrum_Pool \<Rightarrow> AssetClass \<Rightarrow> bool" where
  "ada_token_pool p token \<longleftrightarrow> PolicyId token \<noteq> [] \<and> token \<noteq> spool_Id p \<and> token \<noteq> Class (spool_Lq p)
     \<and> {Class (spool_X p), Class (spool_Y p)} = {Lovelace, token}"

lemma ada_token_sides:
  assumes "ada_token_pool p token"
  shows "Class (spool_X p) = Lovelace \<and> Class (spool_Y p) = token \<or> Class (spool_X p) = token \<and> Class (spool_Y p) = Lovelace"
    and "token \<noteq> Lovelace"
  using assms by (auto simp: ada_token_pool_def doubleton_eq_iff Lovelace_def)

lemma pool_Asset_class:
  assumes "ada_token_pool p token" and "c \<in> {Lovelace, token}"
  shows "Class (pool_Asset c p) = c"
  using ada_token_sides [OF assms(1)] assms(2) by (auto simp: pool_Asset_def)

lemma swap_sides:
  assumes p: "ada_token_pool p token" and r: "OutputForInput c a p = Some r" "Amount r \<noteq> 0"
  shows "c = Lovelace \<and> Class r = token \<or> c = token \<and> Class r = Lovelace"
  using OutputForInput_class [OF r(1)] ada_token_sides [OF p] r(2)
  by (auto simp: zero_amount_def split: if_splits)

text \<open>C12: In a pool of lovelace and one token, a swap loses nothing: the lovelace paid to the pool, the trader
  and the matcher, with the fee, are the pool's reserve and the order's coin; the tokens paid to the
  pool and the trader are the reserve and what the order sells; and the trader gets at least the
  minimum the order asks for. (The pool's new reserve must fit 64 bits: the code does not check it.)\<close>

theorem swap_conserves_value:
  assumes "swap_amounts p cfg u = Inr s" and "ada_token_pool p token"
    and "utxoLovelace u ''swap UTxO'' = Inr coin"
    and "unat (Amount (pool_Asset (sc_Base cfg) p)) + unat (sc_BaseAmount cfg) < 2 ^ 64"
  shows "sa_poolLovelace s + sa_rewardLovelace s + sa_matcherChange s + int (unat swapTxFee)
      = int (unat (Amount (pool_Asset Lovelace p))) + int (unat coin)
    \<and> units_of token (sa_poolUnits s @ sa_rewardUnits s)
      = int (unat (Amount (pool_Asset token p))) + (if sc_Base cfg = token then int (unat (sc_BaseAmount cfg)) else 0)
    \<and> int (unat (sc_MinQuoteAmount cfg)) \<le> (if sc_Base cfg = token then sa_rewardLovelace s else units_of token (sa_rewardUnits s))
    \<and> 0 < sa_matcherChange s"
proof -
  obtain r ada units feeNum feeDen where
    r: "OutputForInput (sc_Base cfg) (sc_BaseAmount cfg) p = Some r" "sc_MinQuoteAmount cfg \<le> Amount r" "Amount r \<noteq> 0"
    and ret: "CalculateReturnToPool \<lparr>Class = sc_Base cfg, Amount = sc_BaseAmount cfg\<rparr> r p = Inr (ada, units)"
    and units: "pool_return_units units = Inr (sa_poolUnits s)"
    and pay: "let mf = matcher_fee (sc_MinQuoteAmount cfg) feeNum feeDen;
           rl = (if amount_IsLovelace r then Amount r else 0)
       in mf \<le> coin \<and> swapTxFee < mf \<and> (PolicyId (sc_Base cfg) = [] \<longrightarrow> sc_BaseAmount cfg \<le> coin - mf)
          \<and> rl \<le> MaxUint64 - swap_leftover cfg coin mf
          \<and> sa_rewardUnits s = (if amount_IsLovelace r then [] else [(Class r, int (unat (Amount r)))])
          \<and> sa_poolLovelace s = int (unat ada) \<and> sa_rewardLovelace s = int (unat (rl + swap_leftover cfg coin mf))
          \<and> sa_matcherChange s = int (unat (mf - swapTxFee))"
    using swap_amounts_Inr [OF assms(1)] unfolding assms(3) sum.inject by blast
  define mf where "mf = matcher_fee (sc_MinQuoteAmount cfg) feeNum feeDen"
  have fee: "mf \<le> coin" "swapTxFee < mf" "sa_matcherChange s = int (unat mf) - int (unat swapTxFee)"
    and ada: "sa_poolLovelace s = int (unat ada)"
    using pay unfolding Let_def mf_def [symmetric] by (simp_all add: minus_exact less_imp_le)
  have pos: "0 < sa_matcherChange s" using fee(2,3) by (simp add: word_less_def)
  note mp = pool_return_units_Inr [OF units]
  note sides = ada_token_sides [OF assms(2)]
  have nid: "token \<noteq> spool_Id p" "token \<noteq> Class (spool_Lq p)" "PolicyId token \<noteq> []"
    using assms(2) by (simp_all add: ada_token_pool_def)
  from swap_sides [OF assms(2) r(1,3)] show ?thesis
  proof
    assume b: "sc_Base cfg = Lovelace \<and> Class r = token"
    have base: "sc_BaseAmount cfg \<le> coin - mf" "sa_rewardUnits s = [(token, int (unat (Amount r)))]"
      "sa_rewardLovelace s = int (unat (coin - mf - sc_BaseAmount cfg))"
      using pay b sides(2) unfolding Let_def mf_def [symmetric]
      by (simp_all add: amount_IsLovelace_def IsLovelace_iff swap_leftover_def Lovelace_def)
    have pool: "ada = Amount (pool_Asset Lovelace p) + sc_BaseAmount cfg" "Amount r \<le> Amount (pool_Asset token p)"
      "units = [\<lparr>Class = spool_Id p, Amount = 1\<rparr>, spool_Lq p, (pool_Asset token p)\<lparr>Amount := Amount (pool_Asset token p) - Amount r\<rparr>]"
      using CalculateReturn_Inr [OF ret] b pool_Asset_class [OF assms(2)] by simp_all
    have "uint ada = uint (Amount (pool_Asset Lovelace p)) + uint (sc_BaseAmount cfg)"
      unfolding pool(1) using assms(4) b by (intro plus_exact) simp
    then show ?thesis
      using fee ada base pool(2) r(2) pos b sides(2) nid mp
      by (simp add: minus_exact pool(3) units_of_def pool_Asset_class [OF assms(2)] word_le_def)
  next
    assume b: "sc_Base cfg = token \<and> Class r = Lovelace"
    have base: "sa_rewardUnits s = []" "sa_rewardLovelace s = int (unat (Amount r)) + int (unat coin) - int (unat mf)"
      using pay b sides(2) nid(3) fee(1) unfolding Let_def mf_def [symmetric]
      by (simp_all add: amount_IsLovelace_def IsLovelace_iff swap_leftover_def reward_exact minus_exact)
    have pool: "ada = Amount (pool_Asset Lovelace p) - Amount r" "Amount r \<le> Amount (pool_Asset Lovelace p)"
      "units = [\<lparr>Class = spool_Id p, Amount = 1\<rparr>, spool_Lq p, (pool_Asset token p)\<lparr>Amount := Amount (pool_Asset token p) + sc_BaseAmount cfg\<rparr>]"
      using CalculateReturn_Inr [OF ret] b pool_Asset_class [OF assms(2)] sides(2) by simp_all
    have "uint (Amount (pool_Asset token p) + sc_BaseAmount cfg) = uint (Amount (pool_Asset token p)) + uint (sc_BaseAmount cfg)"
      using assms(4) b by (intro plus_exact) simp
    moreover have "uint mf \<le> uint coin" "uint (sc_MinQuoteAmount cfg) \<le> uint (Amount r)"
      using fee(1) r(2) by (simp_all add: word_le_def)
    ultimately show ?thesis
      using fee ada base pool(2) pos b sides(2) nid mp
      by (simp add: minus_exact pool(1,3) units_of_def pool_Asset_class [OF assms(2)])
  qed
qed

section \<open>The matcher's fee is its exact quotient\<close>

lemma rne_ge: "of_int n \<le> x \<Longrightarrow> n \<le> rne x"
  using floor_mono [of "of_int n" x] by (simp add: rne_def Let_def)

lemma rne_le:
  assumes "x \<le> of_int n"
  shows "rne x \<le> n"
proof (cases "x = of_int n")
  case False
  then have "\<lfloor>x\<rfloor> < n" using assms by (simp add: floor_less_iff)
  then show ?thesis by (auto simp: rne_def Let_def)
qed simp

lemma int_multiple_of_pow2: "e \<le> 0 \<Longrightarrow> \<exists>k. of_int n = of_int k * pow2 e"
proof -
  assume e: "e \<le> 0"
  have "pow2 (- e) = of_int (2 ^ nat (- e))" using e by (simp add: pow2_def)
  moreover have "pow2 (- e) * pow2 e = 1" using pow2_add [of "- e" e] by (simp add: pow2_def)
  ultimately have "of_int n = (of_int (n * 2 ^ nat (- e)) :: rat) * pow2 e"
    by (metis mult.assoc mult.right_neutral of_int_mult)
  then show ?thesis by blast
qed

text \<open>A mantissa of 64 bits or more keeps a value below \<open>2 ^ 64\<close> between its floor and its ceiling.\<close>

lemma bf_round_between:
  assumes "64 \<le> p" and "0 \<le> x" and "x < 2 ^ 64"
  shows "of_int \<lfloor>x\<rfloor> \<le> bf_round p x \<and> bf_round p x \<le> of_int \<lceil>x\<rceil>"
proof (cases "x = 0")
  case True
  then show ?thesis by (simp add: bf_round_def)
next
  case False
  then have "0 < x" using assms(2) by simp
  have "pow2 (ilog2 x) < pow2 64" using ilog2_bounds [OF \<open>0 < x\<close>] assms(3) by (simp add: pow2_def)
  then have e: "ilog2 x - int (p - 1) \<le> 0" using assms(1) by (simp add: pow2_less_iff)
  let ?e = "ilog2 x - int (p - 1)"
  have r: "bf_round p x = of_int (rne (x / pow2 ?e)) * pow2 ?e"
    using \<open>0 < x\<close> by (simp add: bf_round_def Let_def)
  have pp: "0 < pow2 ?e" by simp
  obtain k where k: "of_int \<lfloor>x\<rfloor> = of_int k * pow2 ?e" using int_multiple_of_pow2 [OF e] by blast
  obtain l where l: "of_int \<lceil>x\<rceil> = of_int l * pow2 ?e" using int_multiple_of_pow2 [OF e] by blast
  have "of_int k * pow2 ?e \<le> x" "x \<le> of_int l * pow2 ?e" unfolding k [symmetric] l [symmetric] by simp_all
  then have "of_int k \<le> x / pow2 ?e" "x / pow2 ?e \<le> of_int l"
    using pp by (simp_all add: pos_le_divide_eq pos_divide_le_eq)
  then have "k \<le> rne (x / pow2 ?e)" "rne (x / pow2 ?e) \<le> l" by (simp_all only: rne_ge rne_le)
  then have "of_int k * pow2 ?e \<le> of_int (rne (x / pow2 ?e)) * pow2 ?e"
      "of_int (rne (x / pow2 ?e)) * pow2 ?e \<le> of_int l * pow2 ?e"
    using pp by (simp_all add: mult_right_mono)
  then show ?thesis unfolding r k l by simp
qed

lemma bf_Uint64_between:
  assumes "of_int a \<le> x" and "x \<le> of_int b" and "0 \<le> a" and "b < 2 ^ 64"
  shows "a \<le> uint (bf_Uint64 x) \<and> uint (bf_Uint64 x) \<le> b"
proof (cases "x < 1")
  case True
  then have "a < 1" using assms(1) by (metis le_less_trans of_int_less_1_iff)
  moreover have "0 \<le> b" using assms(1-3) by (metis of_int_0_le_iff order_trans)
  ultimately show ?thesis using True assms(3) by (simp add: bf_Uint64_def)
next
  case False
  have u: "x < 2 ^ 64"
    using assms(2,4) by (metis le_less_trans of_int_less_iff of_int_numeral of_int_power)
  have f: "a \<le> \<lfloor>x\<rfloor>" "\<lfloor>x\<rfloor> \<le> b" "0 \<le> \<lfloor>x\<rfloor>" "\<lfloor>x\<rfloor> < 2 ^ 64"
    using assms by (simp_all add: le_floor_iff floor_le_iff)
  have "bf_Uint64 x = word_of_int \<lfloor>x\<rfloor>" using u False by (simp add: bf_Uint64_def)
  moreover have "uint (word_of_int \<lfloor>x\<rfloor> :: u64) = \<lfloor>x\<rfloor>"
    using f(3,4) by (simp add: uint_word_of_int)
  ultimately show ?thesis using f by simp
qed

lemma matcher_fee_between:
  assumes "0 \<le> feeNum" and "0 < feeDen" and "int (unat q) * feeNum < 2 ^ 64"
  shows "\<lfloor>of_int (int (unat q) * feeNum) / of_int feeDen :: rat\<rfloor> \<le> int (unat (matcher_fee q feeNum feeDen))
    \<and> int (unat (matcher_fee q feeNum feeDen)) \<le> \<lceil>of_int (int (unat q) * feeNum) / of_int feeDen :: rat\<rceil>"
proof -
  let ?n = "int (unat q) * feeNum"
  let ?x = "of_int ?n / of_int feeDen :: rat"
  define p where "p = max 64 (bf_prec feeNum)"
  have n0: "0 \<le> ?n" using assms(1) by simp
  have nl: "(of_int ?n :: rat) < 2 ^ 64"
    using assms(3) by (metis of_int_less_iff of_int_numeral of_int_power)
  have prod: "bf_round p (of_nat (unat q) * of_int feeNum) = of_int ?n"
  proof -
    have "(0 :: rat) \<le> of_int ?n" using n0 by (simp only: of_int_0_le_iff)
    moreover have "64 \<le> p" by (simp add: p_def)
    ultimately have "bf_round p (of_int ?n) = of_int ?n"
      using bf_round_between [OF _ _ nl, of p] by (simp only: floor_of_int ceiling_of_int order.antisym)
    then show ?thesis by (simp only: of_int_mult of_int_of_nat_eq)
  qed
  have nd: "(0 :: rat) \<le> of_int ?n" "(1 :: rat) \<le> of_int feeDen"
    using n0 assms(2) by (simp_all only: of_int_0_le_iff of_int_1_le_iff int_one_le_iff_zero_less)
  have shrink: "0 \<le> a / b \<and> a / b \<le> a" if "0 \<le> a" "1 \<le> b" for a b :: rat
    using that mult_left_mono [of 1 b a] by (simp add: divide_le_eq)
  have x: "0 \<le> ?x" "?x \<le> of_int ?n"
    using shrink [OF nd] by blast+
  then have xl: "?x < 2 ^ 64" using nl by linarith
  define r where "r = bf_round (max p (bf_prec feeDen)) ?x"
  have r: "of_int \<lfloor>?x\<rfloor> \<le> r" "r \<le> of_int \<lceil>?x\<rceil>"
    using bf_round_between [of "max p (bf_prec feeDen)" ?x] x(1) xl by (simp_all add: r_def p_def)
  have fee: "matcher_fee q feeNum feeDen = bf_Uint64 r"
    unfolding matcher_fee_def Let_def p_def [symmetric] prod r_def ..
  have "\<lceil>?x\<rceil> \<le> ?n" using x(2) by (simp only: ceiling_le_iff)
  then have c: "\<lceil>?x\<rceil> < 2 ^ 64" using assms(3) by linarith
  have "0 \<le> \<lfloor>?x\<rfloor>" using x(1) by simp
  from bf_Uint64_between [OF r this c]
  show ?thesis by (simp add: fee)
qed


section \<open>Collateral\<close>

text \<open>Outputs that can be collateral: only lovelace, at an address of the wallet's kind, enough of it.\<close>

definition collateral_amount :: "u64 \<Rightarrow> wallet_utxo \<Rightarrow> u64 option" where
  "collateral_amount minLovelace utxo = (case wu_Output utxo of
     None \<Rightarrow> None
   | Some out \<Rightarrow>
       if wo_HasAssets out \<or> wo_AddrType out \<notin> {AddressTypeKeyKey, AddressTypeKeyNone} then None
       else (case utxoLovelace utxo ''collateral UTxO'' of
         Inl _ \<Rightarrow> None
       | Inr amount \<Rightarrow> if amount < minLovelace then None else Some amount))"

text \<open>Keeping the element of the smallest amount.\<close>

definition keep_smaller :: "('a \<Rightarrow> 'b :: linorder option) \<Rightarrow> ('a \<times> 'b) option \<Rightarrow> 'a \<Rightarrow> ('a \<times> 'b) option" where
  "keep_smaller f sel x = (case f x of
     None \<Rightarrow> sel
   | Some amount \<Rightarrow> (case sel of
       None \<Rightarrow> Some (x, amount)
     | Some (u, a) \<Rightarrow> if amount < a then Some (x, amount) else sel))"

lemma smallest_none:
  "fold (\<lambda>u s. keep_smaller f s u) us sel = None \<longleftrightarrow> sel = None \<and> (\<forall>u\<in>set us. f u = None)"
  by (induction us arbitrary: sel) (auto simp: keep_smaller_def split: option.splits)

lemma smallest_origin:
  "fold (\<lambda>u s. keep_smaller f s u) us sel = Some (u, a) \<Longrightarrow> u \<in> set us \<and> f u = Some a \<or> sel = Some (u, a)"
proof (induction us arbitrary: sel)
  case (Cons x us)
  have "keep_smaller f sel x = Some (u, a) \<Longrightarrow> sel = Some (u, a) \<or> u = x \<and> f x = Some a"
    by (auto simp: keep_smaller_def split: option.splits if_splits)
  moreover have "u \<in> set us \<and> f u = Some a \<or> keep_smaller f sel x = Some (u, a)"
    using Cons by (simp only: fold_simps comp_apply)
  ultimately show ?case by auto
qed simp

lemma keep_smaller_le:
  "sel = Some (v, b) \<or> f x = Some b \<Longrightarrow> \<exists>w c. keep_smaller f sel x = Some (w, c) \<and> c \<le> b"
  by (auto simp: keep_smaller_def split: option.splits)

lemma smallest_least:
  assumes "fold (\<lambda>u s. keep_smaller f s u) us sel = Some (u, a)"
  shows "(sel = Some (v, b) \<longrightarrow> a \<le> b) \<and> (v \<in> set us \<and> f v = Some b \<longrightarrow> a \<le> b)"
  using assms
proof (induction us arbitrary: sel v b)
  case (Cons x us)
  have ih: "c \<le> b \<Longrightarrow> keep_smaller f sel x = Some (w, c) \<Longrightarrow> a \<le> b" for w b c
    using Cons.IH [of "keep_smaller f sel x" w c] Cons.prems by (simp only: fold_simps comp_apply) (meson order_trans)
  have rest: "v \<in> set us \<Longrightarrow> f v = Some b \<Longrightarrow> a \<le> b"
    using Cons.IH [of "keep_smaller f sel x" v b] Cons.prems by (simp only: fold_simps comp_apply)
  have "sel = Some (v, b) \<Longrightarrow> a \<le> b" "v = x \<Longrightarrow> f v = Some b \<Longrightarrow> a \<le> b"
    using keep_smaller_le [of sel v b f x] ih by blast+
  with rest show ?case by (metis set_ConsD)
qed simp

lemma select_collateral_fold: "select_collateral m sel us = fold (\<lambda>u s. keep_smaller (collateral_amount m) s u) us sel"
  by (induction us arbitrary: sel)
    (auto simp: keep_smaller_def collateral_amount_def split: option.splits sum.splits if_splits)

text \<open>The collateral is the smallest of the wallet's outputs that hold only lovelace, enough of it, at a key
  address; there is an error exactly when the wallet has none.\<close>

lemma collateral_is_smallest_sufficient:
  "case selectCollateralUtxo utxos m of
     Inl e \<Rightarrow> e = NoCollateral m \<and> (\<forall>u\<in>set utxos. collateral_amount m u = None)
   | Inr u \<Rightarrow> u \<in> set utxos \<and> (\<exists>a. collateral_amount m u = Some a
       \<and> (\<forall>v\<in>set utxos. \<forall>b. collateral_amount m v = Some b \<longrightarrow> a \<le> b))"
  using smallest_none [of "collateral_amount m" utxos None] smallest_origin [of "collateral_amount m" utxos None]
    smallest_least [of "collateral_amount m" utxos None]
  by (fastforce simp: selectCollateralUtxo_def select_collateral_fold split: option.splits)

text \<open>The amount required is the fee's percentage rounded up, whenever the parameters allow it.\<close>

lemma required_collateral_exact:
  assumes "requiredCollateralLovelace (Some pct) fee = Inr c" and "pct < 2 ^ 64"
  shows "int (unat c) = (int (unat fee) * pct + 99) div 100"
proof -
  have pct: "0 < pct" "\<not> fee > (MaxUint64 - 99) div word_of_int pct" "c = (fee * word_of_int pct + 99) div 100"
    using assms(1) by (simp_all add: requiredCollateralLovelace_def Let_def split: if_splits)
  define w where "w = (word_of_int pct :: u64)"
  have w: "uint w = pct" using pct(1) assms(2) by (simp add: w_def uint_word_of_int)
  have m: "uint (MaxUint64 - 99 :: u64) = 2 ^ 64 - 100" by (simp add: MaxUint64_def uint_word_ariths)
  have "uint fee \<le> (2 ^ 64 - 100) div pct"
    using pct(2) unfolding w_def [symmetric] not_less word_le_def uint_div m w .
  then have "uint fee * pct \<le> (2 ^ 64 - 100) div pct * pct" using pct(1) by (simp add: mult_right_mono)
  also have "\<dots> \<le> 2 ^ 64 - 100" using pct(1) using minus_mod_eq_div_mult [of "2 ^ 64 - 100" pct] pos_mod_sign [OF pct(1), of "2 ^ 64 - 100"] by linarith
  finally have le: "uint fee * pct + 99 < 2 ^ 64" by simp
  have "uint (fee * w + 99) = (uint fee * pct + 99) mod 2 ^ 64"
    by (simp add: uint_word_ariths w mod_simps)
  also have "\<dots> = uint fee * pct + 99" using le pct(1) by (simp add: mod_pos_pos_trivial)
  finally show ?thesis using pct(3) by (simp add: w_def uint_div)
qed

section \<open>The inputs of the transaction that is sent\<close>

lemma index_from_found:
  assumes "0 \<le> i" and "\<not> index_from i p xs < 0"
  shows "i \<le> index_from i p xs \<and> nat (index_from i p xs - i) < length xs \<and> p (xs ! nat (index_from i p xs - i))"
  using assms
proof (induction xs arbitrary: i)
  case (Cons x xs)
  show ?case
  proof (cases "p x")
    case False
    with Cons have "i + 1 \<le> index_from (i + 1) p xs \<and> nat (index_from (i + 1) p xs - (i + 1)) < length xs
        \<and> p (xs ! nat (index_from (i + 1) p xs - (i + 1)))" by simp
    moreover have "nat (index_from (i + 1) p xs - i) = Suc (nat (index_from (i + 1) p xs - (i + 1)))"
      using calculation by linarith
    ultimately show ?thesis using False by simp
  qed simp
qed simp

lemma validateSwapTxInputs_Inr:
  assumes "validateSwapTxInputs inputs a b i j = Inr u"
  shows "length inputs = 2 \<and> 0 \<le> i \<and> 0 \<le> j \<and> nat i < 2 \<and> nat j < 2 \<and> inputs ! nat i = a \<and> inputs ! nat j = b"
proof -
  have h: "length inputs = 2" "transactionInputIndex inputs a = i" "transactionInputIndex inputs b = j" "\<not> i < 0" "\<not> j < 0"
    using assms by (simp_all add: validateSwapTxInputs_def Let_def split: if_splits)
  from index_from_found [of 0 "\<lambda>x. x = a" inputs] index_from_found [of 0 "\<lambda>x. x = b" inputs] h
  show ?thesis by (simp add: transactionInputIndex_def)
qed

lemma plan_Inr:
  assumes "swap_transaction_plan env ref opts db = Inr (plan, i, j)"
  shows "sw_redeemer env [2, i] = Some (pl_PoolRedeemer plan) \<and> sw_redeemer env [i, j, 1, 0] = Some (pl_SwapRedeemer plan)
    \<and> (\<exists>us required amounts. selectCollateralUtxo us required = Inr (pl_Collateral plan)
         \<and> requiredCollateralLovelace (sw_collateralPercent env) swapTxFee = Inr required
         \<and> swap_amounts (op_pool opts) (op_swapConfig opts) (pl_SwapInput plan) = Inr amounts
         \<and> pl_PoolLovelace plan = sa_poolLovelace amounts \<and> pl_PoolUnits plan = sa_poolUnits amounts
         \<and> pl_RewardLovelace plan = sa_rewardLovelace amounts \<and> pl_RewardUnits plan = sa_rewardUnits amounts
         \<and> pl_MatcherChange plan = sa_matcherChange amounts \<and> pl_Fee plan = swapTxFee)
    \<and> decodeUtxo (sw_lib env) (op_poolUtxoBytes opts) = Inr (pl_PoolInput plan)
    \<and> decodeUtxo (sw_lib env) (op_swapUtxoBytes opts) = Inr (pl_SwapInput plan)"
  using assms unfolding swap_transaction_plan_def gather_swap_inputs_def Let_def split_beta monad_Inr
  apply (elim exE conjE)
  apply (simp only: sum.inject prod.inject)
  apply (elim conjE)
  apply hypsubst
  apply (simp only: swap_plan.simps fst_conv snd_conv)
  apply blast
  done

text \<open>C14: The transaction that is sent spends the pool and the order, and nothing else, at the positions its
  redeemers name; its collateral is the one chosen for the fee, and its outputs and fee are the
  amounts of the swap.\<close>

theorem sent_swap_is_as_planned:
  assumes "createSwapTx env ref opts db = Inr txBytes"
  shows "\<exists>inputs poolUtxo swapUtxo plan i j amounts.
    sw_decodeTx env txBytes = Some inputs \<and> length inputs = 2
    \<and> decodeUtxo (sw_lib env) (op_poolUtxoBytes opts) = Inr poolUtxo \<and> inputs ! i = wu_Id poolUtxo \<and> i < 2
    \<and> decodeUtxo (sw_lib env) (op_swapUtxoBytes opts) = Inr swapUtxo \<and> inputs ! j = wu_Id swapUtxo \<and> j < 2
    \<and> sw_redeemer env [2, int i] = Some (pl_PoolRedeemer plan)
    \<and> sw_redeemer env [int i, int j, 1, 0] = Some (pl_SwapRedeemer plan)
    \<and> swap_amounts (op_pool opts) (op_swapConfig opts) swapUtxo = Inr amounts
    \<and> pl_PoolLovelace plan = sa_poolLovelace amounts \<and> pl_PoolUnits plan = sa_poolUnits amounts
    \<and> pl_RewardLovelace plan = sa_rewardLovelace amounts \<and> pl_RewardUnits plan = sa_rewardUnits amounts
    \<and> pl_MatcherChange plan = sa_matcherChange amounts \<and> pl_Fee plan = swapTxFee
    \<and> (\<exists>tx tx'. sw_build env plan = Some tx \<and> sw_sign env tx = Some tx' \<and> sw_cbor env tx' = Some txBytes)"
proof -
  obtain plan i j tx tx' inputs u where p: "swap_transaction_plan env ref opts db = Inr (plan, i, j)"
    and tx: "sw_build env plan = Some tx" "sw_sign env tx = Some tx'" "sw_cbor env tx' = Some txBytes"
    and d: "sw_decodeTx env txBytes = Some inputs"
    and v: "validateSwapTxInputs inputs (wu_Id (pl_PoolInput plan)) (wu_Id (pl_SwapInput plan)) i j = Inr u"
    using assms unfolding createSwapTx_def monad_Inr split_beta by (metis sum.inject(2) prod.collapse)
  note n = validateSwapTxInputs_Inr [OF v]
  then have ij: "i = int (nat i)" "j = int (nat j)" by simp_all
  note q = plan_Inr [OF p [unfolded ij [symmetric]], folded ij]
  show ?thesis
    apply (rule exI [of _ inputs], rule exI [of _ "pl_PoolInput plan"], rule exI [of _ "pl_SwapInput plan"],
      rule exI [of _ plan], rule exI [of _ "nat i"], rule exI [of _ "nat j"])
    using n q tx d unfolding ij [symmetric] by blast
qed

section \<open>A concrete swap\<close>

text \<open>An order that sells one ADA to the pool, asking for a hundred tokens at least.\<close>

definition buy_order :: SwapConfig where
  "buy_order = ada_swap\<lparr>sc_Quote := \<lparr>PolicyId = [9], Name = [2]\<rparr>, sc_BaseAmount := 1000000, sc_MinQuoteAmount := 100,
     sc_FeePerTokenNum := Some 5000, sc_FeePerTokenDen := Some 1\<rparr>"

definition ada_output :: "int \<Rightarrow> wallet_output" where
  "ada_output n = \<lparr>wo_Amount = Some n, wo_HasAssets = False, wo_AddrType = AddressTypeKeyNone\<rparr>"

definition order_utxo :: wallet_utxo where
  "order_utxo = \<lparr>wu_Id = (''b2'', 1), wu_Output = Some (ada_output 2000000)\<rparr>"

definition buy_amounts :: swap_split where
  "buy_amounts = \<lparr>sa_poolLovelace = 6000000,
     sa_poolUnits = [(\<lparr>PolicyId = [7], Name = [1]\<rparr>, 1), (\<lparr>PolicyId = [8], Name = []\<rparr>, 1), (\<lparr>PolicyId = [9], Name = [2]\<rparr>, 584)],
     sa_rewardLovelace = 500000, sa_rewardUnits = [(\<lparr>PolicyId = [9], Name = [2]\<rparr>, 116)], sa_matcherChange = 205000\<rparr>"

lemma buy_order_fee: "matcher_fee 100 5000 1 = 500000"
  using matcher_fee_between [of 5000 1 100] by (simp add: word_uint_eq_iff)

lemma buy_order_fields [simp]:
  "sc_Base buy_order = Lovelace" "sc_BaseAmount buy_order = 1000000" "sc_MinQuoteAmount buy_order = 100"
  "sc_FeePerTokenNum buy_order = Some 5000" "sc_FeePerTokenDen buy_order = Some 1"
  by (simp_all add: buy_order_def ada_swap_def)

lemma buy_order_reward:
  "OutputForInput Lovelace 1000000 wrapping_pool = Some \<lparr>Class = \<lparr>PolicyId = [9], Name = [2]\<rparr>, Amount = 116\<rparr>"
  using OutputForInput_X [of wrapping_pool Lovelace 1000000]
  by (simp add: wrapping_pool_def)

lemma buy_order_return:
  "CalculateReturnToPool \<lparr>Class = Lovelace, Amount = 1000000\<rparr> \<lparr>Class = \<lparr>PolicyId = [9], Name = [2]\<rparr>, Amount = 116\<rparr> wrapping_pool
     = Inr (6000000, [\<lparr>Class = \<lparr>PolicyId = [7], Name = [1]\<rparr>, Amount = 1\<rparr>, \<lparr>Class = \<lparr>PolicyId = [8], Name = []\<rparr>, Amount = 1\<rparr>,
         \<lparr>Class = \<lparr>PolicyId = [9], Name = [2]\<rparr>, Amount = 584\<rparr>])"
  by code_simp

lemma buy_order_coin: "utxoLovelace order_utxo ''swap UTxO'' = Inr 2000000"
  by code_simp

lemma buy_order_amounts: "swap_amounts wrapping_pool buy_order order_utxo = Inr buy_amounts"
  by (simp add: swap_amounts_def Let_def buy_order_fee buy_order_reward [unfolded Lovelace_def]
      buy_order_return [unfolded Lovelace_def] buy_order_coin or_fail_def
      ensure_def amount_IsLovelace_def IsLovelace_iff uint64ToInt64_def MaxInt64_def swapTxFee_def MaxUint64_def
      buy_amounts_def Lovelace_def)


theorem swap_conserves_value_witness:
  "sa_poolLovelace buy_amounts + sa_rewardLovelace buy_amounts + sa_matcherChange buy_amounts + 295000 = 5000000 + 2000000
   \<and> units_of \<lparr>PolicyId = [9], Name = [2]\<rparr> (sa_poolUnits buy_amounts @ sa_rewardUnits buy_amounts) = 700"
proof -
  have "ada_token_pool wrapping_pool \<lparr>PolicyId = [9], Name = [2]\<rparr>" by code_simp
  moreover have "uint swapTxFee = 295000" by code_simp
  moreover have
    "pool_Asset Lovelace wrapping_pool = \<lparr>Class = Lovelace, Amount = 5000000\<rparr>"
    "pool_Asset \<lparr>PolicyId = [9], Name = [2]\<rparr> wrapping_pool = \<lparr>Class = \<lparr>PolicyId = [9], Name = [2]\<rparr>, Amount = 700\<rparr>"
    by code_simp+
  ultimately show ?thesis
    using swap_conserves_value [OF buy_order_amounts _ buy_order_coin, of "\<lparr>PolicyId = [9], Name = [2]\<rparr>"]
    by (simp add: Lovelace_def)
qed

definition demo_lib :: utxo_lib where
  "demo_lib = \<lparr>ul_items = (\<lambda>b. Some [b, b]),
     ul_input = (\<lambda>b. if b = ''pool'' then Some (''a1'', 0) else if b = ''order'' then Some (''b2'', 1) else Some (''c3'', 0)),
     ul_output = (\<lambda>b. if b = ''pool'' then Some (ada_output 5000000) else if b = ''order'' then Some (ada_output 2000000)
       else Some (ada_output 6000000))\<rparr>"

definition pool_ref :: input_ref where
  "pool_ref = \<lparr>ir_TxId = concat (replicate 32 ''ab''), ir_OutputIdx = 0\<rparr>"

definition demo_env :: "(string \<times> u32) list swap_env" where
  "demo_env = \<lparr>sw_known = [(ir_TxId pool_ref @ ''.0'', [])], sw_lib = demo_lib, sw_PaymentAddress = ''addr'', sw_collateralPercent = Some 150,
     sw_fromParts = Some (\<lambda>_ _ _. Some ''trader''), sw_addressOk = (\<lambda>_. True), sw_now = 1700000000,
     sw_ShelleyOffsetSlot = 4492800, sw_ShelleyOffsetTime = 1596059091, sw_SortInputs = rev,
     sw_decodeDatum = Some, sw_redeemer = (\<lambda>ns. Some (map word_of_int ns)), sw_walletOk = True, sw_referenceOk = (\<lambda>_. True),
     sw_build = (\<lambda>plan. Some [wu_Id (pl_SwapInput plan), wu_Id (pl_PoolInput plan)]), sw_inputs = id, sw_sign = Some,
     sw_cbor = (\<lambda>_. Some [1]), sw_decodeTx = (\<lambda>_. Some [(''b2'', 1), (''a1'', 0)])\<rparr>"

definition demo_opts :: createSwapTxOpts where
  "demo_opts = \<lparr>op_poolUtxoBytes = ''pool'', op_pool = wrapping_pool, op_swapUtxoBytes = ''order'', op_swapConfig = buy_order,
     op_outputPoolAddress = ''pooladdr'', op_poolInputRef = pool_ref\<rparr>"

definition demo_wallet :: kv_store where
  "demo_wallet = [(addressKey ''addr'', ''c3.0''), (utxoKey ''c3.0'', ''mine'')]"

lemma demo_context:
  "newSwapTxChainContext [(ir_TxId pool_ref @ ''.0'', [])] [pool_ref, pool_ref] = Inr (replicate 2 ((replicate 32 171, 0), None))"
  by code_simp

lemma demo_decoded:
  "decodeUtxo demo_lib ''pool'' = Inr \<lparr>wu_Id = (''a1'', 0), wu_Output = Some (ada_output 5000000)\<rparr>"
  "decodeUtxo demo_lib ''order'' = Inr order_utxo"
  "decodeUtxo demo_lib ''mine'' = Inr \<lparr>wu_Id = (''c3'', 0), wu_Output = Some (ada_output 6000000)\<rparr>"
  by code_simp+

lemma demo_collateral:
  "requiredCollateralLovelace (Some 150) swapTxFee = Inr 442500"
  "selectCollateralUtxo [\<lparr>wu_Id = (''c3'', 0), wu_Output = Some (ada_output 6000000)\<rparr>] 442500
     = Inr \<lparr>wu_Id = (''c3'', 0), wu_Output = Some (ada_output 6000000)\<rparr>"
  "GetUtxos ''addr'' demo_wallet = Inr [''mine'']"
  by code_simp+

lemma demo_sent: "createSwapTx demo_env pool_ref demo_opts demo_wallet = Inr [1]"
proof -
  have lib: "sw_lib demo_env = demo_lib" "sw_known demo_env = [(ir_TxId pool_ref @ ''.0'', [])]"
    "sw_collateralPercent demo_env = Some 150" "sw_PaymentAddress demo_env = ''addr''"
    by (simp_all add: demo_env_def)
  have sw: "sw_addressOk demo_env a" "sw_decodeDatum demo_env d = Some d" "sw_redeemer demo_env ns = Some (map word_of_int ns)"
    "sw_walletOk demo_env" "sw_referenceOk demo_env r" for a d ns r
    by (simp_all add: demo_env_def)
  have idx: "sortedInputIndex (sw_SortInputs demo_env) [\<lparr>wu_Id = (''a1'', 0), wu_Output = Some (ada_output 5000000)\<rparr>, order_utxo] (''a1'', 0) = 1"
    "sortedInputIndex (sw_SortInputs demo_env) [\<lparr>wu_Id = (''a1'', 0), wu_Output = Some (ada_output 5000000)\<rparr>, order_utxo] (''b2'', 1) = 0"
    "wu_Id order_utxo = (''b2'', 1)"
    by code_simp+
  have "\<exists>plan. swap_transaction_plan demo_env pool_ref demo_opts demo_wallet = Inr (plan, 1, 0)
      \<and> wu_Id (pl_PoolInput plan) = (''a1'', 0) \<and> wu_Id (pl_SwapInput plan) = (''b2'', 1)"
    by (simp add: swap_transaction_plan_def gather_swap_inputs_def Let_def lib demo_opts_def demo_context demo_decoded demo_collateral
        buy_order_amounts idx ensure_def or_fail_def sw del: newSwapTxChainContext.simps)
  moreover have "validateSwapTxInputs [(''b2'', 1), (''a1'', 0)] (''a1'', 0) (''b2'', 1) 1 0 = Inr ()" by code_simp
  ultimately show ?thesis by (auto simp: createSwapTx_def demo_env_def or_fail_def)
qed

theorem sent_swap_is_as_planned_witness:
  "\<exists>inputs. sw_decodeTx demo_env [1] = Some inputs \<and> length inputs = 2
     \<and> (\<exists>poolUtxo i. decodeUtxo demo_lib ''pool'' = Inr poolUtxo \<and> i < 2 \<and> inputs ! i = wu_Id poolUtxo)"
  using sent_swap_is_as_planned [OF demo_sent]
  by (auto simp: demo_opts_def demo_env_def)

end
