(* ===== verification/Spectrum_Service.thy ===== *)
theory Spectrum_Service
  imports Spectrum_Swap
begin

text \<open>
  The Spectrum batcher (\<open>internal/spectrum/spectrum.go\<close>): it records the pool outputs that the chain
  produces, and answers each swap order that appears in the mempool with a transaction built on the
  latest output of the order's pool.

  An output is what the ledger library reports of it: its address, its payment address when it has
  one, its datum and its CBOR. The address library, the decoder of stored outputs and the key-value
  store's libraries are parameters; what is submitted is a list of transactions, in order.
\<close>

section \<open>The service\<close>

record profile_hashes =
  ph_SwapHash :: string
  ph_DepositHash :: string
  ph_RedeemHash :: string
  ph_PoolV1Hash :: string
  ph_PoolV2Hash :: string
  ph_SwapInputRef :: input_ref
  ph_PoolV1InputRef :: input_ref
  ph_PoolV2InputRef :: input_ref

record spectrum_service =
  sv_config :: profile_hashes
  sv_name :: string
  sv_swapAddress :: string
  sv_depositAddress :: string
  sv_redeemAddress :: string
  sv_poolV1Address :: string
  sv_poolV2Address :: string

record ledger_output =
  lo_Address :: string
  lo_PaymentAddress :: "string option"
  lo_Datum :: "bytes option"
  lo_Cbor :: bytes

record 'tx spectrum_libs =
  sl_cbor :: cbor_lib
  sl_encoder :: utxo_encoder
  sl_decoder :: "string \<Rightarrow> spectrum_output option"
  sl_parseAddress :: "string \<Rightarrow> string option option"
  sl_acc :: kv_badger
  sl_env :: "'tx swap_env"

datatype spectrum_error =
    SwapDatumDecode
  | WrapFailed
  | NoMatchingPool wallet_error
  | PoolLookupFailed wallet_error
  | PoolInvalid pool_error
  | PoolAddressUnparseable
  | PoolAddressNoPayment
  | DepositDatumDecode
  | PoolStoreFailed wallet_error
  | PoolConfigDecode
  | SpectrumPanic

text \<open>The script address of a hash; \<open>None\<close> for the library when the network is not known.\<close>

definition scriptAddressFromHash :: "(bytes \<Rightarrow> string option) option \<Rightarrow> string \<Rightarrow> string" where
  "scriptAddressFromHash parts scriptHashHex = (case parts of
     None \<Rightarrow> []
   | Some newAddress \<Rightarrow> (case hex_decode scriptHashHex of
       None \<Rightarrow> []
     | Some scriptHash \<Rightarrow> (case newAddress scriptHash of None \<Rightarrow> [] | Some addr \<Rightarrow> addr)))"

definition spectrum_New :: "(bytes \<Rightarrow> string option) option \<Rightarrow> string \<Rightarrow> profile_hashes \<Rightarrow> spectrum_service" where
  "spectrum_New parts name cfg =
     \<lparr>sv_config = cfg, sv_name = name,
      sv_swapAddress = scriptAddressFromHash parts (ph_SwapHash cfg),
      sv_depositAddress = scriptAddressFromHash parts (ph_DepositHash cfg),
      sv_redeemAddress = scriptAddressFromHash parts (ph_RedeemHash cfg),
      sv_poolV1Address = scriptAddressFromHash parts (ph_PoolV1Hash cfg),
      sv_poolV2Address = scriptAddressFromHash parts (ph_PoolV2Hash cfg)\<rparr>"

section \<open>Outputs\<close>

definition wrapTxOutput :: "utxo_encoder \<Rightarrow> string \<Rightarrow> nat \<Rightarrow> bytes \<Rightarrow> spectrum_error + string" where
  "wrapTxOutput enc txId txOutputIdx txOutBytes = (case hex_decode txId of
     None \<Rightarrow> Inl WrapFailed
   | Some txIdBytes \<Rightarrow> (case enc txIdBytes (word_of_nat txOutputIdx) txOutBytes of
       None \<Rightarrow> Inl WrapFailed
     | Some cborBytes \<Rightarrow> Inr cborBytes))"

datatype output_kind = SwapOrder | DepositOrder | RedeemOrder | PoolOutput | OtherOutput

text \<open>The cases of the address switch; an output without a payment address has the empty one.\<close>

definition output_role :: "spectrum_service \<Rightarrow> ledger_output \<Rightarrow> output_kind" where
  "output_role s out =
     (let paymentAddr = (case lo_PaymentAddress out of None \<Rightarrow> [] | Some a \<Rightarrow> a)
      in if paymentAddr = sv_swapAddress s then SwapOrder
         else if paymentAddr = sv_depositAddress s then DepositOrder
         else if paymentAddr = sv_redeemAddress s then RedeemOrder
         else if paymentAddr = sv_poolV1Address s \<or> paymentAddr = sv_poolV2Address s then PoolOutput
         else OtherOutput)"

text \<open>What the builder is asked for, from the order and the store.\<close>

definition swap_order_opts ::
  "'tx spectrum_libs \<Rightarrow> spectrum_service \<Rightarrow> string \<Rightarrow> nat \<Rightarrow> bytes \<Rightarrow> bytes \<Rightarrow> kv_store \<Rightarrow> spectrum_error + createSwapTxOpts" where
  "swap_order_opts l s txId txOutputIdx datum raw db =
     and_then (or_fail (decode_SwapConfig (sl_cbor l) datum) SwapDatumDecode) (\<lambda>swapConfig.
     and_then (wrapTxOutput (sl_encoder l) txId txOutputIdx raw) (\<lambda>swapUtxo.
     and_then (case GetAssetUtxoId (sv_name s) (PolicyId (sc_PoolId swapConfig)) (Name (sc_PoolId swapConfig)) db of
                 Inl e \<Rightarrow> Inl (NoMatchingPool e) | Inr i \<Rightarrow> Inr i) (\<lambda>poolUtxoId.
     and_then (case GetUtxoById poolUtxoId db of Inl e \<Rightarrow> Inl (PoolLookupFailed e) | Inr u \<Rightarrow> Inr u) (\<lambda>poolUtxo.
     and_then (case NewPoolFromUtxoBytes (sl_cbor l) (sl_decoder l) poolUtxo of
                 Inl e \<Rightarrow> Inl (PoolInvalid e) | Inr p \<Rightarrow> Inr p) (\<lambda>pool.
     and_then (case GetUtxoAddress poolUtxoId db of Inl e \<Rightarrow> Inl (PoolLookupFailed e) | Inr a \<Rightarrow> Inr a) (\<lambda>poolAddr.
     and_then (or_fail (sl_parseAddress l poolAddr) PoolAddressUnparseable) (\<lambda>tmpPoolAddr.
     and_then (or_fail tmpPoolAddr PoolAddressNoPayment) (\<lambda>poolPaymentAddr.
       Inr \<lparr>op_poolUtxoBytes = poolUtxo, op_pool = pool, op_swapUtxoBytes = swapUtxo, op_swapConfig = swapConfig,
            op_outputPoolAddress = poolAddr,
            op_poolInputRef = (if poolPaymentAddr = sv_poolV1Address s then ph_PoolV1InputRef (sv_config s)
                               else if poolPaymentAddr = sv_poolV2Address s then ph_PoolV2InputRef (sv_config s)
                               else \<lparr>ir_TxId = [], ir_OutputIdx = 0\<rparr>)\<rparr>))))))))"

definition handleTransactionOutput ::
  "'tx spectrum_libs \<Rightarrow> spectrum_service \<Rightarrow> string \<Rightarrow> nat \<Rightarrow> ledger_output \<Rightarrow> bool \<Rightarrow> kv_store
     \<Rightarrow> spectrum_error option \<times> kv_store \<times> bytes list" where
  "handleTransactionOutput l s txId txOutputIdx out fromMempool db = (case lo_Datum out of
     None \<Rightarrow> (None, db, [])
   | Some datum \<Rightarrow> (case output_role s out of
       SwapOrder \<Rightarrow>
         if \<not> fromMempool then (None, db, [])
         else (case swap_order_opts l s txId txOutputIdx datum (lo_Cbor out) db of
           Inl e \<Rightarrow> (Some e, db, [])
         | Inr opts \<Rightarrow> (case createSwapTx (sl_env l) (ph_SwapInputRef (sv_config s)) opts db of
             Inl e \<Rightarrow> (if e = SwapDivisionPanic then Some SpectrumPanic else None, db, [])
           | Inr txBytes \<Rightarrow> (None, db, [txBytes])))
     | DepositOrder \<Rightarrow>
         if fromMempool \<and> decode_DepositConfig (sl_cbor l) datum = None then (Some DepositDatumDecode, db, [])
         else (None, db, [])
     | PoolOutput \<Rightarrow>
         if fromMempool then (None, db, [])
         else (case AddUtxo (sl_acc l) (sl_encoder l) (lo_Address out) txId (word_of_nat txOutputIdx) (lo_Cbor out) db of
           (Some e, db1) \<Rightarrow> (Some (PoolStoreFailed e), db1, [])
         | (None, db1) \<Rightarrow> (case decode_PoolConfig (sl_cbor l) datum of
             None \<Rightarrow> (Some PoolConfigDecode, db1, [])
           | Some poolConfig \<Rightarrow>
               (case UpdateAssetUtxo (sl_acc l) (sv_name s) (PolicyId (pc_Nft poolConfig)) (Name (pc_Nft poolConfig)) txId
                       (word_of_nat txOutputIdx) db1 of
                  (Some e, db2) \<Rightarrow> (Some (PoolStoreFailed e), db2, [])
                | (None, db2) \<Rightarrow> (None, db2, []))))
     | _ \<Rightarrow> (None, db, [])))"

section \<open>The handlers\<close>

text \<open>An error of one output is logged and the next one is handled; a panic ends the process.\<close>

fun handle_outputs ::
  "'tx spectrum_libs \<Rightarrow> spectrum_service \<Rightarrow> string \<Rightarrow> bool \<Rightarrow> nat \<Rightarrow> ledger_output list \<Rightarrow> kv_store
     \<Rightarrow> bool \<times> kv_store \<times> bytes list" where
  "handle_outputs l s txId fromMempool i [] db = (False, db, [])"
| "handle_outputs l s txId fromMempool i (out # outs) db =
     (case handleTransactionOutput l s txId i out fromMempool db of
        (Some SpectrumPanic, db', sent) \<Rightarrow> (True, db', sent)
      | (_, db', sent) \<Rightarrow> (case handle_outputs l s txId fromMempool (Suc i) outs db' of
          (panicked, db'', sent') \<Rightarrow> (panicked, db'', sent @ sent')))"

text \<open>A chain event: its transaction hash and outputs, when it is a transaction.\<close>

definition handleChainsyncEvent ::
  "'tx spectrum_libs \<Rightarrow> spectrum_service \<Rightarrow> (string \<times> ledger_output list) option \<Rightarrow> kv_store \<Rightarrow> bool \<times> kv_store \<times> bytes list" where
  "handleChainsyncEvent l s evt db = (case evt of
     None \<Rightarrow> (False, db, [])
   | Some (txHash, outputs) \<Rightarrow> handle_outputs l s txHash False 0 outputs db)"

text \<open>The ledger library parses the transaction; \<open>False\<close> is the error that the handler returns.\<close>

definition handleMempoolNewTransaction ::
  "'tx spectrum_libs \<Rightarrow> spectrum_service \<Rightarrow> (string \<times> ledger_output list) option \<Rightarrow> kv_store \<Rightarrow> bool \<times> bool \<times> kv_store \<times> bytes list" where
  "handleMempoolNewTransaction l s parsed db = (case parsed of
     None \<Rightarrow> (False, False, db, [])
   | Some (txHash, outputs) \<Rightarrow> (True, handle_outputs l s txHash True 0 outputs db))"

section \<open>The index of pools\<close>

text \<open>
  \<open>pool_index db m\<close>: the store \<open>db\<close> is reached from any store by the operations of the service, and \<open>m\<close>
  maps each NFT whose pool the chain showed since then to the id, the stored bytes and the address of
  its latest output, as long as that output is not spent. Output ids are never used twice.
\<close>

definition observed_pool ::
  "'tx spectrum_libs \<Rightarrow> spectrum_service \<Rightarrow> string \<Rightarrow> nat \<Rightarrow> ledger_output \<Rightarrow> (AssetClass \<times> string \<times> string \<times> string) option" where
  "observed_pool l s txId i out = (case (lo_Datum out, output_role s out, wrapTxOutput (sl_encoder l) txId i (lo_Cbor out)) of
     (Some datum, PoolOutput, Inr stored) \<Rightarrow>
       map_option (\<lambda>cfg. (pc_Nft cfg, utxo_id txId (word_of_nat i), stored, lo_Address out)) (decode_PoolConfig (sl_cbor l) datum)
   | _ \<Rightarrow> None)"

definition used_id :: "(AssetClass \<rightharpoonup> string \<times> string \<times> string) \<Rightarrow> string \<Rightarrow> bool" where
  "used_id m u = (\<exists>c e. m c = Some e \<and> fst e = u)"

inductive pool_index :: "'tx spectrum_libs \<Rightarrow> spectrum_service \<Rightarrow> kv_store \<Rightarrow> (AssetClass \<rightharpoonup> string \<times> string \<times> string) \<Rightarrow> bool"
  for l s where
  idx_start: "pool_index l s db Map.empty"
| idx_removed: "pool_index l s db m \<Longrightarrow> hex_decode txId = Some b \<Longrightarrow> RemoveUtxo (sl_acc l) txId i db = (r, db') \<Longrightarrow>
    pool_index l s db' (\<lambda>c. case m c of None \<Rightarrow> None | Some e \<Rightarrow> if fst e = utxo_id txId i then None else Some e)"
| idx_stored: "pool_index l s db m \<Longrightarrow> hex_decode txId = Some b \<Longrightarrow> \<not> used_id m (utxo_id txId i) \<Longrightarrow>
    AddUtxo (sl_acc l) (sl_encoder l) a txId i raw db = (r, db') \<Longrightarrow> pool_index l s db' m"
| idx_output: "pool_index l s db m \<Longrightarrow> hex_decode txId = Some b \<Longrightarrow> \<not> used_id m (utxo_id txId (word_of_nat i)) \<Longrightarrow>
    handleTransactionOutput l s txId i out False db = (r, db', sent) \<Longrightarrow>
    pool_index l s db' (case observed_pool l s txId i out of
        Some (c, e) \<Rightarrow> if r = None then m(c \<mapsto> e) else m
      | None \<Rightarrow> m)"
| idx_mempool: "pool_index l s db m \<Longrightarrow> handleTransactionOutput l s txId i out True db = (r, db', sent) \<Longrightarrow> pool_index l s db' m"
| idx_cursor: "pool_index l s db m \<Longrightarrow> UpdateCursor (sl_acc l) slot bh db = (r, db') \<Longrightarrow> pool_index l s db' m"

definition indexed :: "spectrum_service \<Rightarrow> kv_store \<Rightarrow> (AssetClass \<rightharpoonup> string \<times> string \<times> string) \<Rightarrow> bool" where
  "indexed s db m \<longleftrightarrow> (\<forall>c u stored a. m c = Some (u, stored, a) \<longrightarrow> plain u
     \<and> map_of db (asset_key (sv_name s) (PolicyId c) (Name c)) = Some u
     \<and> map_of db (utxoKey u) = Some stored \<and> map_of db (utxoAddressKey u) = Some a)"

text \<open>A service name that cannot be confused with the other kinds of keys.\<close>

definition own_prefix :: "string \<Rightarrow> bool" where
  "own_prefix n \<longleftrightarrow> plain n \<and> n \<notin> {''utxo'', ''address'', ''chainsync''}"

definition key_prefix :: "string \<Rightarrow> string" where
  "key_prefix k = takeWhile (\<lambda>c. c \<noteq> CHR ''_'') k"

lemma key_prefixes:
  "key_prefix (utxoKey u) = ''utxo''" "key_prefix (utxoAddressKey u) = ''utxo''" "key_prefix (addressKey a) = ''address''"
  "key_prefix chainsyncCursorKey = ''chainsync''"
  by (simp_all add: key_prefix_def utxoKey_def utxoAddressKey_def addressKey_def chainsyncCursorKey_def)

lemma asset_key_prefix: "plain n \<Longrightarrow> key_prefix (asset_key n p q) = n"
proof -
  assume "plain n"
  then have "\<forall>c\<in>set n. c \<noteq> CHR ''_''" by (auto simp: plain_def)
  then have "takeWhile (\<lambda>c. c \<noteq> CHR ''_'') (n @ ''_asset_'' @ r) = n" for r
    by (induction n) simp_all
  then show ?thesis by (simp only: key_prefix_def asset_key_def)
qed

lemma asset_key_own:
  assumes "own_prefix n"
  shows "asset_key n p q \<noteq> utxoKey u" "asset_key n p q \<noteq> utxoAddressKey u" "asset_key n p q \<noteq> addressKey a"
    "asset_key n p q \<noteq> chainsyncCursorKey"
    "utxoKey u \<noteq> asset_key n p q" "utxoAddressKey u \<noteq> asset_key n p q" "addressKey a \<noteq> asset_key n p q"
    "chainsyncCursorKey \<noteq> asset_key n p q"
proof -
  have n: "key_prefix (asset_key n p q) = n" "n \<notin> {''utxo'', ''address'', ''chainsync''}"
    using assms by (simp_all add: own_prefix_def asset_key_prefix)
  show "asset_key n p q \<noteq> utxoKey u" "asset_key n p q \<noteq> utxoAddressKey u" "asset_key n p q \<noteq> addressKey a"
    "asset_key n p q \<noteq> chainsyncCursorKey"
    "utxoKey u \<noteq> asset_key n p q" "utxoAddressKey u \<noteq> asset_key n p q" "addressKey a \<noteq> asset_key n p q"
    "chainsyncCursorKey \<noteq> asset_key n p q"
    using n key_prefixes by (metis insertCI)+
qed

lemma asset_key_inject: "asset_key n p q = asset_key n p' q' \<longleftrightarrow> p = p' \<and> q = q'"
proof
  assume "asset_key n p q = asset_key n p' q'"
  then have "hex_encode p @ CHR ''_'' # hex_encode q = hex_encode p' @ CHR ''_'' # hex_encode q'"
    by (simp add: asset_key_def)
  then have "hex_encode p = hex_encode p' \<and> hex_encode q = hex_encode q'"
    by (rule append_sep_inject) (simp_all add: hex_encode_no_sep is_hex_def hex_val_def)
  then show "p = p' \<and> q = q'" by simp
qed simp

lemma indexed_frame:
  assumes "indexed s db m" and "\<And>k. (\<exists>p q. k = asset_key (sv_name s) p q) \<or> (\<exists>u. plain u \<and> used_id m u \<and> (k = utxoKey u \<or> k = utxoAddressKey u))
      \<Longrightarrow> map_of db' k = map_of db k"
  shows "indexed s db' m"
  using assms unfolding indexed_def used_id_def by (metis fst_conv)

text \<open>What the store's operations change.\<close>

lemma RemoveUtxo_keys:
  assumes "RemoveUtxo acc txId i db = (r, db')" and "hex_decode txId = Some b"
    and "k \<noteq> utxoKey (utxo_id txId i)" and "k \<noteq> utxoAddressKey (utxo_id txId i)" and "\<And>a. k \<noteq> addressKey a"
  shows "map_of db' k = map_of db k"
  using assms
  by (auto simp: RemoveUtxo_def Let_def kv_update_def update_conv' delete_conv' restrict_map_def split: option.splits if_splits)

lemma AddUtxo_keys:
  assumes "AddUtxo acc enc a txId i raw db = (r, db')"
    and "k \<noteq> utxoKey (utxo_id txId i)" and "k \<noteq> utxoAddressKey (utxo_id txId i)" and "k \<noteq> addressKey a"
  shows "map_of db' k = map_of db k"
  using assms by (auto simp: AddUtxo_def Let_def kv_update_def update_conv' split: option.splits if_splits)

lemma kv_set_keys:
  assumes "kv_update acc (\<lambda>txn. Inr (AList.update k0 v txn)) db = (r, db')" and "k \<noteq> k0"
  shows "map_of db' k = map_of db k"
  using assms by (auto simp: kv_update_def update_conv' split: if_splits)

lemma utxo_keys_of_id:
  assumes "plain u" and "plain v" and "u \<noteq> v"
  shows "utxoKey u \<noteq> utxoKey v" "utxoKey u \<noteq> utxoAddressKey v" "utxoAddressKey u \<noteq> utxoKey v" "utxoAddressKey u \<noteq> utxoAddressKey v"
    "utxoKey u \<noteq> addressKey a" "utxoAddressKey u \<noteq> addressKey a"
  using assms keys_apart_ids [of u v] keys_apart_ids [of v u] by (simp_all add: plain_def)

lemma id_plain: "hex_decode txId = Some b \<Longrightarrow> plain (utxo_id txId i)"
  using utxo_id_valid by (simp add: plain_def valid_id_def)

lemma service_keys_avoid:
  assumes "(\<exists>p q. k = asset_key (sv_name s) p q) \<or> (\<exists>u. plain u \<and> used_id m u \<and> (k = utxoKey u \<or> k = utxoAddressKey u))"
    and "own_prefix (sv_name s)" and "plain v" and "\<not> used_id m v"
  shows "k \<noteq> utxoKey v \<and> k \<noteq> utxoAddressKey v \<and> k \<noteq> addressKey a \<and> k \<noteq> chainsyncCursorKey"
  using assms(1)
proof (elim disjE exE conjE)
  fix p q
  assume "k = asset_key (sv_name s) p q"
  then show ?thesis using asset_key_own [OF assms(2)] by metis
next
  fix u
  assume "plain u" "used_id m u" "k = utxoKey u"
  moreover from this have "u \<noteq> v" using assms(4) by blast
  ultimately show ?thesis using utxo_keys_of_id [OF _ assms(3)] by (auto simp: utxoKey_def chainsyncCursorKey_def)
next
  fix u
  assume "plain u" "used_id m u" "k = utxoAddressKey u"
  moreover from this have "u \<noteq> v" using assms(4) by blast
  ultimately show ?thesis using utxo_keys_of_id [OF _ assms(3)] by (auto simp: utxoAddressKey_def chainsyncCursorKey_def)
qed

lemma indexed_stored:
  assumes "indexed s db m" and "own_prefix (sv_name s)" and "hex_decode txId = Some b" and "\<not> used_id m (utxo_id txId i)"
    and "AddUtxo acc enc a txId i raw db = (r, db')"
  shows "indexed s db' m"
  using assms(1)
proof (rule indexed_frame)
  fix k
  assume "(\<exists>p q. k = asset_key (sv_name s) p q) \<or> (\<exists>u. plain u \<and> used_id m u \<and> (k = utxoKey u \<or> k = utxoAddressKey u))"
  then have "k \<noteq> utxoKey (utxo_id txId i) \<and> k \<noteq> utxoAddressKey (utxo_id txId i) \<and> k \<noteq> addressKey a"
    using service_keys_avoid [OF _ assms(2) id_plain [OF assms(3)] assms(4)] by blast
  then show "map_of db' k = map_of db k" using AddUtxo_keys [OF assms(5)] by blast
qed

lemma indexed_removed:
  assumes "indexed s db m" and "own_prefix (sv_name s)" and "hex_decode txId = Some b"
    and "RemoveUtxo acc txId i db = (r, db')"
  shows "indexed s db' (\<lambda>c. case m c of None \<Rightarrow> None | Some e \<Rightarrow> if fst e = utxo_id txId i then None else Some e)"
    (is "indexed s db' ?m")
proof (rule indexed_frame)
  show "indexed s db ?m" using assms(1) by (auto simp: indexed_def split: option.splits if_splits)
  fix k
  assume "(\<exists>p q. k = asset_key (sv_name s) p q) \<or> (\<exists>u. plain u \<and> used_id ?m u \<and> (k = utxoKey u \<or> k = utxoAddressKey u))"
  moreover have "\<not> used_id ?m (utxo_id txId i)" by (auto simp: used_id_def split: option.splits if_splits)
  ultimately have "k \<noteq> utxoKey (utxo_id txId i) \<and> k \<noteq> utxoAddressKey (utxo_id txId i) \<and> (\<forall>a. k \<noteq> addressKey a)"
    using service_keys_avoid [OF _ assms(2) id_plain [OF assms(3)]] by blast
  then show "map_of db' k = map_of db k" using RemoveUtxo_keys [OF assms(4,3)] by blast
qed

lemma indexed_asset:
  assumes "indexed s db m" and "own_prefix (sv_name s)"
    and "UpdateAssetUtxo acc (sv_name s) (PolicyId c) (Name c) txId i db = (r, db')"
    and "plain (utxo_id txId i)" and "map_of db (utxoKey (utxo_id txId i)) = Some stored"
    and "map_of db (utxoAddressKey (utxo_id txId i)) = Some a"
  shows "indexed s db' (if r = None then m(c \<mapsto> (utxo_id txId i, stored, a)) else m)"
proof (cases "r = None")
  case False
  then have "db' = db" using assms(3) by (auto simp: UpdateAssetUtxo_def kv_update_def split: if_splits)
  then show ?thesis using assms(1) by (simp only: False if_False)
next
  case True
  then have db': "db' = AList.update (asset_key (sv_name s) (PolicyId c) (Name c)) (utxo_id txId i) db"
    using assms(3) by (auto simp: UpdateAssetUtxo_def kv_update_def split: if_splits)
  have "asset_key (sv_name s) (PolicyId d) (Name d) \<noteq> asset_key (sv_name s) (PolicyId c) (Name c)" if "d \<noteq> c" for d
    using that by (cases d, cases c) (simp add: asset_key_inject)
  then show ?thesis
    using assms(1,4-6) True asset_key_own [OF assms(2)] by (auto simp: indexed_def db' update_conv')
qed

lemma indexed_output:
  assumes "indexed s db m" and "own_prefix (sv_name s)" and "hex_decode txId = Some b"
    and "\<not> used_id m (utxo_id txId (word_of_nat i))"
    and "handleTransactionOutput l s txId i out False db = (r, db', sent)"
  shows "indexed s db' (case observed_pool l s txId i out of Some (c, e) \<Rightarrow> if r = None then m(c \<mapsto> e) else m | None \<Rightarrow> m)"
proof (cases "\<exists>datum. lo_Datum out = Some datum \<and> output_role s out = PoolOutput")
  case False
  then have "db' = db" "observed_pool l s txId i out = None"
    using assms(5) by (auto simp: handleTransactionOutput_def observed_pool_def split: option.splits output_kind.splits if_splits)
  then show ?thesis using assms(1) by simp
next
  case True
  then obtain datum where d: "lo_Datum out = Some datum" "output_role s out = PoolOutput" by blast
  let ?u = "utxo_id txId (word_of_nat i)"
  obtain e db1 where add: "AddUtxo (sl_acc l) (sl_encoder l) (lo_Address out) txId (word_of_nat i) (lo_Cbor out) db = (e, db1)"
    by fastforce
  note idx1 = indexed_stored [OF assms(1-4) add]
  show ?thesis
  proof (cases "e = None \<and> decode_PoolConfig (sl_cbor l) datum \<noteq> None")
    case False
    then have "db' = db1" "r = None \<longrightarrow> observed_pool l s txId i out = None"
      using assms(5) d add by (auto simp: handleTransactionOutput_def observed_pool_def split: option.splits sum.splits)
    then show ?thesis using idx1 by (simp split: option.split)
  next
    case True
    then obtain cfg where ok: "e = None" "decode_PoolConfig (sl_cbor l) datum = Some cfg" by blast
    obtain r2 db2 where upd: "UpdateAssetUtxo (sl_acc l) (sv_name s) (PolicyId (pc_Nft cfg)) (Name (pc_Nft cfg)) txId
        (word_of_nat i) db1 = (r2, db2)" by fastforce
    have res: "db' = db2" "r = None \<longleftrightarrow> r2 = None"
      using assms(5) d add ok upd by (auto simp: handleTransactionOutput_def split: option.splits)
    obtain stored where st: "sl_encoder l b (word_of_nat i) (lo_Cbor out) = Some stored"
      using add ok(1) assms(3) by (auto simp: AddUtxo_def Let_def kv_update_def split: option.splits if_splits)
    have obs: "observed_pool l s txId i out = Some (pc_Nft cfg, ?u, stored, lo_Address out)"
      using d ok(2) st assms(3) by (simp add: observed_pool_def wrapTxOutput_def)
    note eff = AddUtxo_effect [OF add [unfolded ok(1)] st assms(3)]
    have "map_of db1 (utxoKey ?u) = Some stored" "map_of db1 (utxoAddressKey ?u) = Some (lo_Address out)"
      using eff(1) [of ?u] eff(2) [of ?u] id_plain [OF assms(3)] by simp_all
    from indexed_asset [OF idx1 assms(2) upd id_plain [OF assms(3)] this]
    show ?thesis by (simp add: obs res)
  qed
qed

lemma pool_index_indexed: "pool_index l s db m \<Longrightarrow> own_prefix (sv_name s) \<Longrightarrow> indexed s db m"
proof (induction rule: pool_index.induct)
  case (idx_start db)
  then show ?case by (simp add: indexed_def)
next
  case (idx_removed db m txId b i r db')
  then show ?case
    by (intro indexed_removed [OF _ idx_removed.prems idx_removed.hyps(2,3)] idx_removed.IH)
next
  case (idx_stored db m txId b i a raw r db')
  then show ?case
    by (intro indexed_stored [OF _ idx_stored.prems idx_stored.hyps(2-4)] idx_stored.IH)
next
  case (idx_output db m txId b i out r db' sent)
  then show ?case
    by (intro indexed_output [OF _ idx_output.prems idx_output.hyps(2-4)] idx_output.IH)
next
  case (idx_mempool db m txId i out r db' sent)
  then have "db' = db"
    by (auto simp: handleTransactionOutput_def split: option.splits output_kind.splits if_splits sum.splits)
  then show ?case using idx_mempool by simp
next
  case (idx_cursor db m slot bh r db')
  have "map_of db' k = map_of db k"
    if "(\<exists>p q. k = asset_key (sv_name s) p q) \<or> (\<exists>u. plain u \<and> used_id m u \<and> (k = utxoKey u \<or> k = utxoAddressKey u))" for k
  proof -
    have "k \<noteq> chainsyncCursorKey"
      using that asset_key_own(4) [OF idx_cursor(4)]
      by (elim disjE exE conjE) (simp_all add: utxoKey_def utxoAddressKey_def chainsyncCursorKey_def)
    then show ?thesis using kv_set_keys [OF idx_cursor(2) [unfolded UpdateCursor_def]] by blast
  qed
  with idx_cursor show ?case by (metis indexed_frame)
qed

section \<open>Orders meet the latest pool\<close>

lemma swap_order_opts_indexed:
  assumes "indexed s db m" and "m (sc_PoolId cfg) = Some (u, stored, a)"
    and "decode_SwapConfig (sl_cbor l) datum = Some cfg" and "wrapTxOutput (sl_encoder l) txId i raw = Inr order"
    and "NewPoolFromUtxoBytes (sl_cbor l) (sl_decoder l) stored = Inr pool" and "sl_parseAddress l a = Some (Some pay)"
  shows "swap_order_opts l s txId i datum raw db = Inr \<lparr>op_poolUtxoBytes = stored, op_pool = pool, op_swapUtxoBytes = order,
      op_swapConfig = cfg, op_outputPoolAddress = a,
      op_poolInputRef = (if pay = sv_poolV1Address s then ph_PoolV1InputRef (sv_config s)
                         else if pay = sv_poolV2Address s then ph_PoolV2InputRef (sv_config s)
                         else \<lparr>ir_TxId = [], ir_OutputIdx = 0\<rparr>)\<rparr>"
proof -
  have "map_of db (asset_key (sv_name s) (PolicyId (sc_PoolId cfg)) (Name (sc_PoolId cfg))) = Some u"
    "map_of db (utxoKey u) = Some stored" "map_of db (utxoAddressKey u) = Some a"
    using assms(1,2) by (auto simp: indexed_def)
  then show ?thesis
    using assms(3-6) by (simp add: swap_order_opts_def GetAssetUtxoId_def GetUtxoById_def GetUtxoAddress_def or_fail_def)
qed

text \<open>C13: A swap order in the mempool is answered with a transaction built on the latest output of its pool that
  the chain has shown, at the address that output was at, with the reference script of that address;
  it is submitted when it can be built, and the store does not change.\<close>

theorem orders_use_latest_pool:
  assumes "pool_index l s db m" and "own_prefix (sv_name s)"
    and "lo_Datum out = Some datum" and "output_role s out = SwapOrder"
    and "decode_SwapConfig (sl_cbor l) datum = Some cfg" and "m (sc_PoolId cfg) = Some (u, stored, a)"
    and "wrapTxOutput (sl_encoder l) txId i (lo_Cbor out) = Inr order"
    and "NewPoolFromUtxoBytes (sl_cbor l) (sl_decoder l) stored = Inr pool" and "sl_parseAddress l a = Some (Some pay)"
  shows "handleTransactionOutput l s txId i out True db =
    (case createSwapTx (sl_env l) (ph_SwapInputRef (sv_config s))
        \<lparr>op_poolUtxoBytes = stored, op_pool = pool, op_swapUtxoBytes = order, op_swapConfig = cfg, op_outputPoolAddress = a,
         op_poolInputRef = (if pay = sv_poolV1Address s then ph_PoolV1InputRef (sv_config s)
                            else if pay = sv_poolV2Address s then ph_PoolV2InputRef (sv_config s)
                            else \<lparr>ir_TxId = [], ir_OutputIdx = 0\<rparr>)\<rparr> db of
       Inr txBytes \<Rightarrow> (None, db, [txBytes])
     | Inl e \<Rightarrow> (if e = SwapDivisionPanic then Some SpectrumPanic else None, db, []))"
  using swap_order_opts_indexed [OF pool_index_indexed [OF assms(1,2)] assms(6,5,7-9)] assms(3,4)
  by (simp add: handleTransactionOutput_def split: sum.split)

text \<open>The mempool alone never changes the store, and the chain alone never submits.\<close>

lemma handle_outputs_Cons:
  assumes "handleTransactionOutput l s t i out b d = (r, d1, st)" and "handle_outputs l s t b (Suc i) outs d1 = (p, d2, st2)"
  shows "handle_outputs l s t b i (out # outs) d = (if r = Some SpectrumPanic then (True, d1, st) else (p, d2, st @ st2))"
  using assms by (simp split: option.split spectrum_error.split)

lemma mempool_output_keeps_store: "fst (snd (handleTransactionOutput l s t i out True d)) = d"
proof (cases "lo_Datum out")
  case None
  then show ?thesis by (simp add: handleTransactionOutput_def)
next
  case (Some datum)
  show ?thesis
  proof (cases "output_role s out = SwapOrder")
    case True
    then show ?thesis
      using Some
      by (cases "swap_order_opts l s t i datum (lo_Cbor out) d";
          cases "createSwapTx (sl_env l) (ph_SwapInputRef (sv_config s)) (projr (swap_order_opts l s t i datum (lo_Cbor out) d)) d")
        (simp_all add: handleTransactionOutput_def)
  next
    case False
    then show ?thesis using Some by (cases "output_role s out") (simp_all add: handleTransactionOutput_def)
  qed
qed

lemma mempool_keeps_store: "fst (snd (handle_outputs l s t True i outs d)) = d"
proof (induction outs arbitrary: i d)
  case (Cons out outs)
  obtain r d1 st where h: "handleTransactionOutput l s t i out True d = (r, d1, st)" by (metis prod_cases3)
  obtain p d2 st2 where hs: "handle_outputs l s t True (Suc i) outs d1 = (p, d2, st2)" by (metis prod_cases3)
  show ?case
    using handle_outputs_Cons [OF h hs] mempool_output_keeps_store [of l s t i out d] Cons.IH [of "Suc i" d1] h hs
    by (simp del: handle_outputs.simps)
qed simp

lemma chain_output_submits_nothing:
  "handleTransactionOutput l s t i out False d = (r, d1, st) \<Longrightarrow> st = [] \<and> r \<noteq> Some SpectrumPanic"
  by (auto simp: handleTransactionOutput_def split: option.splits output_kind.splits if_splits sum.splits prod.splits)

lemma chain_submits_nothing: "\<exists>d'. handle_outputs l s t False i outs d = (False, d', [])"
proof (induction outs arbitrary: i d)
  case (Cons out outs)
  obtain r d1 st where h: "handleTransactionOutput l s t i out False d = (r, d1, st)" by (metis prod_cases3)
  obtain d2 where hs: "handle_outputs l s t False (Suc i) outs d1 = (False, d2, [])" using Cons.IH by blast
  show ?case
    using handle_outputs_Cons [OF h hs] chain_output_submits_nothing [OF h] by (simp del: handle_outputs.simps)
qed simp

section \<open>A concrete order\<close>

definition demo_hashes :: profile_hashes where
  "demo_hashes = \<lparr>ph_SwapHash = ''01'', ph_DepositHash = ''02'', ph_RedeemHash = ''03'', ph_PoolV1Hash = ''04'', ph_PoolV2Hash = ''05'',
     ph_SwapInputRef = pool_ref, ph_PoolV1InputRef = pool_ref, ph_PoolV2InputRef = pool_ref\<rparr>"

definition demo_service :: spectrum_service where
  "demo_service = spectrum_New (Some (\<lambda>h. Some (''script'' @ hex_encode h))) ''spectrum'' demo_hashes"

definition demo_libs :: "(string \<times> u32) list spectrum_libs" where
  "demo_libs = \<lparr>sl_cbor = unary_lib, sl_encoder = raw_encoder,
     sl_decoder = (\<lambda>_. Some \<lparr>so_Datum = Some (PoolConfig_MarshalCBOR unary_enc ada_pool_config), so_Value = ada_snek_value\<rparr>),
     sl_parseAddress = (\<lambda>a. Some (Some a)), sl_acc = (\<lambda>_ _. True), sl_env = demo_env\<rparr>"

definition demo_pool_output :: ledger_output where
  "demo_pool_output = \<lparr>lo_Address = ''pooladdr'', lo_PaymentAddress = Some ''script04'',
     lo_Datum = Some (PoolConfig_MarshalCBOR unary_enc ada_pool_config), lo_Cbor = [7]\<rparr>"

definition demo_order_output :: ledger_output where
  "demo_order_output = \<lparr>lo_Address = ''orderaddr'', lo_PaymentAddress = Some ''script01'',
     lo_Datum = Some (SwapConfig_MarshalCBOR unary_enc ada_swap), lo_Cbor = [8]\<rparr>"

definition demo_db :: kv_store where
  "demo_db = fst (snd (handleTransactionOutput demo_libs demo_service ''ab'' 0 demo_pool_output False []))"

lemma demo_addresses:
  "sv_swapAddress demo_service = ''script01''" "sv_depositAddress demo_service = ''script02''"
  "sv_redeemAddress demo_service = ''script03''" "sv_poolV1Address demo_service = ''script04''"
  "sv_poolV2Address demo_service = ''script05''"
  by code_simp+

lemma demo_roles: "output_role demo_service demo_pool_output = PoolOutput" "output_role demo_service demo_order_output = SwapOrder"
  by (simp_all add: output_role_def demo_addresses demo_pool_output_def demo_order_output_def)

lemma demo_index: "pool_index demo_libs demo_service demo_db [\<lparr>PolicyId = [7], Name = [1]\<rparr> \<mapsto> (''ab.0'', ''07'', ''pooladdr'')]"
proof -
  have hex: "hex_decode ''ab'' = Some [171]" by code_simp
  have enc: "raw_encoder [171] 0 [7] = Some ''07''" by code_simp
  have d: "decode_PoolConfig unary_lib (PoolConfig_MarshalCBOR unary_enc ada_pool_config) = Some ada_pool_config"
    by (rule PoolConfig_codec [OF unary_codec_ok])
  have id: "utxo_id ''ab'' 0 = ''ab.0''" by code_simp
  have wrap: "wrapTxOutput raw_encoder ''ab'' 0 [7] = Inr ''07''" by code_simp
  obtain r db' sent where h: "handleTransactionOutput demo_libs demo_service ''ab'' 0 demo_pool_output False [] = (r, db', sent)"
    by (metis prod_cases3)
  have add: "\<exists>db1. AddUtxo (\<lambda>_ _. True) raw_encoder ''pooladdr'' ''ab'' 0 [7] [] = (None, db1)"
    using hex enc by (simp add: AddUtxo_def kv_update_def Let_def)
  then obtain db1 where add: "AddUtxo (\<lambda>_ _. True) raw_encoder ''pooladdr'' ''ab'' 0 [7] [] = (None, db1)" by blast
  have l: "sl_acc demo_libs = (\<lambda>_ _. True)" "sl_encoder demo_libs = raw_encoder" "sl_cbor demo_libs = unary_lib"
    "lo_Address demo_pool_output = ''pooladdr''" "lo_Cbor demo_pool_output = [7]"
    "lo_Datum demo_pool_output = Some (PoolConfig_MarshalCBOR unary_enc ada_pool_config)"
    by (simp_all add: demo_libs_def demo_pool_output_def)
  have "fst (handleTransactionOutput demo_libs demo_service ''ab'' 0 demo_pool_output False []) = None"
    by (simp add: handleTransactionOutput_def l demo_roles(1) add d UpdateAssetUtxo_def kv_update_def)
  then have "r = None" "db' = demo_db" using h by (simp_all add: demo_db_def)
  moreover have "observed_pool demo_libs demo_service ''ab'' 0 demo_pool_output
      = Some (\<lparr>PolicyId = [7], Name = [1]\<rparr>, ''ab.0'', ''07'', ''pooladdr'')"
    using wrap by (simp add: observed_pool_def l demo_roles(1) d id) (simp add: ada_pool_config_def)
  ultimately show ?thesis
    using idx_output [OF idx_start hex _ h] by (simp add: used_id_def)
qed

theorem orders_use_latest_pool_witness:
  "\<exists>opts. op_poolUtxoBytes opts = ''07'' \<and> op_outputPoolAddress opts = ''pooladdr'' \<and> op_swapConfig opts = ada_swap
     \<and> handleTransactionOutput demo_libs demo_service ''cd'' 1 demo_order_output True demo_db
       = (case createSwapTx demo_env pool_ref opts demo_db of
            Inr txBytes \<Rightarrow> (None, demo_db, [txBytes])
          | Inl e \<Rightarrow> (if e = SwapDivisionPanic then Some SpectrumPanic else None, demo_db, []))"
proof -
  have own: "own_prefix (sv_name demo_service)"
    by (simp add: own_prefix_def plain_def demo_service_def spectrum_New_def)
  have swap: "decode_SwapConfig unary_lib (SwapConfig_MarshalCBOR unary_enc ada_swap) = Some ada_swap"
    by (rule SwapConfig_codec [OF unary_codec_ok])
  have nft: "sc_PoolId ada_swap = \<lparr>PolicyId = [7], Name = [1]\<rparr>" by (simp add: ada_swap_def)
  have wrap: "wrapTxOutput raw_encoder ''cd'' 1 [8] = Inr ''08''" by code_simp
  have "\<exists>pool. NewPoolFromUtxoBytes (sl_cbor demo_libs) (sl_decoder demo_libs) ''07'' = Inr pool"
    by (simp add: demo_libs_def NewPoolFromUtxoBytes_def NewPoolFromTransactionOutput_def Let_def PoolConfig_codec [OF unary_codec_ok])
  then obtain pool where pool: "NewPoolFromUtxoBytes (sl_cbor demo_libs) (sl_decoder demo_libs) ''07'' = Inr pool" by blast
  have libs: "lo_Datum demo_order_output = Some (SwapConfig_MarshalCBOR unary_enc ada_swap)" "lo_Cbor demo_order_output = [8]"
    "sl_cbor demo_libs = unary_lib" "sl_encoder demo_libs = raw_encoder" "sl_parseAddress demo_libs ''pooladdr'' = Some (Some ''pooladdr'')"
    "sl_env demo_libs = demo_env" "ph_SwapInputRef (sv_config demo_service) = pool_ref"
    by (simp_all add: demo_order_output_def demo_libs_def demo_service_def spectrum_New_def demo_hashes_def)
  let ?opts = "\<lparr>op_poolUtxoBytes = ''07'', op_pool = pool, op_swapUtxoBytes = ''08'', op_swapConfig = ada_swap,
    op_outputPoolAddress = ''pooladdr'',
    op_poolInputRef = (if ''pooladdr'' = sv_poolV1Address demo_service then ph_PoolV1InputRef (sv_config demo_service)
                       else if ''pooladdr'' = sv_poolV2Address demo_service then ph_PoolV2InputRef (sv_config demo_service)
                       else \<lparr>ir_TxId = [], ir_OutputIdx = 0\<rparr>)\<rparr>"
  have "handleTransactionOutput demo_libs demo_service ''cd'' 1 demo_order_output True demo_db
       = (case createSwapTx demo_env pool_ref ?opts demo_db of
            Inr txBytes \<Rightarrow> (None, demo_db, [txBytes])
          | Inl e \<Rightarrow> (if e = SwapDivisionPanic then Some SpectrumPanic else None, demo_db, []))"
    using orders_use_latest_pool [OF demo_index own libs(1) demo_roles(2) _ _ _ pool libs(5), of ada_swap "''ab.0''" "''cd''" 1 "''08''"]
    unfolding libs(2-4,6,7) nft using swap wrap by (simp only: fun_upd_same simp_thms)
  then show ?thesis by (intro exI [of _ ?opts]) simp
qed

end
