(* ===== verification/Node_Mempool.thy ===== *)
theory Node_Mempool
  imports Indexer
begin

text \<open>
  The node's transaction mempool (\<open>internal/node/txsubmission.go\<close>, \<open>localtxsubmission.go\<close>): which
  transactions it holds, which of them it announces to the registered handlers, and how peers and
  local clients feed it.

  The ledger library's parser is a parameter that gives the hash of a transaction; the clock is an
  argument of each operation. The mutex makes each operation one step. The handlers act on a state of
  their own, of any type.
\<close>

section \<open>The mempool\<close>

record TxsubmissionMempoolTransaction =
  mt_Hash :: string
  mt_Type :: nat
  mt_Cbor :: bytes
  mt_LastSeen :: time

type_synonym mempool_map = "(string, TxsubmissionMempoolTransaction) gomap"
type_synonym ('s, 'err) mempool_handlers = "(TxsubmissionMempoolTransaction \<Rightarrow> 's \<Rightarrow> 'err option \<times> 's) list"

definition txsubmissionMempoolExpiration :: duration where
  "txsubmissionMempoolExpiration = 3600 * 1000000000"

definition AddNewTransactionFunc ::
  "(TxsubmissionMempoolTransaction \<Rightarrow> 's \<Rightarrow> 'err option \<times> 's) \<Rightarrow> ('s, 'err) mempool_handlers \<Rightarrow> ('s, 'err) mempool_handlers" where
  "AddNewTransactionFunc f fs = fs @ [f]"

definition removeExpired :: "time \<Rightarrow> mempool_map \<Rightarrow> mempool_map" where
  "removeExpired now txs =
     (let expiredBefore = now - txsubmissionMempoolExpiration
      in filter (\<lambda>(txHash, tx). \<not> mt_LastSeen tx < expiredBefore) txs)"

definition addTransaction ::
  "('s, 'err) mempool_handlers \<Rightarrow> time \<Rightarrow> TxsubmissionMempoolTransaction \<Rightarrow> mempool_map \<times> 's \<Rightarrow> 'err option \<times> mempool_map \<times> 's" where
  "addTransaction funcs now tx st = (case st of (txs, s) \<Rightarrow>
     (case map_of txs (mt_Hash tx) of
        Some mempoolTx \<Rightarrow> (None, AList.update (mt_Hash tx) (mempoolTx\<lparr>mt_LastSeen := now\<rparr>) txs, s)
      | None \<Rightarrow> (case call_handlers funcs tx s of (e, s') \<Rightarrow> (e, AList.update (mt_Hash tx) tx txs, s'))))"

definition removeTransaction :: "string \<Rightarrow> mempool_map \<Rightarrow> mempool_map" where
  "removeTransaction txHash txs = AList.delete txHash txs"

section \<open>Who feeds it\<close>

text \<open>The parser gives the hash of a transaction of an era.\<close>

type_synonym tx_parser = "nat \<Rightarrow> bytes \<Rightarrow> string option"

definition localTxsubmissionServerSubmitTx ::
  "tx_parser \<Rightarrow> ('s, 'err) mempool_handlers \<Rightarrow> time \<Rightarrow> nat \<Rightarrow> bytes \<Rightarrow> mempool_map \<times> 's \<Rightarrow> mempool_map \<times> 's" where
  "localTxsubmissionServerSubmitTx parse funcs now txEraId txBytes st = (case parse txEraId txBytes of
     None \<Rightarrow> st
   | Some h \<Rightarrow> snd (addTransaction funcs now \<lparr>mt_Hash = h, mt_Type = txEraId, mt_Cbor = txBytes, mt_LastSeen = now\<rparr> st))"

text \<open>The bodies a peer sent, each with the time it is handled; \<open>False\<close>: the peer is not asked again.\<close>

fun add_bodies ::
  "tx_parser \<Rightarrow> ('s, 'err) mempool_handlers \<Rightarrow> (time \<times> nat \<times> bytes) list \<Rightarrow> mempool_map \<times> 's \<Rightarrow> bool \<times> mempool_map \<times> 's" where
  "add_bodies parse funcs [] st = (True, st)"
| "add_bodies parse funcs ((now, era, body) # txs) st = (case parse era body of
     None \<Rightarrow> (False, st)
   | Some h \<Rightarrow> (case addTransaction funcs now \<lparr>mt_Hash = h, mt_Type = era, mt_Cbor = body, mt_LastSeen = now\<rparr> st of
       (Some e, st') \<Rightarrow> (False, st')
     | (None, st') \<Rightarrow> add_bodies parse funcs txs st'))"

text \<open>One round of the loop of \<open>txsubmissionServerInit\<close>: the ids the peer offers, and its answer to a request of them.\<close>

definition txsubmissionServerInit ::
  "tx_parser \<Rightarrow> ('s, 'err) mempool_handlers \<Rightarrow> 'i list option \<Rightarrow> ('i list \<Rightarrow> (time \<times> nat \<times> bytes) list option)
     \<Rightarrow> mempool_map \<times> 's \<Rightarrow> bool \<times> mempool_map \<times> 's" where
  "txsubmissionServerInit parse funcs txIds requestTxs st = (case txIds of
     None \<Rightarrow> (False, st)
   | Some ids \<Rightarrow>
       if length ids > 0 then (case requestTxs ids of None \<Rightarrow> (False, st) | Some txs \<Rightarrow> add_bodies parse funcs txs st)
       else (True, st))"

section \<open>A timer per transaction\<close>

text \<open>What can happen to the mempool.\<close>

datatype mempool_op =
    Submitted time string nat bytes
  | ConfirmedOnChain string
  | CleanUp time

fun mempool_step :: "('s, 'err) mempool_handlers \<Rightarrow> mempool_op \<Rightarrow> mempool_map \<times> 's \<Rightarrow> mempool_map \<times> 's" where
  "mempool_step funcs (Submitted now h era body) st =
     snd (addTransaction funcs now \<lparr>mt_Hash = h, mt_Type = era, mt_Cbor = body, mt_LastSeen = now\<rparr> st)"
| "mempool_step funcs (ConfirmedOnChain h) st = (removeTransaction h (fst st), snd st)"
| "mempool_step funcs (CleanUp now) st = (removeExpired now (fst st), snd st)"

text \<open>
  The specification: for each hash the time it was last seen, forgotten on confirmation and by a
  clean-up more than an hour later; a transaction is announced when it is seen and not known.
\<close>

fun timer_step :: "mempool_op \<Rightarrow> (string \<Rightarrow> time option) \<Rightarrow> string \<Rightarrow> time option" where
  "timer_step (Submitted now h era body) seen = seen(h \<mapsto> now)"
| "timer_step (ConfirmedOnChain h) seen = seen(h := None)"
| "timer_step (CleanUp now) seen =
     (\<lambda>h. case seen h of None \<Rightarrow> None | Some t \<Rightarrow> if now - t > txsubmissionMempoolExpiration then None else Some t)"

fun announces :: "mempool_op \<Rightarrow> (string \<Rightarrow> time option) \<Rightarrow> TxsubmissionMempoolTransaction list" where
  "announces (Submitted now h era body) seen =
     (if seen h = None then [\<lparr>mt_Hash = h, mt_Type = era, mt_Cbor = body, mt_LastSeen = now\<rparr>] else [])"
| "announces op seen = []"

fun announced_by :: "mempool_op list \<Rightarrow> (string \<Rightarrow> time option) \<Rightarrow> TxsubmissionMempoolTransaction list" where
  "announced_by [] seen = []"
| "announced_by (op # ops) seen = announces op seen @ announced_by ops (timer_step op seen)"

text \<open>A batch from a peer and a local submission are sequences of submissions.\<close>

lemma local_submission: "localTxsubmissionServerSubmitTx parse funcs now era body st =
    (case parse era body of None \<Rightarrow> st | Some h \<Rightarrow> mempool_step funcs (Submitted now h era body) st)"
  by (simp add: localTxsubmissionServerSubmitTx_def split: option.split)

lemma peer_submissions:
  "\<exists>ops. snd (add_bodies parse funcs txs st) = fold (mempool_step funcs) ops st
     \<and> (\<forall>op\<in>set ops. \<exists>now h era body. op = Submitted now h era body \<and> (now, era, body) \<in> set txs \<and> parse era body = Some h)"
proof (induction parse funcs txs st rule: add_bodies.induct)
  case (2 parse funcs now era body txs st)
  show ?case
  proof (cases "parse era body")
    case None
    then show ?thesis by (intro exI [of _ "[]"]) simp
  next
    case (Some h)
    let ?tx = "\<lparr>mt_Hash = h, mt_Type = era, mt_Cbor = body, mt_LastSeen = now\<rparr>"
    obtain e st' where a: "addTransaction funcs now ?tx st = (e, st')" by (metis surj_pair)
    then have one: "mempool_step funcs (Submitted now h era body) st = st'" by simp
    show ?thesis
    proof (cases e)
      case None
      then obtain ops where ops: "snd (add_bodies parse funcs txs st') = fold (mempool_step funcs) ops st'"
        "\<forall>op\<in>set ops. \<exists>now h era body. op = Submitted now h era body \<and> (now, era, body) \<in> set txs \<and> parse era body = Some h"
        using "2.IH" [OF Some a [unfolded None, symmetric] refl] by blast
      then show ?thesis
        using Some a None one
        by (intro exI [of _ "Submitted now h era body # ops"] conjI) (simp, auto)
    next
      case (Some e')
      then show ?thesis
        using \<open>parse era body = Some h\<close> a one by (intro exI [of _ "[Submitted now h era body]"]) simp
    qed
  qed
qed (intro exI [of _ "[]"], simp)

definition seen_in :: "mempool_map \<Rightarrow> string \<Rightarrow> time option" where
  "seen_in txs h = map_option mt_LastSeen (map_of txs h)"

lemma mempool_simulates:
  assumes "gomap_ok (fst st)"
  shows "seen_in (fst (mempool_step funcs op st)) = timer_step op (seen_in (fst st))"
    and "snd (mempool_step funcs op st) = fold (\<lambda>tx s. snd (call_handlers funcs tx s)) (announces op (seen_in (fst st))) (snd st)"
    and "gomap_ok (fst (mempool_step funcs op st))"
proof -
  obtain txs s where st: "st = (txs, s)" by fastforce
  show "seen_in (fst (mempool_step funcs op st)) = timer_step op (seen_in (fst st))"
    "snd (mempool_step funcs op st) = fold (\<lambda>tx s. snd (call_handlers funcs tx s)) (announces op (seen_in (fst st))) (snd st)"
    "gomap_ok (fst (mempool_step funcs op st))"
  proof (atomize (full), cases op)
    case (Submitted now h era body)
    then show "seen_in (fst (mempool_step funcs op st)) = timer_step op (seen_in (fst st))
        \<and> snd (mempool_step funcs op st) = fold (\<lambda>tx s. snd (call_handlers funcs tx s)) (announces op (seen_in (fst st))) (snd st)
        \<and> gomap_ok (fst (mempool_step funcs op st))"
      using assms by (cases "map_of txs h") (auto simp: st addTransaction_def seen_in_def update_conv' fun_eq_iff split: prod.split)
  next
    case (ConfirmedOnChain h)
    then show "seen_in (fst (mempool_step funcs op st)) = timer_step op (seen_in (fst st))
        \<and> snd (mempool_step funcs op st) = fold (\<lambda>tx s. snd (call_handlers funcs tx s)) (announces op (seen_in (fst st))) (snd st)
        \<and> gomap_ok (fst (mempool_step funcs op st))"
      using assms by (auto simp: st removeTransaction_def seen_in_def delete_conv' fun_eq_iff)
  next
    case (CleanUp now)
    then show "seen_in (fst (mempool_step funcs op st)) = timer_step op (seen_in (fst st))
        \<and> snd (mempool_step funcs op st) = fold (\<lambda>tx s. snd (call_handlers funcs tx s)) (announces op (seen_in (fst st))) (snd st)
        \<and> gomap_ok (fst (mempool_step funcs op st))"
      using assms map_of_filter_gomap [of txs "\<lambda>_ tx. \<not> mt_LastSeen tx < now - txsubmissionMempoolExpiration"]
      by (auto simp: st removeExpired_def Let_def seen_in_def fun_eq_iff split: option.splits)
  qed
qed

text \<open>C29: Over any sequence of submissions, confirmations and clean-ups, the mempool is one timer per
  transaction: it knows exactly those seen and neither confirmed since nor cleaned up more than an
  hour after they were last seen; and its handlers are called, once each and in order, for exactly
  the transactions that were not known when they were submitted.\<close>

theorem mempool_refines_timers:
  assumes "gomap_ok (fst st)"
  shows "seen_in (fst (fold (mempool_step funcs) ops st)) = fold timer_step ops (seen_in (fst st))
    \<and> snd (fold (mempool_step funcs) ops st)
        = fold (\<lambda>tx s. snd (call_handlers funcs tx s)) (announced_by ops (seen_in (fst st))) (snd st)"
  using assms
  by (induction ops arbitrary: st) (simp_all add: mempool_simulates)

text \<open>A transaction is announced again only after it was confirmed, or not seen for an hour.\<close>

lemma timer_forgets:
  assumes "seen h = Some t" and "fold timer_step ops seen h = None"
  shows "\<exists>a op b. ops = a @ op # b \<and> (op = ConfirmedOnChain h
    \<or> (\<exists>now t'. op = CleanUp now \<and> fold timer_step a seen h = Some t' \<and> now - t' > txsubmissionMempoolExpiration))"
  using assms
proof (induction ops arbitrary: seen t)
  case (Cons op ops)
  show ?case
  proof (cases "timer_step op seen h")
    case None
    then have "op = ConfirmedOnChain h \<or> (\<exists>now. op = CleanUp now \<and> now - t > txsubmissionMempoolExpiration)"
      using Cons.prems(1) by (cases op) (auto split: if_splits)
    then show ?thesis using Cons.prems(1) by (intro exI [of _ "[]"]) auto
  next
    case (Some t')
    then obtain a op' b where "ops = a @ op' # b" "op' = ConfirmedOnChain h
      \<or> (\<exists>now u. op' = CleanUp now \<and> fold timer_step a (timer_step op seen) h = Some u \<and> now - u > txsubmissionMempoolExpiration)"
      using Cons.IH [of "timer_step op seen" t'] Cons.prems(2) by auto
    then show ?thesis by (intro exI [of _ "op # a"] exI [of _ op'] exI [of _ b]) auto
  qed
qed simp

text \<open>A handler that keeps the hashes it is called with.\<close>

definition hash_log :: "(string list, unit) mempool_handlers" where
  "hash_log = [\<lambda>tx s. (None, s @ [mt_Hash tx])]"

theorem mempool_refines_timers_witness:
  "snd (fold (mempool_step hash_log)
      [Submitted 0 ''a'' 6 [1], Submitted 5 ''b'' 6 [2], Submitted 7 ''a'' 6 [1], ConfirmedOnChain ''b'', Submitted 9 ''b'' 6 [2],
       CleanUp (3600 * 1000000000 + 8), Submitted 3600000000010 ''a'' 6 [1]] ([], []))
     = [''a'', ''b'', ''b'', ''a'']"
proof -
  let ?ops = "[Submitted 0 ''a'' 6 [1], Submitted 5 ''b'' 6 [2], Submitted 7 ''a'' 6 [1], ConfirmedOnChain ''b'', Submitted 9 ''b'' 6 [2],
       CleanUp (3600 * 1000000000 + 8), Submitted 3600000000010 ''a'' 6 [1]]"
  have "snd (fold (mempool_step hash_log) ?ops ([], [])) = fold (\<lambda>tx s. snd (call_handlers hash_log tx s)) (announced_by ?ops (seen_in [])) []"
    using mempool_refines_timers [of "([], [])" hash_log ?ops] by (simp del: fold_simps)
  also have "\<dots> = [''a'', ''b'', ''b'', ''a'']"
    by (simp add: seen_in_def hash_log_def txsubmissionMempoolExpiration_def)
  finally show ?thesis .
qed

end
