(* ===== verification/Node_Chainsync.thy ===== *)
theory Node_Chainsync
  imports Node_Mempool
begin

text \<open>
  Serving the chain to peers (\<open>internal/node/chainsync.go\<close>, \<open>peersharing.go\<close>): the recent blocks, the
  channel of each subscribed connection, the handlers of the chain-sync and block-fetch protocols, and
  the indexer events that feed them.

  A channel is the list of what was sent and not yet received; a send to a channel that holds its
  capacity blocks, and the operation is \<open>None\<close>. The connection library's callbacks are the messages of
  the result. A goroutine that waits for the next block is a flag of the peer's connection, and
  \<open>deliver_waiting\<close> is its step.
\<close>

section \<open>Data\<close>

record chainsyncTip =
  ct_SlotNumber :: u64
  ct_BlockHash :: string
  ct_BlockNumber :: u64

record chainsyncBlock =
  cb_Tip :: chainsyncTip
  cb_Cbor :: bytes
  cb_Type :: nat
  cb_Rollback :: bool

record chain_point =
  pt_Slot :: u64
  pt_Hash :: bytes

record protocol_tip =
  tp_BlockNumber :: u64
  tp_Point :: chain_point

record 'c chainsyncClientState =
  cc_tip :: chainsyncTip
  cc_recentBlocks :: "chainsyncBlock list"
  cc_subs :: "('c, chainsyncBlock list) gomap"

record chainsyncServerState =
  cs_cursor :: chainsyncTip
  cs_needsInitialRollback :: bool

record 'c node_chain =
  nc_client :: "'c chainsyncClientState"
  nc_server :: "('c, chainsyncServerState) gomap"

definition maxRecentBlocks :: nat where
  "maxRecentBlocks = 20"

definition clientBlockBufferSize :: nat where
  "clientBlockBufferSize = 50"

definition zero_tip :: chainsyncTip where
  "zero_tip = \<lparr>ct_SlotNumber = 0, ct_BlockHash = [], ct_BlockNumber = 0\<rparr>"

text \<open>What \<open>hex.DecodeString\<close> returns, its error ignored: the bytes before the first bad digit.\<close>

fun hex_decoded :: "string \<Rightarrow> bytes" where
  "hex_decoded (a # b # cs) = (case (hex_val a, hex_val b) of
     (Some x, Some y) \<Rightarrow> word_of_nat (16 * x + y) # hex_decoded cs
   | _ \<Rightarrow> [])"
| "hex_decoded _ = []"

definition ToTip :: "chainsyncTip \<Rightarrow> protocol_tip" where
  "ToTip c = \<lparr>tp_BlockNumber = ct_BlockNumber c,
     tp_Point = \<lparr>pt_Slot = ct_SlotNumber c, pt_Hash = hex_decoded (ct_BlockHash c)\<rparr>\<rparr>"

definition chainsyncTip_String :: "chainsyncTip \<Rightarrow> string" where
  "chainsyncTip_String c = ''< slot_number = '' @ show_nat (unat (ct_SlotNumber c)) @ '', block_number = ''
     @ show_nat (unat (ct_BlockNumber c)) @ '', block_hash = '' @ ct_BlockHash c @ '' >''"

definition chainsyncBlock_String :: "chainsyncBlock \<Rightarrow> string" where
  "chainsyncBlock_String c = chainsyncTip_String (cb_Tip c) @ '' ('' @ show_nat (length (cb_Cbor c)) @ '' bytes)''"

section \<open>Subscriptions\<close>

definition Sub :: "'c \<Rightarrow> 'c chainsyncClientState \<Rightarrow> 'c chainsyncClientState option" where
  "Sub k c = (if length (cc_recentBlocks c) > clientBlockBufferSize then None
     else Some (c\<lparr>cc_subs := AList.update k (cc_recentBlocks c) (cc_subs c)\<rparr>))"

definition Unsub :: "'c \<Rightarrow> 'c chainsyncClientState \<Rightarrow> 'c chainsyncClientState" where
  "Unsub k c = c\<lparr>cc_subs := AList.delete k (cc_subs c)\<rparr>"

text \<open>A send to every subscriber, which blocks at the first full channel.\<close>

definition publish :: "chainsyncBlock \<Rightarrow> 'c chainsyncClientState \<Rightarrow> 'c chainsyncClientState option" where
  "publish block c =
     (if list_ex (\<lambda>(k, ch). length ch \<ge> clientBlockBufferSize) (cc_subs c) then None
      else Some (c\<lparr>cc_subs := map (\<lambda>(k, ch). (k, ch @ [block])) (cc_subs c)\<rparr>))"

definition AddBlock :: "chainsyncBlock \<Rightarrow> 'c chainsyncClientState \<Rightarrow> 'c chainsyncClientState option" where
  "AddBlock block c =
     (let blocks = cc_recentBlocks c @ [block];
          recent = (if length blocks > maxRecentBlocks then drop (length blocks - maxRecentBlocks) blocks else blocks)
      in publish block (c\<lparr>cc_recentBlocks := recent\<rparr>))"

definition client_Rollback :: "u64 \<Rightarrow> string \<Rightarrow> 'c chainsyncClientState \<Rightarrow> 'c chainsyncClientState option" where
  "client_Rollback slot blockHash c =
     (let recent = takeWhile (\<lambda>b. \<not> ct_SlotNumber (cb_Tip b) > slot) (cc_recentBlocks c)
      in publish \<lparr>cb_Tip = \<lparr>ct_SlotNumber = slot, ct_BlockHash = blockHash, ct_BlockNumber = 0\<rparr>, cb_Cbor = [], cb_Type = 0, cb_Rollback = True\<rparr>
           (c\<lparr>cc_recentBlocks := recent\<rparr>))"

section \<open>Indexer events\<close>

datatype node_event =
    RollbackEv u64 string
  | BlockEv u64 u64 string bytes
  | TransactionEv string
  | OtherEv

text \<open>
  The ledger library's block type is a parameter. The result tells whether there was an error; the
  block's fields are its slot, its number, its hash and its CBOR.
\<close>

definition chainsyncClientHandleEvent ::
  "(bytes \<Rightarrow> nat option) \<Rightarrow> node_event \<Rightarrow> 'c node_chain \<times> mempool_map \<Rightarrow> (bool \<times> 'c node_chain \<times> mempool_map) option" where
  "chainsyncClientHandleEvent blockType evt st = (case st of (n, txs) \<Rightarrow> (case evt of
     RollbackEv slot blockHash \<Rightarrow>
       map_option (\<lambda>c. (False, n\<lparr>nc_client := c\<rparr>, txs)) (client_Rollback slot blockHash (nc_client n))
   | BlockEv slot number blockHash cbor \<Rightarrow>
       (let tip = \<lparr>ct_SlotNumber = slot, ct_BlockHash = blockHash, ct_BlockNumber = number\<rparr>;
            c1 = (nc_client n)\<lparr>cc_tip := tip\<rparr>
        in case blockType cbor of
             None \<Rightarrow> Some (True, n\<lparr>nc_client := c1\<rparr>, txs)
           | Some t \<Rightarrow>
               map_option (\<lambda>c. (False, n\<lparr>nc_client := c\<rparr>, txs))
                 (AddBlock \<lparr>cb_Tip = tip, cb_Cbor = cbor, cb_Type = t, cb_Rollback = False\<rparr> c1))
   | TransactionEv txHash \<Rightarrow> Some (False, n, removeTransaction txHash txs)
   | OtherEv \<Rightarrow> Some (False, n, txs)))"

section \<open>The chain-sync server\<close>

datatype server_msg =
    RollBackward chain_point protocol_tip
  | RollForward nat bytes protocol_tip
  | AwaitReply

definition chainsyncServerStateInit :: "'c \<Rightarrow> chainsyncTip \<Rightarrow> 'c node_chain \<Rightarrow> 'c node_chain option" where
  "chainsyncServerStateInit connId cursor n = (case map_of (nc_server n) connId of
     Some _ \<Rightarrow> Some n
   | None \<Rightarrow> map_option (\<lambda>c. n\<lparr>nc_client := c,
       nc_server := AList.update connId \<lparr>cs_cursor = cursor, cs_needsInitialRollback = True\<rparr> (nc_server n)\<rparr>)
       (Sub connId (nc_client n)))"

text \<open>The last recent block that is at one of the points.\<close>

definition intersect_tip :: "chain_point list \<Rightarrow> chainsyncBlock list \<Rightarrow> chainsyncTip" where
  "intersect_tip points blocks =
     fold (\<lambda>b found. if list_ex (\<lambda>p. p = tp_Point (ToTip (cb_Tip b))) points then cb_Tip b else found) blocks zero_tip"

definition chainsyncServerFindIntersect ::
  "'c \<Rightarrow> chain_point list \<Rightarrow> 'c node_chain \<Rightarrow> (chain_point option \<times> protocol_tip \<times> 'c node_chain) option" where
  "chainsyncServerFindIntersect connId points n =
     (let intersectTip = intersect_tip points (cc_recentBlocks (nc_client n));
          retTip = ToTip (cc_tip (nc_client n))
      in if ct_SlotNumber intersectTip = 0 then Some (None, retTip, n)
         else map_option (\<lambda>n'. (Some (tp_Point (ToTip intersectTip)), retTip, n')) (chainsyncServerStateInit connId intersectTip n))"

definition chainsyncServerSendNext :: "'c node_chain \<Rightarrow> chainsyncBlock \<Rightarrow> server_msg" where
  "chainsyncServerSendNext n block =
     (if cb_Rollback block then RollBackward (tp_Point (ToTip (cb_Tip block))) (ToTip (cc_tip (nc_client n)))
      else RollForward (cb_Type block) (cb_Cbor block) (ToTip (cc_tip (nc_client n))))"

definition set_channel :: "'c \<Rightarrow> chainsyncBlock list \<Rightarrow> 'c node_chain \<Rightarrow> 'c node_chain" where
  "set_channel connId ch n = n\<lparr>nc_client := (nc_client n)\<lparr>cc_subs := AList.update connId ch (cc_subs (nc_client n))\<rparr>\<rparr>"

text \<open>
  The loop over the channel: blocks up to the cursor are ignored. The second part of the result is
  the goroutine that is left waiting.
\<close>

fun request_loop :: "'c \<Rightarrow> chainsyncTip \<Rightarrow> chainsyncBlock list \<Rightarrow> 'c node_chain \<Rightarrow> server_msg list \<times> bool \<times> 'c node_chain" where
  "request_loop connId cursor [] n = ([AwaitReply], True, set_channel connId [] n)"
| "request_loop connId cursor (block # ch) n =
     (if ct_SlotNumber cursor \<ge> ct_SlotNumber (cb_Tip block) then request_loop connId cursor ch n
      else ([chainsyncServerSendNext n block], False, set_channel connId ch n))"

definition chainsyncServerRequestNext :: "'c \<Rightarrow> 'c node_chain \<Rightarrow> (server_msg list \<times> bool \<times> 'c node_chain) option" where
  "chainsyncServerRequestNext connId n0 =
     map_option (\<lambda>n. case map_of (nc_server n) connId of
         None \<Rightarrow> ([], False, n)
       | Some serverState \<Rightarrow>
           if cs_needsInitialRollback serverState then
             ([RollBackward (tp_Point (ToTip (cs_cursor serverState))) (ToTip (cc_tip (nc_client n)))], False,
              n\<lparr>nc_server := AList.update connId (serverState\<lparr>cs_needsInitialRollback := False\<rparr>) (nc_server n)\<rparr>)
           else (case map_of (cc_subs (nc_client n)) connId of
             None \<Rightarrow> ([], False, n)
           | Some ch \<Rightarrow> request_loop connId (cs_cursor serverState) ch n))
       (chainsyncServerStateInit connId (cc_tip (nc_client n0)) n0)"

text \<open>The waiting goroutine takes the next block, whatever it is.\<close>

definition deliver_waiting :: "'c \<Rightarrow> 'c node_chain \<Rightarrow> (server_msg \<times> 'c node_chain) option" where
  "deliver_waiting connId n = (case map_of (cc_subs (nc_client n)) connId of
     Some (block # ch) \<Rightarrow> Some (chainsyncServerSendNext n block, set_channel connId ch n)
   | _ \<Rightarrow> None)"

text \<open>The part of \<open>connectionManagerConnClosed\<close> that cleans up here.\<close>

definition close_chainsync :: "'c \<Rightarrow> 'c node_chain \<Rightarrow> 'c node_chain" where
  "close_chainsync connId n = (case map_of (nc_server n) connId of
     None \<Rightarrow> n
   | Some _ \<Rightarrow> n\<lparr>nc_client := Unsub connId (nc_client n), nc_server := AList.delete connId (nc_server n)\<rparr>)"

section \<open>Block fetch and peer sharing\<close>

fun range_loop :: "u64 \<Rightarrow> u64 \<Rightarrow> chainsyncBlock list \<Rightarrow> chainsyncBlock list" where
  "range_loop from_slot to_slot [] = []"
| "range_loop from_slot to_slot (block # blocks) =
     (if ct_SlotNumber (cb_Tip block) < from_slot then range_loop from_slot to_slot blocks
      else if ct_SlotNumber (cb_Tip block) > to_slot then []
      else block # range_loop from_slot to_slot blocks)"

datatype batch_msg = StartBatch | BatchBlock nat bytes | BatchDone

definition blockfetchServerRequestRange :: "chain_point \<Rightarrow> chain_point \<Rightarrow> 'c node_chain \<Rightarrow> batch_msg list" where
  "blockfetchServerRequestRange start_point end_point n =
     [StartBatch] @ map (\<lambda>b. BatchBlock (cb_Type b) (cb_Cbor b))
        (range_loop (pt_Slot start_point) (pt_Slot end_point) (cc_recentBlocks (nc_client n))) @ [BatchDone]"

definition peerSharingShareRequest :: "int \<Rightarrow> string list" where
  "peerSharingShareRequest amount = []"

end
