(* ===== verification/Node_Serving.thy ===== *)
theory Node_Serving
  imports Node_Chainsync
begin

text \<open>
  What a peer gets from the chain-sync server: a step relation for one connection, from the
  intersection on, with the chain the node has followed since then and the chain the peer builds from
  the messages. The peer keeps up with the node, for rollbacks that stay after the intersection; the
  last section has the runs in which it does not.
\<close>

section \<open>Chains\<close>

abbreviation block_slot :: "chainsyncBlock \<Rightarrow> u64" where
  "block_slot b \<equiv> ct_SlotNumber (cb_Tip b)"

definition upto_slot :: "u64 \<Rightarrow> chain_point list \<Rightarrow> chain_point list" where
  "upto_slot s ps = filter (\<lambda>p. pt_Slot p \<le> s) ps"

abbreviation block_point :: "chainsyncBlock \<Rightarrow> chain_point" where
  "block_point b \<equiv> tp_Point (ToTip (cb_Tip b))"

lemma pt_Slot_ToTip [simp]: "pt_Slot (tp_Point (ToTip t)) = ct_SlotNumber t"
  by (simp add: ToTip_def)

text \<open>What a block of a channel does to a chain, and what a message does to the chain of a peer that
  reads a block's point from its CBOR.\<close>

definition follow :: "chainsyncBlock \<Rightarrow> chain_point list \<Rightarrow> chain_point list" where
  "follow b ps = (if cb_Rollback b then upto_slot (block_slot b) ps else ps @ [block_point b])"

fun peer_step :: "(bytes \<Rightarrow> chain_point) \<Rightarrow> server_msg \<Rightarrow> chain_point list \<Rightarrow> chain_point list" where
  "peer_step header (RollBackward p tip) ps = upto_slot (pt_Slot p) ps"
| "peer_step header (RollForward t body tip) ps = ps @ [header body]"
| "peer_step header AwaitReply ps = ps"

definition true_block :: "(bytes \<Rightarrow> chain_point) \<Rightarrow> chainsyncBlock \<Rightarrow> bool" where
  "true_block header b \<longleftrightarrow> \<not> cb_Rollback b \<longrightarrow> header (cb_Cbor b) = block_point b"

lemma peer_follows: "true_block header b \<Longrightarrow> peer_step header (chainsyncServerSendNext n b) ps = follow b ps"
  by (simp add: chainsyncServerSendNext_def follow_def true_block_def)

definition after :: "u64 \<Rightarrow> chainsyncBlock list \<Rightarrow> chainsyncBlock list" where
  "after s bs = filter (\<lambda>b. s < block_slot b) bs"

text \<open>
  \<open>serving header c conn n w chain peer\<close>: the peer of \<open>conn\<close> found the intersection \<open>c\<close> in a node whose
  recent blocks were in order; since then the node followed new blocks and rollbacks to slots after
  \<open>c\<close>, and the peer asked for messages. \<open>chain\<close> is the node's chain from \<open>c\<close> on, \<open>peer\<close> what the peer
  built, and \<open>w\<close> tells that a goroutine waits for it.
\<close>

inductive serving ::
  "(bytes \<Rightarrow> chain_point) \<Rightarrow> (bytes \<Rightarrow> nat option) \<Rightarrow> chainsyncTip \<Rightarrow> 'c \<Rightarrow> 'c node_chain \<Rightarrow> bool \<Rightarrow> chain_point list \<Rightarrow> chain_point list \<Rightarrow> bool"
  for header blockType c conn where
  found: "map_of (nc_server n) conn = None \<Longrightarrow> sorted_wrt (<) (map block_slot (cc_recentBlocks (nc_client n))) \<Longrightarrow>
    \<forall>b\<in>set (cc_recentBlocks (nc_client n)). \<not> cb_Rollback b \<and> true_block header b \<Longrightarrow>
    intersect_tip points (cc_recentBlocks (nc_client n)) = c \<Longrightarrow>
    chainsyncServerFindIntersect conn points n = Some (Some p, tip, n') \<Longrightarrow>
    serving header blockType c conn n' False (p # map block_point (after (ct_SlotNumber c) (cc_recentBlocks (nc_client n)))) [p]"
| block: "serving header blockType c conn n w chain peer \<Longrightarrow> ct_SlotNumber c < slot \<Longrightarrow>
    \<forall>b\<in>set (cc_recentBlocks (nc_client n)). block_slot b < slot \<Longrightarrow>
    header cbor = tp_Point (ToTip \<lparr>ct_SlotNumber = slot, ct_BlockHash = h, ct_BlockNumber = number\<rparr>) \<Longrightarrow>
    blockType cbor = Some t \<Longrightarrow>
    chainsyncClientHandleEvent blockType (BlockEv slot number h cbor) (n, txs) = Some (False, n', txs') \<Longrightarrow>
    serving header blockType c conn n' w (chain @ [header cbor]) peer"
| rollback: "serving header blockType c conn n w chain peer \<Longrightarrow> ct_SlotNumber c < slot \<Longrightarrow>
    chainsyncClientHandleEvent blockType (RollbackEv slot h) (n, txs) = Some (False, n', txs') \<Longrightarrow>
    serving header blockType c conn n' w (upto_slot slot chain) peer"
| request: "serving header blockType c conn n False chain peer \<Longrightarrow>
    chainsyncServerRequestNext conn n = Some (msgs, w, n') \<Longrightarrow>
    serving header blockType c conn n' w chain (fold (peer_step header) msgs peer)"
| waited: "serving header blockType c conn n True chain peer \<Longrightarrow> deliver_waiting conn n = Some (msg, n') \<Longrightarrow>
    serving header blockType c conn n' False chain (peer_step header msg peer)"
| other_request: "serving header blockType c conn n w chain peer \<Longrightarrow> conn' \<noteq> conn \<Longrightarrow>
    chainsyncServerRequestNext conn' n = Some (msgs, w', n') \<Longrightarrow> serving header blockType c conn n' w chain peer"
| other_waited: "serving header blockType c conn n w chain peer \<Longrightarrow> conn' \<noteq> conn \<Longrightarrow>
    deliver_waiting conn' n = Some (msg, n') \<Longrightarrow> serving header blockType c conn n' w chain peer"
| other_closed: "serving header blockType c conn n w chain peer \<Longrightarrow> conn' \<noteq> conn \<Longrightarrow>
    serving header blockType c conn (close_chainsync conn' n) w chain peer"

section \<open>The invariant\<close>

definition in_step ::
  "(bytes \<Rightarrow> chain_point) \<Rightarrow> chainsyncTip \<Rightarrow> 'c \<Rightarrow> 'c node_chain \<Rightarrow> bool \<Rightarrow> chain_point list \<Rightarrow> chain_point list \<Rightarrow> bool" where
  "in_step header c conn n w chain peer \<longleftrightarrow>
     (\<exists>ch s. map_of (cc_subs (nc_client n)) conn = Some ch \<and> map_of (nc_server n) conn = Some s \<and> cs_cursor s = c
        \<and> (\<forall>b\<in>set ch. true_block header b)
        \<and> fold follow (after (ct_SlotNumber c) ch) peer = chain
        \<and> (cs_needsInitialRollback s \<longrightarrow> peer = [tp_Point (ToTip c)] \<and> \<not> w)
        \<and> (w \<longrightarrow> (\<forall>b\<in>set ch. ct_SlotNumber c < block_slot b)))
     \<and> (\<exists>old. chain = tp_Point (ToTip c) # old @ map block_point (after (ct_SlotNumber c) (cc_recentBlocks (nc_client n))))
     \<and> sorted_wrt (<) (map block_slot (cc_recentBlocks (nc_client n)))"

lemma request_loop_result:
  "request_loop conn c ch n = (case after (ct_SlotNumber c) ch of
     [] \<Rightarrow> ([AwaitReply], True, set_channel conn [] n)
   | b # _ \<Rightarrow> ([chainsyncServerSendNext n b], False,
       set_channel conn (tl (dropWhile (\<lambda>b. block_slot b \<le> ct_SlotNumber c) ch)) n))"
  by (induction ch) (auto simp: after_def not_less split: list.splits)

lemma after_dropWhile: "after s (dropWhile (\<lambda>b. block_slot b \<le> s) ch) = after s ch"
  by (induction ch) (auto simp: after_def)

lemma after_snoc: "after s (bs @ [b]) = after s bs @ (if s < block_slot b then [b] else [])"
  by (simp add: after_def)

lemma channel_simps [simp]:
  "map_of (cc_subs (nc_client (set_channel conn ch n))) k = (if k = conn then Some ch else map_of (cc_subs (nc_client n)) k)"
  "nc_server (set_channel conn ch n) = nc_server n"
  "cc_recentBlocks (nc_client (set_channel conn ch n)) = cc_recentBlocks (nc_client n)"
  by (simp_all add: set_channel_def update_conv')

lemma publish_Some:
  assumes "publish b c = Some c'"
  shows "map_of (cc_subs c') k = map_option (\<lambda>ch. ch @ [b]) (map_of (cc_subs c) k) \<and> cc_recentBlocks c' = cc_recentBlocks c"
proof -
  have "cc_subs c' = map (\<lambda>(k, ch). (k, ch @ [b])) (cc_subs c)" "cc_recentBlocks c' = cc_recentBlocks c"
    using assms by (auto simp: publish_def split: if_splits)
  then show ?thesis using map_of_map_vals [of "\<lambda>_ ch. ch @ [b]" "cc_subs c" k] by simp
qed

lemma sorted_drop: "sorted_wrt P xs \<Longrightarrow> sorted_wrt P (drop k xs)"
  by (metis append_take_drop_id sorted_wrt_append)

lemma takeWhile_slots:
  assumes "sorted_wrt (<) (map block_slot bs)"
  shows "takeWhile (\<lambda>b. \<not> block_slot b > s) bs = filter (\<lambda>b. block_slot b \<le> s) bs"
  using assms
proof (induction bs)
  case (Cons b bs)
  then have ih: "takeWhile (\<lambda>b. \<not> block_slot b > s) bs = filter (\<lambda>b. block_slot b \<le> s) bs"
    and later: "\<forall>x\<in>set bs. block_slot b < block_slot x" by simp_all
  show ?case
  proof (cases "block_slot b \<le> s")
    case False
    then have "filter (\<lambda>b. block_slot b \<le> s) bs = []" using later by (auto simp: filter_empty_conv)
    then show ?thesis using False by simp
  qed (use ih in simp)
qed simp

text \<open>What the operations leave alone.\<close>

definition same_for :: "'c \<Rightarrow> 'c node_chain \<Rightarrow> 'c node_chain \<Rightarrow> bool" where
  "same_for conn n n' \<longleftrightarrow> map_of (cc_subs (nc_client n')) conn = map_of (cc_subs (nc_client n)) conn
     \<and> map_of (nc_server n') conn = map_of (nc_server n) conn
     \<and> cc_recentBlocks (nc_client n') = cc_recentBlocks (nc_client n)"

lemma in_step_same: "in_step header c conn n w chain peer \<Longrightarrow> same_for conn n n' \<Longrightarrow> in_step header c conn n' w chain peer"
  by (simp add: in_step_def same_for_def)

lemma same_for_trans: "same_for conn n n' \<Longrightarrow> same_for conn n' n'' \<Longrightarrow> same_for conn n n''"
  by (simp add: same_for_def)

lemma init_same: "chainsyncServerStateInit k t n = Some n' \<Longrightarrow> k \<noteq> conn \<Longrightarrow> same_for conn n n'"
  by (auto simp: chainsyncServerStateInit_def Sub_def same_for_def update_conv' split: option.splits if_splits)

lemma set_channel_same: "k \<noteq> conn \<Longrightarrow> same_for conn n (set_channel k ch n)"
  by (simp add: same_for_def)

lemma request_same:
  assumes "chainsyncServerRequestNext k n = Some (msgs, w, n')" and "k \<noteq> conn"
  shows "same_for conn n n'"
proof -
  obtain n1 where n1: "chainsyncServerStateInit k (cc_tip (nc_client n)) n = Some n1"
    using assms(1) by (auto simp: chainsyncServerRequestNext_def)
  have "same_for conn n1 n'"
    using assms n1
    by (auto simp: chainsyncServerRequestNext_def request_loop_result set_channel_same update_conv' same_for_def
        split: option.splits if_splits list.splits)
  then show ?thesis using same_for_trans [OF init_same [OF n1 assms(2)]] by blast
qed

lemma deliver_same: "deliver_waiting k n = Some (msg, n') \<Longrightarrow> k \<noteq> conn \<Longrightarrow> same_for conn n n'"
  by (auto simp: deliver_waiting_def set_channel_same split: option.splits list.splits)

lemma close_same: "k \<noteq> conn \<Longrightarrow> same_for conn n (close_chainsync k n)"
  by (auto simp: close_chainsync_def Unsub_def same_for_def delete_conv' split: option.splits)

text \<open>Each step keeps the invariant.\<close>

lemma follow_all: "\<forall>b\<in>set bs. \<not> cb_Rollback b \<Longrightarrow> fold follow bs ps = ps @ map block_point bs"
  by (induction bs arbitrary: ps) (simp_all add: follow_def)

lemma intersect_found: "chainsyncServerFindIntersect conn points n = Some (Some p, tip, n') \<Longrightarrow>
    p = tp_Point (ToTip (intersect_tip points (cc_recentBlocks (nc_client n))))
    \<and> chainsyncServerStateInit conn (intersect_tip points (cc_recentBlocks (nc_client n))) n = Some n'"
  by (auto simp: chainsyncServerFindIntersect_def Let_def split: if_splits)

lemma found_in_step:
  assumes "map_of (nc_server n) conn = None" and "sorted_wrt (<) (map block_slot (cc_recentBlocks (nc_client n)))"
    and "\<forall>b\<in>set (cc_recentBlocks (nc_client n)). \<not> cb_Rollback b \<and> true_block header b"
    and "intersect_tip points (cc_recentBlocks (nc_client n)) = c"
    and "chainsyncServerFindIntersect conn points n = Some (Some p, tip, n')"
  shows "in_step header c conn n' False (p # map block_point (after (ct_SlotNumber c) (cc_recentBlocks (nc_client n)))) [p]"
proof -
  have p: "p = tp_Point (ToTip c)" and i: "chainsyncServerStateInit conn c n = Some n'"
    using intersect_found [OF assms(5)] assms(4) by simp_all
  have n': "map_of (cc_subs (nc_client n')) conn = Some (cc_recentBlocks (nc_client n))"
    "map_of (nc_server n') conn = Some \<lparr>cs_cursor = c, cs_needsInitialRollback = True\<rparr>"
    "cc_recentBlocks (nc_client n') = cc_recentBlocks (nc_client n)"
    using i assms(1) by (auto simp: chainsyncServerStateInit_def Sub_def update_conv' split: if_splits)
  have "fold follow (after (ct_SlotNumber c) (cc_recentBlocks (nc_client n))) [p]
      = p # map block_point (after (ct_SlotNumber c) (cc_recentBlocks (nc_client n)))"
    using assms(3) follow_all [of "after (ct_SlotNumber c) (cc_recentBlocks (nc_client n))" "[p]"] by (simp add: after_def)
  then show ?thesis using assms(2,3) by (simp add: in_step_def n' p)
qed

lemma recent_after_block:
  fixes c :: "'c chainsyncClientState"
  assumes "AddBlock b c = Some c'" and "sorted_wrt (<) (map block_slot (cc_recentBlocks c))"
    and "\<forall>x\<in>set (cc_recentBlocks c). block_slot x < block_slot b"
  shows "sorted_wrt (<) (map block_slot (cc_recentBlocks c'))"
    and "\<exists>gone. after s (cc_recentBlocks c @ [b]) = gone @ after s (cc_recentBlocks c')"
    and "map_of (cc_subs c') k = map_option (\<lambda>ch. ch @ [b]) (map_of (cc_subs c) k)"
proof -
  let ?bs = "cc_recentBlocks c @ [b]"
  define d where "d = (if length ?bs > maxRecentBlocks then length ?bs - maxRecentBlocks else 0)"
  have "publish b (c\<lparr>cc_recentBlocks := drop d ?bs\<rparr>) = Some c'"
    using assms(1) by (cases "length ?bs > maxRecentBlocks") (simp_all add: AddBlock_def d_def Let_def)
  from publish_Some [OF this]
  have d: "cc_recentBlocks c' = drop d ?bs" and subs: "map_of (cc_subs c') k = map_option (\<lambda>ch. ch @ [b]) (map_of (cc_subs c) k)"
    by simp_all
  have "sorted_wrt (<) (map block_slot ?bs)" using assms(2,3) by (simp add: sorted_wrt_append)
  then show "sorted_wrt (<) (map block_slot (cc_recentBlocks c'))" unfolding d drop_map [symmetric] by (rule sorted_drop)
  have "after s ?bs = after s (take d ?bs) @ after s (drop d ?bs)"
    by (metis after_def append_take_drop_id filter_append)
  then show "\<exists>gone. after s ?bs = gone @ after s (cc_recentBlocks c')" unfolding d by blast
  show "map_of (cc_subs c') k = map_option (\<lambda>ch. ch @ [b]) (map_of (cc_subs c) k)" by (rule subs)
qed

lemma block_in_step:
  assumes "in_step header c conn n w chain peer" and "ct_SlotNumber c < slot"
    and "\<forall>b\<in>set (cc_recentBlocks (nc_client n)). block_slot b < slot"
    and "header cbor = tp_Point (ToTip \<lparr>ct_SlotNumber = slot, ct_BlockHash = h, ct_BlockNumber = number\<rparr>)"
    and "blockType cbor = Some t"
    and "chainsyncClientHandleEvent blockType (BlockEv slot number h cbor) (n, txs) = Some (False, n', txs')"
  shows "in_step header c conn n' w (chain @ [header cbor]) peer"
proof -
  let ?b = "\<lparr>cb_Tip = \<lparr>ct_SlotNumber = slot, ct_BlockHash = h, ct_BlockNumber = number\<rparr>, cb_Cbor = cbor, cb_Type = t, cb_Rollback = False\<rparr>"
  let ?c1 = "(nc_client n)\<lparr>cc_tip := cb_Tip ?b\<rparr>"
  obtain c' where add: "AddBlock ?b ?c1 = Some c'" and n': "n' = n\<lparr>nc_client := c'\<rparr>"
    using assms(5,6) by (auto simp: chainsyncClientHandleEvent_def Let_def)
  obtain ch s old where i: "map_of (cc_subs (nc_client n)) conn = Some ch" "map_of (nc_server n) conn = Some s" "cs_cursor s = c"
      "\<forall>b\<in>set ch. true_block header b" "fold follow (after (ct_SlotNumber c) ch) peer = chain"
      "cs_needsInitialRollback s \<longrightarrow> peer = [tp_Point (ToTip c)] \<and> \<not> w" "w \<longrightarrow> (\<forall>b\<in>set ch. ct_SlotNumber c < block_slot b)"
    and chain: "chain = tp_Point (ToTip c) # old @ map block_point (after (ct_SlotNumber c) (cc_recentBlocks (nc_client n)))"
    and srt: "sorted_wrt (<) (map block_slot (cc_recentBlocks (nc_client n)))"
    using assms(1) by (auto simp: in_step_def)
  note recent = recent_after_block [OF add, simplified, OF srt assms(3)]
  obtain gone where gone: "after (ct_SlotNumber c) (cc_recentBlocks (nc_client n) @ [?b]) = gone @ after (ct_SlotNumber c) (cc_recentBlocks c')"
    using recent(2) [of "ct_SlotNumber c"] by auto
  have "chain @ [header cbor] = tp_Point (ToTip c) # old @ map block_point (after (ct_SlotNumber c) (cc_recentBlocks (nc_client n) @ [?b]))"
    using assms(2,4) by (simp add: chain after_snoc)
  then have chain': "chain @ [header cbor] = tp_Point (ToTip c) # (old @ map block_point gone) @ map block_point (after (ct_SlotNumber c) (cc_recentBlocks c'))"
    unfolding gone by simp
  have "fold follow (after (ct_SlotNumber c) (ch @ [?b])) peer = chain @ [header cbor]"
    using assms(2,4) i(5) by (simp add: after_snoc follow_def)
  then show ?thesis
    using i recent(1) recent(3) [of conn] assms(2,4) chain' by (fastforce simp: in_step_def n' true_block_def)
qed

lemma upto_slot_chain:
  assumes "ct_SlotNumber c < slot" and "sorted_wrt (<) (map block_slot bs)"
  shows "upto_slot slot (tp_Point (ToTip c) # old @ map block_point (after (ct_SlotNumber c) bs))
    = tp_Point (ToTip c) # upto_slot slot old @ map block_point (after (ct_SlotNumber c) (takeWhile (\<lambda>b. \<not> block_slot b > slot) bs))"
proof -
  have "upto_slot slot (map block_point (after (ct_SlotNumber c) bs)) = map block_point (after (ct_SlotNumber c) (filter (\<lambda>b. block_slot b \<le> slot) bs))"
    by (induction bs) (simp_all add: upto_slot_def after_def)
  then show ?thesis
    using assms(1) takeWhile_slots [OF assms(2)] by (simp add: upto_slot_def)
qed

lemma rollback_in_step:
  assumes "in_step header c conn n w chain peer" and "ct_SlotNumber c < slot"
    and "chainsyncClientHandleEvent blockType (RollbackEv slot h) (n, txs) = Some (False, n', txs')"
  shows "in_step header c conn n' w (upto_slot slot chain) peer"
proof -
  let ?b = "\<lparr>cb_Tip = \<lparr>ct_SlotNumber = slot, ct_BlockHash = h, ct_BlockNumber = 0\<rparr>, cb_Cbor = [], cb_Type = 0, cb_Rollback = True\<rparr>"
  let ?rec = "takeWhile (\<lambda>b. \<not> block_slot b > slot) (cc_recentBlocks (nc_client n))"
  obtain c' where pub: "publish ?b ((nc_client n)\<lparr>cc_recentBlocks := ?rec\<rparr>) = Some c'" and n': "n' = n\<lparr>nc_client := c'\<rparr>"
    using assms(3) by (auto simp: chainsyncClientHandleEvent_def client_Rollback_def Let_def)
  obtain ch s old where i: "map_of (cc_subs (nc_client n)) conn = Some ch" "map_of (nc_server n) conn = Some s" "cs_cursor s = c"
      "\<forall>b\<in>set ch. true_block header b" "fold follow (after (ct_SlotNumber c) ch) peer = chain"
      "cs_needsInitialRollback s \<longrightarrow> peer = [tp_Point (ToTip c)] \<and> \<not> w" "w \<longrightarrow> (\<forall>b\<in>set ch. ct_SlotNumber c < block_slot b)"
    and chain: "chain = tp_Point (ToTip c) # old @ map block_point (after (ct_SlotNumber c) (cc_recentBlocks (nc_client n)))"
    and srt: "sorted_wrt (<) (map block_slot (cc_recentBlocks (nc_client n)))"
    using assms(1) by (auto simp: in_step_def)
  have subs: "map_of (cc_subs c') conn = Some (ch @ [?b])" "cc_recentBlocks c' = ?rec"
    using publish_Some [OF pub] i(1) by simp_all
  have "sorted_wrt (<) (map block_slot ?rec)"
    using srt by (metis sorted_wrt_append takeWhile_dropWhile_id map_append)
  moreover have "fold follow (after (ct_SlotNumber c) (ch @ [?b])) peer = upto_slot slot chain"
    using assms(2) i(5) by (simp add: after_snoc follow_def)
  ultimately show ?thesis
    using i assms(2) subs upto_slot_chain [OF assms(2) srt, of old] chain
    by (fastforce simp: in_step_def n' true_block_def)
qed

lemma request_in_step:
  assumes "in_step header c conn n False chain peer" and "chainsyncServerRequestNext conn n = Some (msgs, w, n')"
  shows "in_step header c conn n' w chain (fold (peer_step header) msgs peer)"
proof -
  obtain ch s old where i: "map_of (cc_subs (nc_client n)) conn = Some ch" "map_of (nc_server n) conn = Some s" "cs_cursor s = c"
      "\<forall>b\<in>set ch. true_block header b" "fold follow (after (ct_SlotNumber c) ch) peer = chain"
      "cs_needsInitialRollback s \<longrightarrow> peer = [tp_Point (ToTip c)]"
    and rest: "chain = tp_Point (ToTip c) # old @ map block_point (after (ct_SlotNumber c) (cc_recentBlocks (nc_client n)))"
      "sorted_wrt (<) (map block_slot (cc_recentBlocks (nc_client n)))"
    using assms(1) by (auto simp: in_step_def)
  show ?thesis
  proof (cases "cs_needsInitialRollback s")
    case True
    then have "msgs = [RollBackward (tp_Point (ToTip c)) (ToTip (cc_tip (nc_client n)))]" "\<not> w"
      "n' = n\<lparr>nc_server := AList.update conn (s\<lparr>cs_needsInitialRollback := False\<rparr>) (nc_server n)\<rparr>"
      using assms(2) i by (auto simp: chainsyncServerRequestNext_def chainsyncServerStateInit_def)
    moreover have "upto_slot (ct_SlotNumber c) [tp_Point (ToTip c)] = [tp_Point (ToTip c)]" by (simp add: upto_slot_def)
    ultimately show ?thesis using i rest True by (auto simp: in_step_def update_conv')
  next
    case False
    then have r: "request_loop conn c ch n = (msgs, w, n')"
      using assms(2) i by (auto simp: chainsyncServerRequestNext_def chainsyncServerStateInit_def)
    show ?thesis
    proof (cases "after (ct_SlotNumber c) ch")
      case Nil
      then have "msgs = [AwaitReply]" "w" "n' = set_channel conn [] n"
        using r by (auto simp: request_loop_result)
      then show ?thesis using i rest False Nil by (auto simp: in_step_def after_def)
    next
      case (Cons b bs)
      let ?ch = "tl (dropWhile (\<lambda>b. block_slot b \<le> ct_SlotNumber c) ch)"
      have res: "msgs = [chainsyncServerSendNext n b]" "\<not> w" "n' = set_channel conn ?ch n"
        using r Cons by (auto simp: request_loop_result)
      have "b \<in> set (after (ct_SlotNumber c) ch)" using Cons by simp
      then have b: "b \<in> set ch" by (simp add: after_def)
      obtain b' bs' where d: "dropWhile (\<lambda>b. block_slot b \<le> ct_SlotNumber c) ch = b' # bs'"
        using Cons after_dropWhile [of "ct_SlotNumber c" ch] by (cases "dropWhile (\<lambda>b. block_slot b \<le> ct_SlotNumber c) ch") (auto simp: after_def)
      have "\<not> block_slot b' \<le> ct_SlotNumber c" using d by (metis hd_dropWhile list.distinct(1) list.sel(1))
      then have tail: "after (ct_SlotNumber c) ?ch = bs"
        using Cons after_dropWhile [of "ct_SlotNumber c" ch] d by (simp add: after_def not_le)
      have sub: "set ?ch \<subseteq> set ch" using d by (metis list.sel(3) set_dropWhileD set_subset_Cons subset_iff)
      have "fold (peer_step header) msgs peer = follow b peer"
        using res(1) peer_follows [of header b n peer] i(4) b by simp
      then show ?thesis
        using i rest False Cons res tail sub by (auto simp: in_step_def)
    qed
  qed
qed

lemma waited_in_step:
  assumes "in_step header c conn n True chain peer" and "deliver_waiting conn n = Some (msg, n')"
  shows "in_step header c conn n' False chain (peer_step header msg peer)"
proof -
  obtain ch s old where i: "map_of (cc_subs (nc_client n)) conn = Some ch" "map_of (nc_server n) conn = Some s" "cs_cursor s = c"
      "\<forall>b\<in>set ch. true_block header b" "fold follow (after (ct_SlotNumber c) ch) peer = chain"
      "\<not> cs_needsInitialRollback s" "\<forall>b\<in>set ch. ct_SlotNumber c < block_slot b"
    and rest: "chain = tp_Point (ToTip c) # old @ map block_point (after (ct_SlotNumber c) (cc_recentBlocks (nc_client n)))"
      "sorted_wrt (<) (map block_slot (cc_recentBlocks (nc_client n)))"
    using assms(1) by (auto simp: in_step_def)
  obtain b bs where "ch = b # bs" "msg = chainsyncServerSendNext n b" "n' = set_channel conn bs n"
    using assms(2) i(1) by (auto simp: deliver_waiting_def split: list.splits)
  then show ?thesis
    using i rest peer_follows [of header b n peer] by (auto simp: in_step_def after_def)
qed

lemma serving_in_step: "serving header blockType c conn n w chain peer \<Longrightarrow> in_step header c conn n w chain peer"
proof (induction rule: serving.induct)
  case found
  then show ?case by (intro found_in_step)
next
  case block
  then show ?case by (intro block_in_step) assumption+
next
  case rollback
  then show ?case by (intro rollback_in_step) assumption+
next
  case request
  then show ?case by (intro request_in_step)
next
  case waited
  then show ?case by (intro waited_in_step)
next
  case other_request
  then show ?case using in_step_same request_same by metis
next
  case other_waited
  then show ?case using in_step_same deliver_same by metis
next
  case other_closed
  then show ?case using in_step_same close_same by metis
qed

section \<open>The peer keeps up\<close>

text \<open>C27: A peer that found an intersection and asks for messages builds the node's own chain: whenever its
  channel is empty it has, from the intersection on, exactly the blocks the node followed and did not
  roll back, the node's recent ones last; and otherwise the blocks still in its channel bring it there.
  This holds while rollbacks stay after the intersection.\<close>

theorem peer_keeps_up:
  assumes "serving header blockType c conn n w chain peer"
  shows "\<exists>ch. map_of (cc_subs (nc_client n)) conn = Some ch
    \<and> fold follow (after (ct_SlotNumber c) ch) peer = chain \<and> (ch = [] \<longrightarrow> peer = chain)
    \<and> (\<exists>old. chain = tp_Point (ToTip c) # old @ map block_point (after (ct_SlotNumber c) (cc_recentBlocks (nc_client n))))"
  using serving_in_step [OF assms] by (auto simp: in_step_def after_def)

text \<open>A range of blocks: the recent ones between the two slots.\<close>

lemma range_loop_exact:
  "sorted_wrt (<) (map block_slot bs) \<Longrightarrow> range_loop a b bs = filter (\<lambda>x. a \<le> block_slot x \<and> block_slot x \<le> b) bs"
proof (induction bs)
  case (Cons x bs)
  then have later: "\<forall>y\<in>set bs. block_slot x < block_slot y" by simp
  show ?case
  proof (cases "b < block_slot x")
    case True
    then have "filter (\<lambda>x. a \<le> block_slot x \<and> block_slot x \<le> b) bs = []"
      using later by (metis (mono_tags, lifting) filter_False leD order_less_trans)
    then show ?thesis using True Cons by auto
  next
    case False
    then show ?thesis using Cons by auto
  qed
qed simp

section \<open>Where the peer is left behind\<close>

definition header_of :: "bytes \<Rightarrow> chain_point" where
  "header_of body = \<lparr>pt_Slot = ucast (body ! 0), pt_Hash = [body ! 1]\<rparr>"

definition demo_block :: "u8 \<Rightarrow> u8 \<Rightarrow> chainsyncBlock" where
  "demo_block slot h = \<lparr>cb_Tip = \<lparr>ct_SlotNumber = ucast slot, ct_BlockHash = hex_encode [h], ct_BlockNumber = ucast slot\<rparr>,
     cb_Cbor = [slot, h], cb_Type = 6, cb_Rollback = False\<rparr>"

definition demo_node :: "nat node_chain" where
  "demo_node = \<lparr>nc_client = \<lparr>cc_tip = cb_Tip (demo_block 20 2), cc_recentBlocks = [demo_block 10 1, demo_block 20 2], cc_subs = []\<rparr>,
     nc_server = []\<rparr>"

text \<open>A run of events and requests of one connection, with the messages it gets.\<close>

datatype node_op = Ev node_event | Req | Fire | Find "chain_point list"

fun run_node :: "node_op list \<Rightarrow> nat node_chain \<Rightarrow> server_msg list option" where
  "run_node [] n = Some []"
| "run_node (Ev e # ops) n = (case chainsyncClientHandleEvent (\<lambda>_. Some 6) e (n, []) of
     None \<Rightarrow> None | Some (_, n', _) \<Rightarrow> run_node ops n')"
| "run_node (Req # ops) n = (case chainsyncServerRequestNext 1 n of
     None \<Rightarrow> None | Some (msgs, _, n') \<Rightarrow> map_option (\<lambda>ms. msgs @ ms) (run_node ops n'))"
| "run_node (Fire # ops) n = (case deliver_waiting 1 n of
     None \<Rightarrow> run_node ops n | Some (msg, n') \<Rightarrow> map_option (\<lambda>ms. msg # ms) (run_node ops n'))"
| "run_node (Find ps # ops) n = (case chainsyncServerFindIntersect 1 ps n of
     None \<Rightarrow> None | Some (_, _, n') \<Rightarrow> run_node ops n')"

definition block_event :: "u8 \<Rightarrow> u8 \<Rightarrow> node_event" where
  "block_event slot h = BlockEv (ucast slot) (ucast slot) (hex_encode [h]) [slot, h]"

definition demo_point :: "u64 \<Rightarrow> u8 \<Rightarrow> chain_point" where
  "demo_point slot h = \<lparr>pt_Slot = slot, pt_Hash = [h]\<rparr>"

text \<open>
  A rollback to the intersection is ignored as a block already sent: the peer keeps a block that the
  node rolled back, and puts the new block after it.
\<close>

lemma rollback_to_intersection_lost:
  "map_option (\<lambda>ms. fold (peer_step header_of) ms [demo_point 20 2])
     (run_node [Find [demo_point 20 2], Req, Ev (block_event 30 3), Req, Ev (RollbackEv 20 (hex_encode [2])), Ev (block_event 25 4), Req] demo_node)
   = Some [demo_point 20 2, demo_point 30 3, demo_point 25 4]"
  by code_simp

text \<open>The tip the node reports after a rollback is the block that was rolled back.\<close>

lemma tip_not_rolled_back:
  "case chainsyncClientHandleEvent (\<lambda>_. Some 6) (RollbackEv 10 (hex_encode [1])) (demo_node, []) of
     None \<Rightarrow> False
   | Some (_, n, _) \<Rightarrow> map block_slot (cc_recentBlocks (nc_client n)) = [10] \<and> ct_SlotNumber (cc_tip (nc_client n)) = 20"
  by code_simp

text \<open>A second search for an intersection answers with the new point and serves from the first one.\<close>

lemma second_intersection_ignored:
  "map_option (\<lambda>ms. map (\<lambda>m. case m of RollBackward p _ \<Rightarrow> Some p | _ \<Rightarrow> None) ms)
     (run_node [Find [demo_point 20 2], Find [demo_point 10 1], Req] demo_node) = Some [Some (demo_point 20 2)]"
  by code_simp

text \<open>One subscriber that asks for nothing stops the node: the next block cannot be added.\<close>

lemma full_channel_blocks:
  assumes "(conn, ch) \<in> set (cc_subs c)" and "length ch \<ge> clientBlockBufferSize"
  shows "AddBlock b c = None" and "client_Rollback slot h c = None"
  using assms by (auto simp: AddBlock_def client_Rollback_def publish_def Let_def list_ex_iff)

section \<open>A concrete peer\<close>

definition demo_found :: "nat node_chain" where
  "demo_found = \<lparr>nc_client = (nc_client demo_node)\<lparr>cc_subs := [(1, [demo_block 10 1, demo_block 20 2])]\<rparr>,
     nc_server = [(1, \<lparr>cs_cursor = cb_Tip (demo_block 20 2), cs_needsInitialRollback = True\<rparr>)]\<rparr>"

definition demo_followed :: "nat node_chain" where
  "demo_followed = \<lparr>nc_client = \<lparr>cc_tip = cb_Tip (demo_block 30 3), cc_recentBlocks = [demo_block 10 1, demo_block 20 2, demo_block 30 3],
     cc_subs = [(1, [demo_block 10 1, demo_block 20 2, demo_block 30 3])]\<rparr>, nc_server = nc_server demo_found\<rparr>"

lemma demo_run:
  "chainsyncServerFindIntersect 1 [demo_point 20 2] demo_node = Some (Some (demo_point 20 2), ToTip (cb_Tip (demo_block 20 2)), demo_found)"
  "chainsyncClientHandleEvent (\<lambda>_. Some 6) (BlockEv 30 30 (hex_encode [3]) [30, 3]) (demo_found, []) = Some (False, demo_followed, [])"
  "intersect_tip [demo_point 20 2] (cc_recentBlocks (nc_client demo_node)) = cb_Tip (demo_block 20 2)"
  "header_of [30, 3] = tp_Point (ToTip \<lparr>ct_SlotNumber = 30, ct_BlockHash = hex_encode [3], ct_BlockNumber = 30\<rparr>)"
  "header_of [30, 3] = demo_point 30 3"
  by code_simp+

lemma demo_blocks:
  "cc_recentBlocks (nc_client demo_node) = [demo_block 10 1, demo_block 20 2]"
  "cc_recentBlocks (nc_client demo_found) = [demo_block 10 1, demo_block 20 2]"
  "map_of (nc_server demo_node) 1 = None" "ct_SlotNumber (cb_Tip (demo_block s h)) = ucast s"
  "\<not> cb_Rollback (demo_block s h)"
  by (simp_all add: demo_node_def demo_found_def demo_block_def)

lemma demo_headers: "true_block header_of (demo_block 10 1)" "true_block header_of (demo_block 20 2)"
  by code_simp+

lemma demo_serving:
  "serving header_of (\<lambda>_. Some 6) (cb_Tip (demo_block 20 2)) 1 demo_followed False [demo_point 20 2, demo_point 30 3] [demo_point 20 2]"
proof -
  have "serving header_of (\<lambda>_. Some 6) (cb_Tip (demo_block 20 2)) 1 demo_found False
      (demo_point 20 2 # map block_point (after (ct_SlotNumber (cb_Tip (demo_block 20 2))) (cc_recentBlocks (nc_client demo_node)))) [demo_point 20 2]"
    by (rule found [OF demo_blocks(3) _ _ demo_run(3,1)]) (simp_all add: demo_blocks demo_headers)
  then have "serving header_of (\<lambda>_. Some 6) (cb_Tip (demo_block 20 2)) 1 demo_found False [demo_point 20 2] [demo_point 20 2]"
    by (simp add: demo_blocks after_def)
  from block [OF this _ _ demo_run(4) _ demo_run(2)]
  show ?thesis by (simp add: demo_blocks demo_run(5))
qed

theorem peer_keeps_up_witness:
  "\<exists>ch. map_of (cc_subs (nc_client demo_followed)) 1 = Some ch
     \<and> fold follow (after 20 ch) [demo_point 20 2] = [demo_point 20 2, demo_point 30 3]"
  using peer_keeps_up [OF demo_serving] by (auto simp: demo_blocks)

end
