(* ===== verification/Node_Outbound.thy ===== *)
theory Node_Outbound
  imports Node_Chainsync
begin

text \<open>
  Sending transactions out (\<open>internal/node/txsubmission.go\<close>, \<open>internal/node/node.go\<close>,
  \<open>internal/txsubmit/*.go\<close>): the channel and the cache of each outbound connection, the two client
  callbacks of the tx-submission protocol, the registration and the closing of a connection, the
  reconnection delays, and the queue in front of it all.

  A channel is the list of what is not yet received. \<open>None\<close> is an operation that blocks. The ledger
  library (type and hash of a transaction) and the HTTP client are parameters.
\<close>

section \<open>Data\<close>

record ntnTransaction =
  nt_Hash :: string
  nt_Type :: nat
  nt_Cbor :: bytes

record outboundPeer =
  op_Address :: string
  op_ReconnectCount :: int
  op_ReconnectDelay :: duration

record 'c outbound =
  ob_conns :: "('c, outboundPeer) gomap"
  ob_chans :: "('c, ntnTransaction list) gomap"
  ob_cache :: "('c, (string, ntnTransaction) gomap) gomap"

definition maxOutboundTransactions :: nat where
  "maxOutboundTransactions = 20"

datatype outbound_error = UnknownType | UnparseableTx | BadTxHash | ShortHashPanic

record tx_id_and_size =
  ti_EraId :: "16 word"
  ti_TxId :: bytes
  ti_Size :: u32

section \<open>Transactions\<close>

definition parse_outbound :: "(bytes \<Rightarrow> nat option) \<Rightarrow> tx_parser \<Rightarrow> bytes \<Rightarrow> outbound_error + ntnTransaction" where
  "parse_outbound txType parse txBytes = (case txType txBytes of
     None \<Rightarrow> Inl UnknownType
   | Some t \<Rightarrow> (case parse t txBytes of
       None \<Rightarrow> Inl UnparseableTx
     | Some h \<Rightarrow> Inr \<lparr>nt_Hash = h, nt_Type = t, nt_Cbor = txBytes\<rparr>))"

definition AddOutboundTransaction ::
  "(bytes \<Rightarrow> nat option) \<Rightarrow> tx_parser \<Rightarrow> bytes \<Rightarrow> 'c outbound \<Rightarrow> (outbound_error option \<times> 'c outbound) option" where
  "AddOutboundTransaction txType parse txBytes st = (case parse_outbound txType parse txBytes of
     Inl e \<Rightarrow> Some (Some e, st)
   | Inr tmpTx \<Rightarrow>
       if list_ex (\<lambda>(k, ch). length ch \<ge> maxOutboundTransactions) (ob_chans st) then None
       else Some (None, st\<lparr>ob_chans := map (\<lambda>(k, ch). (k, ch @ [tmpTx])) (ob_chans st)\<rparr>))"

text \<open>The ids that are returned, each put in the cache while the connection still has one.\<close>

fun announce_txs ::
  "'c \<Rightarrow> ntnTransaction list \<Rightarrow> 'c outbound \<Rightarrow> tx_id_and_size list \<Rightarrow> outbound_error option \<times> tx_id_and_size list \<times> 'c outbound" where
  "announce_txs connId [] st ret = (None, ret, st)"
| "announce_txs connId (tmpTx # txs) st ret = (case hex_decode (nt_Hash tmpTx) of
     None \<Rightarrow> (Some BadTxHash, [], st)
   | Some txHashBytes \<Rightarrow>
       if length txHashBytes < 32 then (Some ShortHashPanic, [], st)
       else announce_txs connId txs
         (case map_of (ob_cache st) connId of
            None \<Rightarrow> st
          | Some m \<Rightarrow> st\<lparr>ob_cache := AList.update connId (AList.update (nt_Hash tmpTx) tmpTx m) (ob_cache st)\<rparr>)
         (ret @ [\<lparr>ti_EraId = word_of_nat (nt_Type tmpTx), ti_TxId = take 32 txHashBytes,
                  ti_Size = word_of_nat (length (nt_Cbor tmpTx))\<rparr>]))"

definition txsubmissionClientRequestTxIds ::
  "'c \<Rightarrow> bool \<Rightarrow> nat \<Rightarrow> nat \<Rightarrow> 'c outbound \<Rightarrow> (outbound_error option \<times> tx_id_and_size list \<times> 'c outbound) option" where
  "txsubmissionClientRequestTxIds connId blocking ack req st0 =
     (let st = (if ack > 0 then st0\<lparr>ob_cache := AList.update connId [] (ob_cache st0)\<rparr> else st0)
      in case map_of (ob_chans st) connId of
           None \<Rightarrow> Some (None, [], st)
         | Some txChan \<Rightarrow>
             if blocking \<and> txChan = [] then None
             else Some (announce_txs connId txChan (st\<lparr>ob_chans := AList.update connId [] (ob_chans st)\<rparr>) []))"

fun txsubmissionClientRequestTxs :: "'c \<Rightarrow> bytes list \<Rightarrow> 'c outbound \<Rightarrow> (16 word \<times> bytes) list" where
  "txsubmissionClientRequestTxs connId [] st = []"
| "txsubmissionClientRequestTxs connId (txId # txIds) st =
     (case (case map_of (ob_cache st) connId of None \<Rightarrow> None | Some m \<Rightarrow> map_of m (hex_encode txId)) of
        None \<Rightarrow> txsubmissionClientRequestTxs connId txIds st
      | Some tx \<Rightarrow> (word_of_nat (nt_Type tx), nt_Cbor tx) # txsubmissionClientRequestTxs connId txIds st)"

section \<open>Connections\<close>

text \<open>The end of \<open>createOutboundConnection\<close>, after the connection manager took the connection: three
  steps under three locks.\<close>

definition track_connection :: "'c \<Rightarrow> outboundPeer \<Rightarrow> 'c outbound \<Rightarrow> 'c outbound" where
  "track_connection connId peer st = st\<lparr>ob_conns := AList.update connId peer (ob_conns st)\<rparr>"

definition add_channel :: "'c \<Rightarrow> 'c outbound \<Rightarrow> 'c outbound" where
  "add_channel connId st = st\<lparr>ob_chans := AList.update connId [] (ob_chans st)\<rparr>"

definition add_cache :: "'c \<Rightarrow> 'c outbound \<Rightarrow> 'c outbound" where
  "add_cache connId st = st\<lparr>ob_cache := AList.update connId [] (ob_cache st)\<rparr>"

definition register_connection :: "'c \<Rightarrow> outboundPeer \<Rightarrow> 'c outbound \<Rightarrow> 'c outbound" where
  "register_connection connId peer st = add_cache connId (add_channel connId (track_connection connId peer st))"

text \<open>
  The callback of a closed connection: the peer to reconnect to, if any. Closing a channel that is not
  there is a panic.
\<close>

datatype 'a closing = ClosePanic | Closed 'a

definition connectionManagerConnClosed ::
  "'c \<Rightarrow> 'c node_chain \<times> 'c outbound \<Rightarrow> (outboundPeer option \<times> 'c node_chain \<times> 'c outbound) closing" where
  "connectionManagerConnClosed connId st = (case st of (n, ob) \<Rightarrow>
     let n' = close_chainsync connId n
     in case map_of (ob_conns ob) connId of
          None \<Rightarrow> Closed (None, n', ob)
        | Some peer \<Rightarrow>
            if map_of (ob_chans ob) connId = None then ClosePanic
            else Closed (Some peer, n', ob\<lparr>ob_chans := AList.delete connId (ob_chans ob), ob_cache := AList.delete connId (ob_cache ob)\<rparr>))"

definition initialReconnectDelay :: duration where
  "initialReconnectDelay = 1000000000"

definition maxReconnectDelay :: duration where
  "maxReconnectDelay = 128 * 1000000000"

definition next_delay :: "duration \<Rightarrow> duration" where
  "next_delay d = (if d = 0 then initialReconnectDelay else if d < maxReconnectDelay then d * 2 else d)"

text \<open>The reconnection loop: the outcome of each attempt, and the delays slept before them.\<close>

fun reconnectOutboundConnection :: "bool list \<Rightarrow> outboundPeer \<Rightarrow> duration list \<times> outboundPeer option" where
  "reconnectOutboundConnection [] peer = ([], None)"
| "reconnectOutboundConnection (ok # attempts) peer =
     (let peer' = peer\<lparr>op_ReconnectDelay := next_delay (op_ReconnectDelay peer)\<rparr>
      in if ok then ([op_ReconnectDelay peer'], Some peer')
         else (case reconnectOutboundConnection attempts peer' of (ds, r) \<Rightarrow> (op_ReconnectDelay peer' # ds, r)))"

section \<open>Submission\<close>

datatype transport = NodeToNode | SubmitApi string

text \<open>The hosts of the topology, the URL of the submit API, and the bootstrap peers of the network.\<close>

datatype submit_start = Started transport "(string \<times> nat) list" | UnknownNetwork | NoBootstrapPanic

definition txsubmit_Start :: "(string \<times> nat) list \<Rightarrow> string \<Rightarrow> (string \<times> nat) list option \<Rightarrow> submit_start" where
  "txsubmit_Start hosts url bootstrap =
     (if length hosts > 0 then Started NodeToNode hosts
      else if url \<noteq> [] then Started (SubmitApi url) hosts
      else (case bootstrap of
        None \<Rightarrow> UnknownNetwork
      | Some [] \<Rightarrow> NoBootstrapPanic
      | Some (p # ps) \<Rightarrow> Started NodeToNode [p]))"

record submit_state =
  su_queue :: "bytes list"
  su_worker :: bool

datatype 'a submitting = NotStartedPanic | Waits | Queued 'a

definition SubmitTx :: "bytes \<Rightarrow> submit_state option \<Rightarrow> submit_state submitting" where
  "SubmitTx txRawBytes g = (case g of
     None \<Rightarrow> NotStartedPanic
   | Some s \<Rightarrow> if length (su_queue s) \<ge> maxOutboundTransactions then Waits
       else Queued (s\<lparr>su_queue := su_queue s @ [txRawBytes]\<rparr>))"

text \<open>One round of the API worker: what it sent, with the outcome. It ends on a transaction it cannot parse.\<close>

definition startApi_round ::
  "(bytes \<Rightarrow> nat option) \<Rightarrow> tx_parser \<Rightarrow> (bytes \<Rightarrow> bool) \<Rightarrow> submit_state \<Rightarrow> ((bytes \<times> bool) list \<times> submit_state) option" where
  "startApi_round txType parse submit s = (case su_queue s of
     [] \<Rightarrow> None
   | tx # txs \<Rightarrow>
       if \<not> su_worker s then None
       else (case parse_outbound txType parse tx of
         Inl _ \<Rightarrow> Some ([], s\<lparr>su_queue := txs, su_worker := False\<rparr>)
       | Inr _ \<Rightarrow> Some ([(tx, submit tx)], s\<lparr>su_queue := txs\<rparr>)))"

text \<open>The answer of the submit API: \<open>None\<close> when no answer came; only the status 202 is a success.\<close>

definition submitTxApi :: "(bytes \<Rightarrow> (nat \<times> bytes option) option) \<Rightarrow> bytes \<Rightarrow> bool" where
  "submitTxApi http txRawBytes = (case http txRawBytes of
     None \<Rightarrow> False
   | Some (status, body) \<Rightarrow> body \<noteq> None \<and> status = 202)"

text \<open>One round of the node-to-node worker.\<close>

definition startNtn_round ::
  "(bytes \<Rightarrow> nat option) \<Rightarrow> tx_parser \<Rightarrow> submit_state \<times> 'c outbound \<Rightarrow> (submit_state \<times> 'c outbound) option" where
  "startNtn_round txType parse st = (case st of (s, ob) \<Rightarrow> (case su_queue s of
     [] \<Rightarrow> None
   | tx # txs \<Rightarrow> map_option (\<lambda>(e, ob'). (s\<lparr>su_queue := txs\<rparr>, ob')) (AddOutboundTransaction txType parse tx ob)))"

section \<open>Announced transactions can be fetched\<close>

text \<open>
  \<open>announcing conn st added said avail\<close>: the connection was registered, \<open>added\<close> are the transactions
  sent out since then, \<open>said\<close> the ones announced to it, and \<open>avail\<close> those announced since its last
  acknowledgement.
\<close>

inductive announcing ::
  "(bytes \<Rightarrow> nat option) \<Rightarrow> tx_parser \<Rightarrow> 'c \<Rightarrow> 'c outbound \<Rightarrow> ntnTransaction list \<Rightarrow> ntnTransaction list \<Rightarrow> (string \<rightharpoonup> ntnTransaction) \<Rightarrow> bool"
  for txType parse conn where
  registered: "announcing txType parse conn (register_connection conn peer st) [] [] Map.empty"
| sent: "announcing txType parse conn st added said avail \<Longrightarrow> parse_outbound txType parse body = Inr tx \<Longrightarrow>
    AddOutboundTransaction txType parse body st = Some (None, st') \<Longrightarrow>
    announcing txType parse conn st' (added @ [tx]) said avail"
| asked: "announcing txType parse conn st added said avail \<Longrightarrow> map_of (ob_chans st) conn = Some txs \<Longrightarrow>
    txsubmissionClientRequestTxIds conn blocking ack req st = Some (None, ids, st') \<Longrightarrow>
    announcing txType parse conn st' added (said @ txs)
      ((if ack > 0 then Map.empty else avail) ++ map_of (rev (map (\<lambda>tx. (nt_Hash tx, tx)) txs)))"
| asked_other: "announcing txType parse conn st added said avail \<Longrightarrow> conn' \<noteq> conn \<Longrightarrow>
    txsubmissionClientRequestTxIds conn' blocking ack req st = Some (e, ids, st') \<Longrightarrow>
    announcing txType parse conn st' added said avail"
| registered_other: "announcing txType parse conn st added said avail \<Longrightarrow> conn' \<noteq> conn \<Longrightarrow>
    announcing txType parse conn (register_connection conn' peer st) added said avail"
| closed_other: "announcing txType parse conn st added said avail \<Longrightarrow> conn' \<noteq> conn \<Longrightarrow>
    connectionManagerConnClosed conn' (n, st) = Closed (p, n', st') \<Longrightarrow>
    announcing txType parse conn st' added said avail"

definition cached :: "'c \<Rightarrow> 'c outbound \<Rightarrow> string \<rightharpoonup> ntnTransaction" where
  "cached conn st = (case map_of (ob_cache st) conn of None \<Rightarrow> Map.empty | Some m \<Rightarrow> map_of m)"

lemma announce_txs_other:
  "announce_txs conn txs st ret = (e, ids, st') \<Longrightarrow> ob_chans st' = ob_chans st \<and> ob_conns st' = ob_conns st
     \<and> (map_of (ob_cache st') conn = None \<longleftrightarrow> map_of (ob_cache st) conn = None)
     \<and> (\<forall>k. k \<noteq> conn \<longrightarrow> map_of (ob_cache st') k = map_of (ob_cache st) k)"
proof (induction conn txs st ret rule: announce_txs.induct)
  case (2 connId tmpTx txs st ret)
  then show ?case by (auto simp: update_conv' split: option.splits if_splits)
qed auto

lemma announce_txs_cached:
  assumes "announce_txs conn txs st ret = (None, ids, st')" and "map_of (ob_cache st) conn \<noteq> None"
  shows "cached conn st' = cached conn st ++ map_of (rev (map (\<lambda>tx. (nt_Hash tx, tx)) txs))"
  using assms
proof (induction conn txs st ret rule: announce_txs.induct)
  case (2 connId tmpTx txs st ret)
  obtain b where b: "hex_decode (nt_Hash tmpTx) = Some b" "\<not> length b < 32"
    using "2.prems"(1) by (auto split: option.splits if_splits)
  obtain m where m: "map_of (ob_cache st) connId = Some m" using "2.prems"(2) by auto
  let ?st = "st\<lparr>ob_cache := AList.update connId (AList.update (nt_Hash tmpTx) tmpTx m) (ob_cache st)\<rparr>"
  have "cached connId st' = cached connId ?st ++ map_of (rev (map (\<lambda>tx. (nt_Hash tx, tx)) txs))"
    using "2.IH" [OF b] "2.prems"(1) b m by (simp add: update_conv')
  moreover have "cached connId ?st = (cached connId st)(nt_Hash tmpTx \<mapsto> tmpTx)"
    by (simp add: cached_def m update_conv')
  ultimately show ?case by (simp add: map_add_def fun_eq_iff split: option.split)
qed simp

lemma map_channels: "map_of (map (\<lambda>(k, ch). (k, f ch)) m) k = map_option f (map_of m k)"
  using map_of_map_vals [of "\<lambda>_. f" m k] by simp

definition announced_ok :: "'c \<Rightarrow> 'c outbound \<Rightarrow> ntnTransaction list \<Rightarrow> ntnTransaction list \<Rightarrow> (string \<rightharpoonup> ntnTransaction) \<Rightarrow> bool" where
  "announced_ok conn st added said avail \<longleftrightarrow>
     (\<exists>ch. map_of (ob_chans st) conn = Some ch \<and> added = said @ ch \<and> length ch \<le> maxOutboundTransactions)
     \<and> map_of (ob_cache st) conn \<noteq> None \<and> cached conn st = avail"

lemma announced_ok_same:
  assumes "announced_ok conn st added said avail" and "map_of (ob_chans st') conn = map_of (ob_chans st) conn"
    and "map_of (ob_cache st') conn = map_of (ob_cache st) conn"
  shows "announced_ok conn st' added said avail"
  using assms by (simp add: announced_ok_def cached_def)

lemma announcing_ok: "announcing txType parse conn st added said avail \<Longrightarrow> announced_ok conn st added said avail"
proof (induction rule: announcing.induct)
  case (registered peer st)
  then show ?case
    by (simp add: announced_ok_def register_connection_def add_cache_def add_channel_def track_connection_def update_conv' cached_def fun_eq_iff)
next
  case (sent st added said avail body tx st')
  have st': "st' = st\<lparr>ob_chans := map (\<lambda>(k, ch). (k, ch @ [tx])) (ob_chans st)\<rparr>"
    and room: "\<not> list_ex (\<lambda>(k, ch). length ch \<ge> maxOutboundTransactions) (ob_chans st)"
    using sent(2,3) by (auto simp: AddOutboundTransaction_def split: if_splits)
  obtain ch where ch: "map_of (ob_chans st) conn = Some ch" "added = said @ ch" "length ch \<le> maxOutboundTransactions"
    using sent(4) by (auto simp: announced_ok_def)
  have "length ch < maxOutboundTransactions"
    using room map_of_SomeD [OF ch(1)] by (auto simp: list_ex_iff not_le)
  then show ?case using sent(4) ch by (simp add: announced_ok_def st' map_channels cached_def)
next
  case (asked st added said avail txs blocking ack req ids st')
  let ?st = "if ack > 0 then st\<lparr>ob_cache := AList.update conn [] (ob_cache st)\<rparr> else st"
  let ?st2 = "?st\<lparr>ob_chans := AList.update conn [] (ob_chans ?st)\<rparr>"
  have r: "announce_txs conn txs ?st2 [] = (None, ids, st')"
    using asked(2,3) by (simp add: txsubmissionClientRequestTxIds_def Let_def split: if_splits)
  have c: "map_of (ob_cache ?st2) conn \<noteq> None" "cached conn ?st2 = (if ack > 0 then Map.empty else avail)"
    using asked(4) by (auto simp: announced_ok_def cached_def update_conv')
  have "map_of (ob_chans st') conn = Some []"
    using announce_txs_other [OF r] by (simp add: update_conv')
  moreover have "added = said @ txs" using asked(2,4) by (auto simp: announced_ok_def)
  moreover have "map_of (ob_cache st') conn \<noteq> None" using announce_txs_other [OF r] c(1) by simp
  moreover have "cached conn st' = (if ack > 0 then Map.empty else avail) ++ map_of (rev (map (\<lambda>tx. (nt_Hash tx, tx)) txs))"
    using announce_txs_cached [OF r c(1)] c(2) by simp
  ultimately show ?case by (simp add: announced_ok_def)
next
  case (asked_other st added said avail conn' blocking ack req e ids st')
  have "map_of (ob_chans st') conn = map_of (ob_chans st) conn \<and> map_of (ob_cache st') conn = map_of (ob_cache st) conn"
    using asked_other(2,3)
    by (auto simp: txsubmissionClientRequestTxIds_def Let_def update_conv' dest!: announce_txs_other split: option.splits if_splits)
  then show ?case using announced_ok_same [OF asked_other(4)] by blast
next
  case (registered_other st added said avail conn' peer)
  then show ?case
    by (intro announced_ok_same [OF registered_other(3)])
      (simp_all add: register_connection_def add_cache_def add_channel_def track_connection_def update_conv')
next
  case (closed_other st added said avail conn' n p n' st')
  have "map_of (ob_chans st') conn = map_of (ob_chans st) conn \<and> map_of (ob_cache st') conn = map_of (ob_cache st) conn"
    using closed_other(2,3)
    by (auto simp: connectionManagerConnClosed_def Let_def delete_conv' split: option.splits if_splits)
  then show ?case using announced_ok_same [OF closed_other(4)] by blast
qed

lemma request_cached:
  assumes "\<forall>i\<in>set ids. cached conn st (hex_encode i) = Some (f i)"
  shows "txsubmissionClientRequestTxs conn ids st = map (\<lambda>i. (word_of_nat (nt_Type (f i)), nt_Cbor (f i))) ids"
  using assms
  by (induction ids) (auto simp: cached_def split: option.splits)


section \<open>Reconnection delays\<close>

text \<open>The delays double from one second to 128 seconds, and stay there.\<close>

definition delay_ok :: "duration \<Rightarrow> bool" where
  "delay_ok d \<longleftrightarrow> d \<in> (\<lambda>k. 2 ^ k * 1000000000) ` {0..7 :: nat}"

lemma next_delay_ok: "d = 0 \<or> delay_ok d \<Longrightarrow> delay_ok (next_delay d)"
proof (elim disjE)
  assume "d = 0"
  then show ?thesis by (auto simp: delay_ok_def next_delay_def initialReconnectDelay_def image_iff intro: bexI [of _ 0])
next
  assume "delay_ok d"
  then obtain k :: nat where k: "k \<le> 7" "d = 2 ^ k * 1000000000" by (auto simp: delay_ok_def)
  show ?thesis
  proof (cases "k = 7")
    case True
    then show ?thesis using k by (auto simp: delay_ok_def next_delay_def maxReconnectDelay_def image_iff intro: bexI [of _ 7])
  next
    case False
    then have "k \<le> 6" using k(1) by simp
    then have "(2 :: int) ^ k \<le> 2 ^ 6" "(1 :: int) \<le> 2 ^ k" by (auto intro: power_increasing [of k 6 "2 :: int", simplified])
    then have "next_delay d = 2 ^ Suc k * 1000000000" using k by (simp add: next_delay_def maxReconnectDelay_def)
    then show ?thesis using \<open>k \<le> 6\<close> by (auto simp: delay_ok_def image_iff intro: bexI [of _ "Suc k"])
  qed
qed

lemma delay_ok_bounds: "delay_ok d \<Longrightarrow> initialReconnectDelay \<le> d \<and> d \<le> maxReconnectDelay"
proof -
  assume "delay_ok d"
  then obtain k :: nat where k: "k \<le> 7" "d = 2 ^ k * 1000000000" by (auto simp: delay_ok_def)
  have "(2 :: int) ^ k \<le> 128" "(1 :: int) \<le> 2 ^ k" using power_increasing [OF k(1), of "2 :: int"] by simp_all
  then show ?thesis using k by (simp add: initialReconnectDelay_def maxReconnectDelay_def)
qed

lemma reconnect_delays:
  "op_ReconnectDelay peer = 0 \<or> delay_ok (op_ReconnectDelay peer) \<Longrightarrow> reconnectOutboundConnection attempts peer = (ds, r) \<Longrightarrow>
    list_all delay_ok ds \<and> (\<forall>peer'. r = Some peer' \<longrightarrow> delay_ok (op_ReconnectDelay peer'))"
proof (induction attempts arbitrary: peer ds r)
  case (Cons ok attempts)
  let ?peer = "peer\<lparr>op_ReconnectDelay := next_delay (op_ReconnectDelay peer)\<rparr>"
  have d: "delay_ok (op_ReconnectDelay ?peer)" using next_delay_ok [OF Cons.prems(1)] by simp
  then show ?case
    using Cons.prems(2) Cons.IH [of ?peer] by (cases ok) (auto simp: Let_def split: prod.splits)
qed simp

text \<open>An attempt that succeeds at once after a connection of long standing still waits longer than the last:
  the delay is kept with the peer and never reset.\<close>

lemma delay_never_reset: "reconnectOutboundConnection [True] peer = ([next_delay (op_ReconnectDelay peer)], Some (peer\<lparr>op_ReconnectDelay := next_delay (op_ReconnectDelay peer)\<rparr>))"
  by (simp add: Let_def)

section \<open>Where it stops\<close>

text \<open>
  \<open>AddOutboundTransaction\<close> holds the lock of the channels while it sends, and a peer's request takes
  that lock to find its channel. The steps: a sender that goes from channel to channel, readers that
  have found their channel, and connections that close.
\<close>

datatype 'c sender = Idle | Sending ntnTransaction "'c list"

type_synonym 'c sending = "'c sender \<times> ('c \<rightharpoonup> nat) \<times> 'c set"

inductive send_step :: "'c sending \<Rightarrow> 'c sending \<Rightarrow> bool" where
  begin_send: "set ks = dom chans \<Longrightarrow> distinct ks \<Longrightarrow> send_step (Idle, chans, readers) (Sending tx ks, chans, readers)"
| send_one: "chans k = Some n \<Longrightarrow> n < maxOutboundTransactions \<Longrightarrow>
    send_step (Sending tx (k # ks), chans, readers) (Sending tx ks, chans(k \<mapsto> Suc n), readers)"
| end_send: "send_step (Sending tx [], chans, readers) (Idle, chans, readers)"
| find_channel: "chans k \<noteq> None \<Longrightarrow> send_step (Idle, chans, readers) (Idle, chans, insert k readers)"
| drain: "k \<in> readers \<Longrightarrow> send_step (s, chans, readers) (s, (if chans k = None then chans else chans(k \<mapsto> 0)), readers - {k})"
| close_channel: "send_step (Idle, chans, readers) (Idle, chans(k := None), readers)"

inductive_cases send_stepE: "send_step (Sending tx (k # ks), chans, readers) st"

definition stuck :: "'c \<Rightarrow> 'c sending \<Rightarrow> bool" where
  "stuck k st \<longleftrightarrow> (\<exists>tx ks chans readers. st = (Sending tx (k # ks), chans, readers)
     \<and> chans k = Some maxOutboundTransactions \<and> k \<notin> readers)"

lemma stuck_step: "stuck k st \<Longrightarrow> send_step st st' \<Longrightarrow> stuck k st'"
  by (auto simp: stuck_def elim!: send_stepE)

lemma stuck_forever: "send_step\<^sup>*\<^sup>* st st' \<Longrightarrow> stuck k st \<Longrightarrow> stuck k st'"
  by (induction rule: rtranclp_induct) (auto intro: stuck_step)

lemma fill_channel: "n \<le> maxOutboundTransactions \<Longrightarrow> send_step\<^sup>*\<^sup>* (Idle, [k \<mapsto> 0], {}) (Idle, [k \<mapsto> n], {})"
proof (induction n)
  case (Suc n)
  have "send_step (Idle, [k \<mapsto> n], {}) (Sending undefined [k], [k \<mapsto> n], {})" by (rule begin_send) simp_all
  moreover have "send_step (Sending undefined [k], [k \<mapsto> n], {}) (Sending undefined [], [k \<mapsto> Suc n], {})"
    using send_one [of "[k \<mapsto> n]" k n undefined "[]" "{}"] Suc.prems by simp
  moreover have "send_step (Sending undefined [], [k \<mapsto> Suc n], {}) (Idle, [k \<mapsto> Suc n], {})" by (rule end_send)
  ultimately show ?case
    using Suc by (meson Suc_leD rtranclp.rtrancl_into_rtrancl)
qed simp

text \<open>
  Twenty transactions that a peer did not fetch in time, and one more: the sender waits for room in the
  channel, and the only one who could make room waits for the sender's lock.
\<close>

lemma outbound_deadlock:
  "\<exists>st. send_step\<^sup>*\<^sup>* (Idle, [k \<mapsto> 0], {}) st \<and> (\<forall>st'. send_step\<^sup>*\<^sup>* st st' \<longrightarrow> stuck k st')"
proof -
  let ?st = "(Sending undefined [k], [k \<mapsto> maxOutboundTransactions], {})"
  have "send_step\<^sup>*\<^sup>* (Idle, [k \<mapsto> 0], {}) (Idle, [k \<mapsto> maxOutboundTransactions], {})" by (rule fill_channel) simp
  moreover have "send_step (Idle, [k \<mapsto> maxOutboundTransactions], {}) ?st" by (rule begin_send) simp_all
  ultimately have "send_step\<^sup>*\<^sup>* (Idle, [k \<mapsto> 0], {}) ?st" by (rule rtranclp.rtrancl_into_rtrancl)
  moreover have "stuck k ?st" by (simp add: stuck_def)
  then have "\<forall>st'. send_step\<^sup>*\<^sup>* ?st st' \<longrightarrow> stuck k st'" using stuck_forever by metis
  ultimately show ?thesis by (intro exI conjI)
qed

text \<open>
  A connection keeps its entry among the outbound peers after it closed. When the next connection to
  the peer has the same identifier (its port is fixed) and closes before it is registered, the
  callback closes a channel that is not there.
\<close>

lemma second_close_panics:
  assumes "connectionManagerConnClosed conn (n, register_connection conn peer st) = Closed (p, n', st')"
  shows "connectionManagerConnClosed conn (n', st') = ClosePanic"
  using assms
  by (auto simp: connectionManagerConnClosed_def register_connection_def add_cache_def add_channel_def track_connection_def
      update_conv' delete_conv' Let_def split: if_splits)

text \<open>One transaction that does not parse ends the API worker: twenty more fill the queue, and the next waits.\<close>

lemma api_worker_ends:
  assumes "startApi_round txType parse submit s = Some (sent, s')" and "parse_outbound txType parse (hd (su_queue s)) = Inl e"
  shows "sent = [] \<and> startApi_round txType parse submit (s'\<lparr>su_queue := q\<rparr>) = None"
  using assms by (auto simp: startApi_round_def split: list.splits if_splits sum.splits)

lemma full_queue_waits: "length (su_queue s) = 20 \<Longrightarrow> SubmitTx tx (Some s) = Waits"
  by (simp add: SubmitTx_def maxOutboundTransactions_def)

section \<open>A concrete peer\<close>

definition demo_tx_hash :: "bytes \<Rightarrow> string" where
  "demo_tx_hash body = hex_encode (replicate 31 0 @ take 1 body)"

definition demo_tx :: "u8 \<Rightarrow> ntnTransaction" where
  "demo_tx b = \<lparr>nt_Hash = demo_tx_hash [b], nt_Type = 6, nt_Cbor = [b]\<rparr>"

definition demo_peer :: outboundPeer where
  "demo_peer = \<lparr>op_Address = ''host:3001'', op_ReconnectCount = 0, op_ReconnectDelay = 0\<rparr>"

definition demo_outbound :: "nat outbound" where
  "demo_outbound = register_connection 1 demo_peer \<lparr>ob_conns = [], ob_chans = [], ob_cache = []\<rparr>"

definition demo_announced :: "nat outbound" where
  "demo_announced = demo_outbound\<lparr>ob_cache := [(1, [(demo_tx_hash [7], demo_tx 7)])]\<rparr>"


end
