(* ===== verification/Configuration.thy ===== *)
theory Configuration
  imports Dex_Parsers
begin

text \<open>
  The configuration (\<open>internal/config/config.go\<close>, \<open>profiles.go\<close>, \<open>profile_addresses.go\<close>): what \<open>Load\<close>
  reads and checks, the table of profiles of each network, and the profiles that a configuration
  selects.

  The file system, the YAML and environment decoders, the topology file and the network and address
  tables of the ledger library are the fields of one record. A decoder that fails still leaves the
  configuration it has written so far. A Go map is traversed in an unspecified order; the model takes
  the order of the table, and no statement depends on it beyond that.
\<close>

section \<open>Configuration values\<close>

record LoggingConfig =
  lg_Level :: string

record DebugConfig =
  db_ListenAddress :: string
  db_ListenPort :: nat

record TopologyConfigHost =
  th_Address :: string
  th_Port :: nat

record TopologyConfig =
  tc_ConfigFile :: string
  tc_Hosts :: "TopologyConfigHost list"

record IndexerConfig =
  ic_Address :: string
  ic_SocketPath :: string

record SubmitConfig =
  sb_Address :: string
  sb_SocketPath :: string
  sb_Url :: string

record StorageConfig =
  st_Directory :: string

record WalletConfig =
  wl_Mnemonic :: string

record OracleConfig =
  oc_APIEnabled :: bool
  oc_APIAddress :: string

record ServiceConfig =
  cf_Logging :: LoggingConfig
  cf_Debug :: DebugConfig
  cf_Submit :: SubmitConfig
  cf_Topology :: TopologyConfig
  cf_Storage :: StorageConfig
  cf_Indexer :: IndexerConfig
  cf_Wallet :: WalletConfig
  cf_Oracle :: OracleConfig
  cf_Network :: string
  cf_Profiles :: "string list"
  cf_ListenAddress :: string
  cf_ListenAddressNtc :: string
  cf_ListenPort :: nat
  cf_ListenPortNtc :: nat
  cf_NetworkMagic :: u32

text \<open>The configuration before anything is read.\<close>

definition globalConfig :: ServiceConfig where
  "globalConfig =
     \<lparr>cf_Logging = \<lparr>lg_Level = ''info''\<rparr>,
      cf_Debug = \<lparr>db_ListenAddress = ''localhost'', db_ListenPort = 0\<rparr>,
      cf_Submit = \<lparr>sb_Address = [], sb_SocketPath = [], sb_Url = []\<rparr>,
      cf_Topology = \<lparr>tc_ConfigFile = [], tc_Hosts = []\<rparr>,
      cf_Storage = \<lparr>st_Directory = ''./.shai''\<rparr>,
      cf_Indexer = \<lparr>ic_Address = [], ic_SocketPath = []\<rparr>,
      cf_Wallet = \<lparr>wl_Mnemonic = []\<rparr>,
      cf_Oracle = \<lparr>oc_APIEnabled = False, oc_APIAddress = '':8090''\<rparr>,
      cf_Network = ''mainnet'', cf_Profiles = [''spectrum'', ''teddyswap''],
      cf_ListenAddress = [], cf_ListenAddressNtc = [],
      cf_ListenPort = 3000, cf_ListenPortNtc = 3099, cf_NetworkMagic = 0\<rparr>"

section \<open>Profiles\<close>

text \<open>The kinds of profile are the constants of an integer type: a value outside them is possible.\<close>

type_synonym ProfileType = int

abbreviation ProfileTypeNone :: ProfileType where "ProfileTypeNone \<equiv> 0"
abbreviation ProfileTypeSpectrum :: ProfileType where "ProfileTypeSpectrum \<equiv> 1"
abbreviation ProfileTypeOracle :: ProfileType where "ProfileTypeOracle \<equiv> 2"
abbreviation ProfileTypeSynthetics :: ProfileType where "ProfileTypeSynthetics \<equiv> 3"
abbreviation ProfileTypeLending :: ProfileType where "ProfileTypeLending \<equiv> 4"

record ProfileConfigInputRef =
  ref_TxId :: string
  ref_OutputIdx :: nat

record SpectrumProfileConfig =
  spc_SwapHash :: string
  spc_DepositHash :: string
  spc_RedeemHash :: string
  spc_PoolV1Hash :: string
  spc_PoolV2Hash :: string
  spc_SwapInputRef :: ProfileConfigInputRef
  spc_DepositInputRef :: ProfileConfigInputRef
  spc_RedeemInputRef :: ProfileConfigInputRef
  spc_PoolV1InputRef :: ProfileConfigInputRef
  spc_PoolV2InputRef :: ProfileConfigInputRef

record OracleProfileConfig =
  opc_Protocol :: string
  opc_PoolAddresses :: "string list"
  opc_InputRefs :: "ProfileConfigInputRef list"

record SyntheticsProfileConfig =
  syc_Protocol :: string
  syc_CDPAddresses :: "string list"

record LendingProfileConfig =
  lpc_Protocol :: string
  lpc_MarketAddresses :: "string list"
  lpc_OracleAddresses :: "string list"
  lpc_InputRefs :: "ProfileConfigInputRef list"

text \<open>The dynamic type of a profile's \<open>Config any\<close>.\<close>

datatype profile_config =
    NilConfig
  | SpectrumCfg SpectrumProfileConfig
  | OracleCfg OracleProfileConfig
  | SyntheticsCfg SyntheticsProfileConfig
  | LendingCfg LendingProfileConfig

record Profile =
  pf_Name :: string
  pf_Type :: ProfileType
  pf_InterceptSlot :: u64
  pf_InterceptHash :: string
  pf_Config :: profile_config

section \<open>The table of profiles\<close>

definition ref_at :: "string \<Rightarrow> nat \<Rightarrow> ProfileConfigInputRef" where
  "ref_at txId idx = \<lparr>ref_TxId = txId, ref_OutputIdx = idx\<rparr>"

definition no_ref :: ProfileConfigInputRef where
  "no_ref = \<lparr>ref_TxId = [], ref_OutputIdx = 0\<rparr>"

definition oracle_profile ::
  "string \<Rightarrow> u64 \<Rightarrow> string \<Rightarrow> string \<Rightarrow> string list \<Rightarrow> ProfileConfigInputRef list \<Rightarrow> string \<times> Profile" where
  "oracle_profile name slot hash protocol addrs refs =
     (name, \<lparr>pf_Name = name, pf_Type = ProfileTypeOracle, pf_InterceptSlot = slot, pf_InterceptHash = hash,
             pf_Config = OracleCfg \<lparr>opc_Protocol = protocol, opc_PoolAddresses = addrs, opc_InputRefs = refs\<rparr>\<rparr>)"

definition synthetics_profile :: "string \<Rightarrow> u64 \<Rightarrow> string \<Rightarrow> string \<Rightarrow> string list \<Rightarrow> string \<times> Profile" where
  "synthetics_profile name slot hash protocol addrs =
     (name, \<lparr>pf_Name = name, pf_Type = ProfileTypeSynthetics, pf_InterceptSlot = slot, pf_InterceptHash = hash,
             pf_Config = SyntheticsCfg \<lparr>syc_Protocol = protocol, syc_CDPAddresses = addrs\<rparr>\<rparr>)"

definition lending_profile ::
  "string \<Rightarrow> u64 \<Rightarrow> string \<Rightarrow> string \<Rightarrow> string list \<Rightarrow> string list \<Rightarrow> string \<times> Profile" where
  "lending_profile name slot hash protocol markets oracles =
     (name, \<lparr>pf_Name = name, pf_Type = ProfileTypeLending, pf_InterceptSlot = slot, pf_InterceptHash = hash,
             pf_Config = LendingCfg \<lparr>lpc_Protocol = protocol, lpc_MarketAddresses = markets,
                                     lpc_OracleAddresses = oracles, lpc_InputRefs = []\<rparr>\<rparr>)"

definition spectrum_profile :: "string \<Rightarrow> u64 \<Rightarrow> string \<Rightarrow> SpectrumProfileConfig \<Rightarrow> string \<times> Profile" where
  "spectrum_profile name slot hash cfg =
     (name, \<lparr>pf_Name = name, pf_Type = ProfileTypeSpectrum, pf_InterceptSlot = slot, pf_InterceptHash = hash,
             pf_Config = SpectrumCfg cfg\<rparr>)"

text \<open>The table has the addresses of two script hashes, which the ledger library renders.\<close>

definition preprodProfiles :: "string \<Rightarrow> (string, Profile) gomap" where
  "preprodProfiles addr = [
     oracle_profile ''minswap-v2'' 62910357
       ''42d965bbc11668723b3bc3741a969c2750d2df0d16714a0af63b4ef2ee221eb1''
       ''minswap-v2'' [addr]
       [ref_at ''9f30b1c3948a009ceebda32d0b1d25699674b2eaf8b91ef029a43bfc1073ce28'' 0]]"

definition previewProfiles :: "string \<Rightarrow> (string, Profile) gomap" where
  "previewProfiles addr = [
     oracle_profile ''sundaeswap-v3'' 48535234
       ''311319fd4889453ddbba6fde8b085cd1ec8d7d341e6128c003ad8cbbfbf09043''
       ''sundaeswap-v3'' [addr]
       [ref_at ''92ec2274938de291d3837b7facf9eddfaed57cd6ff97e26af57cb7a9978e3887'' 0, ref_at ''8036a88a61427262aba964a42d0b9924739ffc3214de9a07c54b5a09af7f0d7d'' 0],
     spectrum_profile ''teddyswap'' 32045163
       ''825568a8f7272fa8662c5a1fee156fe5dfb932ae8a47c8526b737399c9b3e836''
       \<lparr>spc_SwapHash = ''4ab17afc9a19a4f06b6fe229f9501e727d3968bff03acb1a8f86acf5'',
        spc_DepositHash = ''0c70d8047139103546f0e76aafecfdf0667cbb397c8976f40ae8fcb3'',
        spc_RedeemHash = ''ab658d65b5717bf07bd3b1a9ad28d31c183811bba4076aeace9feb8e'',
        spc_PoolV1Hash = [],
        spc_PoolV2Hash = ''28bbd1f7aebb3bc59e13597f333aeefb8f5ab78eda962de1d605b388'',
        spc_SwapInputRef = ref_at ''81bdfd89f3c8ff1a23dbe70af2db399ad0ed028b36a41974662a2cf8cda3c7c3'' 0,
        spc_DepositInputRef = ref_at ''77186dc10826227acd5e4a48e636bd3b11d5f39cc051d794540a7125903e157c'' 0,
        spc_RedeemInputRef = ref_at ''2266866d4d85cd582a34d27638a6eeb885cc4fb96fee230c86720e1f3f9eb0a0'' 0,
        spc_PoolV1InputRef = no_ref,
        spc_PoolV2InputRef = ref_at ''64747d26baba95016a42c078360a431bb74d603f3f2582eb1b77d5dcfd53f128'' 0\<rparr>]"

definition mainnet_dex_profiles :: "(string, Profile) gomap" where
  "mainnet_dex_profiles = [
     oracle_profile ''minswap-v1'' 51340496
       ''ba74da9715acfd2a01c88b52e41b574621c65c91e8eda35c9c3cd8e8c5f64d4c''
       ''minswap-v1'' (poolAddrs ''minswap-v1'')
       [],
     oracle_profile ''minswap-v2'' 72316896
       ''3e86a51cdabb354e5fe4b2511f91c4e8e323af5e50ef5eb2d5f3d5a7dab1f3b1''
       ''minswap-v2'' (poolAddrs ''minswap-v2'')
       [ref_at ''2536194d2a976370a932174c10975493ab58fd7c16395d50e62b7c0e1949baea'' 0],
     oracle_profile ''sundaeswap-v1'' 51337110
       ''d1423d7eb6fc87d7ad1a54e44dd8cb70483370877346f3178dd507d7609046c8''
       ''sundaeswap-v1'' (poolAddrs ''sundaeswap-v1'')
       [],
     oracle_profile ''sundaeswap-v3'' 123703740
       ''c43d1bb5308d1ad7baa11120291ed2ba620784ebd96ae02a63c5511b3346581a''
       ''sundaeswap-v3'' (poolAddrs ''sundaeswap-v3'')
       [],
     oracle_profile ''splash-v1'' 98823654
       ''4666f26d15f4802c0d4c81b841583ea6d90d623d168c77f1e45200eda1f82638''
       ''splash-v1'' (poolAddrs ''splash-v1'')
       [ref_at ''fc9e99fd12a13a137725da61e57a410e36747d513b965993d92c32c67df9259a'' 0],
     oracle_profile ''wingriders-v2'' 61318994
       ''c1c2c3d4e5f6a1b2c3d4e5f6a1b2c3d4e5f6a1b2c3d4e5f6a1b2c3d4e5f6c1c2''
       ''wingriders-v2'' (poolAddrs ''wingriders-v2'')
       [],
     oracle_profile ''vyfi'' 92346471
       ''b0ce8bc8fbdcb803287e2b67d8eca865ef93be7e3d2473bfa81d89a8d58b7ee3''
       ''vyfi'' (poolAddrs ''vyfi'')
       [],
     oracle_profile ''cswap'' 149650740
       ''76e1965f49d2ed87150045666c4a9abec1b9439338b87eb50331797b8f37205b''
       ''cswap'' (poolAddrs ''cswap'')
       []]"

definition mainnet_position_profiles :: "(string, Profile) gomap" where
  "mainnet_position_profiles = [
     synthetics_profile ''indigo'' 75599947
       ''5af43c107055e2339c0d8d931c10679adb0b39ae0322cc521d7c327dcc6d816f''
       ''indigo''
       [''addr1z8jd97ct35n4s5ss8lt4sq0zclw0dmf7yak8fj46m0jm3dhzfjvtm0pg7ms9fvw5luec6euwzku8wqjpt5gv0q86052qv9nxuw'',
        ''addr1w80ptp0qgmcklhmeweesqgeurtlma8fsxsr9dt8au30fzss0czhl9''],
     lending_profile ''liqwid'' 82999969
       ''67c0cfdb05dc04f9a0887f862b477b6c921d77bd357ea71aba1512742d7cfc90''
       ''liqwid''
       [''addr1w8dprfgfdxnlwu3948579jrwg0ferf5a63ln8xj0mqcdzegayxmqq'',
        ''addr1w9wjz8tjt87gldh2usu8t5mfe4nkmlngp30a387h8s94fyg5uup5n'',
        ''addr1wyw3ap36lnepstpjadwg8cg73llvmju4y94kmfld23lkzjggq4hyj'',
        ''addr1wxrxa3ucywn3lqpkzlyucak0a7aavkudh49fqt06yc05sws4l4zs2'']
       [''addr1wyd8cezjr0gcf8nfxuc9trd4hs7ec520jmkwkqzywx6l5jg0al0ya'']]"

definition mainnet_spectrum_profiles :: "(string, Profile) gomap" where
  "mainnet_spectrum_profiles = [
     spectrum_profile ''spectrum'' 98823654
       ''4666f26d15f4802c0d4c81b841583ea6d90d623d168c77f1e45200eda1f82638''
       \<lparr>spc_SwapHash = ''2618e94cdb06792f05ae9b1ec78b0231f4b7f4215b1b4cf52e6342de'',
        spc_DepositHash = ''075e09eb0fa89e1dc34691b3c56a7f437e60ac5ea67b338f2e176e20'',
        spc_RedeemHash = ''83da79f531c19f9ce4d85359f56968a742cf05cc25ed3ca48c302dee'',
        spc_PoolV1Hash = ''e628bfd68c07a7a38fcd7d8df650812a9dfdbee54b1ed4c25c87ffbf'',
        spc_PoolV2Hash = ''6b9c456aa650cb808a9ab54326e039d5235ed69f069c9664a8fe5b69'',
        spc_SwapInputRef = ref_at ''fc9e99fd12a13a137725da61e57a410e36747d513b965993d92c32c67df9259a'' 2,
        spc_DepositInputRef = ref_at ''fc9e99fd12a13a137725da61e57a410e36747d513b965993d92c32c67df9259a'' 0,
        spc_RedeemInputRef = ref_at ''fc9e99fd12a13a137725da61e57a410e36747d513b965993d92c32c67df9259a'' 1,
        spc_PoolV1InputRef = ref_at ''31a497ef6b0033e66862546aa2928a1987f8db3b8f93c59febbe0f47b14a83c6'' 0,
        spc_PoolV2InputRef = ref_at ''c8c93656e8bce07fabe2f42d703060b7c71bfa2e48a2956820d1bd81cc936faa'' 0\<rparr>,
     spectrum_profile ''teddyswap'' 109076993
       ''328bac757d1b100c68e0fd8f346a1bd53ee415b94271b8b7353866a22063f7bf''
       \<lparr>spc_SwapHash = ''4ab17afc9a19a4f06b6fe229f9501e727d3968bff03acb1a8f86acf5'',
        spc_DepositHash = ''0c70d8047139103546f0e76aafecfdf0667cbb397c8976f40ae8fcb3'',
        spc_RedeemHash = ''ab658d65b5717bf07bd3b1a9ad28d31c183811bba4076aeace9feb8e'',
        spc_PoolV1Hash = [],
        spc_PoolV2Hash = ''28bbd1f7aebb3bc59e13597f333aeefb8f5ab78eda962de1d605b388'',
        spc_SwapInputRef = ref_at ''fb6906c2bc39777086036f9c46c297e9d8a41ede154b398d85245a2549b4bf04'' 0,
        spc_DepositInputRef = ref_at ''570f810fe5f8cef730587fb832bb70d8783bad711064d70fc1a378cbefdd7c94'' 0,
        spc_RedeemInputRef = ref_at ''e33584ade2b47fb0ab697b63585fb4be935852131643981ba95acde09fe31f41'' 0,
        spc_PoolV1InputRef = no_ref,
        spc_PoolV2InputRef = ref_at ''cdafc4e33524e767c4d0ffde094d56fa42105dcfc9b62857974f86fd0e443c32'' 0\<rparr>]"

section \<open>Script addresses\<close>

datatype address_type = AddressTypeScriptNone | AddressTypeScriptScript

record network =
  nw_Id :: nat
  nw_NetworkMagic :: u32

record topology_file =
  tf_LocalRoots :: "TopologyConfigHost list list"
  tf_PublicRoots :: "TopologyConfigHost list list"

record config_libs =
  cl_ReadFile :: "string \<Rightarrow> bytes option"
  cl_Unmarshal :: "bytes \<Rightarrow> ServiceConfig \<Rightarrow> bool \<times> ServiceConfig"
  cl_Process :: "ServiceConfig \<Rightarrow> bool \<times> ServiceConfig"
  cl_TopologyFile :: "string \<Rightarrow> topology_file option"
  cl_NetworkByName :: "string \<Rightarrow> network option"
  cl_NewAddressFromParts :: "address_type \<Rightarrow> nat \<Rightarrow> bytes \<Rightarrow> bytes \<Rightarrow> string option"

text \<open>\<open>None\<close> is a panic, at the initialisation of the package.\<close>

definition mustScriptAddress :: "config_libs \<Rightarrow> string \<Rightarrow> address_type \<Rightarrow> string \<Rightarrow> string \<Rightarrow> string option" where
  "mustScriptAddress l networkName addressType paymentHashHex stakingHashHex = (case cl_NetworkByName l networkName of
     None \<Rightarrow> None
   | Some net \<Rightarrow> (case hex_decode paymentHashHex of
       None \<Rightarrow> None
     | Some paymentHash \<Rightarrow>
         (case (if stakingHashHex \<noteq> [] then hex_decode stakingHashHex else Some []) of
            None \<Rightarrow> None
          | Some stakingHash \<Rightarrow> cl_NewAddressFromParts l addressType (nw_Id net) paymentHash stakingHash)))"

definition mustScriptEnterpriseAddress :: "config_libs \<Rightarrow> string \<Rightarrow> string \<Rightarrow> string option" where
  "mustScriptEnterpriseAddress l networkName paymentHashHex =
     mustScriptAddress l networkName AddressTypeScriptNone paymentHashHex []"

definition mustScriptScriptAddress :: "config_libs \<Rightarrow> string \<Rightarrow> string \<Rightarrow> string \<Rightarrow> string option" where
  "mustScriptScriptAddress l networkName paymentHashHex stakingHashHex =
     mustScriptAddress l networkName AddressTypeScriptScript paymentHashHex stakingHashHex"

definition Profiles :: "config_libs \<Rightarrow> (string, (string, Profile) gomap) gomap option" where
  "Profiles l =
     do { preprodAddr \<leftarrow> mustScriptEnterpriseAddress l ''preprod''
            ''d6ba9b7509eac866288ff5072d2a18205ac56f744bc82dcd808cb8fe'';
          previewAddr \<leftarrow> mustScriptScriptAddress l ''preview''
            ''44a1eb2d9f58add4eb1932bd0048e6a1947e85e3fe4f32956a110414''
            ''cc27980a8557fe9db2c9ac0a2677f4d1306dbf10689983758f0b8dbe'';
          Some [(''preprod'', preprodProfiles preprodAddr),
                (''preview'', previewProfiles previewAddr),
                (''mainnet'', mainnet_dex_profiles @ mainnet_position_profiles @ mainnet_spectrum_profiles)] }"

section \<open>Selecting profiles\<close>

definition GetProfiles :: "(string, (string, Profile) gomap) gomap \<Rightarrow> ServiceConfig \<Rightarrow> Profile list" where
  "GetProfiles table cfg = (case map_of table (cf_Network cfg) of
     None \<Rightarrow> []
   | Some networkProfiles \<Rightarrow> map snd (filter (\<lambda>(k, profile). k \<in> set (cf_Profiles cfg)) networkProfiles))"

definition GetAvailableProfiles :: "(string, (string, Profile) gomap) gomap \<Rightarrow> ServiceConfig \<Rightarrow> string list" where
  "GetAvailableProfiles table cfg = (case map_of table (cf_Network cfg) of
     None \<Rightarrow> []
   | Some networkProfiles \<Rightarrow> map fst networkProfiles)"

section \<open>Loading\<close>

datatype config_error =
    ConfigReadFailed
  | ConfigParseFailed
  | EnvironmentFailed
  | TopologyFailed
  | UnknownNetwork string
  | UnknownProfile string "string list"

definition loadTopologyConfig :: "config_libs \<Rightarrow> ServiceConfig \<Rightarrow> config_error + ServiceConfig" where
  "loadTopologyConfig l cfg = (case cl_TopologyFile l (tc_ConfigFile (cf_Topology cfg)) of
     None \<Rightarrow> Inl TopologyFailed
   | Some topology \<Rightarrow>
       Inr (cfg\<lparr>cf_Topology := (cf_Topology cfg)\<lparr>tc_Hosts :=
              tc_Hosts (cf_Topology cfg) @ concat (tf_LocalRoots topology) @ concat (tf_PublicRoots topology)\<rparr>\<rparr>))"

definition load_file :: "config_libs \<Rightarrow> string \<Rightarrow> ServiceConfig \<Rightarrow> config_error + ServiceConfig" where
  "load_file l configFile cfg =
     (if configFile = [] then Inr cfg
      else case cl_ReadFile l configFile of
             None \<Rightarrow> Inl ConfigReadFailed
           | Some buf \<Rightarrow> (let (ok, cfg') = cl_Unmarshal l buf cfg in if ok then Inr cfg' else Inl ConfigParseFailed))"

definition load_environment :: "config_libs \<Rightarrow> ServiceConfig \<Rightarrow> config_error + ServiceConfig" where
  "load_environment l cfg = (let (ok, cfg') = cl_Process l cfg in if ok then Inr cfg' else Inl EnvironmentFailed)"

definition load_network :: "config_libs \<Rightarrow> ServiceConfig \<Rightarrow> config_error + ServiceConfig" where
  "load_network l cfg = (case cl_NetworkByName l (cf_Network cfg) of
     None \<Rightarrow> Inl (UnknownNetwork (cf_Network cfg))
   | Some net \<Rightarrow> Inr (cfg\<lparr>cf_NetworkMagic := nw_NetworkMagic net\<rparr>))"

fun check_profiles :: "string list \<Rightarrow> string list \<Rightarrow> config_error + unit" where
  "check_profiles available [] = Inr ()"
| "check_profiles available (profile # profiles) =
     (if profile \<in> set available then check_profiles available profiles else Inl (UnknownProfile profile available))"

text \<open>\<open>Load\<close>, from a table of profiles and the configuration so far.\<close>

definition Load ::
  "config_libs \<Rightarrow> (string, (string, Profile) gomap) gomap \<Rightarrow> string \<Rightarrow> ServiceConfig \<Rightarrow> config_error + ServiceConfig" where
  "Load l table configFile cfg0 = (case load_file l configFile cfg0 of
     Inl e \<Rightarrow> Inl e
   | Inr cfg1 \<Rightarrow> (case load_environment l cfg1 of
       Inl e \<Rightarrow> Inl e
     | Inr cfg2 \<Rightarrow>
         (case (if tc_ConfigFile (cf_Topology cfg2) \<noteq> [] then loadTopologyConfig l cfg2 else Inr cfg2) of
            Inl e \<Rightarrow> Inl e
          | Inr cfg3 \<Rightarrow> (case load_network l cfg3 of
              Inl e \<Rightarrow> Inl e
            | Inr cfg4 \<Rightarrow> (case check_profiles (GetAvailableProfiles table cfg4) (cf_Profiles cfg4) of
                Inl e \<Rightarrow> Inl e
              | Inr _ \<Rightarrow> Inr cfg4)))))"

section \<open>What the table and the loader promise\<close>

text \<open>Every entry is under its own name, and its configuration has the type that its kind announces.\<close>

fun config_fits :: "ProfileType \<Rightarrow> profile_config \<Rightarrow> bool" where
  "config_fits t NilConfig = False"
| "config_fits t (SpectrumCfg c) = (t = ProfileTypeSpectrum)"
| "config_fits t (OracleCfg c) = (t = ProfileTypeOracle \<and> \<not> Option.is_none (getOracleParser (opc_Protocol c)))"
| "config_fits t (SyntheticsCfg c) = (t = ProfileTypeSynthetics \<and> syc_Protocol c = ''indigo'')"
| "config_fits t (LendingCfg c) = (t = ProfileTypeLending \<and> lpc_Protocol c = ''liqwid'')"

definition entry_ok :: "string \<times> Profile \<Rightarrow> bool" where
  "entry_ok e = (pf_Name (snd e) = fst e \<and> config_fits (pf_Type (snd e)) (pf_Config (snd e)))"

lemma known_parsers:
  "\<not> Option.is_none (getOracleParser ''minswap-v1'')" "\<not> Option.is_none (getOracleParser ''minswap-v2'')" "\<not> Option.is_none (getOracleParser ''sundaeswap-v1'')"
  "\<not> Option.is_none (getOracleParser ''sundaeswap-v3'')" "\<not> Option.is_none (getOracleParser ''splash-v1'')" "\<not> Option.is_none (getOracleParser ''wingriders-v2'')"
  "\<not> Option.is_none (getOracleParser ''vyfi'')" "\<not> Option.is_none (getOracleParser ''cswap'')"
  by (simp_all add: getOracleParser_def)

lemma entry_oracle: "entry_ok (oracle_profile n s h p a r) = (\<not> Option.is_none (getOracleParser p))"
  by (simp add: entry_ok_def oracle_profile_def)

lemma entry_synthetics: "entry_ok (synthetics_profile n s h p a) = (p = ''indigo'')"
  by (simp add: entry_ok_def synthetics_profile_def)

lemma entry_lending: "entry_ok (lending_profile n s h p m f) = (p = ''liqwid'')"
  by (simp add: entry_ok_def lending_profile_def)

lemma entry_spectrum: "entry_ok (spectrum_profile n s h c)"
  by (simp add: entry_ok_def spectrum_profile_def)

lemma entry_names:
  "fst (oracle_profile n s h p a r) = n" "fst (synthetics_profile n s h p a) = n"
  "fst (lending_profile n s h p m f) = n" "fst (spectrum_profile n s h c) = n"
  by (simp_all add: oracle_profile_def synthetics_profile_def lending_profile_def spectrum_profile_def)

lemmas entry_facts = entry_oracle entry_synthetics entry_lending entry_spectrum known_parsers

lemma preprod_ok: "list_all entry_ok (preprodProfiles a)" "distinct (map fst (preprodProfiles a))"
  by (simp_all add: preprodProfiles_def entry_facts)

lemma preview_ok: "list_all entry_ok (previewProfiles a)" "distinct (map fst (previewProfiles a))"
  by (simp_all add: previewProfiles_def entry_facts entry_names)

lemma mainnet_entries_ok:
  "list_all entry_ok mainnet_dex_profiles" "list_all entry_ok mainnet_position_profiles" "list_all entry_ok mainnet_spectrum_profiles"
  by (simp_all add: mainnet_dex_profiles_def mainnet_position_profiles_def mainnet_spectrum_profiles_def entry_facts
     )

lemma mainnet_names:
  "map fst (mainnet_dex_profiles @ mainnet_position_profiles @ mainnet_spectrum_profiles) =
     [''minswap-v1'', ''minswap-v2'', ''sundaeswap-v1'', ''sundaeswap-v3'', ''splash-v1'', ''wingriders-v2'', ''vyfi'', ''cswap'',
      ''indigo'', ''liqwid'', ''spectrum'', ''teddyswap'']"
  by (simp add: mainnet_dex_profiles_def mainnet_position_profiles_def mainnet_spectrum_profiles_def entry_names)

definition table_ok :: "(string, (string, Profile) gomap) gomap \<Rightarrow> bool" where
  "table_ok table = list_all (\<lambda>(n, ps). list_all entry_ok ps \<and> distinct (map fst ps)) table"

lemma Profiles_ok: "Profiles l = Some table \<Longrightarrow> table_ok table"
  using preprod_ok preview_ok mainnet_entries_ok
  by (auto simp: Profiles_def table_ok_def mainnet_names bind_eq_Some_conv simp del: map_append)

lemma table_network:
  assumes "table_ok table" "map_of table n = Some ps"
  shows "list_all entry_ok ps" "distinct (map fst ps)"
  using assms by (auto simp: table_ok_def list_all_iff dest: map_of_SomeD)

lemma GetProfiles_fit:
  assumes "table_ok table" "p \<in> set (GetProfiles table cfg)"
  shows "config_fits (pf_Type p) (pf_Config p)"
  using assms(2) table_network [OF assms(1)]
  by (force simp: GetProfiles_def list_all_iff entry_ok_def split: option.splits)

lemma GetProfiles_names:
  assumes "table_ok table"
  shows "map pf_Name (GetProfiles table cfg) = filter (\<lambda>n. n \<in> set (cf_Profiles cfg)) (GetAvailableProfiles table cfg)"
proof (cases "map_of table (cf_Network cfg)")
  case None
  then show ?thesis by (simp add: GetProfiles_def GetAvailableProfiles_def)
next
  case (Some ps)
  have "list_all entry_ok ps \<Longrightarrow> map pf_Name (map snd (filter (\<lambda>(k, profile). k \<in> S) ps)) = filter (\<lambda>n. n \<in> S) (map fst ps)" for S
    by (induction ps) (auto simp: entry_ok_def)
  then show ?thesis using table_network(1) [OF assms Some] Some by (simp add: GetProfiles_def GetAvailableProfiles_def)
qed

lemma check_profiles_ok: "check_profiles available ps = Inr u \<longleftrightarrow> set ps \<subseteq> set available"
  by (induction ps) auto

lemma Load_checked:
  assumes "Load l table f cfg0 = Inr cfg"
  shows "set (cf_Profiles cfg) \<subseteq> set (GetAvailableProfiles table cfg)"
    and "\<exists>net. cl_NetworkByName l (cf_Network cfg) = Some net \<and> cf_NetworkMagic cfg = nw_NetworkMagic net"
  using assms by (auto simp: Load_def load_network_def check_profiles_ok split: sum.splits option.splits if_split_asm)

end
