(* ===== verification/Startup.thy ===== *)
theory Startup
  imports Configuration Oracle_Pools Lending Spectrum_Service
begin

text \<open>
  The start of the service (\<open>cmd/shai/main.go\<close>): the configuration is loaded, the store is opened, the
  wallet is set up (\<open>internal/wallet/wallet.go\<close>), one component is started for every selected profile,
  the API gets the oracles, and the node, the transaction submission and the indexer run. Leaving the
  process is an error value; after the last step the process waits for ever. The second command,
  \<open>cmd/mk-script-address\<close>, is at the end.

  Opening a Badger directory takes an exclusive lock that lasts as long as the database is open: the
  library is a predicate of the directories that are open and the one to open. What the stores hold,
  the wallet library and the parts that open sockets are fields of the environment.
\<close>

section \<open>The environment\<close>

datatype seed_file = SeedData string | SeedMissing | SeedUnreadable

record 'w wallet_libs =
  wb_ReadSeed :: seed_file
  wb_GenerateMnemonic :: "string option"
  wb_WriteSeed :: bool
  wb_NewWallet :: "string \<Rightarrow> string \<Rightarrow> 'w option"

record 'w startup_env =
  se_config :: config_libs
  se_join :: "string \<Rightarrow> string \<Rightarrow> string"
  se_open :: "string list \<Rightarrow> string \<Rightarrow> bool"
  se_serviceStore :: kv_store
  se_oracleStore :: store
  se_lendingStore :: lending_store
  se_acc :: kv_badger
  se_cbor :: cbor_lib
  se_wallet :: "'w wallet_libs"
  se_scriptAddress :: "(bytes \<Rightarrow> string option) option"
  se_nodeStart :: bool
  se_submitStart :: bool
  se_indexerStart :: bool

datatype exit_reason =
    ExitPanic
  | ExitConfig config_error
  | ExitStorageOpen
  | ExitStorage wallet_error
  | ExitSpectrumConfig string
  | ExitOracleConfig string
  | ExitSyntheticsConfig string
  | ExitLendingConfig string
  | ExitUnknownProtocol string
  | ExitOracleStart string
  | ExitUnknownLending string
  | ExitLendingStorage
  | ExitLendingStart string
  | ExitTypeNone
  | ExitUnknownType string
  | ExitNodeStart
  | ExitSubmitStart
  | ExitIndexerStart

section \<open>The wallet\<close>

text \<open>\<open>wallet.Setup\<close>: the wallet, and the mnemonic that was written to \<open>seed.txt\<close>. \<open>None\<close> is a panic.\<close>

definition wallet_Setup :: "'w wallet_libs \<Rightarrow> ServiceConfig \<Rightarrow> ('w \<times> string option) option" where
  "wallet_Setup l cfg =
     do { (mnemonic, written) \<leftarrow>
            (if wl_Mnemonic (cf_Wallet cfg) \<noteq> [] then Some (wl_Mnemonic (cf_Wallet cfg), None)
             else case wb_ReadSeed l of
                    SeedData d \<Rightarrow> Some (d, None)
                  | SeedMissing \<Rightarrow> (case wb_GenerateMnemonic l of
                      None \<Rightarrow> None
                    | Some m \<Rightarrow> if wb_WriteSeed l then Some (m, Some m) else None)
                  | SeedUnreadable \<Rightarrow> None);
          w \<leftarrow> wb_NewWallet l mnemonic (cf_Network cfg);
          Some (w, written) }"

section \<open>Starting profiles\<close>

text \<open>The parser of an oracle service.\<close>

datatype service_parser = PoolService oracle_parser | SyntheticsService

definition getSyntheticsParser :: "string \<Rightarrow> service_parser option" where
  "getSyntheticsParser protocol = (if protocol = ''indigo'' then Some SyntheticsService else None)"

definition getLendingParser :: "cbor_lib \<Rightarrow> string \<Rightarrow> liqwid_error lending_parser option" where
  "getLendingParser cb protocol = GetLendingParser cb protocol"

text \<open>What runs: the directories held open, the oracles, and the handlers of the indexer in order.\<close>

datatype event_handler = SpectrumEvents string | OracleEvents string | LendingEvents string

record running =
  rn_open :: "string list"
  rn_spectrum :: "spectrum_service list"
  rn_oracles :: "(string \<times> service_parser \<times> Oracle) list"
  rn_lending :: "(string \<times> LendingOracle) list"
  rn_lendingStorage :: "lending_store option"
  rn_handlers :: "event_handler list"

text \<open>\<open>addProfileAddresses\<close>: the addresses that the dynamic type of the configuration names.\<close>

definition addProfileAddresses :: "Profile \<Rightarrow> string list" where
  "addProfileAddresses profile = (case pf_Config profile of
     OracleCfg c \<Rightarrow> opc_PoolAddresses c
   | SyntheticsCfg c \<Rightarrow> syc_CDPAddresses c
   | _ \<Rightarrow> [])"

text \<open>\<open>NewOracleStorage\<close> and \<open>Oracle.Start\<close>: a store that cannot be read is closed again.\<close>

definition oracle_Start :: "'w startup_env \<Rightarrow> ServiceConfig \<Rightarrow> string list \<Rightarrow> Profile \<Rightarrow> (Oracle \<times> string list) option" where
  "oracle_Start env cfg locked profile =
     (let dbPath = se_join env (st_Directory (cf_Storage cfg)) ''oracle''
      in if \<not> se_open env locked dbPath then None
         else case loadPersistedStates (New (addProfileAddresses profile) (se_oracleStore env)) of
                (Some e, o1) \<Rightarrow> None
              | (None, o1) \<Rightarrow> Some (o1, dbPath # locked))"

definition startOracleProfile ::
  "'w startup_env \<Rightarrow> ServiceConfig \<Rightarrow> Profile \<Rightarrow> service_parser option \<Rightarrow> string \<Rightarrow> running \<Rightarrow> exit_reason + running" where
  "startOracleProfile env cfg profile parser protocol rn = (case parser of
     None \<Rightarrow> Inl (ExitUnknownProtocol protocol)
   | Some p \<Rightarrow> (case oracle_Start env cfg (rn_open rn) profile of
       None \<Rightarrow> Inl (ExitOracleStart (pf_Name profile))
     | Some (o1, locked) \<Rightarrow>
         Inr (rn\<lparr>rn_open := locked, rn_oracles := rn_oracles rn @ [(pf_Name profile, p, o1)],
                 rn_handlers := rn_handlers rn @ [OracleEvents (pf_Name profile)]\<rparr>)))"

text \<open>The store of the lending oracles is opened for the first of them and shared.\<close>

definition ensure_lending_storage :: "'w startup_env \<Rightarrow> ServiceConfig \<Rightarrow> running \<Rightarrow> exit_reason + running" where
  "ensure_lending_storage env cfg rn =
     (if rn_lendingStorage rn \<noteq> None then Inr rn
      else let dbPath = se_join env (st_Directory (cf_Storage cfg)) ''lending''
           in if se_open env (rn_open rn) dbPath
                then Inr (rn\<lparr>rn_open := dbPath # rn_open rn, rn_lendingStorage := Some (se_lendingStore env)\<rparr>)
                else Inl ExitLendingStorage)"

definition start_lending ::
  "'w startup_env \<Rightarrow> ServiceConfig \<Rightarrow> Profile \<Rightarrow> LendingProfileConfig \<Rightarrow> running \<Rightarrow> exit_reason + running" where
  "start_lending env cfg profile lendingCfg rn = (case getLendingParser (se_cbor env) (lpc_Protocol lendingCfg) of
     None \<Rightarrow> Inl (ExitUnknownLending (lpc_Protocol lendingCfg))
   | Some parser \<Rightarrow> (case ensure_lending_storage env cfg rn of
       Inl e \<Rightarrow> Inl e
     | Inr rn' \<Rightarrow>
         (let o1 = NewLendingOracle parser (Some (lpc_MarketAddresses lendingCfg, lpc_OracleAddresses lendingCfg))
                     (rn_lendingStorage rn')
          in case lending_Start \<lparr>le_parser = parser, le_network = cf_Network cfg, le_commits = (\<lambda>k v. True)\<rparr> o1 of
               Inl e \<Rightarrow> Inl (ExitLendingStart (pf_Name profile))
             | Inr o2 \<Rightarrow> Inr (rn'\<lparr>rn_lending := rn_lending rn' @ [(pf_Name profile, o2)],
                                  rn_handlers := rn_handlers rn' @ [LendingEvents (pf_Name profile)]\<rparr>))))"

definition profile_hashes_of :: "SpectrumProfileConfig \<Rightarrow> profile_hashes" where
  "profile_hashes_of c =
     (let ref = (\<lambda>r. \<lparr>ir_TxId = ref_TxId r, ir_OutputIdx = word_of_nat (ref_OutputIdx r)\<rparr>)
      in \<lparr>ph_SwapHash = spc_SwapHash c, ph_DepositHash = spc_DepositHash c, ph_RedeemHash = spc_RedeemHash c,
          ph_PoolV1Hash = spc_PoolV1Hash c, ph_PoolV2Hash = spc_PoolV2Hash c, ph_SwapInputRef = ref (spc_SwapInputRef c),
          ph_PoolV1InputRef = ref (spc_PoolV1InputRef c), ph_PoolV2InputRef = ref (spc_PoolV2InputRef c)\<rparr>)"

text \<open>The switch over the kind of a profile. A failed type assertion without \<open>ok\<close> panics.\<close>

definition start_profile :: "'w startup_env \<Rightarrow> ServiceConfig \<Rightarrow> Profile \<Rightarrow> running \<Rightarrow> exit_reason + running" where
  "start_profile env cfg profile rn =
     (if pf_Type profile = ProfileTypeSpectrum then
        (case pf_Config profile of
           SpectrumCfg c \<Rightarrow>
             Inr (rn\<lparr>rn_spectrum := rn_spectrum rn @ [spectrum_New (se_scriptAddress env) (pf_Name profile) (profile_hashes_of c)],
                     rn_handlers := rn_handlers rn @ [SpectrumEvents (pf_Name profile)]\<rparr>)
         | _ \<Rightarrow> Inl (ExitSpectrumConfig (pf_Name profile)))
      else if pf_Type profile = ProfileTypeOracle then
        (case pf_Config profile of
           OracleCfg c \<Rightarrow> startOracleProfile env cfg profile (map_option PoolService (getOracleParser (opc_Protocol c)))
                            (opc_Protocol c) rn
         | _ \<Rightarrow> Inl (ExitOracleConfig (pf_Name profile)))
      else if pf_Type profile = ProfileTypeSynthetics then
        (case pf_Config profile of
           SyntheticsCfg c \<Rightarrow> startOracleProfile env cfg profile (getSyntheticsParser (syc_Protocol c)) (syc_Protocol c) rn
         | _ \<Rightarrow> Inl (ExitSyntheticsConfig (pf_Name profile)))
      else if pf_Type profile = ProfileTypeLending then
        (case pf_Config profile of
           LendingCfg c \<Rightarrow> start_lending env cfg profile c rn
         | _ \<Rightarrow> Inl (ExitLendingConfig (pf_Name profile)))
      else if pf_Type profile = ProfileTypeNone then Inl ExitTypeNone
      else Inl (ExitUnknownType (pf_Name profile)))"

fun start_profiles :: "'w startup_env \<Rightarrow> ServiceConfig \<Rightarrow> Profile list \<Rightarrow> running \<Rightarrow> exit_reason + running" where
  "start_profiles env cfg [] rn = Inr rn"
| "start_profiles env cfg (p # ps) rn = (case start_profile env cfg p rn of
     Inl e \<Rightarrow> Inl e
   | Inr rn' \<Rightarrow> start_profiles env cfg ps rn')"

section \<open>The whole start\<close>

text \<open>The handlers that the API server registers: the oracles of each API, by the names of their profiles.\<close>

datatype registrar = OracleAPIFor "string list" | LendingAPIFor "string list"

definition api_registrars :: "ServiceConfig \<Rightarrow> running \<Rightarrow> registrar list" where
  "api_registrars cfg rn =
     (if oc_APIEnabled (cf_Oracle cfg)
        then (if rn_oracles rn \<noteq> [] then [OracleAPIFor (map fst (rn_oracles rn))] else [])
           @ (if rn_lending rn \<noteq> [] then [LendingAPIFor (map fst (rn_lending rn))] else [])
        else [])"

text \<open>\<open>storage.Load\<close>: the service's own store is in the storage directory itself.\<close>

definition load_storage :: "'w startup_env \<Rightarrow> ServiceConfig \<Rightarrow> exit_reason + string list \<times> kv_store" where
  "load_storage env cfg =
     (let dir = st_Directory (cf_Storage cfg)
      in if \<not> se_open env [] dir then Inl ExitStorageOpen
         else case compareFingerprint (se_acc env) (cf_Network cfg) (cf_Profiles cfg) (se_serviceStore env) of
                (Some e, db) \<Rightarrow> Inl (ExitStorage e)
              | (None, db) \<Rightarrow> Inr ([dir], db))"

text \<open>The node, the transaction submission and the indexer, in this order.\<close>

definition start_rest :: "'w startup_env \<Rightarrow> exit_reason option" where
  "start_rest env =
     (if \<not> se_nodeStart env then Some ExitNodeStart
      else if \<not> se_submitStart env then Some ExitSubmitStart
      else if \<not> se_indexerStart env then Some ExitIndexerStart
      else None)"

definition main :: "'w startup_env \<Rightarrow> string \<Rightarrow> exit_reason + running \<times> registrar list" where
  "main env configFile = (case Profiles (se_config env) of
     None \<Rightarrow> Inl ExitPanic
   | Some table \<Rightarrow> (case Load (se_config env) table configFile globalConfig of
       Inl e \<Rightarrow> Inl (ExitConfig e)
     | Inr cfg \<Rightarrow> (case load_storage env cfg of
         Inl e \<Rightarrow> Inl e
       | Inr (locked, db) \<Rightarrow> (case wallet_Setup (se_wallet env) cfg of
           None \<Rightarrow> Inl ExitPanic
         | Some w \<Rightarrow> (case start_profiles env cfg (GetProfiles table cfg)
               \<lparr>rn_open = locked, rn_spectrum = [], rn_oracles = [], rn_lending = [], rn_lendingStorage = None, rn_handlers = []\<rparr> of
             Inl e \<Rightarrow> Inl e
           | Inr rn \<Rightarrow> (case start_rest env of
               Some e \<Rightarrow> Inl e
             | None \<Rightarrow> Inr (rn, api_registrars cfg rn)))))))"

section \<open>The script address command\<close>

text \<open>\<open>cmd/mk-script-address\<close>: the hash and the address it prints; Blake2b and the address are library calls.\<close>

definition mk_script_address ::
  "(string \<Rightarrow> network option) \<Rightarrow> (string \<Rightarrow> bytes option) \<Rightarrow> (bytes \<Rightarrow> bytes) \<Rightarrow> (nat \<Rightarrow> bytes \<Rightarrow> string) \<Rightarrow>
   string \<Rightarrow> string \<Rightarrow> string \<Rightarrow> int \<Rightarrow> (string \<times> string) option" where
  "mk_script_address networkByName readFile blake2b_224 newAddress scriptData scriptPath networkName plutusVersion =
     (if (scriptPath = [] \<and> scriptData = []) \<or> networkName = [] then None
      else case networkByName networkName of
             None \<Rightarrow> None
           | Some net \<Rightarrow> (case (if scriptData \<noteq> [] then hex_decode scriptData else readFile scriptPath) of
               None \<Rightarrow> None
             | Some scriptBytes \<Rightarrow>
                 (let scriptHash = blake2b_224 (word_of_int plutusVersion # scriptBytes)
                  in Some (hex_encode scriptHash, newAddress (nw_Id net) scriptHash))))"

section \<open>What the start does with the selected profiles\<close>

text \<open>A profile that needs the oracle store, and a name for each component that runs.\<close>

definition needs_oracle_store :: "Profile \<Rightarrow> bool" where
  "needs_oracle_store p = (pf_Type p = ProfileTypeOracle \<or> pf_Type p = ProfileTypeSynthetics)"

text \<open>
  The environment of a machine on which every store can be opened and read: the lock is exclusive and
  the three directories differ.
\<close>

definition stores_work :: "'w startup_env \<Rightarrow> ServiceConfig \<Rightarrow> bool" where
  "stores_work env cfg =
     (let dir = st_Directory (cf_Storage cfg)
      in (\<forall>locked d. se_open env locked d \<longleftrightarrow> d \<notin> set locked)
       \<and> distinct [dir, se_join env dir ''oracle'', se_join env dir ''lending'']
       \<and> (\<forall>addrs. fst (loadPersistedStates (New addrs (se_oracleStore env))) = None))"

text \<open>What holds of the components between two turns of the loop.\<close>

definition running_ok :: "'w startup_env \<Rightarrow> ServiceConfig \<Rightarrow> running \<Rightarrow> bool" where
  "running_ok env cfg rn =
     (let dir = st_Directory (cf_Storage cfg)
      in (se_join env dir ''oracle'' \<in> set (rn_open rn) \<longleftrightarrow> rn_oracles rn \<noteq> [])
       \<and> (se_join env dir ''lending'' \<in> set (rn_open rn) \<longleftrightarrow> rn_lendingStorage rn \<noteq> None))"

lemma oracle_Start_outcome:
  assumes "stores_work env cfg" "running_ok env cfg rn"
  shows "(\<exists>o1. oracle_Start env cfg (rn_open rn) p = Some (o1, se_join env (st_Directory (cf_Storage cfg)) ''oracle'' # rn_open rn))
           = (rn_oracles rn = [])"
    and "oracle_Start env cfg (rn_open rn) p = None \<longleftrightarrow> rn_oracles rn \<noteq> []"
  using assms by (auto simp: oracle_Start_def stores_work_def running_ok_def Let_def split: prod.splits option.splits)
    (metis fst_conv option.distinct(1))+

lemma getSyntheticsParser_indigo: "getSyntheticsParser ''indigo'' = Some SyntheticsService"
  by (simp add: getSyntheticsParser_def)

lemma getLendingParser_liqwid: "getLendingParser cb ''liqwid'' = Some (NewLiqwidLendingAdapter cb)"
  by (simp add: getLendingParser_def GetLendingParser_def)


fun handler_name :: "event_handler \<Rightarrow> string" where
  "handler_name (SpectrumEvents n) = n"
| "handler_name (OracleEvents n) = n"
| "handler_name (LendingEvents n) = n"

definition handler_of :: "Profile \<Rightarrow> event_handler" where
  "handler_of p =
     (if pf_Type p = ProfileTypeSpectrum then SpectrumEvents (pf_Name p)
      else if pf_Type p = ProfileTypeLending then LendingEvents (pf_Name p)
      else OracleEvents (pf_Name p))"

lemma handler_name_of: "handler_name (handler_of p) = pf_Name p"
  by (simp add: handler_of_def)

lemma directories_differ:
  assumes "stores_work env cfg"
  shows "se_join env (st_Directory (cf_Storage cfg)) ''lending'' \<noteq> se_join env (st_Directory (cf_Storage cfg)) ''oracle''"
    and "se_open env locked d \<longleftrightarrow> d \<notin> set locked"
  using assms by (auto simp: stores_work_def Let_def)

lemma startOracleProfile_outcome:
  assumes "stores_work env cfg" "running_ok env cfg rn"
  shows "rn_oracles rn \<noteq> [] \<Longrightarrow> startOracleProfile env cfg p (Some q) protocol rn = Inl (ExitOracleStart (pf_Name p))"
    and "rn_oracles rn = [] \<Longrightarrow> \<exists>o1 rn'. startOracleProfile env cfg p (Some q) protocol rn = Inr rn' \<and> running_ok env cfg rn'
          \<and> rn_oracles rn' = [(pf_Name p, q, o1)] \<and> rn_handlers rn' = rn_handlers rn @ [OracleEvents (pf_Name p)]"
proof -
  show "rn_oracles rn \<noteq> [] \<Longrightarrow> startOracleProfile env cfg p (Some q) protocol rn = Inl (ExitOracleStart (pf_Name p))"
    using oracle_Start_outcome(2) [OF assms, of p] by (simp add: startOracleProfile_def)
  assume none: "rn_oracles rn = []"
  then obtain o1 where "oracle_Start env cfg (rn_open rn) p
      = Some (o1, se_join env (st_Directory (cf_Storage cfg)) ''oracle'' # rn_open rn)"
    using oracle_Start_outcome(1) [OF assms, of p] by blast
  then show "\<exists>o1 rn'. startOracleProfile env cfg p (Some q) protocol rn = Inr rn' \<and> running_ok env cfg rn'
          \<and> rn_oracles rn' = [(pf_Name p, q, o1)] \<and> rn_handlers rn' = rn_handlers rn @ [OracleEvents (pf_Name p)]"
    using none assms(2) directories_differ [OF assms(1)] by (simp add: startOracleProfile_def running_ok_def Let_def)
qed

lemma start_lending_outcome:
  assumes "stores_work env cfg" "running_ok env cfg rn" "lpc_Protocol c = ''liqwid''"
  shows "\<exists>rn'. start_lending env cfg p c rn = Inr rn' \<and> running_ok env cfg rn' \<and> rn_oracles rn' = rn_oracles rn
    \<and> rn_handlers rn' = rn_handlers rn @ [LendingEvents (pf_Name p)]"
proof -
  obtain rn' where opened: "ensure_lending_storage env cfg rn = Inr rn'" "running_ok env cfg rn'"
      "rn_lendingStorage rn' \<noteq> None" "rn_oracles rn' = rn_oracles rn" "rn_handlers rn' = rn_handlers rn"
  proof (cases "rn_lendingStorage rn = None")
    case True
    with assms(2) directories_differ [OF assms(1)] that show thesis
      by (simp add: ensure_lending_storage_def running_ok_def Let_def)
  next
    case False
    with assms(2) that show thesis by (simp add: ensure_lending_storage_def)
  qed
  then show ?thesis
    by (simp add: start_lending_def assms(3) getLendingParser_liqwid lending_Start_def NewLendingOracle_def Let_def
        running_ok_def split: option.split)
qed

text \<open>One turn: a second profile on the oracle store ends the process, every other profile runs.\<close>

lemma start_profile_outcome:
  assumes "stores_work env cfg" "running_ok env cfg rn" "config_fits (pf_Type p) (pf_Config p)"
  shows "if needs_oracle_store p \<and> rn_oracles rn \<noteq> []
    then start_profile env cfg p rn = Inl (ExitOracleStart (pf_Name p))
    else \<exists>rn'. start_profile env cfg p rn = Inr rn' \<and> running_ok env cfg rn'
           \<and> (rn_oracles rn' \<noteq> [] \<longleftrightarrow> needs_oracle_store p \<or> rn_oracles rn \<noteq> [])
           \<and> rn_handlers rn' = rn_handlers rn @ [handler_of p]"
proof (cases "pf_Config p")
  case NilConfig
  then show ?thesis using assms(3) by simp
next
  case (SpectrumCfg c)
  then show ?thesis using assms by (simp add: start_profile_def needs_oracle_store_def handler_of_def running_ok_def)
next
  case (OracleCfg c)
  then obtain q where q: "getOracleParser (opc_Protocol c) = Some q"
    using assms(3) by (auto simp: Option.is_none_def)
  have t: "pf_Type p = ProfileTypeOracle" using OracleCfg assms(3) by simp
  show ?thesis
    using startOracleProfile_outcome [OF assms(1,2), of p "PoolService q" "opc_Protocol c"]
    by (cases "rn_oracles rn") (force simp: start_profile_def needs_oracle_store_def handler_of_def OracleCfg t q)+
next
  case (SyntheticsCfg c)
  then have t: "pf_Type p = ProfileTypeSynthetics" "syc_Protocol c = ''indigo''" using assms(3) by simp_all
  show ?thesis
    using startOracleProfile_outcome [OF assms(1,2), of p SyntheticsService "''indigo''"]
    by (cases "rn_oracles rn")
      (force simp: start_profile_def needs_oracle_store_def handler_of_def SyntheticsCfg t getSyntheticsParser_indigo)+
next
  case (LendingCfg c)
  then have t: "pf_Type p = ProfileTypeLending" "lpc_Protocol c = ''liqwid''" using assms(3) by simp_all
  show ?thesis
    using start_lending_outcome [OF assms(1,2) t(2), of p]
    by (auto simp: start_profile_def needs_oracle_store_def handler_of_def LendingCfg t(1))
qed

lemma start_profiles_outcome:
  assumes "stores_work env cfg" "running_ok env cfg rn" "\<forall>p \<in> set ps. config_fits (pf_Type p) (pf_Config p)"
  shows "case (if rn_oracles rn \<noteq> [] then id else tl) (filter needs_oracle_store ps) of
      p2 # _ \<Rightarrow> start_profiles env cfg ps rn = Inl (ExitOracleStart (pf_Name p2))
    | [] \<Rightarrow> \<exists>rn'. start_profiles env cfg ps rn = Inr rn' \<and> rn_handlers rn' = rn_handlers rn @ map handler_of ps"
  using assms(2,3)
proof (induction ps arbitrary: rn)
  case Nil
  then show ?case by simp
next
  case (Cons p ps)
  show ?case
  proof (cases "needs_oracle_store p \<and> rn_oracles rn \<noteq> []")
    case True
    then show ?thesis using start_profile_outcome [OF assms(1) Cons.prems(1), of p] Cons.prems(2) by simp
  next
    case False
    then obtain rn' where step: "start_profile env cfg p rn = Inr rn'" "running_ok env cfg rn'"
        "rn_oracles rn' \<noteq> [] \<longleftrightarrow> needs_oracle_store p \<or> rn_oracles rn \<noteq> []" "rn_handlers rn' = rn_handlers rn @ [handler_of p]"
      using start_profile_outcome [OF assms(1) Cons.prems(1), of p] Cons.prems(2) by auto
    show ?thesis
      using Cons.IH [OF step(2)] Cons.prems(2) step False by (auto split: list.splits if_split_asm)
  qed
qed


section \<open>The outcome of the start\<close>

lemma main_profiles:
  assumes "Profiles (se_config env) = Some table"
    and "Load (se_config env) table f globalConfig = Inr cfg"
    and "stores_work env cfg"
    and "fst (compareFingerprint (se_acc env) (cf_Network cfg) (cf_Profiles cfg) (se_serviceStore env)) = None"
    and "wallet_Setup (se_wallet env) cfg = Some w"
    and "start_rest env = None"
  shows "main env f = (case start_profiles env cfg (GetProfiles table cfg)
      \<lparr>rn_open = [st_Directory (cf_Storage cfg)], rn_spectrum = [], rn_oracles = [], rn_lending = [], rn_lendingStorage = None,
       rn_handlers = []\<rparr> of Inl e \<Rightarrow> Inl e | Inr rn \<Rightarrow> Inr (rn, api_registrars cfg rn))"
proof -
  have "load_storage env cfg = Inr ([st_Directory (cf_Storage cfg)],
      snd (compareFingerprint (se_acc env) (cf_Network cfg) (cf_Profiles cfg) (se_serviceStore env)))"
    using assms(4) directories_differ(2) [OF assms(3)] by (auto simp: load_storage_def Let_def split: prod.split option.split)
  then show ?thesis using assms(1,2,5,6) by (simp add: main_def split: sum.split)
qed

text \<open>C31: For a configuration that \<open>Load\<close> accepts, on a machine whose stores, wallet and sockets work, the
  start ends in exactly one of two ways. With at most one pool or CDP profile, every configured
  profile runs, each once, and the indexer's handlers are those of the selected profiles. With two,
  the process exits at the second, whose store is the directory that the first holds open.\<close>

theorem startup_exact:
  assumes "Profiles (se_config env) = Some table"
    and "Load (se_config env) table f globalConfig = Inr cfg"
    and "stores_work env cfg"
    and "fst (compareFingerprint (se_acc env) (cf_Network cfg) (cf_Profiles cfg) (se_serviceStore env)) = None"
    and "wallet_Setup (se_wallet env) cfg = Some w"
    and "start_rest env = None"
  shows "case filter needs_oracle_store (GetProfiles table cfg) of
      p1 # p2 # _ \<Rightarrow> main env f = Inl (ExitOracleStart (pf_Name p2))
    | _ \<Rightarrow> \<exists>rn apis. main env f = Inr (rn, apis)
        \<and> rn_handlers rn = map handler_of (GetProfiles table cfg)
        \<and> distinct (map handler_name (rn_handlers rn))
        \<and> set (map handler_name (rn_handlers rn)) = set (cf_Profiles cfg)"
proof -
  define start where "start = \<lparr>rn_open = [st_Directory (cf_Storage cfg)], rn_spectrum = [], rn_oracles = [], rn_lending = [],
    rn_lendingStorage = None, rn_handlers = []\<rparr>"
  have ok: "running_ok env cfg start"
    using assms(3) by (auto simp: start_def running_ok_def stores_work_def Let_def)
  have tbl: "table_ok table" by (rule Profiles_ok [OF assms(1)])
  have names: "map handler_name (map handler_of (GetProfiles table cfg))
      = filter (\<lambda>n. n \<in> set (cf_Profiles cfg)) (GetAvailableProfiles table cfg)"
    using GetProfiles_names [OF tbl] by (simp add: handler_name_of comp_def)
  have "distinct (GetAvailableProfiles table cfg)"
    using table_network(2) [OF tbl] by (simp add: GetAvailableProfiles_def split: option.split)
  then have dist: "distinct (map handler_name (map handler_of (GetProfiles table cfg)))"
    and sets: "set (map handler_name (map handler_of (GetProfiles table cfg))) = set (cf_Profiles cfg)"
    using Load_checked(1) [OF assms(2)] unfolding names by auto
  have outcome: "case tl (filter needs_oracle_store (GetProfiles table cfg)) of
      p2 # _ \<Rightarrow> start_profiles env cfg (GetProfiles table cfg) start = Inl (ExitOracleStart (pf_Name p2))
    | [] \<Rightarrow> \<exists>rn. start_profiles env cfg (GetProfiles table cfg) start = Inr rn
              \<and> rn_handlers rn = map handler_of (GetProfiles table cfg)"
    using start_profiles_outcome [OF assms(3) ok, of "GetProfiles table cfg"] GetProfiles_fit [OF tbl, of _ cfg]
    by (cases "tl (filter needs_oracle_store (GetProfiles table cfg))") (simp_all add: start_def)
  have main: "main env f = (case start_profiles env cfg (GetProfiles table cfg) start of
      Inl e \<Rightarrow> Inl e | Inr rn \<Rightarrow> Inr (rn, api_registrars cfg rn))"
    unfolding start_def by (rule main_profiles [OF assms])
  show ?thesis
  proof (cases "tl (filter needs_oracle_store (GetProfiles table cfg))")
    case Nil
    then obtain rn where "main env f = Inr (rn, api_registrars cfg rn)" "rn_handlers rn = map handler_of (GetProfiles table cfg)"
      using outcome main by auto
    then have "\<exists>rn apis. main env f = Inr (rn, apis) \<and> rn_handlers rn = map handler_of (GetProfiles table cfg)
        \<and> distinct (map handler_name (rn_handlers rn)) \<and> set (map handler_name (rn_handlers rn)) = set (cf_Profiles cfg)"
      using dist sets by (intro exI [of _ rn] exI [of _ "api_registrars cfg rn"]) (simp only: simp_thms)
    with Nil show ?thesis by (cases "filter needs_oracle_store (GetProfiles table cfg)") simp_all
  next
    case (Cons p2 ps)
    then show ?thesis using outcome main by (cases "filter needs_oracle_store (GetProfiles table cfg)") simp_all
  qed
qed

text \<open>A machine on which everything works, with the configuration that an environment variable selects.\<close>

definition demo_config_libs :: "string list \<Rightarrow> config_libs" where
  "demo_config_libs profiles =
     \<lparr>cl_ReadFile = (\<lambda>f. None), cl_Unmarshal = (\<lambda>b c. (True, c)), cl_Process = (\<lambda>c. (True, c\<lparr>cf_Profiles := profiles\<rparr>)),
      cl_TopologyFile = (\<lambda>f. None),
      cl_NetworkByName = (\<lambda>n. if n \<in> {''mainnet'', ''preprod'', ''preview''} then Some \<lparr>nw_Id = 1, nw_NetworkMagic = 764824073\<rparr> else None),
      cl_NewAddressFromParts = (\<lambda>t i p s. Some ''addr_test1'')\<rparr>"

definition demo_startup_env :: "string list \<Rightarrow> unit startup_env" where
  "demo_startup_env profiles =
     \<lparr>se_config = demo_config_libs profiles, se_join = (\<lambda>d n. d @ ''/'' @ n), se_open = (\<lambda>locked d. d \<notin> set locked),
      se_serviceStore = [], se_oracleStore = [], se_lendingStore = [], se_acc = \<lambda>k v. True, se_cbor = unary_lib,
      se_wallet = \<lparr>wb_ReadSeed = SeedMissing, wb_GenerateMnemonic = Some ''abandon'', wb_WriteSeed = True, wb_NewWallet = \<lambda>m n. Some ()\<rparr>,
      se_scriptAddress = None, se_nodeStart = True, se_submitStart = True, se_indexerStart = True\<rparr>"


definition demo_table :: "(string, (string, Profile) gomap) gomap" where
  "demo_table = [(''preprod'', preprodProfiles ''addr_test1''), (''preview'', previewProfiles ''addr_test1''),
     (''mainnet'', mainnet_dex_profiles @ mainnet_position_profiles @ mainnet_spectrum_profiles)]"

lemma script_hashes_decode:
  "hex_decode ''d6ba9b7509eac866288ff5072d2a18205ac56f744bc82dcd808cb8fe'' \<noteq> None"
  "hex_decode ''44a1eb2d9f58add4eb1932bd0048e6a1947e85e3fe4f32956a110414'' \<noteq> None"
  "hex_decode ''cc27980a8557fe9db2c9ac0a2677f4d1306dbf10689983758f0b8dbe'' \<noteq> None"
  by code_simp+

lemma demo_address:
  assumes "n \<in> {''mainnet'', ''preprod'', ''preview''}" "hex_decode p \<noteq> None" "q = [] \<or> hex_decode q \<noteq> None"
  shows "mustScriptAddress (demo_config_libs ps) n t p q = Some ''addr_test1''"
  using assms by (auto simp: mustScriptAddress_def demo_config_libs_def)

lemma demo_Profiles: "Profiles (demo_config_libs ps) = Some demo_table"
proof -
  have "mustScriptEnterpriseAddress (demo_config_libs ps) ''preprod''
      ''d6ba9b7509eac866288ff5072d2a18205ac56f744bc82dcd808cb8fe'' = Some ''addr_test1''"
    unfolding mustScriptEnterpriseAddress_def by (rule demo_address) (use script_hashes_decode(1) in simp_all)
  moreover have "mustScriptScriptAddress (demo_config_libs ps) ''preview''
      ''44a1eb2d9f58add4eb1932bd0048e6a1947e85e3fe4f32956a110414''
      ''cc27980a8557fe9db2c9ac0a2677f4d1306dbf10689983758f0b8dbe'' = Some ''addr_test1''"
    unfolding mustScriptScriptAddress_def by (rule demo_address) (use script_hashes_decode(2,3) in simp_all)
  ultimately show ?thesis by (simp only: Profiles_def demo_table_def bind.bind_lunit)
qed

lemma demo_Load:
  assumes "set ps \<subseteq> {''minswap-v1'', ''minswap-v2'', ''sundaeswap-v1'', ''sundaeswap-v3'', ''splash-v1'', ''wingriders-v2'', ''vyfi'',
    ''cswap'', ''indigo'', ''liqwid'', ''spectrum'', ''teddyswap''}"
  shows "Load (demo_config_libs ps) demo_table [] globalConfig
    = Inr (globalConfig\<lparr>cf_Profiles := ps, cf_NetworkMagic := 764824073\<rparr>)"
proof -
  have "GetAvailableProfiles demo_table (globalConfig\<lparr>cf_Profiles := ps, cf_NetworkMagic := 764824073\<rparr>)
      = map fst (mainnet_dex_profiles @ mainnet_position_profiles @ mainnet_spectrum_profiles)"
    by (simp add: GetAvailableProfiles_def demo_table_def globalConfig_def)
  then have "check_profiles (GetAvailableProfiles demo_table (globalConfig\<lparr>cf_Profiles := ps, cf_NetworkMagic := 764824073\<rparr>)) ps = Inr ()"
    using assms unfolding check_profiles_ok mainnet_names by simp
  then show ?thesis
    by (simp add: Load_def load_file_def load_environment_def load_network_def demo_config_libs_def globalConfig_def)
qed

lemma demo_works: "stores_work (demo_startup_env ps) (globalConfig\<lparr>cf_Profiles := ps, cf_NetworkMagic := 764824073\<rparr>)"
proof -
  have "LoadActivityState [] = Inr \<lparr>as_WindowSlots = 0, as_LatestSlot = 0, as_Swaps = []\<rparr>"
    by (simp add: LoadActivityState_def iterate_def)
  moreover have "\<exists>t. o_activity (New addrs []) = Some t" "o_storage (New addrs []) = []" for addrs
    by (simp_all add: New_def NewActivityTracker_def defaultPoolActivityWindowSlots_def)
  ultimately have "fst (loadPersistedStates (New addrs [])) = None" for addrs
  proof -
    obtain t where "o_activity (New addrs []) = Some t"
      using \<open>\<And>addrs. \<exists>t. o_activity (New addrs []) = Some t\<close> by blast
    then show ?thesis
      by (simp add: loadPersistedStates_def Let_def \<open>o_storage (New addrs []) = []\<close>
          \<open>LoadActivityState [] = Inr \<lparr>as_WindowSlots = 0, as_LatestSlot = 0, as_Swaps = []\<rparr>\<close>)
  qed
  then show ?thesis by (simp add: stores_work_def demo_startup_env_def globalConfig_def)
qed

lemma demo_rest: "start_rest (demo_startup_env ps) = None" "wallet_Setup (se_wallet (demo_startup_env ps)) (globalConfig\<lparr>cf_Profiles := ps, cf_NetworkMagic := 764824073\<rparr>)
    = Some ((), Some ''abandon'')"
    "fst (compareFingerprint (se_acc (demo_startup_env ps)) n p (se_serviceStore (demo_startup_env ps))) = None"
  by (simp_all add: start_rest_def demo_startup_env_def wallet_Setup_def globalConfig_def compareFingerprint_def kv_update_def Let_def)

theorem startup_exact_witness:
  "main (demo_startup_env [''liqwid'', ''minswap-v2'', ''sundaeswap-v3'']) [] = Inl (ExitOracleStart ''sundaeswap-v3'')"
proof -
  let ?ps = "[''liqwid'', ''minswap-v2'', ''sundaeswap-v3'']"
  let ?cfg = "globalConfig\<lparr>cf_Profiles := ?ps, cf_NetworkMagic := 764824073\<rparr>"
  have "GetProfiles demo_table ?cfg = map snd (filter (\<lambda>(k, profile). k \<in> set ?ps)
      (mainnet_dex_profiles @ mainnet_position_profiles @ mainnet_spectrum_profiles))"
    by (simp add: GetProfiles_def demo_table_def globalConfig_def)
  then have "map pf_Name (filter needs_oracle_store (GetProfiles demo_table ?cfg)) = [''minswap-v2'', ''sundaeswap-v3'']"
    by (simp add: mainnet_dex_profiles_def mainnet_position_profiles_def mainnet_spectrum_profiles_def oracle_profile_def
        synthetics_profile_def lending_profile_def spectrum_profile_def needs_oracle_store_def)
  then obtain p1 p2 where "filter needs_oracle_store (GetProfiles demo_table ?cfg) = [p1, p2]" "pf_Name p2 = ''sundaeswap-v3''"
    by (auto simp: map_eq_Cons_conv)
  with startup_exact [of "demo_startup_env ?ps" demo_table "[]" ?cfg, OF _ _ demo_works demo_rest(3,2,1)] show ?thesis
    by (simp add: demo_Profiles demo_Load demo_startup_env_def)
qed

end
