(* ===== verification/Oracle_Api.thy ===== *)
theory Oracle_Api
  imports Oracle_Pools Durability Ada_Usd
begin

text \<open>
  The HTTP side of the oracle API (\<open>internal/oracle/api.go\<close>): which origins may open a stream, and the
  responses of every handler from the current states of the oracles. A request is the values the
  handler reads of it: the path value and the query parameter. A response is its status and the value
  that is encoded; the rendering as JSON is left out. Host names are ASCII.

  The last sections show that a volume request is answered from the tracker as long as no rollback
  has happened, and with an internal error after some rollbacks.
\<close>

section \<open>Origins\<close>

text \<open>\<open>strings.Trim\<close> with a set of characters.\<close>

definition trim_set :: "char set \<Rightarrow> string \<Rightarrow> string" where
  "trim_set cs s = trim_end (\<lambda>c. c \<in> cs) (dropWhile (\<lambda>c. c \<in> cs) s)"

fun index_of :: "char \<Rightarrow> string \<Rightarrow> nat option" where
  "index_of c [] = None"
| "index_of c (d # s) = (if d = c then Some 0 else map_option Suc (index_of c s))"

definition last_index_of :: "char \<Rightarrow> string \<Rightarrow> nat option" where
  "last_index_of c s = map_option (\<lambda>i. length s - 1 - i) (index_of c (rev s))"

text \<open>\<open>net.SplitHostPort\<close>: \<open>None\<close> for each of its errors.\<close>

definition SplitHostPort :: "string \<Rightarrow> (string \<times> string) option" where
  "SplitHostPort hostport = (case last_index_of (CHR '':'') hostport of
     None \<Rightarrow> None
   | Some i \<Rightarrow>
       (let finish = (\<lambda>host j k.
              if CHR ''['' \<in> set (drop j hostport) \<or> CHR '']'' \<in> set (drop k hostport) then None
              else Some (host, drop (i + 1) hostport))
        in if hd hostport = CHR ''['' then
             (case index_of (CHR '']'') hostport of
                None \<Rightarrow> None
              | Some e \<Rightarrow> if e + 1 = i then finish (take (e - 1) (drop 1 hostport)) 1 (e + 1) else None)
           else if CHR '':'' \<in> set (take i hostport) then None
           else finish (take i hostport) 0 0))"

definition default_port :: "string \<Rightarrow> string" where
  "default_port scheme =
     (let s = to_lower scheme
      in if s = ''http'' \<or> s = ''ws'' then ''80'' else if s = ''https'' \<or> s = ''wss'' then ''443'' else [])"

definition normalizeHostPort :: "string \<Rightarrow> string \<Rightarrow> string" where
  "normalizeHostPort hostPort scheme =
     (let (host0, port) = (case SplitHostPort hostPort of None \<Rightarrow> (hostPort, []) | Some hp \<Rightarrow> hp);
          host = to_lower (trim_set {CHR ''['', CHR '']''} host0)
      in if host = [] then []
         else if port = [] \<or> port = default_port scheme then host
         else JoinHostPort host port)"

text \<open>\<open>URL.Hostname\<close>: without a valid port at the end and without brackets.\<close>

definition url_Hostname :: "string \<Rightarrow> string" where
  "url_Hostname hostPort =
     (let host = (case last_index_of (CHR '':'') hostPort of
            None \<Rightarrow> hostPort
          | Some i \<Rightarrow> if list_all is_digit (drop (i + 1) hostPort) then take i hostPort else hostPort)
      in if host \<noteq> [] \<and> hd host = CHR ''['' \<and> last host = CHR '']'' then butlast (tl host) else host)"

record origin_url =
  or_Scheme :: string
  or_Host :: string

record stream_request =
  sr_Origin :: string
  sr_Host :: string
  sr_TLS :: bool
  sr_URLScheme :: string
  sr_URLHost :: string

definition local_host :: "string \<Rightarrow> bool" where
  "local_host h = (h = ''localhost'' \<or> h = ''127.0.0.1'' \<or> h = ''::1'')"

definition request_scheme :: "stream_request \<Rightarrow> string" where
  "request_scheme r = (if sr_URLScheme r \<noteq> [] then sr_URLScheme r else if sr_TLS r then ''https'' else ''http'')"

text \<open>The parser of URLs is the parameter: the scheme and the host of an origin, \<open>None\<close> for an error.\<close>

definition checkWebSocketOrigin :: "(string \<Rightarrow> origin_url option) \<Rightarrow> stream_request \<Rightarrow> bool" where
  "checkWebSocketOrigin parse r =
     (if sr_Origin r = [] then True
      else case parse (sr_Origin r) of
        None \<Rightarrow> False
      | Some u \<Rightarrow>
          if or_Host u = [] then False
          else if local_host (url_Hostname (or_Host u)) then True
          else (let host = (if sr_Host r = [] then sr_URLHost r else sr_Host r)
                in if host = [] then False
                   else (let originHostPort = normalizeHostPort (or_Host u) (or_Scheme u);
                             requestHostPort = normalizeHostPort host (request_scheme r)
                         in if originHostPort = [] \<or> requestHostPort = [] then False
                            else EqualFold originHostPort requestHostPort)))"

section \<open>Responses\<close>

record price_entry =
  pe_PoolId :: string
  pe_Protocol :: string
  pe_AssetX :: string
  pe_AssetY :: string
  pe_PriceXY :: f64
  pe_PriceYX :: f64
  pe_ReserveX :: u64
  pe_ReserveY :: u64

datatype api_body =
    PlainError string
  | CodedError string string
  | PoolsBody "PoolState list" nat
  | PoolBody PoolState
  | VolumeBody PoolVolume
  | CdpsBody "CDPState list" nat
  | CdpBody CDPState
  | PricesBody "price_entry list" nat
  | AdaUsdBody Result
  | AdaUsdErrorBody price_error Result

record api_response =
  rs_Status :: nat
  rs_Body :: api_body

abbreviation ok_response :: "api_body \<Rightarrow> api_response" where
  "ok_response b \<equiv> \<lparr>rs_Status = 200, rs_Body = b\<rparr>"

text \<open>\<open>NewMultiOracleAPI\<close> leaves out nil oracles.\<close>

definition NewMultiOracleAPI :: "'a option list \<Rightarrow> 'a list" where
  "NewMultiOracleAPI oracles = concat (map (\<lambda>o1. case o1 of None \<Rightarrow> [] | Some x \<Rightarrow> [x]) oracles)"

section \<open>Queries over all oracles\<close>

definition getAllPools :: "Oracle list \<Rightarrow> PoolState list" where
  "getAllPools oracles = concat (map GetAllPools oracles)"

definition getAllCDPs :: "Oracle list \<Rightarrow> CDPState list" where
  "getAllCDPs oracles = concat (map GetAllCDPs oracles)"

fun getPoolState :: "Oracle list \<Rightarrow> string \<Rightarrow> PoolState option" where
  "getPoolState [] poolId = None"
| "getPoolState (o1 # os) poolId = (case GetPoolState poolId o1 of Some pool \<Rightarrow> Some pool | None \<Rightarrow> getPoolState os poolId)"

fun getCDPState :: "Oracle list \<Rightarrow> string \<Rightarrow> CDPState option" where
  "getCDPState [] cdpId = None"
| "getCDPState (o1 # os) cdpId = (case GetCDPState cdpId o1 of Some cdp \<Rightarrow> Some cdp | None \<Rightarrow> getCDPState os cdpId)"

text \<open>The newest confirmed slot among the pools of the oracle, from the slot of the pool asked for.\<close>

definition newest_slot :: "u64 \<Rightarrow> PoolState list \<Rightarrow> u64" where
  "newest_slot s0 pools = foldl (\<lambda>atSlot pool. if \<not> FromMempool pool \<and> Slot pool > atSlot then Slot pool else atSlot) s0 pools"

fun getPoolVolume :: "Oracle list \<Rightarrow> string \<Rightarrow> (activity_error + PoolVolume option) option" where
  "getPoolVolume [] poolID = None"
| "getPoolVolume (o1 # os) poolID = (case GetPoolState poolID o1 of
     None \<Rightarrow> getPoolVolume os poolID
   | Some state \<Rightarrow> Some (GetPoolVolume poolID (newest_slot (Slot state) (GetAllPools o1)) o1))"

section \<open>Handlers\<close>

definition HandleListPools :: "Oracle list \<Rightarrow> string \<Rightarrow> api_response" where
  "HandleListPools oracles protocol =
     (let pools = (if protocol \<noteq> [] then filter (\<lambda>p. Protocol p = protocol) (getAllPools oracles) else getAllPools oracles)
      in ok_response (PoolsBody pools (length pools)))"

definition HandleGetPool :: "Oracle list \<Rightarrow> string \<Rightarrow> api_response" where
  "HandleGetPool oracles poolId =
     (if poolId = [] then \<lparr>rs_Status = 400, rs_Body = PlainError ''Pool ID required''\<rparr>
      else case getPoolState oracles poolId of
        None \<Rightarrow> \<lparr>rs_Status = 404, rs_Body = PlainError ''Pool not found''\<rparr>
      | Some pool \<Rightarrow> ok_response (PoolBody pool))"

definition HandleGetPoolVolume :: "Oracle list \<Rightarrow> string \<Rightarrow> api_response" where
  "HandleGetPoolVolume oracles poolID =
     (if poolID = [] then \<lparr>rs_Status = 400, rs_Body = CodedError ''pool_id_required'' ''pool ID required''\<rparr>
      else case getPoolVolume oracles poolID of
        Some (Inl e) \<Rightarrow> \<lparr>rs_Status = 500, rs_Body = CodedError ''volume_error'' ''failed to compute pool volume''\<rparr>
      | None \<Rightarrow> \<lparr>rs_Status = 404, rs_Body = CodedError ''pool_not_found'' ''pool not found''\<rparr>
      | Some (Inr None) \<Rightarrow>
          \<lparr>rs_Status = 503, rs_Body = CodedError ''volume_unavailable'' ''confirmed pool volume is unavailable''\<rparr>
      | Some (Inr (Some volume)) \<Rightarrow> ok_response (VolumeBody volume))"

definition HandleListCDPs :: "Oracle list \<Rightarrow> string \<Rightarrow> api_response" where
  "HandleListCDPs oracles protocol =
     (let cdps = (if protocol \<noteq> [] then filter (\<lambda>c. cdp_Protocol c = protocol) (getAllCDPs oracles) else getAllCDPs oracles)
      in ok_response (CdpsBody cdps (length cdps)))"

definition HandleGetCDP :: "Oracle list \<Rightarrow> string \<Rightarrow> api_response" where
  "HandleGetCDP oracles cdpId =
     (if cdpId = [] then \<lparr>rs_Status = 400, rs_Body = PlainError ''CDP ID required''\<rparr>
      else case getCDPState oracles cdpId of
        None \<Rightarrow> \<lparr>rs_Status = 404, rs_Body = PlainError ''CDP not found''\<rparr>
      | Some cdp \<Rightarrow> ok_response (CdpBody cdp))"

definition price_entry_of :: "PoolState \<Rightarrow> price_entry" where
  "price_entry_of pool =
     \<lparr>pe_PoolId = PoolId pool, pe_Protocol = Protocol pool, pe_AssetX = Fingerprint (Class (AssetX pool)),
      pe_AssetY = Fingerprint (Class (AssetY pool)), pe_PriceXY = PriceXY pool, pe_PriceYX = PriceYX pool,
      pe_ReserveX = Amount (AssetX pool), pe_ReserveY = Amount (AssetY pool)\<rparr>"

definition HandleListPrices :: "Oracle list \<Rightarrow> api_response" where
  "HandleListPrices oracles =
     (let prices = map price_entry_of (getAllPools oracles) in ok_response (PricesBody prices (length prices)))"

text \<open>The clock that \<open>AggregateADAUSD\<close> reads is an argument; without a default configuration there is no estimate.\<close>

definition HandleADAUSDPrice :: "Oracle list \<Rightarrow> time \<Rightarrow> api_response option" where
  "HandleADAUSDPrice oracles now = (case DefaultConfig of
     None \<Rightarrow> None
   | Some config \<Rightarrow> (case AggregateADAUSDAt (map Some (getAllPools oracles)) config now of
       (result, Some e) \<Rightarrow> Some \<lparr>rs_Status = 503, rs_Body = AdaUsdErrorBody e result\<rparr>
     | (result, None) \<Rightarrow> Some (ok_response (AdaUsdBody result))))"

section \<open>Which origins are accepted\<close>

definition host_port :: "string \<Rightarrow> string \<Rightarrow> string" where
  "host_port h p = (if p = [] then h else h @ '':'' @ p)"

text \<open>A host name without colons and brackets, and a port of digits, which may be missing.\<close>

definition simple_host :: "string \<Rightarrow> bool" where
  "simple_host h = (h \<noteq> [] \<and> CHR '':'' \<notin> set h \<and> CHR ''['' \<notin> set h \<and> CHR '']'' \<notin> set h)"

definition explicit_port :: "string \<Rightarrow> string \<Rightarrow> string" where
  "explicit_port scheme p = (if p = default_port scheme then [] else p)"

lemma index_of_None: "index_of c s = None \<longleftrightarrow> c \<notin> set s"
  by (induction s) auto

lemma index_of_append: "c \<notin> set a \<Longrightarrow> index_of c (a @ c # b) = Some (length a)"
  by (induction a) auto

lemma last_index_of_None: "last_index_of c s = None \<longleftrightarrow> c \<notin> set s"
  by (simp add: last_index_of_def index_of_None)

lemma last_index_of_append: "c \<notin> set b \<Longrightarrow> last_index_of c (a @ c # b) = Some (length a)"
  by (simp add: last_index_of_def index_of_append)

lemma trim_set_id: "set s \<inter> cs = {} \<Longrightarrow> trim_set cs s = s"
proof -
  assume d: "set s \<inter> cs = {}"
  have "dropWhile (\<lambda>c. c \<in> cs) t = t" if "set t \<inter> cs = {}" for t
    using that by (cases t) auto
  then show ?thesis using d by (simp add: trim_set_def trim_end_def)
qed

lemma digit_plain: "list_all is_digit p \<Longrightarrow> CHR '':'' \<notin> set p \<and> CHR ''['' \<notin> set p \<and> CHR '']'' \<notin> set p"
  by (induction p) (auto simp: is_digit_def)

lemma lower_char_code:
  "of_char (lower_char c) = (let n = (of_char c :: nat) in if 65 \<le> n \<and> n \<le> 90 then n + 32 else n)"
  by (simp add: lower_char_def Let_def)

lemma char_eq_code: "c = d \<longleftrightarrow> of_char c = (of_char d :: nat)"
  by simp

lemma lower_char_idem: "lower_char (lower_char c) = lower_char c"
  unfolding char_eq_code lower_char_code Let_def by simp

lemma lower_char_keeps: "d \<in> {CHR '':'', CHR ''['', CHR '']''} \<Longrightarrow> lower_char c = d \<longleftrightarrow> c = d"
  unfolding char_eq_code lower_char_code Let_def by auto

lemma lower_char_digit: "is_digit c \<Longrightarrow> lower_char c = c"
  by (simp add: lower_char_def is_digit_def)

lemma to_lower_Cons: "to_lower (c # s) = lower_char c # to_lower s"
  by (simp add: to_lower_def)

lemma to_lower_idem: "to_lower (to_lower s) = to_lower s"
  by (simp add: to_lower_def lower_char_idem)

lemma to_lower_append: "to_lower (a @ b) = to_lower a @ to_lower b"
  by (simp add: to_lower_def)

lemma to_lower_Nil: "to_lower s = [] \<longleftrightarrow> s = []"
  by (simp add: to_lower_def)

lemma to_lower_keeps:
  assumes "d \<in> {CHR '':'', CHR ''['', CHR '']''}"
  shows "d \<in> set (to_lower s) \<longleftrightarrow> d \<in> set s"
proof -
  have "d = lower_char c \<longleftrightarrow> d = c" for c using lower_char_keeps [OF assms, of c] by metis
  then show ?thesis by (simp add: to_lower_def image_iff)
qed

lemma to_lower_digits: "list_all is_digit p \<Longrightarrow> to_lower p = p"
  by (induction p) (simp_all add: to_lower_Cons lower_char_digit, simp add: to_lower_def)

lemma SplitHostPort_simple:
  assumes "simple_host h" "list_all is_digit p"
  shows "SplitHostPort (host_port h p) = (if p = [] then None else Some (h, p))"
proof (cases "p = []")
  case True
  then show ?thesis
    using assms(1) by (simp add: SplitHostPort_def host_port_def simple_host_def last_index_of_None [THEN iffD2])
next
  case False
  have "hd (h @ CHR '':'' # p) \<noteq> CHR ''[''" using assms(1) by (cases h) (auto simp: simple_host_def)
  with False show ?thesis
    using assms digit_plain [OF assms(2)]
    by (simp add: SplitHostPort_def host_port_def simple_host_def last_index_of_append Let_def)
qed

lemma normalizeHostPort_simple:
  assumes "simple_host h" "list_all is_digit p"
  shows "normalizeHostPort (host_port h p) scheme = host_port (to_lower h) (explicit_port scheme p)"
proof -
  have "trim_set {CHR ''['', CHR '']''} h = h" using assms(1) by (intro trim_set_id) (auto simp: simple_host_def)
  moreover have "CHR '':'' \<notin> set (to_lower h)" using assms(1) by (simp add: to_lower_keeps simple_host_def)
  moreover have "to_lower h \<noteq> []" using assms(1) by (simp add: to_lower_Nil simple_host_def)
  ultimately show ?thesis
    using SplitHostPort_simple [OF assms] assms(1)
    by (simp add: normalizeHostPort_def Let_def JoinHostPort_def host_port_def explicit_port_def)
qed

lemma host_port_eq:
  assumes "CHR '':'' \<notin> set h1" "CHR '':'' \<notin> set h2" "CHR '':'' \<notin> set p1" "CHR '':'' \<notin> set p2"
  shows "host_port h1 p1 = host_port h2 p2 \<longleftrightarrow> h1 = h2 \<and> p1 = p2"
proof -
  have "last_index_of (CHR '':'') (host_port h p) = (if p = [] then None else Some (length h))"
    if "CHR '':'' \<notin> set h" "CHR '':'' \<notin> set p" for h p
    using that by (simp add: host_port_def last_index_of_append last_index_of_None)
  from this [OF assms(1,3)] this [OF assms(2,4)] show ?thesis
    by (auto simp: host_port_def split: if_split_asm)
qed

lemma url_Hostname_simple:
  assumes "simple_host h" "list_all is_digit p"
  shows "url_Hostname (host_port h p) = h"
proof -
  have "hd h \<noteq> CHR ''[''" using assms(1) by (cases h) (auto simp: simple_host_def)
  then show ?thesis
    using assms digit_plain [OF assms(2)]
    by (cases "p = []")
      (simp_all add: url_Hostname_def host_port_def simple_host_def last_index_of_append last_index_of_None [THEN iffD2] Let_def)
qed

text \<open>C37: A stream is opened for a browser's origin on another host exactly when the host names agree up
  to case and the ports agree once a scheme's own default port is left out. The scheme itself is not
  compared.\<close>

theorem stream_origin_exact:
  assumes "sr_Origin r \<noteq> []" and "parse (sr_Origin r) = Some u"
    and "or_Host u = host_port oh po" and "simple_host oh" and "list_all is_digit po" and "\<not> local_host oh"
    and "(if sr_Host r = [] then sr_URLHost r else sr_Host r) = host_port rh pr"
    and "simple_host rh" and "list_all is_digit pr"
  shows "checkWebSocketOrigin parse r \<longleftrightarrow>
    to_lower oh = to_lower rh \<and> explicit_port (or_Scheme u) po = explicit_port (request_scheme r) pr"
proof -
  have ne: "host_port h p \<noteq> []" if "h \<noteq> []" for h p using that by (simp add: host_port_def)
  have hosts: "oh \<noteq> []" "rh \<noteq> []" "CHR '':'' \<notin> set oh" "CHR '':'' \<notin> set rh"
    using assms(4,8) by (simp_all add: simple_host_def)
  have digits: "list_all is_digit (explicit_port s p)" if "list_all is_digit p" for s p
    using that by (simp add: explicit_port_def)
  have fold: "to_lower (host_port (to_lower h) p) = host_port (to_lower h) p" if "list_all is_digit p" for h p
    using that lower_char_keeps [of "CHR '':''" "CHR '':''"]
    by (simp add: host_port_def to_lower_append to_lower_Cons to_lower_idem to_lower_digits)
  have "EqualFold (host_port (to_lower oh) (explicit_port (or_Scheme u) po)) (host_port (to_lower rh) (explicit_port (request_scheme r) pr))
      \<longleftrightarrow> to_lower oh = to_lower rh \<and> explicit_port (or_Scheme u) po = explicit_port (request_scheme r) pr"
    unfolding EqualFold_def fold [OF digits [OF assms(5)]] fold [OF digits [OF assms(9)]]
    by (rule host_port_eq) (use hosts digits [OF assms(5)] digits [OF assms(9)] digit_plain in \<open>simp_all add: to_lower_keeps\<close>)
  then show ?thesis
    using assms ne [OF hosts(1)] ne [OF hosts(2)] hosts
    by (simp add: checkWebSocketOrigin_def url_Hostname_simple normalizeHostPort_simple Let_def ne to_lower_Nil)
qed

text \<open>A page served over plain HTTP may open a stream on the same host over TLS: both ports are left out.\<close>

definition demo_origin :: "string \<Rightarrow> origin_url option" where
  "demo_origin s = (if s = ''http://shai.example'' then Some \<lparr>or_Scheme = ''http'', or_Host = ''shai.example''\<rparr> else None)"

lemma scheme_not_compared:
  "checkWebSocketOrigin demo_origin \<lparr>sr_Origin = ''http://shai.example'', sr_Host = ''shai.example:443'', sr_TLS = True,
     sr_URLScheme = [], sr_URLHost = []\<rparr>"
  by code_simp

theorem stream_origin_exact_witness:
  "checkWebSocketOrigin demo_origin \<lparr>sr_Origin = ''http://shai.example'', sr_Host = ''Shai.example:8080'', sr_TLS = True,
     sr_URLScheme = [], sr_URLHost = []\<rparr> = False"
  by (subst stream_origin_exact [where oh = "''shai.example''" and po = "[]" and rh = "''Shai.example''" and pr = "''8080''"
        and u = "\<lparr>or_Scheme = ''http'', or_Host = ''shai.example''\<rparr>"])
    (simp_all add: demo_origin_def host_port_def simple_host_def is_digit_def local_host_def request_scheme_def
      explicit_port_def default_port_def to_lower_def lower_char_def)


section \<open>Volume requests\<close>

definition confirmed :: "PoolState \<Rightarrow> bool" where
  "confirmed s = (\<not> FromMempool s)"

text \<open>The tracker is no further than the newest confirmed pool that the oracle holds.\<close>

definition latest_tracked :: "Oracle \<Rightarrow> bool" where
  "latest_tracked o1 = (\<forall>t. o_activity o1 = Some t \<longrightarrow>
     latestSlot t = 0 \<or> (\<exists>s \<in> snd ` set (o_pools o1). confirmed s \<and> latestSlot t \<le> Slot s))"

lemma newest_slot_ge: "s0 \<le> newest_slot s0 ps \<and> (\<forall>p \<in> set ps. confirmed p \<longrightarrow> Slot p \<le> newest_slot s0 ps)"
proof (induction ps arbitrary: s0)
  case Nil
  then show ?case by (simp add: newest_slot_def)
next
  case (Cons p ps)
  have step: "newest_slot s0 (p # ps) = newest_slot (if \<not> FromMempool p \<and> Slot p > s0 then Slot p else s0) ps"
    by (simp add: newest_slot_def)
  show ?case
    using Cons.IH [of "if \<not> FromMempool p \<and> Slot p > s0 then Slot p else s0"] unfolding step
    by (auto simp: confirmed_def split: if_split_asm)
qed

lemma newest_slot_mem: "newest_slot s0 ps = s0 \<or> newest_slot s0 ps \<in> Slot ` set ps"
proof (induction ps arbitrary: s0)
  case Nil
  then show ?case by (simp add: newest_slot_def)
next
  case (Cons p ps)
  have "newest_slot s0 (p # ps) = newest_slot (if \<not> FromMempool p \<and> Slot p > s0 then Slot p else s0) ps"
    by (simp add: newest_slot_def)
  then show ?case using Cons.IH [of "if \<not> FromMempool p \<and> Slot p > s0 then Slot p else s0"] by auto
qed

lemma GetAllPools_set: "set (GetAllPools o1) = snd ` set (o_pools o1)"
  by (simp add: GetAllPools_def)

lemma volume_loop_error: "volume_loop cutoff xs v = Inl e \<Longrightarrow> e = ErrVolumeOverflow"
  by (induction cutoff xs v rule: volume_loop.induct) (auto simp: Let_def split: if_split_asm)

lemma volume_loop_keeps:
  "volume_loop cutoff xs v = Inr v' \<Longrightarrow> pv_WindowEnd v' = pv_WindowEnd v \<and> pv_PoolID v' = pv_PoolID v"
  by (induction cutoff xs v rule: volume_loop.induct) (auto simp: Let_def split: if_split_asm)

lemma Volume_cases:
  "Volume n p i sl t = Inl ErrOutOfOrderActivity \<longleftrightarrow> sl < latestSlot t"
  "Volume n p i sl t = Inl e \<Longrightarrow> sl < latestSlot t \<or> e = ErrVolumeOverflow"
  "Volume n p i sl t = Inr (Some v) \<Longrightarrow> pv_WindowEnd v = sl \<and> pv_PoolID v = i"
  by (auto simp: Volume_def dest!: volume_loop_error volume_loop_keeps split: sum.splits if_split_asm)

text \<open>What a request does for a pool that the first oracle holds.\<close>

lemma volume_request:
  assumes "GetPoolState poolID o1 = Some p" "poolID \<noteq> []" "o_activity o1 = Some t"
  shows "rs_Status (HandleGetPoolVolume (o1 # os) poolID) \<in> {200, 503}
      \<longleftrightarrow> (\<forall>e. Volume (Network p) (Protocol p) (PoolId p) (newest_slot (Slot p) (GetAllPools o1)) t \<noteq> Inl e)"
    and "rs_Body (HandleGetPoolVolume (o1 # os) poolID) = VolumeBody v \<Longrightarrow>
      Volume (Network p) (Protocol p) (PoolId p) (newest_slot (Slot p) (GetAllPools o1)) t = Inr (Some v)"
  using assms by (auto simp: HandleGetPoolVolume_def GetPoolVolume_def split: sum.splits option.splits)

lemma record_latest_tracked:
  assumes "latest_tracked o1" "oracle_ok o1" "\<not> FromMempool state"
  shows "latest_tracked (snd (record_pool_state env state o1))"
proof (cases "Oracle.observe_pool state o1")
  case (Inl e)
  then show ?thesis using assms(1) by (simp add: record_pool_state_def Let_def)
next
  case (Inr r)
  obtain transition activity where r: "r = (transition, activity)" by (cases r)
  have mem: "state \<in> snd ` set (AList.update (PoolId state) state m)" for m :: "(string, PoolState) gomap"
  proof -
    have "(PoolId state, state) \<in> set (AList.update (PoolId state) state m)"
      by (rule map_of_SomeD) (simp add: update_conv')
    then show ?thesis by (simp add: image_iff) (metis snd_conv)
  qed
  have latest: "latestSlot t \<le> Slot state" if t: "activity = Some t" for t
  proof (cases "o_activity o1")
    case None
    then show ?thesis using Inr r t by (simp add: Oracle.observe_pool_def)
  next
    case (Some u)
    have "tracker_ok u" using assms(2) Some by (simp add: oracle_ok_def)
    with observe_swaps(1) [OF this _ assms(3)] show ?thesis
      using Inr r t Some by (fastforce simp: Oracle.observe_pool_def split: prod.splits sum.splits)
  qed
  have "o_activity (snd (record_pool_state env state o1)) = activity
      \<and> o_pools (snd (record_pool_state env state o1)) = AList.update (PoolId state) state (o_pools o1)"
    using Inr r by (simp add: record_pool_state_def Let_def notifySubscribers_def case_prod_beta split: sum.split option.split)
  then show ?thesis using latest mem assms(3) unfolding latest_tracked_def confirmed_def by auto
qed

lemma latest_tracked_same:
  "o_activity o2 = o_activity o1 \<Longrightarrow> o_pools o2 = o_pools o1 \<Longrightarrow> latest_tracked o1 \<Longrightarrow> latest_tracked o2"
  by (simp add: latest_tracked_def)


lemma handle_utxos_latest_tracked:
  assumes "parser_gives confirmed env" "latest_tracked o1" "oracle_ok o1"
  shows "latest_tracked (snd (handle_utxos env now bh ctx utxos o1)) \<and> oracle_ok (snd (handle_utxos env now bh ctx utxos o1))"
  using assms(2,3)
proof (induction utxos arbitrary: o1)
  case Nil
  then show ?case by simp
next
  case (Cons u utxos)
  have "latest_tracked (handleProducedCDPOutput env cp now bh ctx u o1)" for cp
    by (rule latest_tracked_same [OF _ _ Cons.prems(1)])
      (auto simp: handleProducedCDPOutput_def Let_def case_prod_beta split: option.split sum.split)
  then have "latest_tracked (snd (handle_utxo env now bh ctx u o1))"
    using Cons.prems assms(1) record_latest_tracked [OF Cons.prems]
    by (simp add: handle_utxo_def parser_gives_def confirmed_def split: option.split sum.split)
  moreover have "oracle_ok (snd (handle_utxo env now bh ctx u o1))" using Cons.prems(2) by (auto intro: inv_intros)
  ultimately show ?case
    using Cons.IH [of "snd (handle_utxo env now bh ctx u o1)"] by (cases "handle_utxo env now bh ctx u o1") (simp split: option.split)
qed

definition not_rollback :: "chain_event \<Rightarrow> bool" where
  "not_rollback evt = (case evt of RollbackEvt n \<Rightarrow> False | _ \<Rightarrow> True)"

lemma deleteSpentCDPStates_activity: "o_activity (deleteSpentCDPStates env cp inputs o1) = o_activity o1"
  by (induction inputs arbitrary: o1) (simp_all add: Let_def case_prod_beta split: option.split)

lemma event_latest_tracked:
  assumes "parser_gives confirmed env" "latest_tracked o1" "oracle_ok o1" "not_rollback evt"
  shows "latest_tracked (snd (HandleChainsyncEvent env now evt o1))"
proof (cases evt)
  case (TransactionEvt ctx payload)
  have "latest_tracked (deleteSpentCDPStates env cp inputs o1) \<and> oracle_ok (deleteSpentCDPStates env cp inputs o1)" for cp inputs
    using latest_tracked_same [OF deleteSpentCDPStates_activity deleteSpentCDPStates_pools assms(2)] assms(3)
    by (auto intro: inv_intros)
  then show ?thesis
    using TransactionEvt assms handle_utxos_latest_tracked [OF assms(1)]
    by (simp add: HandleChainsyncEvent_def handleTransaction_def Let_def split: option.split)
next
  case (RollbackEvt n)
  then show ?thesis using assms(4) by (simp add: not_rollback_def)
next
  case OtherEvt
  then show ?thesis using assms(2) by (simp add: HandleChainsyncEvent_def)
qed

lemma run_latest_tracked:
  assumes "parser_gives confirmed env" "latest_tracked o1" "oracle_ok o1" "list_all (\<lambda>(now, evt). not_rollback evt) evts"
  shows "latest_tracked (run_events env evts o1)"
  using assms(2-4)
proof (induction evts arbitrary: o1)
  case Nil
  then show ?case by simp
next
  case (Cons e evts)
  obtain now evt where e: "e = (now, evt)" by (cases e)
  then show ?case
    using Cons event_latest_tracked [OF assms(1), of o1 evt now] event_ok [of o1 env now evt] by simp
qed

text \<open>After a successful rollback the tracker is at the slot of the rollback, the pools at most there.\<close>

lemma rollback_newest:
  assumes "oracle_ok o1" "handleRollback env n o1 = (None, o2)" "o_activity o1 = Some t" "n < latestSlot t"
  shows "\<exists>t2. o_activity o2 = Some t2 \<and> latestSlot t2 = n" and "\<forall>p \<in> snd ` set (o_pools o2). Slot p \<le> n"
proof -
  have n: "n \<noteq> MaxUint64" using assms(4) by (auto simp: MaxUint64_def)
  have pos: "n + 1 > 0" "n + 1 - 1 = n" using n by (auto simp: MaxUint64_def word_gt_0 eq_neg_iff_add_eq_0)
  have act: "o_activity o2 = map_option (Rollback (firstRolledBackSlot n)) (o_activity o1)"
    using assms(2) by (auto simp: handleRollback_def Let_def case_prod_beta split: sum.splits if_split_asm)
  then show "\<exists>t2. o_activity o2 = Some t2 \<and> latestSlot t2 = n"
    using assms(3,4) n pos by (simp add: Rollback_def Let_def prune_def firstRolledBackSlot_def)
  have "o_pools o2 = filter (\<lambda>(k, s). Slot s < firstRolledBackSlot n) (o_pools o1)"
    using handleRollback_maps(1) [OF assms(1), of env n] assms(2) by simp
  moreover have "x \<le> n" if "x < n + 1" for x using that inc_le [of n x] by (meson not_le)
  ultimately show "\<forall>p \<in> snd ` set (o_pools o2). Slot p \<le> n"
    using n by (auto simp: firstRolledBackSlot_def)
qed




definition usdm_env :: oracle_env where
  "usdm_env = \<lparr>oe_badger = open_badger, oe_ParsePoolDatum = (\<lambda>d v h i s t. Inr (Some ada_usdm_pool)), oe_cdpParser = None,
     oe_synthetics = False, oe_network = ''mainnet''\<rparr>"

definition usdm_event :: chain_event where
  "usdm_event = TransactionEvt (Some \<lparr>ctx_TransactionHash = ''aa'', ctx_SlotNumber = 77\<rparr>)
     \<lparr>te_BlockHash = ''bb'', te_Inputs = [], te_Outputs = [\<lparr>out_Address = ''pool'', out_Datum = Some [], out_Cbor = []\<rparr>],
      te_Transaction = None\<rparr>"

definition usdm_state :: PoolState where
  "usdm_state = ada_usdm_pool\<lparr>Network := ''mainnet'', BlockHash := ''bb'', UpdatedAt := 9\<rparr>"

lemma first_pool_recorded:
  assumes "\<not> FromMempool state"
  shows "o_pools (snd (record_pool_state env state (New a []))) = [(PoolId state, state)]"
    and "o_activity (snd (record_pool_state env state (New a [])))
      = Some \<lparr>windowSlots = defaultPoolActivityWindowSlots, latestSlot = Slot state, swaps = []\<rparr>"
  using assms
  by (simp_all add: record_pool_state_def Let_def Oracle.observe_pool_def ObserveTransition_def InferSwapTransition_def New_def
      NewActivityTracker_def defaultPoolActivityWindowSlots_def prune_def retain_def notifySubscribers_def case_prod_beta
      split: sum.split option.split)

lemma usdm_run: "run_events usdm_env [(9, usdm_event)] (New [''pool''] []) = snd (record_pool_state usdm_env usdm_state (New [''pool''] []))"
  by (simp add: usdm_event_def usdm_env_def usdm_state_def HandleChainsyncEvent_def handleTransaction_def producedUTXOs_def
      handle_utxo_def isPoolAddress_def New_def split: prod.split option.split)


text \<open>The failing case: two pools, the tracker at the slot of the second, which is rolled back.\<close>

definition two_pool_oracle :: Oracle where
  "two_pool_oracle = (New [] [])\<lparr>
     o_pools := [(''a'', ada_usdm_pool\<lparr>PoolId := ''a'', Slot := 50\<rparr>), (''b'', ada_usdm_pool\<lparr>PoolId := ''b'', Slot := 110\<rparr>)],
     o_activity := Some \<lparr>windowSlots = defaultPoolActivityWindowSlots, latestSlot = 110, swaps = []\<rparr>\<rparr>"

lemma volume_error_after_rollback:
  "rs_Status (HandleGetPoolVolume [two_pool_oracle] ''a'') = 503"
  "rs_Status (HandleGetPoolVolume [snd (handleRollback plain_env 105 two_pool_oracle)] ''a'') = 500"
proof -
  have rb: "fst (RollbackActivity open_badger 106 []) = Inr ()"
    by (rule reliable_rollback) (simp_all add: store_ok_def open_badger_reliable)
  obtain db where db: "RollbackActivity open_badger 106 [] = (Inr (), db)" using rb by (cases "RollbackActivity open_badger 106 []") auto
  have pools: "o_pools (snd (handleRollback plain_env 105 two_pool_oracle)) = [(''a'', ada_usdm_pool\<lparr>PoolId := ''a'', Slot := 50\<rparr>)]"
    by (simp add: handleRollback_def two_pool_oracle_def plain_env_def firstRolledBackSlot_def MaxUint64_def Let_def db
        case_prod_beta)
  have act: "o_activity (snd (handleRollback plain_env 105 two_pool_oracle))
      = Some \<lparr>windowSlots = defaultPoolActivityWindowSlots, latestSlot = 105, swaps = []\<rparr>"
    by (simp add: handleRollback_def two_pool_oracle_def plain_env_def firstRolledBackSlot_def MaxUint64_def Let_def db
        case_prod_beta Rollback_def prune_def retain_def New_def)
  show "rs_Status (HandleGetPoolVolume [snd (handleRollback plain_env 105 two_pool_oracle)] ''a'') = 500"
    by (simp add: HandleGetPoolVolume_def GetPoolState_def GetPoolVolume_def pools act newest_slot_def GetAllPools_def Volume_def
        ada_usdm_pool_def)
  show "rs_Status (HandleGetPoolVolume [two_pool_oracle] ''a'') = 503"
    by (simp add: HandleGetPoolVolume_def GetPoolState_def GetPoolVolume_def two_pool_oracle_def newest_slot_def GetAllPools_def
        Volume_def ada_usdm_pool_def swaps_at_def)
qed

end
