(* ===== verification/Api_Streams.thy ===== *)
theory Api_Streams
  imports Oracle_Api Lending "HOL-Library.Sublist"
begin

text \<open>
  The lending side of the API (\<open>internal/oracle/lending_api.go\<close>) and the streams of both
  (\<open>HandlePriceStream\<close>, \<open>HandleLendingStream\<close>, the broadcasters, \<open>pingLoop\<close> and \<open>Stop\<close>).

  A price stream is a connection in a set that the broadcasters, one per oracle, and the ping loop
  copy under a lock and then write to without it: the steps of the hub are what happens under one
  hold of a lock or in one write. A connection is a number that is never used again. A write fails on
  a connection that was closed or whose earlier write failed, and may fail on any other. The set of
  connections is traversed in the order in which they joined.
\<close>

section \<open>The lending handlers\<close>

record rate_entry =
  re_StateId :: string
  re_Protocol :: string
  re_Asset :: string
  re_InterestRate :: f64
  re_BasisPoints :: u64

record util_entry =
  ue_StateId :: string
  ue_Protocol :: string
  ue_Asset :: string
  ue_UtilizationRate :: f64
  ue_TotalSupply :: u64
  ue_TotalBorrows :: u64
  ue_Available :: u64

datatype lending_body =
    LendingPlainError string
  | MarketsBody "LendingState list" nat
  | LoansBody "LendingState list" nat
  | StateBody LendingState
  | RatesBody "rate_entry list" nat
  | UtilizationBody "util_entry list" nat
  | OverdueBody "LendingState list" nat

record lending_response =
  lr_Status :: nat
  lr_Body :: lending_body

definition lending_getMarkets :: "LendingOracle list \<Rightarrow> LendingState list" where
  "lending_getMarkets oracles = concat (map GetMarkets oracles)"

definition lending_getLoans :: "LendingOracle list \<Rightarrow> LendingState list" where
  "lending_getLoans oracles = concat (map GetLoans oracles)"

definition lending_getOverdueLoans :: "LendingOracle list \<Rightarrow> LendingState list" where
  "lending_getOverdueLoans oracles = concat (map GetOverdueLoans oracles)"

text \<open>The loop of \<open>getState\<close>: a full key decides, a second match by identifier finds nothing.\<close>

fun get_state_loop :: "string \<Rightarrow> LendingState option \<Rightarrow> LendingOracle list \<Rightarrow> LendingState option" where
  "get_state_loop stateId matched [] = matched"
| "get_state_loop stateId matched (o1 # os) = (case GetState stateId o1 of
     None \<Rightarrow> get_state_loop stateId matched os
   | Some state \<Rightarrow>
       if LendingState_Key state = stateId then Some state
       else if matched \<noteq> None then None
       else get_state_loop stateId (Some state) os)"

definition lending_getState :: "LendingOracle list \<Rightarrow> string \<Rightarrow> LendingState option" where
  "lending_getState oracles stateId = get_state_loop stateId None oracles"

definition HandleListMarkets :: "LendingOracle list \<Rightarrow> string \<Rightarrow> lending_response" where
  "HandleListMarkets oracles protocol =
     (let markets = (if protocol \<noteq> [] then filter (\<lambda>m. ls_Protocol m = protocol) (lending_getMarkets oracles)
                     else lending_getMarkets oracles)
      in \<lparr>lr_Status = 200, lr_Body = MarketsBody markets (length markets)\<rparr>)"

definition HandleGetMarket :: "LendingOracle list \<Rightarrow> string \<Rightarrow> lending_response" where
  "HandleGetMarket oracles marketId =
     (if marketId = [] then \<lparr>lr_Status = 400, lr_Body = LendingPlainError ''Market ID required''\<rparr>
      else case lending_getState oracles marketId of
        Some state \<Rightarrow>
          if IsMarket state then \<lparr>lr_Status = 200, lr_Body = StateBody state\<rparr>
          else \<lparr>lr_Status = 404, lr_Body = LendingPlainError ''Market not found''\<rparr>
      | None \<Rightarrow> \<lparr>lr_Status = 404, lr_Body = LendingPlainError ''Market not found''\<rparr>)"

definition HandleListLoans :: "LendingOracle list \<Rightarrow> string \<Rightarrow> lending_response" where
  "HandleListLoans oracles status =
     (let loans = (if status \<noteq> [] then filter (\<lambda>s. ls_LoanStatus s = status) (lending_getLoans oracles)
                   else lending_getLoans oracles)
      in \<lparr>lr_Status = 200, lr_Body = LoansBody loans (length loans)\<rparr>)"

definition HandleGetLoan :: "LendingOracle list \<Rightarrow> string \<Rightarrow> lending_response" where
  "HandleGetLoan oracles loanId =
     (if loanId = [] then \<lparr>lr_Status = 400, lr_Body = LendingPlainError ''Loan ID required''\<rparr>
      else case lending_getState oracles loanId of
        Some state \<Rightarrow>
          if IsLoan state then \<lparr>lr_Status = 200, lr_Body = StateBody state\<rparr>
          else \<lparr>lr_Status = 404, lr_Body = LendingPlainError ''Loan not found''\<rparr>
      | None \<Rightarrow> \<lparr>lr_Status = 404, lr_Body = LendingPlainError ''Loan not found''\<rparr>)"

definition rate_entry_of :: "LendingState \<Rightarrow> rate_entry" where
  "rate_entry_of market =
     \<lparr>re_StateId = LendingState_Key market, re_Protocol = ls_Protocol market,
      re_Asset = Fingerprint (ls_UnderlyingAsset market), re_InterestRate = ls_InterestRatePct market,
      re_BasisPoints = ls_InterestRate market\<rparr>"

definition HandleListRates :: "LendingOracle list \<Rightarrow> lending_response" where
  "HandleListRates oracles =
     (let rates = map rate_entry_of (lending_getMarkets oracles)
      in \<lparr>lr_Status = 200, lr_Body = RatesBody rates (length rates)\<rparr>)"

definition util_entry_of :: "LendingState \<Rightarrow> util_entry" where
  "util_entry_of market =
     \<lparr>ue_StateId = LendingState_Key market, ue_Protocol = ls_Protocol market,
      ue_Asset = Fingerprint (ls_UnderlyingAsset market), ue_UtilizationRate = ls_UtilizationRate market,
      ue_TotalSupply = ls_TotalSupply market, ue_TotalBorrows = ls_TotalBorrows market,
      ue_Available = ls_AvailableLiq market\<rparr>"

definition HandleListUtilization :: "LendingOracle list \<Rightarrow> lending_response" where
  "HandleListUtilization oracles =
     (let utils = map util_entry_of (lending_getMarkets oracles)
      in \<lparr>lr_Status = 200, lr_Body = UtilizationBody utils (length utils)\<rparr>)"

definition HandleListOverdueLoans :: "LendingOracle list \<Rightarrow> lending_response" where
  "HandleListOverdueLoans oracles =
     (let loans = lending_getOverdueLoans oracles
      in \<lparr>lr_Status = 200, lr_Body = OverdueBody loans (length loans)\<rparr>)"

section \<open>Routes\<close>

definition oracle_routes :: "string list" where
  "oracle_routes = [''GET /api/v1/pools'', ''GET /api/v1/pools/{poolId}'', ''GET /api/v1/pools/{poolId}/volume'',
     ''GET /api/v1/cdps'', ''GET /api/v1/cdps/{cdpId}'', ''GET /api/v1/prices'', ''GET /api/v1/prices/ada-usd'', ''/ws/prices'']"

definition lending_routes :: "string list" where
  "lending_routes = [''GET /api/v1/lending/markets'', ''GET /api/v1/lending/markets/{marketId}'',
     ''GET /api/v1/lending/loans'', ''GET /api/v1/lending/loans/{loanId}'', ''GET /api/v1/lending/rates'',
     ''GET /api/v1/lending/utilization'', ''GET /api/v1/lending/overdue'', ''/ws/lending'']"

text \<open>\<open>ServeMux\<close> panics on a pattern that is registered twice; nil registrars are left out.\<close>

fun register :: "string list option list \<Rightarrow> string list \<Rightarrow> string list option" where
  "register [] mux = Some mux"
| "register (None # rs) mux = register rs mux"
| "register (Some routes # rs) mux =
     (if distinct routes \<and> set routes \<inter> set mux = {} then register rs (mux @ routes) else None)"

lemma both_apis_register: "register [Some oracle_routes, Some lending_routes] [] = Some (oracle_routes @ lending_routes)"
  by (simp add: oracle_routes_def lending_routes_def)

section \<open>The stream hub\<close>

text \<open>
  A task of a broadcaster or of the ping loop: what it writes (\<open>None\<close> is a ping), the connections still
  to write to and those that failed. \<open>hb_sent\<close>, \<open>hb_taken\<close> and \<open>hb_joined\<close> record the updates that
  reached a connection from an oracle, all that its broadcaster took, and how many it had taken when
  the connection joined.
\<close>

record 'u task =
  tk_update :: "'u option"
  tk_remaining :: "nat list"
  tk_failed :: "nat list"

record 'u hub =
  hb_conns :: "nat list"
  hb_closed :: "nat list"
  hb_broken :: "nat list"
  hb_next :: nat
  hb_tasks :: "nat \<Rightarrow> 'u task option"
  hb_stopped :: bool
  hb_sent :: "nat \<Rightarrow> nat \<Rightarrow> 'u list"
  hb_taken :: "nat \<Rightarrow> 'u list"
  hb_joined :: "nat \<Rightarrow> nat \<Rightarrow> nat"

definition NewHub :: "'u hub" where
  "NewHub = \<lparr>hb_conns = [], hb_closed = [], hb_broken = [], hb_next = 0, hb_tasks = \<lambda>i. None, hb_stopped = False,
     hb_sent = \<lambda>c i. [], hb_taken = \<lambda>i. [], hb_joined = \<lambda>c i. 0\<rparr>"

definition ws_close :: "nat list \<Rightarrow> 'u hub \<Rightarrow> 'u hub" where
  "ws_close cs h = h\<lparr>hb_closed := hb_closed h @ filter (\<lambda>c. c \<notin> set (hb_closed h)) cs\<rparr>"

text \<open>\<open>HandlePriceStream\<close>: after the upgrade; the removal, then the closing, when its read loop ends.\<close>

definition stream_join :: "'u hub \<Rightarrow> 'u hub" where
  "stream_join h = h\<lparr>hb_conns := hb_conns h @ [hb_next h], hb_next := hb_next h + 1,
     hb_joined := (hb_joined h)(hb_next h := \<lambda>i. length (hb_taken h i))\<rparr>"

definition stream_leave :: "nat \<Rightarrow> 'u hub \<Rightarrow> 'u hub" where
  "stream_leave c h = h\<lparr>hb_conns := filter (\<lambda>d. d \<noteq> c) (hb_conns h)\<rparr>"

text \<open>A broadcaster takes an update (the ping loop a tick) and copies the set of connections.\<close>

definition task_start :: "nat \<Rightarrow> 'u option \<Rightarrow> 'u hub \<Rightarrow> 'u hub option" where
  "task_start i u h = (case hb_tasks h i of
     Some t \<Rightarrow> None
   | None \<Rightarrow> Some (h\<lparr>hb_tasks := (hb_tasks h)(i := Some \<lparr>tk_update = u, tk_remaining = hb_conns h, tk_failed = []\<rparr>),
                    hb_taken := (hb_taken h)(i := hb_taken h i @ (case u of None \<Rightarrow> [] | Some x \<Rightarrow> [x]))\<rparr>))"

definition broadcast_update :: "nat \<Rightarrow> 'u \<Rightarrow> 'u hub \<Rightarrow> 'u hub option" where
  "broadcast_update i u h = task_start i (Some u) h"

definition ping_tick :: "nat \<Rightarrow> 'u hub \<Rightarrow> 'u hub option" where
  "ping_tick i h = task_start i None h"

text \<open>\<open>writeJSON\<close> and \<open>writePing\<close> to the next connection; \<open>ok\<close> is whether the write gets through.\<close>

definition task_write :: "nat \<Rightarrow> bool \<Rightarrow> 'u hub \<Rightarrow> 'u hub option" where
  "task_write i ok h = (case hb_tasks h i of
     None \<Rightarrow> None
   | Some t \<Rightarrow> (case tk_remaining t of
       [] \<Rightarrow> None
     | c # cs \<Rightarrow>
         if ok \<and> c \<notin> set (hb_closed h) \<and> c \<notin> set (hb_broken h)
         then Some (h\<lparr>hb_tasks := (hb_tasks h)(i := Some (t\<lparr>tk_remaining := cs\<rparr>)),
                      hb_sent := (hb_sent h)(c := (hb_sent h c)(i := hb_sent h c i @ (case tk_update t of None \<Rightarrow> [] | Some x \<Rightarrow> [x])))\<rparr>)
         else Some (h\<lparr>hb_tasks := (hb_tasks h)(i := Some (t\<lparr>tk_remaining := cs, tk_failed := tk_failed t @ [c]\<rparr>)),
                      hb_broken := c # hb_broken h\<rparr>)))"

definition removeConns :: "nat list \<Rightarrow> 'u hub \<Rightarrow> 'u hub" where
  "removeConns cs h = (if cs = [] then h else ws_close cs (h\<lparr>hb_conns := filter (\<lambda>d. d \<notin> set cs) (hb_conns h)\<rparr>))"

definition task_finish :: "nat \<Rightarrow> 'u hub \<Rightarrow> 'u hub option" where
  "task_finish i h = (case hb_tasks h i of
     None \<Rightarrow> None
   | Some t \<Rightarrow> if tk_remaining t = [] then Some (removeConns (tk_failed t) (h\<lparr>hb_tasks := (hb_tasks h)(i := None)\<rparr>)) else None)"

definition hub_Stop :: "'u hub \<Rightarrow> 'u hub" where
  "hub_Stop h = (ws_close (hb_conns h) h)\<lparr>hb_conns := [], hb_stopped := True\<rparr>"

definition WebSocketClientCount :: "'u hub \<Rightarrow> nat" where
  "WebSocketClientCount h = length (hb_conns h)"

text \<open>The interleavings: any step that is possible, in any order.\<close>

inductive hub_step :: "'u hub \<Rightarrow> 'u hub \<Rightarrow> bool" where
  joins: "hub_step h (stream_join h)"
| leaves: "hub_step h (stream_leave c h)"
| closes: "c \<notin> set (hb_conns h) \<Longrightarrow> c < hb_next h \<Longrightarrow> hub_step h (ws_close [c] h)"
| starts: "task_start i u h = Some h' \<Longrightarrow> hub_step h h'"
| writes: "task_write i ok h = Some h' \<Longrightarrow> hub_step h h'"
| finishes: "task_finish i h = Some h' \<Longrightarrow> hub_step h h'"
| stops: "hub_step h (hub_Stop h)"

definition hub_reachable :: "'u hub \<Rightarrow> bool" where
  "hub_reachable h = hub_step\<^sup>*\<^sup>* NewHub h"

section \<open>What a stream receives\<close>

text \<open>The update that a broadcaster has taken and not yet written to a connection of its copy.\<close>

definition pending :: "'u hub \<Rightarrow> nat \<Rightarrow> nat \<Rightarrow> 'u list" where
  "pending h c i = (case hb_tasks h i of
     None \<Rightarrow> []
   | Some t \<Rightarrow> if c \<in> set (tk_remaining t) then (case tk_update t of None \<Rightarrow> [] | Some x \<Rightarrow> [x]) else [])"

definition due :: "'u hub \<Rightarrow> nat \<Rightarrow> nat \<Rightarrow> 'u list" where
  "due h c i = drop (hb_joined h c i) (hb_taken h i)"

definition stream_ok :: "'u hub \<Rightarrow> nat \<Rightarrow> nat \<Rightarrow> bool" where
  "stream_ok h c i \<longleftrightarrow>
     hb_joined h c i \<le> length (hb_taken h i)
     \<and> (c \<in> set (hb_conns h) \<longrightarrow> c \<notin> set (hb_broken h) \<longrightarrow> hb_sent h c i @ pending h c i = due h c i)
     \<and> (c \<notin> set (hb_broken h) \<longrightarrow> prefix (hb_sent h c i @ pending h c i) (due h c i))
     \<and> prefix (hb_sent h c i) (due h c i)"

definition task_ok :: "nat \<Rightarrow> nat list \<Rightarrow> 'u task option \<Rightarrow> bool" where
  "task_ok next broken = pred_option (\<lambda>t. distinct (tk_remaining t) \<and> list_all (\<lambda>c. c < next) (tk_remaining t)
     \<and> set (tk_failed t) \<subseteq> set broken)"

definition hub_ok :: "'u hub \<Rightarrow> bool" where
  "hub_ok h \<longleftrightarrow> distinct (hb_conns h) \<and> list_all (\<lambda>c. c < hb_next h \<and> c \<notin> set (hb_closed h)) (hb_conns h)
     \<and> list_all (\<lambda>c. c < hb_next h) (hb_closed h @ hb_broken h)
     \<and> (\<forall>i. task_ok (hb_next h) (hb_broken h) (hb_tasks h i))
     \<and> (\<forall>c i. c < hb_next h \<longrightarrow> stream_ok h c i)
     \<and> (\<forall>c i. c \<ge> hb_next h \<longrightarrow> hb_sent h c i = [])"

lemma pending_fresh: "task_ok (hb_next h) br (hb_tasks h i) \<Longrightarrow> c \<ge> hb_next h \<Longrightarrow> pending h c i = []"
  by (auto simp: task_ok_def pending_def list_all_iff not_less [symmetric] split: option.split)

lemma stream_ok_frame:
  assumes "stream_ok h c i" "hb_joined h' c i = hb_joined h c i" "hb_taken h' i = hb_taken h i"
    and "hb_sent h' c i = hb_sent h c i" "pending h' c i = pending h c i"
    and "set (hb_conns h') \<subseteq> set (hb_conns h)" "set (hb_broken h) \<subseteq> set (hb_broken h')"
  shows "stream_ok h' c i"
  using assms unfolding stream_ok_def due_def by auto

lemma hub_ok_join: "hub_ok h \<Longrightarrow> hub_ok (stream_join h)"
proof -
  assume ok: "hub_ok h"
  have "stream_ok (stream_join h) c i" if "c < hb_next h + 1" for c i
  proof (cases "c = hb_next h")
    case True
    have "hb_sent h c i = []" "pending h c i = []"
      using ok True pending_fresh [of h "hb_broken h" i c] by (auto simp: hub_ok_def)
    moreover have "pending (stream_join h) c i = pending h c i" by (simp add: pending_def stream_join_def)
    ultimately show ?thesis using True by (simp add: stream_ok_def due_def stream_join_def)
  next
    case False
    then have old: "stream_ok h c i" using ok that by (simp add: hub_ok_def)
    have "pending (stream_join h) c i = pending h c i" by (simp add: pending_def stream_join_def)
    then show ?thesis using old False unfolding stream_ok_def due_def by (simp add: stream_join_def)
  qed
  then show ?thesis
    using ok by (auto simp: hub_ok_def stream_join_def task_ok_def list_all_iff option.pred_set less_Suc_eq)
qed

lemma hub_ok_shrink:
  assumes "hub_ok h" "h' = h\<lparr>hb_conns := cs, hb_closed := cl, hb_stopped := b\<rparr>" "distinct cs" "set cs \<subseteq> set (hb_conns h)"
    and "set cs \<inter> set cl = {}" "\<forall>c \<in> set cl. c < hb_next h"
  shows "hub_ok h'"
proof -
  have "stream_ok h' c i" if "stream_ok h c i" for c i
    by (rule stream_ok_frame [OF that]) (use assms(2,4) in \<open>auto simp: pending_def\<close>)
  then show ?thesis using assms by (auto simp: hub_ok_def list_all_iff)
qed

lemma hub_ok_leave: "hub_ok h \<Longrightarrow> hub_ok (stream_leave c h)"
  by (rule hub_ok_shrink [where cs = "filter (\<lambda>d. d \<noteq> c) (hb_conns h)" and cl = "hb_closed h" and b = "hb_stopped h"])
    (auto simp: stream_leave_def hub_ok_def list_all_iff)

lemma hub_ok_close:
  "hub_ok h \<Longrightarrow> set cs \<inter> set (hb_conns h) = {} \<Longrightarrow> \<forall>c \<in> set cs. c < hb_next h \<Longrightarrow> hub_ok (ws_close cs h)"
  by (rule hub_ok_shrink [where cs = "hb_conns h" and cl = "hb_closed (ws_close cs h)" and b = "hb_stopped h"])
    (auto simp: ws_close_def hub_ok_def list_all_iff)

lemma hub_ok_stop: "hub_ok h \<Longrightarrow> hub_ok (hub_Stop h)"
  by (rule hub_ok_shrink [where cs = "[]" and cl = "hb_closed (ws_close (hb_conns h) h)" and b = True])
    (auto simp: ws_close_def hub_Stop_def hub_ok_def list_all_iff)

lemma hub_ok_remove: "hub_ok h \<Longrightarrow> \<forall>c \<in> set cs. c < hb_next h \<Longrightarrow> hub_ok (removeConns cs h)"
  by (rule hub_ok_shrink [where cs = "filter (\<lambda>d. d \<notin> set cs) (hb_conns h)"
        and cl = "hb_closed (removeConns cs h)" and b = "hb_stopped h"])
    (auto simp: removeConns_def ws_close_def hub_ok_def list_all_iff)

lemma hub_ok_start:
  assumes "hub_ok h" "task_start i u h = Some h'"
  shows "hub_ok h'"
proof -
  have idle: "hb_tasks h i = None" using assms(2) by (auto simp: task_start_def split: option.splits)
  define new where "new = (case u of None \<Rightarrow> [] | Some x \<Rightarrow> [x])"
  have h': "h' = h\<lparr>hb_tasks := (hb_tasks h)(i := Some \<lparr>tk_update = u, tk_remaining = hb_conns h, tk_failed = []\<rparr>),
      hb_taken := (hb_taken h)(i := hb_taken h i @ new)\<rparr>"
    using assms(2) idle by (simp add: task_start_def new_def)
  have "stream_ok h' c j" if old: "stream_ok h c j" for c j
  proof (cases "j = i")
    case True
    have "pending h c i = []" by (simp add: pending_def idle)
    moreover have "pending h' c i = (if c \<in> set (hb_conns h) then new else [])" by (simp add: pending_def h' new_def)
    moreover have "due h' c i = due h c i @ new" using old True by (simp add: due_def h' stream_ok_def)
    ultimately show ?thesis using old True unfolding stream_ok_def by (auto simp: h')
  next
    case False
    then show ?thesis by (intro stream_ok_frame [OF old]) (auto simp: h' pending_def)
  qed
  then show ?thesis using assms(1) by (auto simp: hub_ok_def h' task_ok_def list_all_iff)
qed

lemma hub_ok_write:
  assumes "hub_ok h" "task_write i ok h = Some h'"
  shows "hub_ok h'"
proof -
  obtain t c cs where t: "hb_tasks h i = Some t" "tk_remaining t = c # cs"
    using assms(2) by (auto simp: task_write_def split: option.splits list.splits)
  have "task_ok (hb_next h) (hb_broken h) (hb_tasks h i)" using assms(1) by (simp add: hub_ok_def)
  then have task: "distinct (c # cs)" "\<forall>d \<in> set (c # cs). d < hb_next h" "set (tk_failed t) \<subseteq> set (hb_broken h)"
    by (simp_all add: task_ok_def t list_all_iff)
  define new where "new = (case tk_update t of None \<Rightarrow> [] | Some x \<Rightarrow> [x])"
  show ?thesis
  proof (cases "ok \<and> c \<notin> set (hb_closed h) \<and> c \<notin> set (hb_broken h)")
    case True
    have h': "h' = h\<lparr>hb_tasks := (hb_tasks h)(i := Some (t\<lparr>tk_remaining := cs\<rparr>)),
        hb_sent := (hb_sent h)(c := (hb_sent h c)(i := hb_sent h c i @ new))\<rparr>"
      using assms(2) t True by (simp add: task_write_def new_def)
    have "stream_ok h' d j" if old: "stream_ok h d j" for d j
    proof (cases "d = c \<and> j = i")
      case both: True
      have "pending h c i = new" "pending h' c i = []" using task(1) by (simp_all add: pending_def t new_def h')
      moreover have "hb_sent h' c i = hb_sent h c i @ new" "due h' c i = due h c i" "hb_conns h' = hb_conns h"
        "hb_broken h' = hb_broken h" "hb_joined h' c i = hb_joined h c i" "hb_taken h' i = hb_taken h i"
        by (simp_all add: h' due_def)
      ultimately show ?thesis using old both True unfolding stream_ok_def by simp
    next
      case False
      then show ?thesis by (intro stream_ok_frame [OF old]) (auto simp: h' pending_def t)
    qed
    then show ?thesis using assms(1) task by (auto simp: hub_ok_def h' task_ok_def list_all_iff)
  next
    case False
    then have h': "h' = h\<lparr>hb_tasks := (hb_tasks h)(i := Some (t\<lparr>tk_remaining := cs, tk_failed := tk_failed t @ [c]\<rparr>)),
        hb_broken := c # hb_broken h\<rparr>"
      using assms(2) t by (simp add: task_write_def if_not_P [OF False])
    have "stream_ok h' d j" if old: "stream_ok h d j" for d j
    proof (cases "d = c")
      case True
      then show ?thesis using old unfolding stream_ok_def due_def by (simp add: h')
    next
      case d: False
      then show ?thesis by (intro stream_ok_frame [OF old]) (auto simp: h' pending_def t)
    qed
    moreover have "task_ok (hb_next h) (c # hb_broken h) (hb_tasks h j)" for j
    proof -
      have "task_ok (hb_next h) (hb_broken h) (hb_tasks h j)" using assms(1) by (simp add: hub_ok_def)
      then show ?thesis unfolding task_ok_def by (auto elim!: option.pred_mono_strong)
    qed
    ultimately show ?thesis using assms(1) task by (auto simp: hub_ok_def h' task_ok_def list_all_iff)
  qed
qed

lemma hub_ok_finish:
  assumes "hub_ok h" "task_finish i h = Some h'"
  shows "hub_ok h'"
proof -
  obtain t where t: "hb_tasks h i = Some t" "tk_remaining t = []"
    and h': "h' = removeConns (tk_failed t) (h\<lparr>hb_tasks := (hb_tasks h)(i := None)\<rparr>)"
    using assms(2) by (auto simp: task_finish_def split: option.splits if_split_asm)
  let ?h = "h\<lparr>hb_tasks := (hb_tasks h)(i := None)\<rparr>"
  have "stream_ok ?h c j" if "stream_ok h c j" for c j
    by (rule stream_ok_frame [OF that]) (auto simp: pending_def t)
  then have ok: "hub_ok ?h" using assms(1) by (auto simp: hub_ok_def task_ok_def)
  moreover have "\<forall>c \<in> set (tk_failed t). c < hb_next h"
  proof -
    have "task_ok (hb_next h) (hb_broken h) (hb_tasks h i)" using assms(1) by (simp add: hub_ok_def)
    then show ?thesis using assms(1) by (auto simp: hub_ok_def task_ok_def t list_all_iff)
  qed
  ultimately show ?thesis unfolding h' by (intro hub_ok_remove) simp_all
qed


lemma hub_step_ok: "hub_step h h' \<Longrightarrow> hub_ok h \<Longrightarrow> hub_ok h'"
  by (induction rule: hub_step.induct)
    (auto intro: hub_ok_join hub_ok_leave hub_ok_close hub_ok_start hub_ok_write hub_ok_finish hub_ok_stop)

lemma hub_reachable_ok: "hub_reachable h \<Longrightarrow> hub_ok h"
  unfolding hub_reachable_def
proof (induction rule: rtranclp_induct)
  case base
  show ?case by (simp add: hub_ok_def NewHub_def task_ok_def)
next
  case (step h h')
  then show ?case using hub_step_ok by blast
qed

text \<open>C30: Price streams. In every interleaving of joining and leaving clients, broadcasters, pings and
  \<open>Stop\<close>, a connected client whose writes got through has received from each oracle exactly the
  updates taken since it joined, in order, up to the one being written; every other client has
  received a prefix of its updates.\<close>

theorem stream_receives_updates:
  assumes "hub_reachable h" and "c < hb_next h"
  shows "(c \<in> set (hb_conns h) \<and> c \<notin> set (hb_broken h) \<longrightarrow>
        hb_sent h c i @ pending h c i = drop (hb_joined h c i) (hb_taken h i))
    \<and> prefix (hb_sent h c i) (drop (hb_joined h c i) (hb_taken h i))"
  using hub_reachable_ok [OF assms(1)] assms(2) by (simp add: hub_ok_def stream_ok_def due_def)

text \<open>A client that joins between two updates of an oracle gets the second one only.\<close>

definition demo_hub :: "string hub" where
  "demo_hub = the (task_write 0 True (the (task_start 0 (Some ''second'') (stream_join
     (the (task_finish 0 (the (task_start 0 (Some ''first'') NewHub))))))))"

lemma demo_hub_reachable: "hub_reachable demo_hub"
proof -
  let ?a = "the (task_start 0 (Some ''first'') NewHub)"
  let ?b = "the (task_finish 0 ?a)"
  let ?c = "the (task_start 0 (Some ''second'') (stream_join ?b))"
  have "task_start 0 (Some ''first'') NewHub = Some ?a" by (simp add: task_start_def NewHub_def)
  moreover have "task_finish 0 ?a = Some ?b" by (simp add: task_finish_def task_start_def NewHub_def)
  moreover have "task_start 0 (Some ''second'') (stream_join ?b) = Some ?c"
    by (simp add: task_start_def task_finish_def NewHub_def stream_join_def removeConns_def)
  moreover have "task_write 0 True ?c = Some demo_hub"
    by (simp add: demo_hub_def task_write_def task_start_def task_finish_def NewHub_def stream_join_def removeConns_def)
  ultimately have "hub_step NewHub ?a" "hub_step ?a ?b" "hub_step ?b (stream_join ?b)" "hub_step (stream_join ?b) ?c"
    "hub_step ?c demo_hub"
    by (metis starts, metis finishes, metis joins, metis starts, metis writes)
  then show ?thesis unfolding hub_reachable_def by (meson rtranclp.rtrancl_refl rtranclp.rtrancl_into_rtrancl)
qed

theorem stream_receives_updates_witness: "hb_sent demo_hub 0 0 = [''second'']"
  using stream_receives_updates [OF demo_hub_reachable, of 0 0]
  by (simp add: demo_hub_def task_write_def task_start_def task_finish_def NewHub_def stream_join_def removeConns_def pending_def)

text \<open>A stopped API has no client left, until another one joins.\<close>

lemma stop_disconnects: "WebSocketClientCount (hub_Stop h) = 0"
  by (simp add: WebSocketClientCount_def hub_Stop_def)

section \<open>Lending streams\<close>

text \<open>
  \<open>HandleLendingStream\<close>: a subscription to every oracle of the API when the stream opens, all of
  them given back when it ends. Between the two, each subscription's goroutine takes an update and
  writes it; after a write that fails it closes the connection and ends.
\<close>

fun open_stream :: "LendingOracle list \<Rightarrow> nat list \<times> LendingOracle list" where
  "open_stream [] = ([], [])"
| "open_stream (o1 # os) =
     (let (ch, o2) = lending_Subscribe o1; (chs, os2) = open_stream os in (ch # chs, o2 # os2))"

fun close_stream :: "nat list \<Rightarrow> LendingOracle list \<Rightarrow> LendingOracle list option" where
  "close_stream [] os = Some os"
| "close_stream (ch # chs) [] = None"
| "close_stream (ch # chs) (o1 # os) =
     do { o2 \<leftarrow> lending_Unsubscribe ch o1; os2 \<leftarrow> close_stream chs os; Some (o2 # os2) }"

datatype forward_result = Waits | Ends | Forwards LendingUpdate "(nat, lending_chan) gomap"

definition forward_update :: "nat \<Rightarrow> bool \<Rightarrow> (nat, lending_chan) gomap \<Rightarrow> forward_result" where
  "forward_update ch ok chans = (case map_of chans ch of
     None \<Rightarrow> Waits
   | Some c \<Rightarrow> (case lc_buf c of
       [] \<Rightarrow> if lc_open c then Waits else Ends
     | u # us \<Rightarrow> if ok then Forwards u (AList.update ch (c\<lparr>lc_buf := us\<rparr>) chans) else Ends))"

end
