(* ===== verification/Node_Start.thy ===== *)
theory Node_Start
  imports Node_Outbound Configuration
begin

text \<open>
  How the node's connections come about (\<open>internal/node/node.go\<close>): what \<open>New\<close> makes, what \<open>Start\<close> listens
  on and dials, the rounds of the two accept loops, and the construction of an outbound connection with
  its repetition.

  The connection library is a parameter: whether it accepts a configuration, the connection it makes
  of a socket (its identifier stands for it), and whether the manager takes the connection; one that it
  refuses it has closed itself. \<open>listen\<close> and \<open>dial\<close> are the network.
\<close>

section \<open>Configurations of connections\<close>

datatype callback =
    TxSubmissionInit
  | TxSubmissionRequestTxIds
  | TxSubmissionRequestTxs
  | ChainSyncFindIntersect
  | ChainSyncRequestNext
  | BlockFetchRequestRange
  | PeerSharingShareRequest
  | LocalTxSubmissionSubmitTx

record conn_config =
  cg_NetworkMagic :: u32
  cg_NodeToNode :: bool
  cg_Server :: bool
  cg_FullDuplex :: bool
  cg_PeerSharing :: bool
  cg_KeepAlive :: bool
  cg_callbacks :: "callback list"

definition inbound_config :: "ServiceConfig \<Rightarrow> conn_config" where
  "inbound_config cfg =
     \<lparr>cg_NetworkMagic = cf_NetworkMagic cfg, cg_NodeToNode = True, cg_Server = True, cg_FullDuplex = False,
      cg_PeerSharing = True, cg_KeepAlive = False,
      cg_callbacks = [TxSubmissionInit, ChainSyncFindIntersect, ChainSyncRequestNext, BlockFetchRequestRange, PeerSharingShareRequest]\<rparr>"

definition inbound_ntc_config :: "ServiceConfig \<Rightarrow> conn_config" where
  "inbound_ntc_config cfg =
     \<lparr>cg_NetworkMagic = cf_NetworkMagic cfg, cg_NodeToNode = False, cg_Server = True, cg_FullDuplex = False,
      cg_PeerSharing = False, cg_KeepAlive = False, cg_callbacks = [LocalTxSubmissionSubmitTx]\<rparr>"

definition outbound_config :: "ServiceConfig \<Rightarrow> conn_config" where
  "outbound_config cfg =
     \<lparr>cg_NetworkMagic = cf_NetworkMagic cfg, cg_NodeToNode = True, cg_Server = False, cg_FullDuplex = True,
      cg_PeerSharing = True, cg_KeepAlive = True,
      cg_callbacks = [TxSubmissionInit, TxSubmissionRequestTxIds, TxSubmissionRequestTxs,
        ChainSyncFindIntersect, ChainSyncRequestNext, BlockFetchRequestRange, PeerSharingShareRequest]\<rparr>"

record ('k, 'c) net_libs =
  nl_BlockFetchConfig :: bool
  nl_NewConnection :: "conn_config \<Rightarrow> 'k \<Rightarrow> 'c option"
  nl_AddConnection :: "'c \<Rightarrow> bool \<Rightarrow> string \<Rightarrow> bool"

section \<open>Accepting\<close>

text \<open>One round of an accept loop, on what \<open>Accept\<close> returned: a socket with its remote address.\<close>

datatype ('k, 'c) accept_round =
    AcceptFailed
  | SetupFailed 'k
  | RejectedByManager 'c
  | Serving 'c string

definition peer_name :: "string option \<Rightarrow> string" where
  "peer_name remoteAddr = (case remoteAddr of None \<Rightarrow> ''unknown'' | Some a \<Rightarrow> a)"

definition add_inbound :: "('k, 'c) net_libs \<Rightarrow> conn_config \<Rightarrow> 'k \<Rightarrow> string option \<Rightarrow> ('k, 'c) accept_round" where
  "add_inbound l config conn remoteAddr = (case nl_NewConnection l config conn of
     None \<Rightarrow> SetupFailed conn
   | Some oConn \<Rightarrow>
       if nl_AddConnection l oConn True (peer_name remoteAddr) then Serving oConn (peer_name remoteAddr)
       else RejectedByManager oConn)"

definition acceptConnections :: "('k, 'c) net_libs \<Rightarrow> ServiceConfig \<Rightarrow> ('k \<times> string option) option \<Rightarrow> ('k, 'c) accept_round" where
  "acceptConnections l cfg accepted = (case accepted of
     None \<Rightarrow> AcceptFailed
   | Some (conn, remoteAddr) \<Rightarrow>
       if \<not> nl_BlockFetchConfig l then SetupFailed conn
       else add_inbound l (inbound_config cfg) conn remoteAddr)"

definition acceptConnectionsNtc :: "('k, 'c) net_libs \<Rightarrow> ServiceConfig \<Rightarrow> ('k \<times> string option) option \<Rightarrow> ('k, 'c) accept_round" where
  "acceptConnectionsNtc l cfg accepted = (case accepted of
     None \<Rightarrow> AcceptFailed
   | Some (conn, remoteAddr) \<Rightarrow> add_inbound l (inbound_ntc_config cfg) conn remoteAddr)"

text \<open>The sockets that a round closes itself.\<close>

fun round_closes :: "('k, 'c) accept_round \<Rightarrow> 'k list" where
  "round_closes (SetupFailed conn) = [conn]"
| "round_closes r = []"

section \<open>Dialling\<close>

datatype connect_error =
    DialFailed
  | BlockFetchConfigFailed
  | NewConnectionFailed
  | RejectedConnection string

text \<open>The result, the sockets closed, and the state. \<open>dial\<close> takes the local port and the address.\<close>

definition createOutboundConnection ::
  "('k, 'c) net_libs \<Rightarrow> ServiceConfig \<Rightarrow> (nat \<Rightarrow> string \<Rightarrow> 'k option) \<Rightarrow> outboundPeer \<Rightarrow> 'c outbound
   \<Rightarrow> (connect_error + 'c) \<times> 'k list \<times> 'c outbound" where
  "createOutboundConnection l cfg dial peer st = (case dial (cf_ListenPort cfg) (op_Address peer) of
     None \<Rightarrow> (Inl DialFailed, [], st)
   | Some tmpConn \<Rightarrow>
       if \<not> nl_BlockFetchConfig l then (Inl BlockFetchConfigFailed, [tmpConn], st)
       else (case nl_NewConnection l (outbound_config cfg) tmpConn of
         None \<Rightarrow> (Inl NewConnectionFailed, [tmpConn], st)
       | Some oConn \<Rightarrow>
           if \<not> nl_AddConnection l oConn False (op_Address peer) then (Inl (RejectedConnection (op_Address peer)), [], st)
           else (Inr oConn, [], register_connection oConn peer st)))"

text \<open>The reconnection loop over the network as each attempt finds it.\<close>

fun reconnect_attempts ::
  "('k, 'c) net_libs \<Rightarrow> ServiceConfig \<Rightarrow> (nat \<Rightarrow> string \<Rightarrow> 'k option) list \<Rightarrow> outboundPeer \<Rightarrow> 'c outbound
   \<Rightarrow> duration list \<times> ('c \<times> outboundPeer) option \<times> 'c outbound" where
  "reconnect_attempts l cfg [] peer st = ([], None, st)"
| "reconnect_attempts l cfg (dial # dials) peer st =
     (let peer' = peer\<lparr>op_ReconnectDelay := next_delay (op_ReconnectDelay peer)\<rparr>
      in case createOutboundConnection l cfg dial peer' st of
           (Inr oConn, _, st') \<Rightarrow> ([op_ReconnectDelay peer'], Some (oConn, peer'), st')
         | (Inl _, _, st') \<Rightarrow>
             (case reconnect_attempts l cfg dials peer' st' of (ds, r, st'') \<Rightarrow> (op_ReconnectDelay peer' # ds, r, st'')))"

text \<open>The goroutine of one host of the topology: a first attempt, and the loop when it fails.\<close>

definition dial_host ::
  "('k, 'c) net_libs \<Rightarrow> ServiceConfig \<Rightarrow> (nat \<Rightarrow> string \<Rightarrow> 'k option) \<Rightarrow> (nat \<Rightarrow> string \<Rightarrow> 'k option) list \<Rightarrow> outboundPeer \<Rightarrow> 'c outbound
   \<Rightarrow> duration list \<times> ('c \<times> outboundPeer) option \<times> 'c outbound" where
  "dial_host l cfg dial dials peer st = (case createOutboundConnection l cfg dial peer st of
     (Inr oConn, _, st') \<Rightarrow> ([], Some (oConn, peer), st')
   | (Inl _, _, st') \<Rightarrow> reconnect_attempts l cfg dials peer st')"

section \<open>Start\<close>

text \<open>\<open>New\<close>: the fields with their zero values, and the event function registered at the indexer.\<close>

definition node_New ::
  "('e \<Rightarrow> 's \<Rightarrow> 'err option \<times> 's) \<Rightarrow> ('e \<Rightarrow> 's \<Rightarrow> 'err option \<times> 's) list
   \<Rightarrow> ('c node_chain \<times> mempool_map \<times> 'c outbound) \<times> ('e \<Rightarrow> 's \<Rightarrow> 'err option \<times> 's) list" where
  "node_New chainsyncHandler eventFuncs =
     ((\<lparr>nc_client = \<lparr>cc_tip = \<lparr>ct_SlotNumber = 0, ct_BlockHash = [], ct_BlockNumber = 0\<rparr>, cc_recentBlocks = [], cc_subs = []\<rparr>,
        nc_server = []\<rparr>, [], \<lparr>ob_conns = [], ob_chans = [], ob_cache = []\<rparr>),
      AddEventFunc chainsyncHandler eventFuncs)"

datatype node_task = AcceptLoop string | AcceptLoopNtc string | DialHost outboundPeer | RemoveExpiredTimer

definition listen_address :: "string \<Rightarrow> nat \<Rightarrow> string" where
  "listen_address address port = address @ '':'' @ show_nat port"

definition topology_peers :: "ServiceConfig \<Rightarrow> outboundPeer list" where
  "topology_peers cfg = map (\<lambda>host.
     \<lparr>op_Address = JoinHostPort (th_Address host) (show_nat (th_Port host)), op_ReconnectCount = 0, op_ReconnectDelay = 0\<rparr>)
     (tc_Hosts (cf_Topology cfg))"

text \<open>Whether \<open>Start\<close> succeeded, and the goroutines it left running.\<close>

definition node_Start :: "(string \<Rightarrow> bool) \<Rightarrow> ServiceConfig \<Rightarrow> bool \<times> node_task list" where
  "node_Start listen cfg =
     (let listenAddress = listen_address (cf_ListenAddress cfg) (cf_ListenPort cfg);
          listenAddressNtc = listen_address (cf_ListenAddressNtc cfg) (cf_ListenPortNtc cfg)
      in if \<not> listen listenAddress then (False, [])
         else if \<not> listen listenAddressNtc then (False, [AcceptLoop listenAddress])
         else (True, [AcceptLoop listenAddress, AcceptLoopNtc listenAddressNtc] @ map DialHost (topology_peers cfg) @ [RemoveExpiredTimer]))"

text \<open>\<open>socketControl\<close>: the options it tries to set, in order, and whether it returns no error.\<close>

datatype socket_option = SO_REUSEADDR | SO_REUSEPORT

definition socketControl :: "bool \<Rightarrow> (socket_option \<Rightarrow> bool) \<Rightarrow> socket_option list \<times> bool" where
  "socketControl control setsockopt =
     (if \<not> control then ([], False)
      else if \<not> setsockopt SO_REUSEADDR then ([SO_REUSEADDR], False)
      else ([SO_REUSEADDR, SO_REUSEPORT], setsockopt SO_REUSEPORT))"

section \<open>What becomes of a socket\<close>

text \<open>A socket that was accepted is served, closed here, or closed by the manager that refused it.\<close>

lemma accepted_socket_handled:
  assumes "acceptConnections l cfg (Some (conn, remoteAddr)) = r \<or> acceptConnectionsNtc l cfg (Some (conn, remoteAddr)) = r"
  shows "(\<exists>c. r = Serving c (peer_name remoteAddr) \<and> nl_AddConnection l c True (peer_name remoteAddr))
    \<or> round_closes r = [conn] \<or> (\<exists>c. r = RejectedByManager c \<and> \<not> nl_AddConnection l c True (peer_name remoteAddr))"
  using assms by (auto simp: acceptConnections_def acceptConnectionsNtc_def add_inbound_def split: if_splits option.splits)

lemma dialled_socket_handled:
  assumes "createOutboundConnection l cfg dial peer st = (r, shut, st')"
    and "dial (cf_ListenPort cfg) (op_Address peer) = Some conn"
  shows "(\<exists>c. r = Inr c \<and> st' = register_connection c peer st) \<or> st' = st \<and> (shut = [conn] \<or> r = Inl (RejectedConnection (op_Address peer)))"
  using assms by (auto simp: createOutboundConnection_def split: if_splits option.splits)

text \<open>What a registered connection finds: its peer, an empty channel and an empty cache; the others keep theirs.\<close>

lemma created_connection:
  assumes "createOutboundConnection l cfg dial peer st = (Inr c, shut, st')"
  shows "map_of (ob_conns st') c = Some peer \<and> map_of (ob_chans st') c = Some [] \<and> map_of (ob_cache st') c = Some []
    \<and> (\<forall>d. d \<noteq> c \<longrightarrow> map_of (ob_chans st') d = map_of (ob_chans st) d \<and> map_of (ob_cache st') d = map_of (ob_cache st) d)"
proof -
  have "st' = register_connection c peer st"
    using assms by (auto simp: createOutboundConnection_def split: if_splits option.splits)
  then show ?thesis
    by (simp add: register_connection_def track_connection_def add_channel_def add_cache_def update_conv')
qed

lemma failed_connection: "createOutboundConnection l cfg dial peer st = (Inl e, shut, st') \<Longrightarrow> st' = st"
  by (auto simp: createOutboundConnection_def split: if_splits option.splits)

section \<open>Every host is dialled until it answers\<close>

definition attempt_ok :: "('k, 'c) net_libs \<Rightarrow> ServiceConfig \<Rightarrow> string \<Rightarrow> (nat \<Rightarrow> string \<Rightarrow> 'k option) \<Rightarrow> bool" where
  "attempt_ok l cfg address dial = (case dial (cf_ListenPort cfg) address of
     None \<Rightarrow> False
   | Some conn \<Rightarrow> nl_BlockFetchConfig l \<and> (case nl_NewConnection l (outbound_config cfg) conn of
       None \<Rightarrow> False | Some c \<Rightarrow> nl_AddConnection l c False address))"

lemma create_ok:
  "attempt_ok l cfg (op_Address peer) dial \<longleftrightarrow> (\<exists>c st'. createOutboundConnection l cfg dial peer st = (Inr c, [], st'))"
  by (auto simp: attempt_ok_def createOutboundConnection_def split: option.splits)

lemma create_fails:
  "\<not> attempt_ok l cfg (op_Address peer) dial \<Longrightarrow> \<exists>e shut. createOutboundConnection l cfg dial peer st = (Inl e, shut, st)"
  by (auto simp: attempt_ok_def createOutboundConnection_def split: option.splits)

text \<open>The loop over the network is the loop over the outcomes of its attempts.\<close>

lemma reconnect_attempts_outcomes:
  "reconnect_attempts l cfg dials peer st = (ds, r, st') \<Longrightarrow>
     reconnectOutboundConnection (map (attempt_ok l cfg (op_Address peer)) dials) peer = (ds, map_option snd r)
     \<and> (case r of None \<Rightarrow> st' = st
        | Some (c, p) \<Rightarrow> op_Address p = op_Address peer \<and> st' = register_connection c p st)"
proof (induction dials arbitrary: peer ds r st')
  case (Cons dial dials)
  let ?peer = "peer\<lparr>op_ReconnectDelay := next_delay (op_ReconnectDelay peer)\<rparr>"
  obtain a shut st1 where made: "createOutboundConnection l cfg dial ?peer st = (a, shut, st1)"
    using prod_cases3 by blast
  have addr: "op_Address ?peer = op_Address peer" by simp
  show ?case
  proof (cases a)
    case (Inl e)
    have "\<not> attempt_ok l cfg (op_Address peer) dial" using create_ok [of l cfg ?peer dial st] made Inl by simp
    moreover have same: "st1 = st" using failed_connection made Inl by metis
    moreover obtain ds1 r1 st2 where rest: "reconnect_attempts l cfg dials ?peer st = (ds1, r1, st2)"
      using prod_cases3 by blast
    moreover have "ds = op_ReconnectDelay ?peer # ds1" "r = r1" "st' = st2"
      using Cons.prems made Inl same rest by (simp_all add: Let_def)
    ultimately show ?thesis using Cons.IH [OF rest, unfolded addr]
      by (simp only: list.map reconnectOutboundConnection.simps Let_def if_False case_prod_conv simp_thms HOL.simp_thms)
  next
    case (Inr c)
    have ok: "shut = []" "st1 = register_connection c ?peer st"
      using made Inr by (auto simp: createOutboundConnection_def split: if_splits option.splits)
    then have "attempt_ok l cfg (op_Address peer) dial" using create_ok [of l cfg ?peer dial st] made Inr by simp
    then show ?thesis using Cons.prems made Inr ok by (auto simp: Let_def)
  qed
qed simp

definition delays :: "duration \<Rightarrow> nat \<Rightarrow> duration list" where
  "delays d n = map (\<lambda>k. (next_delay ^^ Suc k) d) [0..<Suc n]"

lemma length_delays [simp]: "length (delays d n) = Suc n"
  by (simp add: delays_def)

lemma delays_Suc: "delays d (Suc n) = next_delay d # delays (next_delay d) n"
proof -
  have "[0..<Suc (Suc n)] = 0 # map Suc [0..<Suc n]" by (simp add: upt_conv_Cons map_Suc_upt del: upt_Suc)
  moreover have "(next_delay ^^ Suc k) (next_delay d) = (next_delay ^^ Suc (Suc k)) d" for k
    by (simp only: funpow_Suc_right comp_apply)
  ultimately show ?thesis by (simp add: delays_def comp_def del: upt_Suc funpow.simps) simp
qed

lemma reconnects_at_last:
  "list_all (\<lambda>b. \<not> b) fails \<Longrightarrow>
     \<exists>p. reconnectOutboundConnection (fails @ True # rest) peer = (delays (op_ReconnectDelay peer) (length fails), Some p)"
proof (induction fails arbitrary: peer)
  case Nil
  then show ?case by (simp add: delays_def)
next
  case (Cons b fails)
  let ?peer = "peer\<lparr>op_ReconnectDelay := next_delay (op_ReconnectDelay peer)\<rparr>"
  have "\<exists>p. reconnectOutboundConnection (fails @ True # rest) ?peer = (delays (op_ReconnectDelay ?peer) (length fails), Some p)"
    by (rule Cons.IH) (use Cons.prems in simp)
  then show ?case using Cons.prems by (auto simp: Let_def delays_Suc)
qed

text \<open>
  A host that answers from the \<open>n\<close>-th attempt on is connected then, and registered, after delays that
  double from one second and stay at 128.
\<close>

lemma host_connected:
  assumes "peer \<in> set (topology_peers cfg)"
    and "\<not> attempt_ok l cfg (op_Address peer) dial" "list_all (\<lambda>d. \<not> attempt_ok l cfg (op_Address peer) d) fails"
    and "attempt_ok l cfg (op_Address peer) good"
  shows "\<exists>c p ds. dial_host l cfg dial (fails @ good # rest) peer st = (ds, Some (c, p), register_connection c p st)
    \<and> op_Address p = op_Address peer \<and> length ds = Suc (length fails) \<and> list_all delay_ok ds"
proof -
  have zero: "op_ReconnectDelay peer = 0" using assms(1) by (auto simp: topology_peers_def)
  obtain e shut where "createOutboundConnection l cfg dial peer st = (Inl e, shut, st)"
    using create_fails [OF assms(2)] by blast
  then have loop: "dial_host l cfg dial (fails @ good # rest) peer st = reconnect_attempts l cfg (fails @ good # rest) peer st"
    by (simp add: dial_host_def)
  obtain ds r st' where run: "reconnect_attempts l cfg (fails @ good # rest) peer st = (ds, r, st')"
    using prod_cases3 by blast
  note out = reconnect_attempts_outcomes [OF run]
  have "list_all (\<lambda>b. \<not> b) (map (attempt_ok l cfg (op_Address peer)) fails)" using assms(3) by (simp add: list_all_iff)
  from reconnects_at_last [OF this, of "map (attempt_ok l cfg (op_Address peer)) rest" peer] assms(4) out
  obtain p where "length ds = Suc (length fails)" "map_option snd r = Some p" by auto
  moreover have "list_all delay_ok ds" using reconnect_delays out zero by blast
  ultimately show ?thesis using out run loop by auto
qed

section \<open>Addresses\<close>

text \<open>
  An IPv6 address of the topology is put in brackets; the addresses to listen on are not, so that one
  without brackets in the configuration cannot be told from its port.
\<close>

lemma listen_address_brackets:
  "CHR '':'' \<notin> set a \<Longrightarrow> listen_address a p = JoinHostPort a (show_nat p)"
  "listen_address ''::1'' 3001 = ''::1:3001''"
  "JoinHostPort ''::1'' (show_nat 3001) = ''[::1]:3001''"
  by (simp_all add: listen_address_def JoinHostPort_def show_nat.simps digit_char_def char_of_def bit_Suc_0_iff)

lemma Start_dials_topology:
  assumes "node_Start listen cfg = (True, tasks)"
  shows "(DialHost p \<in> set tasks \<longleftrightarrow> p \<in> set (topology_peers cfg)) \<and> RemoveExpiredTimer \<in> set tasks"
    and "map op_Address (topology_peers cfg) = map (\<lambda>h. JoinHostPort (th_Address h) (show_nat (th_Port h))) (tc_Hosts (cf_Topology cfg))"
  using assms by (auto simp: node_Start_def topology_peers_def Let_def split: if_splits)

end
