(* ===== verification/Service_Settings.thy ===== *)
theory Service_Settings
  imports Configuration
begin

text \<open>
  What the service derives from its configuration and build: the start of each network's Shelley era
  (\<open>internal/config/networks.go\<close>), the global logger (\<open>internal/logging\<close>) and the version text
  (\<open>internal/version\<close>). A logger is its level: the handler that renders the lines is the library's.
\<close>

section \<open>Networks\<close>

record Network =
  ShelleyOffsetSlot :: u64
  ShelleyOffsetTime :: int

definition Networks :: "(string \<times> Network) list" where
  "Networks =
     [(''preprod'', \<lparr>ShelleyOffsetSlot = 0, ShelleyOffsetTime = 1654041600\<rparr>),
      (''preview'', \<lparr>ShelleyOffsetSlot = 0, ShelleyOffsetTime = 1666656000\<rparr>),
      (''mainnet'', \<lparr>ShelleyOffsetSlot = 4924800, ShelleyOffsetTime = 1596491091\<rparr>)]"

text \<open>\<open>config.Networks[name]\<close>: a network that is not in the table gets the zero value.\<close>

definition network_of :: "string \<Rightarrow> Network" where
  "network_of name = (case map_of Networks name of
     Some n \<Rightarrow> n | None \<Rightarrow> \<lparr>ShelleyOffsetSlot = 0, ShelleyOffsetTime = 0\<rparr>)"

lemma profile_networks_known: "Profiles l = Some table \<Longrightarrow> map fst table = map fst Networks"
  by (auto simp: Profiles_def Networks_def split: bind_splits)

section \<open>The logger\<close>

datatype log_level = LevelDebug | LevelInfo | LevelWarn | LevelError

definition buildLogger :: "ServiceConfig \<Rightarrow> log_level" where
  "buildLogger cfg =
     (let level = lg_Level (cf_Logging cfg)
      in if level = ''debug'' then LevelDebug
         else if level = ''info'' then LevelInfo
         else if level = ''warn'' then LevelWarn
         else if level = ''error'' then LevelError
         else LevelInfo)"

text \<open>The global logger: \<open>None\<close> is nil. The write lock makes the second test of \<open>GetLogger\<close> decide.\<close>

definition Configure :: "ServiceConfig \<Rightarrow> log_level option \<Rightarrow> log_level option" where
  "Configure cfg globalLogger = Some (buildLogger cfg)"

definition GetLogger :: "ServiceConfig \<Rightarrow> log_level option \<Rightarrow> log_level \<times> log_level option" where
  "GetLogger cfg globalLogger = (case globalLogger of
     Some logger \<Rightarrow> (logger, globalLogger)
   | None \<Rightarrow> (buildLogger cfg, Some (buildLogger cfg)))"

lemma logger_kept:
  assumes "GetLogger cfg s = (logger, s')"
  shows "GetLogger cfg' s' = (logger, s')"
  using assms by (auto simp: GetLogger_def split: option.splits)

lemma logger_reconfigured: "fst (GetLogger cfg' (Configure cfg s)) = buildLogger cfg"
  by (simp add: Configure_def GetLogger_def)

section \<open>The version\<close>

definition GetVersionString :: "string \<Rightarrow> string \<Rightarrow> string" where
  "GetVersionString Version CommitHash =
     (if Version \<noteq> [] then Version @ '' (commit '' @ CommitHash @ '')''
      else ''devel (commit '' @ CommitHash @ '')'')"

end
