(* ===== verification/Saturnswap.thy ===== *)
theory Saturnswap
  imports Pool
begin

text \<open>
  SaturnSwap (\<open>dex/saturnswap\<close>): the integration target with its checklist, the parser that refuses to
  parse until the target is verified, and the values of the public GraphQL API with their conversion to
  a pool state.

  Text is ASCII. The JSON decoder of a string and \<open>strconv.ParseFloat\<close> are the fields of a record.
  Converting a float that has no 64-bit integer value is implementation-defined in Go: what it gives is
  a parameter too.
\<close>

section \<open>The integration target\<close>

definition saturn_ProtocolName :: string where
  "saturn_ProtocolName = ''saturnswap''"

record APIConfig =
  ac_Enabled :: bool
  ac_Endpoint :: string
  ac_Timeout :: duration

record saturn_PoolState =
  sat_PoolId :: string
  sat_Protocol :: string
  sat_AssetX :: AssetAmount
  sat_AssetY :: AssetAmount
  sat_FeeNum :: u64
  sat_FeeDenom :: u64
  sat_Slot :: u64
  sat_TxHash :: string
  sat_TxIndex :: u32
  sat_Timestamp :: time

record VerificationItem =
  vi_Key :: string
  vi_Description :: string
  vi_RequiredBeforeRuntime :: bool

record ExternalAPIResearchPolicy =
  rp_Optional :: bool
  rp_EnabledByDefault :: bool
  rp_Note :: string

record IntegrationTarget =
  it_Protocol :: string
  it_Status :: string
  it_Network :: string
  it_ExternalAPIConfig :: APIConfig
  it_ExternalAPIs :: ExternalAPIResearchPolicy
  it_VerificationItems :: "VerificationItem list"

definition verificationChecklist :: "VerificationItem list" where
  "verificationChecklist = map (\<lambda>(k, d). \<lparr>vi_Key = k, vi_Description = d, vi_RequiredBeforeRuntime = True\<rparr>)
     [(''script-addresses'', ''verify SaturnSwap pool, order, and related script addresses/hashes for each supported network''),
      (''intercept-point'', ''verify the earliest intercept slot and block hash for the first relevant pool-script transaction''),
      (''datum-redeemer-schema'', ''verify pool datum and order/redeemer schema constructors, field ordering, and asset encoding''),
      (''pool-id-rules'', ''verify pool ID rules, including the NFT/LP token or datum fields that make a pool unique''),
      (''reserve-extraction-rules'', ''verify reserve extraction rules from UTxO values, including which assets are reserves and which markers are excluded'')]"

definition DefaultGraphQLEndpoint :: string where
  "DefaultGraphQLEndpoint = ''https://api.saturnswap.io/v1/graphql/''"

definition defaultAPITimeout :: duration where
  "defaultAPITimeout = 15000000000"

definition DefaultAPIConfig :: APIConfig where
  "DefaultAPIConfig = \<lparr>ac_Enabled = False, ac_Endpoint = DefaultGraphQLEndpoint, ac_Timeout = defaultAPITimeout\<rparr>"

definition saturn_Target :: IntegrationTarget where
  "saturn_Target =
     \<lparr>it_Protocol = saturn_ProtocolName, it_Status = ''unverified'', it_Network = ''mainnet'',
      it_ExternalAPIConfig = DefaultAPIConfig,
      it_ExternalAPIs = \<lparr>rp_Optional = True, rp_EnabledByDefault = False,
        rp_Note = ''the public GraphQL API may be enabled explicitly for pool discovery and transaction build/submit; on-chain parser support remains disabled until verification is complete''\<rparr>,
      it_VerificationItems = verificationChecklist\<rparr>"

section \<open>Decimal values\<close>

datatype saturn_error =
    EmptyDecimal
  | BadJSONString
  | MissingDecimal
  | InvalidDecimal string
  | DecimalNegative string
  | DecimalNotInteger string
  | InvalidUint string
  | NameWithoutPolicy string
  | BadAssetClass asset_error
  | PoolIDRequired
  | ProtocolFeeOutOfRange string
  | EffectiveFeeOutOfRange string string
  | ErrIntegrationUnverified

record saturn_libs =
  sa_jsonString :: "string \<Rightarrow> string option"
  sa_ParseFloat :: "string \<Rightarrow> f64 option"
  sa_toUint64 :: "f64 \<Rightarrow> u64"

definition DecimalString_UnmarshalJSON :: "saturn_libs \<Rightarrow> string \<Rightarrow> saturn_error + string" where
  "DecimalString_UnmarshalJSON l data0 =
     (let d = TrimSpace data0
      in if d = ''null'' then Inr []
         else if d = [] then Inl EmptyDecimal
         else if hd d = CHR 0x22 then (case sa_jsonString l d of None \<Rightarrow> Inl BadJSONString | Some v \<Rightarrow> Inr v)
         else Inr d)"

definition DecimalString_Float64 :: "saturn_libs \<Rightarrow> string \<Rightarrow> saturn_error + f64" where
  "DecimalString_Float64 l d =
     (let value = TrimSpace d
      in if value = [] then Inl MissingDecimal
         else case sa_ParseFloat l value of None \<Rightarrow> Inl (InvalidDecimal value) | Some x \<Rightarrow> Inr x)"

text \<open>\<open>strings.Cut\<close> at a character: \<open>None\<close> when it does not occur.\<close>

fun cut_at :: "char \<Rightarrow> string \<Rightarrow> (string \<times> string) option" where
  "cut_at c [] = None"
| "cut_at c (d # s) = (if d = c then Some ([], s) else map_option (\<lambda>(a, b). (d # a, b)) (cut_at c s))"

definition DecimalString_Uint64 :: "string \<Rightarrow> saturn_error + u64" where
  "DecimalString_Uint64 d =
     (let value = TrimSpace d
      in if value = [] then Inl MissingDecimal
         else if hd value = CHR ''-'' then Inl (DecimalNegative d)
         else case cut_at (CHR ''.'') value of
           Some (before, after) \<Rightarrow>
             if trim_end (\<lambda>c. c = CHR ''0'') after \<noteq> [] then Inl (DecimalNotInteger value)
             else (case ParseUint64 before of None \<Rightarrow> Inl (InvalidUint d) | Some n \<Rightarrow> Inr n)
         | None \<Rightarrow> (case ParseUint64 value of None \<Rightarrow> Inl (InvalidUint d) | Some n \<Rightarrow> Inr n))"

section \<open>Tokens and pools\<close>

record TokenProject =
  tp_ID :: string
  tp_Name :: string
  tp_Image :: string
  tp_PolicyID :: string
  tp_AssetName :: string
  tp_Decimals :: u32
  tp_Precision :: u32
  tp_Ticker :: string
  tp_Price :: string
  tp_IsVerified :: bool
  tp_IsActive :: bool

definition cleanHex :: "string \<Rightarrow> string" where
  "cleanHex value = to_lower (trim_prefix ''0X'' (trim_prefix ''0x'' (TrimSpace value)))"

definition TokenProject_AssetClass :: "TokenProject \<Rightarrow> saturn_error + AssetClass" where
  "TokenProject_AssetClass t =
     (let policyID = cleanHex (tp_PolicyID t); assetName = cleanHex (tp_AssetName t)
      in if policyID = [] \<and> assetName = [] then Inr Lovelace
         else if policyID = [] then Inl (NameWithoutPolicy (tp_AssetName t))
         else case NewAssetClass policyID assetName of Inl e \<Rightarrow> Inl (BadAssetClass e) | Inr a \<Rightarrow> Inr a)"

text \<open>The volumes and yields of a pool's statistics, which nothing here reads, are left to the decoder.\<close>

record PoolStats =
  ps_PoolID :: string
  ps_Price :: string
  ps_HighestBid :: string
  ps_LowestAsk :: string
  ps_ReserveTokenOne :: string
  ps_ReserveTokenTwo :: string
  ps_TVL :: string

record saturn_Pool =
  sp_ID :: string
  sp_Name :: string
  sp_Ticker :: string
  sp_LPFeePercent :: string
  sp_ProtocolFeePercent :: string
  sp_IsSwapActive :: bool
  sp_IsLiquidityActive :: bool
  sp_IsVerified :: bool
  sp_TokenProjectOne :: TokenProject
  sp_TokenProjectTwo :: TokenProject
  sp_PoolStats :: PoolStats

text \<open>\<open>math.Round\<close>: half away from zero.\<close>

definition round_half_away :: "rat \<Rightarrow> int" where
  "round_half_away r = (if 0 \<le> r then \<lfloor>r + 1 / 2\<rfloor> else - \<lfloor>- r + 1 / 2\<rfloor>)"

fun math_Round :: "f64 \<Rightarrow> f64" where
  "math_Round (Fin r) = Fin (of_int (round_half_away r))"
| "math_Round x = x"

definition f64_to_u64 :: "(f64 \<Rightarrow> u64) \<Rightarrow> f64 \<Rightarrow> u64" where
  "f64_to_u64 other x = (case x of
     Fin r \<Rightarrow> if - 1 < r \<and> r < 2 ^ 64 then word_of_int \<lfloor>\<bar>r\<bar>\<rfloor> else other x
   | _ \<Rightarrow> other x)"

definition saturn_FeeDenom :: u64 where
  "saturn_FeeDenom = 10000"

definition protocol_percent :: "saturn_libs \<Rightarrow> saturn_Pool \<Rightarrow> saturn_error + f64" where
  "protocol_percent l p =
     (if TrimSpace (sp_ProtocolFeePercent p) \<noteq> [] then DecimalString_Float64 l (sp_ProtocolFeePercent p) else Inr (Fin 0))"

definition EffectiveFeeParts :: "saturn_libs \<Rightarrow> saturn_Pool \<Rightarrow> saturn_error + u64 \<times> u64" where
  "EffectiveFeeParts l p = (case DecimalString_Float64 l (sp_LPFeePercent p) of
     Inl e \<Rightarrow> Inl e
   | Inr lpPercent \<Rightarrow> (case protocol_percent l p of
       Inl e \<Rightarrow> Inl e
     | Inr protocolPercent \<Rightarrow>
         if f64_less protocolPercent (Fin 0) \<or> f64_less (Fin 100) protocolPercent
         then Inl (ProtocolFeeOutOfRange (sp_ProtocolFeePercent p))
         else (let percent = f64_div (f64_mul lpPercent protocolPercent) (Fin 100);
                   feeBasisPoints = math_Round (f64_mul percent (Fin 100))
               in if f64_less feeBasisPoints (Fin 0) \<or> f64_less (Fin 10000) feeBasisPoints
                  then Inl (EffectiveFeeOutOfRange (sp_LPFeePercent p) (sp_ProtocolFeePercent p))
                  else Inr (saturn_FeeDenom - f64_to_u64 (sa_toUint64 l) feeBasisPoints, saturn_FeeDenom))))"

definition ToPoolState :: "saturn_libs \<Rightarrow> saturn_Pool \<Rightarrow> u64 \<Rightarrow> time \<Rightarrow> saturn_error + saturn_PoolState" where
  "ToPoolState l p slot timestamp =
     (if TrimSpace (sp_ID p) = [] then Inl PoolIDRequired
      else case TokenProject_AssetClass (sp_TokenProjectOne p) of
        Inl e \<Rightarrow> Inl e
      | Inr assetX \<Rightarrow> (case TokenProject_AssetClass (sp_TokenProjectTwo p) of
          Inl e \<Rightarrow> Inl e
        | Inr assetY \<Rightarrow> (case DecimalString_Uint64 (ps_ReserveTokenOne (sp_PoolStats p)) of
            Inl e \<Rightarrow> Inl e
          | Inr reserveX \<Rightarrow> (case DecimalString_Uint64 (ps_ReserveTokenTwo (sp_PoolStats p)) of
              Inl e \<Rightarrow> Inl e
            | Inr reserveY \<Rightarrow> (case EffectiveFeeParts l p of
                Inl e \<Rightarrow> Inl e
              | Inr (feeNum, feeDenom) \<Rightarrow>
                  Inr \<lparr>sat_PoolId = sp_ID p, sat_Protocol = saturn_ProtocolName,
                       sat_AssetX = \<lparr>Class = assetX, Amount = reserveX\<rparr>, sat_AssetY = \<lparr>Class = assetY, Amount = reserveY\<rparr>,
                       sat_FeeNum = feeNum, sat_FeeDenom = feeDenom, sat_Slot = slot, sat_TxHash = [], sat_TxIndex = 0,
                       sat_Timestamp = timestamp\<rparr>)))))"

record PoolConnection =
  pc_Nodes :: "saturn_Pool list"
  pc_Edges :: "(string \<times> saturn_Pool) list"
  pc_TotalCount :: u64

definition PoolConnection_Pools :: "PoolConnection \<Rightarrow> saturn_Pool list" where
  "PoolConnection_Pools p = (if pc_Nodes p \<noteq> [] then pc_Nodes p else map snd (pc_Edges p))"

text \<open>The parser scaffold: no datum is parsed.\<close>

definition saturn_ParsePoolDatum ::
  "bytes \<Rightarrow> bytes \<Rightarrow> string \<Rightarrow> u32 \<Rightarrow> u64 \<Rightarrow> time \<Rightarrow> saturn_error + saturn_PoolState" where
  "saturn_ParsePoolDatum datum output txHash txIndex slot timestamp = Inl ErrIntegrationUnverified"

section \<open>What a pool state holds\<close>

lemma cut_at_Some: "cut_at c s = Some (a, b) \<longleftrightarrow> s = a @ c # b \<and> c \<notin> set a"
proof (induction s arbitrary: a b)
  case Nil
  then show ?case by simp
next
  case (Cons d s)
  then show ?case by (cases a) auto
qed

lemma cut_at_None: "cut_at c s = None \<longleftrightarrow> c \<notin> set s"
  by (induction s) auto

lemma trim_end_empty: "trim_end p xs = [] \<longleftrightarrow> (\<forall>x \<in> set xs. p x)"
  by (simp add: trim_end_def)

lemma ParseUint64_iff:
  "ParseUint64 s = (if s \<noteq> [] \<and> list_all is_digit s \<and> digits_val 0 s < 2 ^ 64 then Some (word_of_nat (digits_val 0 s)) else None)"
  by (simp add: ParseUint64_def parse_nat_def)

lemma ParseUint64_Some:
  "ParseUint64 s = Some n \<longleftrightarrow> s \<noteq> [] \<and> list_all is_digit s \<and> digits_val 0 s = unat n"
proof -
  have "word_of_nat m = n \<and> m < 2 ^ 64 \<longleftrightarrow> m = unat n" for m
    using unsigned_less [of n] by (auto simp: unsigned_of_nat take_bit_nat_eq_self)
  then show ?thesis unfolding ParseUint64_iff by auto
qed

lemma Uint64_of_parse:
  "(case ParseUint64 s of None \<Rightarrow> Inl (InvalidUint d) | Some n \<Rightarrow> Inr n) = Inr n
    \<longleftrightarrow> s \<noteq> [] \<and> list_all is_digit s \<and> digits_val 0 s = unat n"
  unfolding ParseUint64_Some [symmetric] by (simp split: option.split)

text \<open>The decimals that denote the 64-bit integer: digits, then nothing or a point and zeros.\<close>

definition decimal_of :: "string \<Rightarrow> u64 \<Rightarrow> bool" where
  "decimal_of d n = (\<exists>ds zs. TrimSpace d = ds @ zs \<and> ds \<noteq> [] \<and> list_all is_digit ds \<and> digits_val 0 ds = unat n
     \<and> (zs = [] \<or> (\<exists>k. zs = CHR ''.'' # replicate k (CHR ''0''))))"

lemma digits_no_point: "list_all is_digit ds \<Longrightarrow> CHR ''.'' \<notin> set ds \<and> CHR ''-'' \<notin> set ds"
  by (induction ds) (auto simp: is_digit_def)

lemma Uint64_exact: "DecimalString_Uint64 d = Inr n \<longleftrightarrow> decimal_of d n"
proof (cases "cut_at (CHR ''.'') (TrimSpace d)")
  case None
  have "hd (TrimSpace d) \<noteq> CHR ''-''" if "list_all is_digit (TrimSpace d)" "TrimSpace d \<noteq> []"
    using digits_no_point [OF that(1)] that(2) by (metis hd_in_set)
  moreover have "decimal_of d n \<longleftrightarrow> TrimSpace d \<noteq> [] \<and> list_all is_digit (TrimSpace d) \<and> digits_val 0 (TrimSpace d) = unat n"
    using None by (auto simp: decimal_of_def cut_at_None)
  ultimately show ?thesis
    using None by (simp add: DecimalString_Uint64_def Let_def Uint64_of_parse) blast
next
  case (Some ab)
  obtain ds zs where ab: "ab = (ds, zs)" by (cases ab)
  then have s: "TrimSpace d = ds @ CHR ''.'' # zs" "CHR ''.'' \<notin> set ds" using Some by (simp_all add: cut_at_Some)
  have zeros: "trim_end (\<lambda>c. c = CHR ''0'') zs = [] \<longleftrightarrow> (\<exists>k. zs = replicate k (CHR ''0''))"
    unfolding trim_end_empty by (metis replicate_eqI in_set_replicate)
  have "decimal_of d n \<longleftrightarrow> ds \<noteq> [] \<and> list_all is_digit ds \<and> digits_val 0 ds = unat n \<and> (\<exists>k. zs = replicate k (CHR ''0''))"
  proof
    assume "decimal_of d n"
    then obtain es ws where e: "ds @ CHR ''.'' # zs = es @ ws" "es \<noteq> []" "list_all is_digit es" "digits_val 0 es = unat n"
        "ws = [] \<or> (\<exists>k. ws = CHR ''.'' # replicate k (CHR ''0''))"
      by (auto simp: decimal_of_def s)
    then obtain k where k: "ws = CHR ''.'' # replicate k (CHR ''0'')"
      using digits_no_point [OF e(3)] by (metis append_Nil2 in_set_conv_decomp)
    have "cut_at (CHR ''.'') (TrimSpace d) = Some (es, replicate k (CHR ''0''))"
      unfolding cut_at_Some using e(1) k digits_no_point [OF e(3)] by (simp add: s(1))
    then have "es = ds" "zs = replicate k (CHR ''0'')" using Some ab by simp_all
    with e show "ds \<noteq> [] \<and> list_all is_digit ds \<and> digits_val 0 ds = unat n \<and> (\<exists>k. zs = replicate k (CHR ''0''))" by blast
  next
    assume r: "ds \<noteq> [] \<and> list_all is_digit ds \<and> digits_val 0 ds = unat n \<and> (\<exists>k. zs = replicate k (CHR ''0''))"
    then show "decimal_of d n"
      unfolding decimal_of_def s(1) by (intro exI [of _ ds] exI [of _ "CHR ''.'' # zs"]) auto
  qed
  moreover have "hd (TrimSpace d) = CHR ''-'' \<longrightarrow> \<not> (ds \<noteq> [] \<and> list_all is_digit ds)"
    using digits_no_point [of ds] by (cases ds) (auto simp: s(1))
  ultimately show ?thesis
    using Some ab s(1) by (simp add: DecimalString_Uint64_def Let_def Uint64_of_parse zeros) blast
qed

lemma f64_of_rat_not_NaN: "f64_of_rat x \<noteq> NaN"
  by (simp add: f64_of_rat_def Let_def)

text \<open>With finite percentages no step of the fee gives a NaN, so the range check is a real one.\<close>

lemma fee_not_NaN:
  assumes "f64_isfinite a" "f64_isfinite b"
  shows "math_Round (f64_mul (f64_div (f64_mul a b) (Fin 100)) (Fin 100)) \<noteq> NaN"
proof -
  obtain x y where xy: "a = Fin x" "b = Fin y" using assms by (auto simp: f64_isfinite_def split: f64.splits)
  define m where "m = f64_mul a b"
  define q where "q = f64_div m (Fin 100)"
  have "m \<noteq> NaN" by (simp add: m_def xy f64_of_rat_not_NaN)
  then have "q \<noteq> NaN" by (cases m) (simp_all add: q_def f64_of_rat_not_NaN f64_inf_of_sgn_def)
  then have "f64_mul q (Fin 100) \<noteq> NaN" by (cases q) (simp_all add: f64_of_rat_not_NaN f64_inf_of_sgn_def)
  then have "math_Round (f64_mul q (Fin 100)) \<noteq> NaN" by (cases "f64_mul q (Fin 100)") simp_all
  then show ?thesis by (simp add: q_def m_def)
qed

lemma math_Round_integer: "math_Round x = Fin r \<Longrightarrow> r = of_int \<lfloor>r\<rfloor>"
  by (cases x) auto

text \<open>A decoder of percentages that gives neither an infinity nor a NaN.\<close>

definition finite_floats :: "saturn_libs \<Rightarrow> bool" where
  "finite_floats l = (\<forall>v x. sa_ParseFloat l v = Some x \<longrightarrow> f64_isfinite x)"

lemma Float64_finite: "finite_floats l \<Longrightarrow> DecimalString_Float64 l d = Inr x \<Longrightarrow> f64_isfinite x"
  by (auto simp: finite_floats_def DecimalString_Float64_def Let_def split: if_splits option.splits)

lemma fee_parts:
  assumes "EffectiveFeeParts l p = Inr (num, den)" "finite_floats l"
  shows "den = 10000 \<and> (\<exists>lp pp k. DecimalString_Float64 l (sp_LPFeePercent p) = Inr lp \<and> protocol_percent l p = Inr pp
      \<and> math_Round (f64_mul (f64_div (f64_mul lp pp) (Fin 100)) (Fin 100)) = Fin (of_nat k) \<and> unat num + k = 10000)"
proof -
  obtain lp pp where lp: "DecimalString_Float64 l (sp_LPFeePercent p) = Inr lp" and pp: "protocol_percent l p = Inr pp"
    using assms(1) by (auto simp: EffectiveFeeParts_def split: sum.splits)
  let ?r = "math_Round (f64_mul (f64_div (f64_mul lp pp) (Fin 100)) (Fin 100))"
  have range: "\<not> f64_less ?r (Fin 0)" "\<not> f64_less (Fin 10000) ?r"
    and res: "den = 10000" "num = 10000 - f64_to_u64 (sa_toUint64 l) ?r"
    using assms(1) lp pp by (auto simp: EffectiveFeeParts_def Let_def saturn_FeeDenom_def split: if_splits)
  have "f64_isfinite lp" using Float64_finite [OF assms(2) lp] .
  moreover have "f64_isfinite pp"
    using pp Float64_finite [OF assms(2)] by (auto simp: protocol_percent_def f64_isfinite_def split: if_splits)
  ultimately have "?r \<noteq> NaN" by (rule fee_not_NaN)
  with range obtain r where r: "?r = Fin r" by (cases ?r) auto
  then have b: "0 \<le> r" "r \<le> 10000" using range by simp_all
  define k where "k = nat \<lfloor>r\<rfloor>"
  have k: "r = of_nat k" using math_Round_integer [OF r] b(1) by (simp add: k_def)
  have k_le: "k \<le> 10000" using b(2) k by (metis of_nat_le_iff of_nat_numeral)
  have "f64_to_u64 (sa_toUint64 l) ?r = word_of_nat k" using b k by (simp add: f64_to_u64_def r)
  moreover have "unat (10000 - word_of_nat k :: u64) = 10000 - k"
  proof -
    have u: "unat (word_of_nat k :: u64) = k" using k_le by (simp add: unsigned_of_nat take_bit_nat_eq_self)
    have "word_of_nat k \<le> (10000 :: u64)" using k_le u by (simp add: word_le_nat_alt)
    then show ?thesis using u by (simp add: unat_sub)
  qed
  ultimately show ?thesis using res r k k_le lp pp by (intro conjI exI [of _ lp] exI [of _ pp] exI [of _ k]) simp_all
qed



text \<open>Integers below \<open>2 ^ 53\<close> are doubles.\<close>

lemma f64_of_nat_exact:
  assumes "n < 2 ^ 53"
  shows "f64_of_rat (of_nat n) = Fin (of_nat n)"
proof (cases "n = 0")
  case True
  then show ?thesis by (simp add: f64_of_rat_def)
next
  case False
  define a where "a = (of_nat n :: rat)"
  have pos: "0 < a" "1 \<le> a" using False by (simp_all add: a_def)
  have small: "a < pow2 53" using assms by (simp add: a_def pow2_def)
  note b = ilog2_bounds [OF pos(1)]
  have hi: "ilog2 a < 53" using b small pow2_less_iff [of "ilog2 a" 53] by linarith
  have "pow2 0 < pow2 (ilog2 a + 1)" using b pos(2) by (simp add: pow2_def [of 0])
  then have lo: "0 \<le> ilog2 a" unfolding pow2_less_iff by simp
  define k where "k = nat (52 - ilog2 a)"
  have e: "max (- 1074) (ilog2 a - 52) = - int k" using hi lo by (simp add: k_def)
  have q: "a / pow2 (- int k) = of_int (int n * 2 ^ k)" by (simp add: pow2_def a_def)
  have "round_pos a = of_int (int n * 2 ^ k) * pow2 (- int k)" by (simp only: round_pos_def e Let_def q rne_of_int)
  also have "\<dots> = a" by (simp add: pow2_def a_def)
  finally have r: "round_pos a = a" .
  have "a < 2 ^ 1024" using small by (rule order.strict_trans) (simp add: pow2_def)
  then show ?thesis using r pos by (simp add: f64_of_rat_def a_def [symmetric])
qed

text \<open>The protocol takes all of a liquidity provider's fee of 1 percent.\<close>

definition demo_saturn_libs :: saturn_libs where
  "demo_saturn_libs = \<lparr>sa_jsonString = \<lambda>s. None,
     sa_ParseFloat = (\<lambda>s. if s = ''1'' then Some (Fin 1) else if s = ''100'' then Some (Fin 100) else None),
     sa_toUint64 = \<lambda>x. 2 ^ 63\<rparr>"

definition demo_token :: "string \<Rightarrow> string \<Rightarrow> TokenProject" where
  "demo_token pol nm = \<lparr>tp_ID = [], tp_Name = [], tp_Image = [], tp_PolicyID = pol, tp_AssetName = nm, tp_Decimals = 6,
     tp_Precision = 0, tp_Ticker = [], tp_Price = [], tp_IsVerified = True, tp_IsActive = True\<rparr>"

definition demo_saturn_pool :: saturn_Pool where
  "demo_saturn_pool = \<lparr>sp_ID = ''pool'', sp_Name = [], sp_Ticker = [], sp_LPFeePercent = ''1'', sp_ProtocolFeePercent = ''100'',
     sp_IsSwapActive = True, sp_IsLiquidityActive = True, sp_IsVerified = True, sp_TokenProjectOne = demo_token [] [],
     sp_TokenProjectTwo = demo_token [] [],
     sp_PoolStats = \<lparr>ps_PoolID = [], ps_Price = [], ps_HighestBid = [], ps_LowestAsk = [], ps_ReserveTokenOne = '' 12.000'', ps_ReserveTokenTwo = ''7'', ps_TVL = []\<rparr>\<rparr>"

lemma demo_floats: "f64_of_rat 100 = Fin 100" "f64_of_rat 1 = Fin 1"
  using f64_of_nat_exact [of 100] f64_of_nat_exact [of 1] by simp_all

lemma demo_charge:
  "DecimalString_Float64 demo_saturn_libs (sp_LPFeePercent demo_saturn_pool) = Inr (Fin 1)"
  "protocol_percent demo_saturn_libs demo_saturn_pool = Inr (Fin 100)"
  "math_Round (f64_mul (f64_div (f64_mul (Fin 1) (Fin 100)) (Fin 100)) (Fin 100)) = Fin 100"
  by (simp_all add: DecimalString_Float64_def protocol_percent_def demo_saturn_libs_def demo_saturn_pool_def TrimSpace_def
      trim_end_def is_space_def demo_floats round_half_away_def floor_eq_iff)

lemma demo_saturn_state: "\<exists>s. ToPoolState demo_saturn_libs demo_saturn_pool 5 9 = Inr s"
proof -
  have "DecimalString_Uint64 (ps_ReserveTokenOne (sp_PoolStats demo_saturn_pool)) = Inr 12"
    unfolding Uint64_exact decimal_of_def
    by (intro exI [of _ "''12''"] exI [of _ "''.000''"])
      (simp add: demo_saturn_pool_def TrimSpace_def trim_end_def is_space_def is_digit_def digit_val_def exI [of _ 3] numeral_3_eq_3)
  moreover have "DecimalString_Uint64 (ps_ReserveTokenTwo (sp_PoolStats demo_saturn_pool)) = Inr 7"
    unfolding Uint64_exact decimal_of_def
    by (intro exI [of _ "''7''"] exI [of _ "[]"])
      (simp add: demo_saturn_pool_def TrimSpace_def trim_end_def is_space_def is_digit_def digit_val_def)
  moreover have "TokenProject_AssetClass (demo_token [] []) = Inr Lovelace"
    by (simp add: TokenProject_AssetClass_def demo_token_def cleanHex_def TrimSpace_def trim_prefix_def has_prefix_def to_lower_def)
  moreover have "TrimSpace (sp_ID demo_saturn_pool) \<noteq> []" "sp_TokenProjectOne demo_saturn_pool = demo_token [] []"
    "sp_TokenProjectTwo demo_saturn_pool = demo_token [] []"
    by (simp_all add: demo_saturn_pool_def TrimSpace_def trim_end_def is_space_def)
  moreover have "EffectiveFeeParts demo_saturn_libs demo_saturn_pool
      = Inr (10000 - f64_to_u64 (sa_toUint64 demo_saturn_libs) (Fin 100), 10000)"
    unfolding EffectiveFeeParts_def demo_charge(1,2) sum.case Let_def demo_charge(3) by (simp add: saturn_FeeDenom_def)
  ultimately show ?thesis by (simp add: ToPoolState_def)
qed


text \<open>A percentage of ``NaN'' passes both range checks, and the fee is what the platform makes of it.\<close>

lemma nan_fee_accepted:
  assumes "DecimalString_Float64 l (sp_LPFeePercent p) = Inr NaN" "protocol_percent l p = Inr (Fin 30)"
  shows "EffectiveFeeParts l p = Inr (10000 - sa_toUint64 l NaN, 10000)"
  using assms by (simp add: EffectiveFeeParts_def saturn_FeeDenom_def f64_to_u64_def)

end
