(* ===== verification/Saturn_Client.thy ===== *)
theory Saturn_Client
  imports Saturnswap
begin

text \<open>
  The client of SaturnSwap's GraphQL API (\<open>dex/saturnswap/api.go\<close> and the order types of
  \<open>api_models.go\<close>): its construction, the query with every way it fails, and the four calls.

  The parser of URLs, the test for a loopback address, the JSON codec and the HTTP client are the fields
  of one record. A call gives the requests it sends beside its result.
\<close>

section \<open>The API client\<close>

record SaturnAPIError =
  ae_Message :: string
  ae_Code :: string
  ae_Link :: string

definition SaturnAPIError_Error :: "SaturnAPIError \<Rightarrow> string" where
  "SaturnAPIError_Error e = (if ae_Code e = [] then ae_Message e else ae_Code e @ '': '' @ ae_Message e)"

datatype client_error =
    ErrExternalAPIDisabled
  | NegativeTimeout
  | EndpointUnparseable
  | UnsupportedScheme string
  | HostRequired
  | HTTPClientNil
  | EndpointNotAllowed
  | ClientNil
  | QueryRequired
  | EncodeRequestFailed
  | CreateRequestFailed
  | RequestFailed
  | HTTPStatus nat
  | ReadFailed
  | ResponseTooLarge
  | DecodeResponseFailed
  | ErrGraphQL "string list"
  | MissingData
  | DecodeDataFailed
  | TickerRequired
  | NameOneWithoutPolicy
  | NameTwoWithoutPolicy
  | SameTokens
  | NoPool
  | APIErrorReturned SaturnAPIError

record parsed_url =
  pu_Scheme :: string
  pu_Host :: string
  pu_Hostname :: string

record saturn_Client =
  cl_endpoint :: string
  cl_timeout :: duration
  cl_allowInsecureHTTPForTests :: bool

text \<open>What the HTTP client returns: the status and the body as far as it can be read.\<close>

record http_answer =
  ha_Status :: nat
  ha_Body :: "bytes option"

record ('q, 'd) client_libs =
  hl_Parse :: "string \<Rightarrow> parsed_url option"
  hl_IsLoopback :: "string \<Rightarrow> bool"
  hl_Encode :: "string \<Rightarrow> 'q \<Rightarrow> bytes option"
  hl_NewRequest :: "string \<Rightarrow> bytes \<Rightarrow> bool"
  hl_Do :: "string \<Rightarrow> bytes \<Rightarrow> http_answer option"
  hl_DecodeResponse :: "bytes \<Rightarrow> (bytes \<times> string list) option"

definition saturn_Validate :: "('q, 'd) client_libs \<Rightarrow> APIConfig \<Rightarrow> client_error option" where
  "saturn_Validate l cfg =
     (if ac_Timeout cfg < 0 then Some NegativeTimeout
      else if \<not> ac_Enabled cfg then None
      else (let endpoint = (if TrimSpace (ac_Endpoint cfg) = [] then DefaultGraphQLEndpoint else TrimSpace (ac_Endpoint cfg))
            in case hl_Parse l endpoint of
                 None \<Rightarrow> Some EndpointUnparseable
               | Some u \<Rightarrow>
                   if pu_Scheme u \<noteq> ''http'' \<and> pu_Scheme u \<noteq> ''https'' then Some (UnsupportedScheme (pu_Scheme u))
                   else if pu_Host u = [] then Some HostRequired
                   else None))"

definition saturn_isAllowedEndpoint :: "('q, 'd) client_libs \<Rightarrow> parsed_url \<Rightarrow> bool \<Rightarrow> bool" where
  "saturn_isAllowedEndpoint l endpoint allowLoopbackHTTP =
     (if pu_Scheme endpoint = ''https'' then True
      else if \<not> allowLoopbackHTTP \<or> pu_Scheme endpoint \<noteq> ''http'' then False
      else EqualFold (pu_Hostname endpoint) ''localhost'' \<or> hl_IsLoopback l (pu_Hostname endpoint))"

text \<open>
  An HTTP client is its timeout (zero: none), \<open>None\<close> a nil one. The options leave the HTTP client to be
  used and whether clear text is accepted.
\<close>

datatype client_option = WithHTTPClient "duration option" | WithInsecureHTTPForTests

definition apply_options :: "client_option list \<Rightarrow> duration \<Rightarrow> duration option \<times> bool" where
  "apply_options opts timeout = foldl (\<lambda>(h, i) opt. case opt of WithHTTPClient h' \<Rightarrow> (h', i) | WithInsecureHTTPForTests \<Rightarrow> (h, True))
     (Some timeout, False) opts"

definition saturn_NewClient ::
  "('q, 'd) client_libs \<Rightarrow> APIConfig \<Rightarrow> client_option list \<Rightarrow> client_error + saturn_Client" where
  "saturn_NewClient l cfg opts =
     (if \<not> ac_Enabled cfg then Inl ErrExternalAPIDisabled
      else case saturn_Validate l cfg of
        Some e \<Rightarrow> Inl e
      | None \<Rightarrow>
          (let endpoint = (if TrimSpace (ac_Endpoint cfg) = [] then DefaultGraphQLEndpoint else TrimSpace (ac_Endpoint cfg));
               timeout = (if ac_Timeout cfg = 0 then defaultAPITimeout else ac_Timeout cfg);
               (httpClient, insecure) = apply_options opts timeout
           in case httpClient of
                None \<Rightarrow> Inl HTTPClientNil
              | Some clientTimeout \<Rightarrow> (case hl_Parse l endpoint of
                  None \<Rightarrow> Inl EndpointUnparseable
                | Some u \<Rightarrow>
                    if \<not> saturn_isAllowedEndpoint l u insecure then Inl EndpointNotAllowed
                    else Inr \<lparr>cl_endpoint = endpoint, cl_timeout = clientTimeout, cl_allowInsecureHTTPForTests = insecure\<rparr>)))"

definition maxGraphQLResponseBodySize :: nat where
  "maxGraphQLResponseBodySize = 2 ^ 20"

definition json_null :: bytes where
  "json_null = [110, 117, 108, 108]"

text \<open>\<open>Query\<close>: the requests sent, and the data with which the caller's value is filled (\<open>None\<close> without one).\<close>

definition saturn_Query ::
  "('q, 'd) client_libs \<Rightarrow> saturn_Client option \<Rightarrow> string \<Rightarrow> 'q \<Rightarrow> (bytes \<Rightarrow> 'd option) option
   \<Rightarrow> (string \<times> bytes) list \<times> (client_error + 'd option)" where
  "saturn_Query l client query0 variables out = (case client of
     None \<Rightarrow> ([], Inl ClientNil)
   | Some c \<Rightarrow>
       (let query = TrimSpace query0
        in if query = [] then ([], Inl QueryRequired)
           else case hl_Encode l query variables of
             None \<Rightarrow> ([], Inl EncodeRequestFailed)
           | Some reqBody \<Rightarrow>
               if \<not> hl_NewRequest l (cl_endpoint c) reqBody then ([], Inl CreateRequestFailed)
               else ([(cl_endpoint c, reqBody)],
                 (case hl_Do l (cl_endpoint c) reqBody of
                    None \<Rightarrow> Inl RequestFailed
                  | Some resp \<Rightarrow>
                      if ha_Status resp < 200 \<or> ha_Status resp \<ge> 300 then Inl (HTTPStatus (ha_Status resp))
                      else (case ha_Body resp of
                        None \<Rightarrow> Inl ReadFailed
                      | Some body \<Rightarrow>
                          if length body > maxGraphQLResponseBodySize then Inl ResponseTooLarge
                          else (case hl_DecodeResponse l body of
                            None \<Rightarrow> Inl DecodeResponseFailed
                          | Some (rdata, errors) \<Rightarrow>
                              if errors \<noteq> [] then Inl (ErrGraphQL errors)
                              else (case out of
                                None \<Rightarrow> Inr None
                              | Some decode \<Rightarrow>
                                  if rdata = [] \<or> rdata = json_null then Inl MissingData
                                  else (case decode rdata of None \<Rightarrow> Inl DecodeDataFailed | Some v \<Rightarrow> Inr (Some v)))))))))"

text \<open>The text of a list of GraphQL errors.\<close>

fun join_semicolon :: "string list \<Rightarrow> string" where
  "join_semicolon [] = []"
| "join_semicolon [s] = s"
| "join_semicolon (s # t # ss) = s @ ''; '' @ join_semicolon (t # ss)"

definition graphQLErrors_Error :: "string list \<Rightarrow> string" where
  "graphQLErrors_Error messages =
     (let parts = filter (\<lambda>m. m \<noteq> []) messages
      in if parts = [] then ''SaturnSwap GraphQL error'' else ''SaturnSwap GraphQL error: '' @ join_semicolon parts)"

record PoolByTokensInput =
  bt_PolicyIDOne :: string
  bt_AssetNameOne :: string
  bt_PolicyIDTwo :: string
  bt_AssetNameTwo :: string

definition validatePoolByTokensInput :: "PoolByTokensInput \<Rightarrow> client_error option" where
  "validatePoolByTokensInput i =
     (if bt_PolicyIDOne i = [] \<and> bt_AssetNameOne i \<noteq> [] then Some NameOneWithoutPolicy
      else if bt_PolicyIDTwo i = [] \<and> bt_AssetNameTwo i \<noteq> [] then Some NameTwoWithoutPolicy
      else if bt_PolicyIDOne i = bt_PolicyIDTwo i \<and> bt_AssetNameOne i = bt_AssetNameTwo i then Some SameTokens
      else None)"

text \<open>Orders: the inputs of both mutations and their results.\<close>

datatype PoolUtxoType =
    PoolUtxoTypeLimitBuyOrder
  | PoolUtxoTypeLimitSellOrder
  | PoolUtxoTypeMarketBuyOrder
  | PoolUtxoTypeMarketSellOrder
  | PoolUtxoTypeCancel
  | OtherPoolUtxoType string

record OrderBookPoolUtxo =
  ob_ID :: string
  ob_PoolID :: string
  ob_PoolUtxoID :: string
  ob_TxHash :: string
  ob_TxIndex :: u32
  ob_Type :: PoolUtxoType
  ob_Price :: string
  ob_TokenAmountBuy :: string
  ob_TokenAmountSell :: string
  ob_Raw :: bytes

text \<open>The decoder of the named fields leaves \<open>Raw\<close> empty; the receiver is kept when it fails.\<close>

definition OrderBookPoolUtxo_UnmarshalJSON ::
  "(bytes \<Rightarrow> OrderBookPoolUtxo option) \<Rightarrow> bytes \<Rightarrow> OrderBookPoolUtxo \<Rightarrow> bool \<times> OrderBookPoolUtxo" where
  "OrderBookPoolUtxo_UnmarshalJSON decode raw u = (case decode raw of
     None \<Rightarrow> (False, u)
   | Some d \<Rightarrow> (True, d\<lparr>ob_Raw := raw\<rparr>))"

record OrderTransaction =
  ot_TransactionID :: string
  ot_HexTransaction :: string

record MarketOrderComponent =
  mo_PoolID :: string
  mo_TokenAmountSell :: f64
  mo_TokenAmountBuy :: f64
  mo_MarketOrderType :: PoolUtxoType
  mo_Slippage :: f64
  mo_Version :: int

record LimitOrderComponent =
  lo_PoolID :: string
  lo_TokenAmountSell :: f64
  lo_TokenAmountBuy :: f64
  lo_LimitOrderType :: PoolUtxoType
  lo_Version :: int

record CreateOrderTransactionInput =
  ci_PaymentAddress :: string
  ci_MarketOrderComponents :: "MarketOrderComponent list"
  ci_LimitOrderComponents :: "LimitOrderComponent list"
  ci_CancelComponents :: "string list"

record CreateOrderTransactionResult =
  cr_SuccessTransactions :: "OrderTransaction list"
  cr_FailTransactions :: "SaturnAPIError option list"
  cr_Error :: "SaturnAPIError option"

record SubmitOrderTransactionInput =
  si_PaymentAddress :: string
  si_SuccessTransactions :: "OrderTransaction list"

record SubmitOrderTransactionResult =
  sr_TransactionIDs :: "string list"
  sr_Error :: "SaturnAPIError option"

text \<open>
  The calls of the API, over the query texts of the source (their names stand for them) and the
  decoders of their data. A result that carries the API's own error is returned with it.
\<close>

datatype saturn_query = PoolsByTickerQuery | PoolByTokensQuery | CreateOrderTransactionMutation | SubmitOrderTransactionMutation

datatype saturn_variables =
    TickerVar string
  | TokensVar PoolByTokensInput
  | CreateVar CreateOrderTransactionInput
  | SubmitVar SubmitOrderTransactionInput

definition PoolsByTicker ::
  "(saturn_variables, PoolConnection) client_libs \<Rightarrow> (saturn_query \<Rightarrow> string) \<Rightarrow> (bytes \<Rightarrow> PoolConnection option)
   \<Rightarrow> saturn_Client option \<Rightarrow> string \<Rightarrow> (string \<times> bytes) list \<times> (client_error + saturn_Pool list)" where
  "PoolsByTicker l text decode client ticker0 =
     (let ticker = TrimSpace ticker0
      in if ticker = [] then ([], Inl TickerRequired)
         else let (sent, r) = saturn_Query l client (text PoolsByTickerQuery) (TickerVar ticker) (Some decode)
              in (sent, (case r of Inl e \<Rightarrow> Inl e | Inr None \<Rightarrow> Inr [] | Inr (Some c) \<Rightarrow> Inr (PoolConnection_Pools c))))"

definition PoolByTokens ::
  "(saturn_variables, saturn_Pool option) client_libs \<Rightarrow> (saturn_query \<Rightarrow> string)
   \<Rightarrow> (bytes \<Rightarrow> saturn_Pool option option) \<Rightarrow> saturn_Client option \<Rightarrow> PoolByTokensInput
   \<Rightarrow> (string \<times> bytes) list \<times> (client_error + saturn_Pool)" where
  "PoolByTokens l text decode client input = (case validatePoolByTokensInput input of
     Some e \<Rightarrow> ([], Inl e)
   | None \<Rightarrow>
       (let (sent, r) = saturn_Query l client (text PoolByTokensQuery) (TokensVar input) (Some decode)
        in (sent, (case r of Inl e \<Rightarrow> Inl e | Inr (Some (Some p)) \<Rightarrow> Inr p | Inr _ \<Rightarrow> Inl NoPool))))"

text \<open>\<open>CreateOrderTransaction\<close> and \<open>SubmitOrderTransaction\<close>: the result, and the error it carries.\<close>

definition order_call ::
  "(saturn_variables, 'r) client_libs \<Rightarrow> string \<Rightarrow> (bytes \<Rightarrow> 'r option) \<Rightarrow> ('r \<Rightarrow> SaturnAPIError option)
   \<Rightarrow> saturn_Client option \<Rightarrow> saturn_variables \<Rightarrow> (string \<times> bytes) list \<times> 'r option \<times> client_error option" where
  "order_call l text decode error client input =
     (let (sent, r) = saturn_Query l client text input (Some decode)
      in (sent, (case r of
            Inl e \<Rightarrow> (None, Some e)
          | Inr None \<Rightarrow> (None, None)
          | Inr (Some res) \<Rightarrow> (Some res, map_option APIErrorReturned (error res)))))"

definition CreateOrderTransaction ::
  "(saturn_variables, CreateOrderTransactionResult) client_libs \<Rightarrow> (saturn_query \<Rightarrow> string)
   \<Rightarrow> (bytes \<Rightarrow> CreateOrderTransactionResult option) \<Rightarrow> saturn_Client option \<Rightarrow> CreateOrderTransactionInput
   \<Rightarrow> (string \<times> bytes) list \<times> CreateOrderTransactionResult option \<times> client_error option" where
  "CreateOrderTransaction l text decode client input =
     order_call l (text CreateOrderTransactionMutation) decode cr_Error client (CreateVar input)"

definition SubmitOrderTransaction ::
  "(saturn_variables, SubmitOrderTransactionResult) client_libs \<Rightarrow> (saturn_query \<Rightarrow> string)
   \<Rightarrow> (bytes \<Rightarrow> SubmitOrderTransactionResult option) \<Rightarrow> saturn_Client option \<Rightarrow> SubmitOrderTransactionInput
   \<Rightarrow> (string \<times> bytes) list \<times> SubmitOrderTransactionResult option \<times> client_error option" where
  "SubmitOrderTransaction l text decode client input =
     order_call l (text SubmitOrderTransactionMutation) decode sr_Error client (SubmitVar input)"

section \<open>Where requests go\<close>

lemma NewClient_endpoint:
  assumes "saturn_NewClient l cfg opts = Inr c"
  shows "ac_Enabled cfg \<and> (\<exists>u. hl_Parse l (cl_endpoint c) = Some u \<and> pu_Host u \<noteq> []
    \<and> (pu_Scheme u = ''https'' \<or> pu_Scheme u = ''http'' \<and> cl_allowInsecureHTTPForTests c
        \<and> (EqualFold (pu_Hostname u) ''localhost'' \<or> hl_IsLoopback l (pu_Hostname u))))"
  using assms
  by (auto simp: saturn_NewClient_def saturn_Validate_def saturn_isAllowedEndpoint_def Let_def case_prod_beta
      split: if_split_asm option.splits)

lemma Query_sends:
  "(url, body) \<in> set (fst (saturn_Query l client query variables out)) \<Longrightarrow>
     \<exists>c. client = Some c \<and> url = cl_endpoint c \<and> hl_Encode l (TrimSpace query) variables = Some body"
  by (auto simp: saturn_Query_def Let_def split: option.splits if_split_asm)

text \<open>Data reach the caller only from a complete answer with a success status and no GraphQL error.\<close>

lemma Query_data:
  assumes "snd (saturn_Query l client query variables (Some decode)) = Inr (Some v)"
  shows "\<exists>c reqBody resp body rdata. client = Some c \<and> hl_Do l (cl_endpoint c) reqBody = Some resp \<and> 200 \<le> ha_Status resp
    \<and> ha_Status resp < 300 \<and> ha_Body resp = Some body \<and> length body \<le> maxGraphQLResponseBodySize
    \<and> hl_DecodeResponse l body = Some (rdata, []) \<and> rdata \<noteq> json_null \<and> decode rdata = Some v"
  using assms by (auto simp: saturn_Query_def Let_def not_less not_le split: option.splits if_split_asm prod.splits)

text \<open>An order call returns no error exactly when the API answered with a result that carries none.\<close>

lemma order_call_ok:
  assumes "order_call l text decode error client input = (sent, res, None)"
  shows "\<exists>v. res = Some v \<and> error v = None \<and> snd (saturn_Query l client text input (Some decode)) = Inr (Some v)"
proof -
  have "snd (saturn_Query l client text input (Some decode)) \<noteq> Inr None"
    by (auto simp: saturn_Query_def Let_def split: option.splits if_split_asm prod.splits)
  then show ?thesis using assms
    by (auto simp: order_call_def case_prod_beta split: sum.splits option.splits)
qed

end
