(* ===== verification/Strike_Targets.thy ===== *)
theory Strike_Targets
  imports Prelude
begin

text \<open>
  Strike Finance perpetuals, the on-chain side (\<open>dex/strike\<close>): the candidate targets with the facts that
  must be verified before they may run, the configuration of the optional API, and the parser, which
  refuses every datum. \<open>url.Parse\<close> is a parameter: what it reports of an URL.
\<close>

section \<open>Targets\<close>

definition strike_IntegrationName :: string where
  "strike_IntegrationName = ''strike-finance-perpetuals''"

record ExternalAPIConfig =
  ea_Enabled :: bool
  ea_BaseURL :: string
  ea_PriceBaseURL :: string

record VerificationStatus =
  vs_ScriptAddresses :: bool
  vs_InterceptPoint :: bool
  vs_DatumSchema :: bool
  vs_RedeemerSchema :: bool
  vs_StateTransitions :: bool

definition strike_Complete :: "VerificationStatus \<Rightarrow> bool" where
  "strike_Complete s = (vs_ScriptAddresses s \<and> vs_InterceptPoint s \<and> vs_DatumSchema s \<and> vs_RedeemerSchema s
     \<and> vs_StateTransitions s)"

record OnChainTargets =
  oc_Network :: string
  oc_MarketStateScriptAddress :: string
  oc_OrderScriptAddress :: string
  oc_PositionScriptAddress :: string
  oc_InterceptSlot :: u64
  oc_InterceptHash :: string
  oc_Verification :: VerificationStatus
  oc_ExternalAPI :: ExternalAPIConfig

definition unverified :: VerificationStatus where
  "unverified = \<lparr>vs_ScriptAddresses = False, vs_InterceptPoint = False, vs_DatumSchema = False, vs_RedeemerSchema = False,
     vs_StateTransitions = False\<rparr>"

definition no_targets :: OnChainTargets where
  "no_targets = \<lparr>oc_Network = [], oc_MarketStateScriptAddress = [], oc_OrderScriptAddress = [], oc_PositionScriptAddress = [],
     oc_InterceptSlot = 0, oc_InterceptHash = [], oc_Verification = unverified,
     oc_ExternalAPI = \<lparr>ea_Enabled = False, ea_BaseURL = [], ea_PriceBaseURL = []\<rparr>\<rparr>"

definition MainnetTargets :: OnChainTargets where
  "MainnetTargets = no_targets\<lparr>oc_Network := ''mainnet'',
     oc_ExternalAPI := \<lparr>ea_Enabled = False, ea_BaseURL = ''https://api.strikefinance.org'',
       ea_PriceBaseURL = ''https://api.strikefinance.org/price''\<rparr>\<rparr>"

definition TestnetTargets :: OnChainTargets where
  "TestnetTargets = no_targets\<lparr>oc_Network := ''testnet'',
     oc_ExternalAPI := \<lparr>ea_Enabled = False, ea_BaseURL = ''https://api-v2-testnet.strikefinance.org'',
       ea_PriceBaseURL = ''https://api-v2-testnet.strikefinance.org/price''\<rparr>\<rparr>"

definition KnownTargets :: "OnChainTargets list" where
  "KnownTargets = [MainnetTargets, TestnetTargets]"

fun targets_loop :: "string \<Rightarrow> OnChainTargets list \<Rightarrow> OnChainTargets \<times> bool" where
  "targets_loop network [] = (no_targets, False)"
| "targets_loop network (t # ts) = (if oc_Network t = network then (t, True) else targets_loop network ts)"

definition TargetsForNetwork :: "string \<Rightarrow> OnChainTargets \<times> bool" where
  "TargetsForNetwork network = targets_loop network KnownTargets"

definition MissingVerification :: "OnChainTargets \<Rightarrow> string list" where
  "MissingVerification t =
     (if oc_Network t = [] then [''network''] else [])
   @ (if oc_MarketStateScriptAddress t = [] \<or> oc_OrderScriptAddress t = [] \<or> oc_PositionScriptAddress t = []
        \<or> \<not> vs_ScriptAddresses (oc_Verification t) then [''verified script addresses''] else [])
   @ (if oc_InterceptSlot t = 0 \<or> oc_InterceptHash t = [] \<or> \<not> vs_InterceptPoint (oc_Verification t)
        then [''verified intercept slot''] else [])
   @ (if \<not> vs_DatumSchema (oc_Verification t) then [''verified datum schema''] else [])
   @ (if \<not> vs_RedeemerSchema (oc_Verification t) then [''verified redeemer schema''] else [])
   @ (if \<not> vs_StateTransitions (oc_Verification t) then [''verified state transitions''] else [])"

definition RuntimeReady :: "OnChainTargets \<Rightarrow> bool" where
  "RuntimeReady t = (length (MissingVerification t) = 0)"

datatype strike_parse_error = ErrVerificationRequired "string list" | ErrUnsupported string

definition ValidateRuntimeEnablement :: "OnChainTargets \<Rightarrow> strike_parse_error option" where
  "ValidateRuntimeEnablement t = (if RuntimeReady t then None else Some (ErrVerificationRequired (MissingVerification t)))"

section \<open>The API configuration\<close>

record strike_url =
  su_Scheme :: string
  su_Host :: string
  su_User :: bool
  su_Path :: string
  su_RawQuery :: string
  su_Fragment :: string

datatype strike_config_error =
    ParseFailed
  | UnsupportedScheme string
  | MissingHost
  | UserNotAllowed
  | QueryNotAllowed
  | FragmentNotAllowed
  | BaseURLRequired
  | InvalidBaseURL strike_config_error
  | InvalidPriceBaseURL strike_config_error
  | NilHTTPClient
  | NilClock
  | NilNonce
  | BaseURLNotAllowed
  | PriceBaseURLNotAllowed

definition ParseBaseURL :: "(string \<Rightarrow> strike_url option) \<Rightarrow> string \<Rightarrow> strike_config_error + strike_url" where
  "ParseBaseURL parse rawURL = (case parse rawURL of
     None \<Rightarrow> Inl ParseFailed
   | Some u \<Rightarrow>
       if su_Scheme u \<noteq> ''http'' \<and> su_Scheme u \<noteq> ''https'' then Inl (UnsupportedScheme (su_Scheme u))
       else if su_Host u = [] then Inl MissingHost
       else if su_User u then Inl UserNotAllowed
       else if su_RawQuery u \<noteq> [] then Inl QueryNotAllowed
       else if su_Fragment u \<noteq> [] then Inl FragmentNotAllowed
       else Inr u)"

definition ExternalAPIConfig_Validate :: "(string \<Rightarrow> strike_url option) \<Rightarrow> ExternalAPIConfig \<Rightarrow> strike_config_error option" where
  "ExternalAPIConfig_Validate parse c =
     (if \<not> ea_Enabled c then None
      else if ea_BaseURL c = [] then Some BaseURLRequired
      else case ParseBaseURL parse (ea_BaseURL c) of
        Inl e \<Rightarrow> Some (InvalidBaseURL e)
      | Inr u \<Rightarrow>
          if ea_PriceBaseURL c = [] then None
          else (case ParseBaseURL parse (ea_PriceBaseURL c) of
            Inl e \<Rightarrow> Some (InvalidPriceBaseURL e)
          | Inr u' \<Rightarrow> None))"

section \<open>The parser\<close>

datatype Direction = DirectionLong | DirectionShort

record strike_MarketState =
  mk_MarketID :: string
  mk_BaseAssetID :: string
  mk_QuoteAssetID :: string
  mk_LongOpenInterest :: u64
  mk_ShortOpenInterest :: u64
  mk_Slot :: u64
  mk_TxHash :: string
  mk_TxIndex :: u32

record strike_PositionState =
  po_PositionID :: string
  po_MarketID :: string
  po_Owner :: string
  po_Direction :: Direction
  po_Collateral :: u64
  po_Size :: u64
  po_Slot :: u64
  po_TxHash :: string
  po_TxIndex :: u32

record strike_Redeemer =
  rd_Action :: string
  rd_Raw :: bytes

definition unverifiedSchemaError :: "string \<Rightarrow> strike_parse_error" where
  "unverifiedSchemaError subject = ErrUnsupported subject"

definition strike_ParseMarketDatum :: "OnChainTargets \<Rightarrow> bytes \<Rightarrow> string \<Rightarrow> u32 \<Rightarrow> u64 \<Rightarrow> strike_parse_error + strike_MarketState" where
  "strike_ParseMarketDatum targets datum txHash txIndex slot = Inl (unverifiedSchemaError ''market datum'')"

definition strike_ParsePositionDatum :: "OnChainTargets \<Rightarrow> bytes \<Rightarrow> string \<Rightarrow> u32 \<Rightarrow> u64 \<Rightarrow> strike_parse_error + strike_PositionState" where
  "strike_ParsePositionDatum targets datum txHash txIndex slot = Inl (unverifiedSchemaError ''position datum'')"

definition ParseRedeemer :: "OnChainTargets \<Rightarrow> bytes \<Rightarrow> strike_parse_error + strike_Redeemer" where
  "ParseRedeemer targets redeemer = Inl (unverifiedSchemaError ''redeemer'')"

section \<open>What readiness means\<close>

text \<open>A target is ready exactly when every fact is verified and every address and the starting point are given.\<close>

lemma RuntimeReady_iff:
  "RuntimeReady t \<longleftrightarrow> strike_Complete (oc_Verification t) \<and> oc_Network t \<noteq> [] \<and> oc_MarketStateScriptAddress t \<noteq> []
    \<and> oc_OrderScriptAddress t \<noteq> [] \<and> oc_PositionScriptAddress t \<noteq> [] \<and> oc_InterceptSlot t \<noteq> 0 \<and> oc_InterceptHash t \<noteq> []"
  by (auto simp: RuntimeReady_def MissingVerification_def strike_Complete_def)

lemma known_targets_not_ready: "list_all (\<lambda>t. \<not> RuntimeReady t \<and> \<not> ea_Enabled (oc_ExternalAPI t)) KnownTargets"
  by (simp add: KnownTargets_def RuntimeReady_iff strike_Complete_def MainnetTargets_def TestnetTargets_def no_targets_def
      unverified_def)

lemma TargetsForNetwork_known: "TargetsForNetwork n = (t, True) \<Longrightarrow> t \<in> set KnownTargets \<and> oc_Network t = n"
proof -
  have "targets_loop n ts = (t, True) \<Longrightarrow> t \<in> set ts \<and> oc_Network t = n" for ts
    by (induction ts) (auto split: if_split_asm)
  then show "TargetsForNetwork n = (t, True) \<Longrightarrow> t \<in> set KnownTargets \<and> oc_Network t = n"
    by (simp add: TargetsForNetwork_def)
qed

lemma ParseBaseURL_plain:
  "ParseBaseURL parse raw = Inr u \<Longrightarrow> parse raw = Some u \<and> (su_Scheme u = ''http'' \<or> su_Scheme u = ''https'') \<and> su_Host u \<noteq> []
    \<and> \<not> su_User u \<and> su_RawQuery u = [] \<and> su_Fragment u = []"
  by (auto simp: ParseBaseURL_def split: option.splits if_split_asm)

end
