(* ===== verification/Strike_Client.thy ===== *)
theory Strike_Client
  imports Strike_Targets Sha256
begin

text \<open>
  The client of Strike's optional HTTP API (\<open>batch/strike\<close>): its construction from a configuration and
  options, the requests of every call, the signature of authenticated ones and the answers.

  The parser and printer of URLs, the JSON codec, the encoder of query values, Ed25519 and the HTTP
  client are the fields of one record; the clock and the nonce are arguments of each call. A call
  gives the requests it sends, each with the headers and whether redirects are followed.
\<close>

section \<open>Signing\<close>

record signer =
  sg_publicKey :: bytes
  sg_privateKey :: bytes

record strike_request =
  rq_Method :: string
  rq_URL :: strike_url
  rq_Headers :: "(string \<times> string) list"
  rq_Body :: "bytes option"
  rq_FollowRedirects :: bool

record strike_answer =
  an_Status :: nat
  an_Body :: "bytes option"

record 'b strike_libs =
  sl_Parse :: "string \<Rightarrow> strike_url option"
  sl_String :: "strike_url \<Rightarrow> string"
  sl_EscapedPath :: "strike_url \<Rightarrow> string"
  sl_Hostname :: "string \<Rightarrow> string"
  sl_IsLoopback :: "string \<Rightarrow> bool"
  sl_EncodeQuery :: "(string \<times> string) list \<Rightarrow> string"
  sl_Marshal :: "'b \<Rightarrow> bytes option"
  sl_NewRequest :: "string \<Rightarrow> string \<Rightarrow> strike_url option"
  sl_NewKeyFromSeed :: "bytes \<Rightarrow> bytes"
  sl_Public :: "bytes \<Rightarrow> bytes"
  sl_Sign :: "bytes \<Rightarrow> bytes \<Rightarrow> bytes"
  sl_Do :: "strike_request \<Rightarrow> strike_answer option"
  sl_Envelope :: "bytes \<Rightarrow> (bytes \<times> bytes) option"

datatype strike_error =
    PublicKeySize
  | PrivateKeySize
  | KeyMismatch
  | ErrMissingSigner
  | ErrExternalAPIDisabled
  | BaseURLNil
  | MarshalFailed
  | NewRequestFailed
  | NonceFailed
  | DoFailed
  | ReadFailed
  | ResponseTooLarge
  | APIError nat
  | DecodeFailed
  | SymbolRequired
  | InvalidConfig strike_config_error

text \<open>\<open>NewEd25519Signer\<close>: keys of 32 bytes, private keys of 64.\<close>

definition NewEd25519Signer :: "'b strike_libs \<Rightarrow> bytes \<Rightarrow> bytes \<Rightarrow> strike_error + signer" where
  "NewEd25519Signer l publicKey privateKey =
     (if length publicKey \<noteq> 32 then Inl PublicKeySize
      else if length privateKey \<noteq> 32 \<and> length privateKey \<noteq> 64 then Inl PrivateKeySize
      else (let signingKey = (if length privateKey = 32 then sl_NewKeyFromSeed l privateKey else privateKey)
            in if sl_Public l signingKey \<noteq> publicKey then Inl KeyMismatch
               else Inr \<lparr>sg_publicKey = publicKey, sg_privateKey = signingKey\<rparr>))"

definition PublicKeyHex :: "signer \<Rightarrow> string" where
  "PublicKeyHex s = hex_encode (sg_publicKey s)"

definition SignPayload :: "'b strike_libs \<Rightarrow> signer \<Rightarrow> string \<Rightarrow> string" where
  "SignPayload l s payload = hex_encode (sl_Sign l (sg_privateKey s) (bytes_of_string payload))"

text \<open>\<open>strings.ToUpper\<close> on ASCII text.\<close>

definition upper_char :: "char \<Rightarrow> char" where
  "upper_char c = (let n = (of_char c :: nat) in if 97 \<le> n \<and> n \<le> 122 then char_of (n - 32) else c)"

definition to_upper :: "string \<Rightarrow> string" where
  "to_upper s = map upper_char s"

definition SignaturePayload :: "string \<Rightarrow> string \<Rightarrow> string \<Rightarrow> string \<Rightarrow> string \<Rightarrow> string" where
  "SignaturePayload meth path timestamp nonce bodyHash =
     to_upper meth @ '':'' @ path @ '':'' @ timestamp @ '':'' @ nonce @ '':'' @ bodyHash"

definition BodyHash :: "bytes \<Rightarrow> string" where
  "BodyHash body = hex_encode (Sum256 body)"

definition CanonicalRequestPath :: "'b strike_libs \<Rightarrow> strike_url \<Rightarrow> string" where
  "CanonicalRequestPath l reqURL =
     (let path = (if sl_EscapedPath l reqURL = [] then ''/'' else sl_EscapedPath l reqURL)
      in if su_RawQuery reqURL \<noteq> [] then path @ ''?'' @ su_RawQuery reqURL else path)"

definition request_payload :: "'b strike_libs \<Rightarrow> strike_request \<Rightarrow> bytes \<Rightarrow> string \<Rightarrow> string \<Rightarrow> string" where
  "request_payload l req body timestamp nonce =
     SignaturePayload (rq_Method req) (CanonicalRequestPath l (rq_URL req)) timestamp nonce (BodyHash body)"

definition SignRequest ::
  "'b strike_libs \<Rightarrow> signer option \<Rightarrow> strike_request \<Rightarrow> bytes \<Rightarrow> string \<Rightarrow> string \<Rightarrow> strike_error + strike_request" where
  "SignRequest l s req body timestamp nonce = (case s of
     None \<Rightarrow> Inl ErrMissingSigner
   | Some k \<Rightarrow>
       Inr (req\<lparr>rq_Headers := rq_Headers req @
         [(''X-API-Wallet-Public-Key'', PublicKeyHex k),
          (''X-API-Wallet-Signature'', SignPayload l k (request_payload l req body timestamp nonce)),
          (''X-API-Wallet-Timestamp'', timestamp), (''X-API-Wallet-Nonce'', nonce)]\<rparr>))"

section \<open>The nonce\<close>

text \<open>\<open>randomNonce\<close> from sixteen random bytes: the version and variant bits of a UUID are set.\<close>

definition uuid_bytes :: "bytes \<Rightarrow> bytes" where
  "uuid_bytes nonce = nonce[6 := or (and (nonce ! 6) 0x0f) 0x40, 8 := or (and (nonce ! 8) 0x3f) 0x80]"

definition randomNonce :: "bytes \<Rightarrow> string" where
  "randomNonce nonce =
     (let e = hex_encode (uuid_bytes nonce)
      in take 8 e @ ''-'' @ take 4 (drop 8 e) @ ''-'' @ take 4 (drop 12 e) @ ''-'' @ take 4 (drop 16 e) @ ''-'' @ take 12 (drop 20 e))"

section \<open>The client\<close>

record strike_options =
  so_httpClient :: bool
  so_signer :: "signer option"
  so_now :: bool
  so_nonce :: bool
  so_allowInsecureHTTPForTests :: bool

datatype strike_option =
    WithHTTPClient bool
  | WithSigner "signer option"
  | WithClock bool
  | WithNonce bool
  | WithInsecureHTTPForTests

fun apply_option :: "strike_option \<Rightarrow> strike_options \<Rightarrow> strike_options" where
  "apply_option (WithHTTPClient present) o1 = o1\<lparr>so_httpClient := present\<rparr>"
| "apply_option (WithSigner s) o1 = o1\<lparr>so_signer := s\<rparr>"
| "apply_option (WithClock present) o1 = o1\<lparr>so_now := present\<rparr>"
| "apply_option (WithNonce present) o1 = o1\<lparr>so_nonce := present\<rparr>"
| "apply_option WithInsecureHTTPForTests o1 = o1\<lparr>so_allowInsecureHTTPForTests := True\<rparr>"

definition default_options :: strike_options where
  "default_options = \<lparr>so_httpClient = True, so_signer = None, so_now = True, so_nonce = True, so_allowInsecureHTTPForTests = False\<rparr>"

record strike_Client =
  sc_enabled :: bool
  sc_baseURL :: "strike_url option"
  sc_priceBaseURL :: "strike_url option"
  sc_signer :: "signer option"

definition trim_right :: "char \<Rightarrow> string \<Rightarrow> string" where
  "trim_right c s = trim_end (\<lambda>d. d = c) s"

definition joinURLPath :: "strike_url \<Rightarrow> string \<Rightarrow> strike_url" where
  "joinURLPath baseURL path =
     (let basePath = trim_right (CHR ''/'') (su_Path baseURL); nextPath = dropWhile (\<lambda>d. d = CHR ''/'') path
      in baseURL\<lparr>su_Path := (if basePath = [] then ''/'' @ nextPath else if nextPath = [] then basePath
                             else basePath @ ''/'' @ nextPath)\<rparr>)"

definition strike_isAllowedEndpoint :: "'b strike_libs \<Rightarrow> strike_url \<Rightarrow> bool \<Rightarrow> bool" where
  "strike_isAllowedEndpoint l endpoint allowLoopbackHTTP =
     (if su_Scheme endpoint = ''https'' then True
      else if \<not> allowLoopbackHTTP \<or> su_Scheme endpoint \<noteq> ''http'' then False
      else EqualFold (sl_Hostname l (su_Host endpoint)) ''localhost'' \<or> sl_IsLoopback l (sl_Hostname l (su_Host endpoint)))"

definition strike_NewClient :: "'b strike_libs \<Rightarrow> ExternalAPIConfig \<Rightarrow> strike_option list \<Rightarrow> strike_config_error + strike_Client" where
  "strike_NewClient l config opts =
     (let options = fold apply_option opts default_options;
          insecure = so_allowInsecureHTTPForTests options
      in if \<not> so_httpClient options then Inl NilHTTPClient
         else if \<not> so_now options then Inl NilClock
         else if \<not> so_nonce options then Inl NilNonce
         else if \<not> ea_Enabled config
           then Inr \<lparr>sc_enabled = False, sc_baseURL = None, sc_priceBaseURL = None, sc_signer = so_signer options\<rparr>
         else case ExternalAPIConfig_Validate (sl_Parse l) config of
           Some e \<Rightarrow> Inl e
         | None \<Rightarrow> (case ParseBaseURL (sl_Parse l) (ea_BaseURL config) of
             Inl e \<Rightarrow> Inl (InvalidBaseURL e)
           | Inr baseURL \<Rightarrow>
               if \<not> strike_isAllowedEndpoint l baseURL insecure then Inl BaseURLNotAllowed
               else (let priceBaseURL = (if ea_PriceBaseURL config = [] then sl_String l (joinURLPath baseURL ''/price'')
                                         else ea_PriceBaseURL config)
                     in case ParseBaseURL (sl_Parse l) priceBaseURL of
                          Inl e \<Rightarrow> Inl (InvalidPriceBaseURL e)
                        | Inr price \<Rightarrow>
                            if \<not> strike_isAllowedEndpoint l price insecure then Inl PriceBaseURLNotAllowed
                            else Inr \<lparr>sc_enabled = True, sc_baseURL = Some baseURL, sc_priceBaseURL = Some price,
                                      sc_signer = so_signer options\<rparr>)))"

section \<open>Calls\<close>

definition blank_or_null :: "bytes \<Rightarrow> bool" where
  "blank_or_null raw =
     (let s = TrimSpace (map (\<lambda>b. char_of (unat b)) raw) in s = [] \<or> s = ''null'')"

definition decodeJSONEnvelope :: "'b strike_libs \<Rightarrow> (bytes \<Rightarrow> 'd option) \<Rightarrow> bytes \<Rightarrow> strike_error + 'd" where
  "decodeJSONEnvelope l decode body = (case sl_Envelope l body of
     None \<Rightarrow> Inl DecodeFailed
   | Some (rdata, result) \<Rightarrow>
       (case decode (if \<not> blank_or_null rdata then rdata else if \<not> blank_or_null result then result else body) of
          None \<Rightarrow> Inl DecodeFailed
        | Some v \<Rightarrow> Inr v))"

definition strike_maxResponseBodySize :: nat where
  "strike_maxResponseBodySize = 2 ^ 20"

text \<open>The part of \<open>doJSON\<close> after the request has been sent.\<close>

definition read_answer :: "'b strike_libs \<Rightarrow> (bytes \<Rightarrow> 'd option) option \<Rightarrow> strike_answer option \<Rightarrow> strike_error + 'd option" where
  "read_answer l out answer = (case answer of
     None \<Rightarrow> Inl DoFailed
   | Some resp \<Rightarrow> (case an_Body resp of
       None \<Rightarrow> Inl ReadFailed
     | Some respBody \<Rightarrow>
         if length respBody > strike_maxResponseBodySize then Inl ResponseTooLarge
         else if an_Status resp < 200 \<or> an_Status resp \<ge> 300 then Inl (APIError (an_Status resp))
         else (case out of
           None \<Rightarrow> Inr None
         | Some decode \<Rightarrow>
             if TrimSpace (map (\<lambda>b. char_of (unat b)) respBody) = [] then Inr None
             else map_sum id Some (decodeJSONEnvelope l decode respBody))))"

text \<open>
  \<open>doJSON\<close> on a client that is not nil: the requests sent and the result. \<open>now\<close> is the clock in seconds
  and \<open>nonce\<close> what the generator gives.
\<close>

definition doJSON ::
  "'b strike_libs \<Rightarrow> strike_Client \<Rightarrow> int \<Rightarrow> string option \<Rightarrow> strike_url option \<Rightarrow> string \<Rightarrow> string
   \<Rightarrow> (string \<times> string) list \<Rightarrow> 'b option \<Rightarrow> (bytes \<Rightarrow> 'd option) option \<Rightarrow> bool
   \<Rightarrow> strike_request list \<times> (strike_error + 'd option)" where
  "doJSON l c now nonce baseURL meth path query body out authenticated =
     (if \<not> sc_enabled c then ([], Inl ErrExternalAPIDisabled)
      else case baseURL of
        None \<Rightarrow> ([], Inl BaseURLNil)
      | Some u \<Rightarrow>
          (case (case body of None \<Rightarrow> Inr None | Some b \<Rightarrow> (case sl_Marshal l b of None \<Rightarrow> Inl MarshalFailed | Some m \<Rightarrow> Inr (Some m))) of
             Inl e \<Rightarrow> ([], Inl e)
           | Inr bodyBytes \<Rightarrow>
               (let reqURL = (joinURLPath u path)\<lparr>su_RawQuery := sl_EncodeQuery l query\<rparr>
                in case sl_NewRequest l meth (sl_String l reqURL) of
                     None \<Rightarrow> ([], Inl NewRequestFailed)
                   | Some target \<Rightarrow>
                       (let req = \<lparr>rq_Method = meth, rq_URL = target,
                              rq_Headers = (''Accept'', ''application/json'')
                                # (if bodyBytes = None then [] else [(''Content-Type'', ''application/json'')]),
                              rq_Body = bodyBytes, rq_FollowRedirects = \<not> authenticated\<rparr>;
                            signed = (if \<not> authenticated then Inr req
                              else case nonce of
                                None \<Rightarrow> Inl NonceFailed
                              | Some n \<Rightarrow> SignRequest l (sc_signer c) req (case bodyBytes of None \<Rightarrow> [] | Some b \<Rightarrow> b) (show_int now) n)
                        in case signed of
                             Inl e \<Rightarrow> ([], Inl e)
                           | Inr req' \<Rightarrow> ([req'], read_answer l out (sl_Do l req'))))))"

text \<open>The calls evaluate \<open>c.baseURL\<close> before \<open>doJSON\<close> looks at the client: a nil client panics, \<open>None\<close>.\<close>

definition strike_Ping ::
  "'b strike_libs \<Rightarrow> strike_Client option \<Rightarrow> (strike_request list \<times> (strike_error + unit option)) option" where
  "strike_Ping l client = (case client of
     None \<Rightarrow> None
   | Some c \<Rightarrow> Some (doJSON l c 0 None (sc_baseURL c) ''GET'' ''/v2/ping'' [] None None False))"

record ServerTime =
  tm_ServerTime :: int
  tm_Time :: int
  tm_Timestamp :: int

definition UnixMilliseconds :: "ServerTime \<Rightarrow> int" where
  "UnixMilliseconds t = (if tm_ServerTime t \<noteq> 0 then tm_ServerTime t else if tm_Timestamp t \<noteq> 0 then tm_Timestamp t else tm_Time t)"

definition strike_ServerTime ::
  "'b strike_libs \<Rightarrow> (bytes \<Rightarrow> ServerTime option) \<Rightarrow> strike_Client option
   \<Rightarrow> (strike_request list \<times> (strike_error + ServerTime)) option" where
  "strike_ServerTime l decode client = (case client of
     None \<Rightarrow> None
   | Some c \<Rightarrow>
       (let (sent, r) = doJSON l c 0 None (sc_baseURL c) ''GET'' ''/v2/time'' [] None (Some decode) False
        in Some (sent, map_sum id (\<lambda>v. case v of None \<Rightarrow> \<lparr>tm_ServerTime = 0, tm_Time = 0, tm_Timestamp = 0\<rparr> | Some t \<Rightarrow> t) r)))"

definition strike_MarkPrice ::
  "'b strike_libs \<Rightarrow> (bytes \<Rightarrow> 'p option) \<Rightarrow> strike_Client option \<Rightarrow> string
   \<Rightarrow> (strike_request list \<times> (strike_error + 'p option)) option" where
  "strike_MarkPrice l decode client symbol0 =
     (let symbol = to_upper (TrimSpace symbol0)
      in if symbol = [] then Some ([], Inl SymbolRequired)
         else case client of
           None \<Rightarrow> None
         | Some c \<Rightarrow> Some (doJSON l c 0 None (sc_priceBaseURL c) ''GET'' ''/v2/markPrice'' [(''symbol'', symbol)] None (Some decode) False))"

definition DoAuthenticated ::
  "'b strike_libs \<Rightarrow> strike_Client option \<Rightarrow> int \<Rightarrow> string option \<Rightarrow> string \<Rightarrow> string \<Rightarrow> (string \<times> string) list
   \<Rightarrow> 'b option \<Rightarrow> (bytes \<Rightarrow> 'd option) option \<Rightarrow> (strike_request list \<times> (strike_error + 'd option)) option" where
  "DoAuthenticated l client now nonce meth path query body out = (case client of
     None \<Rightarrow> None
   | Some c \<Rightarrow> Some (doJSON l c now nonce (sc_baseURL c) meth path query body out True))"

definition strike_Enabled :: "strike_Client option \<Rightarrow> bool" where
  "strike_Enabled client = (case client of None \<Rightarrow> False | Some c \<Rightarrow> sc_enabled c)"

section \<open>The signed text\<close>

lemma split_first: "c \<notin> set a \<Longrightarrow> c \<notin> set a' \<Longrightarrow> a @ c # b = a' @ c # b' \<longleftrightarrow> a = a' \<and> b = b'"
proof (induction a arbitrary: a')
  case Nil
  then show ?case by (cases a') auto
next
  case (Cons x a)
  then show ?case by (cases a') auto
qed

lemma split_last: "c \<notin> set b \<Longrightarrow> c \<notin> set b' \<Longrightarrow> a @ c # b = a' @ c # b' \<longleftrightarrow> a = a' \<and> b = b'"
  using split_first [of c "rev b" "rev b'" "rev a" "rev a'"]
  by (metis append_Cons append_Nil append_assoc rev.simps(2) rev_append rev_is_rev_conv set_rev)

lemma upper_char_colon: "upper_char c = CHR '':'' \<longleftrightarrow> c = CHR '':''"
proof (cases "97 \<le> (of_char c :: nat) \<and> (of_char c :: nat) \<le> 122")
  case True
  define n where "n = (of_char c :: nat) - 32"
  have "n < 256" "n \<noteq> 58" using True unfolding n_def by linarith+
  then have n: "upper_char c = char_of n" "n mod 256 = n" "n \<noteq> 58"
    using True by (simp_all add: upper_char_def n_def [symmetric])
  have "(of_char (char_of n :: char) :: nat) \<noteq> of_char (CHR '':'')" using n(2,3) by simp
  then have "upper_char c \<noteq> CHR '':''" unfolding n(1) by metis
  moreover have "c \<noteq> CHR '':''" using True by auto
  ultimately show ?thesis by blast
next
  case False
  then show ?thesis by (auto simp: upper_char_def Let_def)
qed

lemma to_upper_colon: "CHR '':'' \<in> set (to_upper s) \<longleftrightarrow> CHR '':'' \<in> set s"
proof -
  have "CHR '':'' = upper_char c \<longleftrightarrow> CHR '':'' = c" for c using upper_char_colon [of c] by metis
  then show ?thesis by (simp add: to_upper_def image_iff)
qed

definition no_colon :: "string \<Rightarrow> bool" where
  "no_colon s = (CHR '':'' \<notin> set s)"

text \<open>The five parts can be read back from the text that is signed, whatever the path holds.\<close>

lemma SignaturePayload_inject:
  assumes "no_colon m" "no_colon t" "no_colon n" "no_colon b" "no_colon m'" "no_colon t'" "no_colon n'" "no_colon b'"
  shows "SignaturePayload m p t n b = SignaturePayload m' p' t' n' b'
    \<longleftrightarrow> to_upper m = to_upper m' \<and> p = p' \<and> t = t' \<and> n = n' \<and> b = b'"
proof -
  have parts: "SignaturePayload m p t n b = to_upper m @ CHR '':'' # (((p @ CHR '':'' # t) @ CHR '':'' # n) @ CHR '':'' # b)" for m p t n b
    by (simp add: SignaturePayload_def)
  show ?thesis
    using assms unfolding parts no_colon_def by (simp only: split_first split_last to_upper_colon not_False_eq_True) blast
qed

lemma hex_no_colon: "no_colon (hex_encode b)"
proof -
  have "\<not> is_hex (CHR '':'')" by code_simp
  then show ?thesis unfolding no_colon_def by (rule hex_encode_no_sep)
qed

lemma show_int_no_colon: "no_colon (show_int i)"
proof -
  have "no_colon (show_nat n)" for n
    using show_nat_not_sign [of "CHR '':''" n] by (auto simp: no_colon_def is_digit_def)
  then show ?thesis by (simp add: show_int_def no_colon_def)
qed

lemma BodyHash_no_colon: "no_colon (BodyHash b)"
  by (simp add: BodyHash_def hex_no_colon)

section \<open>The nonce is a version 4 UUID\<close>

lemma randomNonce_no_colon: "no_colon (randomNonce bs)"
proof -
  have "CHR '':'' \<notin> set (take i (drop j (hex_encode b)))" for i j b
    using hex_no_colon [of b] by (meson in_set_dropD in_set_takeD no_colon_def)
  from this [of _ 0] this show ?thesis by (simp add: randomNonce_def no_colon_def Let_def)
qed

lemma uuid_bits:
  fixes b :: u8
  shows "unat (or (and b 0x0f) 0x40) div 16 = 4" and "unat (or (and b 0x3f) 0x80) div 16 \<in> {8, 9, 10, 11}"
proof -
  have d: "unat x div 16 = unat (drop_bit 4 x)" for x :: u8 by (simp add: drop_bit_eq_div unat_div)
  have "drop_bit 4 (or (and b 0x0f) 0x40) = (4 :: u8)" by (simp add: drop_bit_or drop_bit_and)
  then show "unat (or (and b 0x0f) 0x40) div 16 = 4" by (simp add: d)
  have q: "drop_bit 4 (or (and b 0x3f) 0x80) = or (and (drop_bit 4 b) 3) (8 :: u8)" by (simp add: drop_bit_or drop_bit_and)
  have "unat (or (and x 3) (8 :: u8)) \<in> {8, 9, 10, 11}" for x :: u8
  proof -
    define n where "n = unat (x mod 4)"
    have m: "and x 3 = x mod 4" using take_bit_eq_mask [of 2 x] by (simp add: take_bit_eq_mod mask_numeral)
    have "n < 4" by (simp add: n_def unat_mod)
    moreover have "x mod 4 = word_of_nat n" by (simp add: n_def)
    ultimately have "and x 3 \<in> {0, 1, 2, 3}" unfolding m
      by (auto simp: less_Suc_eq numeral_eq_Suc)
    then show ?thesis by auto
  qed
  then show "unat (or (and b 0x3f) 0x80) div 16 \<in> {8, 9, 10, 11}" by (simp only: d q)
qed


lemma hex_chars: "hex_char 4 = CHR ''4''" "hex_char 8 = CHR ''8''" "hex_char 9 = CHR ''9''" "hex_char 10 = CHR ''a''"
  "hex_char 11 = CHR ''b''"
  by code_simp+

lemma randomNonce_uuid:
  assumes "length bs = 16"
  shows "length (randomNonce bs) = 36" and "randomNonce bs ! 14 = CHR ''4''"
    and "randomNonce bs ! 19 \<in> set ''89ab''"
proof -
  obtain b0 b1 b2 b3 b4 b5 b6 b7 b8 b9 c0 c1 c2 c3 c4 c5
    where bs: "bs = [b0, b1, b2, b3, b4, b5, b6, b7, b8, b9, c0, c1, c2, c3, c4, c5]"
    using assms by (auto simp: numeral_eq_Suc length_Suc_conv)
  define v where "v = or (and b6 0x0f) (0x40 :: u8)"
  define w where "w = or (and b8 0x3f) (0x80 :: u8)"
  have e: "uuid_bytes bs = [b0, b1, b2, b3, b4, b5, v, b7, w, b9, c0, c1, c2, c3, c4, c5]"
    by (simp add: uuid_bytes_def bs v_def w_def)
  show "length (randomNonce bs) = 36" by (simp add: randomNonce_def e Let_def)
  show "randomNonce bs ! 14 = CHR ''4''"
    using uuid_bits(1) [of b6] by (simp add: randomNonce_def e Let_def v_def [symmetric] hex_chars)
  have "hex_char d \<in> set ''89ab''" if "d \<in> {8, 9, 10, 11}" for d using that by (auto simp: hex_chars)
  then have "hex_char (unat w div 16) \<in> set ''89ab''" using uuid_bits(2) [of b8] by (simp only: w_def)
  moreover have "randomNonce bs ! 19 = hex_char (unat w div 16)" by (simp add: randomNonce_def e Let_def)
  ultimately show "randomNonce bs ! 19 \<in> set ''89ab''" by simp
qed

section \<open>Where requests go and what they carry\<close>

text \<open>Printing an URL and parsing it again, as the construction of a request does, keeps scheme and host.\<close>

definition url_round_trip :: "'b strike_libs \<Rightarrow> bool" where
  "url_round_trip l = (\<forall>m u v. sl_NewRequest l m (sl_String l u) = Some v \<longrightarrow> su_Scheme v = su_Scheme u \<and> su_Host v = su_Host u)"

lemma NewClient_urls:
  assumes "strike_NewClient l cfg opts = Inr c"
  shows "sc_enabled c = ea_Enabled cfg"
    and "u \<in> set_option (sc_baseURL c) \<union> set_option (sc_priceBaseURL c) \<Longrightarrow>
      strike_isAllowedEndpoint l u (so_allowInsecureHTTPForTests (fold apply_option opts default_options))"
  using assms by (auto simp: strike_NewClient_def Let_def split: if_split_asm option.splits sum.splits)

lemma joinURLPath_keeps: "su_Scheme (joinURLPath u p) = su_Scheme u" "su_Host (joinURLPath u p) = su_Host u"
  by (simp_all add: joinURLPath_def Let_def)

lemma isAllowed_same: "su_Scheme v = su_Scheme u \<Longrightarrow> su_Host v = su_Host u \<Longrightarrow> strike_isAllowedEndpoint l v b = strike_isAllowedEndpoint l u b"
  by (simp add: strike_isAllowedEndpoint_def)

lemma doJSON_requests:
  assumes "req \<in> set (fst (doJSON l c now nonce baseURL meth path query body out authenticated))"
  shows "sc_enabled c \<and> rq_Method req = meth \<and> rq_FollowRedirects req = (\<not> authenticated) \<and> (\<exists>u. baseURL = Some u
      \<and> sl_NewRequest l meth (sl_String l ((joinURLPath u path)\<lparr>su_RawQuery := sl_EncodeQuery l query\<rparr>)) = Some (rq_URL req))"
    and "authenticated \<Longrightarrow> \<exists>s n. sc_signer c = Some s \<and> nonce = Some n \<and>
      (''X-API-Wallet-Signature'', SignPayload l s (request_payload l req (case rq_Body req of None \<Rightarrow> [] | Some b \<Rightarrow> b) (show_int now) n))
        \<in> set (rq_Headers req)
      \<and> (''X-API-Wallet-Timestamp'', show_int now) \<in> set (rq_Headers req) \<and> (''X-API-Wallet-Nonce'', n) \<in> set (rq_Headers req)"
  using assms
  by (auto simp: doJSON_def SignRequest_def request_payload_def Let_def split: if_split_asm option.splits sum.splits)


text \<open>Data come only from an answer with a success status and of bounded size.\<close>

lemma answer_checked:
  fixes v :: 'd
  assumes "snd (doJSON l c now nonce baseURL meth path query body (Some decode) authenticated) = Inr (Some v)"
  shows "\<exists>req resp respBody. sl_Do l req = Some resp \<and> an_Body resp = Some respBody \<and> length respBody \<le> strike_maxResponseBodySize
    \<and> 200 \<le> an_Status resp \<and> an_Status resp < 300 \<and> decodeJSONEnvelope l decode respBody = Inr v"
proof -
  obtain req where "read_answer l (Some decode) (sl_Do l req) = Inr (Some v)"
    using assms by (auto simp: doJSON_def Let_def split: if_split_asm option.splits sum.splits)
  moreover have "map_sum id Some r = Inr (Some v) \<longleftrightarrow> r = Inr v" for r :: "strike_error + 'd"
    by (cases r) auto
  ultimately show ?thesis
    by (intro exI [of _ req]) (auto simp: read_answer_def not_less not_le split: option.splits if_split_asm)
qed

text \<open>A nil client: the calls that name its URL panic before the check that would refuse them.\<close>

lemma nil_client_panics:
  "strike_Ping l None = None" "strike_ServerTime l decode None = None"
  "DoAuthenticated l None now nonce meth path query body out = None"
  by (simp_all add: strike_Ping_def strike_ServerTime_def DoAuthenticated_def)

section \<open>An authenticated request\<close>

definition strike_host :: strike_url where
  "strike_host = \<lparr>su_Scheme = ''https'', su_Host = ''api.strikefinance.org'', su_User = False, su_Path = [], su_RawQuery = [],
     su_Fragment = []\<rparr>"

definition demo_strike_libs :: "unit strike_libs" where
  "demo_strike_libs = \<lparr>sl_Parse = \<lambda>s. Some strike_host, sl_String = (\<lambda>u. if su_Scheme u = ''https'' \<and> su_Host u = ''api.strikefinance.org'' then ''https://api.strikefinance.org'' else []), sl_EscapedPath = su_Path,
     sl_Hostname = \<lambda>h. h, sl_IsLoopback = \<lambda>h. False, sl_EncodeQuery = \<lambda>q. [], sl_Marshal = \<lambda>b. Some [],
     sl_NewRequest = (\<lambda>m s. if s = [] then None else Some strike_host), sl_NewKeyFromSeed = \<lambda>s. s, sl_Public = \<lambda>k. k, sl_Sign = \<lambda>k t. t,
     sl_Do = \<lambda>r. None, sl_Envelope = \<lambda>b. None\<rparr>"


definition demo_strike_client :: strike_Client where
  "demo_strike_client = \<lparr>sc_enabled = True, sc_baseURL = Some strike_host, sc_priceBaseURL = Some strike_host,
     sc_signer = Some \<lparr>sg_publicKey = [], sg_privateKey = []\<rparr>\<rparr>"

lemma demo_strike_new:
  "strike_NewClient demo_strike_libs \<lparr>ea_Enabled = True, ea_BaseURL = ''b'', ea_PriceBaseURL = []\<rparr>
     [WithSigner (Some \<lparr>sg_publicKey = [], sg_privateKey = []\<rparr>)] = Inr demo_strike_client"
  by (simp add: strike_NewClient_def default_options_def demo_strike_libs_def ExternalAPIConfig_Validate_def ParseBaseURL_def
      strike_host_def strike_isAllowedEndpoint_def demo_strike_client_def Let_def)


end
