(* ===== verification/Spec2Isabelle.thy ===== *)
theory Spec2Isabelle
  imports Twap Agreement Durability Oracle_Pools Indexer Lending Spectrum_Service Node_Serving Node_Outbound Startup Api_Streams
    Node_Start Service_Settings Saturn_Client Strike_Client
begin

text \<open>
  Shai follows the Cardano chain, keeps the state of the pools, positions and lending markets that a set
  of profiles names, publishes prices and volumes computed from them over HTTP and WebSocket, batches
  swap orders of Spectrum pools, and relays blocks and transactions to other nodes. This library
  models its Go sources, file by file, and proves what the parts promise each other.

  \<^bold>\<open>Parts and how they interact.\<close>
  The indexer (\<open>internal/indexer\<close>) receives the chain's events and passes each to the handlers that were
  registered with it: the wallet bookkeeping, the watches, the node's chain-sync server, one oracle per
  profile and the batcher. An oracle (\<open>internal/oracle\<close>) parses the outputs at its profile's addresses
  with a parser of \<open>dex\<close>, feeds the activity tracker and the mempool overlay, writes to its store and
  notifies subscribers; the API reads its state and streams its updates. The price packages (\<open>price\<close>)
  turn the pool states into an ADA/USD estimate, a time-weighted average and a comparison with the Djed
  oracle. The batcher (\<open>internal/spectrum\<close>) answers orders seen in the node's mempool with transactions
  that leave through \<open>internal/txsubmit\<close> and the node's outbound connections. \<open>cmd/shai\<close> starts all of
  it from the configuration.

  \<^bold>\<open>Theories and sources.\<close>
  \<^item> Shared. \<open>Prelude\<close>: machine integers, text, Go maps as association lists, time. \<open>Rollback_Log\<close>: the
    contract of everything that follows the chain under rollbacks, as a locale. \<open>Float64\<close>: Go's
    \<open>float64\<close> by exact rationals and rounding. \<open>Sha256\<close>: the hash of store keys and request bodies.
    \<open>Common\<close>: \<open>common/types.go\<close>. \<open>Cbor\<close>: the decoders of the CBOR library, as a parameter.
  \<^item> Pools. \<open>Pool\<close>: \<open>dex/models.go\<close>, the state, prices and quotes. \<open>Reserves\<close>: what the parsers share,
    and their interface as the locale \<open>pool_parser\<close>. \<open>Minswap\<close>, \<open>Sundaeswap\<close>, \<open>Splash\<close>, \<open>Wingriders\<close>,
    \<open>Cswap\<close>, \<open>Vyfi\<close>: the parsers of the directories of these names. \<open>Dex_Parsers\<close>: \<open>dex/locator.go\<close> and
    the choice of a parser. \<open>Activity\<close>: \<open>dex/activity.go\<close>, \<open>activity_state.go\<close>.
  \<^item> Prices. \<open>Twap\<close>: \<open>price/twap.go\<close>. \<open>Ada_Usd\<close>: \<open>price/ada_usd.go\<close>, \<open>stablecoins.go\<close>. \<open>Djed\<close>:
    \<open>price/djed\<close>. \<open>Agreement\<close>: \<open>price/agreement.go\<close>.
  \<^item> Oracle. \<open>Mempool\<close>: \<open>internal/oracle/mempool.go\<close>. \<open>Oracle_Storage\<close>: \<open>storage.go\<close>,
    \<open>activity_storage.go\<close>. \<open>Oracle\<close>: \<open>oracle.go\<close>. \<open>Oracle_Pools\<close>: an oracle with one of the parsers.
    \<open>Durability\<close>: memory against store. \<open>Indigo\<close>: \<open>internal/oracle/indigo\<close>. \<open>Liqwid\<close>: \<open>dex/liqwid\<close>.
    \<open>Lending_State\<close>: \<open>lending_adapters.go\<close>, \<open>lending_storage.go\<close>. \<open>Lending\<close>: \<open>lending_oracle.go\<close>.
    \<open>Oracle_Api\<close>: the handlers of \<open>api.go\<close>. \<open>Api_Streams\<close>: \<open>lending_api.go\<close> and both kinds of stream.
  \<^item> Indexer. \<open>Watches\<close>: \<open>internal/indexer/watches.go\<close>. \<open>Wallet_Store\<close>: \<open>internal/storage\<close>. \<open>Indexer\<close>:
    \<open>internal/indexer/indexer.go\<close>.
  \<^item> Batcher. \<open>Spectrum_Models\<close>, \<open>Spectrum_Pool\<close>, \<open>Spectrum_Swap\<close>, \<open>Spectrum_Service\<close>: \<open>models.go\<close>,
    \<open>pool.go\<close>, \<open>tx.go\<close> with \<open>reference_scripts.go\<close>, and \<open>spectrum.go\<close> of \<open>internal/spectrum\<close>.
  \<^item> Node. \<open>Node_Mempool\<close>: the mempool of \<open>internal/node/txsubmission.go\<close> and \<open>localtxsubmission.go\<close>.
    \<open>Node_Chainsync\<close>, \<open>Node_Serving\<close>: \<open>chainsync.go\<close>, \<open>peersharing.go\<close> and what one peer gets from them.
    \<open>Node_Outbound\<close>: outgoing transactions (\<open>txsubmission.go\<close>, \<open>node.go\<close>, \<open>internal/txsubmit\<close>).
    \<open>Node_Start\<close>: listening, accepting and dialling (\<open>node.go\<close>).
  \<^item> Service. \<open>Configuration\<close>: \<open>internal/config\<close> with every profile. \<open>Service_Settings\<close>: networks, logger
    level and version. \<open>Startup\<close>: \<open>cmd/shai/main.go\<close>, \<open>internal/wallet\<close>, \<open>cmd/mk-script-address\<close>.
  \<^item> Optional clients. \<open>Saturnswap\<close>, \<open>Saturn_Client\<close>: \<open>dex/saturnswap\<close>. \<open>Strike_Targets\<close>,
    \<open>Strike_Client\<close>: \<open>dex/strike\<close>, \<open>batch/strike\<close>.

  \<^bold>\<open>How the code is modelled.\<close>
  A struct is a record with its fields, an operation a function from the state to the result and the
  state afterwards. An error is a value of the component's error type (the left summand, or an option
  where only its presence matters); a run-time panic is \<open>None\<close> or a constructor of its own, and so is an
  operation that blocks for ever. \<open>uint64\<close> and \<open>uint32\<close> are words, so sums and products wrap; times
  and durations are nanoseconds; \<open>big.Rat\<close> is \<open>rat\<close>. A Go map is an association list whose order is the
  order one iteration takes. What a mutex protects is one step. Concurrency that outlives a lock is a
  step relation over all interleavings: the watches' callbacks, the catch-up log, a peer's connection, a
  sender that holds a lock, and the streams.

  \<^bold>\<open>Parameters.\<close>
  Code that is not in the repository is an argument of the definitions that use it: the CBOR, ledger,
  address and wallet libraries, the transaction builder, Badger's limits and the outcome of its
  commits, the URL, JSON and YAML decoders, Ed25519, the HTTP client, the connection library and the
  network. Hypotheses about them state what is documented of them (a decoder reads back what the
  encoder wrote, a finite text parses to a finite number, a printed URL parses to itself), and each
  theorem that has one is applied to a concrete instance in its theory.

  \<^bold>\<open>What the lemmas show.\<close>
  \<^item> Arithmetic: a quote never lowers the product of the reserves and a round trip never gains; the
    batcher pays what the oracle quotes; a swap conserves value; the fee in floating point is the
    rounded quotient; the weighted median halves the weight; the time-weighted average is the integral
    of the step function over its coverage, divided by it.
  \<^item> Bounded memory: pruning of the activity tracker and of the average is not observable inside the
    window; the subscribers' channels keep their bound.
  \<^item> Rollbacks: every log of the chain keeps exactly the entries that survive (the interpretations of
    \<open>rollback_log\<close> in \<open>Activity\<close>, \<open>Twap\<close>, \<open>Djed\<close>, \<open>Oracle\<close> and \<open>Oracle_Storage\<close>); the batched rollback of
    the store ends, can be repeated after a failure and removes exactly the swaps it should.
  \<^item> Persistence: memory and store agree after each successful step, and a restart recovers the state,
    for pools and for lending; the wallet's store holds exactly the unspent outputs.
  \<^item> Parsers: the interface holds for each parser and for the choice among them; the pools they give can
    be quoted, and an identifier is not shared by pools of different assets where it is made of them;
    decoders read back what the encoders of datums write.
  \<^item> Delivery: watches refine a plain list and no callback runs after shutdown; subscribers and streams
    receive the updates in order; a peer that keeps asking builds the node's chain; an outgoing
    transaction is announced to each connection once; a host of the topology is dialled until it answers.
  \<^item> The service as a whole: which configurations start and with what; which page may open a stream;
    when a volume request is answered; what an API client sends, and where.
  \<^item> The sections on what the code does not do (for example \<open>Limits of the code\<close>, \<open>Where it stops\<close>, \<open>Where
    the peer is left behind\<close>) exhibit the runs behind the recorded findings.

  \<^bold>\<open>Interfaces.\<close>
  \<open>rollback_log\<close>, \<open>pool_parser\<close>, \<open>lending_source\<close> and \<open>key_index\<close> are locales, each interpreted on
  the definitions of the components that provide it; the properties rest on the interpreted facts.

  \<^bold>\<open>Bounds.\<close>
  No definition has fuel. Every loop recurs on its input or on a smaller number but one, the batched
  rollback of the activity, whose termination is proved by the number of entries left in the store; loops
  without an end of their own (accepting, reconnecting, workers) are modelled by one round, or over
  the list of what their rounds meet. Capacities are the source's: 100 updates for a subscriber, 20
  transactions for a connection, the recent blocks of the chain-sync server, and
  \<open>2 ^ 20\<close> bytes for an answer of an API.

  \<^bold>\<open>Not modelled.\<close>
  \<^item> Rendering: JSON and log lines, HTTP headers beside those a check reads, and the texts of errors.
    Errors are told apart by their constructors.
  \<^item> Text beyond ASCII where case or white space matters.
  \<^item> The protocols of the connection, WebSocket and HTTP libraries, their deadlines and timers: a
    message gets through or fails.
  \<^item> Memory: a deep copy of a value is the value, and aliasing inside a copy is not tracked.
  \<^item> The building and signing of a transaction inside the Apollo library; what is given to it and what
    the code checks of its result is modelled.
  \<^item> Re-exports (\<open>internal/oracle/liqwid.go\<close>, \<open>indigo.go\<close>, \<open>dex.go\<close>), which name the same definitions,
    and delegating methods, which call one modelled operation.
  \<^item> Copies of the asset lookup in the SundaeSwap, Splash and CSWAP packages: \<open>Reserves\<close> has the common text.
  \<^item> The tests and the test data.
\<close>

end
